(* ===== verification/Prelude.thy ===== *)
theory Prelude
  imports Main "HOL-Library.Word" "HOL-Library.Monad_Syntax"
begin

unbundle bit_operations_syntax

text \<open>
  The vocabulary every component of the model shares.

  \<^item> Machine integers are words of their width (\<open>u8\<close>, \<open>u16\<close>, \<open>u32\<close>, \<open>u64\<close>), so that
    arithmetic wraps as it does in a release build of the program, which has no overflow
    checks. An \<open>i32\<close> is a 32-bit word that \<open>sint\<close> reads. A \<open>usize\<close> that only ever holds
    the length of something in memory, or an index into it, is a \<open>nat\<close>.
  \<^item> A Rust \<open>Result\<close> is a sum with the error on the left; \<open>rbind\<close> is the question mark
    operator. An \<open>Option\<close> is an \<open>option\<close> and its question mark is the do-notation of
    \<open>Monad_Syntax\<close>.
  \<^item> Fixed-width integers travel in little-endian order: \<open>le_bytes\<close> is \<open>to_le_bytes\<close> and
    \<open>of_le\<close> is \<open>from_le_bytes\<close>.
  \<^item> Decimal text is what \<open>format!\<close> prints for an integer and what \<open>str::parse\<close> accepts.
\<close>

section \<open>Types\<close>

type_synonym u8 = "8 word"
type_synonym u16 = "16 word"
type_synonym u32 = "32 word"
type_synonym i32 = "32 word"
type_synonym u64 = "64 word"
type_synonym bytes = "8 word list"

type_synonym ('a, 'e) result = "'e + 'a"

abbreviation Ok :: "'a \<Rightarrow> ('a, 'e) result" where "Ok \<equiv> Inr"
abbreviation Err :: "'e \<Rightarrow> ('a, 'e) result" where "Err \<equiv> Inl"

named_theorems le_simps "little-endian integers"
named_theorems codec_simps "reading back what an encoder wrote"

section \<open>Results\<close>

definition rbind :: "('a, 'e) result \<Rightarrow> ('a \<Rightarrow> ('b, 'e) result) \<Rightarrow> ('b, 'e) result" where
  "rbind m f = (case m of Inl e \<Rightarrow> Inl e | Inr a \<Rightarrow> f a)"

definition rguard :: "bool \<Rightarrow> 'e \<Rightarrow> (unit, 'e) result" where
  "rguard b e = (if b then Inr () else Inl e)"

definition ok_or :: "'e \<Rightarrow> 'a option \<Rightarrow> ('a, 'e) result" where
  "ok_or e x = (case x of None \<Rightarrow> Inl e | Some a \<Rightarrow> Inr a)"

definition is_ok :: "('a, 'e) result \<Rightarrow> bool" where
  "is_ok r = (case r of Inl _ \<Rightarrow> False | Inr _ \<Rightarrow> True)"

lemma rbind_simps [simp]:
  "rbind (Inl e) f = Inl e"
  "rbind (Inr a) f = f a"
  by (simp_all add: rbind_def)

lemma rbind_Inr_iff: "rbind m f = Inr b \<longleftrightarrow> (\<exists>a. m = Inr a \<and> f a = Inr b)"
  by (cases m) simp_all

lemma rbind_Inl_iff: "rbind m f = Inl e \<longleftrightarrow> m = Inl e \<or> (\<exists>a. m = Inr a \<and> f a = Inl e)"
  by (cases m) simp_all

lemma rguard_simps [simp]:
  "rguard True e = Inr ()"
  "rguard False e = Inl e"
  by (simp_all add: rguard_def)

lemma rguard_iff: "rguard b e = Inr u \<longleftrightarrow> b" "rguard b e = Inl e' \<longleftrightarrow> \<not> b \<and> e' = e"
  by (auto simp: rguard_def)

lemma ok_or_simps [simp]:
  "ok_or e None = Inl e"
  "ok_or e (Some a) = Inr a"
  by (simp_all add: ok_or_def)

lemma ok_or_Inr_iff: "ok_or e x = Inr a \<longleftrightarrow> x = Some a"
  by (cases x) simp_all

lemma ok_or_Inl_iff: "ok_or e x = Inl e' \<longleftrightarrow> x = None \<and> e' = e"
  by (cases x) auto

lemma is_ok_simps [simp]: "is_ok (Inr a)" "\<not> is_ok (Inl e)"
  by (simp_all add: is_ok_def)

lemma is_ok_iff: "is_ok r \<longleftrightarrow> (\<exists>a. r = Inr a)"
  by (cases r) simp_all

section \<open>Lists\<close>

lemma take_append_exact [simp]: "length xs = n \<Longrightarrow> take n (xs @ ys) = xs"
  by simp

lemma drop_append_exact [simp]: "length xs = n \<Longrightarrow> drop n (xs @ ys) = ys"
  by simp

text \<open>The last \<open>n\<close> elements of a list: what a bounded log keeps.\<close>

definition take_last :: "nat \<Rightarrow> 'a list \<Rightarrow> 'a list" where
  "take_last n xs = drop (length xs - n) xs"

lemma length_take_last [simp]: "length (take_last n xs) = min n (length xs)"
  by (simp add: take_last_def)

lemma take_last_all: "length xs \<le> n \<Longrightarrow> take_last n xs = xs"
  by (simp add: take_last_def)

lemma take_last_0 [simp]: "take_last 0 xs = []"
  by (simp add: take_last_def)

lemma take_last_snoc: "0 < n \<Longrightarrow> take_last n (xs @ [x]) = take_last (n - 1) xs @ [x]"
  by (cases "length xs < n") (auto simp: take_last_def Suc_diff_le)

lemma take_last_take_last: "take_last m (take_last n xs) = take_last (min m n) xs"
proof (cases "length xs \<le> n")
  case True
  then show ?thesis by (simp add: take_last_def min_def)
next
  case False
  then have "n - m + (length xs - n) = length xs - min m n"
    by (simp add: min_def)
  with False show ?thesis by (simp add: take_last_def add.commute)
qed

lemma set_take_last: "set (take_last n xs) \<subseteq> set xs"
  by (simp add: take_last_def set_drop_subset)

text \<open>The scan of an iterator for its first hit (\<open>find_map\<close>).\<close>

fun find_map :: "('a \<Rightarrow> 'b option) \<Rightarrow> 'a list \<Rightarrow> 'b option" where
  "find_map f [] = None"
| "find_map f (x # xs) = (case f x of None \<Rightarrow> find_map f xs | Some y \<Rightarrow> Some y)"

text \<open>\<open>get(i)\<close>, and the update of the element it found.\<close>

definition nth_opt :: "'a list \<Rightarrow> nat \<Rightarrow> 'a option" where
  "nth_opt xs i = (if i < length xs then Some (xs ! i) else None)"

lemma nth_opt_Some: "nth_opt xs i = Some x \<longleftrightarrow> i < length xs \<and> x = xs ! i"
  by (auto simp: nth_opt_def)

lemma nth_opt_None: "nth_opt xs i = None \<longleftrightarrow> length xs \<le> i"
  by (auto simp: nth_opt_def)

lemma nth_opt_update:
  "nth_opt (xs[i := x]) j = (if i = j \<and> i < length xs then Some x else nth_opt xs j)"
  by (auto simp: nth_opt_def)

text \<open>\<open>iter().position(..)\<close>.\<close>

fun position :: "('a \<Rightarrow> bool) \<Rightarrow> 'a list \<Rightarrow> nat option" where
  "position p [] = None"
| "position p (x # xs) = (if p x then Some 0 else map_option Suc (position p xs))"

lemma position_Some: "position p xs = Some i \<Longrightarrow> i < length xs \<and> p (xs ! i)"
  by (induction xs arbitrary: i) (auto split: if_splits)

lemma position_None: "position p xs = None \<longleftrightarrow> (\<forall>x \<in> set xs. \<not> p x)"
  by (induction xs) auto

lemma position_append_hit: "\<forall>x \<in> set xs. \<not> p x \<Longrightarrow> p y \<Longrightarrow> position p (xs @ y # ys) = Some (length xs)"
  by (induction xs) auto

section \<open>Little-endian integers\<close>

fun le_bytes :: "nat \<Rightarrow> 'a::len word \<Rightarrow> bytes" where
  "le_bytes 0 w = []"
| "le_bytes (Suc n) w = ucast w # le_bytes n (drop_bit 8 w)"

fun of_le :: "bytes \<Rightarrow> 'a::len word" where
  "of_le [] = 0"
| "of_le (b # bs) = ucast b OR push_bit 8 (of_le bs)"

abbreviation "u16_le \<equiv> le_bytes 2 :: u16 \<Rightarrow> bytes"
abbreviation "u32_le \<equiv> le_bytes 4 :: u32 \<Rightarrow> bytes"
abbreviation "u64_le \<equiv> le_bytes 8 :: u64 \<Rightarrow> bytes"

lemma length_le_bytes [simp]: "length (le_bytes n w) = n"
  by (induction n arbitrary: w) simp_all

lemma of_le_le_bytes: "of_le (le_bytes n w) = take_bit (8 * n) w"
proof (induction n arbitrary: w)
  case 0
  show ?case by simp
next
  case (Suc n)
  then show ?case
    by (auto intro!: bit_word_eqI simp: bit_simps)
qed

lemma of_le_u16 [le_simps, simp]: "of_le (le_bytes 2 w) = (w :: u16)"
  by (simp add: of_le_le_bytes take_bit_word_eq_self)

lemma of_le_u32 [le_simps, simp]: "of_le (le_bytes 4 w) = (w :: u32)"
  by (simp add: of_le_le_bytes take_bit_word_eq_self)

lemma of_le_u64 [le_simps, simp]: "of_le (le_bytes 8 w) = (w :: u64)"
  by (simp add: of_le_le_bytes take_bit_word_eq_self)

lemma le_bytes_cong:
  "(\<And>k. k < 8 * n \<Longrightarrow> bit v k = bit w k) \<Longrightarrow> le_bytes n v = le_bytes n w"
proof (induction n arbitrary: v w)
  case 0
  show ?case by simp
next
  case (Suc n)
  have "(ucast v :: u8) = ucast w"
    using Suc.prems by (auto intro!: bit_word_eqI simp: bit_simps)
  moreover have "le_bytes n (drop_bit 8 v) = le_bytes n (drop_bit 8 w)"
    by (rule Suc.IH) (simp add: bit_simps Suc.prems)
  ultimately show ?case by simp
qed

lemma le_bytes_of_le:
  "8 * length bs \<le> LENGTH('a::len) \<Longrightarrow> le_bytes (length bs) (of_le bs :: 'a word) = bs"
proof (induction bs)
  case Nil
  show ?case by simp
next
  case (Cons b bs)
  let ?v = "of_le bs :: 'a word" and ?w = "of_le (b # bs) :: 'a word"
  have len: "8 * length bs + 8 \<le> LENGTH('a)"
    using Cons.prems by simp
  have "le_bytes (length bs) (drop_bit 8 ?w) = le_bytes (length bs) ?v"
    using len by (intro le_bytes_cong) (auto simp: bit_simps dest: bit_imp_le_length)
  moreover have "(ucast ?w :: u8) = b"
    using len by (auto intro!: bit_word_eqI simp: bit_simps)
  ultimately show ?case
    using Cons len by simp
qed

lemma le_bytes_u16_of_le [le_simps]: "length bs = 2 \<Longrightarrow> le_bytes 2 (of_le bs :: u16) = bs"
  using le_bytes_of_le [of bs, where 'a = 16] by simp

lemma le_bytes_u32_of_le [le_simps]: "length bs = 4 \<Longrightarrow> le_bytes 4 (of_le bs :: u32) = bs"
  using le_bytes_of_le [of bs, where 'a = 32] by simp

lemma le_bytes_u64_of_le [le_simps]: "length bs = 8 \<Longrightarrow> le_bytes 8 (of_le bs :: u64) = bs"
  using le_bytes_of_le [of bs, where 'a = 64] by simp

text \<open>\<open>u16::try_from(n).unwrap_or(u16::MAX)\<close> and its kin: the count clamped to the width.\<close>

definition u8_clamp :: "nat \<Rightarrow> u8" where
  "u8_clamp n = (if n < 256 then of_nat n else 255)"

definition u16_clamp :: "nat \<Rightarrow> u16" where
  "u16_clamp n = (if n < 65536 then of_nat n else 65535)"

lemma unat_of_nat_small [simp]:
  "n < 256 \<Longrightarrow> unat (of_nat n :: u8) = n"
  "n < 65536 \<Longrightarrow> unat (of_nat n :: u16) = n"
  by (simp_all add: unat_of_nat)

lemma unat_u8_clamp: "unat (u8_clamp n) = min n 255"
  by (simp add: u8_clamp_def min_def)

lemma unat_u16_clamp: "unat (u16_clamp n) = min n 65535"
  by (simp add: u16_clamp_def min_def)

end
