(* ===== verification/Text.thy ===== *)
theory Text
  imports Prelude
begin

text \<open>
  Rust strings. A \<open>String\<close> is its UTF-8 bytes, so it is modelled as \<open>bytes\<close>; what the type
  guarantees is the predicate \<open>valid_utf8\<close>. The operations of the standard library that the
  program applies to text are written out here: the lossy reading of arbitrary bytes
  (\<open>String::from_utf8_lossy\<close>), the strict one (\<open>String::from_utf8\<close>), \<open>is_char_boundary\<close>,
  \<open>trim\<close>, \<open>split\<close>, the decimal printing of integers and \<open>str::parse\<close>.
\<close>

type_synonym rstring = bytes

text \<open>An ASCII literal of the source.\<close>

definition lit :: "string \<Rightarrow> rstring" where
  "lit s = map of_char s"

lemma length_lit [simp]: "length (lit s) = length s"
  by (simp add: lit_def)

section \<open>UTF-8\<close>

definition utf8_cont :: "u8 \<Rightarrow> bool" where
  "utf8_cont b \<longleftrightarrow> 0x80 \<le> b \<and> b \<le> 0xBF"

definition byte_at :: "bytes \<Rightarrow> nat \<Rightarrow> u8" where
  "byte_at bs i = (if i < length bs then bs ! i else 0)"

text \<open>
  The first unit of a non-empty byte string: whether it is a character, and how many bytes
  it takes. An ill-formed unit is the longest prefix that could still have become a
  character, which is what the standard library replaces by one U+FFFD.
\<close>

definition utf8_second :: "u8 \<Rightarrow> u8 \<Rightarrow> bool" where
  "utf8_second a b \<longleftrightarrow>
     (if a = 0xE0 then 0xA0 \<le> b \<and> b \<le> 0xBF
      else if a = 0xED then 0x80 \<le> b \<and> b \<le> 0x9F
      else if a = 0xF0 then 0x90 \<le> b \<and> b \<le> 0xBF
      else if a = 0xF4 then 0x80 \<le> b \<and> b \<le> 0x8F
      else utf8_cont b)"

definition utf8_width :: "u8 \<Rightarrow> nat" where
  "utf8_width a =
     (if a < 0x80 then 1
      else if 0xC2 \<le> a \<and> a \<le> 0xDF then 2
      else if 0xE0 \<le> a \<and> a \<le> 0xEF then 3
      else if 0xF0 \<le> a \<and> a \<le> 0xF4 then 4
      else 0)"

definition utf8_step :: "bytes \<Rightarrow> bool \<times> nat" where
  "utf8_step bs =
     (let a = byte_at bs 0; b = byte_at bs 1; c = byte_at bs 2; d = byte_at bs 3; w = utf8_width a
      in if w = 1 then (True, 1)
         else if w = 2 then (if utf8_cont b then (True, 2) else (False, 1))
         else if w = 3 then
           (if \<not> utf8_second a b then (False, 1)
            else if \<not> utf8_cont c then (False, 2) else (True, 3))
         else if w = 4 then
           (if \<not> utf8_second a b then (False, 1)
            else if \<not> utf8_cont c then (False, 2)
            else if \<not> utf8_cont d then (False, 3) else (True, 4))
         else (False, 1))"

lemma utf8_cont_nz: "utf8_cont b \<Longrightarrow> b \<noteq> 0"
  by (auto simp: utf8_cont_def)

lemma utf8_second_cont: "utf8_second a b \<Longrightarrow> utf8_cont b"
  by (auto simp: utf8_second_def utf8_cont_def word_le_nat_alt split: if_splits)

lemma cont_at: "utf8_cont (byte_at bs i) \<Longrightarrow> i < length bs"
  using utf8_cont_nz by (auto simp: byte_at_def split: if_splits)

lemma second_at: "utf8_second a (byte_at bs i) \<Longrightarrow> i < length bs"
  by (rule cont_at [OF utf8_second_cont])

text \<open>When the first unit is a character, and what its bytes then are.\<close>

lemma utf8_step_True_iff:
  "utf8_step bs = (True, n) \<longleftrightarrow>
     n = utf8_width (byte_at bs 0) \<and>
     (n = 1 \<or>
      n = 2 \<and> utf8_cont (byte_at bs 1) \<or>
      n = 3 \<and> utf8_second (byte_at bs 0) (byte_at bs 1) \<and> utf8_cont (byte_at bs 2) \<or>
      n = 4 \<and> utf8_second (byte_at bs 0) (byte_at bs 1) \<and> utf8_cont (byte_at bs 2) \<and>
        utf8_cont (byte_at bs 3))"
  unfolding utf8_step_def Let_def by auto

lemma utf8_step_bounds:
  assumes "bs \<noteq> []"
  shows "0 < snd (utf8_step bs)" and "snd (utf8_step bs) \<le> length bs"
proof -
  have l: "Suc 0 \<le> length bs" using assms by (cases bs) simp_all
  show "0 < snd (utf8_step bs)"
    by (simp add: utf8_step_def Let_def)
  show "snd (utf8_step bs) \<le> length bs"
    unfolding utf8_step_def Let_def using l
    by (auto dest: cont_at second_at)
qed

text \<open>A character is the same whatever follows it, and its later bytes are continuations.\<close>

lemma byte_at_append: "i < length bs \<Longrightarrow> byte_at (bs @ cs) i = byte_at bs i"
  by (simp add: byte_at_def nth_append)

lemma utf8_step_True_cong:
  assumes "utf8_step bs = (True, n)" and at: "\<And>i. i < n \<Longrightarrow> byte_at bs' i = byte_at bs i"
  shows "utf8_step bs' = (True, n)"
proof -
  have "0 < n"
    using assms(1) unfolding utf8_step_True_iff by auto
  then show ?thesis
    using assms(1) at [of 0] at [of 1] at [of 2] at [of 3]
    unfolding utf8_step_True_iff by (elim conjE disjE) simp_all
qed

lemma utf8_step_append:
  assumes "utf8_step bs = (True, n)" and "bs \<noteq> []"
  shows "utf8_step (bs @ cs) = (True, n)"
  using utf8_step_bounds(2) [OF assms(2)] assms(1)
  by (auto intro: utf8_step_True_cong simp: byte_at_append)

lemma utf8_step_cont:
  assumes "utf8_step bs = (True, n)" and "0 < i" and "i < n"
  shows "utf8_cont (byte_at bs i)"
proof -
  have "n \<le> 4"
    using assms(1) unfolding utf8_step_True_iff by auto
  with assms(2,3) have "i = 1 \<or> i = 2 \<or> i = 3"
    by linarith
  with assms(1,3) show ?thesis
    unfolding utf8_step_True_iff by (auto dest: utf8_second_cont)
qed

function utf8_lossy :: "bytes \<Rightarrow> rstring" where
  "utf8_lossy bs =
     (if bs = [] then []
      else let (ok, n) = utf8_step bs
           in (if ok then take n bs else [0xEF, 0xBF, 0xBD]) @ utf8_lossy (drop n bs))"
  by pat_completeness auto
termination
proof (relation "measure length", goal_cases)
  case 1
  show ?case by simp
next
  case (2 bs st ok n)
  then have "0 < n"
    using utf8_step_bounds(1) [of bs] by (metis snd_conv)
  with 2 show ?case
    by (cases bs) simp_all
qed

function valid_utf8 :: "bytes \<Rightarrow> bool" where
  "valid_utf8 bs =
     (if bs = [] then True
      else let (ok, n) = utf8_step bs in ok \<and> valid_utf8 (drop n bs))"
  by pat_completeness auto
termination
proof (relation "measure length", goal_cases)
  case 1
  show ?case by simp
next
  case (2 bs st ok n)
  then have "0 < n"
    using utf8_step_bounds(1) [of bs] by (metis snd_conv)
  with 2 show ?case
    by (cases bs) simp_all
qed

declare utf8_lossy.simps [simp del] valid_utf8.simps [simp del]

lemma utf8_lossy_Nil [simp]: "utf8_lossy [] = []"
  by (simp add: utf8_lossy.simps)

lemma valid_utf8_Nil [simp]: "valid_utf8 []"
  by (simp add: valid_utf8.simps)

text \<open>\<open>String::from_utf8\<close>: the same bytes, if they are UTF-8.\<close>

definition from_utf8 :: "bytes \<Rightarrow> rstring option" where
  "from_utf8 bs = (if valid_utf8 bs then Some bs else None)"

text \<open>The unfolding of both readings at a non-empty input.\<close>

lemma utf8_unfold:
  assumes "bs \<noteq> []" and "utf8_step bs = (ok, n)"
  shows "valid_utf8 bs = (ok \<and> valid_utf8 (drop n bs))"
    and "utf8_lossy bs =
           (if ok then take n bs else [0xEF, 0xBF, 0xBD]) @ utf8_lossy (drop n bs)"
  using assms by (simp_all add: valid_utf8.simps [of bs] utf8_lossy.simps [of bs])

lemma utf8_induct [case_names Nil Step]:
  assumes "P []"
    and "\<And>bs ok n. \<lbrakk>bs \<noteq> []; utf8_step bs = (ok, n); 0 < n; n \<le> length bs; P (drop n bs)\<rbrakk> \<Longrightarrow> P bs"
  shows "P bs"
proof (induction bs rule: length_induct)
  case (1 bs)
  show ?case
  proof (cases "bs = []")
    case True
    with assms(1) show ?thesis by simp
  next
    case False
    obtain ok n where st: "utf8_step bs = (ok, n)" by fastforce
    with utf8_step_bounds [OF False] have n: "0 < n" "n \<le> length bs" by simp_all
    with False have "length (drop n bs) < length bs" by (cases bs) simp_all
    with 1 have "P (drop n bs)" by blast
    with assms(2) False st n show ?thesis by blast
  qed
qed

lemma utf8_append:
  "valid_utf8 a \<Longrightarrow> valid_utf8 (a @ b) = valid_utf8 b"
  "valid_utf8 a \<Longrightarrow> utf8_lossy (a @ b) = a @ utf8_lossy b"
proof (induction a rule: utf8_induct)
  case Nil
  case 1 show ?case by simp
  case 2 show ?case by simp
next
  case (Step bs ok n)
  {
    case 1
    then have ok: "ok" "valid_utf8 (drop n bs)" using utf8_unfold(1) Step(1,2) by auto
    with Step have "utf8_step (bs @ b) = (True, n)" by (simp add: utf8_step_append)
    with Step ok utf8_unfold(1) [of "bs @ b"] show ?case by simp
  next
    case 2
    then have ok: "ok" "valid_utf8 (drop n bs)" using utf8_unfold(1) Step(1,2) by auto
    with Step have "utf8_step (bs @ b) = (True, n)" by (simp add: utf8_step_append)
    with Step ok utf8_unfold(2) [of "bs @ b"] show ?case by simp
  }
qed

lemma utf8_lossy_valid [simp]: "valid_utf8 s \<Longrightarrow> utf8_lossy s = s"
  using utf8_append(2) [of s "[]"] by simp

lemma valid_utf8_ascii: "\<forall>b \<in> set s. b < 0x80 \<Longrightarrow> valid_utf8 s"
proof (induction s)
  case Nil
  show ?case by simp
next
  case (Cons b s)
  then have "utf8_step (b # s) = (True, 1)"
    by (simp add: utf8_step_True_iff byte_at_def utf8_width_def)
  with Cons show ?case by (simp add: utf8_unfold(1))
qed

lemma valid_utf8_replacement: "valid_utf8 [0xEF, 0xBF, 0xBD]"
proof -
  have "utf8_step [0xEF, 0xBF, 0xBD] = (True, 3)"
    by (simp add: utf8_step_True_iff byte_at_def utf8_width_def utf8_second_def utf8_cont_def)
  then show ?thesis by (simp add: utf8_unfold(1))
qed

lemma valid_utf8_take_step:
  assumes "utf8_step bs = (True, n)" and "bs \<noteq> []"
  shows "valid_utf8 (take n bs)"
proof -
  have n: "0 < n" "n \<le> length bs"
    using utf8_step_bounds [OF assms(2)] assms(1) by simp_all
  have "utf8_step (take n bs) = (True, n)"
    using assms(1) n by (auto intro: utf8_step_True_cong simp: byte_at_def)
  moreover have "take n bs \<noteq> []"
    using n assms(2) by simp
  ultimately show ?thesis
    by (simp add: utf8_unfold(1))
qed

text \<open>Whatever the bytes were, the lossy reading is a string.\<close>

lemma valid_utf8_lossy: "valid_utf8 (utf8_lossy bs)"
proof (induction bs rule: utf8_induct)
  case Nil
  show ?case by simp
next
  case (Step bs ok n)
  then show ?case
    using valid_utf8_take_step [of bs n] valid_utf8_replacement
    by (simp add: utf8_unfold(2) utf8_append(1))
qed

lemma from_utf8_iff: "from_utf8 bs = Some s \<longleftrightarrow> s = bs \<and> valid_utf8 bs"
  by (auto simp: from_utf8_def)

text \<open>\<open>str::is_char_boundary\<close>: a cut there splits no character.\<close>

definition char_boundary :: "rstring \<Rightarrow> nat \<Rightarrow> bool" where
  "char_boundary s i \<longleftrightarrow>
     i = 0 \<or> i = length s \<or> (i < length s \<and> \<not> utf8_cont (s ! i))"

lemma valid_utf8_take_boundary:
  "valid_utf8 s \<Longrightarrow> char_boundary s i \<Longrightarrow> valid_utf8 (take i s)"
proof (induction s arbitrary: i rule: utf8_induct)
  case Nil
  show ?case by simp
next
  case (Step bs ok n)
  have ok: "ok" and rest: "valid_utf8 (drop n bs)"
    using Step.prems(1) Step.hyps utf8_unfold(1) by auto
  show ?case
  proof (cases "i < n")
    case True
    have "i = 0"
    proof (rule ccontr)
      assume "i \<noteq> 0"
      then have "utf8_cont (bs ! i)"
        using utf8_step_cont [of bs n i] Step.hyps ok True by (simp add: byte_at_def)
      with Step.prems(2) True Step.hyps \<open>i \<noteq> 0\<close> show False
        by (auto simp: char_boundary_def)
    qed
    then show ?thesis by simp
  next
    case False
    with Step.prems(2) Step.hyps have "char_boundary (drop n bs) (i - n)"
      by (auto simp: char_boundary_def)
    with Step.IH rest have "valid_utf8 (take (i - n) (drop n bs))" by blast
    moreover have "take i bs = take n bs @ take (i - n) (drop n bs)"
      using False by (metis le_add_diff_inverse not_less take_add)
    moreover have "valid_utf8 (take n bs)"
      using Step.hyps ok by (simp add: valid_utf8_take_step)
    ultimately show ?thesis by (simp add: utf8_append(1))
  qed
qed

section \<open>Pieces of text\<close>

text \<open>
  Every character of Unicode's White_Space, in UTF-8. A string is valid UTF-8, so its first
  (last) character is white space exactly when one of these is its prefix (suffix).
\<close>

definition ws_chars :: "bytes list" where
  "ws_chars =
     [[0x09], [0x0A], [0x0B], [0x0C], [0x0D], [0x20], [0xC2, 0x85], [0xC2, 0xA0],
      [0xE1, 0x9A, 0x80], [0xE2, 0x80, 0x80], [0xE2, 0x80, 0x81], [0xE2, 0x80, 0x82],
      [0xE2, 0x80, 0x83], [0xE2, 0x80, 0x84], [0xE2, 0x80, 0x85], [0xE2, 0x80, 0x86],
      [0xE2, 0x80, 0x87], [0xE2, 0x80, 0x88], [0xE2, 0x80, 0x89], [0xE2, 0x80, 0x8A],
      [0xE2, 0x80, 0xA8], [0xE2, 0x80, 0xA9], [0xE2, 0x80, 0xAF], [0xE2, 0x81, 0x9F],
      [0xE3, 0x80, 0x80]]"

definition starts_with :: "'a list \<Rightarrow> 'a list \<Rightarrow> bool" where
  "starts_with s p \<longleftrightarrow> take (length p) s = p"

definition ends_with :: "'a list \<Rightarrow> 'a list \<Rightarrow> bool" where
  "ends_with s p \<longleftrightarrow> starts_with (rev s) (rev p)"

definition ws_prefix :: "rstring \<Rightarrow> nat option" where
  "ws_prefix s = find_map (\<lambda>w. if starts_with s w then Some (length w) else None) ws_chars"

definition ws_suffix :: "rstring \<Rightarrow> nat option" where
  "ws_suffix s = find_map (\<lambda>w. if ends_with s w then Some (length w) else None) ws_chars"

lemma find_map_Some: "find_map f xs = Some y \<Longrightarrow> \<exists>x \<in> set xs. f x = Some y"
  by (induction xs) (auto split: option.splits)

lemma find_map_None: "find_map f xs = None \<longleftrightarrow> (\<forall>x \<in> set xs. f x = None)"
  by (induction xs) (auto split: option.splits)

lemma starts_with_length: "starts_with s p \<Longrightarrow> length p \<le> length s"
  by (auto simp: starts_with_def dest: arg_cong [where f = length])

lemma ends_with_length: "ends_with s p \<Longrightarrow> length p \<le> length s"
  using starts_with_length [of "rev s" "rev p"] by (simp add: ends_with_def)

lemma ws_chars_nonempty: "w \<in> set ws_chars \<Longrightarrow> 0 < length w"
  by (auto simp: ws_chars_def)

lemma ws_prefix_Some: "ws_prefix s = Some n \<Longrightarrow> 0 < n \<and> n \<le> length s"
  by (auto simp: ws_prefix_def dest!: find_map_Some split: if_splits
      intro: starts_with_length dest: ws_chars_nonempty)

lemma ws_suffix_Some: "ws_suffix s = Some n \<Longrightarrow> 0 < n \<and> n \<le> length s"
  by (auto simp: ws_suffix_def dest!: find_map_Some split: if_splits
      dest: ends_with_length ws_chars_nonempty)

function trim_start :: "rstring \<Rightarrow> rstring" where
  "trim_start s = (case ws_prefix s of None \<Rightarrow> s | Some n \<Rightarrow> trim_start (drop n s))"
  by pat_completeness auto
termination
  by (relation "measure length") (auto dest: ws_prefix_Some)

function trim_end :: "rstring \<Rightarrow> rstring" where
  "trim_end s = (case ws_suffix s of None \<Rightarrow> s | Some n \<Rightarrow> trim_end (take (length s - n) s))"
  by pat_completeness auto
termination
  by (relation "measure length") (auto dest: ws_suffix_Some)

declare trim_start.simps [simp del] trim_end.simps [simp del]

definition trim :: "rstring \<Rightarrow> rstring" where
  "trim s = trim_end (trim_start s)"

text \<open>\<open>str::split\<close> on an ASCII character: always at least one piece.\<close>

fun split_at_byte :: "u8 \<Rightarrow> bytes \<Rightarrow> bytes list" where
  "split_at_byte d [] = [[]]"
| "split_at_byte d (x # xs) =
     (if x = d then [] # split_at_byte d xs
      else (x # hd (split_at_byte d xs)) # tl (split_at_byte d xs))"

lemma split_at_byte_nonempty [simp]: "split_at_byte d s \<noteq> []"
  by (cases s) auto

lemma split_at_byte_no_sep: "d \<notin> set s \<Longrightarrow> split_at_byte d s = [s]"
  by (induction s) auto

lemma split_at_byte_sep:
  "d \<notin> set s \<Longrightarrow> split_at_byte d (s @ d # t) = s # split_at_byte d t"
  by (induction s) auto

section \<open>Decimal text\<close>

fun show_nat :: "nat \<Rightarrow> rstring" where
  "show_nat n =
     (if n < 10 then [0x30 + of_nat n] else show_nat (n div 10) @ [0x30 + of_nat (n mod 10)])"

declare show_nat.simps [simp del]

definition show_int :: "int \<Rightarrow> rstring" where
  "show_int i = (if i < 0 then 0x2D # show_nat (nat (- i)) else show_nat (nat i))"

definition digit_of :: "u8 \<Rightarrow> nat option" where
  "digit_of c = (if 0x30 \<le> c \<and> c \<le> 0x39 then Some (unat c - 0x30) else None)"

text \<open>\<open>checked_mul\<close> and \<open>checked_add\<close> at every digit: past the largest value is an error.\<close>

fun parse_digits :: "nat \<Rightarrow> nat \<Rightarrow> rstring \<Rightarrow> nat option" where
  "parse_digits mx acc [] = Some acc"
| "parse_digits mx acc (c # cs) =
     (case digit_of c of
        None \<Rightarrow> None
      | Some d \<Rightarrow> (let v = 10 * acc + d in if v \<le> mx then parse_digits mx v cs else None))"

text \<open>\<open>str::parse\<close> for an unsigned type whose largest value is \<open>mx\<close>: one leading plus sign
  is accepted, and something has to follow it.\<close>

definition parse_unsigned :: "nat \<Rightarrow> rstring \<Rightarrow> nat option" where
  "parse_unsigned mx s =
     (case s of
        [] \<Rightarrow> None
      | c # cs \<Rightarrow>
          if c = 0x2B \<and> cs \<noteq> [] then parse_digits mx 0 cs else parse_digits mx 0 s)"

text \<open>\<open>str::parse\<close> for \<open>i32\<close>.\<close>

definition parse_i32 :: "rstring \<Rightarrow> int option" where
  "parse_i32 s =
     (case s of
        [] \<Rightarrow> None
      | c # cs \<Rightarrow>
          if c = 0x2D \<and> cs \<noteq> [] then map_option (\<lambda>n. - int n) (parse_digits (2 ^ 31) 0 cs)
          else if c = 0x2B \<and> cs \<noteq> [] then map_option int (parse_digits (2 ^ 31 - 1) 0 cs)
          else map_option int (parse_digits (2 ^ 31 - 1) 0 s))"

lemma digit_of_digit [simp]: "d < 10 \<Longrightarrow> digit_of (0x30 + of_nat d) = Some d"
proof -
  assume "d < 10"
  then have "d \<in> {0, 1, 2, 3, 4, 5, 6, 7, 8, 9}" by auto
  then show ?thesis by (auto simp: digit_of_def)
qed

lemma parse_digits_append:
  "parse_digits mx acc (s @ t) =
     (case parse_digits mx acc s of None \<Rightarrow> None | Some v \<Rightarrow> parse_digits mx v t)"
  by (induction s arbitrary: acc) (auto simp: Let_def split: option.splits)

lemma parse_digits_show: "n \<le> mx \<Longrightarrow> parse_digits mx 0 (show_nat n) = Some n"
proof (induction n rule: show_nat.induct)
  case (1 n)
  show ?case
  proof (cases "n < 10")
    case True
    with 1 show ?thesis by (simp add: show_nat.simps)
  next
    case False
    have le: "n div 10 \<le> mx" using 1 by (meson div_le_dividend order_trans)
    with 1 False have "parse_digits mx 0 (show_nat (n div 10)) = Some (n div 10)" by simp
    moreover have "10 * (n div 10) + n mod 10 = n" by simp
    ultimately show ?thesis
      using False 1 by (simp add: show_nat.simps [of n] parse_digits_append)
  qed
qed

lemma show_nat_digits: "c \<in> set (show_nat n) \<Longrightarrow> \<exists>d < 10. c = 0x30 + of_nat d"
proof (induction n rule: show_nat.induct)
  case (1 n)
  then show ?case
    by (auto simp: show_nat.simps [of n] split: if_splits)
       (metis mod_less_divisor zero_less_numeral)
qed

lemma show_nat_nonempty [simp]: "show_nat n \<noteq> []"
  by (simp add: show_nat.simps)

lemma digit_not_sign:
  "d < 10 \<Longrightarrow> 0x30 + of_nat d \<noteq> (0x2B :: u8)"
  "d < 10 \<Longrightarrow> 0x30 + of_nat d \<noteq> (0x2D :: u8)"
  "d < 10 \<Longrightarrow> 0x30 + of_nat d \<noteq> (0x3A :: u8)"
proof -
  assume "d < 10"
  then have "d \<in> {0, 1, 2, 3, 4, 5, 6, 7, 8, 9}" by auto
  then show "0x30 + of_nat d \<noteq> (0x2B :: u8)" "0x30 + of_nat d \<noteq> (0x2D :: u8)"
    "0x30 + of_nat d \<noteq> (0x3A :: u8)"
    by auto
qed

text \<open>Parsing gives back what was printed.\<close>

lemma parse_unsigned_show: "n \<le> mx \<Longrightarrow> parse_unsigned mx (show_nat n) = Some n"
proof -
  assume "n \<le> mx"
  moreover obtain c cs where s: "show_nat n = c # cs"
    by (cases "show_nat n") simp_all
  moreover have "c \<noteq> 0x2B"
    using show_nat_digits [of c n] digit_not_sign(1) s by auto
  ultimately show ?thesis
    using parse_digits_show [of n mx] by (simp add: parse_unsigned_def)
qed

lemma colon_not_digit: "0x3A \<notin> set (show_nat n)"
  using show_nat_digits digit_not_sign(3) by fastforce

section \<open>Text without white space at its ends\<close>

lemma ws_prefix_None_hd:
  assumes "hd s \<notin> hd ` set ws_chars"
  shows "ws_prefix s = None"
proof -
  have "\<not> starts_with s w" if "w \<in> set ws_chars" for w
  proof
    assume "starts_with s w"
    then have "take (length w) s = w" by (simp add: starts_with_def)
    with ws_chars_nonempty [OF that] have "hd s = hd w"
      by (metis hd_take)
    with assms that show False by auto
  qed
  then show ?thesis by (auto simp: ws_prefix_def find_map_None)
qed

lemma ws_suffix_None_last:
  assumes "s \<noteq> []" and "last s \<notin> last ` set ws_chars"
  shows "ws_suffix s = None"
proof -
  have "\<not> ends_with s w" if "w \<in> set ws_chars" for w
  proof
    assume "ends_with s w"
    then have "take (length w) (rev s) = rev w" by (simp add: ends_with_def starts_with_def)
    with ws_chars_nonempty [OF that] have "hd (rev s) = hd (rev w)"
      by (metis hd_take length_rev)
    with assms that ws_chars_nonempty [OF that] show False by (auto simp: hd_rev)
  qed
  then show ?thesis by (auto simp: ws_suffix_def find_map_None)
qed

lemma trim_ends:
  assumes "s \<noteq> []" and "hd s \<notin> hd ` set ws_chars" and "last s \<notin> last ` set ws_chars"
  shows "trim s = s"
  by (simp add: trim_def trim_start.simps trim_end.simps ws_prefix_None_hd [OF assms(2)]
      ws_suffix_None_last [OF assms(1,3)])

lemma digit_cases:
  "c \<in> set (show_nat n) \<Longrightarrow>
   c \<in> {0x30, 0x31, 0x32, 0x33, 0x34, 0x35, 0x36, 0x37, 0x38, 0x39}"
proof -
  assume "c \<in> set (show_nat n)"
  then obtain d where "d < 10" "c = 0x30 + of_nat d" using show_nat_digits by blast
  moreover from this have "d \<in> {0, 1, 2, 3, 4, 5, 6, 7, 8, 9}" by auto
  ultimately show ?thesis by auto
qed

lemma digit_not_ws:
  "c \<in> {0x30, 0x31, 0x32, 0x33, 0x34, 0x35, 0x36, 0x37, 0x38, 0x39} \<Longrightarrow>
   c \<notin> hd ` set ws_chars \<and> c \<notin> last ` set ws_chars"
  by (elim insertE emptyE) (simp_all add: ws_chars_def)

lemma trim_show_nat [simp]: "trim (show_nat n) = show_nat n"
proof (rule trim_ends)
  show "hd (show_nat n) \<notin> hd ` set ws_chars"
    using digit_not_ws [OF digit_cases [OF hd_in_set [OF show_nat_nonempty]]] by blast
  show "last (show_nat n) \<notin> last ` set ws_chars"
    using digit_not_ws [OF digit_cases [OF last_in_set [OF show_nat_nonempty]]] by blast
qed simp

lemma valid_utf8_show [simp]: "valid_utf8 (show_nat n)"
proof (rule valid_utf8_ascii, rule)
  fix b assume "b \<in> set (show_nat n)"
  from digit_cases [OF this] show "b < 0x80" by (elim insertE emptyE) simp_all
qed

end
