(* ===== verification/Wire.thy ===== *)
theory Wire
  imports Text
begin

text \<open>
  The reading and writing primitives of the binary telemetry protocol
  (crates/agent/src/proto/decode.rs: \<open>Cursor\<close>; encode.rs: \<open>encode_str\<close>; exec_codec.rs:
  \<open>put_str\<close>, \<open>put_blob\<close>), and the interface \<open>wire_format\<close> that relates the two directions:
  a reader gives back what its writer wrote, wherever the cursor stands and whatever follows.
  Writers append to the buffer they are given, as the code's do.
\<close>

section \<open>The cursor\<close>

record cursor =
  cdata :: bytes
  cpos :: nat

definition cursor_new :: "bytes \<Rightarrow> cursor" where
  "cursor_new d = \<lparr>cdata = d, cpos = 0\<rparr>"

definition remaining :: "cursor \<Rightarrow> nat" where
  "remaining c = length (cdata c) - cpos c"

definition read_bytes :: "nat \<Rightarrow> cursor \<Rightarrow> (bytes \<times> cursor) option" where
  "read_bytes n c =
     (if cpos c + n \<le> length (cdata c)
      then Some (take n (drop (cpos c) (cdata c)), c\<lparr>cpos := cpos c + n\<rparr>)
      else None)"

definition read_u8 :: "cursor \<Rightarrow> (u8 \<times> cursor) option" where
  "read_u8 c = do { (b, c) \<leftarrow> read_bytes 1 c; Some (b ! 0, c) }"

definition read_u16 :: "cursor \<Rightarrow> (u16 \<times> cursor) option" where
  "read_u16 c = do { (b, c) \<leftarrow> read_bytes 2 c; Some (of_le b, c) }"

definition read_u32 :: "cursor \<Rightarrow> (u32 \<times> cursor) option" where
  "read_u32 c = do { (b, c) \<leftarrow> read_bytes 4 c; Some (of_le b, c) }"

definition read_u64 :: "cursor \<Rightarrow> (u64 \<times> cursor) option" where
  "read_u64 c = do { (b, c) \<leftarrow> read_bytes 8 c; Some (of_le b, c) }"

definition read_i32 :: "cursor \<Rightarrow> (i32 \<times> cursor) option" where
  "read_i32 c = do { (b, c) \<leftarrow> read_bytes 4 c; Some (of_le b, c) }"

definition read_blob :: "cursor \<Rightarrow> (bytes \<times> cursor) option" where
  "read_blob c = do {
     (len, c) \<leftarrow> read_u16 c;
     read_bytes (unat len) c }"

definition read_str :: "cursor \<Rightarrow> (rstring \<times> cursor) option" where
  "read_str c = do {
     (len, c) \<leftarrow> read_u16 c;
     (b, c) \<leftarrow> read_bytes (unat len) c;
     Some (utf8_lossy b, c) }"

text \<open>The loop \<open>for _ in 0..n { xs.push(read(cur)?) }\<close>.\<close>

fun read_many :: "(cursor \<Rightarrow> ('a \<times> cursor) option) \<Rightarrow> nat \<Rightarrow> cursor \<Rightarrow> ('a list \<times> cursor) option" where
  "read_many rd 0 c = Some ([], c)"
| "read_many rd (Suc n) c = do {
     (x, c) \<leftarrow> rd c;
     (xs, c) \<leftarrow> read_many rd n c;
     Some (x # xs, c) }"

section \<open>The writers\<close>

definition put_blob :: "bytes \<Rightarrow> bytes \<Rightarrow> bytes" where
  "put_blob b buf =
     (let len = u16_clamp (length b) in buf @ le_bytes 2 len @ take (unat len) b)"

definition put_str :: "rstring \<Rightarrow> bytes \<Rightarrow> bytes" where
  "put_str s buf =
     (let len = u16_clamp (length s) in buf @ le_bytes 2 len @ take (unat len) s)"

definition encode_str :: "rstring \<Rightarrow> bytes \<Rightarrow> bytes" where
  "encode_str s buf =
     (let len = u16_clamp (length s) in buf @ le_bytes 2 len @ take (unat len) s)"

text \<open>A string the length prefix can describe.\<close>

definition str_fits :: "rstring \<Rightarrow> bool" where
  "str_fits s \<longleftrightarrow> valid_utf8 s \<and> length s \<le> 65535"

section \<open>A cursor between what it has read and what it has not\<close>

definition cursor_at :: "bytes \<Rightarrow> bytes \<Rightarrow> cursor" where
  "cursor_at pre suf = \<lparr>cdata = pre @ suf, cpos = length pre\<rparr>"

lemma cursor_new_at: "cursor_new d = cursor_at [] d"
  by (simp add: cursor_new_def cursor_at_def)

lemma remaining_at [simp]: "remaining (cursor_at pre suf) = length suf"
  by (simp add: remaining_def cursor_at_def)

lemma read_bytes_at [codec_simps]:
  "length b = n \<Longrightarrow> read_bytes n (cursor_at pre (b @ suf)) = Some (b, cursor_at (pre @ b) suf)"
  by (auto simp: read_bytes_def cursor_at_def)

lemma read_bytes_short: "length suf < n \<Longrightarrow> read_bytes n (cursor_at pre suf) = None"
  by (simp add: read_bytes_def cursor_at_def)

lemma read_u8_at [codec_simps]:
  "read_u8 (cursor_at pre (b # suf)) = Some (b, cursor_at (pre @ [b]) suf)"
  using read_bytes_at [of "[b]" 1 pre suf] by (simp add: read_u8_def)

lemma read_u16_at [codec_simps]:
  "read_u16 (cursor_at pre (le_bytes 2 w @ suf)) = Some (w, cursor_at (pre @ le_bytes 2 w) suf)"
  by (simp add: read_u16_def read_bytes_at)

lemma read_u32_at [codec_simps]:
  "read_u32 (cursor_at pre (le_bytes 4 w @ suf)) = Some (w, cursor_at (pre @ le_bytes 4 w) suf)"
  by (simp add: read_u32_def read_bytes_at)

lemma read_u64_at [codec_simps]:
  "read_u64 (cursor_at pre (le_bytes 8 w @ suf)) = Some (w, cursor_at (pre @ le_bytes 8 w) suf)"
  by (simp add: read_u64_def read_bytes_at)

lemma read_i32_at [codec_simps]:
  "read_i32 (cursor_at pre (le_bytes 4 w @ suf)) = Some (w, cursor_at (pre @ le_bytes 4 w) suf)"
  by (simp add: read_i32_def read_bytes_at)

lemma put_str_eq: "put_str s = put_blob s" and encode_str_eq: "encode_str s = put_blob s"
  by (simp_all add: put_str_def encode_str_def put_blob_def fun_eq_iff)

lemma put_blob_append: "put_blob b buf = buf @ put_blob b []"
  by (simp add: put_blob_def Let_def)

lemma read_blob_at:
  "length b \<le> 65535 \<Longrightarrow>
   read_blob (cursor_at pre (put_blob b [] @ suf)) = Some (b, cursor_at (pre @ put_blob b []) suf)"
  by (simp add: read_blob_def put_blob_def Let_def codec_simps unat_u16_clamp)

lemma read_str_at:
  "str_fits s \<Longrightarrow>
   read_str (cursor_at pre (put_blob s [] @ suf)) = Some (s, cursor_at (pre @ put_blob s []) suf)"
  by (simp add: read_str_def put_blob_def Let_def codec_simps unat_u16_clamp str_fits_def)

lemma length_put_blob: "length (put_blob b []) = 2 + min (length b) 65535"
  by (simp add: put_blob_def Let_def unat_u16_clamp)

section \<open>The interface of a payload\<close>

text \<open>
  What every item of the protocol promises: for a value that \<open>fits\<close> its fields, the reader
  gives back its canonical form, the value as the wire can say it, and stops exactly where the
  writer did.
\<close>

locale wire_item =
  fixes enc :: "'a \<Rightarrow> bytes"
    and dec :: "cursor \<Rightarrow> ('b \<times> cursor) option"
    and fits :: "'a \<Rightarrow> bool"
    and canon :: "'a \<Rightarrow> 'b"
  assumes reads_back:
    "fits x \<Longrightarrow> dec (cursor_at pre (enc x @ suf)) = Some (canon x, cursor_at (pre @ enc x) suf)"
begin

lemma reads_back_new:
  "fits x \<Longrightarrow> dec (cursor_new (enc x @ suf)) = Some (canon x, cursor_at (enc x) suf)"
  using reads_back [of x "[]" suf] by (simp add: cursor_new_at)

lemma reads_back_many:
  "\<forall>x \<in> set xs. fits x \<Longrightarrow>
   read_many dec (length xs) (cursor_at pre (concat (map enc xs) @ suf))
     = Some (map canon xs, cursor_at (pre @ concat (map enc xs)) suf)"
  by (induction xs arbitrary: pre) (simp_all add: reads_back)

text \<open>The counted list: its 16-bit length, then the items.\<close>

lemma reads_back_counted:
  assumes "\<forall>x \<in> set xs. fits x" and "length xs < 65536"
  shows "read_u16 (cursor_at pre (le_bytes 2 (of_nat (length xs) :: u16) @ concat (map enc xs) @ suf))
           = Some (of_nat (length xs),
               cursor_at (pre @ le_bytes 2 (of_nat (length xs) :: u16)) (concat (map enc xs) @ suf))"
    and "read_many dec (unat (of_nat (length xs) :: u16)) (cursor_at pre (concat (map enc xs) @ suf))
           = Some (map canon xs, cursor_at (pre @ concat (map enc xs)) suf)"
  using assms by (simp_all add: read_u16_at reads_back_many)

end

text \<open>An item whose canonical form is itself: no two values share an encoding, and no encoding is
  a proper prefix of another, so a stream of items has one reading.\<close>

locale wire_format = wire_item enc dec fits "\<lambda>x. x"
  for enc :: "'a \<Rightarrow> bytes" and dec and fits
begin

lemma prefix_free:
  assumes "fits x" and "fits y" and "enc x @ r = enc y @ s"
  shows "x = y \<and> r = s"
proof -
  have "Some (x, cursor_at (enc x) r) = Some (y, cursor_at (enc y) s)"
    using reads_back_new [OF assms(1), of r] reads_back_new [OF assms(2), of s] assms(3) by simp
  then have "x = y" by simp
  with assms(3) show ?thesis by simp
qed

end

interpretation wire_u16: wire_format "le_bytes 2" read_u16 "\<lambda>_. True"
  by unfold_locales (simp add: codec_simps)

interpretation wire_blob: wire_format "\<lambda>b. put_blob b []" read_blob "\<lambda>b. length b \<le> 65535"
  by unfold_locales (rule read_blob_at)

interpretation wire_str: wire_format "\<lambda>s. encode_str s []" read_str str_fits
  by unfold_locales (simp add: encode_str_eq read_str_at)

end
