(* ===== verification/Exec_Frames.thy ===== *)
theory Exec_Frames
  imports Wire
begin

text \<open>
  The exec channel: the frames an upgrade travels in, in both directions
  (crates/agent/src/exec/mod.rs), and their codec (crates/agent/src/proto/exec_codec.rs).
  The frame's wire form is proved to read back to the frame, for every frame whose strings
  the length prefixes can describe and whose output is within the chunk ceiling; \<open>chunks\<close>
  is what keeps output within it.
\<close>

section \<open>Frames\<close>

definition PW_READY_SENTINEL :: rstring where
  "PW_READY_SENTINEL = lit ''__multitop_pw_ready__''"
definition SUDO_FAILED_SENTINEL :: rstring where
  "SUDO_FAILED_SENTINEL = lit ''__multitop_sudo_failed__''"
definition LOCK_HELD_SENTINEL :: rstring where
  "LOCK_HELD_SENTINEL = lit ''__multitop_lock_held__''"
definition STARTED_SENTINEL :: rstring where
  "STARTED_SENTINEL = lit ''__multitop_started__''"
definition DONE_SENTINEL :: rstring where
  "DONE_SENTINEL = lit ''__multitop_done__''"

definition SUDO_FAILED_CODE :: i32 where "SUDO_FAILED_CODE = 111"
definition LOCK_HELD_CODE :: i32 where "LOCK_HELD_CODE = 125"

definition MAX_EXEC_CHUNK :: nat where "MAX_EXEC_CHUNK = 8192"

datatype stream = Stdout | Stderr

fun stream_as_u8 :: "stream \<Rightarrow> u8" where
  "stream_as_u8 Stdout = 0"
| "stream_as_u8 Stderr = 1"

definition stream_from_u8 :: "u8 \<Rightarrow> stream option" where
  "stream_from_u8 v = (if v = 0 then Some Stdout else if v = 1 then Some Stderr else None)"

datatype marker_kind = PwReady | SudoFailed | LockHeld | Started | Done

fun marker_as_u8 :: "marker_kind \<Rightarrow> u8" where
  "marker_as_u8 PwReady = 0"
| "marker_as_u8 SudoFailed = 1"
| "marker_as_u8 LockHeld = 2"
| "marker_as_u8 Started = 3"
| "marker_as_u8 Done = 4"

definition marker_from_u8 :: "u8 \<Rightarrow> marker_kind option" where
  "marker_from_u8 v =
     (if v = 0 then Some PwReady else if v = 1 then Some SudoFailed
      else if v = 2 then Some LockHeld else if v = 3 then Some Started
      else if v = 4 then Some Done else None)"

datatype exec_frame =
    Request (x_command: rstring) (x_password: "rstring option") (x_use_lock: bool) (x_cols: u16) (x_rows: u16)
  | Begin (x_host: rstring) (x_agent_version: rstring) (x_pid: u32)
  | Out (x_stream: stream) (x_seq: u32) (x_bytes: bytes)
  | Marker marker_kind
  | Alive (x_elapsed_ms: u32)
  | Exit (x_code: i32) (x_signalled: bool)

definition KIND_REQUEST :: u8 where "KIND_REQUEST = 0"
definition KIND_BEGIN :: u8 where "KIND_BEGIN = 1"
definition KIND_OUT :: u8 where "KIND_OUT = 2"
definition KIND_MARKER :: u8 where "KIND_MARKER = 3"
definition KIND_ALIVE :: u8 where "KIND_ALIVE = 4"
definition KIND_EXIT :: u8 where "KIND_EXIT = 5"

lemmas kind_defs = KIND_REQUEST_def KIND_BEGIN_def KIND_OUT_def KIND_MARKER_def
  KIND_ALIVE_def KIND_EXIT_def

fun kind :: "exec_frame \<Rightarrow> u8" where
  "kind (Request _ _ _ _ _) = KIND_REQUEST"
| "kind (Begin _ _ _) = KIND_BEGIN"
| "kind (Out _ _ _) = KIND_OUT"
| "kind (Marker _) = KIND_MARKER"
| "kind (Alive _) = KIND_ALIVE"
| "kind (Exit _ _) = KIND_EXIT"

fun is_terminal :: "exec_frame \<Rightarrow> bool" where
  "is_terminal (Exit _ _) = True"
| "is_terminal _ = False"

section \<open>The codec\<close>

definition ABSENT :: u8 where "ABSENT = 0"
definition PRESENT :: u8 where "PRESENT = 1"

definition u8_of_bool :: "bool \<Rightarrow> u8" where
  "u8_of_bool b = (if b then 1 else 0)"

fun encode_exec :: "exec_frame \<Rightarrow> bytes \<Rightarrow> bytes" where
  "encode_exec (Request cmd pw lock cs rs) buf =
     (let buf = buf @ [kind (Request cmd pw lock cs rs)];
          buf = put_str cmd buf;
          buf = (case pw of Some p \<Rightarrow> put_str p (buf @ [PRESENT]) | None \<Rightarrow> buf @ [ABSENT]);
          buf = buf @ [u8_of_bool lock];
          buf = buf @ le_bytes 2 cs
      in buf @ le_bytes 2 rs)"
| "encode_exec (Begin h v p) buf =
     (let buf = buf @ [kind (Begin h v p)];
          buf = put_str h buf;
          buf = put_str v buf
      in buf @ le_bytes 4 p)"
| "encode_exec (Out st sq b) buf =
     (let buf = buf @ [kind (Out st sq b)];
          buf = buf @ [stream_as_u8 st];
          buf = buf @ le_bytes 4 sq
      in put_blob (take (min (length b) MAX_EXEC_CHUNK) b) buf)"
| "encode_exec (Marker k) buf = buf @ [kind (Marker k)] @ [marker_as_u8 k]"
| "encode_exec (Alive ms) buf = buf @ [kind (Alive ms)] @ le_bytes 4 ms"
| "encode_exec (Exit c sg) buf =
     (let buf = buf @ [kind (Exit c sg)];
          buf = buf @ le_bytes 4 c
      in buf @ [u8_of_bool sg])"

definition decode_password :: "cursor \<Rightarrow> (rstring option \<times> cursor) option" where
  "decode_password c = do {
     (tag, c) \<leftarrow> read_u8 c;
     if tag = PRESENT then do { (p, c) \<leftarrow> read_str c; Some (Some p, c) }
     else if tag = ABSENT then Some (None, c)
     else None }"

definition decode_exec :: "cursor \<Rightarrow> (exec_frame \<times> cursor) option" where
  "decode_exec c = do {
     (k, c) \<leftarrow> read_u8 c;
     if k = KIND_REQUEST then do {
       (cmd, c) \<leftarrow> read_str c;
       (pw, c) \<leftarrow> decode_password c;
       (lock, c) \<leftarrow> read_u8 c;
       (cs, c) \<leftarrow> read_u16 c;
       (rs, c) \<leftarrow> read_u16 c;
       Some (Request cmd pw (lock \<noteq> 0) cs rs, c) }
     else if k = KIND_BEGIN then do {
       (h, c) \<leftarrow> read_str c;
       (v, c) \<leftarrow> read_str c;
       (p, c) \<leftarrow> read_u32 c;
       Some (Begin h v p, c) }
     else if k = KIND_OUT then do {
       (s, c) \<leftarrow> read_u8 c;
       st \<leftarrow> stream_from_u8 s;
       (sq, c) \<leftarrow> read_u32 c;
       (b, c) \<leftarrow> read_blob c;
       Some (Out st sq b, c) }
     else if k = KIND_MARKER then do {
       (m, c) \<leftarrow> read_u8 c;
       mk \<leftarrow> marker_from_u8 m;
       Some (Marker mk, c) }
     else if k = KIND_ALIVE then do {
       (ms, c) \<leftarrow> read_u32 c;
       Some (Alive ms, c) }
     else if k = KIND_EXIT then do {
       (cd, c) \<leftarrow> read_i32 c;
       (sg, c) \<leftarrow> read_u8 c;
       Some (Exit cd (sg \<noteq> 0), c) }
     else None }"

text \<open>\<open>exec::chunks\<close>: the output cut into pieces a frame can carry.\<close>

function exec_chunks :: "bytes \<Rightarrow> bytes list" where
  "exec_chunks bs =
     (if bs = [] then [] else take MAX_EXEC_CHUNK bs # exec_chunks (drop MAX_EXEC_CHUNK bs))"
  by pat_completeness auto
termination
  by (relation "measure length") (auto simp: MAX_EXEC_CHUNK_def)

declare exec_chunks.simps [simp del]

section \<open>Reading back\<close>

fun exec_fits :: "exec_frame \<Rightarrow> bool" where
  "exec_fits (Request cmd pw _ _ _) \<longleftrightarrow>
     str_fits cmd \<and> (case pw of None \<Rightarrow> True | Some p \<Rightarrow> str_fits p)"
| "exec_fits (Begin h v _) \<longleftrightarrow> str_fits h \<and> str_fits v"
| "exec_fits (Out _ _ b) \<longleftrightarrow> length b \<le> MAX_EXEC_CHUNK"
| "exec_fits _ \<longleftrightarrow> True"

lemma stream_u8 [codec_simps]: "stream_from_u8 (stream_as_u8 s) = Some s"
  by (cases s) (simp_all add: stream_from_u8_def)

lemma marker_u8 [codec_simps]: "marker_from_u8 (marker_as_u8 k) = Some k"
  by (cases k) (simp_all add: marker_from_u8_def)

lemma u8_of_bool_nz [codec_simps]: "(u8_of_bool b \<noteq> 0) = b" "(u8_of_bool b = 0) = (\<not> b)"
  by (simp_all add: u8_of_bool_def)

lemma encode_exec_append: "encode_exec f buf = buf @ encode_exec f []"
  by (cases f)
     (simp_all add: Let_def put_str_eq put_blob_append [of _ "_ @ _"] put_blob_append [of _ "_ # _"]
        split: option.split)

lemma decode_password_at:
  "case pw of None \<Rightarrow> True | Some p \<Rightarrow> str_fits p \<Longrightarrow>
   decode_password (cursor_at pre ((case pw of Some p \<Rightarrow> PRESENT # put_blob p [] | None \<Rightarrow> [ABSENT]) @ suf))
     = Some (pw, cursor_at (pre @ (case pw of Some p \<Rightarrow> PRESENT # put_blob p [] | None \<Rightarrow> [ABSENT])) suf)"
  by (cases pw)
     (simp_all add: decode_password_def codec_simps read_str_at PRESENT_def ABSENT_def)

lemma encode_exec_bytes:
  "encode_exec (Request cmd pw lock cs rs) [] =
     KIND_REQUEST # put_blob cmd []
       @ (case pw of Some p \<Rightarrow> PRESENT # put_blob p [] | None \<Rightarrow> [ABSENT])
       @ u8_of_bool lock # le_bytes 2 cs @ le_bytes 2 rs"
  "encode_exec (Begin h v p) [] = KIND_BEGIN # put_blob h [] @ put_blob v [] @ le_bytes 4 p"
  "length b \<le> MAX_EXEC_CHUNK \<Longrightarrow>
   encode_exec (Out st sq b) [] = KIND_OUT # stream_as_u8 st # le_bytes 4 sq @ put_blob b []"
  by (simp_all add: Let_def put_str_eq put_blob_append [of _ "_ @ _"] put_blob_append [of _ "_ # _"]
        split: option.split)

lemma exec_reads_back:
  "exec_fits f \<Longrightarrow>
   decode_exec (cursor_at pre (encode_exec f [] @ suf)) = Some (f, cursor_at (pre @ encode_exec f []) suf)"
proof (cases f)
  case (Request cmd pw lock cs rs)
  moreover assume "exec_fits f"
  ultimately show ?thesis
    by (simp add: encode_exec_bytes decode_exec_def codec_simps read_str_at decode_password_at
        del: encode_exec.simps)
next
  case (Begin h v p)
  moreover assume "exec_fits f"
  ultimately show ?thesis
    by (simp add: encode_exec_bytes decode_exec_def codec_simps read_str_at kind_defs
        del: encode_exec.simps)
next
  case (Out st sq b)
  moreover assume "exec_fits f"
  ultimately show ?thesis
    by (simp add: encode_exec_bytes decode_exec_def codec_simps read_blob_at kind_defs MAX_EXEC_CHUNK_def
        del: encode_exec.simps)
qed (simp_all add: decode_exec_def codec_simps kind_defs Let_def)

interpretation wire_exec: wire_format "\<lambda>f. encode_exec f []" decode_exec exec_fits
  by unfold_locales (rule exec_reads_back)

lemma exec_chunks_Nil [simp]: "exec_chunks [] = []"
  by (simp add: exec_chunks.simps)

lemma exec_chunks_one: "b \<noteq> [] \<Longrightarrow> length b \<le> MAX_EXEC_CHUNK \<Longrightarrow> exec_chunks b = [b]"
  by (simp add: exec_chunks.simps [of b])

lemma exec_chunks_concat: "concat (exec_chunks bs) = bs"
proof (induction bs rule: exec_chunks.induct)
  case (1 bs)
  then show ?case by (cases "bs = []") (simp_all add: exec_chunks.simps [of bs])
qed

lemma exec_chunks_bound: "b \<in> set (exec_chunks bs) \<Longrightarrow> b \<noteq> [] \<and> length b \<le> MAX_EXEC_CHUNK"
proof (induction bs rule: exec_chunks.induct)
  case (1 bs)
  then show ?case
    by (cases "bs = []") (auto simp: exec_chunks.simps [of bs] MAX_EXEC_CHUNK_def)
qed

end
