(* ===== verification/Float_Bits.thy ===== *)
theory Float_Bits
  imports Prelude
begin

text \<open>
  IEEE 754 numbers as their bits: an \<open>f32\<close> is a \<open>u32\<close> and an \<open>f64\<close> a \<open>u64\<close>
  (\<open>to_bits\<close>), which is also how they travel. Written out here are the operations the
  modelled code applies to them: widening (\<open>f64::from\<close>), the narrowing of
  crates/agent/src/conv.rs (\<open>single\<close>), which rounds to nearest, ties to even, and
  comparison, the conversion of a counter (\<open>conv::unsigned\<close>), and division and
  multiplication as counters need them.
\<close>

type_synonym f32 = u32
type_synonym f64 = u64

section \<open>Fields\<close>

definition f32_sign :: "f32 \<Rightarrow> nat" where "f32_sign x = unat (drop_bit 31 x)"
definition f32_exp :: "f32 \<Rightarrow> nat" where "f32_exp x = unat (take_bit 8 (drop_bit 23 x))"
definition f32_man :: "f32 \<Rightarrow> nat" where "f32_man x = unat (take_bit 23 x)"
definition f64_sign :: "f64 \<Rightarrow> nat" where "f64_sign x = unat (drop_bit 63 x)"
definition f64_exp :: "f64 \<Rightarrow> nat" where "f64_exp x = unat (take_bit 11 (drop_bit 52 x))"
definition f64_man :: "f64 \<Rightarrow> nat" where "f64_man x = unat (take_bit 52 x)"

definition f32_nan :: "f32 \<Rightarrow> bool" where "f32_nan x \<longleftrightarrow> f32_exp x = 255 \<and> f32_man x \<noteq> 0"
definition f64_nan :: "f64 \<Rightarrow> bool" where "f64_nan x \<longleftrightarrow> f64_exp x = 2047 \<and> f64_man x \<noteq> 0"

section \<open>Comparison\<close>

text \<open>The order of the values is the order of the magnitudes' bits, the other way round for
  negative numbers; both zeroes are 0, and nothing compares with a NaN.\<close>

definition f32_key :: "f32 \<Rightarrow> int" where
  "f32_key x = (let m = int (unat (take_bit 31 x)) in if f32_sign x = 1 then - m else m)"

definition f64_key :: "f64 \<Rightarrow> int" where
  "f64_key x = (let m = int (unat (take_bit 63 x)) in if f64_sign x = 1 then - m else m)"

definition f32_less :: "f32 \<Rightarrow> f32 \<Rightarrow> bool" where
  "f32_less x y \<longleftrightarrow> \<not> f32_nan x \<and> \<not> f32_nan y \<and> f32_key x < f32_key y"

definition f64_less :: "f64 \<Rightarrow> f64 \<Rightarrow> bool" where
  "f64_less x y \<longleftrightarrow> \<not> f64_nan x \<and> \<not> f64_nan y \<and> f64_key x < f64_key y"

definition f64_le :: "f64 \<Rightarrow> f64 \<Rightarrow> bool" where
  "f64_le x y \<longleftrightarrow> \<not> f64_nan x \<and> \<not> f64_nan y \<and> f64_key x \<le> f64_key y"

section \<open>Rounding\<close>

text \<open>The natural number nearest to \<open>n / d\<close>, the even one on a tie.\<close>

definition round_half_even :: "nat \<Rightarrow> nat \<Rightarrow> nat" where
  "round_half_even n d =
     (let q = n div d; r = n mod d
      in if 2 * r > d \<or> (2 * r = d \<and> odd q) then q + 1 else q)"

lemma round_half_even_exact: "0 < d \<Longrightarrow> round_half_even (q * d) d = q"
  by (simp add: round_half_even_def)

fun ilog2 :: "nat \<Rightarrow> nat" where
  "ilog2 n = (if n \<le> 1 then 0 else Suc (ilog2 (n div 2)))"

declare ilog2.simps [simp del]

section \<open>Between the widths\<close>

text \<open>\<open>f64::from (x : f32)\<close>: exact. A subnormal of the narrow format is normal in the wide one;
  a NaN stays one, quiet.\<close>

definition widen :: "f32 \<Rightarrow> f64" where
  "widen x =
     (let s = f32_sign x; e = f32_exp x; m = f32_man x;
          mag =
            (if e = 255 then 2047 * 2 ^ 52 + (if m = 0 then 0 else 2 ^ 51 + m mod 2 ^ 22 * 2 ^ 29)
             else if e = 0 then
               (if m = 0 then 0
                else let k = ilog2 m in (k + 873) * 2 ^ 52 + m * 2 ^ (52 - k))
             else (e + 896) * 2 ^ 52 + m * 2 ^ 29)
      in of_nat (s * 2 ^ 63 + mag))"

text \<open>\<open>conv::single\<close>: \<open>to_f32\<close> is always \<open>Some\<close> of the cast, so its NaN default is unreachable.
  Beyond the range of the narrow format the result is infinite.\<close>

definition single :: "f64 \<Rightarrow> f32" where
  "single x =
     (let s = f64_sign x; e = f64_exp x; m = f64_man x;
          sig = (if e = 0 then m else m + 2 ^ 52);
          q = round_half_even sig (2 ^ (if 896 < e then 29 else 29 + (897 - e)));
          b = (if 896 < e then (e - 897) * 2 ^ 23 + q else q);
          mag =
            (if e = 2047 then (if m = 0 then 255 * 2 ^ 23 else 255 * 2 ^ 23 + 2 ^ 22 + m div 2 ^ 29 mod 2 ^ 22)
             else if 255 * 2 ^ 23 \<le> b then 255 * 2 ^ 23
             else b)
      in of_nat (s * 2 ^ 31 + mag))"

section \<open>Arithmetic on non-negative numbers\<close>

text \<open>
  The division and multiplication the program applies to counters, both operands
  non-negative and finite and the result zero or in the normal range (counters are below
  \<open>2 ^ 64\<close>). \<open>f64_nearest n d k\<close> is the double nearest to \<open>n / d * 2 ^ k\<close>.
\<close>

definition f64_nearest :: "nat \<Rightarrow> nat \<Rightarrow> int \<Rightarrow> f64" where
  "f64_nearest n d k =
     (if n = 0 then 0
      else let e0 = int (ilog2 n) - int (ilog2 d);
               e = (if d * 2 ^ nat e0 \<le> n * 2 ^ nat (- e0) then e0 else e0 - 1);
               q = round_half_even (n * 2 ^ nat (52 - e)) (d * 2 ^ nat (e - 52))
           in of_nat (nat (e + k + 1022) * 2 ^ 52 + q))"

definition f64_sig :: "f64 \<Rightarrow> nat" where
  "f64_sig x = (if f64_exp x = 0 then f64_man x else f64_man x + 2 ^ 52)"

definition f64_pow :: "f64 \<Rightarrow> int" where
  "f64_pow x = int (max 1 (f64_exp x)) - 1075"

definition f64_div :: "f64 \<Rightarrow> f64 \<Rightarrow> f64" where
  "f64_div x y = f64_nearest (f64_sig x) (f64_sig y) (f64_pow x - f64_pow y)"

definition f64_mul :: "f64 \<Rightarrow> f64 \<Rightarrow> f64" where
  "f64_mul x y = f64_nearest (f64_sig x * f64_sig y) 1 (f64_pow x + f64_pow y)"

text \<open>\<open>conv::unsigned\<close>: two exact halves joined by a fused multiply-add, so rounded once.\<close>

definition unsigned_f64 :: "u64 \<Rightarrow> f64" where
  "unsigned_f64 n =
     (let hi = unat (drop_bit 32 n); lo = unat (take_bit 32 n)
      in f64_nearest (hi * 4294967296 + lo) 1 0)"

section \<open>Constants\<close>

definition F64_100 :: f64 where "F64_100 = 0x4059000000000000"

text \<open>Minus one, the sentinel for a reading that was not taken.\<close>

definition F64_MINUS_ONE :: f64 where "F64_MINUS_ONE = 0xBFF0000000000000"

definition F32_ZERO :: f32 where "F32_ZERO = 0"

end
