(* ===== verification/Proto.thy ===== *)
theory Proto
  imports Exec_Frames Float_Bits
begin

text \<open>
  The MTOP telemetry protocol (crates/agent/src/proto/mod.rs, encode.rs, decode.rs): the
  payloads, the framing with its 16-bit length field, the encoders that keep a payload within
  it by dropping whole rows, the decoder, and the \<open>Hello\<close> by which two builds decide whether
  they speak to each other. Process names (crates/agent/src/proc_name.rs) are the fixed
  arrays the code holds them in.
\<close>

section \<open>Constants and modes\<close>

definition MAGIC :: bytes where "MAGIC = [0x4D, 0x54, 0x4F, 0x50]"
definition PROTO_VERSION :: u8 where "PROTO_VERSION = 5"
definition EXEC_MIN_VERSION :: u8 where "EXEC_MIN_VERSION = 5"
definition PROTO_MIN_VERSION :: u8 where "PROTO_MIN_VERSION = 2"
definition MAX_AGENT_VERSION_LEN :: nat where "MAX_AGENT_VERSION_LEN = 64"
definition MAX_PROTO_VERSION :: u8 where "MAX_PROTO_VERSION = 20"
definition MISSING_VERSION :: rstring where "MISSING_VERSION = lit ''missing''"
definition HEADER_LEN :: nat where "HEADER_LEN = 8"
definition MAX_PAYLOAD :: nat where "MAX_PAYLOAD = 65535"
definition PROC_NAME_CAP :: nat where "PROC_NAME_CAP = 32"

datatype proto_mode = ModeMonitor | ModeDocker | ModeFetch | ModeExec | ModeHello

fun mode_as_u8 :: "proto_mode \<Rightarrow> u8" where
  "mode_as_u8 ModeMonitor = 0"
| "mode_as_u8 ModeDocker = 1"
| "mode_as_u8 ModeFetch = 2"
| "mode_as_u8 ModeExec = 3"
| "mode_as_u8 ModeHello = 4"

definition mode_try_from :: "u8 \<Rightarrow> (proto_mode, u8) result" where
  "mode_try_from v =
     (if v = 0 then Ok ModeMonitor else if v = 1 then Ok ModeDocker
      else if v = 2 then Ok ModeFetch else if v = 3 then Ok ModeExec
      else if v = 4 then Ok ModeHello else Err v)"

section \<open>Hello\<close>

record hello =
  h_agent_version :: rstring
  h_proto_version :: u8
  h_min_proto_version :: u8

definition hello_new :: "rstring \<Rightarrow> hello" where
  "hello_new v = \<lparr>h_agent_version = v, h_proto_version = PROTO_VERSION,
                  h_min_proto_version = PROTO_MIN_VERSION\<rparr>"

definition ascii_alphanumeric :: "u8 \<Rightarrow> bool" where
  "ascii_alphanumeric c \<longleftrightarrow>
     0x30 \<le> c \<and> c \<le> 0x39 \<or> 0x41 \<le> c \<and> c \<le> 0x5A \<or> 0x61 \<le> c \<and> c \<le> 0x7A"

definition version_char :: "u8 \<Rightarrow> bool" where
  "version_char c \<longleftrightarrow> ascii_alphanumeric c \<or> c = 0x2E \<or> c = 0x2D \<or> c = 0x2B"

definition hello_is_valid :: "hello \<Rightarrow> bool" where
  "hello_is_valid h =
     (if h_agent_version h = [] \<or> length (h_agent_version h) > MAX_AGENT_VERSION_LEN then False
      else if h_agent_version h = MISSING_VERSION then False
      else if h_proto_version h = 0 \<or> h_min_proto_version h = 0 then False
      else if h_min_proto_version h > h_proto_version h then False
      else if h_proto_version h > MAX_PROTO_VERSION \<or> h_min_proto_version h > MAX_PROTO_VERSION then False
      else if \<not> list_all version_char (h_agent_version h) then False
      else True)"

definition hello_is_compatible :: "hello \<Rightarrow> bool" where
  "hello_is_compatible h =
     (if \<not> hello_is_valid h then False
      else h_proto_version h \<ge> PROTO_MIN_VERSION \<and> PROTO_VERSION \<ge> h_min_proto_version h)"

definition parse_version :: "rstring \<Rightarrow> (nat \<times> nat \<times> nat) option" where
  "parse_version v =
     (case split_at_byte 0x2E v of
        [ma, mi, pa] \<Rightarrow> do {
          major \<leftarrow> parse_unsigned 65535 ma;
          minor \<leftarrow> parse_unsigned 65535 mi;
          patch \<leftarrow> parse_unsigned 65535 (takeWhile (\<lambda>c. c \<noteq> 0x2D \<and> c \<noteq> 0x2B) pa);
          Some (major, minor, patch) }
      | _ \<Rightarrow> None)"

text \<open>Tuples compare as the derived order of Rust does: by the first field that differs.\<close>

fun version_less :: "nat \<times> nat \<times> nat \<Rightarrow> nat \<times> nat \<times> nat \<Rightarrow> bool" where
  "version_less (a, b, c) (x, y, z) \<longleftrightarrow> a < x \<or> a = x \<and> (b < y \<or> b = y \<and> c < z)"

definition needs_replacement :: "hello \<Rightarrow> rstring \<Rightarrow> bool" where
  "needs_replacement h local =
     (if \<not> hello_is_valid h \<or> \<not> hello_is_compatible h then True
      else if h_agent_version h = local then False
      else case (parse_version (h_agent_version h), parse_version local) of
             (Some r, Some l) \<Rightarrow> version_less r l
           | _ \<Rightarrow> True)"

section \<open>Process names\<close>

record proc_name =
  pn_len :: u8
  pn_bytes :: bytes

text \<open>\<open>while !s.is_char_boundary(end) { end -= 1 }\<close>; zero is a boundary.\<close>

fun boundary_at_most :: "rstring \<Rightarrow> nat \<Rightarrow> nat" where
  "boundary_at_most s 0 = 0"
| "boundary_at_most s (Suc e) = (if char_boundary s (Suc e) then Suc e else boundary_at_most s e)"

definition proc_name_new :: "rstring \<Rightarrow> proc_name" where
  "proc_name_new s =
     (let e = boundary_at_most s (min (length s) PROC_NAME_CAP)
      in \<lparr>pn_len = u8_clamp e, pn_bytes = take e s @ replicate (PROC_NAME_CAP - e) 0\<rparr>)"

definition proc_name_str :: "proc_name \<Rightarrow> rstring" where
  "proc_name_str p = (case from_utf8 (take (unat (pn_len p)) (pn_bytes p)) of Some s \<Rightarrow> s | None \<Rightarrow> [])"

section \<open>Payloads\<close>

record docker_row =
  dr_name :: rstring
  dr_status :: rstring
  dr_image :: rstring
  dr_cpu :: rstring
  dr_cpu_pct :: f64
  dr_mem :: rstring
  dr_mem_bytes :: u64

record fetch_snapshot =
  f_user_host :: rstring
  f_agent_version :: rstring
  f_os :: rstring
  f_kernel :: rstring
  f_uptime :: rstring
  f_host_model :: rstring
  f_cpu_model :: rstring
  f_memory_str :: rstring
  f_disk_str :: rstring

record usage =
  u_total :: u64
  u_used :: u64
  u_pct :: f64

definition usage_new :: "u64 \<Rightarrow> u64 \<Rightarrow> usage" where
  "usage_new tot used =
     \<lparr>u_total = tot, u_used = used,
      u_pct = (if tot > 0 then f64_mul (f64_div (unsigned_f64 used) (unsigned_f64 tot)) F64_100
               else 0)\<rparr>"

record process =
  p_pid :: u32
  p_name :: proc_name
  p_cpu :: f64
  p_mem :: u64

datatype temp_unit = Celsius | Fahrenheit

record snapshot =
  s_host :: rstring
  s_agent_version :: rstring
  s_cpu_pct :: f64
  s_cpu_mhz :: "f64 option"
  s_cores :: "(nat \<times> f64 \<times> f64 option) list"
  s_temp_unit :: temp_unit
  s_mem :: usage
  s_disk :: usage
  s_rx_rate :: f64
  s_tx_rate :: f64
  s_procs :: "process list"
  s_proc_names :: "proc_name list"

datatype payload =
    Monitor snapshot
  | Docker rstring "docker_row list"
  | Fetch fetch_snapshot
  | Exec exec_frame
  | HelloP hello

section \<open>Encoding\<close>

definition put_f32 :: "f64 \<Rightarrow> bytes \<Rightarrow> bytes" where
  "put_f32 v buf = buf @ le_bytes 4 (single v)"

definition encode_core :: "nat \<times> f64 \<times> f64 option \<Rightarrow> bytes \<Rightarrow> bytes" where
  "encode_core core buf =
     (let (idx, cpu, temp) = core;
          buf = buf @ le_bytes 2 (u16_clamp idx);
          buf = put_f32 cpu buf
      in put_f32 (case temp of Some t \<Rightarrow> t | None \<Rightarrow> F64_MINUS_ONE) buf)"

definition encode_proc :: "process \<Rightarrow> bytes \<Rightarrow> bytes" where
  "encode_proc p buf =
     (let buf = buf @ le_bytes 4 (p_pid p);
          buf = put_f32 (p_cpu p) buf;
          buf = buf @ le_bytes 8 (p_mem p)
      in encode_str (proc_name_str (p_name p)) buf)"

definition encode_docker_row :: "docker_row \<Rightarrow> bytes \<Rightarrow> bytes" where
  "encode_docker_row r buf =
     (let buf = encode_str (dr_name r) buf;
          buf = encode_str (dr_status r) buf;
          buf = encode_str (dr_image r) buf;
          buf = put_f32 (dr_cpu_pct r) buf;
          buf = encode_str (dr_cpu r) buf;
          buf = encode_str (dr_mem r) buf
      in buf @ le_bytes 8 (dr_mem_bytes r))"

text \<open>
  The loop of \<open>encode_docker\<close> and \<open>encode_proc_names\<close>: write one more item, and take it
  back whole when the payload has outgrown the length field.
\<close>

fun put_while_fits :: "('a \<Rightarrow> bytes \<Rightarrow> bytes) \<Rightarrow> 'a list \<Rightarrow> u16 \<Rightarrow> bytes \<Rightarrow> u16 \<times> bytes" where
  "put_while_fits put [] written buf = (written, buf)"
| "put_while_fits put (x # xs) written buf =
     (if written = 0xFFFF then (written, buf)
      else let before = length buf; buf = put x buf
           in if length buf - HEADER_LEN > MAX_PAYLOAD then (written, take before buf)
              else put_while_fits put xs (written + 1) buf)"

text \<open>\<open>buf[pos..pos + 2].copy_from_slice(..)\<close>\<close>

definition patch_u16 :: "nat \<Rightarrow> u16 \<Rightarrow> bytes \<Rightarrow> bytes" where
  "patch_u16 pos w buf = take pos buf @ le_bytes 2 w @ drop (pos + 2) buf"

definition encode_docker :: "rstring \<Rightarrow> docker_row list \<Rightarrow> bytes \<Rightarrow> bytes" where
  "encode_docker host rows buf =
     (let buf = encode_str host buf;
          count_pos = length buf;
          buf = buf @ le_bytes 2 (0 :: u16);
          (written, buf) = put_while_fits encode_docker_row rows 0 buf
      in patch_u16 count_pos written buf)"

definition encode_proc_names :: "proc_name list \<Rightarrow> bytes \<Rightarrow> bytes" where
  "encode_proc_names names buf =
     (let count_pos = length buf;
          buf = buf @ le_bytes 2 (0 :: u16);
          (written, buf) = put_while_fits (\<lambda>n. encode_str (proc_name_str n)) names 0 buf
      in patch_u16 count_pos written buf)"

definition encode_snapshot :: "snapshot \<Rightarrow> bytes \<Rightarrow> bytes" where
  "encode_snapshot s buf =
     (let buf = encode_str (s_host s) buf;
          buf = encode_str (s_agent_version s) buf;
          buf = put_f32 (s_cpu_pct s) buf;
          buf = put_f32 (case s_cpu_mhz s of Some v \<Rightarrow> v | None \<Rightarrow> F64_MINUS_ONE) buf;
          num_cores = u16_clamp (length (s_cores s));
          buf = buf @ le_bytes 2 num_cores;
          buf = fold encode_core (take (unat num_cores) (s_cores s)) buf;
          tu = (case s_temp_unit s of Celsius \<Rightarrow> 0 | Fahrenheit \<Rightarrow> 1);
          buf = buf @ [tu];
          buf = buf @ le_bytes 8 (u_total (s_mem s));
          buf = buf @ le_bytes 8 (u_used (s_mem s));
          buf = buf @ le_bytes 8 (u_total (s_disk s));
          buf = buf @ le_bytes 8 (u_used (s_disk s));
          buf = put_f32 (s_rx_rate s) buf;
          buf = put_f32 (s_tx_rate s) buf;
          num_procs = u16_clamp (length (s_procs s));
          buf = buf @ le_bytes 2 num_procs;
          buf = fold encode_proc (take (unat num_procs) (s_procs s)) buf
      in encode_proc_names (s_proc_names s) buf)"

definition encode_fetch :: "fetch_snapshot \<Rightarrow> bytes \<Rightarrow> bytes" where
  "encode_fetch s buf =
     (let buf = encode_str (f_user_host s) buf;
          buf = encode_str (f_agent_version s) buf;
          buf = encode_str (f_os s) buf;
          buf = encode_str (f_kernel s) buf;
          buf = encode_str (f_uptime s) buf;
          buf = encode_str (f_host_model s) buf;
          buf = encode_str (f_cpu_model s) buf;
          buf = encode_str (f_memory_str s) buf
      in encode_str (f_disk_str s) buf)"

definition encode_hello :: "hello \<Rightarrow> bytes \<Rightarrow> bytes" where
  "encode_hello h buf = encode_str (h_agent_version h) buf @ [h_proto_version h] @ [h_min_proto_version h]"

definition frame :: "proto_mode \<Rightarrow> (bytes \<Rightarrow> bytes) \<Rightarrow> bytes" where
  "frame mode fill =
     (let buf = MAGIC @ [PROTO_VERSION] @ [mode_as_u8 mode] @ [0] @ [0];
          payload_start = length buf;
          buf = fill buf;
          payload_len = length buf - payload_start;
          (payload_len, buf) =
            (if payload_len > MAX_PAYLOAD then (MAX_PAYLOAD, take (payload_start + MAX_PAYLOAD) buf)
             else (payload_len, buf));
          len_bytes = le_bytes 2 (u16_clamp payload_len)
      in buf[6 := len_bytes ! 0, 7 := len_bytes ! 1])"

fun mode_of :: "payload \<Rightarrow> proto_mode" where
  "mode_of (Monitor _) = ModeMonitor"
| "mode_of (Docker _ _) = ModeDocker"
| "mode_of (Fetch _) = ModeFetch"
| "mode_of (Exec _) = ModeExec"
| "mode_of (HelloP _) = ModeHello"

fun fill_of :: "payload \<Rightarrow> bytes \<Rightarrow> bytes" where
  "fill_of (Monitor s) = encode_snapshot s"
| "fill_of (Docker host rows) = encode_docker host rows"
| "fill_of (Fetch s) = encode_fetch s"
| "fill_of (Exec f) = encode_exec f"
| "fill_of (HelloP h) = encode_hello h"

definition encode_packet :: "payload \<Rightarrow> bytes" where
  "encode_packet p = frame (mode_of p) (fill_of p)"

definition encode_monitor_packet_into :: "snapshot \<Rightarrow> bytes \<Rightarrow> bytes" where
  "encode_monitor_packet_into s buf = frame ModeMonitor (encode_snapshot s)"

section \<open>Decoding\<close>

definition read_f32 :: "cursor \<Rightarrow> (f32 \<times> cursor) option" where
  "read_f32 c = do { (b, c) \<leftarrow> read_bytes 4 c; Some (of_le b, c) }"

definition decode_fetch :: "cursor \<Rightarrow> (fetch_snapshot \<times> cursor) option" where
  "decode_fetch c = do {
     (a1, c) \<leftarrow> read_str c;
     (a2, c) \<leftarrow> read_str c;
     (a3, c) \<leftarrow> read_str c;
     (a4, c) \<leftarrow> read_str c;
     (a5, c) \<leftarrow> read_str c;
     (a6, c) \<leftarrow> read_str c;
     (a7, c) \<leftarrow> read_str c;
     (a8, c) \<leftarrow> read_str c;
     (a9, c) \<leftarrow> read_str c;
     Some (\<lparr>f_user_host = a1, f_agent_version = a2, f_os = a3, f_kernel = a4, f_uptime = a5,
            host_model = a6, f_cpu_model = a7, f_memory_str = a8, f_disk_str = a9\<rparr>, c) }"

definition decode_hello :: "cursor \<Rightarrow> (hello \<times> cursor) option" where
  "decode_hello c = do {
     (v, c) \<leftarrow> read_str c;
     (p, c) \<leftarrow> read_u8 c;
     (m, c) \<leftarrow> read_u8 c;
     Some (\<lparr>h_agent_version = v, h_proto_version = p, h_min_proto_version = m\<rparr>, c) }"

definition decode_docker_row :: "cursor \<Rightarrow> (docker_row \<times> cursor) option" where
  "decode_docker_row c = do {
     (name, c) \<leftarrow> read_str c;
     (status, c) \<leftarrow> read_str c;
     (image, c) \<leftarrow> read_str c;
     (pct, c) \<leftarrow> read_f32 c;
     (cpu, c) \<leftarrow> read_str c;
     (m, c) \<leftarrow> read_str c;
     (mb, c) \<leftarrow> read_u64 c;
     Some (\<lparr>dr_name = name, dr_status = status, dr_image = image, dr_cpu = cpu,
            dr_cpu_pct = widen pct, dr_mem = m, dr_mem_bytes = mb\<rparr>, c) }"

definition decode_docker :: "cursor \<Rightarrow> (payload \<times> cursor) option" where
  "decode_docker c = do {
     (host, c) \<leftarrow> read_str c;
     (n, c) \<leftarrow> read_u16 c;
     (rows, c) \<leftarrow> read_many decode_docker_row (unat n) c;
     Some (Docker host rows, c) }"

definition decode_core :: "cursor \<Rightarrow> ((nat \<times> f64 \<times> f64 option) \<times> cursor) option" where
  "decode_core c = do {
     (idx, c) \<leftarrow> read_u16 c;
     (cpu, c) \<leftarrow> read_f32 c;
     (temp_raw, c) \<leftarrow> read_f32 c;
     Some ((unat idx, widen cpu, if f32_less temp_raw F32_ZERO then None else Some (widen temp_raw)), c) }"

definition decode_proc :: "cursor \<Rightarrow> (process \<times> cursor) option" where
  "decode_proc c = do {
     (pid, c) \<leftarrow> read_u32 c;
     (cpu, c) \<leftarrow> read_f32 c;
     (m, c) \<leftarrow> read_u64 c;
     (name, c) \<leftarrow> read_str c;
     Some (\<lparr>p_pid = pid, p_name = proc_name_new name, p_cpu = widen cpu, p_mem = m\<rparr>, c) }"

definition decode_proc_name :: "cursor \<Rightarrow> (proc_name \<times> cursor) option" where
  "decode_proc_name c = do { (s, c) \<leftarrow> read_str c; Some (proc_name_new s, c) }"

definition decode_mhz :: "u8 \<Rightarrow> cursor \<Rightarrow> (f64 option \<times> cursor) option" where
  "decode_mhz version c =
     (if version \<ge> 3 then do {
        (raw, c) \<leftarrow> read_f32 c;
        Some (if f32_less F32_ZERO raw then Some (widen raw) else None, c) }
      else Some (None, c))"

definition decode_proc_names :: "u8 \<Rightarrow> cursor \<Rightarrow> (proc_name list \<times> cursor) option" where
  "decode_proc_names version c =
     (if version \<ge> 4 then do {
        (count, c) \<leftarrow> read_u16 c;
        read_many decode_proc_name (unat count) c }
      else Some ([], c))"

definition decode_snapshot :: "cursor \<Rightarrow> u8 \<Rightarrow> (snapshot \<times> cursor) option" where
  "decode_snapshot c version = do {
     (host, c) \<leftarrow> read_str c;
     (av, c) \<leftarrow> read_str c;
     (pct, c) \<leftarrow> read_f32 c;
     (mhz, c) \<leftarrow> decode_mhz version c;
     (num_cores, c) \<leftarrow> read_u16 c;
     (cs, c) \<leftarrow> read_many decode_core (unat num_cores) c;
     (tu, c) \<leftarrow> read_u8 c;
     (mem_total, c) \<leftarrow> read_u64 c;
     (mem_used, c) \<leftarrow> read_u64 c;
     (disk_total, c) \<leftarrow> read_u64 c;
     (disk_used, c) \<leftarrow> read_u64 c;
     (rx, c) \<leftarrow> read_f32 c;
     (tx, c) \<leftarrow> read_f32 c;
     (num_procs, c) \<leftarrow> read_u16 c;
     (ps, c) \<leftarrow> read_many decode_proc (unat num_procs) c;
     (names, c) \<leftarrow> decode_proc_names version c;
     Some (\<lparr>s_host = host, s_agent_version = av, s_cpu_pct = widen pct, s_cpu_mhz = mhz,
            s_cores = cs, s_temp_unit = (if tu = 1 then Fahrenheit else Celsius),
            s_mem = usage_new mem_total mem_used, s_disk = usage_new disk_total disk_used,
            s_rx_rate = widen rx, s_tx_rate = widen tx, s_procs = ps, s_proc_names = names\<rparr>, c) }"

definition decode_packet :: "bytes \<Rightarrow> payload option" where
  "decode_packet data =
     (if length data < HEADER_LEN then None
      else if take 4 data \<noteq> MAGIC then None
      else let version = data ! 4; mode = data ! 5;
               payload_len = unat (of_le [data ! 6, data ! 7] :: u16)
           in if length data < HEADER_LEN + payload_len then None
              else let cur = cursor_new (drop 8 data)
                   in if mode = mode_as_u8 ModeHello then
                        map_option (HelloP \<circ> fst) (decode_hello cur)
                      else if mode = mode_as_u8 ModeMonitor then
                        map_option (Monitor \<circ> fst) (decode_snapshot cur version)
                      else if mode = mode_as_u8 ModeDocker \<and> version < 2 then None
                      else if mode = mode_as_u8 ModeDocker then
                        map_option fst (decode_docker cur)
                      else if mode = mode_as_u8 ModeFetch then
                        map_option (Fetch \<circ> fst) (decode_fetch cur)
                      else if mode = mode_as_u8 ModeExec \<and> version < EXEC_MIN_VERSION then None
                      else if mode = mode_as_u8 ModeExec then
                        map_option (Exec \<circ> fst) (decode_exec cur)
                      else None)"

end
