(* ===== verification/Proto_Codec.thy ===== *)
theory Proto_Codec
  imports Proto
begin

text \<open>
  What the MTOP codec promises: the bytes each encoder appends, the framing, the items that
  survive when a payload outgrows its length field, and that decoding an encoded packet gives
  the payload back, up to the quantisation the wire format imposes.
\<close>

section \<open>What the encoders append\<close>

lemma put_f32_at [codec_simps]:
  "read_f32 (cursor_at pre (le_bytes 4 w @ suf)) = Some (w, cursor_at (pre @ le_bytes 4 w) suf)"
  by (simp add: read_f32_def read_bytes_at)

lemma encode_str_append: "encode_str s buf = buf @ put_blob s []"
  by (simp add: encode_str_eq put_blob_append [of s buf])

lemmas put_simps = encode_str_append put_f32_def Let_def

definition row_bytes :: "docker_row \<Rightarrow> bytes" where
  "row_bytes r =
     put_blob (dr_name r) [] @ put_blob (dr_status r) [] @ put_blob (dr_image r) []
     @ le_bytes 4 (single (dr_cpu_pct r)) @ put_blob (dr_cpu r) [] @ put_blob (dr_mem r) []
     @ le_bytes 8 (dr_mem_bytes r)"

lemma encode_docker_row_append: "encode_docker_row r buf = buf @ row_bytes r"
  by (simp add: encode_docker_row_def row_bytes_def put_simps)

definition core_bytes :: "nat \<times> f64 \<times> f64 option \<Rightarrow> bytes" where
  "core_bytes core =
     (case core of (idx, cpu, temp) \<Rightarrow>
        le_bytes 2 (u16_clamp idx) @ le_bytes 4 (single cpu)
        @ le_bytes 4 (single (case temp of Some t \<Rightarrow> t | None \<Rightarrow> F64_MINUS_ONE)))"

lemma encode_core_append: "encode_core k buf = buf @ core_bytes k"
  by (simp add: encode_core_def core_bytes_def put_simps split: prod.split)

definition proc_bytes :: "process \<Rightarrow> bytes" where
  "proc_bytes p =
     le_bytes 4 (p_pid p) @ le_bytes 4 (single (p_cpu p)) @ le_bytes 8 (p_mem p)
     @ put_blob (proc_name_str (p_name p)) []"

lemma encode_proc_append: "encode_proc p buf = buf @ proc_bytes p"
  by (simp add: encode_proc_def proc_bytes_def put_simps)

lemma fold_append:
  "(\<And>x buf. f x buf = buf @ g x) \<Longrightarrow> fold f xs buf = buf @ concat (map g xs)"
  by (induction xs arbitrary: buf) simp_all

definition fetch_fields :: "fetch_snapshot \<Rightarrow> rstring list" where
  "fetch_fields s =
     [f_user_host s, f_agent_version s, f_os s, f_kernel s, f_uptime s, f_host_model s,
      f_cpu_model s, f_memory_str s, f_disk_str s]"

lemma encode_fetch_append:
  "encode_fetch s buf = buf @ concat (map (\<lambda>f. put_blob f []) (fetch_fields s))"
  by (simp add: encode_fetch_def fetch_fields_def put_simps)

lemma encode_hello_append:
  "encode_hello h buf =
     buf @ put_blob (h_agent_version h) [] @ [h_proto_version h, h_min_proto_version h]"
  by (simp add: encode_hello_def put_simps)

section \<open>The items that fit\<close>

text \<open>The specification of the two loops: the longest prefix whose encodings fit the room left.\<close>

fun fit_prefix :: "('a \<Rightarrow> nat) \<Rightarrow> nat \<Rightarrow> 'a list \<Rightarrow> 'a list" where
  "fit_prefix sz room [] = []"
| "fit_prefix sz room (x # xs) =
     (if sz x \<le> room then x # fit_prefix sz (room - sz x) xs else [])"

lemma fit_prefix_take: "\<exists>n. fit_prefix sz room xs = take n xs"
proof (induction xs arbitrary: room)
  case Nil
  show ?case by simp
next
  case (Cons x xs)
  then obtain n where "fit_prefix sz (room - sz x) xs = take n xs" by blast
  then have "sz x \<le> room \<Longrightarrow> fit_prefix sz room (x # xs) = take (Suc n) (x # xs)" by simp
  moreover have "\<not> sz x \<le> room \<Longrightarrow> fit_prefix sz room (x # xs) = take 0 (x # xs)" by simp
  ultimately show ?case by blast
qed

lemma fit_prefix_sum: "sum_list (map sz (fit_prefix sz room xs)) \<le> room"
proof (induction xs arbitrary: room)
  case Nil
  show ?case by simp
next
  case (Cons x xs)
  have "sum_list (map sz (fit_prefix sz (room - sz x) xs)) \<le> room - sz x" by (rule Cons)
  then show ?case by (simp del: le_diff_conv2) arith
qed

lemma fit_prefix_all: "sum_list (map sz xs) \<le> room \<Longrightarrow> fit_prefix sz room xs = xs"
  by (induction xs arbitrary: room) simp_all

lemma fit_prefix_maximal:
  "fit_prefix sz room xs = take n xs \<Longrightarrow> n < length xs \<Longrightarrow>
   room < sum_list (map sz (take (Suc n) xs))"
proof (induction xs arbitrary: room n)
  case Nil
  then show ?case by simp
next
  case (Cons x xs)
  show ?case
  proof (cases "sz x \<le> room")
    case False
    with Cons.prems have "n = 0" by (cases n) simp_all
    with False show ?thesis by simp
  next
    case True
    with Cons.prems obtain m where n: "n = Suc m" by (cases n) simp_all
    with True Cons have "room - sz x < sum_list (map sz (take (Suc m) xs))" by simp
    with True n show ?thesis by simp
  qed
qed

lemma fit_prefix_subset: "x \<in> set (fit_prefix sz room xs) \<Longrightarrow> x \<in> set xs"
  by (induction xs arbitrary: room) (auto split: if_splits)

lemma length_fit_prefix: "(\<And>x. m \<le> sz x) \<Longrightarrow> m * length (fit_prefix sz room xs) \<le> room"
proof (induction xs arbitrary: room)
  case Nil
  show ?case by simp
next
  case (Cons x xs)
  then have "m * length (fit_prefix sz (room - sz x) xs) \<le> room - sz x" by blast
  moreover have "m \<le> sz x" by (rule Cons.prems)
  ultimately show ?case by (cases "sz x \<le> room") auto
qed

text \<open>
  The loop writes exactly those items. Every item takes at least two bytes, so its guard on
  the counter never fires: the payload is full first.
\<close>

lemma put_while_fits_eq:
  assumes put: "\<And>x buf. put x buf = buf @ enc x" and two: "\<And>x. 2 \<le> length (enc x)"
    and start: "HEADER_LEN \<le> length buf"
    and count: "2 * unat written \<le> min (length buf - HEADER_LEN) MAX_PAYLOAD"
  shows "put_while_fits put xs written buf =
     (let kept = fit_prefix (\<lambda>x. length (enc x)) (MAX_PAYLOAD + HEADER_LEN - length buf) xs
      in (written + of_nat (length kept), buf @ concat (map enc kept)))"
  using start count
proof (induction xs arbitrary: written buf)
  case Nil
  then show ?case by simp
next
  case (Cons x xs)
  let ?sz = "\<lambda>x. length (enc x)"
  have small: "unat written \<le> 32767"
    using Cons.prems by (simp add: MAX_PAYLOAD_def)
  then have guard: "written \<noteq> 0xFFFF" by auto
  note px = put [of x buf]
  show ?case
  proof (cases "?sz x \<le> MAX_PAYLOAD + HEADER_LEN - length buf")
    case False
    with Cons.prems two [of x] have "MAX_PAYLOAD < length (buf @ enc x) - HEADER_LEN"
      by (simp add: MAX_PAYLOAD_def)
    with guard False show ?thesis by (simp add: px Let_def)
  next
    case True
    let ?buf = "buf @ enc x"
    have "length buf + ?sz x \<le> MAX_PAYLOAD + HEADER_LEN"
      using True two [of x] by linarith
    with Cons.prems have fits: "length ?buf - HEADER_LEN \<le> MAX_PAYLOAD" "HEADER_LEN \<le> length ?buf"
      by simp_all
    have inc: "unat (written + 1) = unat written + 1"
      using small by (simp add: unat_word_ariths)
    have "2 * unat (written + 1) \<le> min (length ?buf - HEADER_LEN) MAX_PAYLOAD"
    proof -
      have "2 * unat written \<le> length buf - HEADER_LEN" using Cons.prems(2) by simp
      with two [of x] Cons.prems(1) have "2 * (unat written + 1) \<le> length buf + ?sz x - HEADER_LEN"
        by arith
      with fits show ?thesis unfolding inc by simp
    qed
    note IH = Cons.IH [OF fits(2) this]
    have "MAX_PAYLOAD + HEADER_LEN - length ?buf = MAX_PAYLOAD + HEADER_LEN - length buf - ?sz x"
      by simp
    with guard True fits IH show ?thesis
      by (simp add: px Let_def not_less ac_simps)
  qed
qed

lemma patch_u16_at:
  "length pre = pos \<Longrightarrow> patch_u16 pos w (pre @ le_bytes 2 (v :: u16) @ suf) = pre @ le_bytes 2 w @ suf"
  by (simp add: patch_u16_def)

text \<open>A counted list with its loop, behind \<open>pre\<close>: the count is of the items that follow it.\<close>

lemma counted_items:
  fixes xs :: "'a list"
  assumes put: "\<And>x buf. put x buf = buf @ enc x" and two: "\<And>x. 2 \<le> length (enc x)"
    and start: "HEADER_LEN \<le> length pre"
  defines "kept \<equiv> fit_prefix (\<lambda>x. length (enc x)) (MAX_PAYLOAD + HEADER_LEN - length pre - 2) xs"
  shows "(let (written, b) = put_while_fits put xs 0 (pre @ le_bytes 2 (0 :: u16))
          in patch_u16 (length pre) written b)
         = pre @ le_bytes 2 (of_nat (length kept) :: u16) @ concat (map enc kept)"
    and "length kept < 65536"
proof -
  have "put_while_fits put xs 0 (pre @ le_bytes 2 (0 :: u16)) =
      (of_nat (length kept), (pre @ le_bytes 2 (0 :: u16)) @ concat (map enc kept))"
    using start put_while_fits_eq [of put enc "pre @ le_bytes 2 (0 :: u16)" 0 xs, OF put two]
    by (simp add: kept_def Let_def)
  then show "(let (written, b) = put_while_fits put xs 0 (pre @ le_bytes 2 (0 :: u16))
          in patch_u16 (length pre) written b)
         = pre @ le_bytes 2 (of_nat (length kept) :: u16) @ concat (map enc kept)"
    by (simp add: patch_u16_at)
  have "2 * length kept \<le> MAX_PAYLOAD + HEADER_LEN - length pre - 2"
    unfolding kept_def by (rule length_fit_prefix) (rule two)
  with start show "length kept < 65536"
    by (simp add: MAX_PAYLOAD_def HEADER_LEN_def)
qed

section \<open>Framing\<close>

lemma le_bytes_2_nth: "le_bytes 2 w = [le_bytes 2 w ! 0, le_bytes 2 w ! 1]"
  by (simp add: numeral_2_eq_2)

lemma frame_bytes:
  assumes "\<And>buf. length buf = HEADER_LEN \<Longrightarrow> fill buf = buf @ body"
  shows "frame mode fill =
     MAGIC @ [PROTO_VERSION, mode_as_u8 mode]
     @ le_bytes 2 (u16_clamp (min (length body) MAX_PAYLOAD)) @ take MAX_PAYLOAD body"
proof -
  let ?h = "MAGIC @ [PROTO_VERSION, mode_as_u8 mode, 0, 0]"
  have fill: "fill ?h = ?h @ body"
    by (rule assms) (simp add: MAGIC_def HEADER_LEN_def)
  have eq: "frame mode fill =
      (?h @ take MAX_PAYLOAD body)
        [6 := le_bytes 2 (u16_clamp (min (length body) MAX_PAYLOAD)) ! 0,
         7 := le_bytes 2 (u16_clamp (min (length body) MAX_PAYLOAD)) ! 1]"
    using fill by (auto simp: frame_def Let_def MAGIC_def min_def)
  show ?thesis
    unfolding eq
    using le_bytes_2_nth [of "u16_clamp (min (length body) MAX_PAYLOAD)"]
    by (simp add: MAGIC_def eval_nat_numeral del: le_bytes.simps)
qed

lemma row_bytes_min: "2 \<le> length (row_bytes r)"
  by (simp add: row_bytes_def length_put_blob)

definition docker_room :: "rstring \<Rightarrow> nat" where
  "docker_room host = MAX_PAYLOAD - (2 + min (length host) 65535) - 2"

text \<open>The rows a Docker packet carries, and the names a Monitor packet does.\<close>

definition docker_kept :: "rstring \<Rightarrow> docker_row list \<Rightarrow> docker_row list" where
  "docker_kept host rows = fit_prefix (\<lambda>r. length (row_bytes r)) (docker_room host) rows"

lemma encode_docker_append:
  assumes "length buf = HEADER_LEN"
  shows "encode_docker host rows buf =
     buf @ put_blob host [] @ le_bytes 2 (of_nat (length (docker_kept host rows)) :: u16)
       @ concat (map row_bytes (docker_kept host rows))"
    and "length (docker_kept host rows) < 65536"
proof -
  have start: "HEADER_LEN \<le> length (buf @ put_blob host [])" using assms by simp
  have room: "MAX_PAYLOAD + HEADER_LEN - length (buf @ put_blob host []) - 2 = docker_room host"
    using assms by (simp add: docker_room_def length_put_blob)
  note items = counted_items [where put = encode_docker_row and enc = row_bytes and xs = rows,
      OF encode_docker_row_append row_bytes_min start, unfolded room, folded docker_kept_def]
  show "encode_docker host rows buf =
     buf @ put_blob host [] @ le_bytes 2 (of_nat (length (docker_kept host rows)) :: u16)
       @ concat (map row_bytes (docker_kept host rows))"
    using items(1) by (simp add: encode_docker_def encode_str_append Let_def)
  show "length (docker_kept host rows) < 65536"
    by (rule items(2))
qed

definition name_bytes :: "proc_name \<Rightarrow> bytes" where
  "name_bytes n = put_blob (proc_name_str n) []"

text \<open>A snapshot up to its name list.\<close>

definition snapshot_head :: "snapshot \<Rightarrow> bytes" where
  "snapshot_head s =
     put_blob (s_host s) [] @ put_blob (s_agent_version s) []
     @ le_bytes 4 (single (s_cpu_pct s))
     @ le_bytes 4 (single (case s_cpu_mhz s of Some v \<Rightarrow> v | None \<Rightarrow> F64_MINUS_ONE))
     @ le_bytes 2 (u16_clamp (length (s_cores s)))
     @ concat (map core_bytes (take 65535 (s_cores s)))
     @ [case s_temp_unit s of Celsius \<Rightarrow> 0 | Fahrenheit \<Rightarrow> 1]
     @ le_bytes 8 (u_total (s_mem s)) @ le_bytes 8 (u_used (s_mem s))
     @ le_bytes 8 (u_total (s_disk s)) @ le_bytes 8 (u_used (s_disk s))
     @ le_bytes 4 (single (s_rx_rate s)) @ le_bytes 4 (single (s_tx_rate s))
     @ le_bytes 2 (u16_clamp (length (s_procs s)))
     @ concat (map proc_bytes (take 65535 (s_procs s)))"

definition names_kept :: "snapshot \<Rightarrow> proc_name list" where
  "names_kept s =
     fit_prefix (\<lambda>n. length (name_bytes n)) (MAX_PAYLOAD - length (snapshot_head s) - 2) (s_proc_names s)"

lemma take_clamp: "take (unat (u16_clamp (length xs))) xs = take 65535 xs"
  by (simp add: unat_u16_clamp min_def)

lemma encode_snapshot_head:
  "encode_snapshot s buf = encode_proc_names (s_proc_names s) (buf @ snapshot_head s)"
  by (simp add: encode_snapshot_def snapshot_head_def put_simps take_clamp
      fold_append [of encode_core core_bytes, OF encode_core_append]
      fold_append [of encode_proc proc_bytes, OF encode_proc_append])

lemma encode_snapshot_append:
  assumes "length buf = HEADER_LEN"
  shows "encode_snapshot s buf =
     buf @ snapshot_head s @ le_bytes 2 (of_nat (length (names_kept s)) :: u16)
       @ concat (map name_bytes (names_kept s))"
    and "length (names_kept s) < 65536"
proof -
  have put: "encode_str (proc_name_str n) b = b @ name_bytes n" for n b
    by (simp add: name_bytes_def encode_str_append)
  have two: "2 \<le> length (name_bytes n)" for n
    by (simp add: name_bytes_def length_put_blob)
  have start: "HEADER_LEN \<le> length (buf @ snapshot_head s)" using assms by simp
  have room: "MAX_PAYLOAD + HEADER_LEN - length (buf @ snapshot_head s) - 2 =
      MAX_PAYLOAD - length (snapshot_head s) - 2"
    using assms by simp
  note items = counted_items [where put = "\<lambda>n. encode_str (proc_name_str n)" and enc = name_bytes
      and xs = "s_proc_names s", OF put two start, unfolded room, folded names_kept_def]
  show "encode_snapshot s buf =
     buf @ snapshot_head s @ le_bytes 2 (of_nat (length (names_kept s)) :: u16)
       @ concat (map name_bytes (names_kept s))"
    using items(1) by (simp add: encode_snapshot_head encode_proc_names_def Let_def)
  show "length (names_kept s) < 65536"
    by (rule items(2))
qed

text \<open>The payload bytes of a packet, before the backstop cuts them.\<close>

fun body :: "payload \<Rightarrow> bytes" where
  "body (Monitor s) =
     snapshot_head s @ le_bytes 2 (of_nat (length (names_kept s)) :: u16)
       @ concat (map name_bytes (names_kept s))"
| "body (Docker host rows) =
     put_blob host [] @ le_bytes 2 (of_nat (length (docker_kept host rows)) :: u16)
       @ concat (map row_bytes (docker_kept host rows))"
| "body (Fetch s) = concat (map (\<lambda>f. put_blob f []) (fetch_fields s))"
| "body (Exec f) = encode_exec f []"
| "body (HelloP h) =
     put_blob (h_agent_version h) [] @ [h_proto_version h, h_min_proto_version h]"

lemma fill_of_body: "length buf = HEADER_LEN \<Longrightarrow> fill_of p buf = buf @ body p"
  by (cases p) (simp_all add: encode_snapshot_append encode_docker_append encode_fetch_append
      encode_hello_append encode_exec_append [of _ buf])

lemma encode_packet_bytes:
  "encode_packet p =
     MAGIC @ [PROTO_VERSION, mode_as_u8 (mode_of p)]
     @ le_bytes 2 (u16_clamp (min (length (body p)) MAX_PAYLOAD)) @ take MAX_PAYLOAD (body p)"
  unfolding encode_packet_def by (rule frame_bytes) (rule fill_of_body)

section \<open>Reading back\<close>

definition hello_fits :: "hello \<Rightarrow> bool" where
  "hello_fits h \<longleftrightarrow> str_fits (h_agent_version h)"

definition hello_bytes :: "hello \<Rightarrow> bytes" where
  "hello_bytes h = put_blob (h_agent_version h) [] @ [h_proto_version h, h_min_proto_version h]"

interpretation wire_hello: wire_format hello_bytes decode_hello hello_fits
  by unfold_locales
     (simp add: hello_bytes_def decode_hello_def hello_fits_def read_str_at codec_simps)

definition fetch_fits :: "fetch_snapshot \<Rightarrow> bool" where
  "fetch_fits s \<longleftrightarrow> list_all str_fits (fetch_fields s)"

definition fetch_bytes :: "fetch_snapshot \<Rightarrow> bytes" where
  "fetch_bytes s = concat (map (\<lambda>f. put_blob f []) (fetch_fields s))"

interpretation wire_fetch: wire_format fetch_bytes decode_fetch fetch_fits
  by unfold_locales
     (simp add: fetch_bytes_def decode_fetch_def fetch_fits_def fetch_fields_def read_str_at)

text \<open>A number on the wire is a single; what comes back is that single, widened.\<close>

definition quant :: "f64 \<Rightarrow> f64" where
  "quant v = widen (single v)"

definition row_fits :: "docker_row \<Rightarrow> bool" where
  "row_fits r \<longleftrightarrow> list_all str_fits [dr_name r, dr_status r, dr_image r, dr_cpu r, dr_mem r]"

definition row_canon :: "docker_row \<Rightarrow> docker_row" where
  "row_canon r = r\<lparr>dr_cpu_pct := quant (dr_cpu_pct r)\<rparr>"

interpretation wire_row: wire_item row_bytes decode_docker_row row_fits row_canon
  by unfold_locales
     (simp add: row_bytes_def decode_docker_row_def row_fits_def row_canon_def quant_def
        read_str_at codec_simps)

definition core_canon :: "nat \<times> f64 \<times> f64 option \<Rightarrow> nat \<times> f64 \<times> f64 option" where
  "core_canon core =
     (case core of (idx, cpu, temp) \<Rightarrow>
        (min idx 65535, quant cpu,
         let t = single (case temp of Some t \<Rightarrow> t | None \<Rightarrow> F64_MINUS_ONE)
         in if f32_less t F32_ZERO then None else Some (widen t)))"

interpretation wire_core: wire_item core_bytes decode_core "\<lambda>_. True" core_canon
  by unfold_locales
     (simp add: core_bytes_def decode_core_def core_canon_def quant_def codec_simps unat_u16_clamp
        Let_def split: prod.split)

text \<open>A process name is built from a string; what it holds is one, of at most 32 bytes.\<close>

definition proc_name_ok :: "proc_name \<Rightarrow> bool" where
  "proc_name_ok p \<longleftrightarrow> (\<exists>s. valid_utf8 s \<and> p = proc_name_new s)"

lemma boundary_at_most: "boundary_at_most s e \<le> e" "e \<le> length s \<Longrightarrow> char_boundary s (boundary_at_most s e)"
  by (induction e) (auto simp: char_boundary_def)

lemma boundary_at_most_self: "char_boundary s e \<Longrightarrow> boundary_at_most s e = e"
  by (cases e) simp_all

lemma proc_name_str_new:
  assumes "valid_utf8 s"
  shows "proc_name_str (proc_name_new s) = take (boundary_at_most s (min (length s) PROC_NAME_CAP)) s"
proof -
  let ?e = "boundary_at_most s (min (length s) PROC_NAME_CAP)"
  have e: "?e \<le> length s" "?e \<le> 32"
    using boundary_at_most(1) [of s "min (length s) PROC_NAME_CAP"] by (simp_all add: PROC_NAME_CAP_def)
  have "valid_utf8 (take ?e s)"
    by (rule valid_utf8_take_boundary [OF assms]) (rule boundary_at_most(2), simp)
  with e show ?thesis
    by (simp add: proc_name_str_def proc_name_new_def Let_def unat_u8_clamp from_utf8_def min_def)
qed

lemma proc_name_new_str:
  assumes "proc_name_ok p"
  shows "proc_name_new (proc_name_str p) = p" and "str_fits (proc_name_str p)"
    and "length (proc_name_str p) \<le> PROC_NAME_CAP"
proof -
  obtain s where s: "valid_utf8 s" and p: "p = proc_name_new s"
    using assms by (auto simp: proc_name_ok_def)
  let ?e = "boundary_at_most s (min (length s) PROC_NAME_CAP)"
  have e: "?e \<le> length s" "?e \<le> PROC_NAME_CAP"
    using boundary_at_most(1) [of s "min (length s) PROC_NAME_CAP"] by simp_all
  have str: "proc_name_str p = take ?e s"
    unfolding p by (rule proc_name_str_new [OF s])
  have v: "valid_utf8 (take ?e s)"
    by (rule valid_utf8_take_boundary [OF s]) (rule boundary_at_most(2), simp)
  show "length (proc_name_str p) \<le> PROC_NAME_CAP"
    using e by (simp add: str)
  then show "str_fits (proc_name_str p)"
    using v by (simp add: str str_fits_def PROC_NAME_CAP_def)
  have "boundary_at_most (take ?e s) (min (length (take ?e s)) PROC_NAME_CAP) = ?e"
    using e by (simp add: min_def boundary_at_most_self char_boundary_def)
  then show "proc_name_new (proc_name_str p) = p"
    using e unfolding str by (simp add: p proc_name_new_def Let_def)
qed

interpretation wire_name: wire_format name_bytes decode_proc_name proc_name_ok
  by unfold_locales
     (simp add: name_bytes_def decode_proc_name_def read_str_at proc_name_new_str)

definition proc_canon :: "process \<Rightarrow> process" where
  "proc_canon p = p\<lparr>p_cpu := quant (p_cpu p)\<rparr>"

interpretation wire_proc: wire_item proc_bytes decode_proc "\<lambda>p. proc_name_ok (p_name p)" proc_canon
  by unfold_locales
     (simp add: proc_bytes_def decode_proc_def proc_canon_def quant_def codec_simps read_str_at
        proc_name_new_str)

definition mhz_canon :: "f64 option \<Rightarrow> f64 option" where
  "mhz_canon m =
     (let raw = single (case m of Some v \<Rightarrow> v | None \<Rightarrow> F64_MINUS_ONE)
      in if f32_less F32_ZERO raw then Some (widen raw) else None)"

text \<open>The snapshot as the wire can say it: singles for doubles, percentages worked out afresh from
  the byte counts, and the names that fit.\<close>

definition snapshot_canon :: "snapshot \<Rightarrow> snapshot" where
  "snapshot_canon s =
     \<lparr>s_host = s_host s, s_agent_version = s_agent_version s, s_cpu_pct = quant (s_cpu_pct s),
      s_cpu_mhz = mhz_canon (s_cpu_mhz s), s_cores = map core_canon (s_cores s),
      s_temp_unit = s_temp_unit s,
      s_mem = usage_new (u_total (s_mem s)) (u_used (s_mem s)),
      s_disk = usage_new (u_total (s_disk s)) (u_used (s_disk s)),
      s_rx_rate = quant (s_rx_rate s), s_tx_rate = quant (s_tx_rate s),
      s_procs = map proc_canon (s_procs s), s_proc_names = names_kept s\<rparr>"

definition snapshot_fits :: "snapshot \<Rightarrow> bool" where
  "snapshot_fits s \<longleftrightarrow>
     str_fits (s_host s) \<and> str_fits (s_agent_version s)
     \<and> (\<forall>p \<in> set (s_procs s). proc_name_ok (p_name p))
     \<and> (\<forall>n \<in> set (s_proc_names s). proc_name_ok n)
     \<and> length (snapshot_head s) + 2 \<le> MAX_PAYLOAD"

lemma length_concat_ge: "(\<And>x. m \<le> length (f x)) \<Longrightarrow> m * length xs \<le> length (concat (map f xs))"
proof (induction xs)
  case Nil
  show ?case by simp
next
  case (Cons x xs)
  then have "m * length xs \<le> length (concat (map f xs))" and "m \<le> length (f x)" by blast+
  then show ?case by simp
qed

lemma snapshot_fits_lengths:
  assumes "length (snapshot_head s) + 2 \<le> MAX_PAYLOAD"
  shows "length (s_cores s) < 65535" and "length (s_procs s) < 65535"
proof -
  have c: "2 * length (take 65535 (s_cores s)) \<le> length (concat (map core_bytes (take 65535 (s_cores s))))"
    by (rule length_concat_ge) (simp add: core_bytes_def split: prod.split)
  have p: "2 * length (take 65535 (s_procs s)) \<le> length (concat (map proc_bytes (take 65535 (s_procs s))))"
    by (rule length_concat_ge) (simp add: proc_bytes_def)
  show "length (s_cores s) < 65535"
    using c assms by (auto simp: snapshot_head_def MAX_PAYLOAD_def simp del: length_concat)
  show "length (s_procs s) < 65535"
    using p assms by (auto simp: snapshot_head_def MAX_PAYLOAD_def simp del: length_concat)
qed

lemma decode_mhz_at:
  "3 \<le> v \<Longrightarrow>
   decode_mhz v (cursor_at pre
     (le_bytes 4 (single (case m of Some v \<Rightarrow> v | None \<Rightarrow> F64_MINUS_ONE)) @ suf)) =
     Some (mhz_canon m, cursor_at (pre @
       le_bytes 4 (single (case m of Some v \<Rightarrow> v | None \<Rightarrow> F64_MINUS_ONE))) suf)"
  by (simp add: decode_mhz_def mhz_canon_def codec_simps Let_def)

lemma decode_snapshot_at:
  assumes "snapshot_fits s"
  shows "decode_snapshot (cursor_at pre (body (Monitor s) @ suf)) 5 =
     Some (snapshot_canon s, cursor_at (pre @ body (Monitor s)) suf)"
proof -
  have len: "length (s_cores s) < 65535" "length (s_procs s) < 65535"
    using assms snapshot_fits_lengths by (auto simp: snapshot_fits_def)
  have str: "str_fits (s_host s)" "str_fits (s_agent_version s)"
    using assms by (auto simp: snapshot_fits_def)
  have tk: "take 65535 (s_cores s) = s_cores s" "take 65535 (s_procs s) = s_procs s"
    "unat (u16_clamp (length (s_cores s))) = length (s_cores s)"
    "unat (u16_clamp (length (s_procs s))) = length (s_procs s)"
    using len by (simp_all add: unat_u16_clamp)
  have names: "decode_proc_names 5 (cursor_at pre
      (le_bytes 2 (of_nat (length (names_kept s)) :: u16) @ concat (map name_bytes (names_kept s)) @ suf)) =
      Some (names_kept s, cursor_at
        (pre @ le_bytes 2 (of_nat (length (names_kept s)) :: u16) @ concat (map name_bytes (names_kept s))) suf)"
    for pre suf
    using assms encode_snapshot_append(2) [of "replicate HEADER_LEN 0" s]
      wire_name.reads_back_counted [of "names_kept s"]
    by (simp add: decode_proc_names_def snapshot_fits_def names_kept_def fit_prefix_subset read_u16_at
        del: unat_of_nat_small)
  have procs: "read_many decode_proc (length (s_procs s)) (cursor_at pre (concat (map proc_bytes (s_procs s)) @ suf))
      = Some (map proc_canon (s_procs s), cursor_at (pre @ concat (map proc_bytes (s_procs s))) suf)" for pre suf
    using assms by (intro wire_proc.reads_back_many) (simp add: snapshot_fits_def)
  have cores: "read_many decode_core (length (s_cores s)) (cursor_at pre (concat (map core_bytes (s_cores s)) @ suf))
      = Some (map core_canon (s_cores s), cursor_at (pre @ concat (map core_bytes (s_cores s))) suf)" for pre suf
    by (intro wire_core.reads_back_many) simp
  show ?thesis
    by (simp add: decode_snapshot_def snapshot_head_def codec_simps read_str_at [OF str(1)]
        read_str_at [OF str(2)] decode_mhz_at cores procs names tk snapshot_canon_def quant_def
        split: temp_unit.split)
qed

lemma decode_docker_at:
  assumes "str_fits host" and "\<forall>r \<in> set rows. row_fits r"
  shows "decode_docker (cursor_at pre (body (Docker host rows) @ suf)) =
     Some (Docker host (map row_canon (docker_kept host rows)),
       cursor_at (pre @ body (Docker host rows)) suf)"
proof -
  have fits: "\<forall>r \<in> set (docker_kept host rows). row_fits r"
    using assms(2) by (auto simp: docker_kept_def dest: fit_prefix_subset)
  have few: "length (docker_kept host rows) < 65536"
    by (rule encode_docker_append(2) [of "replicate HEADER_LEN 0"]) simp
  show ?thesis
    using wire_row.reads_back_counted [OF fits few]
    by (simp add: decode_docker_def read_str_at [OF assms(1)] read_u16_at)
qed

section \<open>Packets\<close>

fun payload_fits :: "payload \<Rightarrow> bool" where
  "payload_fits (Monitor s) \<longleftrightarrow> snapshot_fits s"
| "payload_fits (Docker host rows) \<longleftrightarrow>
     str_fits host \<and> length host \<le> 65531 \<and> list_all row_fits rows"
| "payload_fits (Fetch s) \<longleftrightarrow> fetch_fits s \<and> length (body (Fetch s)) \<le> MAX_PAYLOAD"
| "payload_fits (Exec f) \<longleftrightarrow> exec_fits f \<and> length (body (Exec f)) \<le> MAX_PAYLOAD"
| "payload_fits (HelloP h) \<longleftrightarrow> valid_utf8 (h_agent_version h) \<and> length (h_agent_version h) \<le> 65531"

fun payload_canon :: "payload \<Rightarrow> payload" where
  "payload_canon (Monitor s) = Monitor (snapshot_canon s)"
| "payload_canon (Docker host rows) = Docker host (map row_canon (docker_kept host rows))"
| "payload_canon (Fetch s) = Fetch s"
| "payload_canon (Exec f) = Exec f"
| "payload_canon (HelloP h) = HelloP h"

lemma sum_list_concat: "length (concat (map f xs)) = sum_list (map (\<lambda>x. length (f x)) xs)"
  by (induction xs) simp_all

lemma body_within: "payload_fits p \<Longrightarrow> length (body p) \<le> MAX_PAYLOAD"
proof (induction p rule: payload_fits.induct)
  case (1 s)
  have "length (concat (map name_bytes (names_kept s))) \<le> MAX_PAYLOAD - length (snapshot_head s) - 2"
    unfolding sum_list_concat names_kept_def by (rule fit_prefix_sum)
  moreover have "length (snapshot_head s) + 2 \<le> MAX_PAYLOAD"
    using 1 by (simp add: snapshot_fits_def)
  ultimately show ?case by (simp del: length_concat)
next
  case (2 host rows)
  have "length (concat (map row_bytes (docker_kept host rows))) \<le> docker_room host"
    unfolding sum_list_concat docker_kept_def by (rule fit_prefix_sum)
  with 2 show ?case
    by (auto simp: docker_room_def length_put_blob MAX_PAYLOAD_def simp del: length_concat)
next
  case (5 h)
  then show ?case by (simp add: length_put_blob MAX_PAYLOAD_def)
qed simp_all

definition decode_body :: "u8 \<Rightarrow> u8 \<Rightarrow> bytes \<Rightarrow> payload option" where
  "decode_body version mode d = decode_packet (MAGIC @ [version, mode, 0, 0] @ d)"

lemma decode_packet_at:
  fixes w :: u16
  shows "decode_packet (MAGIC @ [v, m] @ le_bytes 2 w @ d) =
     (if length d < unat w then None else decode_body v m d)"
proof -
  obtain a b where ab: "le_bytes 2 w = [a, b]"
    using le_bytes_2_nth [of w] by metis
  with of_le_u16 [of w] have w: "of_le [a, b] = w" by simp
  have z: "of_le [0, 0] = (0 :: u16)" by simp
  show ?thesis
    unfolding ab decode_packet_def decode_body_def MAGIC_def HEADER_LEN_def Let_def
    by (simp add: eval_nat_numeral w z del: of_le.simps)
qed

lemma decode_body_simps:
  "decode_body v 4 d = map_option (HelloP \<circ> fst) (decode_hello (cursor_new d))"
  "decode_body v 0 d = map_option (Monitor \<circ> fst) (decode_snapshot (cursor_new d) v)"
  "decode_body v 1 d = (if v < 2 then None else map_option fst (decode_docker (cursor_new d)))"
  "decode_body v 2 d = map_option (Fetch \<circ> fst) (decode_fetch (cursor_new d))"
  "decode_body v 3 d =
     (if v < EXEC_MIN_VERSION then None else map_option (Exec \<circ> fst) (decode_exec (cursor_new d)))"
  "4 < m \<Longrightarrow> decode_body v m d = None"
  by (auto simp: decode_body_def decode_packet_def MAGIC_def HEADER_LEN_def Let_def)

lemma decode_body_of:
  assumes "payload_fits p"
  shows "decode_body 5 (mode_as_u8 (mode_of p)) (body p @ suf) = Some (payload_canon p)"
proof (cases p)
  case (Monitor s)
  with assms decode_snapshot_at [of s "[]" suf] show ?thesis
    by (simp add: decode_body_simps cursor_new_at)
next
  case (Docker host rows)
  with assms decode_docker_at [of host rows "[]" suf] show ?thesis
    by (simp add: decode_body_simps cursor_new_at str_fits_def list_all_iff)
next
  case (Fetch s)
  with assms wire_fetch.reads_back_new [of s suf] show ?thesis
    by (simp add: decode_body_simps fetch_bytes_def)
next
  case (Exec f)
  with assms wire_exec.reads_back_new [of f suf] show ?thesis
    by (simp add: decode_body_simps EXEC_MIN_VERSION_def)
next
  case (HelloP h)
  with assms wire_hello.reads_back_new [of h suf] show ?thesis
    by (simp add: decode_body_simps hello_bytes_def hello_fits_def str_fits_def)
qed

lemma decode_encode_packet:
  assumes "payload_fits p"
  shows "decode_packet (encode_packet p @ rest) = Some (payload_canon p)"
proof -
  have "length (body p) \<le> MAX_PAYLOAD" by (rule body_within [OF assms])
  with assms show ?thesis
    using decode_packet_at [of PROTO_VERSION "mode_as_u8 (mode_of p)"
        "u16_clamp (length (body p))" "body p @ rest"]
      decode_body_of [OF assms, of rest]
    by (simp add: encode_packet_bytes PROTO_VERSION_def unat_u16_clamp)
qed

end
