(* ===== verification/Proto_Props.thy ===== *)
theory Proto_Props
  imports Proto_Codec
begin

text \<open>
  The properties of the wire protocol: framing, round trips, the rows that survive an
  over-full payload, the version gates of the decoder, and the decision to replace an agent.
\<close>

section \<open>Framing\<close>

definition declared_len :: "bytes \<Rightarrow> nat" where
  "declared_len pkt = unat (of_le [pkt ! 6, pkt ! 7] :: u16)"

lemma le_bytes_2_list: "[le_bytes 2 w ! 0, le_bytes 2 w ! 1] = le_bytes 2 w"
  using le_bytes_2_nth [of w] by simp

text \<open>Whatever the payload, a packet starts with the magic bytes and this build's version, and
  the length its header declares is the length of the body that follows, so that a reader which
  consumes the declared length stands at the next packet's header.\<close>

theorem packet_length_declared:
  "take 5 (encode_packet p) = MAGIC @ [PROTO_VERSION] \<and>
   length (encode_packet p) = HEADER_LEN + declared_len (encode_packet p) \<and>
   declared_len (encode_packet p) \<le> MAX_PAYLOAD"
proof -
  let ?n = "min (length (body p)) MAX_PAYLOAD"
  let ?l = "le_bytes 2 (u16_clamp ?n)"
  obtain a b where ab: "?l = [a, b]" using le_bytes_2_nth by metis
  then have "of_le [a, b] = u16_clamp ?n" using of_le_u16 [of "u16_clamp ?n"] by simp
  then have "declared_len (encode_packet p) = ?n"
    unfolding encode_packet_bytes declared_len_def ab
    by (simp add: MAGIC_def unat_u16_clamp MAX_PAYLOAD_def del: of_le.simps)
  then show ?thesis
    by (simp add: encode_packet_bytes MAGIC_def HEADER_LEN_def)
qed

section \<open>Round trips\<close>


definition sample_row :: docker_row where
  "sample_row = \<lparr>dr_name = lit ''web'', dr_status = lit ''Up'', dr_image = lit ''nginx'',
     dr_cpu = lit ''1%'', dr_cpu_pct = 0x3FF0000000000000, dr_mem = lit ''8M'', dr_mem_bytes = 8388608\<rparr>"

lemma str_fits_ascii: "\<forall>b \<in> set s. b < 0x80 \<Longrightarrow> length s \<le> 65535 \<Longrightarrow> str_fits s"
  by (simp add: str_fits_def valid_utf8_ascii)

lemma sample_row_fits: "row_fits sample_row"
  by (simp add: row_fits_def sample_row_def str_fits_ascii lit_def)


text \<open>A Docker packet carries the longest prefix of the rows whose encodings fit beside the host
  name and the count; every row it carries is whole, none is reordered, and when all of them
  fit none is lost.\<close>

theorem docker_longest_prefix:
  assumes "str_fits host" and "length host \<le> 65531" and "list_all row_fits rows"
  shows "\<exists>n. decode_packet (encode_packet (Docker host rows))
               = Some (Docker host (map row_canon (take n rows)))
           \<and> sum_list (map (\<lambda>r. length (encode_docker_row r [])) (take n rows)) \<le> docker_room host
           \<and> (n < length rows \<longrightarrow>
                docker_room host < sum_list (map (\<lambda>r. length (encode_docker_row r [])) (take (Suc n) rows)))"
proof -
  obtain n where n: "docker_kept host rows = take n rows"
    using fit_prefix_take [of _ _ rows] unfolding docker_kept_def by blast
  have "decode_packet (encode_packet (Docker host rows)) = Some (payload_canon (Docker host rows))"
    using assms decode_encode_packet [of "Docker host rows" "[]"] by simp
  then show ?thesis
    using n fit_prefix_sum [of "\<lambda>r. length (row_bytes r)" "docker_room host" rows]
      fit_prefix_maximal [of "\<lambda>r. length (row_bytes r)" "docker_room host" rows n]
    unfolding docker_kept_def by (auto simp: encode_docker_row_append docker_kept_def)
qed

lemma docker_longest_prefix_witness:
  "\<exists>n. decode_packet (encode_packet (Docker (lit ''h'') [sample_row]))
         = Some (Docker (lit ''h'') (map row_canon (take n [sample_row])))
     \<and> sum_list (map (\<lambda>r. length (encode_docker_row r [])) (take n [sample_row])) \<le> docker_room (lit ''h'')
     \<and> (n < length [sample_row] \<longrightarrow>
          docker_room (lit ''h'') < sum_list (map (\<lambda>r. length (encode_docker_row r [])) (take (Suc n) [sample_row])))"
  by (rule docker_longest_prefix) (simp_all add: sample_row_fits str_fits_ascii lit_def)

section \<open>The version gates\<close>

text \<open>Nothing decodes unless the magic bytes are there and the declared body has arrived; the
  payload is the one its mode byte names; a Docker payload below version 2 and an Exec payload
  below version 5 are refused.\<close>

theorem decode_gates:
  assumes "decode_packet data = Some p"
  shows "take 4 data = MAGIC \<and> HEADER_LEN + declared_len data \<le> length data \<and>
         data ! 5 = mode_as_u8 (mode_of p) \<and>
         (mode_of p = ModeDocker \<longrightarrow> 2 \<le> data ! 4) \<and>
         (mode_of p = ModeExec \<longrightarrow> EXEC_MIN_VERSION \<le> data ! 4)"
proof -
  have docker: "decode_docker c = Some (q, c') \<Longrightarrow> mode_of q = ModeDocker" for c q c'
    by (auto simp: decode_docker_def split: Option.bind_splits)
  show ?thesis
    using assms unfolding decode_packet_def
    by (auto simp: declared_len_def Let_def not_less dest!: docker split: if_splits)
qed

lemma decode_gates_witness:
  "encode_packet (Exec (Alive 7)) ! 5 = 3 \<and> EXEC_MIN_VERSION \<le> encode_packet (Exec (Alive 7)) ! 4"
  using decode_gates [of "encode_packet (Exec (Alive 7))" "Exec (Alive 7)"]
    decode_encode_packet [of "Exec (Alive 7)" "[]"]
  by (simp add: MAX_PAYLOAD_def Let_def)

text \<open>
  The snapshot an agent of protocol 3 sends: the same fields, without the name list.
\<close>

definition snapshot_v3 :: "snapshot \<Rightarrow> snapshot" where
  "snapshot_v3 s = (snapshot_canon s)\<lparr>s_proc_names := []\<rparr>"

lemma decode_snapshot_v3:
  assumes "snapshot_fits s"
  shows "decode_snapshot (cursor_at pre (snapshot_head s @ suf)) 3 =
     Some (snapshot_v3 s, cursor_at (pre @ snapshot_head s) suf)"
proof -
  have len: "length (s_cores s) < 65535" "length (s_procs s) < 65535"
    using assms snapshot_fits_lengths by (auto simp: snapshot_fits_def)
  have str: "str_fits (s_host s)" "str_fits (s_agent_version s)"
    using assms by (auto simp: snapshot_fits_def)
  have tk: "take 65535 (s_cores s) = s_cores s" "take 65535 (s_procs s) = s_procs s"
    "unat (u16_clamp (length (s_cores s))) = length (s_cores s)"
    "unat (u16_clamp (length (s_procs s))) = length (s_procs s)"
    using len by (simp_all add: unat_u16_clamp)
  have procs: "read_many decode_proc (length (s_procs s)) (cursor_at pre (concat (map proc_bytes (s_procs s)) @ suf))
      = Some (map proc_canon (s_procs s), cursor_at (pre @ concat (map proc_bytes (s_procs s))) suf)" for pre suf
    using assms by (intro wire_proc.reads_back_many) (simp add: snapshot_fits_def)
  have cores: "read_many decode_core (length (s_cores s)) (cursor_at pre (concat (map core_bytes (s_cores s)) @ suf))
      = Some (map core_canon (s_cores s), cursor_at (pre @ concat (map core_bytes (s_cores s))) suf)" for pre suf
    by (intro wire_core.reads_back_many) simp
  show ?thesis
    by (simp add: decode_snapshot_def snapshot_head_def codec_simps read_str_at [OF str(1)]
        read_str_at [OF str(2)] decode_mhz_at cores procs tk snapshot_v3_def snapshot_canon_def
        quant_def decode_proc_names_def split: temp_unit.split)
qed

text \<open>A Monitor packet of protocol 3, which has no name list, still decodes to a whole snapshot,
  the agent version in it included: an agent from before the list was added is noticed, and so
  replaced, rather than refused.\<close>

theorem old_monitor_decodes:
  assumes "snapshot_fits s"
  shows "decode_packet (MAGIC @ [3, mode_as_u8 ModeMonitor]
            @ le_bytes 2 (of_nat (length (snapshot_head s)) :: u16) @ snapshot_head s)
         = Some (Monitor (snapshot_v3 s)) \<and> s_agent_version (snapshot_v3 s) = s_agent_version s"
proof -
  have "length (snapshot_head s) < 65536"
    using assms by (simp add: snapshot_fits_def MAX_PAYLOAD_def)
  then show ?thesis
    using decode_packet_at [of 3 0 "of_nat (length (snapshot_head s))" "snapshot_head s"]
      decode_snapshot_v3 [OF assms, of "[]" "[]"]
    by (simp add: decode_body_simps cursor_new_at snapshot_v3_def snapshot_canon_def)
qed

definition sample_snapshot :: snapshot where
  "sample_snapshot =
     \<lparr>s_host = lit ''h'', s_agent_version = lit ''0.43.0'', s_cpu_pct = 0x4049000000000000,
      s_cpu_mhz = None, s_cores = [(0, 0x4049000000000000, None)], s_temp_unit = Celsius,
      s_mem = usage_new 100 50, s_disk = usage_new 0 0, s_rx_rate = 0, s_tx_rate = 0,
      s_procs = [\<lparr>p_pid = 1, p_name = proc_name_new (lit ''init''), p_cpu = 0, p_mem = 4096\<rparr>],
      s_proc_names = [proc_name_new (lit ''init'')]\<rparr>"

lemma sample_snapshot_fits: "snapshot_fits sample_snapshot"
proof -
  have init: "valid_utf8 (lit ''init'')" by (rule valid_utf8_ascii) (simp add: lit_def)
  then have ok: "proc_name_ok (proc_name_new (lit ''init''))"
    by (auto simp: proc_name_ok_def)
  then have "length (proc_name_str (proc_name_new (lit ''init''))) \<le> 32"
    using proc_name_new_str(3) by (simp add: PROC_NAME_CAP_def)
  with ok show ?thesis
    by (simp add: snapshot_fits_def sample_snapshot_def snapshot_head_def str_fits_ascii lit_def
        length_put_blob MAX_PAYLOAD_def core_bytes_def proc_bytes_def)
qed

lemma old_monitor_decodes_witness:
  "decode_packet (MAGIC @ [3, mode_as_u8 ModeMonitor]
      @ le_bytes 2 (of_nat (length (snapshot_head sample_snapshot)) :: u16) @ snapshot_head sample_snapshot)
   = Some (Monitor (snapshot_v3 sample_snapshot))"
  using old_monitor_decodes [OF sample_snapshot_fits] by blast

section \<open>Replacing an agent\<close>

lemma version_less_total: "version_less a b \<or> a = b \<or> version_less b a"
  by (cases a; cases b) auto

lemma version_less_asym: "version_less a b \<Longrightarrow> \<not> version_less b a"
  by (cases a; cases b) auto

text \<open>Of two builds whose versions parse, at most one replaces the other's agent: an agent is
  never downgraded, and two clients never overwrite each other's in turn.\<close>

theorem never_both_replace:
  assumes "hello_is_valid (hello_new a)" and "hello_is_valid (hello_new b)"
    and "parse_version a = Some va" and "parse_version b = Some vb"
  shows "(needs_replacement (hello_new a) b \<longleftrightarrow> a \<noteq> b \<and> version_less va vb) \<and>
         \<not> (needs_replacement (hello_new a) b \<and> needs_replacement (hello_new b) a)"
proof -
  have "hello_is_compatible (hello_new v)" if "hello_is_valid (hello_new v)" for v
    using that
    by (simp add: hello_is_compatible_def hello_new_def PROTO_VERSION_def PROTO_MIN_VERSION_def)
  then have "needs_replacement (hello_new a) b \<longleftrightarrow> a \<noteq> b \<and> version_less va vb"
    and "needs_replacement (hello_new b) a \<longleftrightarrow> b \<noteq> a \<and> version_less vb va"
    using assms by (auto simp: needs_replacement_def hello_new_def)
  then show ?thesis
    using version_less_asym by blast
qed

lemma never_both_replace_witness:
  "needs_replacement (hello_new (lit ''0.43.0'')) (lit ''0.44.0'')"
proof -
  have "hello_is_valid (hello_new (lit ''0.43.0''))" "hello_is_valid (hello_new (lit ''0.44.0''))"
    by (simp_all add: hello_is_valid_def hello_new_def lit_def MAX_AGENT_VERSION_LEN_def
        MISSING_VERSION_def PROTO_VERSION_def PROTO_MIN_VERSION_def MAX_PROTO_VERSION_def
        version_char_def ascii_alphanumeric_def)
  moreover have "parse_version (lit ''0.43.0'') = Some (0, 43, 0)"
    "parse_version (lit ''0.44.0'') = Some (0, 44, 0)"
    by (simp_all add: parse_version_def lit_def parse_unsigned_def digit_of_def)
  ultimately show ?thesis
    using never_both_replace [of "lit ''0.43.0''" "lit ''0.44.0''"] by (simp add: lit_def)
qed

lemma takeWhile_all: "(\<forall>x \<in> set xs. P x) \<Longrightarrow> takeWhile P (xs @ ys) = xs @ takeWhile P ys"
  by (induction xs) auto

lemma show_nat_no_byte: "c < 0x30 \<Longrightarrow> c \<notin> set (show_nat n)"
proof
  assume c: "c < 0x30" and "c \<in> set (show_nat n)"
  then obtain d where "d < 10" "c = 0x30 + of_nat d" using show_nat_digits by blast
  moreover from this have "d \<in> {0, 1, 2, 3, 4, 5, 6, 7, 8, 9}" by auto
  ultimately show False using c by auto
qed

text \<open>A version written as three numbers parses to those numbers, with or without a pre-release
  or build suffix that has no dot in it.\<close>

theorem parse_version_shown:
  assumes "ma \<le> 65535" and "mi \<le> 65535" and "pa \<le> 65535"
    and "0x2E \<notin> set suffix" and "suffix = [] \<or> hd suffix = 0x2D \<or> hd suffix = 0x2B"
  shows "parse_version (show_nat ma @ [0x2E] @ show_nat mi @ [0x2E] @ show_nat pa @ suffix)
         = Some (ma, mi, pa)"
proof -
  have no: "0x2E \<notin> set (show_nat n)" "0x2D \<notin> set (show_nat n)" "0x2B \<notin> set (show_nat n)" for n
    by (simp_all add: show_nat_no_byte)
  have "split_at_byte 0x2E (show_nat ma @ [0x2E] @ show_nat mi @ [0x2E] @ show_nat pa @ suffix)
      = [show_nat ma, show_nat mi, show_nat pa @ suffix]"
    using no assms(4) by (simp add: split_at_byte_sep split_at_byte_no_sep)
  moreover have "takeWhile (\<lambda>c. c \<noteq> 0x2D \<and> c \<noteq> 0x2B) (show_nat pa @ suffix) = show_nat pa"
  proof -
    have "takeWhile (\<lambda>c. c \<noteq> 0x2D \<and> c \<noteq> 0x2B) suffix = []"
      using assms(5) by (cases suffix) auto
    moreover have "\<forall>c \<in> set (show_nat pa). c \<noteq> 0x2D \<and> c \<noteq> 0x2B"
      using no by auto
    ultimately show ?thesis by (simp add: takeWhile_all)
  qed
  ultimately show ?thesis
    using assms by (simp add: parse_version_def parse_unsigned_show)
qed

lemma parse_version_shown_witness:
  "parse_version (show_nat 0 @ [0x2E] @ show_nat 43 @ [0x2E] @ show_nat 1 @ lit ''-rc1'') = Some (0, 43, 1)"
  by (rule parse_version_shown) (simp_all add: lit_def)

section \<open>Process names\<close>

text \<open>A process name holds the longest prefix of whole characters that its 32 bytes can take;
  a name no longer than that is kept whole.\<close>

theorem proc_name_prefix:
  assumes "valid_utf8 s"
  shows "\<exists>e. proc_name_str (proc_name_new s) = take e s \<and> char_boundary s e \<and>
             e \<le> min (length s) PROC_NAME_CAP \<and>
             (\<forall>e'. e < e' \<and> e' \<le> min (length s) PROC_NAME_CAP \<longrightarrow> \<not> char_boundary s e') \<and>
             length (pn_bytes (proc_name_new s)) = PROC_NAME_CAP"
proof -
  let ?m = "min (length s) PROC_NAME_CAP"
  have max: "boundary_at_most s e < e' \<Longrightarrow> e' \<le> e \<Longrightarrow> \<not> char_boundary s e'" for e e'
    by (induction e) (auto simp: le_Suc_eq split: if_splits)
  show ?thesis
    using proc_name_str_new [OF assms] boundary_at_most(1) [of s ?m] boundary_at_most(2) [of ?m s]
      max [of ?m]
    by (intro exI [of _ "boundary_at_most s ?m"]) (auto simp: proc_name_new_def Let_def)
qed

lemma proc_name_prefix_witness: "\<exists>e. proc_name_str (proc_name_new (lit ''sshd'')) = take e (lit ''sshd'')"
  using proc_name_prefix [of "lit ''sshd''"] valid_utf8_ascii [of "lit ''sshd''"]
  by (auto simp: lit_def)

end
