(* ===== verification/Ring_Lines.thy ===== *)
theory Ring_Lines
  imports Text
begin

text \<open>
  The bounded line log of crates/multitop/src/panel.rs (\<open>RingLines\<close>), which holds the output
  of an upgrade: a vector of at most \<open>cap\<close> slots that a head index turns into a ring once it
  is full, so that a push overwrites the oldest line in place.

  What a client relies on is the interface \<open>bounded_log\<close> (the lines, oldest first, a push that
  keeps the newest \<open>cap\<close> of them) and its extension \<open>repaintable_log\<close> (a line counted from the
  newest can be rewritten). The ring is shown to implement both; theory \<open>History\<close> shows that
  the sample series implements the first.
\<close>

section \<open>The interface\<close>

locale bounded_log =
  fixes inv :: "'r \<Rightarrow> bool" and cap :: "'r \<Rightarrow> nat" and contents :: "'r \<Rightarrow> 'a list"
    and stored :: "'x \<Rightarrow> 'a" and add :: "'x \<Rightarrow> 'r \<Rightarrow> 'r"
  assumes bounded: "inv r \<Longrightarrow> length (contents r) \<le> cap r"
    and inv_add: "inv r \<Longrightarrow> inv (add x r)"
    and cap_add: "inv r \<Longrightarrow> cap (add x r) = cap r"
    and contents_add: "inv r \<Longrightarrow> contents (add x r) = take_last (cap r) (contents r @ [stored x])"
begin

lemma take_last_take_last_snoc:
  "take_last n (take_last n xs @ ys) = take_last n (xs @ ys)"
  by (cases "length xs \<le> n") (simp_all add: take_last_def add.commute)

lemma inv_fold: "inv r \<Longrightarrow> inv (fold add xs r)"
  by (induction xs arbitrary: r) (simp_all add: inv_add)

lemma cap_fold: "inv r \<Longrightarrow> cap (fold add xs r) = cap r"
  by (induction xs arbitrary: r) (simp_all add: inv_add cap_add)

lemma contents_fold:
  "inv r \<Longrightarrow> contents (fold add xs r) = take_last (cap r) (contents r @ map stored xs)"
proof (induction xs arbitrary: r)
  case Nil
  then show ?case by (simp add: take_last_all bounded)
next
  case (Cons x xs)
  then show ?case
    using take_last_take_last_snoc [of "cap r" "contents r @ [stored x]" "map stored xs"]
    by (simp add: inv_add cap_add contents_add)
qed

text \<open>The newest line is the one just added, and while there is room nothing is forgotten.\<close>

lemma last_add: "inv r \<Longrightarrow> 0 < cap r \<Longrightarrow> last (contents (add x r)) = stored x"
  by (simp add: contents_add take_last_snoc)

lemma add_with_room:
  "inv r \<Longrightarrow> length (contents r) < cap r \<Longrightarrow> contents (add x r) = contents r @ [stored x]"
  by (simp add: contents_add take_last_all)

end

locale repaintable_log = bounded_log +
  fixes rewrite :: "nat \<Rightarrow> 'x \<Rightarrow> 'r \<Rightarrow> 'r"
  assumes inv_rewrite: "inv r \<Longrightarrow> inv (rewrite k x r)"
    and cap_rewrite: "inv r \<Longrightarrow> cap (rewrite k x r) = cap r"
    and contents_rewrite: "inv r \<Longrightarrow> contents (rewrite k x r) =
      (if k < length (contents r)
       then (contents r)[length (contents r) - 1 - k := stored x] else contents r)"
begin

lemma length_rewrite: "inv r \<Longrightarrow> length (contents (rewrite k x r)) = length (contents r)"
  by (simp add: contents_rewrite)

text \<open>Rewriting the newest line right after adding it is adding the final text: a line that is
  painted as it grows leaves one line behind.\<close>

lemma rewrite_newest:
  "inv r \<Longrightarrow> contents (rewrite 0 y (add x r)) = contents (add y r)"
  by (cases "cap r = 0")
     (simp_all add: inv_add contents_rewrite contents_add take_last_snoc list_update_append)

end

section \<open>The ring\<close>

record 'a ring_lines =
  slots :: "'a list"
  head :: nat
  cap :: nat

definition ring_new :: "nat \<Rightarrow> 'a ring_lines" where
  "ring_new c = \<lparr>slots = [], head = 0, cap = c\<rparr>"

definition ring_get :: "'a ring_lines \<Rightarrow> nat \<Rightarrow> 'a option" where
  "ring_get r i =
     (let n = length (slots r) in if i < n then Some (slots r ! ((head r + i) mod n)) else None)"

definition ring_iter :: "'a ring_lines \<Rightarrow> 'a list" where
  "ring_iter r = List.map_filter (ring_get r) [0..<length (slots r)]"

definition ring_last :: "'a ring_lines \<Rightarrow> 'a option" where
  "ring_last r = (if length (slots r) = 0 then None else ring_get r (length (slots r) - 1))"

definition ring_slice :: "nat \<Rightarrow> nat \<Rightarrow> 'a ring_lines \<Rightarrow> 'a list" where
  "ring_slice start count r =
     (let start = min start (length (slots r)); count = min count (length (slots r) - start)
      in List.map_filter (\<lambda>i. ring_get r (start + i)) [0..<count])"

definition ring_push :: "'a \<Rightarrow> 'a ring_lines \<Rightarrow> 'a ring_lines" where
  "ring_push line r =
     (if cap r = 0 then r
      else if length (slots r) < cap r then r\<lparr>slots := slots r @ [line]\<rparr>
      else r\<lparr>slots := (slots r)[head r := line], head := (head r + 1) mod cap r\<rparr>)"

definition ring_set_cap :: "nat \<Rightarrow> 'a ring_lines \<Rightarrow> 'a ring_lines" where
  "ring_set_cap c r =
     (if c = cap r then r
      else \<lparr>slots = drop (length (slots r) - c) (ring_iter r), head = 0, cap = c\<rparr>)"

text \<open>\<open>slot_mut\<close> is the place of the i-th live line, if there is one.\<close>

definition slot_mut :: "'a ring_lines \<Rightarrow> nat \<Rightarrow> nat option" where
  "slot_mut r i =
     (if length (slots r) \<le> i then None
      else let idx = (if length (slots r) < cap r then i else (head r + i) mod cap r)
           in if idx < length (slots r) then Some idx else None)"

text \<open>\<open>back\<close> is a cursor count off the wire, so the code adds to it with \<open>checked_add\<close>.\<close>

definition overwrite_from_end :: "nat \<Rightarrow> 'a \<Rightarrow> 'a ring_lines \<Rightarrow> 'a ring_lines" where
  "overwrite_from_end back line r =
     (if 2 ^ 64 \<le> back + 1 then r
      else if length (slots r) < back + 1 then r
      else case slot_mut r (length (slots r) - (back + 1)) of
             None \<Rightarrow> r
           | Some idx \<Rightarrow> r\<lparr>slots := (slots r)[idx := line]\<rparr>)"

definition ring_clear :: "'a ring_lines \<Rightarrow> 'a ring_lines" where
  "ring_clear r = r\<lparr>slots := [], head := 0\<rparr>"

definition replace_with :: "'a list \<Rightarrow> 'a ring_lines \<Rightarrow> 'a ring_lines" where
  "replace_with lines r = fold ring_push lines (ring_clear r)"

definition DEFAULT_UPGRADE_HISTORY_LINES :: nat where
  "DEFAULT_UPGRADE_HISTORY_LINES = 5000"

definition ring_from :: "'a list \<Rightarrow> 'a ring_lines" where
  "ring_from lines =
     \<lparr>slots = lines, head = 0, cap = max (length lines) DEFAULT_UPGRADE_HISTORY_LINES\<rparr>"

section \<open>The invariant and what the ring holds\<close>

text \<open>The invariant: never more than \<open>cap\<close> slots (a vector in memory, so fewer than
  \<open>2 ^ 64\<close>), and the head is 0 for as long as the ring has not filled.\<close>

definition ring_ok :: "'a ring_lines \<Rightarrow> bool" where
  "ring_ok r \<longleftrightarrow> length (slots r) \<le> cap r \<and> length (slots r) < 2 ^ 64 \<and>
     (if length (slots r) < cap r then head r = 0 else head r < max 1 (cap r))"

text \<open>The lines, oldest first: the slots from the head, then those before it.\<close>

definition ring_lines :: "'a ring_lines \<Rightarrow> 'a list" where
  "ring_lines r = rotate (head r) (slots r)"

lemma length_ring_lines [simp]: "length (ring_lines r) = length (slots r)"
  by (simp add: ring_lines_def)

lemma ring_get_lines:
  "ring_get r i = (if i < length (slots r) then Some (ring_lines r ! i) else None)"
  by (simp add: ring_get_def ring_lines_def nth_rotate Let_def)

lemma map_filter_total:
  "(\<And>x. x \<in> set xs \<Longrightarrow> f x = Some (g x)) \<Longrightarrow> List.map_filter f xs = map g xs"
  by (induction xs) (simp_all add: List.map_filter_simps)

lemma ring_iter_lines: "ring_iter r = ring_lines r"
proof -
  have "ring_iter r = map (\<lambda>i. ring_lines r ! i) [0..<length (slots r)]"
    unfolding ring_iter_def by (rule map_filter_total) (simp add: ring_get_lines)
  also have "\<dots> = ring_lines r"
    by (metis length_ring_lines map_nth)
  finally show ?thesis .
qed

lemma ring_slice_lines: "ring_slice a n r = take n (drop a (ring_lines r))"
proof (cases "a \<le> length (slots r)")
  case True
  have "List.map_filter (\<lambda>i. ring_get r (a + i)) [0..<min n (length (slots r) - a)] =
        map (\<lambda>i. ring_lines r ! (a + i)) [0..<min n (length (slots r) - a)]"
    by (rule map_filter_total) (auto simp: ring_get_lines)
  then have "ring_slice a n r = map (\<lambda>i. ring_lines r ! (a + i)) [0..<min n (length (slots r) - a)]"
    using True by (simp add: ring_slice_def)
  also have "\<dots> = take n (drop a (ring_lines r))"
    using True by (intro nth_equalityI) simp_all
  finally show ?thesis .
next
  case False
  then show ?thesis by (simp add: ring_slice_def List.map_filter_simps)
qed

lemma ring_last_lines:
  "ring_last r = (if slots r = [] then None else Some (last (ring_lines r)))"
proof (cases "slots r = []")
  case False
  then have "ring_lines r \<noteq> []"
    by (simp add: ring_lines_def)
  with False show ?thesis
    by (simp add: ring_last_def ring_get_lines last_conv_nth)
qed (simp add: ring_last_def)

section \<open>The operations on the lines\<close>

lemma rotate_full_push:
  assumes "h < length xs"
  shows "rotate ((h + 1) mod length xs) (xs[h := x]) = tl (rotate h xs) @ [x]"
proof -
  have "rotate (h mod length xs) (xs[h := x]) = drop h (xs[h := x]) @ take h (xs[h := x])"
    using assms by (simp add: rotate_drop_take)
  then have h: "rotate h (xs[h := x]) = x # drop (Suc h) xs @ take h xs"
    using assms by (simp add: drop_update_swap Cons_nth_drop_Suc [symmetric])
  have h0: "rotate h xs = xs ! h # drop (Suc h) xs @ take h xs"
    using assms by (simp add: rotate_drop_take Cons_nth_drop_Suc [symmetric])
  have "rotate ((h + 1) mod length xs) (xs[h := x]) = rotate (Suc h) (xs[h := x])"
    using rotate_conv_mod [of "Suc h" "xs[h := x]"] by simp
  also have "\<dots> = rotate1 (rotate h (xs[h := x]))"
    by (simp add: rotate_Suc)
  finally show ?thesis
    by (simp add: h h0)
qed

lemma ring_push_lines:
  assumes "ring_ok r"
  shows "ring_lines (ring_push x r) = take_last (cap r) (ring_lines r @ [x])"
proof -
  consider "cap r = 0" | "length (slots r) < cap r" | "cap r \<noteq> 0" "length (slots r) = cap r"
    using assms by (force simp: ring_ok_def)
  then show ?thesis
  proof cases
    case 1
    with assms show ?thesis by (simp add: ring_push_def ring_ok_def ring_lines_def)
  next
    case 2
    with assms show ?thesis
      by (simp add: ring_push_def ring_ok_def ring_lines_def take_last_all)
  next
    case 3
    then have h: "head r < length (slots r)" using assms by (simp add: ring_ok_def)
    with 3 show ?thesis
      using rotate_full_push [OF h, of x]
      by (simp add: ring_push_def ring_lines_def take_last_def drop_Suc)
  qed
qed

lemma ring_push_cap [simp]: "cap (ring_push x r) = cap r"
  by (simp add: ring_push_def)

text \<open>A capacity the vector of slots can reach: what keeps an index inside a \<open>usize\<close>.\<close>

definition ring_fits :: "'a ring_lines \<Rightarrow> bool" where
  "ring_fits r \<longleftrightarrow> ring_ok r \<and> cap r < 2 ^ 64"

lemma ring_push_fits: "ring_fits r \<Longrightarrow> ring_fits (ring_push x r)"
  by (auto simp: ring_fits_def ring_ok_def ring_push_def)

lemma slot_mut_Some:
  assumes "ring_ok r" "i < length (slots r)"
  shows "\<exists>idx. slot_mut r i = Some idx \<and> idx < length (slots r) \<and>
           idx = (head r + i) mod length (slots r)"
  using assms by (auto simp: slot_mut_def ring_ok_def Let_def)

lemma mod_same_small:
  assumes "(h + i) mod n = (h + j) mod n" "i < n" "j < n"
  shows "i = (j :: nat)"
proof (rule linorder_cases [of i j])
  assume "i < j"
  then have "n dvd j - i"
    using assms(1) mod_eq_dvd_iff_nat [of "h + i" "h + j" n] by simp
  with \<open>i < j\<close> assms(3) show ?thesis by (auto dest: dvd_imp_le)
next
  assume "j < i"
  then have "n dvd i - j"
    using assms(1) mod_eq_dvd_iff_nat [of "h + j" "h + i" n] by simp
  with \<open>j < i\<close> assms(2) show ?thesis by (auto dest: dvd_imp_le)
qed

lemma rotate_update:
  assumes "i < length xs"
  shows "rotate h (xs[(h + i) mod length xs := x]) = (rotate h xs)[i := x]"
proof (rule nth_equalityI)
  fix j assume j: "j < length (rotate h (xs[(h + i) mod length xs := x]))"
  have n: "0 < length xs" using assms by linarith
  have "i = j" if "(h + i) mod length xs = (h + j) mod length xs"
    using mod_same_small [OF that] assms j by simp
  then have "(h + i) mod length xs = (h + j) mod length xs \<longleftrightarrow> i = j"
    by auto
  then show "rotate h (xs[(h + i) mod length xs := x]) ! j = (rotate h xs)[i := x] ! j"
    using assms j n by (simp add: nth_rotate nth_list_update)
qed simp

lemma overwrite_lines:
  assumes "ring_ok r"
  shows "ring_lines (overwrite_from_end k x r) =
    (if k < length (ring_lines r) then (ring_lines r)[length (ring_lines r) - 1 - k := x]
     else ring_lines r)"
proof (cases "k < length (slots r)")
  case True
  let ?i = "length (slots r) - (k + 1)"
  have i: "?i < length (slots r)" using True by simp
  obtain idx where idx: "slot_mut r ?i = Some idx" "idx = (head r + ?i) mod length (slots r)"
    using slot_mut_Some [OF assms i] by blast
  have "\<not> 2 ^ 64 \<le> k + 1" using True assms by (simp add: ring_ok_def)
  with True idx have "overwrite_from_end k x r = r\<lparr>slots := (slots r)[idx := x]\<rparr>"
    by (simp add: overwrite_from_end_def)
  then show ?thesis
    using True rotate_update [OF i, of "head r" x] idx(2) by (simp add: ring_lines_def)
qed (simp add: overwrite_from_end_def)

lemma overwrite_ok: "ring_ok r \<Longrightarrow> ring_ok (overwrite_from_end k x r)"
  by (auto simp: ring_ok_def overwrite_from_end_def split: option.splits)

lemma overwrite_cap [simp]: "cap (overwrite_from_end k x r) = cap r"
  by (auto simp: overwrite_from_end_def split: option.splits)

interpretation ring: repaintable_log ring_fits cap ring_lines id ring_push overwrite_from_end
proof unfold_locales
  fix r :: "'a ring_lines" and x k
  assume r: "ring_fits r"
  then have ok: "ring_ok r" by (simp add: ring_fits_def)
  show "length (ring_lines r) \<le> cap r" using ok by (simp add: ring_ok_def)
  show "ring_fits (ring_push x r)" using r by (rule ring_push_fits)
  show "cap (ring_push x r) = cap r" by simp
  show "ring_lines (ring_push x r) = take_last (cap r) (ring_lines r @ [id x])"
    using ok by (simp add: ring_push_lines)
  show "ring_fits (overwrite_from_end k x r)"
    using r by (simp add: ring_fits_def overwrite_ok)
  show "cap (overwrite_from_end k x r) = cap r" by simp
  show "ring_lines (overwrite_from_end k x r) =
      (if k < length (ring_lines r)
       then (ring_lines r)[length (ring_lines r) - 1 - k := id x] else ring_lines r)"
    using overwrite_lines [OF ok] by simp
qed

lemma ring_new_lines [simp]: "ring_lines (ring_new c) = []" "cap (ring_new c) = c"
  by (simp_all add: ring_new_def ring_lines_def)

lemma ring_new_fits [simp]: "ring_fits (ring_new c) \<longleftrightarrow> c < 2 ^ 64"
  by (auto simp: ring_fits_def ring_ok_def ring_new_def)

lemma ring_clear_fits [simp]: "ring_fits r \<Longrightarrow> ring_fits (ring_clear r)"
  by (auto simp: ring_fits_def ring_ok_def ring_clear_def)

lemma ring_clear_lines [simp]: "ring_lines (ring_clear r) = []" "cap (ring_clear r) = cap r"
  by (simp_all add: ring_clear_def ring_lines_def)

lemma replace_with_lines:
  "ring_fits r \<Longrightarrow> ring_lines (replace_with xs r) = take_last (cap r) xs"
  unfolding replace_with_def by (subst ring.contents_fold) simp_all

lemma replace_with_fits: "ring_fits r \<Longrightarrow> ring_fits (replace_with xs r)"
  by (simp add: replace_with_def ring.inv_fold)

lemma set_cap_lines:
  assumes "ring_ok r"
  shows "ring_lines (ring_set_cap c r) = take_last c (ring_lines r)" "cap (ring_set_cap c r) = c"
  using assms
  by (auto simp: ring_set_cap_def take_last_def ring_iter_lines ring_ok_def ring_lines_def)

lemma set_cap_fits: "ring_fits r \<Longrightarrow> c < 2 ^ 64 \<Longrightarrow> ring_fits (ring_set_cap c r)"
  by (auto simp: ring_fits_def ring_ok_def ring_set_cap_def ring_iter_lines)

lemma ring_from_lines: "ring_lines (ring_from xs) = xs"
  by (simp add: ring_from_def ring_lines_def)

lemma ring_from_fits: "length xs < 2 ^ 64 \<Longrightarrow> ring_fits (ring_from xs)"
  by (auto simp: ring_from_def ring_fits_def ring_ok_def DEFAULT_UPGRADE_HISTORY_LINES_def)

section \<open>What a log streamed into keeps\<close>

datatype 'a log_op = LPush 'a | LOverwrite nat 'a | LClear | LSetCap nat | LReplace "'a list"

fun log_step :: "'a ring_lines \<Rightarrow> 'a log_op \<Rightarrow> 'a ring_lines" where
  "log_step r (LPush x) = ring_push x r"
| "log_step r (LOverwrite k x) = overwrite_from_end k x r"
| "log_step r LClear = ring_clear r"
| "log_step r (LSetCap c) = ring_set_cap c r"
| "log_step r (LReplace xs) = replace_with xs r"

text \<open>The specification: a capacity and a plain list.\<close>

fun list_step :: "nat \<times> 'a list \<Rightarrow> 'a log_op \<Rightarrow> nat \<times> 'a list" where
  "list_step (c, l) (LPush x) = (c, take_last c (l @ [x]))"
| "list_step (c, l) (LOverwrite k x) =
     (c, if k < length l then l[length l - 1 - k := x] else l)"
| "list_step (c, l) LClear = (c, [])"
| "list_step (c, l) (LSetCap c') = (c', take_last c' l)"
| "list_step (c, l) (LReplace xs) = (c, take_last c xs)"

fun op_fits :: "'a log_op \<Rightarrow> bool" where
  "op_fits (LSetCap c) \<longleftrightarrow> c < 2 ^ 64"
| "op_fits _ \<longleftrightarrow> True"

definition ring_abs :: "'a ring_lines \<Rightarrow> nat \<times> 'a list" where
  "ring_abs r = (cap r, ring_lines r)"

lemma replace_with_cap: "ring_fits r \<Longrightarrow> cap (replace_with xs r) = cap r"
  by (simp add: replace_with_def ring.cap_fold)

lemma log_step_refines:
  assumes "ring_fits r" "op_fits x"
  shows "ring_abs (log_step r x) = list_step (ring_abs r) x" "ring_fits (log_step r x)"
  using assms
  by (cases x; simp add: ring_abs_def ring.contents_add ring.contents_rewrite ring.inv_add
      ring.inv_rewrite ring_fits_def [of r] set_cap_lines set_cap_fits replace_with_lines
      replace_with_fits replace_with_cap)+

text \<open>C11: Refinement of the ring by a list. Whatever sequence of pushes, overwrites counted from
  the newest line, clears, capacity changes and replacements is applied to a log created with
  capacity \<open>c\<close>, reading it back by iteration gives exactly the lines a plain list would hold
  that keeps its newest \<open>cap\<close> entries; no operation reads or writes outside the slots.\<close>

theorem ring_refines_list:
  assumes "c < 2 ^ 64" "\<forall>x \<in> set ops. op_fits x"
  shows "(let r = foldl log_step (ring_new c) ops
          in (cap r, ring_iter r) = foldl list_step (c, []) ops \<and> ring_ok r)"
proof -
  have "ring_fits r \<Longrightarrow> ring_abs (foldl log_step r ops) = foldl list_step (ring_abs r) ops \<and>
        ring_fits (foldl log_step r ops)" for r :: "'a ring_lines"
    using assms(2) by (induction ops arbitrary: r) (simp_all add: log_step_refines)
  from this [of "ring_new c"] have "ring_abs (foldl log_step (ring_new c) ops) =
      foldl list_step (ring_abs (ring_new c)) ops \<and> ring_fits (foldl log_step (ring_new c) ops)"
    using assms(1) by simp
  then show ?thesis
    by (simp add: ring_abs_def ring_iter_lines ring_fits_def Let_def)
qed

theorem ring_refines_list_witness:
  "ring_iter (foldl log_step (ring_new 2)
     [LPush (1 :: nat), LPush 2, LPush 3, LOverwrite 1 7, LSetCap 4, LPush 9]) = [7, 3, 9]"
  using ring_refines_list [of 2 "[LPush (1 :: nat), LPush 2, LPush 3, LOverwrite 1 7, LSetCap 4, LPush 9]"]
  by (simp add: Let_def take_last_def)

end
