(* ===== verification/History.thy ===== *)
theory History
  imports Ring_Lines Proto
begin

text \<open>
  What a panel remembers of the numbers it was shown (crates/multitop/src/history.rs): six
  series of at most \<open>SAMPLES\<close> doubles, filled from every Monitor packet. A series implements
  the interface \<open>bounded_log\<close> with what the clamp at the door makes of a value.
\<close>

definition SAMPLES :: nat where "SAMPLES = 4096"

record series =
  samples :: "f64 list"

definition f64_finite :: "f64 \<Rightarrow> bool" where "f64_finite x \<longleftrightarrow> f64_exp x \<noteq> 2047"

text \<open>\<open>if value.is_finite() { value.max(0.0) } else { 0.0 }\<close>, with \<open>max\<close> of the two zeroes
  taken to be the positive one.\<close>

definition drawable :: "f64 \<Rightarrow> f64" where
  "drawable v = (if f64_finite v then (if f64_less 0 v then v else 0) else 0)"

definition series_push :: "f64 \<Rightarrow> series \<Rightarrow> series" where
  "series_push v s =
     (let v = drawable v;
          xs = (if length (samples s) = SAMPLES then tl (samples s) else samples s)
      in s\<lparr>samples := xs @ [v]\<rparr>)"

definition series_is_empty :: "series \<Rightarrow> bool" where
  "series_is_empty s \<longleftrightarrow> samples s = []"

definition series_tail :: "nat \<Rightarrow> series \<Rightarrow> f64 list" where
  "series_tail n s = drop (length (samples s) - n) (samples s)"

definition latest :: "series \<Rightarrow> f64 option" where
  "latest s = (if samples s = [] then None else Some (last (samples s)))"

definition series_empty :: series where "series_empty = \<lparr>samples = []\<rparr>"

record history =
  h_cpu :: series
  h_mem :: series
  h_disk :: series
  h_rx :: series
  h_tx :: series
  h_mhz :: series

definition history_empty :: history where
  "history_empty = \<lparr>h_cpu = series_empty, h_mem = series_empty, h_disk = series_empty,
     h_rx = series_empty, h_tx = series_empty, h_mhz = series_empty\<rparr>"

definition history_record :: "snapshot \<Rightarrow> history \<Rightarrow> history" where
  "history_record snap h =
     (let h = h\<lparr>h_cpu := series_push (s_cpu_pct snap) (h_cpu h)\<rparr>;
          h = h\<lparr>h_mem := series_push (u_pct (s_mem snap)) (h_mem h)\<rparr>;
          h = h\<lparr>h_disk := series_push (u_pct (s_disk snap)) (h_disk h)\<rparr>;
          h = h\<lparr>h_rx := series_push (s_rx_rate snap) (h_rx h)\<rparr>;
          h = h\<lparr>h_tx := series_push (s_tx_rate snap) (h_tx h)\<rparr>
      in case s_cpu_mhz snap of
           Some mhz \<Rightarrow> h\<lparr>h_mhz := series_push mhz (h_mhz h)\<rparr>
         | None \<Rightarrow> h)"

definition history_is_empty :: "history \<Rightarrow> bool" where
  "history_is_empty h \<longleftrightarrow> series_is_empty (h_cpu h)"

section \<open>A series is a bounded log\<close>

definition series_ok :: "series \<Rightarrow> bool" where
  "series_ok s \<longleftrightarrow> length (samples s) \<le> SAMPLES"

lemma series_tail_take_last: "series_tail n s = take_last n (samples s)"
  by (simp add: series_tail_def take_last_def)

lemma SAMPLES_pos: "0 < SAMPLES" by (simp add: SAMPLES_def)

interpretation series: bounded_log series_ok "\<lambda>_. SAMPLES" samples drawable series_push
proof unfold_locales
  fix s x
  assume ok: "series_ok s"
  then show "length (samples s) \<le> SAMPLES" by (simp add: series_ok_def)
  show "samples (series_push x s) = take_last SAMPLES (samples s @ [drawable x])"
  proof (cases "length (samples s) = SAMPLES")
    case True
    moreover from True have "samples s \<noteq> []" using SAMPLES_pos by auto
    ultimately show ?thesis
      using SAMPLES_pos by (simp add: series_push_def Let_def take_last_def drop_Suc)
  next
    case False
    with ok have "length (samples s @ [drawable x]) \<le> SAMPLES"
      by (simp add: series_ok_def)
    then have "take_last SAMPLES (samples s @ [drawable x]) = samples s @ [drawable x]"
      by (rule take_last_all)
    with False show ?thesis by (simp add: series_push_def Let_def)
  qed
  then show "series_ok (series_push x s)" by (simp add: series_ok_def)
qed simp

lemma f64_finite_0 [simp]: "f64_finite 0"
  by (simp add: f64_finite_def f64_exp_def)

lemma drawable_cases: "drawable v = 0 \<or> f64_finite (drawable v) \<and> f64_less 0 (drawable v)"
  by (simp add: drawable_def)

text \<open>A history: every sample of every series can be drawn, and no series outgrows its bound.\<close>

definition series_wf :: "series \<Rightarrow> bool" where
  "series_wf s \<longleftrightarrow> length (samples s) \<le> SAMPLES \<and>
     (\<forall>v \<in> set (samples s). f64_finite v \<and> (v = 0 \<or> f64_less 0 v))"

definition history_wf :: "history \<Rightarrow> bool" where
  "history_wf h \<longleftrightarrow> series_wf (h_cpu h) \<and> series_wf (h_mem h) \<and> series_wf (h_disk h) \<and>
     series_wf (h_rx h) \<and> series_wf (h_tx h) \<and> series_wf (h_mhz h)"

lemma series_wf_empty [simp]: "series_wf series_empty"
  by (simp add: series_wf_def series_empty_def)

lemma series_wf_push [simp]:
  assumes "series_wf s"
  shows "series_wf (series_push v s)"
proof -
  have ok: "series_ok s" using assms by (simp add: series_wf_def series_ok_def)
  have "w \<in> set (samples s) \<or> w = drawable v" if "w \<in> set (samples (series_push v s))" for w
    using that set_take_last [of SAMPLES "samples s @ [drawable v]"]
    by (auto simp: series.contents_add [OF ok])
  moreover have "length (samples (series_push v s)) \<le> SAMPLES"
    using series.inv_add [OF ok, of v] by (simp add: series_ok_def)
  ultimately show ?thesis
    using assms drawable_cases [of v] unfolding series_wf_def by (metis f64_finite_0)
qed

lemma history_wf_record: "history_wf h \<Longrightarrow> history_wf (history_record snap h)"
  by (simp add: history_wf_def history_record_def Let_def split: option.split)

text \<open>C35: The type invariant of the history, for any sequence of Monitor packets whatever
  numbers they carry (a NaN, an infinity and a negative rate included): a history that starts
  empty only ever holds finite samples that are zero or positive, at most 4096 per series, and
  the graph's tail of \<open>n\<close> samples is the newest \<open>n\<close> of what was recorded, in order.\<close>

theorem history_always_drawable:
  "history_wf (fold history_record snaps history_empty) \<and>
   series_tail n (h_cpu (fold history_record snaps history_empty)) =
     take_last (min n SAMPLES) (map (drawable \<circ> s_cpu_pct) snaps)"
proof
  have "history_wf h \<Longrightarrow> history_wf (fold history_record snaps h)" for h
    by (induction snaps arbitrary: h) (simp_all add: history_wf_record)
  moreover have "history_wf history_empty"
    by (simp add: history_wf_def history_empty_def)
  ultimately show "history_wf (fold history_record snaps history_empty)" by blast
  have "h_cpu (fold history_record snaps h) = fold series_push (map s_cpu_pct snaps) (h_cpu h)" for h
    by (induction snaps arbitrary: h)
       (simp_all add: history_record_def Let_def split: option.split)
  moreover have "series_ok series_empty"
    by (simp add: series_ok_def series_empty_def)
  ultimately have "samples (h_cpu (fold history_record snaps history_empty)) =
      take_last SAMPLES (map (drawable \<circ> s_cpu_pct) snaps)"
    by (simp add: history_empty_def series.contents_fold) (simp add: series_empty_def)
  then show "series_tail n (h_cpu (fold history_record snaps history_empty)) =
      take_last (min n SAMPLES) (map (drawable \<circ> s_cpu_pct) snaps)"
    by (simp add: series_tail_take_last take_last_take_last)
qed

end
