(* ===== verification/Panel_Model.thy ===== *)
theory Panel_Model
  imports Ring_Lines History
begin

text \<open>
  One host's panel (crates/multitop/src/panel.rs, mode.rs, config/types.rs, types.rs): the
  state a pane keeps, the view it shows, its notices, its credential lookup, and the messages
  and commands that pass between the event loop and the tasks it starts.

  What the Ops view learned (\<open>ops::Snapshot\<close>) is a type parameter \<open>'o\<close>; the panel only stores
  it. A \<open>String\<close> is its UTF-8 bytes.
\<close>

section \<open>Text that is not ASCII\<close>

definition WARNING_SIGN :: rstring where "WARNING_SIGN = [0xE2, 0x9A, 0xA0]"
definition RIGHT_ARROW :: rstring where "RIGHT_ARROW = [0xE2, 0x86, 0x92]"
definition EM_DASH :: rstring where "EM_DASH = [0xE2, 0x80, 0x94]"
definition ELLIPSIS :: rstring where "ELLIPSIS = [0xE2, 0x80, 0xA6]"
definition CHECK_MARK :: rstring where "CHECK_MARK = [0xE2, 0x9C, 0x93]"

section \<open>Configuration types\<close>

record server =
  sv_host :: rstring
  sv_name :: "rstring option"
  sv_port :: u16
  sv_user :: rstring
  sv_upgrade_cmd :: "rstring option"
  sv_custom_command :: "rstring option"
  sv_mcp :: "rstring option"

definition target :: "server \<Rightarrow> rstring" where
  "target s = (if sv_user s = [] then sv_host s else sv_user s @ lit ''@'' @ sv_host s)"

text \<open>\<open>password_store::account\<close>: what a credential and an upgrade record are kept under.\<close>

definition account :: "server \<Rightarrow> rstring" where
  "account s =
     (let user = (if sv_user s = [] then lit ''default'' else sv_user s)
      in user @ lit ''@'' @ sv_host s @ lit '':'' @ show_nat (unat (sv_port s)))"

record alert_target =
  at_webhook :: "rstring option"
  at_desktop :: bool

section \<open>Modes\<close>

datatype mode = MMonitor | MDocker | MFetch | MUpgrade | MGraphs | MAlerts | MOps

fun mode_as_str :: "mode \<Rightarrow> rstring" where
  "mode_as_str MMonitor = lit ''monitor''"
| "mode_as_str MDocker = lit ''docker''"
| "mode_as_str MFetch = lit ''fetch''"
| "mode_as_str MUpgrade = lit ''upgrade''"
| "mode_as_str MGraphs = lit ''graphs''"
| "mode_as_str MAlerts = lit ''alerts''"
| "mode_as_str MOps = lit ''ops''"

definition mode_from_str :: "rstring \<Rightarrow> mode option" where
  "mode_from_str s =
     (if s = lit ''monitor'' then Some MMonitor
      else if s = lit ''docker'' then Some MDocker
      else if s = lit ''fetch'' then Some MFetch
      else if s = lit ''upgrade'' then Some MUpgrade
      else if s = lit ''graphs'' then Some MGraphs
      else if s = lit ''alerts'' then Some MAlerts
      else if s = lit ''ops'' then Some MOps
      else None)"

definition survives_restart :: "mode \<Rightarrow> bool" where
  "survives_restart m \<longleftrightarrow> m = MMonitor \<or> m = MGraphs"

definition for_startup :: "mode \<Rightarrow> mode" where
  "for_startup m = (if survives_restart m then m else MMonitor)"

lemma mode_from_as_str: "mode_from_str (mode_as_str m) = Some m"
  by (cases m) (simp_all add: mode_from_str_def lit_def)

datatype sort_by = SortCpu | SortMem

fun sort_word :: "sort_by \<Rightarrow> rstring" where
  "sort_word SortCpu = lit ''cpu''"
| "sort_word SortMem = lit ''mem''"

section \<open>The palette\<close>

text \<open>The escapes the program draws with, one per role (crates/agent/src/palette_view.rs).\<close>

record palette =
  pal_primary :: rstring
  pal_secondary :: rstring
  pal_muted :: rstring
  pal_text :: rstring
  pal_meter_low :: rstring
  pal_meter_mid :: rstring
  pal_meter_high :: rstring
  pal_reset :: rstring
  pal_bold :: rstring
  pal_dim :: rstring

section \<open>The panel\<close>

datatype upgrade_state = UNil | UStarted | UDone

datatype credential_lookup = NotAsked | InFlight | Answered

definition asked :: "credential_lookup \<Rightarrow> bool" where
  "asked l \<longleftrightarrow> l \<noteq> NotAsked"

definition in_flight :: "credential_lookup \<Rightarrow> bool" where
  "in_flight l \<longleftrightarrow> l = InFlight"

datatype placeholder = Connecting | Waiting

definition placeholder_lines :: "placeholder \<Rightarrow> palette \<Rightarrow> rstring list" where
  "placeholder_lines p pal =
     (let (ink, txt) = (case p of Connecting \<Rightarrow> (pal_muted pal, lit ''connecting...'')
                                | Waiting \<Rightarrow> (pal_meter_mid pal, lit ''waiting for data...''))
      in [[], ink @ txt @ pal_reset pal])"

datatype 'o ops_state =
    OpsNotConfigured
  | OpsAsking
  | OpsFailed (ops_why: rstring) (ops_last: "'o option")
  | OpsReady 'o

record 'o panel =
  pn_server :: server
  pn_mode :: mode
  pn_gen :: u64
  pn_last_frame :: "rstring list option"
  pn_last_fetch :: "fetch_snapshot option"
  pn_last_upgrade :: "rstring ring_lines"
  pn_upgrade_state :: upgrade_state
  pn_upgrade_gen :: u64
  pn_upgrade_status :: "(u64 \<times> rstring) option"
  pn_view_status :: "(u64 \<times> rstring) option"
  pn_last_monitor :: "payload option"
  pn_history :: history
  pn_last_docker :: "payload option"
  pn_last_ops :: "'o ops_state option"
  pn_view :: "rstring list"
  pn_placeholder :: "placeholder option"
  pn_scroll_offset :: nat
  pn_upgrade_scroll_offset :: nat
  pn_sudo_password :: "rstring option"
  pn_password_saved :: bool
  pn_external_password :: bool
  pn_lookup :: credential_lookup
  pn_notes :: "rstring list"
  pn_upgradable :: "rstring option"

definition MAX_NOTES :: nat where "MAX_NOTES = 4"

text \<open>\<open>Panel::new\<close>; \<open>saved\<close> is what the history cache holds under a name.\<close>

definition panel_new :: "palette \<Rightarrow> (rstring \<Rightarrow> history option) \<Rightarrow> server \<Rightarrow> 'o panel" where
  "panel_new pal saved server =
     \<lparr>pn_server = server, pn_mode = MMonitor, pn_gen = 0, pn_last_frame = None, pn_last_fetch = None,
      pn_last_upgrade = ring_new DEFAULT_UPGRADE_HISTORY_LINES, pn_upgrade_state = UNil,
      pn_upgrade_gen = 0, pn_upgrade_status = None, pn_view_status = None, pn_last_monitor = None,
      pn_history = (case saved (sv_host server) of
                      Some h \<Rightarrow> h
                    | None \<Rightarrow> (case saved (account server) of Some h \<Rightarrow> h | None \<Rightarrow> history_empty)),
      pn_last_docker = None, pn_last_ops = None, pn_view = placeholder_lines Connecting pal,
      pn_placeholder = Some Connecting, pn_scroll_offset = 0, pn_upgrade_scroll_offset = 0,
      pn_sudo_password = None, pn_password_saved = False, pn_external_password = False,
      pn_lookup = NotAsked, pn_notes = [], pn_upgradable = None\<rparr>"

definition add_note :: "rstring \<Rightarrow> 'o panel \<Rightarrow> 'o panel" where
  "add_note line p =
     (if line \<in> set (pn_notes p) then p
      else let notes = (if MAX_NOTES \<le> length (pn_notes p) then tl (pn_notes p) else pn_notes p)
           in p\<lparr>pn_notes := notes @ [line]\<rparr>)"

definition show_body :: "rstring list \<Rightarrow> 'o panel \<Rightarrow> 'o panel" where
  "show_body lines p = p\<lparr>pn_placeholder := None, pn_view := [] # lines\<rparr>"

definition show_frame :: "rstring list \<Rightarrow> 'o panel \<Rightarrow> 'o panel" where
  "show_frame lines p = p\<lparr>pn_placeholder := None, pn_view := lines\<rparr>"

definition restyle_placeholder :: "palette \<Rightarrow> 'o panel \<Rightarrow> 'o panel" where
  "restyle_placeholder pal p =
     (case pn_placeholder p of
        Some ph \<Rightarrow> p\<lparr>pn_view := placeholder_lines ph pal\<rparr>
      | None \<Rightarrow> p)"

definition needs_credential_load :: "'o panel \<Rightarrow> bool" where
  "needs_credential_load p \<longleftrightarrow> \<not> asked (pn_lookup p) \<and> pn_sudo_password p = None"

definition mark_credential_load_dispatched :: "'o panel \<Rightarrow> 'o panel" where
  "mark_credential_load_dispatched p = p\<lparr>pn_lookup := InFlight\<rparr>"

definition answer_credential_load :: "(rstring option, rstring) result \<Rightarrow> 'o panel \<Rightarrow> 'o panel" where
  "answer_credential_load result p =
     (let p = p\<lparr>pn_lookup := Answered\<rparr>
      in case result of
           Ok (Some pass) \<Rightarrow> p\<lparr>pn_sudo_password := Some pass, pn_password_saved := True\<rparr>
         | _ \<Rightarrow> p)"

definition set_sudo_password :: "rstring \<Rightarrow> bool \<Rightarrow> 'o panel \<Rightarrow> 'o panel" where
  "set_sudo_password password from_vault p =
     (let p = p\<lparr>pn_sudo_password := Some password, pn_lookup := Answered\<rparr>
      in if from_vault then p\<lparr>pn_external_password := True\<rparr> else p)"

definition show_last_frame :: "palette \<Rightarrow> 'o panel \<Rightarrow> 'o panel" where
  "show_last_frame pal p =
     (case pn_last_frame p of
        Some lines \<Rightarrow> show_frame lines p
      | None \<Rightarrow> p\<lparr>pn_view := placeholder_lines Waiting pal, pn_placeholder := Some Waiting\<rparr>)"

section \<open>Messages and commands\<close>

datatype command =
    RunDocker (cmd_panel: nat) (cmd_gen: u64)
  | RunFetch (cmd_panel: nat) (cmd_gen: u64)
  | RunUpgrade (cmd_panel: nat) (cmd_gen: u64)
  | RunOps (cmd_panel: nat) (cmd_gen: u64)

type_synonym dims = "u16 \<times> u16"

text \<open>\<open>Msg\<close>, the vault's answers carrying an unlocked vault of type \<open>'v\<close>.\<close>

datatype ('o, 'v) msg =
    Packet nat u64 u64 payload dims
  | VaultPasswordRotated u64
  | VaultPasswordRotationFailed u64 rstring
  | Frame nat u64 "rstring list"
  | Status nat u64 rstring
  | Ops nat u64 "'o ops_state" dims
  | FetchData nat u64 fetch_snapshot "rstring list"
  | AuxBegin nat u64 "rstring option"
  | AuxLine nat u64 rstring
  | AuxRepaint nat u64 rstring nat nat
  | AuxStatus nat u64 "rstring option"
  | AuxDone nat u64 "rstring option" bool
  | VaultCreated u64 'v
  | VaultCreateFailed u64 rstring
  | VaultUnlockFailed u64 rstring
  | VaultUnlocked u64 'v
  | VaultBiometricFailed u64
  | CredentialLoaded nat u64 "(rstring option, rstring) result"
  | UpgradableReceived nat u64 rstring

section \<open>Notices\<close>

definition notes_ok :: "'o panel \<Rightarrow> bool" where
  "notes_ok p \<longleftrightarrow> length (pn_notes p) \<le> MAX_NOTES \<and> distinct (pn_notes p)"

lemma add_note_ok: "notes_ok p \<Longrightarrow> notes_ok (add_note line p)"
  by (cases "pn_notes p")
     (auto simp: notes_ok_def add_note_def Let_def MAX_NOTES_def)

lemma add_note_kept: "notes_ok p \<Longrightarrow> line \<in> set (pn_notes (add_note line p))"
  by (simp add: add_note_def Let_def)

text \<open>What a notice leaves alone: everything but the notices.\<close>

lemma add_note_simps [simp]:
  "pn_server (add_note line p) = pn_server p"
  "pn_mode (add_note line p) = pn_mode p"
  "pn_gen (add_note line p) = pn_gen p"
  "pn_view (add_note line p) = pn_view p"
  "pn_last_upgrade (add_note line p) = pn_last_upgrade p"
  "pn_upgrade_state (add_note line p) = pn_upgrade_state p"
  "pn_upgrade_gen (add_note line p) = pn_upgrade_gen p"
  "pn_sudo_password (add_note line p) = pn_sudo_password p"
  "pn_history (add_note line p) = pn_history p"
  by (simp_all add: add_note_def Let_def)

lemma show_simps [simp]:
  "pn_view (show_body ls p) = [] # ls"
  "pn_view (show_frame ls p) = ls"
  "pn_upgrade_state (show_body ls p) = pn_upgrade_state p"
  "pn_upgrade_state (show_frame ls p) = pn_upgrade_state p"
  "pn_upgrade_gen (show_body ls p) = pn_upgrade_gen p"
  "pn_upgrade_gen (show_frame ls p) = pn_upgrade_gen p"
  "pn_gen (show_body ls p) = pn_gen p"
  "pn_gen (show_frame ls p) = pn_gen p"
  "pn_mode (show_body ls p) = pn_mode p"
  "pn_mode (show_frame ls p) = pn_mode p"
  "pn_last_upgrade (show_body ls p) = pn_last_upgrade p"
  "pn_last_upgrade (show_frame ls p) = pn_last_upgrade p"
  "pn_notes (show_body ls p) = pn_notes p"
  "pn_notes (show_frame ls p) = pn_notes p"
  "pn_server (show_body ls p) = pn_server p"
  "pn_server (show_frame ls p) = pn_server p"
  "pn_history (show_body ls p) = pn_history p"
  "pn_history (show_frame ls p) = pn_history p"
  by (simp_all add: show_body_def show_frame_def)

end
