(* ===== verification/Panel_Filter.thy ===== *)
theory Panel_Filter
  imports Panel_Model
begin

text \<open>
  Which panels a query keeps (crates/multitop/src/filter.rs) and which snapshots breach an
  alert threshold (crates/multitop/src/health.rs).

  Three functions of text are arguments: Unicode lower-casing, the parsing of a decimal
  (\<open>str::parse::<f64>\<close>), and the third-party regular expressions, where \<open>tx_regex pat\<close> is the
  matcher of a pattern that compiles. \<open>terms\<close> gives the words an Ops snapshot shows.
\<close>

record text_env =
  tx_lower :: "rstring \<Rightarrow> rstring"
  tx_parse_f64 :: "rstring \<Rightarrow> f64 option"
  tx_regex :: "rstring \<Rightarrow> (rstring \<Rightarrow> bool) option"

section \<open>Substrings\<close>

fun contains :: "'a list \<Rightarrow> 'a list \<Rightarrow> bool" where
  "contains [] p \<longleftrightarrow> p = []"
| "contains (x # xs) p \<longleftrightarrow> starts_with (x # xs) p \<or> contains xs p"

definition strip_prefix :: "'a list \<Rightarrow> 'a list \<Rightarrow> 'a list option" where
  "strip_prefix p s = (if starts_with s p then Some (drop (length p) s) else None)"

lemma contains_append: "contains (a @ p @ b) p"
proof (induction a)
  case Nil
  show ?case
  proof (cases "p @ b")
    case Nil
    then show ?thesis by simp
  next
    case (Cons x xs)
    moreover have "starts_with (p @ b) p" by (simp add: starts_with_def)
    ultimately show ?thesis by (metis append_Nil contains.simps(2))
  qed
qed simp

section \<open>Thresholds\<close>

record alerts =
  al_cpu :: "u8 option"
  al_mem :: "u8 option"
  al_disk :: "u8 option"

definition or_default :: "u8 \<Rightarrow> u8 option \<Rightarrow> u8" where
  "or_default d x = (case x of Some v \<Rightarrow> v | None \<Rightarrow> d)"

definition f64_of_u8 :: "u8 \<Rightarrow> f64" where "f64_of_u8 n = unsigned_f64 (ucast n)"

definition is_breaching_with_vault :: "snapshot \<Rightarrow> alerts \<Rightarrow> bool \<Rightarrow> bool" where
  "is_breaching_with_vault snap cfg vault_locked =
     (let cpu_alert = or_default 80 (al_cpu cfg);
          mem_alert = or_default 85 (al_mem cfg);
          disk_alert = or_default 90 (al_disk cfg)
      in f64_le (f64_of_u8 cpu_alert) (s_cpu_pct snap)
       \<or> f64_le (f64_of_u8 mem_alert) (u_pct (s_mem snap))
       \<or> f64_le (f64_of_u8 disk_alert) (u_pct (s_disk snap))
       \<or> vault_locked)"

definition is_breaching :: "snapshot \<Rightarrow> alerts \<Rightarrow> bool" where
  "is_breaching snap cfg = is_breaching_with_vault snap cfg False"

definition default_alerts :: alerts where
  "default_alerts = \<lparr>al_cpu = None, al_mem = None, al_disk = None\<rparr>"

section \<open>What a panel shows\<close>

definition monitor_matches :: "(rstring \<Rightarrow> bool) \<Rightarrow> 'o panel \<Rightarrow> bool" where
  "monitor_matches hit p =
     (case pn_last_monitor p of
        Some (Monitor snap) \<Rightarrow>
          hit (s_host snap)
          \<or> list_ex (\<lambda>n. hit (proc_name_str n)) (s_proc_names snap)
          \<or> list_ex (\<lambda>q. hit (proc_name_str (p_name q))) (s_procs snap)
      | _ \<Rightarrow> False)"

definition docker_matches :: "(rstring \<Rightarrow> bool) \<Rightarrow> 'o panel \<Rightarrow> bool" where
  "docker_matches hit p =
     (case pn_last_docker p of
        Some (Docker host rows) \<Rightarrow>
          hit host \<or> list_ex (\<lambda>r. hit (dr_name r) \<or> hit (dr_image r) \<or> hit (dr_status r)) rows
      | _ \<Rightarrow> False)"

fun ops_terms :: "('o \<Rightarrow> rstring list) \<Rightarrow> 'o ops_state \<Rightarrow> rstring list" where
  "ops_terms terms OpsNotConfigured = []"
| "ops_terms terms OpsAsking = []"
| "ops_terms terms (OpsReady s) = terms s"
| "ops_terms terms (OpsFailed why prev) =
     why # (case prev of Some s \<Rightarrow> terms s | None \<Rightarrow> [])"

definition ops_matches :: "('o \<Rightarrow> rstring list) \<Rightarrow> (rstring \<Rightarrow> bool) \<Rightarrow> 'o panel \<Rightarrow> bool" where
  "ops_matches terms hit p =
     (case pn_last_ops p of Some s \<Rightarrow> list_ex hit (ops_terms terms s) | None \<Rightarrow> False)"

definition fetch_matches :: "(rstring \<Rightarrow> bool) \<Rightarrow> 'o panel \<Rightarrow> bool" where
  "fetch_matches hit p =
     (case pn_last_fetch p of
        Some s \<Rightarrow> hit (f_user_host s) \<or> hit (f_os s) \<or> hit (f_kernel s) \<or> hit (f_host_model s)
                 \<or> hit (f_cpu_model s)
      | None \<Rightarrow> False)"

definition shown_matches :: "('o \<Rightarrow> rstring list) \<Rightarrow> (rstring \<Rightarrow> bool) \<Rightarrow> 'o panel \<Rightarrow> bool" where
  "shown_matches terms hit p =
     (case pn_mode p of
        MMonitor \<Rightarrow> monitor_matches hit p
      | MGraphs \<Rightarrow> monitor_matches hit p
      | MAlerts \<Rightarrow> monitor_matches hit p
      | MDocker \<Rightarrow> docker_matches hit p
      | MFetch \<Rightarrow> fetch_matches hit p
      | MUpgrade \<Rightarrow> list_ex hit (ring_iter (pn_last_upgrade p))
      | MOps \<Rightarrow> ops_matches terms hit p)"

section \<open>Queries\<close>

definition ip_hit :: "rstring \<Rightarrow> 'o panel \<Rightarrow> bool" where
  "ip_hit q p =
     (case strip_prefix (lit ''ip:'') q of
        Some ip \<Rightarrow> trim ip \<noteq> [] \<and> contains (sv_host (pn_server p)) (trim ip)
      | None \<Rightarrow> False)"

definition image_hit :: "text_env \<Rightarrow> rstring \<Rightarrow> 'o panel \<Rightarrow> bool" where
  "image_hit tx q p =
     (case strip_prefix (lit ''image:'') q of
        Some img \<Rightarrow> trim img \<noteq> [] \<and>
          (case pn_last_docker p of
             Some (Docker host rows) \<Rightarrow>
               list_ex (\<lambda>r. contains (tx_lower tx (dr_image r)) (trim img)) rows
           | _ \<Rightarrow> False)
      | None \<Rightarrow> False)"

definition THRESHOLD_PREFIXES :: "rstring list" where
  "THRESHOLD_PREFIXES = map lit [''cpu>='', ''cpu<='', ''cpu>'', ''cpu<'', ''mem>='', ''mem<='',
     ''mem>'', ''mem<'']"

definition threshold_hit :: "text_env \<Rightarrow> rstring \<Rightarrow> 'o panel \<Rightarrow> rstring \<Rightarrow> bool" where
  "threshold_hit tx q p pre =
     (case strip_prefix pre q of
        Some num_str \<Rightarrow>
          (case tx_parse_f64 tx (trim num_str) of
             Some threshold \<Rightarrow>
               (case pn_last_monitor p of
                  Some (Monitor snap) \<Rightarrow>
                    (let val = (if starts_with pre (lit ''cpu'') then s_cpu_pct snap else u_pct (s_mem snap))
                     in if contains pre (lit ''>='') then f64_le threshold val
                        else if contains pre (lit ''<='') then f64_le val threshold
                        else if contains pre (lit ''>'') then f64_less threshold val
                        else f64_less val threshold)
                | _ \<Rightarrow> False)
           | None \<Rightarrow> False)
      | None \<Rightarrow> False)"

text \<open>The pattern of a query written between slashes, when it compiles.\<close>

definition regex_of :: "text_env \<Rightarrow> rstring \<Rightarrow> (rstring \<Rightarrow> bool) option" where
  "regex_of tx q =
     (if starts_with q (lit ''/'') \<and> ends_with q (lit ''/'') \<and> 2 < length q
      then tx_regex tx (butlast (tl q)) else None)"

definition text_matches :: "('o \<Rightarrow> rstring list) \<Rightarrow> (rstring \<Rightarrow> bool) \<Rightarrow> 'o panel \<Rightarrow> bool" where
  "text_matches terms hit p \<longleftrightarrow>
     hit (sv_host (pn_server p)) \<or> hit (sv_user (pn_server p)) \<or> shown_matches terms hit p"

definition matches_filter :: "text_env \<Rightarrow> ('o \<Rightarrow> rstring list) \<Rightarrow> rstring \<Rightarrow> 'o panel \<Rightarrow> bool" where
  "matches_filter tx terms query p =
     (let q = tx_lower tx (trim query)
      in if q = [] then True
         else if q = lit ''unhealthy'' then
           (case pn_last_monitor p of
              Some (Monitor snap) \<Rightarrow> is_breaching snap default_alerts
            | _ \<Rightarrow> False)
         else if ip_hit q p then True
         else if image_hit tx q p then True
         else if list_ex (threshold_hit tx q p) THRESHOLD_PREFIXES then True
         else case regex_of tx q of
                Some re \<Rightarrow> text_matches terms re p
              | None \<Rightarrow> text_matches terms (\<lambda>text. contains (tx_lower tx text) q) p)"

section \<open>What a query finds\<close>

lemma matches_empty: "tx_lower tx [] = [] \<Longrightarrow> trim query = [] \<Longrightarrow> matches_filter tx terms query p"
  by (simp add: matches_filter_def Let_def)

text \<open>A plain query finds a host by its name whatever the panel is showing.\<close>

lemma matches_by_host:
  assumes "q = tx_lower tx (trim query)" "q \<noteq> lit ''unhealthy''" "regex_of tx q = None"
    and "contains (tx_lower tx (sv_host (pn_server p))) q"
  shows "matches_filter tx terms query p"
  using assms by (simp add: matches_filter_def Let_def text_matches_def)

end
