(* ===== verification/App_Model.thy ===== *)
theory App_Model
  imports Panel_Filter
begin

text \<open>
  The application's state (crates/multitop/src/app/mod.rs, app/types.rs, state.rs) and what it
  does with each message of a task (app/apply.rs, app/ops_view.rs). The vault's answers are in
  theory \<open>Vault_Ui\<close>.

  The renderers, the disk under state.toml and the history cache, the OS credential store, the
  readings of an unlocked vault, and the text functions of the filter are the fields of \<open>ui\<close>, an
  argument of every operation that uses them; the clock is an argument \<open>now\<close>. A handler returns whether the screen changed, the new state, and what it asked
  of the outside: a file to write, a notification to send, a task to start. An operation of the
  outside that can fail (\<open>ui_save\<close>, \<open>ui_store_save\<close>, ...) answers with its error, if any.
\<close>

section \<open>State\<close>

datatype app_mode = Running | Filtering | ShowUpgradeModal

datatype confirm = ConfirmQuit | ConfirmUpgrade | ConfirmKill

datatype exec_kind = Kill | Journal | Renice

record exec_confirm =
  ec_panel :: nat
  ec_pid :: u32
  ec_name :: rstring
  ec_kind :: exec_kind

datatype 'v vault_state =
    VLocked
  | VUnlocking bool
  | VUnlocked 'v bool
  | VPasswordPrompt "rstring option"
  | VCreating "rstring option" bool

datatype overlay = NoOverlay | HelpOverlay bool | CommandPalette

definition is_help :: "overlay \<Rightarrow> bool" where
  "is_help ov = (case ov of HelpOverlay _ \<Rightarrow> True | _ \<Rightarrow> False)"

definition is_palette :: "overlay \<Rightarrow> bool" where
  "is_palette ov \<longleftrightarrow> ov = CommandPalette"

record host_update =
  hu_started_at :: "u64 option"
  hu_finished_at :: "u64 option"
  hu_success :: bool

definition host_update_default :: host_update where
  "host_update_default = \<lparr>hu_started_at = None, hu_finished_at = None, hu_success = False\<rparr>"

datatype run_outcome = NeverRan | RanOk | RanFailed | RanInterrupted

definition run_outcome :: "host_update \<Rightarrow> run_outcome" where
  "run_outcome h =
     (case (hu_started_at h, hu_finished_at h) of
        (None, None) \<Rightarrow> NeverRan
      | (Some _, None) \<Rightarrow> RanInterrupted
      | _ \<Rightarrow> if hu_success h then RanOk else RanFailed)"

definition duration_secs :: "host_update \<Rightarrow> u64 option" where
  "duration_secs h =
     (case (hu_started_at h, hu_finished_at h) of
        (Some s, Some f) \<Rightarrow> if s \<le> f then Some (f - s) else None
      | _ \<Rightarrow> None)"

record app_state =
  st_last_update :: "u64 option"
  st_upgrade_started_at :: "u64 option"
  st_hosts :: "rstring \<Rightarrow> host_update option"
  st_selected_host :: "rstring option"
  st_filter_query :: "rstring option"
  st_sort :: "rstring option"
  st_views :: "rstring \<Rightarrow> rstring option"
  st_saved_filters :: "rstring list"

text \<open>The settings panel (crates/multitop/src/passwords/types.rs).\<close>

record server_draft =
  sd_original :: "nat option"
  sd_host :: rstring
  sd_user :: rstring
  sd_port :: rstring
  sd_upgrade_cmd :: rstring
  sd_password :: rstring
  sd_field :: nat

datatype pw_edit = RotateCurrent | RotateNew rstring

record pw_manager =
  pm_selected :: nat
  pm_edit :: "pw_edit option"
  pm_input :: rstring
  pm_resume_upgrade :: bool
  pm_draft :: "server_draft option"
  pm_notice :: "rstring option"
  pm_pending_delete :: "nat option"
  pm_rotating :: bool

datatype banner_style = Plain | Wide

record ('o, 'v) app =
  a_panels :: "'o panel list"
  a_selected :: nat
  a_mode :: app_mode
  a_sort :: sort_by
  a_palette :: palette
  a_config_path :: "rstring option"
  a_filter_query :: rstring
  a_history_lines :: nat
  a_manager :: "pw_manager option"
  a_last_update :: "u64 option"
  a_started_at :: "u64 option"
  a_vault :: "rstring option"
  a_vault_state :: "'v vault_state"
  a_vault_input :: rstring
  a_vault_epoch :: u64
  a_host_updates :: "rstring \<Rightarrow> host_update option"
  a_should_quit :: bool
  a_quit_armed :: bool
  a_panels_epoch :: u64
  a_overlay :: overlay
  a_focused :: "nat option"
  a_graph_zoom :: u8
  a_alerts :: alerts
  a_alert_targets :: "alert_target list"
  a_saved_filters :: "rstring list"
  a_kill_confirm :: "exec_confirm option"
  a_theme_idx :: nat
  a_banner :: banner_style
  a_command_input :: rstring

datatype effect =
    SaveHistory rstring history
  | SaveState app_state
  | BreachNotice server rstring u8 u8
  | UpgradeNotice server bool "u64 option"
  | StoreLookup nat u64 server
  | StoreSave server rstring
  | StoreDelete server
  | SaveServers rstring "server list"
  | SaveTheme rstring nat
  | SaveBanner rstring banner_style
  | AbortUpgrades
  | Rotate rstring u64 rstring rstring
  | CreateVault rstring u64 rstring
  | UnlockPassword rstring u64 rstring
  | UnlockBiometric rstring u64
  | ProcessAction exec_kind nat u64 server u32 rstring "rstring option"
  | TailLog nat u64 server "rstring option"
  | CheckUpgradable nat u64 server
  | RestartAgents
  | CopyText rstring

record alert_config =
  ac_alerts :: alerts
  ac_vault_locked :: bool

record ('o, 'v) ui =
  ui_payload :: "payload \<Rightarrow> dims \<Rightarrow> sort_by \<Rightarrow> palette \<Rightarrow> rstring list"
  ui_fetch :: "fetch_snapshot \<Rightarrow> dims \<Rightarrow> palette \<Rightarrow> rstring list"
  ui_graphs :: "history \<Rightarrow> dims \<Rightarrow> palette \<Rightarrow> u8 \<Rightarrow> rstring list"
  ui_alerts :: "history \<Rightarrow> dims \<Rightarrow> palette \<Rightarrow> alert_config \<Rightarrow> rstring list"
  ui_ops :: "'o panel \<Rightarrow> dims \<Rightarrow> palette \<Rightarrow> rstring list"
  ui_terms :: "'o \<Rightarrow> rstring list"
  ui_text :: text_env
  ui_history :: "rstring \<Rightarrow> history option"
  ui_save :: "app_state \<Rightarrow> rstring option"
  ui_store_load :: "server \<Rightarrow> (rstring option, rstring) result"
  ui_store_save :: "server \<Rightarrow> rstring \<Rightarrow> rstring option"
  ui_store_delete :: "server \<Rightarrow> rstring option"
  ui_save_servers :: "rstring \<Rightarrow> server list \<Rightarrow> rstring option"
  ui_ssh_config :: "rstring option"
  ui_vault_path :: "rstring \<Rightarrow> rstring option"
  ui_theme :: "nat \<Rightarrow> palette"
  ui_vault_hosts :: "'v \<Rightarrow> rstring list"
  ui_vault_get :: "'v \<Rightarrow> rstring \<Rightarrow> rstring option"
  ui_vault_set :: "rstring \<Rightarrow> rstring \<Rightarrow> 'v \<Rightarrow> rstring option \<times> 'v"
  ui_vault_remove :: "rstring \<Rightarrow> 'v \<Rightarrow> rstring option \<times> 'v"
  ui_create_vault :: "rstring \<Rightarrow> rstring option"
  ui_biometric :: "rstring \<Rightarrow> bool"

type_synonym ('o, 'v) step = "bool \<times> ('o, 'v) app \<times> effect list"

section \<open>Small pieces\<close>

definition with_panel :: "nat \<Rightarrow> ('o panel \<Rightarrow> 'o panel) \<Rightarrow> ('o, 'v) app \<Rightarrow> ('o, 'v) app" where
  "with_panel i f a = a\<lparr>a_panels := (a_panels a)[i := f (a_panels a ! i)]\<rparr>"

definition all_panels :: "('o panel \<Rightarrow> 'o panel) \<Rightarrow> ('o, 'v) app \<Rightarrow> ('o, 'v) app" where
  "all_panels f a = a\<lparr>a_panels := map f (a_panels a)\<rparr>"

definition accepts :: "('o, 'v) app \<Rightarrow> nat \<Rightarrow> u64 \<Rightarrow> bool" where
  "accepts a i g = (case nth_opt (a_panels a) i of Some p \<Rightarrow> pn_gen p = g | None \<Rightarrow> False)"

definition upgrades_in_flight :: "('o, 'v) app \<Rightarrow> bool" where
  "upgrades_in_flight a = list_ex (\<lambda>p. pn_upgrade_state p = UStarted) (a_panels a)"

definition LOG_AMORTIZE :: nat where "LOG_AMORTIZE = 512"

definition push_capped :: "'a \<Rightarrow> nat \<Rightarrow> 'a list \<Rightarrow> 'a list" where
  "push_capped line c log =
     (let log = log @ [line]
      in if c + LOG_AMORTIZE < length log then drop (length log - c) log else log)"

text \<open>The nearest whole number of a percentage, halves away from zero, between 0 and 100; a
  NaN is 0.\<close>

definition pct_u8 :: "f64 \<Rightarrow> u8" where
  "pct_u8 v =
     (if f64_nan v \<or> f64_sign v = 1 then 0
      else let k = f64_pow v;
               n = (if 0 \<le> k then f64_sig v * 2 ^ nat k
                    else (f64_sig v + 2 ^ (nat (- k) - 1)) div 2 ^ nat (- k))
           in of_nat (min n 100))"

section \<open>Saving\<close>

definition map_of_panels :: "('o panel \<Rightarrow> 'b) \<Rightarrow> 'o panel list \<Rightarrow> rstring \<Rightarrow> 'b option" where
  "map_of_panels f ps =
     fold (\<lambda>p m. m(account (pn_server p) \<mapsto> f p)) ps Map.empty"

definition app_state_of :: "('o, 'v) app \<Rightarrow> app_state" where
  "app_state_of a =
     \<lparr>st_last_update = a_last_update a, st_upgrade_started_at = a_started_at a,
      st_hosts = a_host_updates a,
      st_selected_host =
        map_option (\<lambda>p. account (pn_server p)) (nth_opt (a_panels a) (a_selected a)),
      st_filter_query =
        (if trim (a_filter_query a) = [] then None else Some (a_filter_query a)),
      st_sort = Some (sort_word (a_sort a)),
      st_views = map_of_panels (\<lambda>p. mode_as_str (for_startup (pn_mode p))) (a_panels a),
      st_saved_filters = a_saved_filters a\<rparr>"

definition save_note :: "rstring \<Rightarrow> rstring" where
  "save_note e = lit ''could not save upgrade state ('' @ e @
     lit '') -- an interrupted run will not be detectable after a restart.''"

definition persist_state :: "('o, 'v) ui \<Rightarrow> ('o, 'v) app \<Rightarrow> ('o, 'v) app \<times> effect list" where
  "persist_state ui a =
     (case a_config_path a of
        None \<Rightarrow> (a, [])
      | Some path \<Rightarrow>
          (let st = app_state_of a
           in (case ui_save ui st of
                 None \<Rightarrow> a
               | Some e \<Rightarrow> all_panels (add_note (save_note e)) a,
               [SaveState st])))"

section \<open>Messages\<close>

definition on_packet ::
  "('o, 'v) ui \<Rightarrow> nat \<Rightarrow> u64 \<Rightarrow> u64 \<Rightarrow> payload \<Rightarrow> dims \<Rightarrow> ('o, 'v) app \<Rightarrow> ('o, 'v) step" where
  "on_packet ui i g epoch pl dm a =
     (if epoch \<noteq> a_panels_epoch a then (False, a, [])
      else case nth_opt (a_panels a) i of
        None \<Rightarrow> (False, a, [])
      | Some p \<Rightarrow>
          (case pl of
             Monitor snap \<Rightarrow>
               (let p = p\<lparr>pn_history := history_record snap (pn_history p)\<rparr>;
                    p = p\<lparr>pn_last_monitor := Some pl\<rparr>;
                    lines = ui_payload ui pl dm (a_sort a) (a_palette a);
                    p = p\<lparr>pn_last_frame := Some lines\<rparr>;
                    p = (case pn_mode p of
                           MMonitor \<Rightarrow> show_frame lines p
                         | MGraphs \<Rightarrow> show_frame (ui_graphs ui (pn_history p) dm (a_palette a) 1) p
                         | _ \<Rightarrow> p);
                    notice =
                      (if a_alert_targets a = [] then []
                       else case al_cpu (a_alerts a) of
                              None \<Rightarrow> []
                            | Some t \<Rightarrow>
                                (let val = pct_u8 (s_cpu_pct snap)
                                 in if t \<le> val then [BreachNotice (pn_server p) (lit ''CPU'') val t]
                                    else []))
                in (True, with_panel i (\<lambda>_. p) a, SaveHistory (s_host snap) (pn_history p) # notice))
           | Docker host rows \<Rightarrow>
               (let p = p\<lparr>pn_last_docker := Some pl\<rparr>;
                    shown = (pn_mode p = MDocker \<and> accepts a i g);
                    p = (if shown then show_frame (ui_payload ui pl dm (a_sort a) (a_palette a)) p else p)
                in (shown, with_panel i (\<lambda>_. p) a, []))
           | Fetch snap \<Rightarrow>
               (let p = p\<lparr>pn_last_fetch := Some snap\<rparr>;
                    shown = (pn_mode p = MFetch \<and> accepts a i g);
                    p = (if shown then show_frame (ui_fetch ui snap dm (a_palette a)) p else p)
                in (shown, with_panel i (\<lambda>_. p) a, []))
           | Exec _ \<Rightarrow> (False, a, [])
           | HelloP _ \<Rightarrow> (False, a, [])))"

definition on_frame :: "nat \<Rightarrow> u64 \<Rightarrow> rstring list \<Rightarrow> ('o, 'v) app \<Rightarrow> ('o, 'v) step" where
  "on_frame i epoch lines a =
     (if epoch \<noteq> a_panels_epoch a then (False, a, [])
      else case nth_opt (a_panels a) i of
        None \<Rightarrow> (False, a, [])
      | Some p \<Rightarrow>
          (let p = p\<lparr>pn_last_frame := Some lines\<rparr>
           in if pn_mode p = MMonitor
              then (True, with_panel i (\<lambda>_. show_last_frame (a_palette a) p) a, [])
              else (False, with_panel i (\<lambda>_. p) a, [])))"

definition on_status :: "nat \<Rightarrow> u64 \<Rightarrow> rstring \<Rightarrow> ('o, 'v) app \<Rightarrow> ('o, 'v) step" where
  "on_status i g txt a =
     (if accepts a i g then
        (True,
         with_panel i (\<lambda>p. if pn_mode p = MUpgrade
                           then p\<lparr>pn_last_upgrade := ring_push txt (pn_last_upgrade p)\<rparr>
                           else show_body [txt] p) a, [])
      else (False, a, []))"

definition on_fetch_data ::
  "nat \<Rightarrow> u64 \<Rightarrow> fetch_snapshot \<Rightarrow> rstring list \<Rightarrow> ('o, 'v) app \<Rightarrow> ('o, 'v) step" where
  "on_fetch_data i g snap lines a =
     (if accepts a i g
      then (True, with_panel i (\<lambda>p. show_frame lines (p\<lparr>pn_last_fetch := Some snap\<rparr>)) a, [])
      else (False, a, []))"

definition on_ops :: "('o, 'v) ui \<Rightarrow> nat \<Rightarrow> u64 \<Rightarrow> 'o ops_state \<Rightarrow> dims \<Rightarrow> ('o, 'v) app \<Rightarrow> ('o, 'v) step" where
  "on_ops ui i g st dm a =
     (if \<not> accepts a i g then (False, a, [])
      else (True,
            with_panel i (\<lambda>p. let p = p\<lparr>pn_last_ops := Some st\<rparr>
                              in if pn_mode p = MOps then show_frame (ui_ops ui p dm (a_palette a)) p
                                 else p) a, []))"

definition on_aux_begin :: "nat \<Rightarrow> u64 \<Rightarrow> rstring option \<Rightarrow> ('o, 'v) app \<Rightarrow> ('o, 'v) step" where
  "on_aux_begin i g header a =
     (if accepts a i g then
        (if pn_mode (a_panels a ! i) = MUpgrade then (False, a, [])
         else (True, with_panel i (show_body (case header of None \<Rightarrow> [] | Some h \<Rightarrow> [h])) a, []))
      else (False, a, []))"

text \<open>Whether a run's output belongs to the panel's upgrade.\<close>

definition belongs :: "u64 \<Rightarrow> 'o panel \<Rightarrow> bool" where
  "belongs g p \<longleftrightarrow> pn_upgrade_state p = UStarted \<and> pn_upgrade_gen p = g"

text \<open>The rows below a repainted one, blanked from the write downwards.\<close>

fun blank_below :: "nat \<Rightarrow> nat \<Rightarrow> nat \<Rightarrow> rstring ring_lines \<Rightarrow> rstring ring_lines" where
  "blank_below 0 row from_newest r = r"
| "blank_below (Suc n) row from_newest r =
     (if from_newest < row then r
      else blank_below n (row + 1) from_newest (overwrite_from_end (from_newest - row) [] r))"

definition log_repaint :: "rstring \<Rightarrow> nat \<Rightarrow> nat \<Rightarrow> rstring ring_lines \<Rightarrow> rstring ring_lines" where
  "log_repaint line back erase_below r =
     (if back = 0 \<or> length (slots r) < back then ring_push line r
      else let from_newest = back - 1
           in blank_below erase_below 1 from_newest (overwrite_from_end from_newest line r))"

definition on_aux_repaint ::
  "nat \<Rightarrow> u64 \<Rightarrow> rstring \<Rightarrow> nat \<Rightarrow> nat \<Rightarrow> ('o, 'v) app \<Rightarrow> ('o, 'v) step" where
  "on_aux_repaint i g line back erase_below a =
     (case nth_opt (a_panels a) i of
        None \<Rightarrow> (False, a, [])
      | Some p \<Rightarrow>
          if \<not> belongs g p then (False, a, [])
          else (pn_mode p = MUpgrade,
                with_panel i (\<lambda>p. p\<lparr>pn_last_upgrade :=
                                     log_repaint line back erase_below (pn_last_upgrade p)\<rparr>) a, []))"

definition on_aux_status :: "nat \<Rightarrow> u64 \<Rightarrow> rstring option \<Rightarrow> ('o, 'v) app \<Rightarrow> ('o, 'v) step" where
  "on_aux_status i g st a =
     (case nth_opt (a_panels a) i of
        None \<Rightarrow> (False, a, [])
      | Some p \<Rightarrow>
          if belongs g p then
            (pn_mode p = MUpgrade,
             with_panel i (\<lambda>p. p\<lparr>pn_upgrade_status := map_option (Pair g) st\<rparr>) a, [])
          else if pn_gen p = g then
            (True, with_panel i (\<lambda>p. p\<lparr>pn_view_status := map_option (Pair g) st\<rparr>) a, [])
          else (False, a, []))"

definition on_aux_line :: "nat \<Rightarrow> u64 \<Rightarrow> rstring \<Rightarrow> ('o, 'v) app \<Rightarrow> ('o, 'v) step" where
  "on_aux_line i g line a =
     (case nth_opt (a_panels a) i of
        None \<Rightarrow> (False, a, [])
      | Some p \<Rightarrow>
          (let visible = (if belongs g p then pn_mode p = MUpgrade else pn_gen p = g)
           in if belongs g p then
                (visible, with_panel i (\<lambda>p. p\<lparr>pn_last_upgrade := ring_push line (pn_last_upgrade p)\<rparr>) a, [])
              else if pn_gen p = g then
                (visible, with_panel i (\<lambda>p. p\<lparr>pn_view := push_capped line (a_history_lines a) (pn_view p)\<rparr>) a, [])
              else (visible, a, [])))"

text \<open>The end of the panel's upgrade: its outcome recorded, told and saved.\<close>

definition finish_upgrade ::
  "('o, 'v) ui \<Rightarrow> u64 \<Rightarrow> nat \<Rightarrow> bool \<Rightarrow> ('o, 'v) app \<Rightarrow> ('o, 'v) app \<times> effect list" where
  "finish_upgrade ui now i success a =
     (let a = with_panel i (\<lambda>p. p\<lparr>pn_upgrade_state := UDone\<rparr>) a;
          server = pn_server (a_panels a ! i);
          entry = (case a_host_updates a (account server) of Some h \<Rightarrow> h | None \<Rightarrow> host_update_default);
          entry = entry\<lparr>hu_finished_at := Some now, hu_success := success\<rparr>;
          a = a\<lparr>a_host_updates := (a_host_updates a)(account server \<mapsto> entry)\<rparr>;
          notice = (if a_alert_targets a = [] then []
                    else [UpgradeNotice server success (duration_secs entry)]);
          a = (if success \<and> \<not> upgrades_in_flight a
               then a\<lparr>a_last_update := Some now, a_started_at := None\<rparr> else a);
          a = (if \<not> upgrades_in_flight a then a\<lparr>a_quit_armed := False\<rparr> else a);
          (a, saved) = persist_state ui a
      in (a, notice @ saved))"

definition on_aux_done ::
  "('o, 'v) ui \<Rightarrow> u64 \<Rightarrow> nat \<Rightarrow> u64 \<Rightarrow> rstring option \<Rightarrow> bool \<Rightarrow> ('o, 'v) app \<Rightarrow> ('o, 'v) step" where
  "on_aux_done ui now i g txt success a =
     (case nth_opt (a_panels a) i of
        None \<Rightarrow> (False, a, [])
      | Some p \<Rightarrow>
          if \<not> accepts a i g \<and> \<not> belongs g p then (False, a, [])
          else
            (let (a, effects) = (if belongs g p then finish_upgrade ui now i success a else (a, []));
                 a = (case txt of
                        None \<Rightarrow> a
                      | Some t \<Rightarrow>
                          if belongs g p
                          then with_panel i (\<lambda>p. p\<lparr>pn_last_upgrade := ring_push t (pn_last_upgrade p)\<rparr>) a
                          else if pn_gen p = g
                          then with_panel i (\<lambda>p. p\<lparr>pn_view := push_capped t (a_history_lines a) (pn_view p)\<rparr>) a
                          else a)
             in (True, a, effects)))"

definition on_credential_loaded ::
  "nat \<Rightarrow> u64 \<Rightarrow> (rstring option, rstring) result \<Rightarrow> ('o, 'v) app \<Rightarrow> ('o, 'v) step" where
  "on_credential_loaded i epoch r a =
     (if epoch \<noteq> a_panels_epoch a then (False, a, [])
      else case nth_opt (a_panels a) i of
        None \<Rightarrow> (False, a, [])
      | Some p \<Rightarrow> (True, with_panel i (answer_credential_load r) a, []))"

definition on_upgradable_received :: "nat \<Rightarrow> u64 \<Rightarrow> rstring \<Rightarrow> ('o, 'v) app \<Rightarrow> ('o, 'v) step" where
  "on_upgradable_received i g summary a =
     (case nth_opt (a_panels a) i of
        None \<Rightarrow> (False, a, [])
      | Some p \<Rightarrow>
          if pn_gen p = g
          then (True, with_panel i (\<lambda>p. p\<lparr>pn_upgradable := Some summary\<rparr>) a, [])
          else (False, a, []))"

end
