(* ===== verification/App_Views.thy ===== *)
theory App_Views
  imports App_Model
begin

text \<open>
  The view operations of the application (crates/multitop/src/app/views.rs, app/render.rs,
  app/ops_view.rs): which panels are shown, the switches between views and the tasks they ask
  for, scrolling, quitting, and the replacement of the panel list.
\<close>

definition USIZE_MAX :: nat where "USIZE_MAX = 2 ^ 64 - 1"

definition sat_add :: "nat \<Rightarrow> nat \<Rightarrow> nat" where "sat_add a b = min (a + b) USIZE_MAX"

definition SCROLL_TOP :: nat where "SCROLL_TOP = USIZE_MAX"

section \<open>A new application, and a new panel list\<close>

definition app_new :: "('o, 'v) ui \<Rightarrow> palette \<Rightarrow> server list \<Rightarrow> ('o, 'v) app" where
  "app_new ui pal servers =
     \<lparr>a_panels = map (panel_new pal (ui_history ui)) servers, a_selected = 0, a_mode = Running,
      a_sort = SortCpu, a_palette = pal, a_config_path = None, a_filter_query = [],
      a_history_lines = DEFAULT_UPGRADE_HISTORY_LINES, a_manager = None, a_last_update = None,
      a_started_at = None, a_vault = None, a_vault_state = VLocked, a_vault_input = [],
      a_vault_epoch = 0, a_host_updates = Map.empty, a_should_quit = False, a_quit_armed = False,
      a_panels_epoch = 0, a_overlay = NoOverlay, a_focused = None, a_graph_zoom = 1,
      a_alerts = default_alerts, a_alert_targets = [], a_saved_filters = [],
      a_kill_confirm = None, a_theme_idx = 0, a_banner = Plain, a_command_input = []\<rparr>"

definition next_gen :: "('o, 'v) app \<Rightarrow> u64" where
  "next_gen a = (case map pn_gen (a_panels a) of [] \<Rightarrow> 0 | g # gs \<Rightarrow> fold max gs g) + 1"

definition carry_credential :: "'o panel list \<Rightarrow> 'o panel \<Rightarrow> 'o panel" where
  "carry_credential olds p =
     (case find (\<lambda>old. account (pn_server old) = account (pn_server p)) olds of
        None \<Rightarrow> p
      | Some old \<Rightarrow>
          p\<lparr>pn_sudo_password := pn_sudo_password old, pn_password_saved := pn_password_saved old,
            pn_external_password := pn_external_password old, pn_lookup := pn_lookup old\<rparr>)"

definition replace_panels :: "('o, 'v) ui \<Rightarrow> server list \<Rightarrow> ('o, 'v) app \<Rightarrow> ('o, 'v) app" where
  "replace_panels ui servers a =
     (let a = a\<lparr>a_panels_epoch := a_panels_epoch a + 1\<rparr>;
          g = next_gen a;
          panels = map (\<lambda>s.
            let p = panel_new (a_palette a) (ui_history ui) s;
                p = p\<lparr>pn_gen := g\<rparr>;
                p = p\<lparr>pn_last_upgrade := ring_set_cap (a_history_lines a) (pn_last_upgrade p)\<rparr>
            in carry_credential (a_panels a) p) servers
      in a\<lparr>a_panels := panels, a_selected := min (a_selected a) (length panels - 1)\<rparr>)"

section \<open>Which panels are shown\<close>

text \<open>\<open>eq_ignore_ascii_case\<close>\<close>

definition ascii_lower :: "u8 \<Rightarrow> u8" where
  "ascii_lower b = (if 0x41 \<le> b \<and> b \<le> 0x5A then b + 32 else b)"

definition vault_locked :: "('o, 'v) app \<Rightarrow> bool" where
  "vault_locked a = (a_vault a \<noteq> None \<and> (case a_vault_state a of VLocked \<Rightarrow> True | _ \<Rightarrow> False))"

definition indices_where :: "('a \<Rightarrow> bool) \<Rightarrow> 'a list \<Rightarrow> nat list" where
  "indices_where f xs = filter (\<lambda>i. f (xs ! i)) [0..<length xs]"

definition breaching_panel :: "('o, 'v) app \<Rightarrow> 'o panel \<Rightarrow> bool" where
  "breaching_panel a p =
     (case pn_last_monitor p of
        Some (Monitor snap) \<Rightarrow> is_breaching_with_vault snap (a_alerts a) (vault_locked a)
      | _ \<Rightarrow> False)"

definition filtered_indices :: "('o, 'v) ui \<Rightarrow> ('o, 'v) app \<Rightarrow> nat list" where
  "filtered_indices ui a =
     (case a_focused a of
        Some f \<Rightarrow> if f < length (a_panels a) then [f] else
          if map ascii_lower (trim (a_filter_query a)) = lit ''unhealthy''
          then indices_where (breaching_panel a) (a_panels a)
          else indices_where (matches_filter (ui_text ui) (ui_terms ui) (a_filter_query a)) (a_panels a)
      | None \<Rightarrow>
          if map ascii_lower (trim (a_filter_query a)) = lit ''unhealthy''
          then indices_where (breaching_panel a) (a_panels a)
          else indices_where (matches_filter (ui_text ui) (ui_terms ui) (a_filter_query a)) (a_panels a))"

definition visible_panes :: "('o, 'v) ui \<Rightarrow> ('o, 'v) app \<Rightarrow> nat" where
  "visible_panes ui a = length (filtered_indices ui a)"

definition upgrade_skip_hosts :: "('o, 'v) ui \<Rightarrow> ('o, 'v) app \<Rightarrow> rstring list" where
  "upgrade_skip_hosts ui a =
     map (\<lambda>i. sv_host (pn_server (a_panels a ! i)))
       (filter (\<lambda>i. sv_upgrade_cmd (pn_server (a_panels a ! i)) = None) (filtered_indices ui a))"

definition set_filtering :: "bool \<Rightarrow> ('o, 'v) app \<Rightarrow> ('o, 'v) app" where
  "set_filtering b a =
     (if b then a\<lparr>a_mode := Filtering\<rparr>
      else if a_mode a = Filtering then a\<lparr>a_mode := Running\<rparr> else a)"

definition toggle_focus :: "('o, 'v) app \<Rightarrow> ('o, 'v) app" where
  "toggle_focus a =
     (case a_focused a of
        Some f \<Rightarrow> a\<lparr>a_selected := f, a_focused := None\<rparr>
      | None \<Rightarrow> a\<lparr>a_focused := Some (a_selected a)\<rparr>)"

section \<open>Switching views\<close>

definition bump :: "nat \<Rightarrow> ('o, 'v) app \<Rightarrow> u64 \<times> ('o, 'v) app" where
  "bump i a =
     (let a = with_panel i (\<lambda>p. p\<lparr>pn_gen := pn_gen p + 1\<rparr>) a
      in (pn_gen (a_panels a ! i), a))"

definition in_mode :: "mode \<Rightarrow> ('o, 'v) app \<Rightarrow> bool" where
  "in_mode m a = list_ex (\<lambda>p. pn_mode p = m) (a_panels a)"

definition leave_current_view :: "('o, 'v) app \<Rightarrow> ('o, 'v) app" where
  "leave_current_view =
     all_panels (\<lambda>p.
       let p = (if pn_mode p = MUpgrade then p\<lparr>pn_upgrade_scroll_offset := pn_scroll_offset p\<rparr> else p)
       in p\<lparr>pn_scroll_offset := 0\<rparr>)"

definition reset_scroll :: "('o, 'v) app \<Rightarrow> ('o, 'v) app" where
  "reset_scroll = all_panels (\<lambda>p. p\<lparr>pn_scroll_offset := 0, pn_upgrade_scroll_offset := 0\<rparr>)"

text \<open>The generation a switch leaves a panel with: a panel in the middle of an upgrade keeps
  its own, or its run's output would be discarded.\<close>

definition bump_unless_started :: "'o panel \<Rightarrow> 'o panel" where
  "bump_unless_started p =
     (if pn_upgrade_state p \<noteq> UStarted then p\<lparr>pn_gen := pn_gen p + 1\<rparr> else p)"

definition alert_config_of :: "('o, 'v) app \<Rightarrow> alert_config" where
  "alert_config_of a = \<lparr>ac_alerts = a_alerts a, ac_vault_locked = vault_locked a\<rparr>"

definition toggle_alerts :: "('o, 'v) ui \<Rightarrow> dims \<Rightarrow> ('o, 'v) app \<Rightarrow> ('o, 'v) app \<times> command list" where
  "toggle_alerts ui dm a =
     (if in_mode MAlerts a then (a, [])
      else let a = leave_current_view a
           in (all_panels (\<lambda>p.
                 let p = (bump_unless_started p)\<lparr>pn_mode := MAlerts\<rparr>
                 in show_frame (ui_alerts ui (pn_history p) dm (a_palette a) (alert_config_of a)) p) a, []))"

definition toggle_graphs :: "('o, 'v) ui \<Rightarrow> dims \<Rightarrow> ('o, 'v) app \<Rightarrow> ('o, 'v) app \<times> command list" where
  "toggle_graphs ui dm a =
     (if in_mode MGraphs a then (a, [])
      else let a = leave_current_view a
           in (all_panels (\<lambda>p.
                 let p = (bump_unless_started p)\<lparr>pn_mode := MGraphs\<rparr>
                 in show_frame (ui_graphs ui (pn_history p) dm (a_palette a) (a_graph_zoom a)) p) a, []))"

definition loading_line :: "palette \<Rightarrow> rstring \<Rightarrow> rstring" where
  "loading_line pal txt = pal_meter_mid pal @ RIGHT_ARROW @ txt @ pal_reset pal"

definition enter_fetch :: "('o, 'v) ui \<Rightarrow> dims \<Rightarrow> palette \<Rightarrow> 'o panel \<Rightarrow> 'o panel" where
  "enter_fetch ui dm pal p =
     (let p = p\<lparr>pn_gen := pn_gen p + 1, pn_mode := MFetch\<rparr>
      in case pn_last_fetch p of
           Some snap \<Rightarrow> show_frame (ui_fetch ui snap dm pal) p
         | None \<Rightarrow> show_body [loading_line pal (lit '' Fetching system info...'')] p)"

definition enter_docker :: "('o, 'v) ui \<Rightarrow> dims \<Rightarrow> sort_by \<Rightarrow> palette \<Rightarrow> 'o panel \<Rightarrow> 'o panel" where
  "enter_docker ui dm srt pal p =
     (let p = p\<lparr>pn_gen := pn_gen p + 1, pn_mode := MDocker\<rparr>
      in case pn_last_docker p of
           Some pl \<Rightarrow> show_frame (ui_payload ui pl dm srt pal) p
         | None \<Rightarrow> show_body [loading_line pal (lit '' Docker loading...'')] p)"

definition toggle_fetch :: "('o, 'v) ui \<Rightarrow> dims \<Rightarrow> ('o, 'v) app \<Rightarrow> ('o, 'v) app \<times> command list" where
  "toggle_fetch ui dm a =
     (if in_mode MFetch a then (a, [])
      else let a = leave_current_view a;
               a = all_panels (enter_fetch ui dm (a_palette a)) a
           in (a, map (\<lambda>(i, p). RunFetch i (pn_gen p)) (List.enumerate 0 (a_panels a))))"

definition toggle_docker :: "('o, 'v) ui \<Rightarrow> dims \<Rightarrow> ('o, 'v) app \<Rightarrow> ('o, 'v) app \<times> command list" where
  "toggle_docker ui dm a =
     (if in_mode MDocker a then (a, [])
      else let a = leave_current_view a;
               a = all_panels (enter_docker ui dm (a_sort a) (a_palette a)) a
           in (a, map (\<lambda>(i, p). RunDocker i (pn_gen p)) (List.enumerate 0 (a_panels a))))"

text \<open>\<open>Source::of\<close> answers for a host with an \<open>mcp\<close> command and for this machine; \<open>local\<close> says
  which hosts are this machine.\<close>

definition has_source :: "(server \<Rightarrow> bool) \<Rightarrow> server \<Rightarrow> bool" where
  "has_source local s \<longleftrightarrow> sv_mcp s \<noteq> None \<or> local s"

definition toggle_ops ::
  "('o, 'v) ui \<Rightarrow> (server \<Rightarrow> bool) \<Rightarrow> dims \<Rightarrow> ('o, 'v) app \<Rightarrow> ('o, 'v) app \<times> command list" where
  "toggle_ops ui local dm a =
     (if in_mode MOps a then (a, [])
      else let a = leave_current_view a;
               a = all_panels (\<lambda>p. let p = (bump_unless_started p)\<lparr>pn_mode := MOps\<rparr>
                                   in show_frame (ui_ops ui p dm (a_palette a)) p) a
           in (a, map (\<lambda>(i, p). RunOps i (pn_gen p))
                    (filter (\<lambda>(i, p). has_source local (pn_server p)) (List.enumerate 0 (a_panels a)))))"

definition switch_stats :: "('o, 'v) app \<Rightarrow> ('o, 'v) app \<times> command list" where
  "switch_stats a =
     (let a = leave_current_view a
      in (all_panels (\<lambda>p. show_last_frame (a_palette a) ((bump_unless_started p)\<lparr>pn_mode := MMonitor\<rparr>)) a, []))"

definition rerender :: "('o, 'v) ui \<Rightarrow> dims \<Rightarrow> ('o, 'v) app \<Rightarrow> 'o panel \<Rightarrow> 'o panel" where
  "rerender ui dm a p =
     (case pn_mode p of
        MMonitor \<Rightarrow> (case pn_last_monitor p of
                       Some pl \<Rightarrow> show_frame (ui_payload ui pl dm (a_sort a) (a_palette a)) p
                     | None \<Rightarrow> p)
      | MAlerts \<Rightarrow> show_frame (ui_alerts ui (pn_history p) dm (a_palette a) (alert_config_of a)) p
      | MGraphs \<Rightarrow> show_frame (ui_graphs ui (pn_history p) dm (a_palette a) (a_graph_zoom a)) p
      | MDocker \<Rightarrow> (case pn_last_docker p of
                      Some pl \<Rightarrow> show_frame (ui_payload ui pl dm (a_sort a) (a_palette a)) p
                    | None \<Rightarrow> p)
      | MFetch \<Rightarrow> (case pn_last_fetch p of
                     Some snap \<Rightarrow> show_frame (ui_fetch ui snap dm (a_palette a)) p
                   | None \<Rightarrow> p)
      | MOps \<Rightarrow> show_frame (ui_ops ui p dm (a_palette a)) p
      | MUpgrade \<Rightarrow> p)"

definition rerender_all :: "('o, 'v) ui \<Rightarrow> dims \<Rightarrow> ('o, 'v) app \<Rightarrow> ('o, 'v) app" where
  "rerender_all ui dm a = all_panels (rerender ui dm a) a"

definition THEMES_LEN :: nat where "THEMES_LEN = 8"

text \<open>\<open>ui_theme\<close> adapts a theme to the terminal's background.\<close>

definition rebuild_palette_view :: "('o, 'v) ui \<Rightarrow> ('o, 'v) app \<Rightarrow> ('o, 'v) app" where
  "rebuild_palette_view ui a =
     (let a = a\<lparr>a_palette := ui_theme ui (a_theme_idx a)\<rparr>
      in all_panels (restyle_placeholder (a_palette a)) a)"

definition cycle_theme :: "('o, 'v) ui \<Rightarrow> ('o, 'v) app \<Rightarrow> ('o, 'v) app" where
  "cycle_theme ui a =
     rebuild_palette_view ui (a\<lparr>a_theme_idx := (a_theme_idx a + 1) mod THEMES_LEN\<rparr>)"

fun banner_next :: "banner_style \<Rightarrow> banner_style" where
  "banner_next Plain = Wide"
| "banner_next Wide = Plain"

fun banner_label :: "banner_style \<Rightarrow> rstring" where
  "banner_label Plain = lit ''Plain''"
| "banner_label Wide = lit ''Wide''"

section \<open>Scrolling\<close>

definition scroll_by :: "(nat \<Rightarrow> nat) \<Rightarrow> nat \<Rightarrow> ('o, 'v) app \<Rightarrow> ('o, 'v) app" where
  "scroll_by f i a =
     (if i < length (a_panels a)
      then with_panel i (\<lambda>p. p\<lparr>pn_scroll_offset := f (pn_scroll_offset p)\<rparr>) a else a)"

definition scroll_panel_up :: "nat \<Rightarrow> nat \<Rightarrow> ('o, 'v) app \<Rightarrow> ('o, 'v) app" where
  "scroll_panel_up i d = scroll_by (\<lambda>n. sat_add n d) i"

definition scroll_panel_down :: "nat \<Rightarrow> nat \<Rightarrow> ('o, 'v) app \<Rightarrow> ('o, 'v) app" where
  "scroll_panel_down i d = scroll_by (\<lambda>n. n - d) i"

definition scroll_up :: "nat \<Rightarrow> ('o, 'v) app \<Rightarrow> ('o, 'v) app" where
  "scroll_up d a = scroll_by (\<lambda>n. sat_add n d) (a_selected a) a"

definition scroll_down :: "nat \<Rightarrow> ('o, 'v) app \<Rightarrow> ('o, 'v) app" where
  "scroll_down d a = scroll_by (\<lambda>n. n - d) (a_selected a) a"

definition scroll_to_top :: "('o, 'v) app \<Rightarrow> ('o, 'v) app" where
  "scroll_to_top a = scroll_by (\<lambda>_. SCROLL_TOP) (a_selected a) a"

definition scroll_to_bottom :: "('o, 'v) app \<Rightarrow> ('o, 'v) app" where
  "scroll_to_bottom a = scroll_by (\<lambda>_. 0) (a_selected a) a"

section \<open>Quitting\<close>

definition active_confirm :: "('o, 'v) app \<Rightarrow> confirm option" where
  "active_confirm a =
     (if a_quit_armed a then Some ConfirmQuit
      else if a_kill_confirm a \<noteq> None then Some ConfirmKill
      else if a_mode a = ShowUpgradeModal then Some ConfirmUpgrade
      else None)"

definition quit :: "('o, 'v) app \<Rightarrow> ('o, 'v) app" where
  "quit a = a\<lparr>a_should_quit := True\<rparr>"

definition cancel_quit :: "('o, 'v) app \<Rightarrow> ('o, 'v) app" where
  "cancel_quit a = a\<lparr>a_quit_armed := False\<rparr>"

definition request_quit :: "('o, 'v) app \<Rightarrow> ('o, 'v) app" where
  "request_quit a =
     (if a_quit_armed a then a\<lparr>a_quit_armed := False, a_should_quit := True\<rparr>
      else if upgrades_in_flight a then a\<lparr>a_quit_armed := True\<rparr>
      else a\<lparr>a_should_quit := True\<rparr>)"

definition previous_upgrade_interrupted :: "('o, 'v) app \<Rightarrow> bool" where
  "previous_upgrade_interrupted a =
     (case a_started_at a of
        None \<Rightarrow> False
      | Some started \<Rightarrow> (case a_last_update a of None \<Rightarrow> True | Some l \<Rightarrow> l < started))"

definition running_upgrade_hosts :: "('o, 'v) app \<Rightarrow> rstring list" where
  "running_upgrade_hosts a =
     map (\<lambda>p. sv_host (pn_server p)) (filter (\<lambda>p. pn_upgrade_state p = UStarted) (a_panels a))"

section \<open>Lemmas\<close>

lemma indices_where_props:
  "sorted_wrt (<) (indices_where f xs)"
  "i \<in> set (indices_where f xs) \<longleftrightarrow> i < length xs \<and> f (xs ! i)"
  by (auto simp: indices_where_def sorted_wrt_filter)

lemma filtered_indices_props:
  "sorted_wrt (<) (filtered_indices ui a)"
  "i \<in> set (filtered_indices ui a) \<Longrightarrow> i < length (a_panels a)"
  by (auto simp: filtered_indices_def indices_where_props split: option.splits if_splits)

lemma filtered_indices_distinct: "distinct (filtered_indices ui a)"
  using filtered_indices_props(1) [of ui a] by (simp add: strict_sorted_iff)

lemma all_panels_simps [simp]:
  "a_panels (all_panels f a) = map f (a_panels a)"
  "a_palette (all_panels f a) = a_palette a"
  "a_panels_epoch (all_panels f a) = a_panels_epoch a"
  "a_host_updates (all_panels f a) = a_host_updates a"
  "a_quit_armed (all_panels f a) = a_quit_armed a"
  "a_should_quit (all_panels f a) = a_should_quit a"
  "a_mode (all_panels f a) = a_mode a"
  "a_sort (all_panels f a) = a_sort a"
  by (simp_all add: all_panels_def)

lemma with_panel_simps [simp]:
  "a_panels (with_panel i f a) = (a_panels a)[i := f (a_panels a ! i)]"
  "a_palette (with_panel i f a) = a_palette a"
  "a_panels_epoch (with_panel i f a) = a_panels_epoch a"
  "a_host_updates (with_panel i f a) = a_host_updates a"
  "a_history_lines (with_panel i f a) = a_history_lines a"
  "a_alert_targets (with_panel i f a) = a_alert_targets a"
  "a_mode (with_panel i f a) = a_mode a"
  "a_quit_armed (with_panel i f a) = a_quit_armed a"
  by (simp_all add: with_panel_def)

end
