(* ===== verification/App_Upgrade.thy ===== *)
theory App_Upgrade
  imports App_Views
begin

text \<open>
  Upgrades as the application sees them (crates/multitop/src/app/upgrade.rs, vault.rs): entering
  the Upgrade view and loading the passwords it reports on, the confirmed start of a run on
  every shown host, and the record of each host's last run that state.toml keeps.
\<close>

section \<open>Credentials\<close>

datatype credential = Checking | Stored | Session | Missing | CredVaultLocked | MissingNoVault

definition credential_of :: "('o, 'v) app \<Rightarrow> 'o panel \<Rightarrow> credential" where
  "credential_of a p =
     (if in_flight (pn_lookup p) then Checking
      else if pn_external_password p \<or> pn_password_saved p then Stored
      else if pn_sudo_password p \<noteq> None then Session
      else if a_vault a \<noteq> None then
        (case a_vault_state a of VUnlocked _ _ \<Rightarrow> Missing | _ \<Rightarrow> CredVaultLocked)
      else MissingNoVault)"

definition try_load_vault_password :: "('o, 'v) ui \<Rightarrow> 'v \<Rightarrow> 'o panel \<Rightarrow> 'o panel" where
  "try_load_vault_password ui v p =
     (if pn_sudo_password p \<noteq> None then p
      else case ui_vault_get ui v (account (pn_server p)) of
             Some pass \<Rightarrow> set_sudo_password pass True p
           | None \<Rightarrow> (case ui_store_load ui (pn_server p) of
                        Ok (Some pass) \<Rightarrow> set_sudo_password pass True p
                      | _ \<Rightarrow> p))"

definition load_known_passwords ::
  "('o, 'v) ui \<Rightarrow> ('o, 'v) app \<Rightarrow> ('o, 'v) app \<times> (nat \<times> server) list" where
  "load_known_passwords ui a =
     (let a = (case a_vault_state a of
                 VUnlocked v _ \<Rightarrow> all_panels (try_load_vault_password ui v) a
               | _ \<Rightarrow> a)
      in (a, map (\<lambda>(i, p). (i, pn_server p))
               (filter (\<lambda>(i, p). a_vault a = None \<and> needs_credential_load p)
                 (List.enumerate 0 (a_panels a)))))"

text \<open>Each lookup is marked before it starts. Without a runtime (\<open>direct\<close>) it is answered in
  place; otherwise a worker is asked, stamped with the epoch of the panel list.\<close>

fun dispatch_credential_loads ::
  "('o, 'v) ui \<Rightarrow> bool \<Rightarrow> (nat \<times> server) list \<Rightarrow> ('o, 'v) app \<Rightarrow> ('o, 'v) app \<times> effect list" where
  "dispatch_credential_loads ui direct [] a = (a, [])"
| "dispatch_credential_loads ui direct ((i, s) # loads) a =
     (if i < length (a_panels a) then
        (let a = with_panel i mark_credential_load_dispatched a;
             a = (if direct then with_panel i (answer_credential_load (ui_store_load ui s)) a else a);
             (a, effects) = dispatch_credential_loads ui direct loads a
         in (a, if direct then effects else StoreLookup i (a_panels_epoch a) s # effects))
      else dispatch_credential_loads ui direct loads a)"

definition any_password_checking :: "('o, 'v) app \<Rightarrow> bool" where
  "any_password_checking a = list_ex (\<lambda>p. in_flight (pn_lookup p)) (a_panels a)"

section \<open>The Upgrade view\<close>

definition enter_upgrade_view ::
  "('o, 'v) ui \<Rightarrow> ('o, 'v) app \<Rightarrow> ('o, 'v) app \<times> (nat \<times> server) list" where
  "enter_upgrade_view ui a =
     (let (a, loads) = load_known_passwords ui a
      in (all_panels (\<lambda>p. p\<lparr>pn_scroll_offset := pn_upgrade_scroll_offset p, pn_mode := MUpgrade\<rparr>) a, loads))"

definition nothing_note :: "palette \<Rightarrow> rstring" where
  "nothing_note pal =
     pal_meter_high pal @ WARNING_SIGN @ lit '' No host has an upgrade_cmd '' @ EM_DASH
       @ lit '' nothing to run.'' @ pal_reset pal"

definition note_nothing_to_upgrade :: "('o, 'v) app \<Rightarrow> ('o, 'v) app" where
  "note_nothing_to_upgrade a =
     all_panels (\<lambda>p.
       if ring_last (pn_last_upgrade p) = Some (nothing_note (a_palette a)) then p
       else p\<lparr>pn_last_upgrade := ring_push (nothing_note (a_palette a)) (pn_last_upgrade p)\<rparr>) a"

section \<open>Starting a run\<close>

definition skip_note :: "palette \<Rightarrow> server \<Rightarrow> rstring" where
  "skip_note pal s =
     pal_meter_high pal @ lit ''No upgrade_cmd configured for '' @ sv_host s @ lit '' '' @ EM_DASH
       @ lit '' skipped'' @ pal_reset pal"

text \<open>One shown panel: its command starts, under a new generation and on an empty log, or it
  says that it has none.\<close>

definition start_panel :: "palette \<Rightarrow> 'o panel \<Rightarrow> 'o panel" where
  "start_panel pal p =
     (let p = p\<lparr>pn_gen := pn_gen p + 1\<rparr>;
          p = p\<lparr>pn_mode := MUpgrade\<rparr>
      in if sv_upgrade_cmd (pn_server p) \<noteq> None
         then p\<lparr>pn_upgrade_state := UStarted, pn_upgrade_gen := pn_gen p,
                pn_last_upgrade := ring_clear (pn_last_upgrade p)\<rparr>
         else p\<lparr>pn_upgrade_state := UDone, pn_upgrade_gen := pn_gen p,
                pn_last_upgrade :=
                  replace_with [skip_note pal (pn_server p)] (pn_last_upgrade p)\<rparr>)"

fun start_panels :: "nat list \<Rightarrow> ('o, 'v) app \<Rightarrow> ('o, 'v) app \<times> command list" where
  "start_panels [] a = (a, [])"
| "start_panels (i # is) a =
     (let a = with_panel i (start_panel (a_palette a)) a;
          p = a_panels a ! i;
          (a, cmds) = start_panels is a
      in (a, if sv_upgrade_cmd (pn_server p) \<noteq> None then RunUpgrade i (pn_gen p) # cmds else cmds))"

definition run_upgrade :: "('o, 'v) ui \<Rightarrow> ('o, 'v) app \<Rightarrow> ('o, 'v) app \<times> command list" where
  "run_upgrade ui a =
     (let a = reset_scroll a;
          (a, _) = load_known_passwords ui a
      in start_panels (filtered_indices ui a) a)"

definition mark_started :: "u64 \<Rightarrow> ('o, 'v) app \<Rightarrow> nat \<Rightarrow> (rstring \<Rightarrow> host_update option) \<Rightarrow> rstring \<Rightarrow> host_update option" where
  "mark_started now a i m =
     (case nth_opt (a_panels a) i of
        None \<Rightarrow> m
      | Some p \<Rightarrow>
          if sv_upgrade_cmd (pn_server p) = None then m
          else m(account (pn_server p) \<mapsto>
                   \<lparr>hu_started_at = Some now, hu_finished_at = None, hu_success = False\<rparr>))"

definition mark_upgrades_started ::
  "('o, 'v) ui \<Rightarrow> u64 \<Rightarrow> nat list \<Rightarrow> ('o, 'v) app \<Rightarrow> ('o, 'v) app \<times> effect list" where
  "mark_upgrades_started ui now panels a =
     (let a = a\<lparr>a_started_at := Some now\<rparr>;
          a = a\<lparr>a_host_updates := fold (mark_started now a) panels (a_host_updates a)\<rparr>
      in persist_state ui a)"

definition mark_upgrade_interrupted ::
  "('o, 'v) ui \<Rightarrow> u64 \<Rightarrow> nat \<Rightarrow> ('o, 'v) app \<Rightarrow> ('o, 'v) app \<times> effect list" where
  "mark_upgrade_interrupted ui now i a =
     (case nth_opt (a_panels a) i of
        None \<Rightarrow> (a, [])
      | Some p \<Rightarrow>
          if pn_upgrade_state p \<noteq> UStarted then (a, [])
          else
            (let a = with_panel i (\<lambda>p. p\<lparr>pn_upgrade_state := UDone\<rparr>) a;
                 k = account (pn_server p);
                 entry = (case a_host_updates a k of Some h \<Rightarrow> h | None \<Rightarrow> host_update_default);
                 entry = entry\<lparr>hu_finished_at := Some now, hu_success := False\<rparr>;
                 a = a\<lparr>a_host_updates := (a_host_updates a)(k \<mapsto> entry)\<rparr>
             in persist_state ui a))"

definition host_update_of :: "('o, 'v) app \<Rightarrow> nat \<Rightarrow> host_update" where
  "host_update_of a i =
     (case nth_opt (a_panels a) i of
        None \<Rightarrow> host_update_default
      | Some p \<Rightarrow> (case a_host_updates a (account (pn_server p)) of
                     Some h \<Rightarrow> h | None \<Rightarrow> host_update_default))"

definition upgrade_runnable :: "('o, 'v) ui \<Rightarrow> ('o, 'v) app \<Rightarrow> bool" where
  "upgrade_runnable ui a =
     list_ex (\<lambda>i. sv_upgrade_cmd (pn_server (a_panels a ! i)) \<noteq> None) (filtered_indices ui a)"

definition confirm_upgrade ::
  "('o, 'v) ui \<Rightarrow> u64 \<Rightarrow> ('o, 'v) app \<Rightarrow> ('o, 'v) app \<times> command list \<times> effect list" where
  "confirm_upgrade ui now a =
     (let a = a\<lparr>a_mode := Running\<rparr>;
          runnable = upgrade_runnable ui a;
          (a, cmds) = run_upgrade ui a
      in if runnable
         then (let (a, effects) = mark_upgrades_started ui now (filtered_indices ui a) a
               in (a, cmds, effects))
         else (a, cmds, []))"

section \<open>What a start leaves\<close>

lemma start_panels_panels:
  "a_panels (fst (start_panels is a)) =
     fold (\<lambda>i ps. ps[i := start_panel (a_palette a) (ps ! i)]) is (a_panels a)"
  by (induction "is" arbitrary: a) (simp_all add: Let_def case_prod_beta)

lemma start_panels_rest:
  "a_host_updates (fst (start_panels is a)) = a_host_updates a"
  "a_palette (fst (start_panels is a)) = a_palette a"
  "a_mode (fst (start_panels is a)) = a_mode a"
  "a_focused (fst (start_panels is a)) = a_focused a"
  "a_filter_query (fst (start_panels is a)) = a_filter_query a"
  by (induction "is" arbitrary: a) (simp_all add: Let_def with_panel_def case_prod_beta)

lemma fold_update_nth:
  assumes "distinct is" "j < length xs"
  shows "fold (\<lambda>i ps. ps[i := f (ps ! i)]) is xs ! j =
    (if j \<in> set is then f (xs ! j) else xs ! j)"
  using assms
proof (induction "is" arbitrary: xs)
  case (Cons i "is")
  then show ?case by (cases "i = j") auto
qed simp

lemma fold_update_length: "length (fold (\<lambda>i ps. ps[i := f (ps ! i)]) is xs) = length xs"
  by (induction "is" arbitrary: xs) simp_all

lemma start_panels_nth:
  "distinct is \<Longrightarrow> j < length (a_panels a) \<Longrightarrow>
   a_panels (fst (start_panels is a)) ! j =
     (if j \<in> set is then start_panel (a_palette a) (a_panels a ! j) else a_panels a ! j)"
  by (simp add: start_panels_panels fold_update_nth)

lemma start_panels_length: "length (a_panels (fst (start_panels is a))) = length (a_panels a)"
  by (simp add: start_panels_panels fold_update_length)

lemma start_panels_cmds:
  assumes "distinct is" "\<forall>i \<in> set is. i < length (a_panels a)"
  shows "snd (start_panels is a) =
    map (\<lambda>i. RunUpgrade i (pn_gen (a_panels a ! i) + 1))
      (filter (\<lambda>i. sv_upgrade_cmd (pn_server (a_panels a ! i)) \<noteq> None) is)"
  using assms
proof (induction "is" arbitrary: a)
  case Nil
  show ?case by simp
next
  case (Cons i "is")
  let ?a = "with_panel i (start_panel (a_palette a)) a"
  have same: "j \<in> set is \<Longrightarrow> a_panels ?a ! j = a_panels a ! j" for j
    using Cons.prems(1) by (metis distinct.simps(2) nth_list_update_neq with_panel_simps(1))
  have "snd (start_panels is ?a) =
      map (\<lambda>i. RunUpgrade i (pn_gen (a_panels ?a ! i) + 1))
        (filter (\<lambda>i. sv_upgrade_cmd (pn_server (a_panels ?a ! i)) \<noteq> None) is)"
    using Cons.prems by (intro Cons.IH) simp_all
  also have "\<dots> = map (\<lambda>i. RunUpgrade i (pn_gen (a_panels a ! i) + 1))
        (filter (\<lambda>i. sv_upgrade_cmd (pn_server (a_panels a ! i)) \<noteq> None) is)"
    using same by (simp cong: filter_cong map_cong)
  finally show ?case
    using Cons.prems(2)
    by (simp add: Let_def start_panel_def case_prod_beta)
qed

end
