(* ===== verification/Vault_Header.thy ===== *)
theory Vault_Header
  imports Wire
begin

text \<open>
  The vault file's format (crates/vault/src/format/header.rs, file.rs; crypto/wrapper.rs,
  crypto/mod.rs; the error type of lib.rs): the header a reader needs before it can decrypt
  anything, its wrappers, and the parsing of a file another process may have written. Parsing
  is proved to be the inverse of writing in both directions: a header written reads back, and
  every file that parses is the bytes of its header followed by its ciphertext.
\<close>

section \<open>Errors\<close>

datatype vault_error =
    VaultNotFound rstring
  | VaultAlreadyExists rstring
  | Io rstring
  | Serialization rstring
  | Crypto rstring
  | InvalidFormat rstring
  | UnsupportedVersion u8
  | Corrupted rstring
  | BiometricFailed
  | PlatformNotSupported rstring
  | FprintdError rstring
  | Tpm2Error rstring
  | SecureEnclaveError rstring
  | InvalidWrapperData rstring
  | InvalidWrapperType u8
  | WrapperTooLarge nat
  | TooManyWrappers
  | ParseError rstring
  | BadArgon2Params rstring
  | EncryptionFailed
  | DecryptionFailed
  | InvalidPublicKey
  | SignatureVerificationFailed
  | Argon2Error rstring
  | WrapperError rstring
  | OtherVaultError rstring
  | RateLimited u64
  | RollbackDetected (expected: u32) (actual: u32)

section \<open>Sizes\<close>

definition KEY_LEN :: nat where "KEY_LEN = 32"
definition NONCE_LEN :: nat where "NONCE_LEN = 12"
definition SIGNATURE_LEN :: nat where "SIGNATURE_LEN = 64"
definition MAX_WRAPPER_BYTES :: nat where "MAX_WRAPPER_BYTES = 65535"
definition MAX_WRAPPERS :: nat where "MAX_WRAPPERS = 8"
definition CURRENT_VERSION :: u8 where "CURRENT_VERSION = 2"
definition VAULT_MAGIC :: bytes where "VAULT_MAGIC = [0x4D, 0x51, 0x56, 0x32]"

section \<open>Wrappers\<close>

datatype wrapper_type = SecureEnclave | Tpm2 | Argon2id

fun wrapper_type_u8 :: "wrapper_type \<Rightarrow> u8" where
  "wrapper_type_u8 SecureEnclave = 1"
| "wrapper_type_u8 Tpm2 = 2"
| "wrapper_type_u8 Argon2id = 3"

definition wrapper_type_from_u8 :: "u8 \<Rightarrow> wrapper_type option" where
  "wrapper_type_from_u8 v =
     (if v = 1 then Some SecureEnclave else if v = 2 then Some Tpm2
      else if v = 3 then Some Argon2id else None)"

record wrapper =
  w_type :: wrapper_type
  w_data :: bytes

definition wrapper_new :: "wrapper_type \<Rightarrow> bytes \<Rightarrow> (wrapper, vault_error) result" where
  "wrapper_new t d =
     (if length d > MAX_WRAPPER_BYTES then Err (WrapperTooLarge (length d))
      else Ok \<lparr>w_type = t, w_data = d\<rparr>)"

section \<open>The header\<close>

record argon2_params =
  a_t :: u8
  a_m_kib :: u32
  a_p :: u8

record vault_header =
  vh_magic :: bytes
  vh_version :: u8
  vh_key_version :: u8
  vh_created_ms :: u64
  vh_counter :: u32
  vh_salt :: bytes
  vh_params :: argon2_params
  vh_wrappers :: "wrapper list"
  vh_nonce :: bytes
  vh_pk :: bytes
  vh_signature :: bytes
  vh_canary :: rstring

definition new_with_canary ::
  "bytes \<Rightarrow> bytes \<Rightarrow> argon2_params \<Rightarrow> wrapper list \<Rightarrow> rstring \<Rightarrow> u64 \<Rightarrow> (vault_header, vault_error) result"
where
  "new_with_canary pk salt params wrappers canary now =
     (if length wrappers > MAX_WRAPPERS then Err TooManyWrappers
      else if list_ex (\<lambda>w. length (w_data w) > MAX_WRAPPER_BYTES) wrappers then Err (WrapperTooLarge 65535)
      else Ok \<lparr>vh_magic = VAULT_MAGIC, vh_version = CURRENT_VERSION, vh_key_version = 0,
               vh_created_ms = now, vh_counter = 0, vh_salt = salt, vh_params = params,
               vh_wrappers = wrappers, vh_nonce = replicate NONCE_LEN 0, vh_pk = pk,
               vh_signature = replicate SIGNATURE_LEN 0, vh_canary = canary\<rparr>)"

definition get_wrapper :: "wrapper_type \<Rightarrow> vault_header \<Rightarrow> wrapper option" where
  "get_wrapper t h = find (\<lambda>w. w_type w = t) (vh_wrappers h)"

definition has_wrapper :: "wrapper_type \<Rightarrow> vault_header \<Rightarrow> bool" where
  "has_wrapper t h = (get_wrapper t h \<noteq> None)"

definition put_wrapper :: "wrapper \<Rightarrow> vault_header \<Rightarrow> vault_header" where
  "put_wrapper w h =
     h\<lparr>vh_wrappers := filter (\<lambda>x. w_type x \<noteq> w_type w) (vh_wrappers h) @ [w]\<rparr>"

definition add_wrapper :: "wrapper \<Rightarrow> vault_header \<Rightarrow> (vault_header, vault_error) result" where
  "add_wrapper w h =
     (if length (vh_wrappers h) \<ge> MAX_WRAPPERS \<and> \<not> list_ex (\<lambda>x. w_type x = w_type w) (vh_wrappers h)
      then Err TooManyWrappers
      else if length (w_data w) > MAX_WRAPPER_BYTES then Err (WrapperTooLarge 65535)
      else Ok (put_wrapper w h))"

definition replace_wrapper :: "wrapper \<Rightarrow> vault_header \<Rightarrow> (vault_header, vault_error) result" where
  "replace_wrapper w h =
     (if length (w_data w) > MAX_WRAPPER_BYTES then Err (WrapperTooLarge 65535)
      else Ok (put_wrapper w h))"

section \<open>Writing\<close>

definition write_wrapper :: "wrapper \<Rightarrow> bytes \<Rightarrow> bytes" where
  "write_wrapper w buf =
     (let buf = buf @ [wrapper_type_u8 (w_type w)];
          len = u16_clamp (length (w_data w));
          buf = buf @ le_bytes 2 len
      in buf @ w_data w)"

definition write_header_without_sig :: "vault_header \<Rightarrow> bytes \<Rightarrow> bytes" where
  "write_header_without_sig h buf =
     (let buf = buf @ vh_magic h;
          buf = buf @ [vh_version h];
          buf = buf @ [vh_key_version h];
          buf = buf @ le_bytes 8 (vh_created_ms h);
          buf = buf @ le_bytes 4 (vh_counter h);
          buf = buf @ vh_salt h;
          buf = buf @ [a_t (vh_params h)];
          buf = buf @ le_bytes 4 (a_m_kib (vh_params h));
          buf = buf @ [a_p (vh_params h)];
          buf = buf @ [u8_clamp (length (vh_wrappers h))];
          buf = fold write_wrapper (vh_wrappers h) buf;
          buf = buf @ vh_nonce h;
          buf = buf @ vh_pk h;
          canary_len = u16_clamp (length (vh_canary h));
          buf = buf @ le_bytes 2 canary_len
      in buf @ vh_canary h)"

definition signed_data :: "vault_header \<Rightarrow> bytes \<Rightarrow> bytes" where
  "signed_data h ciphertext = write_header_without_sig h [] @ ciphertext"

definition to_bytes :: "vault_header \<Rightarrow> bytes" where
  "to_bytes h = write_header_without_sig h [] @ vh_signature h"

section \<open>Reading\<close>

text \<open>\<open>read_exact\<close> on a cursor over a slice: the only failure is the end of the input.\<close>

definition rd :: "nat \<Rightarrow> cursor \<Rightarrow> (bytes \<times> cursor, vault_error) result" where
  "rd n c = ok_or (ParseError (lit ''failed to fill whole buffer'')) (read_bytes n c)"

definition read_wrapper :: "cursor \<Rightarrow> (wrapper \<times> cursor, vault_error) result" where
  "read_wrapper c =
     rbind (rd 1 c) (\<lambda>(wt, c).
     rbind (ok_or (InvalidWrapperType (wt ! 0)) (wrapper_type_from_u8 (wt ! 0))) (\<lambda>t.
     rbind (rd 2 c) (\<lambda>(len, c).
     rbind (rd (unat (of_le len :: u16)) c) (\<lambda>(d, c).
     rbind (wrapper_new t d) (\<lambda>w. Ok (w, c))))))"

fun read_wrappers :: "nat \<Rightarrow> cursor \<Rightarrow> (wrapper list \<times> cursor, vault_error) result" where
  "read_wrappers 0 c = Ok ([], c)"
| "read_wrappers (Suc n) c =
     rbind (read_wrapper c) (\<lambda>(w, c).
     rbind (read_wrappers n c) (\<lambda>(ws, c). Ok (w # ws, c)))"

definition too_many :: "nat \<Rightarrow> rstring" where
  "too_many n = lit ''too many wrappers: '' @ show_nat n @ lit '' (max 8)''"

definition from_cursor :: "cursor \<Rightarrow> (vault_header \<times> cursor, vault_error) result" where
  "from_cursor c =
     rbind (rd 4 c) (\<lambda>(magic, c).
     rbind (rguard (magic = VAULT_MAGIC) (InvalidFormat (lit ''invalid magic''))) (\<lambda>_.
     rbind (rd 1 c) (\<lambda>(version, c).
     rbind (rguard (version ! 0 = CURRENT_VERSION) (UnsupportedVersion (version ! 0))) (\<lambda>_.
     rbind (rd 1 c) (\<lambda>(key_version, c).
     rbind (rd 8 c) (\<lambda>(created, c).
     rbind (rd 4 c) (\<lambda>(counter, c).
     rbind (rd KEY_LEN c) (\<lambda>(salt, c).
     rbind (rd 1 c) (\<lambda>(t, c).
     rbind (rd 4 c) (\<lambda>(m_kib, c).
     rbind (rd 1 c) (\<lambda>(p, c).
     rbind (rd 1 c) (\<lambda>(count, c).
     rbind (rguard (unat (count ! 0) \<le> MAX_WRAPPERS) (ParseError (too_many (unat (count ! 0))))) (\<lambda>_.
     rbind (read_wrappers (unat (count ! 0)) c) (\<lambda>(wrappers, c).
     rbind (rd NONCE_LEN c) (\<lambda>(nonce, c).
     rbind (rd KEY_LEN c) (\<lambda>(pk, c).
     rbind (rd 2 c) (\<lambda>(canary_len, c).
     rbind (rd (unat (of_le canary_len :: u16)) c) (\<lambda>(canary_bytes, c).
     rbind (ok_or (ParseError (lit ''invalid canary utf-8'')) (from_utf8 canary_bytes)) (\<lambda>canary.
     rbind (rd SIGNATURE_LEN c) (\<lambda>(sig, c).
       Ok (\<lparr>vh_magic = magic, vh_version = version ! 0, vh_key_version = key_version ! 0,
            vh_created_ms = of_le created, vh_counter = of_le counter, vh_salt = salt,
            vh_params = \<lparr>a_t = t ! 0, a_m_kib = of_le m_kib, a_p = p ! 0\<rparr>,
            vh_wrappers = wrappers, vh_nonce = nonce, vh_pk = pk, vh_signature = sig,
            vh_canary = canary\<rparr>, c)))))))))))))))))))))"

definition header_from_bytes :: "bytes \<Rightarrow> (vault_header, vault_error) result" where
  "header_from_bytes bs = rbind (from_cursor (cursor_new bs)) (\<lambda>(h, _). Ok h)"

record vault_file =
  vf_header :: vault_header
  vf_ciphertext :: bytes

definition file_from_bytes :: "bytes \<Rightarrow> (vault_file, vault_error) result" where
  "file_from_bytes bs =
     rbind (header_from_bytes bs) (\<lambda>h.
       let header_size = length (to_bytes h)
       in if length bs < header_size then Err (InvalidFormat (lit ''file too short''))
          else Ok \<lparr>vf_header = h, vf_ciphertext = drop header_size bs\<rparr>)"

section \<open>Well-formed headers\<close>

definition wrapper_ok :: "wrapper \<Rightarrow> bool" where
  "wrapper_ok w \<longleftrightarrow> length (w_data w) \<le> MAX_WRAPPER_BYTES"

definition header_ok :: "vault_header \<Rightarrow> bool" where
  "header_ok h \<longleftrightarrow>
     vh_magic h = VAULT_MAGIC \<and> vh_version h = CURRENT_VERSION \<and> length (vh_salt h) = KEY_LEN
     \<and> length (vh_wrappers h) \<le> MAX_WRAPPERS \<and> list_all wrapper_ok (vh_wrappers h)
     \<and> length (vh_nonce h) = NONCE_LEN \<and> length (vh_pk h) = KEY_LEN
     \<and> length (vh_signature h) = SIGNATURE_LEN \<and> str_fits (vh_canary h)"

definition types_distinct :: "vault_header \<Rightarrow> bool" where
  "types_distinct h \<longleftrightarrow> distinct (map w_type (vh_wrappers h))"

lemmas vault_sizes = KEY_LEN_def NONCE_LEN_def SIGNATURE_LEN_def MAX_WRAPPER_BYTES_def MAX_WRAPPERS_def

lemma put_wrapper_facts:
  "get_wrapper (w_type w) (put_wrapper w h) = Some w"
  "t \<noteq> w_type w \<Longrightarrow> get_wrapper t (put_wrapper w h) = get_wrapper t h"
  "types_distinct h \<Longrightarrow> types_distinct (put_wrapper w h)"
proof -
  have "find (\<lambda>x. w_type x = w_type w) (filter (\<lambda>x. w_type x \<noteq> w_type w) xs @ [w]) = Some w" for xs
    by (induction xs) auto
  then show "get_wrapper (w_type w) (put_wrapper w h) = Some w"
    by (simp add: get_wrapper_def put_wrapper_def)
  have "t \<noteq> w_type w \<Longrightarrow>
      find (\<lambda>x. w_type x = t) (filter (\<lambda>x. w_type x \<noteq> w_type w) xs @ [w]) = find (\<lambda>x. w_type x = t) xs" for xs
    by (induction xs) auto
  then show "t \<noteq> w_type w \<Longrightarrow> get_wrapper t (put_wrapper w h) = get_wrapper t h"
    by (simp add: get_wrapper_def put_wrapper_def)
  have "distinct (map w_type xs) \<Longrightarrow> distinct (map w_type (filter (\<lambda>x. w_type x \<noteq> w_type w) xs @ [w]))" for xs
    by (simp add: distinct_map_filter) auto
  then show "types_distinct h \<Longrightarrow> types_distinct (put_wrapper w h)"
    by (simp add: types_distinct_def put_wrapper_def)
qed

section \<open>What the writer appends\<close>

definition wrapper_bytes :: "wrapper \<Rightarrow> bytes" where
  "wrapper_bytes w = wrapper_type_u8 (w_type w) # le_bytes 2 (u16_clamp (length (w_data w))) @ w_data w"

lemma fold_write_wrapper: "fold write_wrapper ws buf = buf @ concat (map wrapper_bytes ws)"
  by (induction ws arbitrary: buf) (simp_all add: write_wrapper_def wrapper_bytes_def Let_def)

lemma write_header_bytes:
  "write_header_without_sig h buf =
     buf @ vh_magic h @ [vh_version h] @ [vh_key_version h] @ le_bytes 8 (vh_created_ms h)
     @ le_bytes 4 (vh_counter h) @ vh_salt h @ [a_t (vh_params h)]
     @ le_bytes 4 (a_m_kib (vh_params h)) @ [a_p (vh_params h)]
     @ [u8_clamp (length (vh_wrappers h))] @ concat (map wrapper_bytes (vh_wrappers h))
     @ vh_nonce h @ vh_pk h @ le_bytes 2 (u16_clamp (length (vh_canary h))) @ vh_canary h"
  by (simp add: write_header_without_sig_def Let_def fold_write_wrapper)

section \<open>Reading what was written\<close>

lemma rd_at: "length b = n \<Longrightarrow> rd n (cursor_at pre (b @ suf)) = Ok (b, cursor_at (pre @ b) suf)"
  by (simp add: rd_def read_bytes_at)

lemma rd_byte: "rd (Suc 0) (cursor_at pre (b # suf)) = Ok ([b], cursor_at (pre @ [b]) suf)"
  using rd_at [of "[b]" "Suc 0"] by simp

lemma rd_Inr:
  "rd n (cursor_at pre suf) = Ok (b, c) \<longleftrightarrow>
   (\<exists>rest. suf = b @ rest \<and> length b = n \<and> c = cursor_at (pre @ b) rest)"
proof
  assume r: "rd n (cursor_at pre suf) = Ok (b, c)"
  then have n: "n \<le> length suf"
    by (cases "n \<le> length suf") (simp_all add: rd_def read_bytes_short not_le)
  then have "rd n (cursor_at pre (take n suf @ drop n suf)) = Ok (take n suf, cursor_at (pre @ take n suf) (drop n suf))"
    by (intro rd_at) simp
  with r have "b = take n suf" "c = cursor_at (pre @ take n suf) (drop n suf)" by simp_all
  with n show "\<exists>rest. suf = b @ rest \<and> length b = n \<and> c = cursor_at (pre @ b) rest"
    by (intro exI [of _ "drop n suf"]) simp
qed (auto simp: rd_at)

lemma wrapper_type_back [simp]: "wrapper_type_from_u8 (wrapper_type_u8 t) = Some t"
  by (cases t) (simp_all add: wrapper_type_from_u8_def)

lemma wrapper_type_from_Some: "wrapper_type_from_u8 v = Some t \<Longrightarrow> wrapper_type_u8 t = v"
  by (auto simp: wrapper_type_from_u8_def split: if_splits)

lemma read_wrapper_at:
  "wrapper_ok w \<Longrightarrow>
   read_wrapper (cursor_at pre (wrapper_bytes w @ suf)) = Ok (w, cursor_at (pre @ wrapper_bytes w) suf)"
  by (cases w) (simp add: read_wrapper_def wrapper_bytes_def rd_byte rd_at wrapper_new_def wrapper_ok_def
      unat_u16_clamp MAX_WRAPPER_BYTES_def)

lemma read_wrappers_at:
  "list_all wrapper_ok ws \<Longrightarrow>
   read_wrappers (length ws) (cursor_at pre (concat (map wrapper_bytes ws) @ suf))
     = Ok (ws, cursor_at (pre @ concat (map wrapper_bytes ws)) suf)"
  by (induction ws arbitrary: pre) (simp_all add: read_wrapper_at)

lemma from_cursor_at:
  assumes "header_ok h"
  shows "from_cursor (cursor_at pre (to_bytes h @ suf)) = Ok (h, cursor_at (pre @ to_bytes h) suf)"
proof -
  have ok: "vh_magic h = VAULT_MAGIC" "vh_version h = CURRENT_VERSION" "length (vh_salt h) = KEY_LEN"
    "length (vh_wrappers h) \<le> MAX_WRAPPERS" "list_all wrapper_ok (vh_wrappers h)"
    "length (vh_nonce h) = NONCE_LEN" "length (vh_pk h) = KEY_LEN"
    "length (vh_signature h) = SIGNATURE_LEN" "valid_utf8 (vh_canary h)" "length (vh_canary h) \<le> 65535"
    using assms by (auto simp: header_ok_def str_fits_def)
  have "length VAULT_MAGIC = 4" by (simp add: VAULT_MAGIC_def)
  with ok show ?thesis
    by (simp add: from_cursor_def to_bytes_def write_header_bytes rd_byte rd_at read_wrappers_at
        unat_u8_clamp unat_u16_clamp from_utf8_def vault_sizes min_def)
qed

section \<open>Every file that parses is what the writer would have written\<close>

lemma unat_u16: "unat (w :: u16) < 65536"
  using unsigned_less [of w] by simp

lemma u16_clamp_of_le: "length d = unat (w :: u16) \<Longrightarrow> u16_clamp (length d) = w"
  using unat_u16 [of w] by (simp add: u16_clamp_def)

lemma read_wrapper_Inr:
  assumes "read_wrapper (cursor_at pre suf) = Ok (w, c)"
  shows "\<exists>rest. suf = wrapper_bytes w @ rest \<and> c = cursor_at (pre @ wrapper_bytes w) rest \<and> wrapper_ok w"
proof -
  obtain wt len d rest t where
    s: "suf = wt @ len @ d @ rest" "length wt = 1" "length len = 2" "length d = unat (of_le len :: u16)"
    and t: "wrapper_type_from_u8 (wt ! 0) = Some t" and w: "wrapper_new t d = Ok w"
    and c: "c = cursor_at (pre @ wt @ len @ d) rest"
    using assms by (auto simp: read_wrapper_def rbind_Inr_iff rd_Inr ok_or_Inr_iff)
  have "w = \<lparr>w_type = t, w_data = d\<rparr>" "wrapper_ok w"
    using w by (auto simp: wrapper_new_def wrapper_ok_def split: if_splits)
  moreover have "wrapper_bytes \<lparr>w_type = t, w_data = d\<rparr> = wt @ len @ d"
    using s wrapper_type_from_Some [OF t] le_bytes_u16_of_le [of len] u16_clamp_of_le [OF s(4)]
    by (auto simp: wrapper_bytes_def length_Suc_conv)
  ultimately show ?thesis
    using s c by simp
qed

lemma read_wrappers_Inr:
  "read_wrappers n (cursor_at pre suf) = Ok (ws, c) \<Longrightarrow>
   \<exists>rest. suf = concat (map wrapper_bytes ws) @ rest \<and> c = cursor_at (pre @ concat (map wrapper_bytes ws)) rest
          \<and> length ws = n \<and> list_all wrapper_ok ws"
proof (induction n arbitrary: pre suf ws)
  case 0
  then show ?case by simp
next
  case (Suc n)
  then obtain w c1 ws' where w: "read_wrapper (cursor_at pre suf) = Ok (w, c1)"
    and ws: "read_wrappers n c1 = Ok (ws', c)" "ws = w # ws'"
    by (auto simp: rbind_Inr_iff)
  from read_wrapper_Inr [OF w] obtain rest where
    r: "suf = wrapper_bytes w @ rest" "c1 = cursor_at (pre @ wrapper_bytes w) rest" "wrapper_ok w" by blast
  from Suc.IH [OF ws(1) [unfolded r(2)]] r ws(2) show ?case by auto
qed

lemma from_cursor_Inr:
  assumes "from_cursor (cursor_at pre suf) = Ok (h, c)"
  shows "\<exists>rest. suf = to_bytes h @ rest \<and> header_ok h"
proof -
  obtain v kv cr ct salt t m p cnt ws nonce pk cl can sig rest where
    suf: "suf = VAULT_MAGIC @ v @ kv @ cr @ ct @ salt @ t @ m @ p @ cnt @ concat (map wrapper_bytes ws)
      @ nonce @ pk @ cl @ can @ sig @ rest"
    and len: "length v = 1" "length kv = 1" "length cr = 8" "length ct = 4" "length salt = KEY_LEN"
      "length t = 1" "length m = 4" "length p = 1" "length cnt = 1" "length nonce = NONCE_LEN"
      "length pk = KEY_LEN" "length cl = 2" "length can = unat (of_le cl :: u16)" "length sig = SIGNATURE_LEN"
    and ok: "v ! 0 = CURRENT_VERSION" "unat (cnt ! 0) \<le> MAX_WRAPPERS" "length ws = unat (cnt ! 0)"
      "list_all wrapper_ok ws" "valid_utf8 can"
    and h: "h = \<lparr>vh_magic = VAULT_MAGIC, vh_version = v ! 0, vh_key_version = kv ! 0,
            vh_created_ms = of_le cr, vh_counter = of_le ct, vh_salt = salt,
            vh_params = \<lparr>a_t = t ! 0, a_m_kib = of_le m, a_p = p ! 0\<rparr>,
            vh_wrappers = ws, vh_nonce = nonce, vh_pk = pk, vh_signature = sig, vh_canary = can\<rparr>"
    using assms unfolding from_cursor_def
    by (fastforce simp: rbind_Inr_iff rd_Inr ok_or_Inr_iff rguard_iff from_utf8_iff
        dest!: read_wrappers_Inr)
  have "u8_clamp (length ws) = cnt ! 0"
    using ok(2,3) by (simp add: u8_clamp_def MAX_WRAPPERS_def)
  moreover have "u16_clamp (length can) = of_le cl"
    by (rule u16_clamp_of_le [OF len(13)])
  ultimately have "to_bytes h = VAULT_MAGIC @ v @ kv @ cr @ ct @ salt @ t @ m @ p @ cnt
      @ concat (map wrapper_bytes ws) @ nonce @ pk @ cl @ can @ sig"
    using len by (auto simp: to_bytes_def write_header_bytes h le_simps length_Suc_conv)
  moreover have "length can \<le> 65535"
    using unat_u16 [of "of_le cl"] len(13) by simp
  then have "header_ok h"
    using len ok by (simp add: header_ok_def h str_fits_def)
  ultimately show ?thesis
    using suf by simp
qed

lemma file_from_bytes_at:
  assumes "header_ok h"
  shows "file_from_bytes (to_bytes h @ ct) = Ok \<lparr>vf_header = h, vf_ciphertext = ct\<rparr>"
  using from_cursor_at [OF assms, of "[]" ct]
  by (simp add: file_from_bytes_def header_from_bytes_def cursor_new_at)

lemma file_from_bytes_Inr:
  assumes "file_from_bytes bs = Ok f"
  shows "bs = to_bytes (vf_header f) @ vf_ciphertext f \<and> header_ok (vf_header f)"
proof -
  obtain h c where h: "from_cursor (cursor_at [] bs) = Ok (h, c)" "vf_header f = h"
    "vf_ciphertext f = drop (length (to_bytes h)) bs"
    using assms by (auto simp: file_from_bytes_def header_from_bytes_def cursor_new_at rbind_Inr_iff
        Let_def split: if_splits)
  with from_cursor_Inr [OF h(1)] show ?thesis by auto
qed

section \<open>Properties\<close>

definition sample_header :: vault_header where
  "sample_header =
     \<lparr>vh_magic = VAULT_MAGIC, vh_version = CURRENT_VERSION, vh_key_version = 0, vh_created_ms = 1000,
      vh_counter = 7, vh_salt = replicate 32 1, vh_params = \<lparr>a_t = 8, a_m_kib = 65536, a_p = 4\<rparr>,
      vh_wrappers = [\<lparr>w_type = Argon2id, w_data = replicate 60 9\<rparr>],
      vh_nonce = replicate 12 2, vh_pk = replicate 32 3, vh_signature = replicate 64 4,
      vh_canary = lit ''canary''\<rparr>"

lemma sample_header_ok: "header_ok sample_header"
  by (simp add: header_ok_def sample_header_def vault_sizes wrapper_ok_def str_fits_def
      valid_utf8_ascii lit_def)

text \<open>A vault file that was written reads back as it was: the header, field by field, and the
  ciphertext behind it.\<close>

theorem vault_file_roundtrip:
  assumes "header_ok h"
  shows "file_from_bytes (to_bytes h @ ct) = Ok \<lparr>vf_header = h, vf_ciphertext = ct\<rparr>"
  by (rule file_from_bytes_at [OF assms])

lemma vault_file_roundtrip_witness:
  "file_from_bytes (to_bytes sample_header @ [1, 2, 3]) = Ok \<lparr>vf_header = sample_header, vf_ciphertext = [1, 2, 3]\<rparr>"
  by (rule vault_file_roundtrip [OF sample_header_ok])

text \<open>Whatever bytes a file holds, if it parses then it is exactly the encoding of the header that
  came out of it followed by the ciphertext, and the header is within every bound of the format:
  no two files parse to the same vault, the ciphertext starts where the header ended, and the
  signed bytes are the bytes of the file.\<close>

theorem vault_file_canonical:
  assumes "file_from_bytes bs = Ok f"
  shows "bs = to_bytes (vf_header f) @ vf_ciphertext f \<and> header_ok (vf_header f) \<and>
         signed_data (vf_header f) (vf_ciphertext f)
           = take (length (to_bytes (vf_header f)) - SIGNATURE_LEN) bs @ vf_ciphertext f"
  using file_from_bytes_Inr [OF assms] by (simp add: signed_data_def to_bytes_def header_ok_def)

lemma vault_file_canonical_witness: "header_ok sample_header"
  using vault_file_canonical [OF file_from_bytes_at [OF sample_header_ok, of "[]"]] by simp

lemma put_wrapper_length:
  "list_ex (\<lambda>x. w_type x = w_type w) (vh_wrappers h) \<Longrightarrow>
   length (vh_wrappers (put_wrapper w h)) \<le> length (vh_wrappers h)"
proof -
  have "list_ex (\<lambda>x. w_type x = w_type w) xs \<Longrightarrow> length (filter (\<lambda>x. w_type x \<noteq> w_type w) xs) < length xs" for xs
    using length_filter_less [of _ xs "\<lambda>x. w_type x \<noteq> w_type w"] by (auto simp: list_ex_iff)
  then show "list_ex (\<lambda>x. w_type x = w_type w) (vh_wrappers h) \<Longrightarrow> ?thesis"
    by (fastforce simp: put_wrapper_def)
qed

lemma put_wrapper_length_Suc: "length (vh_wrappers (put_wrapper w h)) \<le> Suc (length (vh_wrappers h))"
  by (simp add: put_wrapper_def)

lemma put_wrapper_ok:
  assumes "header_ok h" and "wrapper_ok w" and "length (vh_wrappers (put_wrapper w h)) \<le> MAX_WRAPPERS"
  shows "header_ok (put_wrapper w h)"
  using assms by (auto simp: header_ok_def put_wrapper_def list_all_iff)

text \<open>Adding a wrapper keeps a header writable, whatever wrappers it has: one of a type already
  there replaces it, one of a new type is added unless there are eight, the others are kept,
  and no type comes to be there twice. Replacing the wrapper of a type that is there does the same.\<close>

theorem wrapper_update:
  assumes "header_ok h" and "add_wrapper w h = Ok h' \<or> has_wrapper (w_type w) h \<and> replace_wrapper w h = Ok h'"
  shows "header_ok h' \<and> get_wrapper (w_type w) h' = Some w
         \<and> (\<forall>t. t \<noteq> w_type w \<longrightarrow> get_wrapper t h' = get_wrapper t h)
         \<and> (types_distinct h \<longrightarrow> types_distinct h')"
proof -
  have h': "h' = put_wrapper w h" and w: "wrapper_ok w"
    using assms(2) by (auto simp: add_wrapper_def replace_wrapper_def wrapper_ok_def split: if_splits)
  have has: "has_wrapper (w_type w) h \<Longrightarrow> list_ex (\<lambda>x. w_type x = w_type w) (vh_wrappers h)"
    by (auto simp: has_wrapper_def get_wrapper_def list_ex_iff find_Some_iff)
  have "length (vh_wrappers h) \<le> MAX_WRAPPERS"
    using assms(1) by (simp add: header_ok_def)
  then have "length (vh_wrappers (put_wrapper w h)) \<le> MAX_WRAPPERS"
    using assms(2) has put_wrapper_length [of w h] put_wrapper_length_Suc [of w h]
    by (fastforce simp: add_wrapper_def split: if_splits)
  with put_wrapper_ok [OF assms(1) w] show ?thesis
    by (simp add: h' put_wrapper_facts)
qed

lemma wrapper_update_witness:
  "get_wrapper Tpm2 (put_wrapper \<lparr>w_type = Tpm2, w_data = [1]\<rparr> sample_header) = Some \<lparr>w_type = Tpm2, w_data = [1]\<rparr>"
proof -
  have "add_wrapper \<lparr>w_type = Tpm2, w_data = [1]\<rparr> sample_header = Ok (put_wrapper \<lparr>w_type = Tpm2, w_data = [1]\<rparr> sample_header)"
    by (simp add: add_wrapper_def sample_header_def vault_sizes)
  with wrapper_update [OF sample_header_ok, of "\<lparr>w_type = Tpm2, w_data = [1]\<rparr>"] show ?thesis by simp
qed

end
