(* ===== verification/Vault_Crypto.thy ===== *)
theory Vault_Crypto
  imports Vault_Header
begin

text \<open>
  What the vault does with its keys (crates/vault/src/crypto/keys.rs, params.rs, primitives.rs).
  The cipher, the hash, the signature scheme and the password hash are third-party packages: they
  are the fields of \<open>primitives\<close>, and what they document is \<open>crypto_ok\<close>. Everything random is
  an argument. Zeroizing of secrets leaves no trace in the model.
\<close>

section \<open>The third-party primitives\<close>

type_synonym key = bytes

record primitives =
  pr_seal :: "key \<Rightarrow> bytes \<Rightarrow> bytes \<Rightarrow> bytes option"
  pr_open :: "key \<Rightarrow> bytes \<Rightarrow> bytes \<Rightarrow> bytes option"
  pr_hkdf :: "key \<Rightarrow> rstring \<Rightarrow> key"
  pr_verifying :: "key \<Rightarrow> bytes"
  pr_sign :: "key \<Rightarrow> bytes \<Rightarrow> bytes"
  pr_point :: "bytes \<Rightarrow> bool"
  pr_verify :: "bytes \<Rightarrow> bytes \<Rightarrow> bytes \<Rightarrow> bool"
  pr_build :: "u32 \<Rightarrow> u32 \<Rightarrow> u32 \<Rightarrow> (unit, rstring) result"
  pr_argon2 :: "u32 \<Rightarrow> u32 \<Rightarrow> u32 \<Rightarrow> rstring \<Rightarrow> bytes \<Rightarrow> (key, rstring) result"

definition GCM_TAG_LEN :: nat where "GCM_TAG_LEN = 16"

text \<open>
  What they document: the cipher opens what it sealed and adds a tag, the sub-keys, public keys
  and signatures have their sizes, and a signature verifies under the key that made it.
\<close>

definition crypto_ok :: "primitives \<Rightarrow> bool" where
  "crypto_ok P \<longleftrightarrow>
     (\<forall>k n p c. pr_seal P k n p = Some c \<longrightarrow> pr_open P k n c = Some p \<and> length c = length p + GCM_TAG_LEN)
   \<and> (\<forall>s m. pr_point P (pr_verifying P s) \<and> pr_verify P (pr_verifying P s) m (pr_sign P s m)
        \<and> length (pr_verifying P s) = KEY_LEN \<and> length (pr_sign P s m) = SIGNATURE_LEN)"

section \<open>Keys\<close>

definition subkey :: "primitives \<Rightarrow> key \<Rightarrow> rstring \<Rightarrow> key" where
  "subkey P key info = pr_hkdf P key info"

definition derive_signing_key :: "primitives \<Rightarrow> key \<Rightarrow> key" where
  "derive_signing_key P key = subkey P key (lit ''multitop-vault-signing'')"

definition derive_verifying_key :: "primitives \<Rightarrow> key \<Rightarrow> bytes" where
  "derive_verifying_key P key = pr_verifying P (derive_signing_key P key)"

definition encryption_key :: "primitives \<Rightarrow> key \<Rightarrow> key" where
  "encryption_key P key = subkey P key (lit ''vault-aes-gcm-key'')"

section \<open>Password hashing parameters\<close>

definition HIGH_MEMORY_MIB :: u64 where "HIGH_MEMORY_MIB = 256"
definition MID_MEMORY_MIB :: u64 where "MID_MEMORY_MIB = 128"
definition PASSES_HIGH :: u8 where "PASSES_HIGH = 10"
definition PASSES_MID :: u8 where "PASSES_MID = 8"
definition PASSES_LOW :: u8 where "PASSES_LOW = 6"
definition DEFAULT_PARALLELISM :: u8 where "DEFAULT_PARALLELISM = 4"
definition MIN_M_KIB :: u32 where "MIN_M_KIB = 32768"
definition MAX_M_KIB :: u32 where "MAX_M_KIB = 4194304"
definition MIN_T :: u8 where "MIN_T = 1"
definition MAX_T :: u8 where "MAX_T = 20"
definition MIN_P :: u8 where "MIN_P = 1"
definition MAX_P :: u8 where "MAX_P = 8"

lemmas param_bounds = MIN_M_KIB_def MAX_M_KIB_def MIN_T_def MAX_T_def MIN_P_def MAX_P_def

definition clamp :: "'a::linorder \<Rightarrow> 'a \<Rightarrow> 'a \<Rightarrow> 'a" where
  "clamp lo hi x = (if x < lo then lo else if x > hi then hi else x)"

definition saturating_mul :: "u64 \<Rightarrow> u64 \<Rightarrow> u64" where
  "saturating_mul a b = (if unat a * unat b < 2 ^ 64 then a * b else - 1)"

definition u32_try_from :: "u64 \<Rightarrow> u32 option" where
  "u32_try_from w = (if unat w < 2 ^ 32 then Some (ucast w) else None)"

definition from_config :: "u8 \<Rightarrow> u32 \<Rightarrow> u8 \<Rightarrow> argon2_params" where
  "from_config t m_mib p =
     (let memory_kib = clamp (ucast MIN_M_KIB) (ucast MAX_M_KIB) (saturating_mul (ucast m_mib) 1024)
      in \<lparr>a_t = clamp MIN_T MAX_T t,
          a_m_kib = (case u32_try_from memory_kib of Some m \<Rightarrow> m | None \<Rightarrow> MAX_M_KIB),
          a_p = clamp MIN_P MAX_P p\<rparr>)"

definition outside :: "rstring \<Rightarrow> nat \<Rightarrow> rstring \<Rightarrow> nat \<Rightarrow> nat \<Rightarrow> rstring" where
  "outside what v unit lo hi =
     what @ show_nat v @ unit @ lit '' is outside '' @ show_nat lo @ lit ''..='' @ show_nat hi"

definition validate :: "argon2_params \<Rightarrow> (unit, vault_error) result" where
  "validate a =
     (if \<not> (MIN_M_KIB \<le> a_m_kib a \<and> a_m_kib a \<le> MAX_M_KIB)
      then Err (BadArgon2Params (outside (lit ''memory cost '') (unat (a_m_kib a)) (lit '' KiB'')
                                   (unat MIN_M_KIB) (unat MAX_M_KIB)))
      else if \<not> (MIN_T \<le> a_t a \<and> a_t a \<le> MAX_T)
      then Err (BadArgon2Params (outside (lit ''iterations '') (unat (a_t a)) [] (unat MIN_T) (unat MAX_T)))
      else if \<not> (MIN_P \<le> a_p a \<and> a_p a \<le> MAX_P)
      then Err (BadArgon2Params (outside (lit ''parallelism '') (unat (a_p a)) [] (unat MIN_P) (unat MAX_P)))
      else Ok ())"

text \<open>The instance \<open>to_argon2\<close> builds is its parameters, checked.\<close>

definition to_argon2 :: "primitives \<Rightarrow> argon2_params \<Rightarrow> (u32 \<times> u32 \<times> u32, vault_error) result" where
  "to_argon2 P a =
     rbind (validate a) (\<lambda>_.
       case pr_build P (a_m_kib a) (ucast (a_t a)) (ucast (a_p a)) of
         Err e \<Rightarrow> Err (BadArgon2Params e)
       | Ok _ \<Rightarrow> Ok (a_m_kib a, ucast (a_t a), ucast (a_p a)))"

subsection \<open>Detection\<close>

definition str_lines :: "rstring \<Rightarrow> rstring list" where
  "str_lines s =
     (let ps = split_at_byte 0x0A s; ps = (if last ps = [] then butlast ps else ps)
      in map (\<lambda>l. if l \<noteq> [] \<and> last l = 0x0D then butlast l else l) ps)"

fun take_word :: "rstring \<Rightarrow> rstring" where
  "take_word [] = []"
| "take_word (c # cs) = (if ws_prefix (c # cs) \<noteq> None then [] else c # take_word cs)"

text \<open>The second of the words of a line, when it has two.\<close>

definition second_word :: "rstring \<Rightarrow> rstring option" where
  "second_word l =
     (let s = trim_start l; s = trim_start (drop (length (take_word s)) s)
      in if s = [] then None else Some (take_word s))"

fun mem_available :: "rstring list \<Rightarrow> u64 option" where
  "mem_available [] = None"
| "mem_available (l # ls) =
     (if starts_with l (lit ''MemAvailable:'') then
        (case second_word l of
           Some w \<Rightarrow> map_option of_nat (parse_unsigned (2 ^ 64 - 1) w)
         | None \<Rightarrow> mem_available ls)
      else mem_available ls)"

definition get_available_memory_kib :: "rstring option \<Rightarrow> u64 option" where
  "get_available_memory_kib meminfo = meminfo \<bind> (\<lambda>content. mem_available (str_lines content))"

definition auto_detect :: "rstring option \<Rightarrow> argon2_params" where
  "auto_detect meminfo =
     (let mem_kib = (case get_available_memory_kib meminfo of Some m \<Rightarrow> m | None \<Rightarrow> 8388608);
          target_mib = clamp 64 1024 (mem_kib div 1024 div 4);
          t = (if target_mib \<ge> HIGH_MEMORY_MIB then PASSES_HIGH
               else if target_mib \<ge> MID_MEMORY_MIB then PASSES_MID else PASSES_LOW)
      in from_config t (ucast target_mib) DEFAULT_PARALLELISM)"

section \<open>Encryption, signing and wrapping\<close>

definition encrypt_vault ::
  "primitives \<Rightarrow> bytes \<Rightarrow> key \<Rightarrow> bytes \<Rightarrow> (bytes \<times> bytes, vault_error) result" where
  "encrypt_vault P nonce key plaintext =
     (case pr_seal P (encryption_key P key) nonce plaintext of
        None \<Rightarrow> Err EncryptionFailed
      | Some c \<Rightarrow> Ok (c, nonce))"

definition decrypt_vault ::
  "primitives \<Rightarrow> key \<Rightarrow> bytes \<Rightarrow> bytes \<Rightarrow> (bytes, vault_error) result" where
  "decrypt_vault P key nonce ciphertext =
     ok_or DecryptionFailed (pr_open P (encryption_key P key) nonce ciphertext)"

definition sign_vault :: "primitives \<Rightarrow> key \<Rightarrow> bytes \<Rightarrow> bytes" where
  "sign_vault P key data = pr_sign P (derive_signing_key P key) data"

definition verify_vault_signature ::
  "primitives \<Rightarrow> bytes \<Rightarrow> bytes \<Rightarrow> bytes \<Rightarrow> (unit, vault_error) result" where
  "verify_vault_signature P pk data sig =
     (if \<not> pr_point P pk then Err InvalidPublicKey
      else if pr_verify P pk data sig then Ok () else Err SignatureVerificationFailed)"

definition hash_password ::
  "primitives \<Rightarrow> u32 \<times> u32 \<times> u32 \<Rightarrow> rstring \<Rightarrow> bytes \<Rightarrow> (key, vault_error) result" where
  "hash_password P a password salt =
     (case a of (m, t, p) \<Rightarrow>
       (case pr_argon2 P m t p password salt of Err e \<Rightarrow> Err (Argon2Error e) | Ok k \<Rightarrow> Ok k))"

definition wrap_argon2id ::
  "primitives \<Rightarrow> bytes \<Rightarrow> key \<Rightarrow> rstring \<Rightarrow> bytes \<Rightarrow> argon2_params \<Rightarrow> (bytes, vault_error) result"
where
  "wrap_argon2id P nonce key password salt params =
     rbind (to_argon2 P params) (\<lambda>argon2.
     rbind (hash_password P argon2 password salt) (\<lambda>wrapping_key.
     rbind (ok_or EncryptionFailed (pr_seal P wrapping_key nonce key)) (\<lambda>ciphertext.
       Ok (nonce @ ciphertext))))"

definition unwrap_argon2id ::
  "primitives \<Rightarrow> bytes \<Rightarrow> rstring \<Rightarrow> bytes \<Rightarrow> argon2_params \<Rightarrow> (key, vault_error) result" where
  "unwrap_argon2id P wrapped password salt params =
     (if length wrapped < NONCE_LEN + KEY_LEN + GCM_TAG_LEN
      then Err (InvalidWrapperData (lit ''too short''))
      else
        rbind (to_argon2 P params) (\<lambda>argon2.
        rbind (hash_password P argon2 password salt) (\<lambda>wrapping_key.
        rbind (ok_or DecryptionFailed (pr_open P wrapping_key (take NONCE_LEN wrapped) (drop NONCE_LEN wrapped)))
          (\<lambda>plaintext.
            if length plaintext \<noteq> KEY_LEN then Err (InvalidWrapperData (lit ''wrong key size''))
            else Ok plaintext))))"

lemma encrypt_decrypt:
  "crypto_ok P \<Longrightarrow> encrypt_vault P nonce key p = Ok (c, n) \<Longrightarrow> decrypt_vault P key n c = Ok p \<and> n = nonce"
  by (auto simp: encrypt_vault_def decrypt_vault_def crypto_ok_def split: option.splits)

lemma sign_verify:
  "crypto_ok P \<Longrightarrow> verify_vault_signature P (derive_verifying_key P key) d (sign_vault P key d) = Ok ()"
  by (simp add: verify_vault_signature_def sign_vault_def derive_verifying_key_def crypto_ok_def)

lemma crypto_sizes:
  "crypto_ok P \<Longrightarrow> length (derive_verifying_key P key) = KEY_LEN"
  "crypto_ok P \<Longrightarrow> length (sign_vault P key d) = SIGNATURE_LEN"
  by (simp_all add: crypto_ok_def derive_verifying_key_def sign_vault_def)

section \<open>Properties\<close>

lemma clamp_bounds: "lo \<le> hi \<Longrightarrow> lo \<le> clamp lo hi x \<and> clamp lo hi x \<le> hi"
  by (auto simp: clamp_def)

lemma from_config_memory:
  "unat (a_m_kib (from_config t m p)) = max 32768 (min 4194304 (unat m * 1024))"
proof -
  have lt: "unat m < 2 ^ 32" using unsigned_less [of m] by simp
  then have um: "unat (ucast m :: u64) = unat m"
    by (simp add: unsigned_ucast_eq take_bit_nat_eq_self)
  have "unat m * 1024 < 2 ^ 64" using lt by simp
  then have s: "unat (saturating_mul (ucast m) 1024) = unat m * 1024"
    using um by (simp add: saturating_mul_def unat_mult_lem [THEN iffD1])
  have "unat (clamp (ucast MIN_M_KIB) (ucast MAX_M_KIB) (saturating_mul (ucast m) 1024) :: u64)
      = max 32768 (min 4194304 (unat m * 1024))"
    using s by (simp add: clamp_def word_less_nat_alt param_bounds)
  moreover have "max 32768 (min 4194304 (unat m * 1024)) < (2 :: nat) ^ 32" by simp
  ultimately show ?thesis
    by (simp add: from_config_def Let_def u32_try_from_def unsigned_ucast_eq take_bit_nat_eq_self)
qed

lemma configured_params_lemma:
  "validate (from_config t m p) = Ok ()
   \<and> unat (a_m_kib (from_config t m p)) = max 32768 (min 4194304 (unat m * 1024))
   \<and> a_m_kib (from_config t (min m m') p) \<le> a_m_kib (from_config t m p)"
proof (intro conjI)
  have "MIN_M_KIB \<le> a_m_kib (from_config t m p) \<and> a_m_kib (from_config t m p) \<le> MAX_M_KIB"
    using from_config_memory [of t m p] by (simp add: word_le_nat_alt param_bounds)
  moreover have "MIN_T \<le> a_t (from_config t m p) \<and> a_t (from_config t m p) \<le> MAX_T"
    "MIN_P \<le> a_p (from_config t m p) \<and> a_p (from_config t m p) \<le> MAX_P"
    by (simp_all add: from_config_def Let_def clamp_bounds param_bounds del: less_eq_word_def)
  ultimately show "validate (from_config t m p) = Ok ()" by (simp add: validate_def)
  show "unat (a_m_kib (from_config t m p)) = max 32768 (min 4194304 (unat m * 1024))"
    by (rule from_config_memory)
  have "unat (min m m') \<le> unat m" by (simp add: min_def word_le_nat_alt)
  then show "a_m_kib (from_config t (min m m') p) \<le> a_m_kib (from_config t m p)"
    by (simp add: word_le_nat_alt from_config_memory)
qed

text \<open>Whatever the configuration asks for, the parameters that come out are within the bounds that
  derivation accepts; the memory is the one that was asked for, in KiB, held between the
  bounds, so that no request however large yields less memory than a smaller one.\<close>

theorem configured_params_valid:
  "validate (from_config t m p) = Ok ()
   \<and> unat (a_m_kib (from_config t m p)) = max 32768 (min 4194304 (unat m * 1024))
   \<and> a_m_kib (from_config t (min m m') p) \<le> a_m_kib (from_config t m p)"
  by (rule configured_params_lemma)

lemma wrap_unwrap_lemma:
  assumes "crypto_ok P" and "length key = KEY_LEN" and "length nonce = NONCE_LEN"
    and "wrap_argon2id P nonce key password salt params = Ok w"
  shows "unwrap_argon2id P w password salt params = Ok key \<and> length w = 60"
proof -
  from assms(4) obtain a wk c where a: "to_argon2 P params = Ok a"
    and wk: "hash_password P a password salt = Ok wk" and c: "pr_seal P wk nonce key = Some c"
    and w: "w = nonce @ c"
    by (auto simp: wrap_argon2id_def rbind_Inr_iff ok_or_Inr_iff)
  have "pr_open P wk nonce c = Some key" "length c = length key + GCM_TAG_LEN"
    using assms(1) c by (auto simp: crypto_ok_def)
  with assms(2,3) a wk show ?thesis
    by (simp add: unwrap_argon2id_def w vault_sizes GCM_TAG_LEN_def)
qed

text \<open>A key wrapped with a password is 60 bytes and unwraps with that password, under the same
  salt and parameters, to the key.\<close>

theorem wrap_unwrap:
  assumes "crypto_ok P" and "length key = KEY_LEN" and "length nonce = NONCE_LEN"
    and "wrap_argon2id P nonce key password salt params = Ok w"
  shows "unwrap_argon2id P w password salt params = Ok key \<and> length w = 60"
  by (rule wrap_unwrap_lemma [OF assms])

text \<open>Primitives that keep their promises: a cipher that appends the first bytes of its key.\<close>

definition pad :: "nat \<Rightarrow> bytes \<Rightarrow> bytes" where
  "pad n bs = take n (bs @ replicate n 0)"

lemma length_pad [simp]: "length (pad n bs) = n" by (simp add: pad_def)

definition sample_primitives :: primitives where
  "sample_primitives =
     \<lparr>pr_seal = (\<lambda>k n p. Some (p @ pad 16 k)),
      pr_open = (\<lambda>k n c. if drop (length c - 16) c = pad 16 k then Some (take (length c - 16) c) else None),
      pr_hkdf = (\<lambda>k info. pad 32 k), pr_verifying = (\<lambda>s. pad 32 s),
      pr_sign = (\<lambda>s m. pad 64 (pad 32 s)), pr_point = (\<lambda>_. True),
      pr_verify = (\<lambda>pk m sig. sig = pad 64 pk),
      pr_build = (\<lambda>_ _ _. Ok ()), pr_argon2 = (\<lambda>_ _ _ pw _. Ok (pad 32 pw))\<rparr>"

lemma sample_crypto_ok: "crypto_ok sample_primitives"
  by (auto simp: crypto_ok_def sample_primitives_def vault_sizes GCM_TAG_LEN_def)

lemma wrap_unwrap_witness:
  "unwrap_argon2id sample_primitives
     (replicate 12 7 @ replicate 32 1 @ pad 16 (pad 32 [0x70])) [0x70] [] (from_config 3 64 1)
   = Ok (replicate 32 1)"
proof -
  have "validate (from_config 3 64 1) = Ok ()"
    by (simp add: validate_def from_config_def Let_def clamp_def param_bounds saturating_mul_def u32_try_from_def)
  then have "wrap_argon2id sample_primitives (replicate 12 7) (replicate 32 1) [0x70] [] (from_config 3 64 1)
      = Ok (replicate 12 7 @ replicate 32 1 @ pad 16 (pad 32 [0x70]))"
    by (simp add: wrap_argon2id_def to_argon2_def hash_password_def sample_primitives_def)
  from wrap_unwrap [OF sample_crypto_ok _ _ this] show ?thesis
    by (simp add: vault_sizes)
qed

text \<open>The parameters in a header are checked before they size anything: a wrapper of the right
  length with parameters out of bounds is refused whatever the password hash would have done,
  and so is one that is too short.\<close>

theorem hostile_params_refused:
  assumes "validate params = Err e \<or> length wrapped < 60"
  shows "\<exists>e'. unwrap_argon2id P wrapped password salt params = Err e'
    \<and> unwrap_argon2id (P\<lparr>pr_argon2 := f, pr_open := g, pr_build := h\<rparr>) wrapped password salt params = Err e'"
  using assms by (auto simp: unwrap_argon2id_def to_argon2_def vault_sizes GCM_TAG_LEN_def)

lemma hostile_params_refused_witness:
  "\<exists>e'. unwrap_argon2id sample_primitives (replicate 60 0) [] [] \<lparr>a_t = 3, a_m_kib = 4194305, a_p = 1\<rparr> = Err e'"
proof -
  have "\<exists>e. validate \<lparr>a_t = 3, a_m_kib = 4194305, a_p = 1\<rparr> = Err e"
    by (simp add: validate_def param_bounds)
  then obtain e where "validate \<lparr>a_t = 3, a_m_kib = 4194305, a_p = 1\<rparr> = Err e" by blast
  then show ?thesis using hostile_params_refused [of _ e "replicate 60 0" sample_primitives] by blast
qed

lemma passes_kept: "t \<in> {6, 8, 10} \<Longrightarrow> a_t (from_config t m p) = t"
  by (auto simp: from_config_def Let_def clamp_def param_bounds)

text \<open>The parameters chosen for a machine are within the bounds whatever its memory report says,
  and take at least a sixteenth of a gibibyte; fewer passes are made only with more memory.\<close>

theorem detected_params_valid:
  "validate (auto_detect meminfo) = Ok () \<and> 65536 \<le> a_m_kib (auto_detect meminfo)
   \<and> a_m_kib (auto_detect meminfo) \<le> 1048576 \<and> a_t (auto_detect meminfo) \<in> {6, 8, 10}"
proof -
  obtain x where x: "auto_detect meminfo =
      from_config (if clamp 64 1024 x \<ge> HIGH_MEMORY_MIB then PASSES_HIGH
        else if clamp 64 1024 x \<ge> MID_MEMORY_MIB then PASSES_MID else PASSES_LOW)
       (ucast (clamp 64 1024 x :: u64)) DEFAULT_PARALLELISM" (is "_ = from_config ?t ?m _")
    unfolding auto_detect_def Let_def by blast
  have "(64 :: u64) \<le> clamp 64 1024 x \<and> clamp 64 1024 x \<le> (1024 :: u64)" by (rule clamp_bounds) simp
  then have c: "64 \<le> unat (clamp 64 1024 x :: u64)" "unat (clamp 64 1024 x :: u64) \<le> 1024"
    by (simp_all add: word_le_nat_alt)
  then have "unat ?m = unat (clamp 64 1024 x :: u64)"
    by (simp add: unsigned_ucast_eq take_bit_nat_eq_self)
  with c from_config_memory [of ?t ?m DEFAULT_PARALLELISM]
  have m: "65536 \<le> unat (a_m_kib (auto_detect meminfo)) \<and> unat (a_m_kib (auto_detect meminfo)) \<le> 1048576"
    unfolding x by simp
  have "?t \<in> {6, 8, 10}" by (simp add: PASSES_HIGH_def PASSES_MID_def PASSES_LOW_def)
  then have t: "a_t (auto_detect meminfo) \<in> {6, 8, 10}"
    unfolding x by (simp only: passes_kept)
  have v: "validate (auto_detect meminfo) = Ok ()"
    unfolding x using configured_params_lemma by blast
  show ?thesis
    by (intro conjI v t) (use m in \<open>simp_all add: word_le_nat_alt\<close>)
qed

end
