(* ===== verification/Vault_Lockout.thy ===== *)
theory Vault_Lockout
  imports Vault_Header
begin

text \<open>
  The unlock rate limiter (crates/vault/src/lockout/state.rs, guard.rs). Its state is kept in
  the operating system's credential store first and in a file second; both are slots that a
  read may find empty or unusable and a write may fail to change. The limiter is proved to
  survive the death of the process at any point of an attempt, and to hold the tiers of delay
  its constants promise.
\<close>

section \<open>State\<close>

definition MAX_ATTEMPTS_BEFORE_HARD_LOCKOUT :: u32 where "MAX_ATTEMPTS_BEFORE_HARD_LOCKOUT = 10"
definition HARD_LOCKOUT_DURATION_MS :: u64 where "HARD_LOCKOUT_DURATION_MS = 300000"

record lockout_state =
  lo_failed :: u32
  lo_until :: u64
  lo_use_keychain :: bool

definition lockout_new :: "bool \<Rightarrow> lockout_state" where
  "lockout_new use_keychain = \<lparr>lo_failed = 0, lo_until = 0, lo_use_keychain = use_keychain\<rparr>"

text \<open>
  The serializer of the state (a third-party library; the keychain flag is skipped), and the
  places it is kept in: what is stored, and whether the store can be opened, read and written.
\<close>

record lockout_json =
  lj_show :: "u32 \<Rightarrow> u64 \<Rightarrow> rstring option"
  lj_parse :: "rstring \<Rightarrow> (u32 \<times> u64) option"

record lockout_store =
  ls_keychain :: "rstring option"
  ls_keychain_opens :: bool
  ls_keychain_writes :: bool
  ls_file :: "rstring option"
  ls_file_writes :: bool

definition of_pair :: "bool \<Rightarrow> u32 \<times> u64 \<Rightarrow> lockout_state" where
  "of_pair use_keychain p = \<lparr>lo_failed = fst p, lo_until = snd p, lo_use_keychain = use_keychain\<rparr>"

section \<open>Loading and saving\<close>

definition lockout_load :: "lockout_json \<Rightarrow> lockout_store \<Rightarrow> bool \<Rightarrow> lockout_state" where
  "lockout_load js st use_keychain =
     (case (if use_keychain \<and> ls_keychain_opens st then ls_keychain st \<bind> lj_parse js else None) of
        Some p \<Rightarrow> of_pair use_keychain p
      | None \<Rightarrow>
          (case ls_file st \<bind> lj_parse js of
             Some p \<Rightarrow> of_pair use_keychain p
           | None \<Rightarrow> of_pair use_keychain (0, 0)))"

definition lockout_save :: "lockout_json \<Rightarrow> lockout_state \<Rightarrow> lockout_store \<Rightarrow> lockout_store" where
  "lockout_save js s st =
     (case lj_show js (lo_failed s) (lo_until s) of
        None \<Rightarrow> st
      | Some json \<Rightarrow>
          let st = (if lo_use_keychain s \<and> ls_keychain_opens st \<and> ls_keychain_writes st
                    then st\<lparr>ls_keychain := Some json\<rparr> else st)
          in if ls_file_writes st then st\<lparr>ls_file := Some json\<rparr> else st)"

section \<open>Attempts\<close>

definition backoff_deadline :: "lockout_state \<Rightarrow> u64 \<Rightarrow> u64" where
  "backoff_deadline s now =
     (if lo_failed s \<ge> MAX_ATTEMPTS_BEFORE_HARD_LOCKOUT then now + HARD_LOCKOUT_DURATION_MS
      else if lo_failed s \<ge> 3 then
        let delay_sec = min (push_bit (unat (lo_failed s - 3)) 1) 60 in now + delay_sec * 1000
      else 0)"

definition on_attempt ::
  "lockout_json \<Rightarrow> u64 \<Rightarrow> lockout_state \<times> lockout_store \<Rightarrow> lockout_state \<times> lockout_store" where
  "on_attempt js now ls =
     (let (s, st) = ls;
          s = s\<lparr>lo_failed := lo_failed s + 1\<rparr>;
          s = s\<lparr>lo_until := max (backoff_deadline s now) (lo_until s)\<rparr>
      in (s, lockout_save js s st))"

definition on_failure_recorded ::
  "lockout_json \<Rightarrow> u64 \<Rightarrow> lockout_state \<times> lockout_store \<Rightarrow> lockout_state \<times> lockout_store" where
  "on_failure_recorded js now ls =
     (let (s, st) = ls;
          s = s\<lparr>lo_until := max (backoff_deadline s now) (lo_until s)\<rparr>
      in (s, lockout_save js s st))"

definition on_success ::
  "lockout_json \<Rightarrow> lockout_state \<times> lockout_store \<Rightarrow> lockout_state \<times> lockout_store" where
  "on_success js ls =
     (let (s, st) = ls;
          s = s\<lparr>lo_failed := 0, lo_until := 0\<rparr>
      in (s, lockout_save js s st))"

definition div_ceil :: "u64 \<Rightarrow> u64 \<Rightarrow> u64" where
  "div_ceil a b = (let q = a div b; r = a mod b in if r > 0 then q + 1 else q)"

definition check_lockout :: "lockout_state \<Rightarrow> u64 \<Rightarrow> (unit, vault_error) result" where
  "check_lockout s now =
     (if now < lo_until s then Err (RateLimited (div_ceil (lo_until s - now) 1000)) else Ok ())"

text \<open>The guard that finalises an attempt when it is dropped; a poisoned lock leaves it as it is.\<close>

record lockout_guard =
  gd_succeeded :: bool

definition guard_new :: lockout_guard where "guard_new = \<lparr>gd_succeeded = False\<rparr>"

definition mark_success :: "lockout_guard \<Rightarrow> lockout_guard" where
  "mark_success g = g\<lparr>gd_succeeded := True\<rparr>"

definition guard_drop ::
  "lockout_json \<Rightarrow> u64 \<Rightarrow> lockout_guard \<Rightarrow> lockout_state \<times> lockout_store \<Rightarrow> lockout_state \<times> lockout_store" where
  "guard_drop js now g ls =
     (if gd_succeeded g then on_success js ls else on_failure_recorded js now ls)"

section \<open>The serializer's promise\<close>

text \<open>What was written reads back.\<close>

definition lockout_json_ok :: "lockout_json \<Rightarrow> bool" where
  "lockout_json_ok js \<longleftrightarrow> (\<forall>n u. \<exists>t. lj_show js n u = Some t \<and> lj_parse js t = Some (n, u))"

text \<open>A store in which the state can be kept: the file can be written, and the keychain too when it
  is to be used and holds something readable.\<close>

definition store_works :: "lockout_store \<Rightarrow> bool" where
  "store_works st \<longleftrightarrow> ls_file_writes st \<and> (ls_keychain_opens st \<longrightarrow> ls_keychain_writes st \<or> ls_keychain st = None)"

lemma load_save:
  assumes "lockout_json_ok js" and "store_works st"
  shows "lockout_load js (lockout_save js s st) (lo_use_keychain s) = s"
proof -
  obtain t where t: "lj_show js (lo_failed s) (lo_until s) = Some t"
    "lj_parse js t = Some (lo_failed s, lo_until s)"
    using assms(1) by (auto simp: lockout_json_ok_def)
  with assms(2) show ?thesis
    by (auto simp: lockout_load_def lockout_save_def store_works_def of_pair_def)
qed

lemma save_works: "store_works st \<Longrightarrow> store_works (lockout_save js s st)"
  by (auto simp: lockout_save_def store_works_def Let_def split: option.split)

section \<open>The tiers\<close>

text \<open>The delay, in milliseconds, that a number of failed attempts earns.\<close>

definition tier :: "nat \<Rightarrow> nat" where
  "tier n = (if 10 \<le> n then 300000 else if 3 \<le> n then min (2 ^ (n - 3)) 60 * 1000 else 0)"

lemma tier_le: "tier n \<le> 300000"
  by (auto simp: tier_def min_def)

lemma unat_delay:
  assumes "k < 7"
  shows "unat (min (push_bit k 1) 60 * 1000 :: u64) = min (2 ^ k) 60 * 1000"
proof -
  have "(2 :: nat) ^ k < 2 ^ 64"
    using assms by (intro power_strict_increasing) simp_all
  then have "unat (of_nat (2 ^ k) :: u64) = 2 ^ k"
    by (simp only: unat_of_nat take_bit_nat_eq_self) simp
  then have "unat (push_bit k 1 :: u64) = 2 ^ k"
    by (simp add: push_bit_eq_mult)
  then have m: "unat (min (push_bit k 1) 60 :: u64) = min (2 ^ k) 60"
    by (simp add: min_def word_le_nat_alt)
  have "unat (min (push_bit k 1) 60 :: u64) * unat (1000 :: u64) < 2 ^ 64"
    unfolding m by (simp add: min_def)
  then show ?thesis
    using m by (subst unat_mult_lem [THEN iffD1]) simp_all
qed

lemma backoff_unat:
  assumes "unat now + 300000 < 2 ^ 64"
  shows "tier (unat (lo_failed s)) \<noteq> 0 \<Longrightarrow>
           unat (backoff_deadline s now) = unat now + tier (unat (lo_failed s))"
    and "tier (unat (lo_failed s)) = 0 \<Longrightarrow> backoff_deadline s now = 0"
proof -
  have add: "d \<le> 300000 \<Longrightarrow> unat (now + of_nat d) = unat now + d" for d
    using assms by (subst unat_add_lem [THEN iffD1]) (simp_all add: unat_of_nat)
  let ?n = "unat (lo_failed s)"
  have "(unat (backoff_deadline s now) = unat now + tier ?n \<and> 0 < tier ?n)
      \<or> (backoff_deadline s now = 0 \<and> tier ?n = 0)"
  proof (cases "lo_failed s \<ge> MAX_ATTEMPTS_BEFORE_HARD_LOCKOUT")
    case True
    then have "10 \<le> ?n" by (simp add: word_le_nat_alt MAX_ATTEMPTS_BEFORE_HARD_LOCKOUT_def)
    with True add [of 300000] show ?thesis
      by (simp add: backoff_deadline_def tier_def HARD_LOCKOUT_DURATION_MS_def)
  next
    case hard: False
    then have lt: "?n < 10" by (simp add: word_le_nat_alt MAX_ATTEMPTS_BEFORE_HARD_LOCKOUT_def)
    show ?thesis
    proof (cases "lo_failed s \<ge> 3")
      case False
      with hard lt show ?thesis by (simp add: backoff_deadline_def tier_def word_le_nat_alt)
    next
      case True
      then have ge: "3 \<le> ?n" by (simp add: word_le_nat_alt)
      then have sub: "unat (lo_failed s - 3) = ?n - 3"
        using True by (simp add: unat_sub)
      have k: "?n - 3 < 7" using lt by simp
      let ?d = "min (push_bit (?n - 3) 1) 60 * 1000 :: u64"
      have d: "unat ?d = min (2 ^ (?n - 3)) 60 * 1000" by (rule unat_delay [OF k])
      then have "unat ?d \<le> 300000" by (simp add: min_def)
      with add [of "unat ?d"] have "unat (now + ?d) = unat now + unat ?d" by simp
      with hard True lt ge d show ?thesis
        by (simp add: backoff_deadline_def tier_def sub Let_def)
    qed
  qed
  then show "tier ?n \<noteq> 0 \<Longrightarrow> unat (backoff_deadline s now) = unat now + tier ?n"
    and "tier ?n = 0 \<Longrightarrow> backoff_deadline s now = 0"
    by auto
qed

section \<open>Guessing\<close>

text \<open>
  One wrong guess by a process of its own: it starts at some time after the last, loads the
  state, is admitted, counts the attempt, and is then killed, or lives until the guess has
  failed and records that. The state is what is stored and the time.
\<close>

inductive guess :: "lockout_json \<Rightarrow> bool \<Rightarrow> lockout_store \<times> u64 \<Rightarrow> lockout_store \<times> u64 \<Rightarrow> bool"
  for js uk where
  killed: "t \<le> now \<Longrightarrow> s = lockout_load js st uk \<Longrightarrow> check_lockout s now = Ok () \<Longrightarrow>
    on_attempt js now (s, st) = (s', st') \<Longrightarrow> guess js uk (st, t) (st', now)"
| failed: "t \<le> now \<Longrightarrow> s = lockout_load js st uk \<Longrightarrow> check_lockout s now = Ok () \<Longrightarrow>
    on_attempt js now (s, st) = (s1, st1) \<Longrightarrow> now \<le> later \<Longrightarrow>
    guard_drop js later guard_new (s1, st1) = (s', st') \<Longrightarrow> guess js uk (st, t) (st', later)"

inductive guesses :: "lockout_json \<Rightarrow> bool \<Rightarrow> nat \<Rightarrow> lockout_store \<times> u64 \<Rightarrow> lockout_store \<times> u64 \<Rightarrow> bool"
  for js uk where
  none: "guesses js uk 0 c c"
| more: "guesses js uk n c c' \<Longrightarrow> guess js uk c' c'' \<Longrightarrow> guesses js uk (Suc n) c c''"

text \<open>What one guess leaves behind: one more counted attempt, and a deadline at least the tier away
  from its end.\<close>

lemma deadline_reached:
  assumes "unat now + 300000 < 2 ^ 64"
  shows "tier (unat (lo_failed s)) = 0
         \<or> unat now + tier (unat (lo_failed s)) \<le> unat (max (backoff_deadline s now) u)"
proof (cases "tier (unat (lo_failed s)) = 0")
  case False
  with backoff_unat(1) [OF assms] show ?thesis
    by (auto simp: max_def word_le_nat_alt)
qed simp

lemma guess_effect:
  assumes "guess js uk (st, t) (st', t')" and js: "lockout_json_ok js" and works: "store_works st"
    and small: "unat (lo_failed (lockout_load js st uk)) + 1 < 2 ^ 32" and time: "unat t' + 300000 < 2 ^ 64"
  defines "s \<equiv> lockout_load js st uk" and "s' \<equiv> lockout_load js st' uk"
  shows "store_works st' \<and> unat (lo_failed s') = unat (lo_failed s) + 1 \<and> t \<le> t'
    \<and> unat (lo_until s) \<le> unat t'
    \<and> (tier (unat (lo_failed s')) = 0 \<or> unat t' + tier (unat (lo_failed s')) \<le> unat (lo_until s'))"
proof -
  have uk: "lo_use_keychain (lockout_load js st uk) = uk" for st
    by (simp add: lockout_load_def of_pair_def split: option.split)
  have inc: "unat (lo_failed s + 1) = unat (lo_failed s) + 1"
    using small by (simp add: s_def unat_plus_if')
  from assms(1) show ?thesis
  proof (cases rule: guess.cases)
    case (killed s0 s0')
    let ?a = "(s\<lparr>lo_failed := lo_failed s + 1\<rparr>)"
    let ?b = "?a\<lparr>lo_until := max (backoff_deadline ?a t') (lo_until s)\<rparr>"
    have st': "st' = lockout_save js ?b st" and adm: "\<not> t' < lo_until s" and le: "t \<le> t'"
      using killed by (auto simp: on_attempt_def s_def Let_def check_lockout_def split: if_splits)
    have "lockout_load js st' (lo_use_keychain ?b) = ?b"
      unfolding st' by (rule load_save [OF js works])
    then have "s' = ?b" by (simp add: s'_def s_def uk)
    moreover have "tier (unat (lo_failed ?a)) = 0
        \<or> unat t' + tier (unat (lo_failed ?a)) \<le> unat (max (backoff_deadline ?a t') (lo_until s))"
      by (rule deadline_reached [OF time])
    ultimately show ?thesis
      using inc le adm save_works [OF works] by (simp add: st' word_le_nat_alt not_less)
  next
    case (failed now s0 s1 st1 s0')
    let ?a = "(s\<lparr>lo_failed := lo_failed s + 1\<rparr>)"
    let ?u = "max (backoff_deadline ?a now) (lo_until s)"
    let ?b = "?a\<lparr>lo_until := max (backoff_deadline (?a\<lparr>lo_until := ?u\<rparr>) t') ?u\<rparr>"
    have st1: "st1 = lockout_save js (?a\<lparr>lo_until := ?u\<rparr>) st" and s1: "s1 = ?a\<lparr>lo_until := ?u\<rparr>"
      and adm: "\<not> now < lo_until s" and le: "t \<le> now" "now \<le> t'"
      using failed by (auto simp: on_attempt_def s_def Let_def check_lockout_def split: if_splits)
    have st': "st' = lockout_save js ?b st1"
      using failed(6) by (auto simp: guard_drop_def guard_new_def on_failure_recorded_def s1 Let_def)
    have "store_works st1" unfolding st1 by (rule save_works [OF works])
    then have "lockout_load js st' (lo_use_keychain ?b) = ?b" and w: "store_works st'"
      unfolding st' by (rule load_save [OF js], rule save_works)
    then have "s' = ?b" by (simp add: s'_def s_def uk)
    moreover have "tier (unat (lo_failed (?a\<lparr>lo_until := ?u\<rparr>))) = 0
        \<or> unat t' + tier (unat (lo_failed (?a\<lparr>lo_until := ?u\<rparr>)))
          \<le> unat (max (backoff_deadline (?a\<lparr>lo_until := ?u\<rparr>) t') ?u)"
      by (rule deadline_reached [OF time])
    ultimately show ?thesis
      using inc le adm w by (simp add: word_le_nat_alt not_less)
  qed
qed

text \<open>The invariant along a run of guesses, from the end of the first.\<close>

lemma guesses_time_mono: "guesses js uk n (st, t) (st', t') \<Longrightarrow> t \<le> t'"
proof (induction n "(st, t)" "(st', t')" arbitrary: st' t' rule: guesses.induct)
  case none
  then show ?case by simp
next
  case (more n c')
  obtain st1 t1 where c': "c' = (st1, t1)" by (cases c')
  have "t \<le> t1" using more(2) c' by simp
  moreover have "t1 \<le> t'" using more(3) unfolding c' by (cases rule: guess.cases) auto
  ultimately show ?case by simp
qed

lemma guesses_effect:
  assumes "guesses js uk n (st1, t1) (st, t)" and js: "lockout_json_ok js" and works: "store_works st1"
    and f: "unat (lo_failed (lockout_load js st1 uk)) = f" and small: "f + n < 2 ^ 32"
    and time: "unat t + 300000 < 2 ^ 64"
    and first: "tier f = 0 \<or> unat t1 + tier f \<le> unat (lo_until (lockout_load js st1 uk))"
  shows "store_works st \<and> unat (lo_failed (lockout_load js st uk)) = f + n
    \<and> unat t1 + (\<Sum>i < n. tier (f + i)) \<le> unat t
    \<and> (tier (f + n) = 0 \<or> unat t + tier (f + n) \<le> unat (lo_until (lockout_load js st uk)))"
  using assms(1) small time
proof (induction n "(st1, t1)" "(st, t)" arbitrary: st t rule: guesses.induct)
  case none
  then show ?case using works f first by simp
next
  case (more n c')
  obtain st2 t2 where c': "c' = (st2, t2)" by (cases c')
  have g: "guess js uk (st2, t2) (st, t)" using more(3) by (simp add: c')
  have mono: "t2 \<le> t" using g by (cases rule: guess.cases) auto
  then have "unat t2 + 300000 < 2 ^ 64" using more.prems(2) by (simp add: word_le_nat_alt)
  with more(2) [OF c'] more.prems(1) have IH: "store_works st2"
    "unat (lo_failed (lockout_load js st2 uk)) = f + n"
    "unat t1 + (\<Sum>i < n. tier (f + i)) \<le> unat t2"
    "tier (f + n) = 0 \<or> unat t2 + tier (f + n) \<le> unat (lo_until (lockout_load js st2 uk))"
    by simp_all
  have "unat (lo_failed (lockout_load js st2 uk)) + 1 < 2 ^ 32"
    using more.prems(1) IH(2) by simp
  note e = guess_effect [OF g js IH(1) this more.prems(2)]
  have "unat t2 + tier (f + n) \<le> unat t"
    using e IH(4) by (auto simp: word_le_nat_alt)
  with IH(3) have sum: "unat t1 + (\<Sum>i < Suc n. tier (f + i)) \<le> unat t" by simp
  have c: "unat (lo_failed (lockout_load js st uk)) = Suc (f + n)"
    using e IH(2) by simp
  with e sum show ?case by (metis add_Suc_right)
qed

section \<open>Rounding up\<close>

lemma ceiling_nat:
  assumes b: "0 < b"
  shows "(a + b - 1) div b = a div b + (if a mod b = 0 then 0 else 1 :: nat)"
proof -
  define q r where "q = a div b" and "r = a mod b"
  have a: "a = r + q * b" and lt: "r < b"
    using b by (simp_all add: q_def r_def)
  have "(a + b - 1) div b = q + (if r = 0 then 0 else 1)"
  proof (cases "r = 0")
    case True
    have "a + b - 1 = (b - 1) + q * b" using a b True by linarith
    moreover have "((b - 1) + q * b) div b = q + (b - 1) div b" using b by (intro div_mult_self1) simp
    ultimately show ?thesis using True b by simp
  next
    case False
    have "a + b - 1 = (r - 1) + (q * b + b)" using a False by linarith
    then have "a + b - 1 = (r - 1) + (q + 1) * b" by simp
    moreover have "((r - 1) + (q + 1) * b) div b = (q + 1) + (r - 1) div b" using b by (intro div_mult_self1) simp
    ultimately show ?thesis using False lt by simp
  qed
  then show ?thesis by (simp add: q_def r_def)
qed

lemma len64: "LENGTH(64) = 64" by simp

lemma unat_div_ceil:
  assumes "0 < unat b"
  shows "unat (div_ceil a b) = (unat a + unat b - 1) div unat b"
proof (cases "unat a mod unat b = 0")
  case True
  then have "\<not> a mod b > 0" by (simp add: word_less_nat_alt unat_mod)
  then show ?thesis
    using True by (simp only: ceiling_nat [OF assms]) (simp add: div_ceil_def Let_def unat_div)
next
  case False
  then have "a mod b > 0" by (simp add: word_less_nat_alt unat_mod)
  moreover have "unat (a div b + 1) = unat a div unat b + 1"
  proof -
    have "unat b \<noteq> 1" using False by auto
    moreover have "unat a \<noteq> 0" using False by (metis mod_0)
    ultimately have "unat a div unat b < unat a" using assms by simp
    moreover have "unat a < 2 ^ 64" using unsigned_less [of a] by (simp only: len64)
    ultimately have "unat a div unat b + 1 < 2 ^ 64" by linarith
    then show ?thesis by (simp add: unat_plus_if' unat_div)
  qed
  ultimately show ?thesis
    using False by (simp only: ceiling_nat [OF assms]) (simp add: div_ceil_def Let_def)
qed

section \<open>Properties\<close>


text \<open>A serializer that keeps the promise: the numbers in decimal, with a colon between them.\<close>

definition sample_json :: lockout_json where
  "sample_json =
     \<lparr>lj_show = (\<lambda>n u. Some (le_bytes 4 n @ le_bytes 8 u)),
      lj_parse = (\<lambda>t. Some (of_le (take 4 t), of_le (drop 4 t)))\<rparr>"

lemma sample_json_ok: "lockout_json_ok sample_json"
  by (simp add: lockout_json_ok_def sample_json_def)

definition sample_store :: lockout_store where
  "sample_store =
     \<lparr>ls_keychain = None, ls_keychain_opens = True, ls_keychain_writes = True, ls_file = None,
      ls_file_writes = True\<rparr>"

lemma sample_guess: "\<exists>st. guess sample_json True (sample_store, 5) (st, 7)"
proof -
  let ?s = "lockout_load sample_json sample_store True"
  have "lo_until ?s = 0"
    by (simp add: lockout_load_def sample_store_def of_pair_def)
  then have "check_lockout ?s 7 = Ok ()" by (simp add: check_lockout_def)
  moreover obtain s' st' where "on_attempt sample_json 7 (?s, sample_store) = (s', st')" by fastforce
  ultimately show ?thesis
    using guess.killed [of 5 7 ?s sample_json sample_store True s' st'] by auto
qed


text \<open>The wait a refusal reports is exact: after that many seconds the attempt is admitted, and
  one second earlier it is still refused. Nothing is refused once the deadline has passed.\<close>

theorem reported_wait_tight:
  assumes "check_lockout s now = Err (RateLimited r)"
    and "unat now + unat r * 1000 < 2 ^ 64"
  shows "check_lockout s (now + r * 1000) = Ok () \<and> 0 < r
    \<and> \<not> is_ok (check_lockout s (now + (r - 1) * 1000))"
proof -
  let ?d = "unat (lo_until s - now)"
  have lt: "now < lo_until s" and r: "r = div_ceil (lo_until s - now) 1000"
    using assms(1) by (simp_all add: check_lockout_def split: if_splits)
  have d: "unat (lo_until s) = unat now + ?d" "0 < ?d"
    using lt by (simp_all add: unat_sub word_less_nat_alt less_imp_le)
  have rn: "unat r = (?d + 999) div 1000"
    unfolding r by (subst unat_div_ceil) simp_all
  then have pos: "0 < unat r" and above: "?d \<le> unat r * 1000" and below: "(unat r - 1) * 1000 < ?d"
    using d(2) by linarith+
  have mul: "k \<le> unat r \<Longrightarrow> unat (now + of_nat k * 1000) = unat now + k * 1000" for k
  proof -
    assume k: "k \<le> unat r"
    have e: "now + of_nat k * 1000 = of_nat (unat now + k * 1000)" by simp
    have "unat now + k * 1000 < 2 ^ 64" using k assms(2) by linarith
    then show ?thesis unfolding e by (simp add: unat_of_nat take_bit_nat_eq_self del: of_nat_add of_nat_mult)
  qed
  have r1: "r - 1 = of_nat (unat r - 1)" using pos by (simp add: of_nat_diff Suc_leI)
  have "unat (now + r * 1000) = unat now + unat r * 1000" using mul [of "unat r"] by simp
  moreover have "unat (now + (r - 1) * 1000) = unat now + (unat r - 1) * 1000"
    unfolding r1 by (rule mul) simp
  ultimately show ?thesis
    using d above below pos by (simp add: check_lockout_def word_less_nat_alt)
qed

lemma reported_wait_tight_witness:
  "check_lockout \<lparr>lo_failed = 4, lo_until = 5500, lo_use_keychain = True\<rparr> 6500 = Ok ()"
proof -
  let ?s = "\<lparr>lo_failed = 4, lo_until = 5500, lo_use_keychain = True\<rparr>"
  have "check_lockout ?s 4500 = Err (RateLimited 1)"
    by (simp add: check_lockout_def div_ceil_def)
  from reported_wait_tight [OF this] show ?thesis
    by (simp add: check_lockout_def)
qed

text \<open>The state as it is stored after removing one of its copies.\<close>

definition without_file :: "lockout_store \<Rightarrow> lockout_store" where
  "without_file st = st\<lparr>ls_file := None\<rparr>"

definition without_keychain :: "lockout_store \<Rightarrow> lockout_store" where
  "without_keychain st = st\<lparr>ls_keychain := None\<rparr>"

text \<open>Removing one copy of the limiter's state resets nothing: when both the keychain and the file
  took the state that was saved, loading it after either has been removed gives that state, and
  only removing both gives a fresh one.\<close>

theorem one_copy_is_enough:
  assumes "lockout_json_ok js" and "lo_use_keychain s"
    and "ls_keychain_opens st" and "ls_keychain_writes st" and "ls_file_writes st"
  defines "st' \<equiv> lockout_save js s st"
  shows "lockout_load js (without_file st') True = s \<and> lockout_load js (without_keychain st') True = s
    \<and> lockout_load js (without_file (without_keychain st')) True = lockout_new True"
proof -
  obtain t where "lj_show js (lo_failed s) (lo_until s) = Some t"
    "lj_parse js t = Some (lo_failed s, lo_until s)"
    using assms(1) by (auto simp: lockout_json_ok_def)
  with assms(2-5) show ?thesis
    unfolding st'_def by (cases s)
      (simp add: lockout_load_def lockout_save_def of_pair_def without_file_def without_keychain_def lockout_new_def)
qed

lemma one_copy_is_enough_witness:
  "lockout_load sample_json (without_file (lockout_save sample_json
     \<lparr>lo_failed = 4, lo_until = 9, lo_use_keychain = True\<rparr> sample_store)) True
   = \<lparr>lo_failed = 4, lo_until = 9, lo_use_keychain = True\<rparr>"
  using one_copy_is_enough [OF sample_json_ok, of "\<lparr>lo_failed = 4, lo_until = 9, lo_use_keychain = True\<rparr>" sample_store]
  by (simp add: sample_store_def)

text \<open>A keychain that can be read but no longer written stops the limiter, although the file is
  written: every process that starts loads the old keychain state, so a guess leaves nothing the
  next one sees, and it is admitted as the first was.\<close>

theorem stale_keychain_stops_limiter:
  assumes "ls_keychain_opens st" and "\<not> ls_keychain_writes st"
    and "ls_keychain st \<bind> lj_parse js = Some p" and "guesses js True n (st, t) (st', t')"
  shows "lockout_load js st' True = of_pair True p"
proof -
  have save: "ls_keychain_opens (lockout_save js s c) = ls_keychain_opens c
      \<and> (\<not> ls_keychain_writes c \<longrightarrow> ls_keychain (lockout_save js s c) = ls_keychain c)
      \<and> ls_keychain_writes (lockout_save js s c) = ls_keychain_writes c" for s c
    by (simp add: lockout_save_def Let_def split: option.split)
  let ?inv = "\<lambda>c. ls_keychain_opens c \<and> \<not> ls_keychain_writes c \<and> ls_keychain c = ls_keychain st"
  have step: "guess js True c c' \<Longrightarrow> ?inv (fst c) \<Longrightarrow> ?inv (fst c')" for c c'
    by (induction rule: guess.induct)
       (auto simp: on_attempt_def guard_drop_def guard_new_def on_failure_recorded_def Let_def save)
  have "guesses js True n c c' \<Longrightarrow> ?inv (fst c) \<Longrightarrow> ?inv (fst c')" for n c c'
    by (induction rule: guesses.induct) (auto dest: step)
  from this [OF assms(4)] assms(1,2) have "?inv st'" by simp
  with assms(3) show ?thesis by (simp add: lockout_load_def)
qed

definition stale_store :: lockout_store where
  "stale_store = \<lparr>ls_keychain = Some (le_bytes 4 (0 :: u32) @ le_bytes 8 (0 :: u64)), ls_keychain_opens = True,
     ls_keychain_writes = False, ls_file = None, ls_file_writes = True\<rparr>"

lemma stale_keychain_stops_limiter_witness:
  "lockout_load sample_json stale_store True = of_pair True (0, 0)"
  by (rule stale_keychain_stops_limiter [OF _ _ _ guesses.none])
     (simp_all add: stale_store_def sample_json_def)

end
