(* ===== verification/Vault_Rollback.thy ===== *)
theory Vault_Rollback
  imports Vault_Header
begin

text \<open>
  Rollback detection (crates/vault/src/rollback.rs): the highest counter and timestamp a vault was
  saved with, kept as an anchor where restoring an old vault file does not restore it. The
  program states the anchor's interface as a trait; here it is the locale \<open>anchor_store\<close>, and
  \<open>reliable_anchor\<close> where a write takes effect. The account name, a hash of the vault's path, is
  an argument.
\<close>

section \<open>Anchors\<close>

datatype anchor_read = Value rstring | Absent | Unavailable

text \<open>
  The credential store: whether an entry can be opened, read and written, and the entries. It is a
  third-party service whose every call may fail.
\<close>

record keychain =
  kc_opens :: bool
  kc_reads :: bool
  kc_writes :: bool
  kc_entries :: "rstring \<Rightarrow> rstring option"

definition keychain_read :: "keychain \<Rightarrow> rstring \<Rightarrow> anchor_read" where
  "keychain_read kc account =
     (if \<not> kc_opens kc then Unavailable
      else if \<not> kc_reads kc then Unavailable
      else case kc_entries kc account of Some v \<Rightarrow> Value v | None \<Rightarrow> Absent)"

definition keychain_write :: "keychain \<Rightarrow> rstring \<Rightarrow> rstring \<Rightarrow> keychain" where
  "keychain_write kc account v =
     (if kc_opens kc \<and> kc_writes kc then kc\<lparr>kc_entries := (kc_entries kc)(account \<mapsto> v)\<rparr> else kc)"

text \<open>The in-memory anchor: a map behind a lock that may be poisoned.\<close>

record memory_anchor =
  ma_poisoned :: bool
  ma_map :: "rstring \<Rightarrow> rstring option"

definition memory_read :: "memory_anchor \<Rightarrow> rstring \<Rightarrow> anchor_read" where
  "memory_read m account =
     (if ma_poisoned m then Unavailable
      else case ma_map m account of None \<Rightarrow> Absent | Some v \<Rightarrow> Value v)"

definition memory_write :: "memory_anchor \<Rightarrow> rstring \<Rightarrow> rstring \<Rightarrow> memory_anchor" where
  "memory_write m account v =
     (if ma_poisoned m then m else m\<lparr>ma_map := (ma_map m)(account \<mapsto> v)\<rparr>)"

definition unavailable_read :: "unit \<Rightarrow> rstring \<Rightarrow> anchor_read" where
  "unavailable_read u account = Unavailable"

definition unavailable_write :: "unit \<Rightarrow> rstring \<Rightarrow> rstring \<Rightarrow> unit" where
  "unavailable_write u account v = u"

section \<open>The counter\<close>

definition anchor_text :: "u32 \<Rightarrow> u64 \<Rightarrow> rstring" where
  "anchor_text counter created_ts = show_nat (unat counter) @ [0x3A] @ show_nat (unat created_ts)"

definition parse_stored_counter :: "rstring \<Rightarrow> (u32 \<times> u64) option" where
  "parse_stored_counter stored =
     (let parts = split_at_byte 0x3A stored
      in if length parts \<noteq> 2 then None
         else do {
           counter \<leftarrow> parse_unsigned (2 ^ 32 - 1) (parts ! 0);
           ts \<leftarrow> parse_unsigned (2 ^ 64 - 1) (parts ! 1);
           Some (of_nat counter, of_nat ts)
         })"

definition store_counter_in ::
  "('s \<Rightarrow> rstring \<Rightarrow> rstring \<Rightarrow> 's) \<Rightarrow> 's \<Rightarrow> rstring \<Rightarrow> u32 \<Rightarrow> u64 \<Rightarrow> 's" where
  "store_counter_in write s account counter created_ts = write s account (anchor_text counter created_ts)"

definition check_counter_in ::
  "('s \<Rightarrow> rstring \<Rightarrow> anchor_read) \<Rightarrow> ('s \<Rightarrow> rstring \<Rightarrow> rstring \<Rightarrow> 's) \<Rightarrow> 's \<Rightarrow> rstring \<Rightarrow> u32 \<Rightarrow> u64
   \<Rightarrow> (unit, vault_error) result \<times> 's" where
  "check_counter_in read write s account counter created_ts =
     (case read s account of
        Absent \<Rightarrow> (Ok (), write s account (anchor_text counter created_ts))
      | Unavailable \<Rightarrow> (Ok (), s)
      | Value stored \<Rightarrow>
          (case parse_stored_counter stored of
             None \<Rightarrow> (Ok (), s)
           | Some (stored_counter, stored_ts) \<Rightarrow>
               if counter < stored_counter \<or> created_ts < stored_ts
               then (Err (RollbackDetected stored_counter counter), s)
               else (Ok (), s)))"

definition store_counter :: "keychain \<Rightarrow> rstring \<Rightarrow> u32 \<Rightarrow> u64 \<Rightarrow> bool \<Rightarrow> keychain" where
  "store_counter kc account counter created_ts use_keychain =
     (if \<not> use_keychain then kc else store_counter_in keychain_write kc account counter created_ts)"

definition check_counter ::
  "keychain \<Rightarrow> rstring \<Rightarrow> u32 \<Rightarrow> u64 \<Rightarrow> bool \<Rightarrow> (unit, vault_error) result \<times> keychain" where
  "check_counter kc account counter created_ts use_keychain =
     (if \<not> use_keychain then (Ok (), kc)
      else check_counter_in keychain_read keychain_write kc account counter created_ts)"

lemma unat_less_u32: "unat (w :: u32) \<le> 2 ^ 32 - 1"
proof -
  have "unat w < 2 ^ 32" using unsigned_less [of w] by simp
  then show ?thesis by simp
qed

lemma unat_less_u64: "unat (w :: u64) \<le> 2 ^ 64 - 1"
proof -
  have "unat w < 2 ^ 64" using unsigned_less [of w] by simp
  then show ?thesis by simp
qed

lemma parse_anchor_text [codec_simps]: "parse_stored_counter (anchor_text c t) = Some (c, t)"
proof -
  have "split_at_byte 0x3A (anchor_text c t) = [show_nat (unat c), show_nat (unat t)]"
    by (simp add: anchor_text_def split_at_byte_sep split_at_byte_no_sep colon_not_digit)
  then show ?thesis
    using parse_unsigned_show [OF unat_less_u32 [of c]] parse_unsigned_show [OF unat_less_u64 [of t]]
    by (simp add: parse_stored_counter_def)
qed

section \<open>The interface\<close>

text \<open>
  An anchor store: a write takes effect or changes nothing that is read, and touches one account
  only.
\<close>

locale anchor_store =
  fixes get :: "'s \<Rightarrow> rstring \<Rightarrow> anchor_read"
    and put :: "'s \<Rightarrow> rstring \<Rightarrow> rstring \<Rightarrow> 's"
  assumes write_own: "get (put s a v) a = Value v \<or> get (put s a v) a = get s a"
    and write_other: "b \<noteq> a \<Longrightarrow> get (put s a v) b = get s b"
begin

definition behind :: "'s \<Rightarrow> rstring \<Rightarrow> u32 \<Rightarrow> u64 \<Rightarrow> bool" where
  "behind s a c t \<longleftrightarrow>
     (\<forall>v c0 t0. get s a = Value v \<longrightarrow> parse_stored_counter v = Some (c0, t0) \<longrightarrow> c0 \<le> c \<and> t0 \<le> t)"

lemma behind_accepts: "behind s a c t \<Longrightarrow> fst (check_counter_in get put s a c t) = Ok ()"
  by (auto simp: check_counter_in_def behind_def not_less [symmetric] split: anchor_read.split option.split)

lemma behind_mono: "behind s a c t \<Longrightarrow> c \<le> c' \<Longrightarrow> t \<le> t' \<Longrightarrow> behind s a c' t'"
  by (fastforce simp: behind_def)

lemma behind_write:
  assumes "behind s a c t"
  shows "behind (put s b (anchor_text c t)) a c t"
proof (cases "b = a")
  case True
  with write_own [of s a "anchor_text c t"] assms show ?thesis
    by (auto simp: behind_def codec_simps)
next
  case False
  then show ?thesis using assms write_other [of a b] by (simp add: behind_def)
qed

lemma behind_other: "b \<noteq> a \<Longrightarrow> behind s a c t \<Longrightarrow> behind (put s b v) a c t"
  using write_other [of a b] by (simp add: behind_def)

lemma check_reads_only: "get s a \<noteq> Absent \<Longrightarrow> snd (check_counter_in get put s a c t) = s"
  by (auto simp: check_counter_in_def split: anchor_read.split option.split)

lemma check_effect:
  "snd (check_counter_in get put s a c t) = s
   \<or> get s a = Absent \<and> snd (check_counter_in get put s a c t) = put s a (anchor_text c t)"
  by (auto simp: check_counter_in_def split: anchor_read.split option.split)

lemma stored_decides:
  "get s a = Value (anchor_text c0 t0) \<Longrightarrow>
   check_counter_in get put s a c t =
     (if c < c0 \<or> t < t0 then Err (RollbackDetected c0 c) else Ok (), s)"
  by (simp add: check_counter_in_def codec_simps)

lemma keeps_read:
  "get s a \<noteq> Absent \<Longrightarrow> get (snd (check_counter_in get put s b c t)) a = get s a"
  using check_effect [of s b c t] write_other [of a b] by (cases "b = a") auto

end

text \<open>A store with states in which writes do take effect.\<close>

locale reliable_anchor = anchor_store +
  fixes works :: "'a \<Rightarrow> bool"
  assumes write_takes: "works s \<Longrightarrow> get (put s a v) a = Value v"
    and write_works: "works s \<Longrightarrow> works (put s a v)"
begin

lemma saved_decides:
  "works s \<Longrightarrow>
   check_counter_in get put (store_counter_in put s a c0 t0) a c t =
     (if c < c0 \<or> t < t0 then Err (RollbackDetected c0 c) else Ok (), store_counter_in put s a c0 t0)"
  by (rule stored_decides) (simp add: store_counter_in_def write_takes)

lemma first_adopts:
  "works s \<Longrightarrow> get s a = Absent \<Longrightarrow>
   check_counter_in get put s a c t = (Ok (), store_counter_in put s a c t)"
  by (simp add: check_counter_in_def store_counter_in_def)

end

definition keychain_works :: "keychain \<Rightarrow> bool" where
  "keychain_works kc \<longleftrightarrow> kc_opens kc \<and> kc_reads kc \<and> kc_writes kc"

definition memory_works :: "memory_anchor \<Rightarrow> bool" where
  "memory_works m \<longleftrightarrow> \<not> ma_poisoned m"

interpretation kc: reliable_anchor keychain_read keychain_write keychain_works
  by unfold_locales (auto simp: keychain_read_def keychain_write_def keychain_works_def)

interpretation ma: reliable_anchor memory_read memory_write memory_works
  by unfold_locales (auto simp: memory_read_def memory_write_def memory_works_def)

interpretation ua: anchor_store unavailable_read unavailable_write
  by unfold_locales (simp_all add: unavailable_read_def unavailable_write_def)

section \<open>Histories\<close>

text \<open>
  What can happen to the credential store between two unlocks: vaults are saved and checked, under
  any account, and the service becomes available or stops being so.
\<close>

datatype anchor_event =
    Saved rstring u32 u64
  | Checked rstring u32 u64
  | Service bool bool bool

fun anchor_step :: "anchor_event \<Rightarrow> keychain \<Rightarrow> keychain" where
  "anchor_step (Saved a c t) kc = store_counter kc a c t True"
| "anchor_step (Checked a c t) kc = snd (check_counter kc a c t True)"
| "anchor_step (Service opens reads writes) kc =
     kc\<lparr>kc_opens := opens, kc_reads := reads, kc_writes := writes\<rparr>"

fun saves :: "rstring \<Rightarrow> anchor_event \<Rightarrow> bool" where
  "saves a (Saved b c t) \<longleftrightarrow> b = a"
| "saves a e \<longleftrightarrow> False"

text \<open>What a history does to the entry of an account.\<close>

lemma step_entry:
  assumes "kc_entries kc a = Some v" and "\<not> saves a e"
  shows "kc_entries (anchor_step e kc) a = Some v"
proof (cases e)
  case (Saved b c t)
  with assms show ?thesis by (auto simp: store_counter_def store_counter_in_def keychain_write_def)
next
  case (Checked b c t)
  have "kc_entries (snd (check_counter_in keychain_read keychain_write kc b c t)) a = Some v"
    using kc.check_effect [of kc b c t] assms(1)
    by (cases "b = a") (auto simp: keychain_write_def keychain_read_def split: if_splits)
  with Checked show ?thesis by (simp add: check_counter_def)
qed (use assms in simp)

lemma steps_entry:
  "kc_entries kc a = Some v \<Longrightarrow> list_all (\<lambda>e. \<not> saves a e) es \<Longrightarrow>
   kc_entries (fold anchor_step es kc) a = Some v"
  by (induction es arbitrary: kc) (simp_all add: step_entry)

section \<open>Properties\<close>

text \<open>C32: Once a vault has been saved while the credential store worked, an older copy of it is
  refused at every later check at which the store can be read, whatever was saved or checked
  for other vaults and however the service came and went in between: it is refused exactly when
  its counter or its timestamp is below the saved one.\<close>

theorem rollback_detected:
  assumes "keychain_works kc" and "list_all (\<lambda>e. \<not> saves a e) es"
    and "kc' = fold anchor_step es (store_counter kc a c0 t0 True)"
    and "kc_opens kc'" and "kc_reads kc'"
  shows "check_counter kc' a c t True =
    (if c < c0 \<or> t < t0 then Err (RollbackDetected c0 c) else Ok (), kc')"
proof -
  have "kc_entries (store_counter kc a c0 t0 True) a = Some (anchor_text c0 t0)"
    using assms(1) by (simp add: store_counter_def store_counter_in_def keychain_write_def keychain_works_def)
  then have "kc_entries kc' a = Some (anchor_text c0 t0)"
    using assms(2) unfolding assms(3) by (rule steps_entry)
  with assms(4,5) have "keychain_read kc' a = Value (anchor_text c0 t0)"
    by (simp add: keychain_read_def)
  from kc.stored_decides [OF this] show ?thesis by (simp add: check_counter_def)
qed

definition sample_keychain :: keychain where
  "sample_keychain = \<lparr>kc_opens = True, kc_reads = True, kc_writes = True, kc_entries = (\<lambda>_. None)\<rparr>"

lemma rollback_detected_witness:
  "fst (check_counter (store_counter sample_keychain [0x61] 10 1000 True) [0x61] 5 1000 True)
   = Err (RollbackDetected 10 5)"
  using rollback_detected [of sample_keychain "[0x61]" "[]" _ 10 1000 5 1000]
  by (simp add: keychain_works_def sample_keychain_def store_counter_def store_counter_in_def keychain_write_def)

text \<open>
  The history of one vault that is only ever saved forwards: each event on its account carries a
  counter and a timestamp not below those of the last.
\<close>

fun honest :: "rstring \<Rightarrow> u32 \<Rightarrow> u64 \<Rightarrow> anchor_event list \<Rightarrow> bool" where
  "honest a c t [] \<longleftrightarrow> True"
| "honest a c t (Saved b c' t' # es) \<longleftrightarrow>
     (if b = a then c \<le> c' \<and> t \<le> t' \<and> honest a c' t' es else honest a c t es)"
| "honest a c t (Checked b c' t' # es) \<longleftrightarrow>
     (if b = a then c \<le> c' \<and> t \<le> t' \<and> honest a c' t' es else honest a c t es)"
| "honest a c t (Service p q r # es) \<longleftrightarrow> honest a c t es"

fun accusations :: "rstring \<Rightarrow> anchor_event list \<Rightarrow> keychain \<Rightarrow> nat" where
  "accusations a [] kc = 0"
| "accusations a (e # es) kc =
     (case e of
        Checked b c t \<Rightarrow> if b = a \<and> fst (check_counter kc b c t True) \<noteq> Ok () then 1 else 0
      | _ \<Rightarrow> 0) + accusations a es (anchor_step e kc)"

text \<open>The entry is behind whether or not the service can be read at the moment.\<close>

definition entry_behind :: "keychain \<Rightarrow> rstring \<Rightarrow> u32 \<Rightarrow> u64 \<Rightarrow> bool" where
  "entry_behind kc a c t \<longleftrightarrow>
     (\<forall>v c0 t0. kc_entries kc a = Some v \<longrightarrow> parse_stored_counter v = Some (c0, t0) \<longrightarrow> c0 \<le> c \<and> t0 \<le> t)"

lemma entry_behind_kc: "entry_behind kc a c t \<Longrightarrow> kc.behind kc a c t"
  by (auto simp: entry_behind_def kc.behind_def keychain_read_def split: if_splits option.splits)

lemma entry_behind_write:
  "entry_behind kc a c t \<Longrightarrow> entry_behind (keychain_write kc a (anchor_text c t)) a c t"
  by (auto simp: entry_behind_def keychain_write_def codec_simps)

lemma entry_behind_write_other:
  "b \<noteq> a \<Longrightarrow> entry_behind kc a c t \<Longrightarrow> entry_behind (keychain_write kc b v) a c t"
  by (simp add: entry_behind_def keychain_write_def)

lemma entry_behind_mono:
  "entry_behind kc a c t \<Longrightarrow> c \<le> c' \<Longrightarrow> t \<le> t' \<Longrightarrow> entry_behind kc a c' t'"
  by (fastforce simp: entry_behind_def)

lemma entry_behind_check:
  assumes "entry_behind kc a c t"
  shows "entry_behind (snd (check_counter_in keychain_read keychain_write kc a c t)) a c t"
  using kc.check_effect [of kc a c t] assms entry_behind_write by auto

lemma entry_behind_check_other:
  assumes "b \<noteq> a" and "entry_behind kc a c t"
  shows "entry_behind (snd (check_counter_in keychain_read keychain_write kc b c' t')) a c t"
  using kc.check_effect [of kc b c' t'] assms entry_behind_write_other by auto

text \<open>A vault that only moves forwards is never accused of being rolled back, however many of the
  anchor's reads and writes fail: through any history in which the counters and timestamps of
  its saves and checks do not decrease, no check of it is refused.\<close>

theorem honest_vault_never_accused:
  assumes "honest a c t es" and "entry_behind kc a c t"
  shows "accusations a es kc = 0"
  using assms
proof (induction a c t es arbitrary: kc rule: honest.induct)
  case (1 a c t)
  then show ?case by simp
next
  case (2 a c t b c' t' es)
  show ?case
  proof (cases "b = a")
    case True
    with "2.prems" have "entry_behind kc a c' t'" by (auto intro: entry_behind_mono)
    with 2 True show ?thesis
      by (simp add: store_counter_def store_counter_in_def entry_behind_write)
  next
    case False
    with 2 show ?thesis
      by (simp add: store_counter_def store_counter_in_def entry_behind_write_other)
  qed
next
  case (3 a c t b c' t' es)
  show ?case
  proof (cases "b = a")
    case True
    with "3.prems" have eb: "entry_behind kc a c' t'" by (auto intro: entry_behind_mono)
    have "fst (check_counter kc a c' t' True) = Ok ()"
      using kc.behind_accepts [OF entry_behind_kc [OF eb]] by (simp add: check_counter_def)
    with 3 True eb show ?thesis
      by (simp add: check_counter_def entry_behind_check)
  next
    case False
    with 3 show ?thesis
      by (simp add: check_counter_def entry_behind_check_other)
  qed
next
  case (4 a c t p q r es)
  then show ?case by (simp add: entry_behind_def)
qed

lemma honest_vault_never_accused_witness:
  "accusations [0x61] [Saved [0x61] 1 10, Service True True False, Saved [0x61] 2 20,
     Checked [0x61] 2 20, Service False True True, Checked [0x61] 2 20] sample_keychain = 0"
  by (rule honest_vault_never_accused [of _ 0 0]) (simp_all add: entry_behind_def sample_keychain_def)

text \<open>Failing writes alone never cause an accusation, but a clock that was set back does together
  with one: a vault saved with an earlier time than the anchor holds, while the store could be
  read but not written, is refused as rolled back although it is the newest there is.\<close>

theorem clock_set_back_accuses:
  assumes "keychain_works kc" and "t' < t" and "c < c'"
    and "kc' = anchor_step (Service True True False) (anchor_step (Saved a c t) kc)"
  shows "fst (check_counter (store_counter kc' a c' t' True) a c' t' True) = Err (RollbackDetected c c')"
proof -
  have e: "kc_entries kc' a = Some (anchor_text c t)"
    using assms(1,4) by (simp add: store_counter_def store_counter_in_def keychain_write_def keychain_works_def)
  have "store_counter kc' a c' t' True = kc'"
    using assms(4) by (simp add: store_counter_def store_counter_in_def keychain_write_def)
  moreover have "keychain_read kc' a = Value (anchor_text c t)"
    using e assms(4) by (simp add: keychain_read_def)
  ultimately show ?thesis
    using kc.stored_decides assms(2) by (simp add: check_counter_def)
qed

lemma clock_set_back_accuses_witness:
  "fst (check_counter (store_counter (anchor_step (Service True True False)
     (anchor_step (Saved [0x61] 4 1000) sample_keychain)) [0x61] 5 900 True) [0x61] 5 900 True)
   = Err (RollbackDetected 4 5)"
  by (rule clock_set_back_accuses [OF _ _ _ refl]) (simp_all add: keychain_works_def sample_keychain_def)

end
