(* ===== verification/Vault_Store.thy ===== *)
theory Vault_Store
  imports Vault_Header
begin

text \<open>
  Writing the vault file (crates/vault/src/format/write.rs), one system call at a time: a program
  counter says which call comes next, and the environment answers each. The disk is the two names
  the code uses in the vault's directory, the files they lead to, and the advisory locks on those
  files, so that the steps of two processes can be interleaved and a process can die between any
  two of its steps.
\<close>

section \<open>The disk\<close>

type_synonym inode = nat
type_synonym pid = nat

record disk =
  dk_tmp :: "inode option"
  dk_vault :: "inode option"
  dk_data :: "inode \<Rightarrow> bytes"
  dk_lock :: "inode \<Rightarrow> pid option"
  dk_next :: inode

definition vault_bytes :: "disk \<Rightarrow> bytes option" where
  "vault_bytes d = map_option (dk_data d) (dk_vault d)"

text \<open>\<open>std::fs::read\<close> of the vault, parsed.\<close>

definition read_vault_file :: "disk \<Rightarrow> (vault_file, vault_error) result" where
  "read_vault_file d =
     rbind (ok_or (Io (lit ''No such file or directory'')) (vault_bytes d)) file_from_bytes"

definition create_tmp :: "disk \<Rightarrow> inode \<times> disk" where
  "create_tmp d =
     (dk_next d, d\<lparr>dk_tmp := Some (dk_next d), dk_data := (dk_data d)(dk_next d := []),
                   dk_next := Suc (dk_next d)\<rparr>)"

definition append_to :: "inode \<Rightarrow> bytes \<Rightarrow> disk \<Rightarrow> disk" where
  "append_to i bs d = d\<lparr>dk_data := (dk_data d)(i := dk_data d i @ bs)\<rparr>"

definition take_lock :: "pid \<Rightarrow> inode \<Rightarrow> disk \<Rightarrow> disk" where
  "take_lock p i d = d\<lparr>dk_lock := (dk_lock d)(i := Some p)\<rparr>"

text \<open>What closing its files does, be it on return or by the death of the process.\<close>

definition release_locks :: "pid \<Rightarrow> disk \<Rightarrow> disk" where
  "release_locks p d = d\<lparr>dk_lock := (\<lambda>i. if dk_lock d i = Some p then None else dk_lock d i)\<rparr>"

section \<open>The writer\<close>

record write_job =
  wj_header :: vault_header
  wj_cipher :: bytes
  wj_parent :: bool

text \<open>
  An answer of the system: success, failure with an error, or, for a write, failure after some
  bytes. The flag says whether the guard's removal of the temp file, whose result the code drops,
  would work.
\<close>

datatype answer = Succeeds | Fails rstring bool | Short nat rstring bool

datatype write_pc =
    MkDir | StatDir | ChmodDir
  | OpenNew | OpenStale | TryLock inode | UnlockStale inode | RemoveStale | OpenAgain
  | LockTmp inode | WriteHeader inode | WriteCipher inode | FlushTmp inode | SyncTmp inode
  | UnlockTmp inode | RenameTmp inode | OpenDir | SyncDir
  | Finished "(unit, vault_error) result"

definition not_found :: rstring where "not_found = lit ''No such file or directory''"
definition file_exists :: rstring where "file_exists = lit ''File exists''"
definition writing_elsewhere :: rstring where
  "writing_elsewhere = lit ''another process is writing the vault''"

definition write_start :: "write_job \<Rightarrow> write_pc" where
  "write_start j = (if wj_parent j then MkDir else OpenNew)"

text \<open>An early return while the guard is armed: the temp file goes, and the lock with its handle.\<close>

definition give_up :: "pid \<Rightarrow> rstring \<Rightarrow> bool \<Rightarrow> disk \<Rightarrow> write_pc \<times> disk" where
  "give_up p e removes d =
     (Finished (Err (Io e)), release_locks p (if removes then d\<lparr>dk_tmp := None\<rparr> else d))"

definition write_piece ::
  "pid \<Rightarrow> inode \<Rightarrow> bytes \<Rightarrow> write_pc \<Rightarrow> answer \<Rightarrow> disk \<Rightarrow> write_pc \<times> disk" where
  "write_piece p i bs next a d =
     (case a of
        Succeeds \<Rightarrow> (next, append_to i bs d)
      | Fails e r \<Rightarrow> give_up p e r d
      | Short n e r \<Rightarrow> give_up p e r (append_to i (take n bs) d))"

definition guarded :: "pid \<Rightarrow> answer \<Rightarrow> write_pc \<times> disk \<Rightarrow> disk \<Rightarrow> write_pc \<times> disk" where
  "guarded p a ok d =
     (case a of Succeeds \<Rightarrow> ok | Fails e r \<Rightarrow> give_up p e r d | Short n e r \<Rightarrow> give_up p e r d)"

definition unguarded :: "answer \<Rightarrow> write_pc \<times> disk \<Rightarrow> disk \<Rightarrow> write_pc \<times> disk" where
  "unguarded a ok d =
     (case a of
        Succeeds \<Rightarrow> ok
      | Fails e r \<Rightarrow> (Finished (Err (Io e)), d)
      | Short n e r \<Rightarrow> (Finished (Err (Io e)), d))"

fun write_step :: "write_job \<Rightarrow> pid \<Rightarrow> answer \<Rightarrow> write_pc \<times> disk \<Rightarrow> write_pc \<times> disk" where
  "write_step j p a (MkDir, d) = unguarded a (StatDir, d) d"
| "write_step j p a (StatDir, d) = unguarded a (ChmodDir, d) d"
| "write_step j p a (ChmodDir, d) = unguarded a (OpenNew, d) d"
| "write_step j p a (OpenNew, d) =
     unguarded a
       (if dk_tmp d = None then (let (i, d') = create_tmp d in (LockTmp i, d')) else (OpenStale, d)) d"
| "write_step j p a (OpenStale, d) =
     unguarded a
       (case dk_tmp d of Some i \<Rightarrow> (TryLock i, d) | None \<Rightarrow> (Finished (Err (Io not_found)), d)) d"
| "write_step j p a (TryLock i, d) =
     (if a = Succeeds \<and> dk_lock d i = None then (UnlockStale i, take_lock p i d)
      else (Finished (Err (Io writing_elsewhere)), d))"
| "write_step j p a (UnlockStale i, d) = (RemoveStale, release_locks p d)"
| "write_step j p a (RemoveStale, d) =
     unguarded a
       (if dk_tmp d = None then (Finished (Err (Io not_found)), d)
        else (OpenAgain, d\<lparr>dk_tmp := None\<rparr>)) d"
| "write_step j p a (OpenAgain, d) =
     unguarded a
       (if dk_tmp d = None then (let (i, d') = create_tmp d in (LockTmp i, d'))
        else (Finished (Err (Io file_exists)), d)) d"
| "write_step j p a (LockTmp i, d) =
     unguarded a (if dk_lock d i = None then (WriteHeader i, take_lock p i d) else (LockTmp i, d)) d"
| "write_step j p a (WriteHeader i, d) = write_piece p i (to_bytes (wj_header j)) (WriteCipher i) a d"
| "write_step j p a (WriteCipher i, d) = write_piece p i (wj_cipher j) (FlushTmp i) a d"
| "write_step j p a (FlushTmp i, d) = guarded p a (SyncTmp i, d) d"
| "write_step j p a (SyncTmp i, d) = guarded p a (UnlockTmp i, d) d"
| "write_step j p a (UnlockTmp i, d) = guarded p a (RenameTmp i, release_locks p d) d"
| "write_step j p a (RenameTmp i, d) =
     guarded p a
       (case dk_tmp d of
          None \<Rightarrow> give_up p not_found True d
        | Some t \<Rightarrow> (if wj_parent j then OpenDir else Finished (Ok ()),
                    d\<lparr>dk_vault := Some t, dk_tmp := None\<rparr>)) d"
| "write_step j p a (OpenDir, d) = unguarded a (SyncDir, d) d"
| "write_step j p a (SyncDir, d) = unguarded a (Finished (Ok ()), d) d"
| "write_step j p a (Finished r, d) = (Finished r, d)"

definition write_run :: "write_job \<Rightarrow> pid \<Rightarrow> answer list \<Rightarrow> write_pc \<times> disk \<Rightarrow> write_pc \<times> disk" where
  "write_run j p as = fold (write_step j p) as"

definition write_calls :: nat where "write_calls = 18"

text \<open>The whole function, its calls answered in turn; the last branch is never taken.\<close>

definition atomic_write_vault ::
  "write_job \<Rightarrow> pid \<Rightarrow> (nat \<Rightarrow> answer) \<Rightarrow> disk \<Rightarrow> (unit, vault_error) result \<times> disk" where
  "atomic_write_vault j p answers d =
     (case write_run j p (map answers [0 ..< write_calls]) (write_start j, d) of
        (Finished r, d') \<Rightarrow> (r, d')
      | (_, d') \<Rightarrow> (Err (Io []), d'))"

lemmas write_cases = unguarded_def guarded_def write_piece_def give_up_def create_tmp_def append_to_def
  take_lock_def release_locks_def

section \<open>One writer\<close>

text \<open>A disk whose next file is new: nothing leads to it or locks it.\<close>

definition disk_ok :: "disk \<Rightarrow> bool" where
  "disk_ok d \<longleftrightarrow>
     (\<forall>i. dk_tmp d = Some i \<longrightarrow> i < dk_next d) \<and> (\<forall>i. dk_vault d = Some i \<longrightarrow> i < dk_next d)
   \<and> (\<forall>i. dk_next d \<le> i \<longrightarrow> dk_lock d i = None)"

definition new_bytes :: "write_job \<Rightarrow> bytes" where
  "new_bytes j = to_bytes (wj_header j) @ wj_cipher j"

text \<open>What holds at each point of a writer that is alone, started on the disk \<open>d0\<close>.\<close>

definition untouched :: "disk \<Rightarrow> disk \<Rightarrow> bool" where
  "untouched d0 d \<longleftrightarrow> vault_bytes d = vault_bytes d0 \<and> dk_vault d = dk_vault d0 \<and> dk_next d0 \<le> dk_next d
     \<and> (\<forall>i. dk_next d \<le> i \<longrightarrow> dk_lock d i = None)
     \<and> (\<forall>i. dk_vault d0 = Some i \<longrightarrow> i < dk_next d0)"

definition holding :: "disk \<Rightarrow> inode \<Rightarrow> bytes \<Rightarrow> disk \<Rightarrow> bool" where
  "holding d0 i bs d \<longleftrightarrow>
     untouched d0 d \<and> dk_tmp d = Some i \<and> dk_next d0 \<le> i \<and> i < dk_next d \<and> dk_data d i = bs"

definition written :: "write_job \<Rightarrow> disk \<Rightarrow> bool" where
  "written j d \<longleftrightarrow> vault_bytes d = Some (new_bytes j) \<and> dk_tmp d = None"

fun alone :: "write_job \<Rightarrow> disk \<Rightarrow> write_pc \<times> disk \<Rightarrow> bool" where
  "alone j d0 (LockTmp i, d) \<longleftrightarrow> holding d0 i [] d \<and> dk_lock d i = None"
| "alone j d0 (WriteHeader i, d) \<longleftrightarrow> holding d0 i [] d"
| "alone j d0 (WriteCipher i, d) \<longleftrightarrow> holding d0 i (to_bytes (wj_header j)) d"
| "alone j d0 (FlushTmp i, d) \<longleftrightarrow> holding d0 i (new_bytes j) d"
| "alone j d0 (SyncTmp i, d) \<longleftrightarrow> holding d0 i (new_bytes j) d"
| "alone j d0 (UnlockTmp i, d) \<longleftrightarrow> holding d0 i (new_bytes j) d"
| "alone j d0 (RenameTmp i, d) \<longleftrightarrow> holding d0 i (new_bytes j) d"
| "alone j d0 (OpenDir, d) \<longleftrightarrow> written j d"
| "alone j d0 (SyncDir, d) \<longleftrightarrow> written j d"
| "alone j d0 (Finished (Inr u), d) \<longleftrightarrow> written j d"
| "alone j d0 (Finished (Inl e), d) \<longleftrightarrow> untouched d0 d \<or> written j d"
| "alone j d0 (TryLock i, d) \<longleftrightarrow> untouched d0 d \<and> i < dk_next d
     \<and> (\<forall>i. dk_tmp d = Some i \<longrightarrow> i < dk_next d)"
| "alone j d0 (_, d) \<longleftrightarrow> untouched d0 d \<and> (\<forall>i. dk_tmp d = Some i \<longrightarrow> i < dk_next d)"


lemma lock_fields [simp]:
  "dk_tmp (take_lock p i d) = dk_tmp d" "dk_next (take_lock p i d) = dk_next d"
  "dk_tmp (release_locks p d) = dk_tmp d" "dk_next (release_locks p d) = dk_next d"
  by (simp_all add: take_lock_def release_locks_def)

lemma untouched_append:
  "untouched d0 d \<Longrightarrow> dk_next d0 \<le> i \<Longrightarrow> untouched d0 (append_to i bs d)"
  by (cases "dk_vault d0") (auto simp: untouched_def append_to_def vault_bytes_def)

lemma untouched_create:
  "untouched d0 d \<Longrightarrow> create_tmp d = (i, d') \<Longrightarrow> holding d0 i [] d' \<and> dk_lock d' i = None"
  by (cases "dk_vault d0") (auto simp: untouched_def holding_def create_tmp_def vault_bytes_def)

lemma untouched_fields:
  "untouched d0 d \<Longrightarrow> untouched d0 (d\<lparr>dk_tmp := x\<rparr>)"
  "untouched d0 d \<Longrightarrow> untouched d0 (release_locks p d)"
  "untouched d0 d \<Longrightarrow> i < dk_next d \<Longrightarrow> untouched d0 (take_lock p i d)"
  by (auto simp: untouched_def vault_bytes_def release_locks_def take_lock_def)

lemma holding_fields:
  "holding d0 i bs d \<Longrightarrow> holding d0 i bs (release_locks p d)"
  "holding d0 i bs d \<Longrightarrow> holding d0 i bs (take_lock p i d)"
  "holding d0 i bs d \<Longrightarrow> holding d0 i (bs @ cs) (append_to i cs d)"
  using untouched_fields untouched_append
  by (auto simp: holding_def release_locks_def take_lock_def append_to_def)

lemma holding_untouched: "holding d0 i bs d \<Longrightarrow> untouched d0 d"
  by (simp add: holding_def)

lemma give_up_alone: "untouched d0 d \<Longrightarrow> alone j d0 (give_up p e r d)"
  by (simp add: give_up_def untouched_fields)

lemma write_piece_alone:
  assumes "holding d0 i bs d" and "alone j d0 (next, append_to i cs d)"
  shows "alone j d0 (write_piece p i cs next a d)"
proof -
  have "untouched d0 (append_to i (take n cs) d)" for n
    using assms(1) by (auto simp: holding_def intro: untouched_append)
  then show ?thesis
    using assms by (cases a) (auto simp: write_piece_def holding_def intro: give_up_alone)
qed

lemma guarded_alone:
  "untouched d0 d \<Longrightarrow> alone j d0 ok \<Longrightarrow> alone j d0 (guarded p a ok d)"
  by (cases a) (auto simp: guarded_def intro: give_up_alone)

lemma unguarded_alone:
  "untouched d0 d \<or> written j d \<Longrightarrow> alone j d0 ok \<Longrightarrow> alone j d0 (unguarded a ok d)"
  by (cases a) (auto simp: unguarded_def)

lemma alone_step:
  assumes "alone j d0 (pc, d)"
  shows "alone j d0 (write_step j p a (pc, d))"
proof (cases pc)
  case OpenNew
  with assms show ?thesis
    by (auto simp: Let_def split: prod.split dest: untouched_create intro!: unguarded_alone)
next
  case OpenStale
  with assms show ?thesis by (auto split: option.split intro!: unguarded_alone)
next
  case (TryLock i)
  with assms show ?thesis by (auto simp: untouched_fields(3) lock_fields)
next
  case OpenAgain
  with assms show ?thesis
    by (auto simp: Let_def split: prod.split dest: untouched_create intro!: unguarded_alone)
next
  case (LockTmp i)
  with assms show ?thesis
    by (auto dest: holding_untouched holding_fields(2) intro!: unguarded_alone)
next
  case (WriteHeader i)
  with assms show ?thesis
    using holding_fields(3) [of d0 i "[]" d] by (auto intro!: write_piece_alone)
next
  case (WriteCipher i)
  with assms show ?thesis
    using holding_fields(3) by (auto simp: new_bytes_def intro!: write_piece_alone)
next
  case (UnlockTmp i)
  with assms show ?thesis
    by (auto dest: holding_untouched intro!: guarded_alone holding_fields(1))
next
  case (RenameTmp i)
  with assms have h: "holding d0 i (new_bytes j) d" by simp
  then have "written j (d\<lparr>dk_vault := Some i, dk_tmp := None\<rparr>)" "dk_tmp d = Some i"
    by (auto simp: holding_def written_def vault_bytes_def)
  with RenameTmp holding_untouched [OF h] show ?thesis by (auto intro!: guarded_alone)
next
  case (Finished r)
  with assms show ?thesis by simp
qed (use assms in \<open>auto intro!: unguarded_alone guarded_alone untouched_fields dest: holding_untouched
        \<close>)

lemma alone_run: "alone j d0 s \<Longrightarrow> alone j d0 (write_run j p as s)"
proof (induction as arbitrary: s)
  case (Cons a as)
  moreover have "alone j d0 (write_step j p a s)" using Cons.prems alone_step by (cases s) simp
  ultimately show ?case by (simp add: write_run_def)
qed (simp add: write_run_def)

lemma alone_start: "disk_ok d \<Longrightarrow> alone j d (write_start j, d)"
  by (simp add: write_start_def disk_ok_def untouched_def)

lemma alone_content:
  "alone j d0 (pc, d) \<Longrightarrow> vault_bytes d = vault_bytes d0 \<or> vault_bytes d = Some (new_bytes j)"
  by (induction j d0 "(pc, d)" rule: alone.induct) (auto simp: untouched_def written_def holding_def)

section \<open>The calls run out\<close>

fun calls_left :: "write_pc \<Rightarrow> nat" where
  "calls_left MkDir = 18" | "calls_left StatDir = 17" | "calls_left ChmodDir = 16"
| "calls_left OpenNew = 15" | "calls_left OpenStale = 14" | "calls_left (TryLock i) = 13"
| "calls_left (UnlockStale i) = 12" | "calls_left RemoveStale = 11" | "calls_left OpenAgain = 10"
| "calls_left (LockTmp i) = 9" | "calls_left (WriteHeader i) = 8" | "calls_left (WriteCipher i) = 7"
| "calls_left (FlushTmp i) = 6" | "calls_left (SyncTmp i) = 5" | "calls_left (UnlockTmp i) = 4"
| "calls_left (RenameTmp i) = 3" | "calls_left OpenDir = 2" | "calls_left SyncDir = 1"
| "calls_left (Finished r) = 0"

lemma calls_left_0: "calls_left pc = 0 \<longleftrightarrow> (\<exists>r. pc = Finished r)"
  by (cases pc) simp_all

lemma step_descends:
  assumes "alone j d0 (pc, d)" and "calls_left pc \<noteq> 0"
  shows "calls_left (fst (write_step j p a (pc, d))) < calls_left pc"
  using assms
  by (cases pc; cases a) (auto simp: unguarded_def guarded_def write_piece_def give_up_def Let_def
      split: prod.split option.split)

lemma run_descends:
  "alone j d0 s \<Longrightarrow> calls_left (fst (write_run j p as s)) \<le> calls_left (fst s) - length as"
proof (induction as arbitrary: s)
  case Nil
  then show ?case by (simp add: write_run_def)
next
  case (Cons a as)
  let ?s = "write_step j p a s"
  have "alone j d0 ?s" using Cons.prems alone_step by (cases s) simp
  then have "calls_left (fst (write_run j p as ?s)) \<le> calls_left (fst ?s) - length as"
    by (rule Cons.IH)
  moreover have "calls_left (fst ?s) \<le> calls_left (fst s) - 1"
  proof (cases "calls_left (fst s) = 0")
    case True
    then show ?thesis by (cases s) (auto simp: calls_left_0)
  next
    case False
    with step_descends [of j d0 "fst s" "snd s" p a] Cons.prems show ?thesis by simp
  qed
  ultimately show ?case by (simp add: write_run_def)
qed

lemma calls_left_start: "calls_left (write_start j) \<le> write_calls"
  by (simp add: write_start_def write_calls_def)

lemma run_finishes:
  assumes "disk_ok d" and "write_calls \<le> length as"
  obtains r d' where "write_run j p as (write_start j, d) = (Finished r, d')"
proof -
  have "calls_left (fst (write_run j p as (write_start j, d))) = 0"
    using run_descends [OF alone_start [OF assms(1)], of j p as] calls_left_start [of j] assms(2) by simp
  then show ?thesis using that by (metis calls_left_0 prod.collapse)
qed

lemma atomic_write_run:
  assumes "disk_ok d" and "atomic_write_vault j p answers d = (r, d')"
  shows "write_run j p (map answers [0 ..< write_calls]) (write_start j, d) = (Finished r, d')"
proof -
  obtain r0 d0 where "write_run j p (map answers [0 ..< write_calls]) (write_start j, d) = (Finished r0, d0)"
    by (rule run_finishes [OF assms(1), of "map answers [0 ..< write_calls]" j p]) simp_all
  with assms(2) show ?thesis by (simp add: atomic_write_vault_def)
qed


section \<open>Properties\<close>

text \<open>C17: A vault is written whole or not at all: wherever a lone writer is stopped, after any number
  of its calls and however each was answered, what is at the vault's path is either what was
  there before or the complete new file; and when it reported success it is the new file, with
  no temp file left.\<close>

theorem write_all_or_nothing:
  assumes "disk_ok d" and "write_run j p as (write_start j, d) = (pc, d')"
  shows "(vault_bytes d' = vault_bytes d \<or> vault_bytes d' = Some (new_bytes j))
    \<and> (pc = Finished (Ok ()) \<longrightarrow> vault_bytes d' = Some (new_bytes j) \<and> dk_tmp d' = None)"
proof -
  have "alone j d (pc, d')"
    using alone_run [OF alone_start [OF assms(1)], of j p as] assms(2) by simp
  then show ?thesis
    using alone_content by (auto simp: written_def)
qed

definition empty_disk :: disk where
  "empty_disk = \<lparr>dk_tmp = None, dk_vault = None, dk_data = (\<lambda>_. []), dk_lock = (\<lambda>_. None), dk_next = 0\<rparr>"

definition debris_disk :: disk where
  "debris_disk = \<lparr>dk_tmp = Some 0, dk_vault = None, dk_data = (\<lambda>_. [0x4D]), dk_lock = (\<lambda>_. None), dk_next = 1\<rparr>"

definition sample_job :: write_job where
  "sample_job = \<lparr>wj_header = sample_header, wj_cipher = [1, 2, 3], wj_parent = False\<rparr>"

lemma write_all_or_nothing_witness:
  "vault_bytes (snd (write_run sample_job 1 [Succeeds, Succeeds, Short 2 [] True] (write_start sample_job, empty_disk)))
   \<in> {None, Some (new_bytes sample_job)}"
proof -
  obtain pc d' where r: "write_run sample_job 1 [Succeeds, Succeeds, Short 2 [] True]
      (write_start sample_job, empty_disk) = (pc, d')" by fastforce
  have "disk_ok empty_disk" by (simp add: disk_ok_def empty_disk_def)
  from write_all_or_nothing [OF this r]
  have "vault_bytes d' = vault_bytes empty_disk \<or> vault_bytes d' = Some (new_bytes sample_job)" by blast
  moreover have "vault_bytes empty_disk = None" by (simp add: vault_bytes_def empty_disk_def)
  ultimately show ?thesis unfolding r by auto
qed

text \<open>Writing ends: a lone writer has returned after at most eighteen calls whatever they answer,
  the lock it takes on its own new file never being held by another; so the whole function's
  result is the one its calls lead to.\<close>

theorem writing_finishes:
  assumes "disk_ok d"
  shows "\<exists>r d'. write_run j p (map answers [0 ..< write_calls]) (write_start j, d) = (Finished r, d')
    \<and> atomic_write_vault j p answers d = (r, d')"
proof -
  obtain r d' where "write_run j p (map answers [0 ..< write_calls]) (write_start j, d) = (Finished r, d')"
    by (rule run_finishes [OF assms, of "map answers [0 ..< write_calls]" j p]) simp_all
  then show ?thesis by (simp add: atomic_write_vault_def)
qed

lemma writing_finishes_witness:
  "\<exists>r d'. atomic_write_vault sample_job 1 (\<lambda>_. Fails [] True) debris_disk = (r, d')"
  using writing_finishes [of debris_disk sample_job 1 "\<lambda>_. Fails [] True"]
  by (auto simp: disk_ok_def debris_disk_def)

text \<open>Every call answered with success.\<close>

lemmas all_succeed = write_run_def write_start_def write_cases guarded_def upt_rec

lemma atomic_success:
  assumes "wj_parent j" and "dk_tmp d = None" and "dk_lock d (dk_next d) = None"
  shows "\<exists>d'. atomic_write_vault j p (\<lambda>_. Succeeds) d = (Ok (), d') \<and> written j d'"
  using assms
  by (simp add: atomic_write_vault_def write_calls_def all_succeed written_def vault_bytes_def new_bytes_def)

text \<open>What a dead writer left does not stop the next: with a temp file nobody holds the lock of,
  every call succeeding, the new vault is written. One whose lock another process holds is left
  alone, and the writer says so without having changed the disk.\<close>

theorem debris_and_live_writers:
  assumes "disk_ok d" and "dk_tmp d = Some i"
  shows "(dk_lock d i = None \<longrightarrow>
      (\<exists>d'. atomic_write_vault j p (\<lambda>_. Succeeds) d = (Ok (), d')
         \<and> vault_bytes d' = Some (new_bytes j) \<and> dk_tmp d' = None))
    \<and> (dk_lock d i \<noteq> None \<longrightarrow>
      atomic_write_vault j p (\<lambda>_. Succeeds) d = (Err (Io writing_elsewhere), d))"
proof -
  have i: "i < dk_next d" and l: "dk_lock d (dk_next d) = None"
    using assms by (auto simp: disk_ok_def)
  have "dk_lock d i = None \<Longrightarrow>
      \<exists>d'. atomic_write_vault j p (\<lambda>_. Succeeds) d = (Ok (), d')
         \<and> vault_bytes d' = Some (new_bytes j) \<and> dk_tmp d' = None"
    using assms(2) i l
    by (cases "wj_parent j")
       (simp_all add: atomic_write_vault_def write_calls_def all_succeed vault_bytes_def new_bytes_def)
  moreover have "dk_lock d i \<noteq> None \<Longrightarrow>
      atomic_write_vault j p (\<lambda>_. Succeeds) d = (Err (Io writing_elsewhere), d)"
    using assms(2) l
    by (cases "wj_parent j") (simp_all add: atomic_write_vault_def write_calls_def all_succeed)
  ultimately show ?thesis by blast
qed

lemma debris_and_live_writers_witness:
  "\<exists>d'. atomic_write_vault sample_job 1 (\<lambda>_. Succeeds) debris_disk = (Ok (), d')
     \<and> vault_bytes d' = Some (new_bytes sample_job)"
  using debris_and_live_writers [of debris_disk 0 sample_job 1]
  by (auto simp: disk_ok_def debris_disk_def)

section \<open>Two writers\<close>

text \<open>Two processes writing at once: the schedule names who makes the next call; all succeed.\<close>

record two_writers =
  tw_first :: write_pc
  tw_second :: write_pc
  tw_disk :: disk

definition writer_turn :: "write_job \<Rightarrow> write_job \<Rightarrow> bool \<Rightarrow> two_writers \<Rightarrow> two_writers" where
  "writer_turn j1 j2 first s =
     (if first
      then (let (pc, d) = write_step j1 1 Succeeds (tw_first s, tw_disk s) in s\<lparr>tw_first := pc, tw_disk := d\<rparr>)
      else (let (pc, d) = write_step j2 2 Succeeds (tw_second s, tw_disk s) in s\<lparr>tw_second := pc, tw_disk := d\<rparr>))"

definition turns :: "write_job \<Rightarrow> write_job \<Rightarrow> bool list \<Rightarrow> disk \<Rightarrow> two_writers" where
  "turns j1 j2 schedule d =
     fold (writer_turn j1 j2) schedule \<lparr>tw_first = write_start j1, tw_second = write_start j2, tw_disk = d\<rparr>"

text \<open>The first creates its temp file; before it has locked it, the second takes the file for
  debris and makes its own; the first then writes to a file no name leads to, and renames the
  second's.\<close>

definition stolen :: "bool list" where
  "stolen = [True] @ replicate 6 False @ replicate 7 True"

text \<open>The lock does not keep two writers apart between the creation of the temp file and its
  locking. There is an interleaving in which every call succeeds, the first writer reports
  success, and the vault at its path is the second writer's file before a byte is in it: the
  old vault is gone and neither new one is there.\<close>

theorem writers_race_empties_vault:
  assumes "disk_ok d" and "dk_tmp d = None" and "\<not> wj_parent j1" and "\<not> wj_parent j2"
  defines "s \<equiv> turns j1 j2 stolen d"
  shows "tw_first s = Finished (Ok ()) \<and> vault_bytes (tw_disk s) = Some []
    \<and> (\<exists>i. tw_second s = LockTmp i)"
proof -
  have "dk_lock d (dk_next d) = None" "dk_lock d (Suc (dk_next d)) = None"
    using assms(1) by (auto simp: disk_ok_def)
  then show ?thesis
    using assms(2-4) unfolding s_def
    by (simp add: turns_def stolen_def writer_turn_def write_start_def write_cases vault_bytes_def
        Let_def numeral_eq_Suc)
qed

lemma writers_race_empties_vault_witness:
  "vault_bytes (tw_disk (turns sample_job sample_job stolen empty_disk)) = Some []"
  using writers_race_empties_vault [of empty_disk sample_job sample_job]
  by (simp add: disk_ok_def empty_disk_def sample_job_def)

end
