(* ===== verification/Vault_Api.thy ===== *)
theory Vault_Api
  imports Vault_Crypto Vault_Lockout Vault_Rollback Vault_Store
begin

text \<open>
  The vault as its callers see it (crates/vault/src/api/ and the contents of lib.rs): creating one,
  opening it with the password or a finger, changing what is in it and what opens it. Each
  operation is composed of the parts below it in the order the code runs them: the file, its
  signature, the limiter, the key, the contents, the anchor. The platform is Linux. What an
  operation draws at random and what the system answers it is a \<open>draws\<close>; the packages it rests on
  are a \<open>packages\<close>.
\<close>

section \<open>Contents\<close>

record contents =
  ct_passwords :: "rstring \<Rightarrow> rstring option"
  ct_canary :: "rstring option"

definition contents_default :: contents where
  "contents_default = \<lparr>ct_passwords = Map.empty, ct_canary = None\<rparr>"

definition contents_get :: "rstring \<Rightarrow> contents \<Rightarrow> rstring option" where
  "contents_get host c = ct_passwords c host"

definition contents_set :: "rstring \<Rightarrow> rstring \<Rightarrow> contents \<Rightarrow> contents" where
  "contents_set host password c = c\<lparr>ct_passwords := (ct_passwords c)(host \<mapsto> password)\<rparr>"

definition contents_remove :: "rstring \<Rightarrow> contents \<Rightarrow> bool \<times> contents" where
  "contents_remove host c =
     (ct_passwords c host \<noteq> None, c\<lparr>ct_passwords := (ct_passwords c)(host := None)\<rparr>)"

definition contents_hosts :: "contents \<Rightarrow> rstring set" where
  "contents_hosts c = dom (ct_passwords c)"

definition set_canary :: "rstring \<Rightarrow> contents \<Rightarrow> contents" where
  "set_canary canary c = c\<lparr>ct_canary := Some canary\<rparr>"

definition verify_canary :: "rstring \<Rightarrow> contents \<Rightarrow> bool" where
  "verify_canary header_canary c =
     (case ct_canary c of Some plaintext_canary \<Rightarrow> plaintext_canary = header_canary | None \<Rightarrow> False)"

section \<open>Packages and draws\<close>

record contents_json =
  cj_show :: "contents \<Rightarrow> (bytes, rstring) result"
  cj_parse :: "bytes \<Rightarrow> (contents, rstring) result"

definition contents_json_ok :: "contents_json \<Rightarrow> bool" where
  "contents_json_ok cj \<longleftrightarrow> (\<forall>c b. cj_show cj c = Ok b \<longrightarrow> cj_parse cj b = Ok c)"

record packages =
  pk_prim :: primitives
  pk_contents :: contents_json
  pk_lockout :: lockout_json
  pk_tpm_available :: bool
  pk_tpm_seal :: "key \<Rightarrow> (bytes, vault_error) result"
  pk_tpm_unseal :: "bytes \<Rightarrow> (key, vault_error) result"

definition packages_ok :: "packages \<Rightarrow> bool" where
  "packages_ok pk \<longleftrightarrow> crypto_ok (pk_prim pk) \<and> contents_json_ok (pk_contents pk) \<and> lockout_json_ok (pk_lockout pk)"

text \<open>What a fingerprint reader answers, when there is one.\<close>

datatype finger = NoReader | FingerVerified | FingerFailed | FingerTimeout | FingerError

record draws =
  dr_key :: key
  dr_salt :: bytes
  dr_canary :: bytes
  dr_wrap_nonce :: bytes
  dr_nonce :: bytes
  dr_attempt :: u64
  dr_end :: u64
  dr_now :: u64
  dr_meminfo :: "rstring option"
  dr_mkdir :: "(unit, rstring) result"
  dr_chmod :: "(unit, rstring) result"
  dr_remove :: "(unit, rstring) result"
  dr_pid :: pid
  dr_answers :: "nat \<Rightarrow> answer"
  dr_finger :: finger

text \<open>The sizes of what is drawn are those of the arrays it is drawn into.\<close>

definition draws_ok :: "draws \<Rightarrow> bool" where
  "draws_ok dr \<longleftrightarrow> length (dr_key dr) = KEY_LEN \<and> length (dr_salt dr) = KEY_LEN \<and> length (dr_canary dr) = 16
     \<and> length (dr_wrap_nonce dr) = NONCE_LEN \<and> length (dr_nonce dr) = NONCE_LEN"

section \<open>State\<close>

record vault_config =
  vc_account :: rstring
  vc_parent :: bool
  vc_params :: "argon2_params option"
  vc_use_keychain :: bool

record vault_manager =
  vm_lockout :: lockout_state
  vm_loaded :: bool

record vault_world =
  vw_disk :: disk
  vw_limiter :: lockout_store
  vw_keychain :: keychain

record unlocked_vault =
  uv_key :: key
  uv_contents :: contents
  uv_header :: vault_header

definition vault_new :: "vault_config \<Rightarrow> vault_manager" where
  "vault_new cfg = \<lparr>vm_lockout = lockout_new (vc_use_keychain cfg), vm_loaded = False\<rparr>"

definition ensure_lockout_loaded ::
  "packages \<Rightarrow> vault_config \<Rightarrow> vault_world \<Rightarrow> vault_manager \<Rightarrow> vault_manager" where
  "ensure_lockout_loaded pk cfg w v =
     (if vm_loaded v then v
      else v\<lparr>vm_lockout := lockout_load (pk_lockout pk) (vw_limiter w) (vc_use_keychain cfg),
             vm_loaded := True\<rparr>)"

definition vault_exists :: "vault_world \<Rightarrow> bool" where
  "vault_exists w = (dk_vault (vw_disk w) \<noteq> None)"

definition delete_vault :: "draws \<Rightarrow> vault_world \<Rightarrow> (unit, vault_error) result \<times> vault_world" where
  "delete_vault dr w =
     (if vault_exists w
      then (case dr_remove dr of
              Err e \<Rightarrow> (Err (Io e), w)
            | Ok _ \<Rightarrow> (Ok (), w\<lparr>vw_disk := (vw_disk w)\<lparr>dk_vault := None\<rparr>\<rparr>))
      else (Ok (), w))"

section \<open>Creating\<close>

definition hex_digit :: "nat \<Rightarrow> u8" where
  "hex_digit n = (if n < 10 then 0x30 + of_nat n else 0x61 + of_nat (n - 10))"

definition hex_encode :: "bytes \<Rightarrow> rstring" where
  "hex_encode bs = concat (map (\<lambda>b. [hex_digit (unat b div 16), hex_digit (unat b mod 16)]) bs)"

definition generate_canary :: "bytes \<Rightarrow> rstring" where
  "generate_canary canary_bytes = lit ''multitop-vault-canary-'' @ hex_encode (take 16 canary_bytes)"

definition config_params :: "vault_config \<Rightarrow> draws \<Rightarrow> argon2_params" where
  "config_params cfg dr = (case vc_params cfg of Some p \<Rightarrow> p | None \<Rightarrow> auto_detect (dr_meminfo dr))"

text \<open>The wrappers of a new vault: the password's, and before it the TPM's where there is one.\<close>

definition tpm_first :: "packages \<Rightarrow> vault_config \<Rightarrow> key \<Rightarrow> wrapper list \<Rightarrow> wrapper list" where
  "tpm_first pk cfg key ws =
     (if vc_use_keychain cfg \<and> pk_tpm_available pk then
        (case pk_tpm_seal pk key of
           Err _ \<Rightarrow> ws
         | Ok sealed \<Rightarrow> (case wrapper_new Tpm2 sealed of Err _ \<Rightarrow> ws | Ok w \<Rightarrow> w # ws))
      else ws)"

definition prepare_dir :: "vault_config \<Rightarrow> draws \<Rightarrow> (unit, vault_error) result" where
  "prepare_dir cfg dr =
     (if vc_parent cfg
      then (case dr_mkdir dr of
              Err e \<Rightarrow> Err (Io e)
            | Ok _ \<Rightarrow> (case dr_chmod dr of Err e \<Rightarrow> Err (Io e) | Ok _ \<Rightarrow> Ok ()))
      else Ok ())"

definition serialize :: "packages \<Rightarrow> contents \<Rightarrow> (bytes, vault_error) result" where
  "serialize pk c = (case cj_show (pk_contents pk) c of Err e \<Rightarrow> Err (Serialization e) | Ok b \<Rightarrow> Ok b)"

text \<open>Encrypt, set the nonce, sign.\<close>

definition seal_vault ::
  "packages \<Rightarrow> draws \<Rightarrow> key \<Rightarrow> bytes \<Rightarrow> vault_header \<Rightarrow> (vault_header \<times> bytes, vault_error) result" where
  "seal_vault pk dr key plaintext h =
     rbind (encrypt_vault (pk_prim pk) (dr_nonce dr) key plaintext) (\<lambda>(ciphertext, nonce).
       let h = h\<lparr>vh_nonce := nonce\<rparr>;
           h = h\<lparr>vh_signature := sign_vault (pk_prim pk) key (signed_data h ciphertext)\<rparr>
       in Ok (h, ciphertext))"

definition new_vault ::
  "packages \<Rightarrow> vault_config \<Rightarrow> draws \<Rightarrow> rstring \<Rightarrow> (vault_header \<times> bytes, vault_error) result" where
  "new_vault pk cfg dr system_password =
     (let vault_key = dr_key dr;
          canary = generate_canary (dr_canary dr);
          contents = set_canary canary contents_default;
          salt = dr_salt dr;
          params = config_params cfg dr
      in rbind (wrap_argon2id (pk_prim pk) (dr_wrap_nonce dr) vault_key system_password salt params) (\<lambda>wrapped.
         rbind (wrapper_new Argon2id wrapped) (\<lambda>argon2id.
         rbind (new_with_canary (derive_verifying_key (pk_prim pk) vault_key) salt params
                  (tpm_first pk cfg vault_key [argon2id]) canary (dr_now dr)) (\<lambda>header.
         rbind (serialize pk contents) (\<lambda>plaintext.
           seal_vault pk dr vault_key plaintext header)))))"

definition job :: "vault_config \<Rightarrow> vault_header \<Rightarrow> bytes \<Rightarrow> write_job" where
  "job cfg h ct = \<lparr>wj_header = h, wj_cipher = ct, wj_parent = vc_parent cfg\<rparr>"

definition initialize ::
  "packages \<Rightarrow> vault_config \<Rightarrow> draws \<Rightarrow> rstring \<Rightarrow> vault_world \<Rightarrow> (unit, vault_error) result \<times> vault_world"
where
  "initialize pk cfg dr system_password w =
     (if vault_exists w then (Err (VaultAlreadyExists (lit ''Vault already exists'')), w)
      else
        (case rbind (prepare_dir cfg dr) (\<lambda>_. new_vault pk cfg dr system_password) of
           Err e \<Rightarrow> (Err e, w)
         | Ok (header, ciphertext) \<Rightarrow>
             (let (r, d) = atomic_write_vault (job cfg header ciphertext) (dr_pid dr) (dr_answers dr) (vw_disk w)
              in (r, w\<lparr>vw_disk := d\<rparr>))))"

section \<open>Opening\<close>

definition read_verified :: "packages \<Rightarrow> vault_world \<Rightarrow> (vault_file, vault_error) result" where
  "read_verified pk w =
     rbind (read_vault_file (vw_disk w)) (\<lambda>f.
       case verify_vault_signature (pk_prim pk) (vh_pk (vf_header f))
              (signed_data (vf_header f) (vf_ciphertext f)) (vh_signature (vf_header f)) of
         Err _ \<Rightarrow> Err (Corrupted (lit ''signature verification failed''))
       | Ok _ \<Rightarrow> Ok f)"

definition decrypt_and_load ::
  "packages \<Rightarrow> key \<Rightarrow> vault_file \<Rightarrow> (unlocked_vault, vault_error) result" where
  "decrypt_and_load pk vault_key f =
     rbind (decrypt_vault (pk_prim pk) vault_key (vh_nonce (vf_header f)) (vf_ciphertext f)) (\<lambda>plaintext.
       case cj_parse (pk_contents pk) plaintext of
         Err e \<Rightarrow> Err (Serialization e)
       | Ok contents \<Rightarrow>
           if \<not> verify_canary (vh_canary (vf_header f)) contents
           then Err (Corrupted (lit ''canary mismatch - wrong password or corrupted''))
           else Ok \<lparr>uv_key = vault_key, uv_contents = contents, uv_header = vf_header f\<rparr>)"

text \<open>The part of an unlock that the password decides.\<close>

definition open_with_password ::
  "packages \<Rightarrow> rstring \<Rightarrow> vault_file \<Rightarrow> (unlocked_vault, vault_error) result" where
  "open_with_password pk password f =
     rbind (ok_or (Corrupted (lit ''no Argon2id wrapper found'')) (get_wrapper Argon2id (vf_header f))) (\<lambda>wr.
     rbind (unwrap_argon2id (pk_prim pk) (w_data wr) password (vh_salt (vf_header f)) (vh_params (vf_header f)))
       (\<lambda>vault_key. decrypt_and_load pk vault_key f))"

text \<open>The part of an unlock that the guard watches: its result, the guard and the anchor.\<close>

definition attempt ::
  "packages \<Rightarrow> vault_config \<Rightarrow> rstring \<Rightarrow> vault_file \<Rightarrow> keychain
   \<Rightarrow> (unlocked_vault, vault_error) result \<times> lockout_guard \<times> keychain" where
  "attempt pk cfg password f kc =
     (let guard = guard_new in
      case open_with_password pk password f of
        Err e \<Rightarrow> (Err e, guard, kc)
      | Ok u \<Rightarrow>
          let guard = mark_success guard;
              (r, kc) = check_counter kc (vc_account cfg) (vh_counter (uv_header u))
                          (vh_created_ms (uv_header u)) (vc_use_keychain cfg)
          in (case r of Err e \<Rightarrow> (Err e, guard, kc) | Ok _ \<Rightarrow> (Ok u, guard, kc)))"

definition unlock_with_password ::
  "packages \<Rightarrow> vault_config \<Rightarrow> draws \<Rightarrow> rstring \<Rightarrow> vault_manager \<times> vault_world
   \<Rightarrow> (unlocked_vault, vault_error) result \<times> vault_manager \<times> vault_world" where
  "unlock_with_password pk cfg dr password vw =
     (let (v, w) = vw in
      case read_verified pk w of
        Err e \<Rightarrow> (Err e, v, w)
      | Ok f \<Rightarrow>
          let v = ensure_lockout_loaded pk cfg w v;
              now = dr_attempt dr
          in case check_lockout (vm_lockout v) now of
               Err e \<Rightarrow> (Err e, v, w)
             | Ok _ \<Rightarrow>
                 let ls = on_attempt (pk_lockout pk) now (vm_lockout v, vw_limiter w);
                     (r, guard, kc) = attempt pk cfg password f (vw_keychain w);
                     (l, st) = guard_drop (pk_lockout pk) (dr_end dr) guard ls
                 in (r, v\<lparr>vm_lockout := l\<rparr>, w\<lparr>vw_limiter := st, vw_keychain := kc\<rparr>))"

text \<open>With a finger: the TPM holds the key, the reader only says yes or no.\<close>

definition try_unlock_biometric ::
  "packages \<Rightarrow> vault_config \<Rightarrow> draws \<Rightarrow> vault_world \<Rightarrow> (unlocked_vault, vault_error) result \<times> vault_world"
where
  "try_unlock_biometric pk cfg dr w =
     (case read_verified pk w of
        Err e \<Rightarrow> (Err e, w)
      | Ok f \<Rightarrow>
          (case get_wrapper Tpm2 (vf_header f) of
             None \<Rightarrow> (Err BiometricFailed, w)
           | Some wr \<Rightarrow>
               (case dr_finger dr of
                  FingerVerified \<Rightarrow>
                    (case rbind (pk_tpm_unseal pk (w_data wr)) (\<lambda>key. decrypt_and_load pk key f) of
                       Err e \<Rightarrow> (Err e, w)
                     | Ok u \<Rightarrow>
                         let (r, kc) = check_counter (vw_keychain w) (vc_account cfg) (vh_counter (uv_header u))
                                         (vh_created_ms (uv_header u)) (vc_use_keychain cfg)
                         in (case r of Err e \<Rightarrow> Err e | Ok _ \<Rightarrow> Ok u, w\<lparr>vw_keychain := kc\<rparr>))
                | FingerFailed \<Rightarrow> (Err BiometricFailed, w)
                | FingerTimeout \<Rightarrow> (Err BiometricFailed, w)
                | NoReader \<Rightarrow> (Err BiometricFailed, w)
                | FingerError \<Rightarrow> (Err BiometricFailed, w))))"

datatype unlock_result = Biometric | Password

definition unlock_biometric ::
  "packages \<Rightarrow> vault_config \<Rightarrow> draws \<Rightarrow> vault_world
   \<Rightarrow> (unlocked_vault \<times> unlock_result, vault_error) result \<times> vault_world" where
  "unlock_biometric pk cfg dr w =
     (let (r, w) = try_unlock_biometric pk cfg dr w
      in (case r of Ok u \<Rightarrow> Ok (u, Biometric) | Err _ \<Rightarrow> Err BiometricFailed, w))"

section \<open>The open vault\<close>

definition get_password :: "rstring \<Rightarrow> unlocked_vault \<Rightarrow> rstring option" where
  "get_password host u = contents_get host (uv_contents u)"

definition save ::
  "packages \<Rightarrow> vault_config \<Rightarrow> draws \<Rightarrow> unlocked_vault \<times> vault_world
   \<Rightarrow> (unit, vault_error) result \<times> unlocked_vault \<times> vault_world" where
  "save pk cfg dr uw =
     (let (u, w) = uw;
          h = (uv_header u)\<lparr>vh_counter := vh_counter (uv_header u) + 1, vh_created_ms := dr_now dr\<rparr>;
          u = u\<lparr>uv_header := h\<rparr>
      in case rbind (serialize pk (uv_contents u)) (\<lambda>plaintext. seal_vault pk dr (uv_key u) plaintext h) of
           Err e \<Rightarrow> (Err e, u, w)
         | Ok (h, ciphertext) \<Rightarrow>
             let u = u\<lparr>uv_header := h\<rparr>;
                 (r, d) = atomic_write_vault (job cfg h ciphertext) (dr_pid dr) (dr_answers dr) (vw_disk w);
                 w = w\<lparr>vw_disk := d\<rparr>
             in case r of
                  Err e \<Rightarrow> (Err e, u, w)
                | Ok _ \<Rightarrow>
                    (Ok (), u, w\<lparr>vw_keychain := store_counter (vw_keychain w) (vc_account cfg)
                                   (vh_counter h) (vh_created_ms h) (vc_use_keychain cfg)\<rparr>))"

definition set_password ::
  "packages \<Rightarrow> vault_config \<Rightarrow> draws \<Rightarrow> rstring \<Rightarrow> rstring \<Rightarrow> unlocked_vault \<times> vault_world
   \<Rightarrow> (unit, vault_error) result \<times> unlocked_vault \<times> vault_world" where
  "set_password pk cfg dr host password uw =
     (let (u, w) = uw
      in save pk cfg dr (u\<lparr>uv_contents := contents_set host password (uv_contents u)\<rparr>, w))"

definition remove_password ::
  "packages \<Rightarrow> vault_config \<Rightarrow> draws \<Rightarrow> rstring \<Rightarrow> unlocked_vault \<times> vault_world
   \<Rightarrow> (bool, vault_error) result \<times> unlocked_vault \<times> vault_world" where
  "remove_password pk cfg dr host uw =
     (let (u, w) = uw;
          (removed, c) = contents_remove host (uv_contents u);
          u = u\<lparr>uv_contents := c\<rparr>
      in if removed then
           (let (r, u, w) = save pk cfg dr (u, w)
            in (case r of Err e \<Rightarrow> Err e | Ok _ \<Rightarrow> Ok removed, u, w))
         else (Ok removed, u, w))"

section \<open>Changing what opens it\<close>

definition new_wrapper ::
  "packages \<Rightarrow> vault_config \<Rightarrow> draws \<Rightarrow> rstring \<Rightarrow> unlocked_vault \<Rightarrow> (unlocked_vault, vault_error) result" where
  "new_wrapper pk cfg dr new_password u =
     (let salt = dr_salt dr; params = config_params cfg dr in
      rbind (wrap_argon2id (pk_prim pk) (dr_wrap_nonce dr) (uv_key u) new_password salt params) (\<lambda>wrapped.
      rbind (wrapper_new Argon2id wrapped) (\<lambda>wr.
      rbind (replace_wrapper wr ((uv_header u)\<lparr>vh_salt := salt, vh_params := params\<rparr>)) (\<lambda>h.
        Ok (u\<lparr>uv_header := h\<lparr>vh_key_version := vh_key_version h + 1\<rparr>\<rparr>)))))"

definition change_password ::
  "packages \<Rightarrow> vault_config \<Rightarrow> draws \<Rightarrow> rstring \<Rightarrow> rstring \<Rightarrow> vault_manager \<times> vault_world
   \<Rightarrow> (unit, vault_error) result \<times> vault_manager \<times> vault_world" where
  "change_password pk cfg dr old_password new_password vw =
     (let (r, v, w) = unlock_with_password pk cfg dr old_password vw in
      case r of
        Err e \<Rightarrow> (Err e, v, w)
      | Ok u \<Rightarrow>
          (case new_wrapper pk cfg dr new_password u of
             Err e \<Rightarrow> (Err e, v, w)
           | Ok u \<Rightarrow> (let (r, u, w) = save pk cfg dr (u, w) in (r, v, w))))"

definition bind_tpm ::
  "unlocked_vault \<Rightarrow> bytes \<Rightarrow> (unlocked_vault option, vault_error) result" where
  "bind_tpm u sealed =
     (if get_wrapper Tpm2 (uv_header u) = None
      then rbind (wrapper_new Tpm2 sealed) (\<lambda>wr.
           rbind (add_wrapper wr (uv_header u)) (\<lambda>h. Ok (Some (u\<lparr>uv_header := h\<rparr>))))
      else Ok None)"

definition rebind_biometric ::
  "packages \<Rightarrow> vault_config \<Rightarrow> draws \<Rightarrow> rstring \<Rightarrow> vault_manager \<times> vault_world
   \<Rightarrow> (unit, vault_error) result \<times> vault_manager \<times> vault_world" where
  "rebind_biometric pk cfg dr password vw =
     (if \<not> vc_use_keychain cfg \<or> \<not> pk_tpm_available pk
      then (Err (PlatformNotSupported (lit ''No TPM available to seal to'')), vw)
      else
        (let (r, v, w) = unlock_with_password pk cfg dr password vw in
         case r of
           Err e \<Rightarrow> (Err e, v, w)
         | Ok u \<Rightarrow>
             (case rbind (pk_tpm_seal pk (uv_key u)) (bind_tpm u) of
                Err e \<Rightarrow> (Err e, v, w)
              | Ok None \<Rightarrow> (Ok (), v, w)
              | Ok (Some u) \<Rightarrow> (let (r, u, w) = save pk cfg dr (u, w) in (r, v, w)))))"

end
