(* ===== verification/Vault_Ui.thy ===== *)
theory Vault_Ui
  imports App_Upgrade Vault_Api
begin

text \<open>
  The vault as the application drives it (crates/multitop/src/app/vault.rs and
  app/apply_vault.rs): the prompts for unlocking and for creating a vault, the epoch that
  retires an attempt the user has moved on from, and what each answer of the vault's tasks does.

  An open handle on the vault file is its path; what was unlocked is of type \<open>'v\<close>, read and
  written through the \<open>ui_vault_\<close> fields of the argument \<open>ui\<close>. \<open>vault_ui\<close> instantiates them
  with the operations of theory \<open>Vault_Api\<close>.
\<close>

section \<open>The vault epoch\<close>

definition bump_vault_epoch :: "('o, 'v) app \<Rightarrow> u64 \<times> ('o, 'v) app" where
  "bump_vault_epoch a =
     (let a = a\<lparr>a_vault_epoch := a_vault_epoch a + 1\<rparr> in (a_vault_epoch a, a))"

definition vault_epoch_current :: "('o, 'v) app \<Rightarrow> u64 \<Rightarrow> bool" where
  "vault_epoch_current a epoch \<longleftrightarrow> a_vault_epoch a = epoch"

section \<open>The state of the prompt\<close>

definition show_vault_password_prompt :: "('o, 'v) app \<Rightarrow> bool" where
  "show_vault_password_prompt a = (case a_vault_state a of VPasswordPrompt _ \<Rightarrow> True | _ \<Rightarrow> False)"

definition vault_verifying :: "('o, 'v) app \<Rightarrow> bool" where
  "vault_verifying a =
     (case a_vault_state a of VUnlocking awaiting \<Rightarrow> \<not> awaiting | _ \<Rightarrow> False)"

definition vault_awaiting_biometric :: "('o, 'v) app \<Rightarrow> bool" where
  "vault_awaiting_biometric a =
     (case a_vault_state a of VUnlocking awaiting \<Rightarrow> awaiting | VUnlocked _ awaiting \<Rightarrow> awaiting
                            | _ \<Rightarrow> False)"

definition vault_creating :: "('o, 'v) app \<Rightarrow> bool" where
  "vault_creating a = (case a_vault_state a of VCreating _ _ \<Rightarrow> True | _ \<Rightarrow> False)"

definition vault_create_error :: "('o, 'v) app \<Rightarrow> rstring option" where
  "vault_create_error a = (case a_vault_state a of VCreating e _ \<Rightarrow> e | _ \<Rightarrow> None)"

definition vault_create_in_flight :: "('o, 'v) app \<Rightarrow> bool" where
  "vault_create_in_flight a = (case a_vault_state a of VCreating _ flight \<Rightarrow> flight | _ \<Rightarrow> False)"

definition vault_password_error :: "('o, 'v) app \<Rightarrow> rstring option" where
  "vault_password_error a = (case a_vault_state a of VPasswordPrompt e \<Rightarrow> e | _ \<Rightarrow> None)"

definition set_vault_password_error :: "rstring option \<Rightarrow> ('o, 'v) app \<Rightarrow> ('o, 'v) app" where
  "set_vault_password_error err a =
     (case a_vault_state a of VPasswordPrompt _ \<Rightarrow> a\<lparr>a_vault_state := VPasswordPrompt err\<rparr> | _ \<Rightarrow> a)"

definition vault_unlocked :: "('o, 'v) app \<Rightarrow> 'v option" where
  "vault_unlocked a = (case a_vault_state a of VUnlocked v _ \<Rightarrow> Some v | _ \<Rightarrow> None)"

definition show_upgrade_modal :: "('o, 'v) app \<Rightarrow> bool" where
  "show_upgrade_modal a \<longleftrightarrow> a_mode a = ShowUpgradeModal"

definition set_show_upgrade_modal :: "bool \<Rightarrow> ('o, 'v) app \<Rightarrow> ('o, 'v) app" where
  "set_show_upgrade_modal b a =
     (if b then a\<lparr>a_mode := ShowUpgradeModal\<rparr>
      else if a_mode a = ShowUpgradeModal then a\<lparr>a_mode := Running\<rparr> else a)"

definition set_show_vault_password_prompt :: "bool \<Rightarrow> ('o, 'v) app \<Rightarrow> ('o, 'v) app" where
  "set_show_vault_password_prompt b a =
     (case a_vault_state a of
        VPasswordPrompt _ \<Rightarrow> if b then a else a\<lparr>a_vault_state := VLocked\<rparr>
      | _ \<Rightarrow> if b then a\<lparr>a_vault_state := VPasswordPrompt None\<rparr> else a)"

section \<open>Unlocking\<close>

definition prompt_for_master_password :: "('o, 'v) app \<Rightarrow> ('o, 'v) app" where
  "prompt_for_master_password a = a\<lparr>a_vault_input := [], a_vault_state := VPasswordPrompt None\<rparr>"

definition begin_password_unlock :: "('o, 'v) app \<Rightarrow> bool \<times> ('o, 'v) app" where
  "begin_password_unlock a =
     (if a_vault a = None \<or> (case a_vault_state a of VLocked \<Rightarrow> False | _ \<Rightarrow> True) then (False, a)
      else let (_, a) = bump_vault_epoch a in (True, prompt_for_master_password a))"

definition begin_vault_unlock ::
  "('o, 'v) ui \<Rightarrow> ('o, 'v) app \<Rightarrow> (rstring \<times> u64) option \<times> ('o, 'v) app" where
  "begin_vault_unlock ui a =
     (case a_vault_state a of
        VLocked \<Rightarrow>
          (case a_vault a of
             None \<Rightarrow> (None, a)
           | Some vault \<Rightarrow>
               if \<not> ui_biometric ui vault then (None, snd (begin_password_unlock a))
               else (let (epoch, a) = bump_vault_epoch a;
                         a = a\<lparr>a_vault_input := []\<rparr>;
                         a = a\<lparr>a_vault_state := VUnlocking True\<rparr>
                     in (Some (vault, epoch), a)))
      | _ \<Rightarrow> (None, a))"

definition set_vault_unlocking :: "('o, 'v) app \<Rightarrow> u64 \<times> ('o, 'v) app" where
  "set_vault_unlocking a =
     (let (epoch, a) = bump_vault_epoch a
      in (epoch, a\<lparr>a_vault_state := VUnlocking False, a_vault_input := []\<rparr>))"

definition cancel_vault_biometric :: "('o, 'v) app \<Rightarrow> ('o, 'v) app" where
  "cancel_vault_biometric a =
     (if vault_awaiting_biometric a
      then (snd (bump_vault_epoch a))\<lparr>a_vault_state := VLocked, a_vault_input := []\<rparr> else a)"

definition cancel_vault_verify :: "('o, 'v) app \<Rightarrow> ('o, 'v) app" where
  "cancel_vault_verify a =
     (if vault_verifying a then (snd (bump_vault_epoch a))\<lparr>a_vault_state := VLocked\<rparr> else a)"

section \<open>Creating\<close>

definition begin_vault_creation :: "('o, 'v) app \<Rightarrow> bool \<times> ('o, 'v) app" where
  "begin_vault_creation a =
     (if a_vault a \<noteq> None \<or> a_config_path a = None then (False, a)
      else (True, (snd (bump_vault_epoch a))\<lparr>a_vault_input := [], a_vault_state := VCreating None False\<rparr>))"

definition begin_vault_create_attempt :: "('o, 'v) app \<Rightarrow> rstring option \<times> ('o, 'v) app" where
  "begin_vault_create_attempt a =
     (if vault_create_in_flight a then (None, a)
      else let master = a_vault_input a; a = a\<lparr>a_vault_input := []\<rparr>
           in if master = []
              then (None, a\<lparr>a_vault_state := VCreating (Some (lit ''Master password cannot be empty'')) False\<rparr>)
              else (Some master, a\<lparr>a_vault_state := VCreating None True\<rparr>))"

definition fail_vault_creation :: "rstring \<Rightarrow> ('o, 'v) app \<Rightarrow> ('o, 'v) app" where
  "fail_vault_creation e a = a\<lparr>a_vault_state := VCreating (Some e) False\<rparr>"

definition cancel_vault_creation :: "('o, 'v) app \<Rightarrow> ('o, 'v) app" where
  "cancel_vault_creation a =
     (if vault_creating a
      then (snd (bump_vault_epoch a))\<lparr>a_vault_state := VLocked, a_vault_input := []\<rparr> else a)"

section \<open>Answers\<close>

definition report_rotation :: "rstring \<Rightarrow> ('o, 'v) app \<Rightarrow> ('o, 'v) app" where
  "report_rotation outcome a =
     (case a_manager a of
        Some m \<Rightarrow> a\<lparr>a_manager := Some (m\<lparr>pm_rotating := False, pm_notice := Some outcome\<rparr>)\<rparr>
      | None \<Rightarrow> all_panels (add_note outcome) a)"

definition known_password :: "('o, 'v) ui \<Rightarrow> 'o panel \<Rightarrow> (rstring \<times> rstring) option" where
  "known_password ui p =
     (case pn_sudo_password p of
        Some pass \<Rightarrow> Some (account (pn_server p), pass)
      | None \<Rightarrow> (case ui_store_load ui (pn_server p) of
                   Ok (Some pass) \<Rightarrow> Some (account (pn_server p), pass)
                 | _ \<Rightarrow> None))"

fun seed_all :: "('o, 'v) ui \<Rightarrow> (rstring \<times> rstring) list \<Rightarrow> 'v \<Rightarrow> nat \<times> 'v" where
  "seed_all ui [] v = (0, v)"
| "seed_all ui ((k, pass) # known) v =
     (let (err, v) = ui_vault_set ui k pass v; (failed, v) = seed_all ui known v
      in ((if err = None then 0 else 1) + failed, v))"

definition seed_note :: "nat \<Rightarrow> rstring" where
  "seed_note failed = WARNING_SIGN @ lit '' '' @ show_nat failed
     @ lit '' password(s) could not be written to the new vault; they remain in the OS credential store.''"

definition seed_vault_from_panels :: "('o, 'v) ui \<Rightarrow> ('o, 'v) app \<Rightarrow> ('o, 'v) app" where
  "seed_vault_from_panels ui a =
     (let known = List.map_filter (known_password ui) (a_panels a);
          (failed, a) = (case a_vault_state a of
                           VUnlocked v awaiting \<Rightarrow>
                             (let (failed, v) = seed_all ui known v
                              in (failed, a\<lparr>a_vault_state := VUnlocked v awaiting\<rparr>))
                         | _ \<Rightarrow> (0, a))
      in if 0 < failed then all_panels (add_note (seed_note failed)) a else a)"

definition created_note :: rstring where
  "created_note =
     lit ''Vault created. Sudo passwords are now stored encrypted; unlock with Touch ID.''"

definition on_vault_created :: "('o, 'v) ui \<Rightarrow> u64 \<Rightarrow> 'v \<Rightarrow> ('o, 'v) app \<Rightarrow> ('o, 'v) step" where
  "on_vault_created ui epoch v a =
     (if \<not> vault_epoch_current a epoch then (False, a, [])
      else let a = (case a_config_path a of
                      Some path \<Rightarrow> a\<lparr>a_vault := ui_create_vault ui path\<rparr> | None \<Rightarrow> a);
               a = a\<lparr>a_vault_state := VUnlocked v False\<rparr>;
               a = seed_vault_from_panels ui a;
               a = a\<lparr>a_vault_input := []\<rparr>;
               a = (case a_manager a of
                      Some m \<Rightarrow> a\<lparr>a_manager := Some (m\<lparr>pm_notice := Some created_note\<rparr>)\<rparr>
                    | None \<Rightarrow> a);
               a = all_panels (add_note created_note) a
           in (True, a, []))"

definition on_vault_unlock_failed :: "u64 \<Rightarrow> rstring \<Rightarrow> ('o, 'v) app \<Rightarrow> ('o, 'v) step" where
  "on_vault_unlock_failed epoch e a =
     (if \<not> vault_epoch_current a epoch then (False, a, [])
      else (True, a\<lparr>a_vault_state := VPasswordPrompt (Some e)\<rparr>, []))"

definition on_vault_create_failed :: "u64 \<Rightarrow> rstring \<Rightarrow> ('o, 'v) app \<Rightarrow> ('o, 'v) step" where
  "on_vault_create_failed epoch e a =
     (if \<not> vault_epoch_current a epoch \<or> a_vault a \<noteq> None then (False, a, [])
      else (True, fail_vault_creation e a, []))"

text \<open>The password an unlocked vault gives a panel that has none.\<close>

definition load_unlocked :: "('o, 'v) ui \<Rightarrow> (rstring \<times> rstring) list \<Rightarrow> 'o panel \<Rightarrow> 'o panel" where
  "load_unlocked ui to_load p =
     (if pn_sudo_password p \<noteq> None then p
      else case find (\<lambda>(k, _). k = account (pn_server p)) to_load of
             Some (_, pass) \<Rightarrow> set_sudo_password pass True p
           | None \<Rightarrow> (case ui_store_load ui (pn_server p) of
                        Ok (Some pass) \<Rightarrow> set_sudo_password pass True p
                      | _ \<Rightarrow> p))"

definition on_vault_unlocked :: "('o, 'v) ui \<Rightarrow> u64 \<Rightarrow> 'v \<Rightarrow> ('o, 'v) app \<Rightarrow> ('o, 'v) step" where
  "on_vault_unlocked ui epoch v a =
     (if \<not> vault_epoch_current a epoch then (False, a, [])
      else let a = a\<lparr>a_vault_state := VUnlocked v False\<rparr>;
               to_load = List.map_filter
                 (\<lambda>host. map_option (Pair host) (ui_vault_get ui v host)) (ui_vault_hosts ui v);
               a = all_panels (load_unlocked ui to_load) a;
               a = a\<lparr>a_mode := ShowUpgradeModal\<rparr>
           in (True, a, []))"

definition on_vault_password_rotated :: "u64 \<Rightarrow> ('o, 'v) app \<Rightarrow> ('o, 'v) step" where
  "on_vault_password_rotated epoch a =
     (if \<not> vault_epoch_current a epoch then (False, a, [])
      else (True, report_rotation (lit ''Master password changed.'') a, []))"

definition on_vault_password_rotation_failed :: "u64 \<Rightarrow> rstring \<Rightarrow> ('o, 'v) app \<Rightarrow> ('o, 'v) step" where
  "on_vault_password_rotation_failed epoch e a =
     (if \<not> vault_epoch_current a epoch then (False, a, [])
      else (True, report_rotation (lit ''Master password NOT changed: '' @ e) a, []))"

definition on_vault_biometric_failed :: "u64 \<Rightarrow> ('o, 'v) app \<Rightarrow> ('o, 'v) step" where
  "on_vault_biometric_failed epoch a =
     (if \<not> vault_epoch_current a epoch then (False, a, [])
      else (True, prompt_for_master_password a, []))"

section \<open>Dispatch\<close>

text \<open>\<open>App::apply\<close>: one arm per message.\<close>

fun app_apply :: "('o, 'v) ui \<Rightarrow> u64 \<Rightarrow> ('o, 'v) msg \<Rightarrow> ('o, 'v) app \<Rightarrow> ('o, 'v) step" where
  "app_apply ui now (Packet i g epoch pl dm) = on_packet ui i g epoch pl dm"
| "app_apply ui now (Frame i epoch lines) = on_frame i epoch lines"
| "app_apply ui now (Status i g txt) = on_status i g txt"
| "app_apply ui now (FetchData i g snap lines) = on_fetch_data i g snap lines"
| "app_apply ui now (AuxBegin i g header) = on_aux_begin i g header"
| "app_apply ui now (Ops i g st dm) = on_ops ui i g st dm"
| "app_apply ui now (AuxRepaint i g line back erase_below) = on_aux_repaint i g line back erase_below"
| "app_apply ui now (AuxLine i g line) = on_aux_line i g line"
| "app_apply ui now (AuxStatus i g st) = on_aux_status i g st"
| "app_apply ui now (AuxDone i g txt success) = on_aux_done ui now i g txt success"
| "app_apply ui now (VaultCreated epoch v) = on_vault_created ui epoch v"
| "app_apply ui now (VaultUnlockFailed epoch e) = on_vault_unlock_failed epoch e"
| "app_apply ui now (VaultCreateFailed epoch e) = on_vault_create_failed epoch e"
| "app_apply ui now (VaultUnlocked epoch v) = on_vault_unlocked ui epoch v"
| "app_apply ui now (VaultPasswordRotated epoch) = on_vault_password_rotated epoch"
| "app_apply ui now (VaultPasswordRotationFailed epoch e) = on_vault_password_rotation_failed epoch e"
| "app_apply ui now (VaultBiometricFailed epoch) = on_vault_biometric_failed epoch"
| "app_apply ui now (CredentialLoaded i epoch r) = on_credential_loaded i epoch r"
| "app_apply ui now (UpgradableReceived i g summary) = on_upgradable_received i g summary"

end
