(* ===== verification/App_Props.thy ===== *)
theory App_Props
  imports Vault_Ui
begin

text \<open>
  What the application guarantees about messages: which of them a panel's state answers to, that
  the log of a running upgrade is what its own run sent, that a task of a replaced panel list
  can change nothing, and how a run is recorded.
\<close>

section \<open>What a message leaves alone\<close>

text \<open>The part of a panel that decides whose output it takes.\<close>

definition panel_key :: "'o panel \<Rightarrow> server \<times> mode \<times> u64 \<times> u64" where
  "panel_key p = (pn_server p, pn_mode p, pn_gen p, pn_upgrade_gen p)"

lemma panel_key_note [simp]: "panel_key (add_note t p) = panel_key p"
  by (simp add: panel_key_def)

lemma map_panel_key_note [simp]: "map (panel_key \<circ> add_note t) ps = map panel_key ps"
  by (simp add: comp_def)

text \<open>What a message does to the log of a running upgrade of panel \<open>i\<close>, whose state is \<open>p\<close>:
  its run's lines and repaints, and a status of the panel's current task while the log is what
  the panel shows.\<close>

fun log_effect :: "nat \<Rightarrow> 'o panel \<Rightarrow> rstring ring_lines \<Rightarrow> ('o, 'v) msg \<Rightarrow> rstring ring_lines" where
  "log_effect i p log (AuxLine j g line) =
     (if j = i \<and> g = pn_upgrade_gen p then ring_push line log else log)"
| "log_effect i p log (AuxRepaint j g line back erase) =
     (if j = i \<and> g = pn_upgrade_gen p then log_repaint line back erase log else log)"
| "log_effect i p log (Status j g txt) =
     (if j = i \<and> g = pn_gen p \<and> pn_mode p = MUpgrade then ring_push txt log else log)"
| "log_effect i p log _ = log"

fun ends_run :: "nat \<Rightarrow> u64 \<Rightarrow> ('o, 'v) msg \<Rightarrow> bool" where
  "ends_run i g (AuxDone j h txt success) \<longleftrightarrow> j = i \<and> h = g"
| "ends_run i g _ \<longleftrightarrow> False"

text \<open>What the log, its owner and its state amount to.\<close>

definition log_view :: "'o panel \<Rightarrow> (server \<times> mode \<times> u64 \<times> u64) \<times> upgrade_state \<times> rstring ring_lines" where
  "log_view p = (panel_key p, pn_upgrade_state p, pn_last_upgrade p)"

lemma log_view_note [simp]: "log_view (add_note t p) = log_view p"
  by (simp add: log_view_def)

lemma log_view_password [simp]:
  "log_view (answer_credential_load r p) = log_view p"
  "log_view (set_sudo_password pw b p) = log_view p"
  "log_view (load_unlocked ui l p) = log_view p"
  by (auto simp: log_view_def panel_key_def answer_credential_load_def set_sudo_password_def
      load_unlocked_def Let_def split: sum.splits option.splits)

lemma nth_log_view:
  "map log_view ps = map log_view qs \<Longrightarrow> i < length qs \<Longrightarrow> log_view (ps ! i) = log_view (qs ! i)"
  by (metis length_map nth_map)

lemma persist_log_views [simp]:
  "map log_view (a_panels (fst (persist_state ui a))) = map log_view (a_panels a)"
  by (auto simp: persist_state_def Let_def comp_def split: option.splits)


abbreviation after :: "('o, 'v) step \<Rightarrow> ('o, 'v) app" where
  "after r \<equiv> fst (snd r)"

definition keeps_log :: "nat \<Rightarrow> ('o, 'v) msg \<Rightarrow> ('o, 'v) app \<Rightarrow> ('o, 'v) app \<Rightarrow> bool" where
  "keeps_log i m a a' \<longleftrightarrow> length (a_panels a') = length (a_panels a) \<and>
     log_view (a_panels a' ! i) =
       (panel_key (a_panels a ! i), UStarted, log_effect i (a_panels a ! i) (pn_last_upgrade (a_panels a ! i)) m)"

lemma keeps_log_same:
  assumes "pn_upgrade_state (a_panels a ! i) = UStarted"
    and "log_effect i (a_panels a ! i) (pn_last_upgrade (a_panels a ! i)) m = pn_last_upgrade (a_panels a ! i)"
    and "map log_view (a_panels a') = map log_view (a_panels a)" "i < length (a_panels a)"
  shows "keeps_log i m a a'"
proof -
  have "length (a_panels a') = length (a_panels a)"
    using assms(3) by (rule map_eq_imp_length_eq)
  moreover have "log_view (a_panels a' ! i) = log_view (a_panels a ! i)"
    using assms(3,4) by (rule nth_log_view)
  ultimately show ?thesis
    using assms(1,2) by (simp add: keeps_log_def log_view_def)
qed

lemma map_update_same: "f x = f (xs ! j) \<Longrightarrow> map f (xs[j := x]) = map f xs"
  by (metis list_update_id map_update)

lemma log_view_updates [simp]:
  "log_view (p\<lparr>pn_history := h\<rparr>) = log_view p"
  "log_view (p\<lparr>pn_last_monitor := x\<rparr>) = log_view p"
  "log_view (p\<lparr>pn_last_frame := l\<rparr>) = log_view p"
  "log_view (p\<lparr>pn_last_docker := x\<rparr>) = log_view p"
  "log_view (p\<lparr>pn_last_fetch := s\<rparr>) = log_view p"
  "log_view (p\<lparr>pn_last_ops := st\<rparr>) = log_view p"
  "log_view (p\<lparr>pn_upgrade_status := u\<rparr>) = log_view p"
  "log_view (p\<lparr>pn_view_status := u\<rparr>) = log_view p"
  "log_view (p\<lparr>pn_view := v\<rparr>) = log_view p"
  "log_view (p\<lparr>pn_upgradable := w\<rparr>) = log_view p"
  "log_view (show_frame ls p) = log_view p"
  "log_view (show_body ls p) = log_view p"
  "log_view (show_last_frame pal p) = log_view p"
  by (simp_all add: log_view_def panel_key_def show_last_frame_def split: option.split)

text \<open>The messages that touch no log at all.\<close>

lemma quiet_panels:
  "map log_view (a_panels (after (on_packet ui j g ep pl dm a))) = map log_view (a_panels a)"
  "map log_view (a_panels (after (on_frame j ep ls a))) = map log_view (a_panels a)"
  "map log_view (a_panels (after (on_fetch_data j g sn ls a))) = map log_view (a_panels a)"
  "map log_view (a_panels (after (on_ops ui j g st dm a))) = map log_view (a_panels a)"
  "map log_view (a_panels (after (on_aux_begin j g hdr a))) = map log_view (a_panels a)"
  "map log_view (a_panels (after (on_aux_status j g us a))) = map log_view (a_panels a)"
  "map log_view (a_panels (after (on_credential_loaded j ep r a))) = map log_view (a_panels a)"
  "map log_view (a_panels (after (on_upgradable_received j g w a))) = map log_view (a_panels a)"
  by (auto simp: on_packet_def on_frame_def on_fetch_data_def on_ops_def on_aux_begin_def
      on_aux_status_def on_credential_loaded_def on_upgradable_received_def Let_def nth_opt_Some
      intro!: map_update_same split: option.splits payload.splits mode.splits)

lemma seed_views [simp]: "map log_view (a_panels (seed_vault_from_panels ui a)) = map log_view (a_panels a)"
  by (auto simp: seed_vault_from_panels_def Let_def comp_def split: vault_state.splits prod.splits)

lemma report_views [simp]: "map log_view (a_panels (report_rotation t a)) = map log_view (a_panels a)"
  by (auto simp: report_rotation_def comp_def split: option.split)

lemma quiet_vault:
  "map log_view (a_panels (after (on_vault_created ui ep v a))) = map log_view (a_panels a)"
  "map log_view (a_panels (after (on_vault_unlock_failed ep e a))) = map log_view (a_panels a)"
  "map log_view (a_panels (after (on_vault_create_failed ep e a))) = map log_view (a_panels a)"
  "map log_view (a_panels (after (on_vault_unlocked ui ep v a))) = map log_view (a_panels a)"
  "map log_view (a_panels (after (on_vault_password_rotated ep a))) = map log_view (a_panels a)"
  "map log_view (a_panels (after (on_vault_password_rotation_failed ep e a))) = map log_view (a_panels a)"
  "map log_view (a_panels (after (on_vault_biometric_failed ep a))) = map log_view (a_panels a)"
  by (auto simp: on_vault_created_def on_vault_unlock_failed_def on_vault_create_failed_def
      on_vault_unlocked_def on_vault_password_rotated_def on_vault_password_rotation_failed_def
      on_vault_biometric_failed_def fail_vault_creation_def prompt_for_master_password_def
      Let_def comp_def split: option.split)


lemma keeps_log_with:
  assumes "pn_upgrade_state (a_panels a ! i) = UStarted" "i < length (a_panels a)"
    and "a_panels a' = (a_panels a)[j := q]"
    and "j = i \<Longrightarrow> log_view q = (panel_key (a_panels a ! i), UStarted,
           log_effect i (a_panels a ! i) (pn_last_upgrade (a_panels a ! i)) m)"
    and "j \<noteq> i \<Longrightarrow> log_effect i (a_panels a ! i) (pn_last_upgrade (a_panels a ! i)) m
           = pn_last_upgrade (a_panels a ! i)"
  shows "keeps_log i m a a'"
  using assms by (cases "j = i") (simp_all add: keeps_log_def log_view_def)

lemma loud_status:
  assumes "pn_upgrade_state (a_panels a ! i) = UStarted" "i < length (a_panels a)"
  shows "keeps_log i (Status j g t) a (after (on_status j g t a))"
proof (cases "accepts a j g")
  case True
  show ?thesis
    by (rule keeps_log_with [OF assms, where j = j])
       (use True in \<open>auto simp: on_status_def accepts_def log_view_def panel_key_def assms nth_opt_Some
         split: option.splits\<close>)
next
  case False
  then have "log_effect i (a_panels a ! i) l (Status j g t) = l" for l
    using assms(2) by (auto simp: accepts_def nth_opt_def)
  with False show ?thesis
    by (intro keeps_log_same [OF assms(1) _ _ assms(2)]) (simp_all add: on_status_def)
qed

lemma loud_line:
  assumes "pn_upgrade_state (a_panels a ! i) = UStarted" "i < length (a_panels a)"
  shows "keeps_log i (AuxLine j g t) a (after (on_aux_line j g t a))"
proof (cases "j < length (a_panels a)")
  case True
  let ?p = "a_panels a ! j"
  let ?q = "if belongs g ?p then ?p\<lparr>pn_last_upgrade := ring_push t (pn_last_upgrade ?p)\<rparr>
            else if pn_gen ?p = g then ?p\<lparr>pn_view := push_capped t (a_history_lines a) (pn_view ?p)\<rparr> else ?p"
  show ?thesis
    by (rule keeps_log_with [OF assms, where j = j and q = ?q])
       (use True assms in \<open>auto simp: on_aux_line_def nth_opt_def log_view_def panel_key_def belongs_def Let_def\<close>)
next
  case False
  then show ?thesis
    using assms by (intro keeps_log_same) (auto simp: on_aux_line_def nth_opt_def)
qed

lemma loud_repaint:
  assumes "pn_upgrade_state (a_panels a ! i) = UStarted" "i < length (a_panels a)"
  shows "keeps_log i (AuxRepaint j g t b e) a (after (on_aux_repaint j g t b e a))"
proof (cases "j < length (a_panels a)")
  case True
  let ?p = "a_panels a ! j"
  let ?q = "if belongs g ?p then ?p\<lparr>pn_last_upgrade := log_repaint t b e (pn_last_upgrade ?p)\<rparr> else ?p"
  show ?thesis
    by (rule keeps_log_with [OF assms, where j = j and q = ?q])
       (use True assms in \<open>auto simp: on_aux_repaint_def nth_opt_def log_view_def panel_key_def belongs_def\<close>)
next
  case False
  then show ?thesis
    using assms by (intro keeps_log_same) (auto simp: on_aux_repaint_def nth_opt_def)
qed

lemma finish_views:
  assumes "i < length (a_panels a)" "j \<noteq> i" "j < length (a_panels a)"
  shows "length (a_panels (fst (finish_upgrade ui now j s a))) = length (a_panels a)"
    and "log_view (a_panels (fst (finish_upgrade ui now j s a)) ! i) = log_view (a_panels a ! i)"
proof -
  have *: "\<exists>b. map log_view (a_panels (fst (finish_upgrade ui now j s a))) =
      map log_view ((a_panels a)[j := b])"
    by (auto simp: finish_upgrade_def Let_def case_prod_beta)
  then obtain b where b: "map log_view (a_panels (fst (finish_upgrade ui now j s a))) =
      map log_view ((a_panels a)[j := b])" by blast
  then show "length (a_panels (fst (finish_upgrade ui now j s a))) = length (a_panels a)"
    by (metis length_list_update length_map)
  show "log_view (a_panels (fst (finish_upgrade ui now j s a)) ! i) = log_view (a_panels a ! i)"
    using nth_log_view [OF b, of i] assms by simp
qed

lemma loud_done:
  assumes "pn_upgrade_state (a_panels a ! i) = UStarted" "i < length (a_panels a)"
    and "\<not> ends_run i (pn_upgrade_gen (a_panels a ! i)) (AuxDone j g t s)"
  shows "keeps_log i (AuxDone j g t s) a (after (on_aux_done ui now j g t s a))"
proof (cases "j < length (a_panels a) \<and> (accepts a j g \<or> belongs g (a_panels a ! j))")
  case False
  then show ?thesis
    using assms(1,2) by (intro keeps_log_same) (auto simp: on_aux_done_def nth_opt_def)
next
  case True
  show ?thesis
  proof (cases "belongs g (a_panels a ! j)")
    case own: True
    with assms have "j \<noteq> i" by (auto simp: belongs_def)
    with own True assms(2) show ?thesis
      using finish_views [of i a j ui now s] assms(1)
      by (auto simp: on_aux_done_def nth_opt_def keeps_log_def Let_def case_prod_beta log_view_def
          split: option.split)
  next
    case other: False
    let ?p = "a_panels a ! j"
    let ?q = "case t of Some l \<Rightarrow> if pn_gen ?p = g
                then ?p\<lparr>pn_view := push_capped l (a_history_lines a) (pn_view ?p)\<rparr> else ?p | None \<Rightarrow> ?p"
    show ?thesis
      by (rule keeps_log_with [OF assms(1,2), where j = j and q = ?q])
         (use True other assms in \<open>auto simp: on_aux_done_def nth_opt_def log_view_def panel_key_def
           split: option.splits\<close>)
  qed
qed

lemma apply_keeps_log:
  assumes "pn_upgrade_state (a_panels a ! i) = UStarted" "i < length (a_panels a)"
    and "\<not> ends_run i (pn_upgrade_gen (a_panels a ! i)) m"
  shows "keeps_log i m a (after (app_apply ui now m a))"
  using assms
  by (cases m)
     (auto simp: loud_status loud_line loud_repaint loud_done quiet_panels quiet_vault
       intro!: keeps_log_same)

definition deliver :: "('o, 'v) ui \<Rightarrow> (u64 \<times> ('o, 'v) msg) list \<Rightarrow> ('o, 'v) app \<Rightarrow> ('o, 'v) app" where
  "deliver ui ms a = fold (\<lambda>(now, m) a. after (app_apply ui now m a)) ms a"

lemma log_effect_cong:
  "panel_key p = panel_key q \<Longrightarrow> log_effect i p l m = log_effect i q l m"
  by (cases m) (simp_all add: panel_key_def)

lemma log_while_running:
  assumes "i < length (a_panels a)" "pn_upgrade_state (a_panels a ! i) = UStarted"
    and "\<forall>(now, m) \<in> set ms. \<not> ends_run i (pn_upgrade_gen (a_panels a ! i)) m"
  shows "log_view (a_panels (deliver ui ms a) ! i) =
    (panel_key (a_panels a ! i), UStarted,
     foldl (log_effect i (a_panels a ! i)) (pn_last_upgrade (a_panels a ! i)) (map snd ms))"
  using assms
proof (induction ms arbitrary: a)
  case Nil
  then show ?case by (simp add: deliver_def log_view_def)
next
  case (Cons nm ms)
  obtain now m where nm: "nm = (now, m)" by fastforce
  let ?p = "a_panels a ! i" and ?a = "after (app_apply ui now m a)"
  let ?q = "a_panels ?a ! i"
  have k: "keeps_log i m a ?a"
    using Cons.prems nm by (intro apply_keeps_log) auto
  then have q: "panel_key ?q = panel_key ?p" "pn_upgrade_state ?q = UStarted"
    "pn_last_upgrade ?q = log_effect i ?p (pn_last_upgrade ?p) m" "length (a_panels ?a) = length (a_panels a)"
    by (simp_all add: keeps_log_def log_view_def)
  then have "pn_upgrade_gen ?q = pn_upgrade_gen ?p" by (simp add: panel_key_def)
  with Cons.prems q have "log_view (a_panels (deliver ui ms ?a) ! i) =
    (panel_key ?q, UStarted, foldl (log_effect i ?q) (pn_last_upgrade ?q) (map snd ms))"
    by (intro Cons.IH) auto
  moreover have "foldl (log_effect i ?q) l (map snd ms) = foldl (log_effect i ?p) l (map snd ms)" for l
    using q(1) by (intro foldl_cong log_effect_cong) simp_all
  ultimately show ?case
    using q by (simp add: deliver_def nm)
qed

lemma deliver_length:
  assumes "i < length (a_panels a)" "pn_upgrade_state (a_panels a ! i) = UStarted"
    and "\<forall>(now, m) \<in> set ms. \<not> ends_run i (pn_upgrade_gen (a_panels a ! i)) m"
  shows "length (a_panels (deliver ui ms a)) = length (a_panels a)"
  using assms
proof (induction ms arbitrary: a)
  case Nil
  then show ?case by (simp add: deliver_def)
next
  case (Cons nm ms)
  obtain now m where nm: "nm = (now, m)" by fastforce
  have "keeps_log i m a (after (app_apply ui now m a))"
    using Cons.prems nm by (intro apply_keeps_log) auto
  with Cons show ?case
    by (simp add: keeps_log_def log_view_def panel_key_def deliver_def nm)
qed

text \<open>C6: The log of a running upgrade is its own run's output. Whatever messages arrive, from
  whichever tasks, panels, vault answers and credential lookups, in whatever order: as long as
  the run has not ended, the panel's log is the one obtained by applying, in the order of
  arrival, the lines and repaints stamped with this run's generation (and the status lines of the
  panel's current task while the log is on screen), and nothing else; the panel keeps its host,
  its mode and its generations.\<close>

theorem running_log_exact:
  assumes "i < length (a_panels a)" "pn_upgrade_state (a_panels a ! i) = UStarted"
    and "\<forall>(now, m) \<in> set ms. \<not> ends_run i (pn_upgrade_gen (a_panels a ! i)) m"
  shows "log_view (a_panels (deliver ui ms a) ! i) =
    (panel_key (a_panels a ! i), UStarted,
     foldl (log_effect i (a_panels a ! i)) (pn_last_upgrade (a_panels a ! i)) (map snd ms))"
  using assms by (rule log_while_running)


section \<open>Concrete panels\<close>

lemma trim_Nil [simp]: "trim [] = []"
  by code_simp

text \<open>A host, a palette and an outside that every instance below shares: nothing is drawn, every
  write succeeds, and the credential store is empty.\<close>

definition sample_server :: server where
  "sample_server = \<lparr>sv_host = lit ''web'', sv_name = Some (lit ''front''), sv_port = 22, sv_user = lit ''ops'',
     sv_upgrade_cmd = Some (lit ''apt''), sv_custom_command = None, sv_mcp = Some (lit ''mcp'')\<rparr>"

definition plain_palette :: palette where
  "plain_palette = \<lparr>pal_primary = [], pal_secondary = [], pal_muted = [], pal_text = [],
     pal_meter_low = [], pal_meter_mid = [], pal_meter_high = [], pal_reset = [], pal_bold = [],
     pal_dim = []\<rparr>"

definition plain_text :: text_env where
  "plain_text = \<lparr>tx_lower = (\<lambda>s. s), tx_parse_f64 = (\<lambda>_. None), tx_regex = (\<lambda>_. None)\<rparr>"

definition quiet_ui :: "('o, 'v) ui" where
  "quiet_ui = \<lparr>ui_payload = (\<lambda>_ _ _ _. []), ui_fetch = (\<lambda>_ _ _. []), ui_graphs = (\<lambda>_ _ _ _. []),
     ui_alerts = (\<lambda>_ _ _ _. []), ui_ops = (\<lambda>_ _ _. []), ui_terms = (\<lambda>_. []), ui_text = plain_text,
     ui_history = (\<lambda>_. None), ui_save = (\<lambda>_. None), ui_store_load = (\<lambda>_. Ok None),
     ui_store_save = (\<lambda>_ _. None), ui_store_delete = (\<lambda>_. None), ui_save_servers = (\<lambda>_ _. None),
     ui_ssh_config = None, ui_vault_path = Some, ui_theme = (\<lambda>_. plain_palette),
     ui_vault_hosts = (\<lambda>_. []), ui_vault_get = (\<lambda>_ _. None), ui_vault_set = (\<lambda>_ _ v. (None, v)),
     ui_vault_remove = (\<lambda>_ v. (None, v)), ui_create_vault = Some, ui_biometric = (\<lambda>_. False)\<rparr>"

definition sample_panel :: "'o panel" where
  "sample_panel = panel_new plain_palette (\<lambda>_. None) sample_server"

definition sample_app :: "'o panel list \<Rightarrow> ('o, 'v) app" where
  "sample_app ps = (app_new quiet_ui plain_palette [])\<lparr>a_panels := ps\<rparr>"

lemmas sample_defs = sample_server_def plain_palette_def plain_text_def quiet_ui_def sample_panel_def
  sample_app_def app_new_def panel_new_def

lemma sample_simps [simp]:
  "a_panels (sample_app ps) = ps"
  "a_focused (sample_app ps) = None"
  "a_filter_query (sample_app ps) = []"
  "a_panels_epoch (sample_app ps) = 0"
  "a_palette (sample_app ps) = plain_palette"
  "a_host_updates (sample_app ps) = Map.empty"
  "pn_server sample_panel = sample_server"
  "pn_gen sample_panel = 0"
  "pn_sudo_password sample_panel = None"
  "tx_lower (ui_text quiet_ui) = (\<lambda>s. s)"
  "sv_upgrade_cmd sample_server = Some (lit ''apt'')"
  by (simp_all add: sample_app_def app_new_def sample_panel_def panel_new_def quiet_ui_def
      plain_text_def sample_server_def)

definition running_panel :: "'o panel" where
  "running_panel = sample_panel\<lparr>pn_upgrade_state := UStarted, pn_upgrade_gen := 1, pn_gen := 1\<rparr>"

theorem running_log_exact_witness:
  "ring_lines (pn_last_upgrade (a_panels (deliver (quiet_ui :: (unit, unit) ui)
     [(0, AuxLine 0 1 [0x61]), (0, AuxLine 0 0 [0x62]), (0, AuxRepaint 0 1 [0x63] 1 0), (0, AuxLine 0 1 [0x64])]
     (sample_app [running_panel])) ! 0)) = [[0x63], [0x64]]"
  using running_log_exact [of 0 "sample_app [running_panel] :: (unit, unit) app"
      "[(0, AuxLine 0 1 [0x61]), (0, AuxLine 0 0 [0x62]), (0, AuxRepaint 0 1 [0x63] 1 0), (0, AuxLine 0 1 [0x64])]"
      quiet_ui]
  by (simp add: sample_defs running_panel_def log_view_def panel_key_def log_repaint_def
      ring_new_def ring_push_def overwrite_from_end_def slot_mut_def ring_lines_def
      DEFAULT_UPGRADE_HISTORY_LINES_def)


section \<open>A replaced panel list\<close>

lemma word_above:
  fixes g m :: u64
  assumes "g \<le> m" "unat m < 2 ^ 64 - 1"
  shows "g < m + 1"
proof -
  have "unat m + 1 < 2 ^ 64"
    using assms(2) by simp
  then have "unat (m + 1) = unat m + 1"
    by (subst unat_add_lem [THEN iffD1]) simp_all
  then show ?thesis
    using assms(1) by (simp add: word_less_nat_alt word_le_nat_alt)
qed

lemma fold_max_bounds:
  fixes g :: u64
  shows "g \<le> fold max gs g" "\<forall>h \<in> set gs. h \<le> fold max gs g" "fold max gs g \<in> insert g (set gs)"
proof (induction gs arbitrary: g)
  case (Cons h gs)
  case 1
  show ?case using Cons.IH(1) [of "max h g"] by simp
next
  case (Cons h gs)
  case 2
  show ?case using Cons.IH(1,2) [of "max h g"] by simp
next
  case (Cons h gs)
  case 3
  show ?case using Cons.IH(3) [of "max h g"] by (auto simp: max_def split: if_splits)
qed simp_all

lemma next_gen_above:
  assumes "p \<in> set (a_panels a)" "\<forall>q \<in> set (a_panels a). unat (pn_gen q) < 2 ^ 64 - 1" "g \<le> pn_gen p"
  shows "g < next_gen a"
proof -
  obtain x xs where xs: "map pn_gen (a_panels a) = x # xs"
    using assms(1) by (cases "a_panels a") auto
  let ?m = "fold max xs x"
  have "pn_gen p \<in> set (x # xs)"
    using assms(1) xs by (metis image_eqI list.set_map)
  then have "pn_gen p \<le> ?m"
    using fold_max_bounds [where g = x and gs = xs] by auto
  moreover have "?m \<in> set (map pn_gen (a_panels a))"
    using fold_max_bounds(3) [of xs x] by (simp add: xs)
  then have "unat ?m < 2 ^ 64 - 1"
    using assms(2) by auto
  ultimately show ?thesis
    using assms(3) word_above [of g ?m] by (simp add: next_gen_def xs)
qed

text \<open>The messages of tasks started for the panel list of \<open>a\<close> or an earlier one: stamped with an
  epoch no later than the list's, or with a generation some panel of it has reached.\<close>

fun from_old_list :: "('o, 'v) app \<Rightarrow> ('o, 'v) msg \<Rightarrow> bool" where
  "from_old_list a (Packet i g ep pl dm) \<longleftrightarrow> ep \<le> a_panels_epoch a"
| "from_old_list a (Frame i ep ls) \<longleftrightarrow> ep \<le> a_panels_epoch a"
| "from_old_list a (CredentialLoaded i ep r) \<longleftrightarrow> ep \<le> a_panels_epoch a"
| "from_old_list a (Status i g t) \<longleftrightarrow> (\<exists>p \<in> set (a_panels a). g \<le> pn_gen p)"
| "from_old_list a (FetchData i g s ls) \<longleftrightarrow> (\<exists>p \<in> set (a_panels a). g \<le> pn_gen p)"
| "from_old_list a (Ops i g st dm) \<longleftrightarrow> (\<exists>p \<in> set (a_panels a). g \<le> pn_gen p)"
| "from_old_list a (AuxBegin i g h) \<longleftrightarrow> (\<exists>p \<in> set (a_panels a). g \<le> pn_gen p)"
| "from_old_list a (AuxLine i g l) \<longleftrightarrow> (\<exists>p \<in> set (a_panels a). g \<le> pn_gen p)"
| "from_old_list a (AuxRepaint i g l b e) \<longleftrightarrow> (\<exists>p \<in> set (a_panels a). g \<le> pn_gen p)"
| "from_old_list a (AuxStatus i g st) \<longleftrightarrow> (\<exists>p \<in> set (a_panels a). g \<le> pn_gen p)"
| "from_old_list a (AuxDone i g t s) \<longleftrightarrow> (\<exists>p \<in> set (a_panels a). g \<le> pn_gen p)"
| "from_old_list a (UpgradableReceived i g t) \<longleftrightarrow> (\<exists>p \<in> set (a_panels a). g \<le> pn_gen p)"
| "from_old_list a _ \<longleftrightarrow> False"

lemma carry_credential_simps [simp]:
  "pn_gen (carry_credential ps p) = pn_gen p"
  "pn_upgrade_state (carry_credential ps p) = pn_upgrade_state p"
  "pn_server (carry_credential ps p) = pn_server p"
  "pn_last_upgrade (carry_credential ps p) = pn_last_upgrade p"
  by (simp_all add: carry_credential_def split: option.split)

lemma replaced_panel:
  assumes "i < length (a_panels (replace_panels ui servers a))"
  shows "pn_gen (a_panels (replace_panels ui servers a) ! i) = next_gen a"
    and "pn_upgrade_state (a_panels (replace_panels ui servers a) ! i) = UNil"
    and "pn_server (a_panels (replace_panels ui servers a) ! i) = servers ! i"
  using assms by (simp_all add: replace_panels_def Let_def panel_new_def next_gen_def)

lemma replaced_epoch: "a_panels_epoch (replace_panels ui servers a) = a_panels_epoch a + 1"
  by (simp add: replace_panels_def Let_def)

text \<open>C30: A task cannot touch a panel list it was not started for. After the server list is
  replaced, any message of a task of the old list (a monitor packet or frame, a credential
  lookup, the output, status or end of a view's task or of an upgrade, a poll's answer) is
  refused whole: nothing changes and nothing is asked of the outside, so no host's output is
  shown, logged or recorded under the host that has taken its place. Generations and epochs are
  64-bit counters and are assumed not to be at their end.\<close>

theorem old_tasks_cannot_write:
  assumes "from_old_list a m" "\<forall>p \<in> set (a_panels a). unat (pn_gen p) < 2 ^ 64 - 1"
    and "unat (a_panels_epoch a) < 2 ^ 64 - 1"
  shows "app_apply ui now m (replace_panels ui servers a) = (False, replace_panels ui servers a, [])"
proof -
  let ?a = "replace_panels ui servers a"
  have g: "g \<noteq> next_gen a" if "\<exists>p \<in> set (a_panels a). g \<le> pn_gen p" for g
    using that next_gen_above [OF _ assms(2)] by (metis less_irrefl)
  have ep: "ep \<noteq> a_panels_epoch ?a" if "ep \<le> a_panels_epoch a" for ep
    using word_above [OF that assms(3)] by (auto simp: replaced_epoch)
  have acc: "\<not> accepts ?a i g" if "\<exists>p \<in> set (a_panels a). g \<le> pn_gen p" for i g
    using g [OF that] replaced_panel(1) [of i ui servers a] by (auto simp: accepts_def nth_opt_def)
  have gen: "pn_gen p \<noteq> g" if "nth_opt (a_panels ?a) i = Some p" "\<exists>p \<in> set (a_panels a). g \<le> pn_gen p" for i p g
    using that(1) g [OF that(2)] replaced_panel(1) [of i ui servers a] by (auto simp: nth_opt_Some)
  have own: "\<not> belongs g p" if "nth_opt (a_panels ?a) i = Some p" for i p g
    using that replaced_panel(2) [of i ui servers a] by (auto simp: nth_opt_Some belongs_def)
  show ?thesis
    using assms(1)
    by (cases m)
       (auto simp: on_packet_def on_frame_def on_credential_loaded_def on_status_def on_fetch_data_def
         on_ops_def on_aux_begin_def on_aux_line_def on_aux_repaint_def on_aux_status_def on_aux_done_def
         on_upgradable_received_def acc own dest: ep gen split: option.split)
qed

theorem old_tasks_cannot_write_witness:
  "app_apply (quiet_ui :: (unit, unit) ui) 7 (AuxDone 0 1 (Some [0x61]) True)
     (replace_panels quiet_ui [sample_server] (sample_app [running_panel])) =
   (False, replace_panels quiet_ui [sample_server] (sample_app [running_panel]), [])"
  by (rule old_tasks_cannot_write) (simp_all add: sample_app_def running_panel_def app_new_def)

end
