(* ===== verification/Run_Props.thy ===== *)
theory Run_Props
  imports App_Props
begin

text \<open>
  The start of a run and its record: what a confirmed upgrade starts, what it writes down about
  each host, and when the two differ.
\<close>

section \<open>The state a run starts from\<close>

definition ready :: "('o, 'v) ui \<Rightarrow> ('o, 'v) app \<Rightarrow> ('o, 'v) app" where
  "ready ui a = fst (load_known_passwords ui (reset_scroll (a\<lparr>a_mode := Running\<rparr>)))"

text \<open>What loading a password does not change.\<close>

definition run_view :: "'o panel \<Rightarrow> server \<times> mode \<times> u64 \<times> u64 \<times> upgrade_state \<times> rstring ring_lines" where
  "run_view p = (pn_server p, pn_mode p, pn_gen p, pn_upgrade_gen p, pn_upgrade_state p, pn_last_upgrade p)"

lemma run_view_load [simp]: "run_view (try_load_vault_password ui v p) = run_view p"
  by (auto simp: run_view_def try_load_vault_password_def set_sudo_password_def Let_def
      split: option.split sum.split)

lemma ready_views: "map run_view (a_panels (ready ui a)) = map run_view (a_panels a)"
proof -
  have "run_view (p\<lparr>pn_scroll_offset := 0, pn_upgrade_scroll_offset := 0\<rparr>) = run_view p" for p :: "'a panel"
    by (simp add: run_view_def)
  then show ?thesis
    by (simp add: ready_def load_known_passwords_def reset_scroll_def all_panels_def comp_def Let_def
        split: vault_state.split)
qed

lemma ready_rest [simp]:
  "a_palette (ready ui a) = a_palette a"
  "a_host_updates (ready ui a) = a_host_updates a"
  "a_focused (ready ui a) = a_focused a"
  "a_filter_query (ready ui a) = a_filter_query a"
  "length (a_panels (ready ui a)) = length (a_panels a)"
  by (simp_all add: ready_def load_known_passwords_def reset_scroll_def all_panels_def Let_def
      split: vault_state.split)

lemma ready_nth:
  assumes "i < length (a_panels a)"
  shows "pn_server (a_panels (ready ui a) ! i) = pn_server (a_panels a ! i)"
    "pn_gen (a_panels (ready ui a) ! i) = pn_gen (a_panels a ! i)"
proof -
  have "run_view (a_panels (ready ui a) ! i) = run_view (a_panels a ! i)"
    using ready_views [of ui a] assms by (metis length_map nth_map)
  then show "pn_server (a_panels (ready ui a) ! i) = pn_server (a_panels a ! i)"
    "pn_gen (a_panels (ready ui a) ! i) = pn_gen (a_panels a ! i)"
    by (simp_all add: run_view_def)
qed

definition started :: "('o, 'v) ui \<Rightarrow> ('o, 'v) app \<Rightarrow> ('o, 'v) app" where
  "started ui a = fst (start_panels (filtered_indices ui (ready ui a)) (ready ui a))"

lemma started_rest [simp]:
  "a_host_updates (started ui a) = a_host_updates a"
  "a_palette (started ui a) = a_palette a"
  "a_focused (started ui a) = a_focused a"
  "a_filter_query (started ui a) = a_filter_query a"
  "length (a_panels (started ui a)) = length (a_panels a)"
  by (simp_all add: started_def start_panels_rest start_panels_length)

lemma run_upgrade_split:
  "run_upgrade ui (a\<lparr>a_mode := Running\<rparr>) =
     (started ui a, snd (start_panels (filtered_indices ui (ready ui a)) (ready ui a)))"
  by (simp add: run_upgrade_def started_def ready_def case_prod_beta Let_def)

lemma started_nth:
  assumes "i < length (a_panels a)"
  shows "a_panels (started ui a) ! i =
    (if i \<in> set (filtered_indices ui (ready ui a))
     then start_panel (a_palette a) (a_panels (ready ui a) ! i) else a_panels (ready ui a) ! i)"
  using assms by (simp add: started_def start_panels_nth filtered_indices_distinct)

lemma start_panel_server [simp]: "pn_server (start_panel pal p) = pn_server p"
  by (simp add: start_panel_def Let_def)

lemma started_server:
  "i < length (a_panels a) \<Longrightarrow> pn_server (a_panels (started ui a) ! i) = pn_server (a_panels a ! i)"
  by (simp add: started_nth ready_nth)

lemma runs_started:
  assumes "i \<in> set (filtered_indices ui (ready ui a))" "sv_upgrade_cmd (pn_server (a_panels a ! i)) \<noteq> None"
  defines "p \<equiv> a_panels (started ui a) ! i" and "g \<equiv> pn_gen (a_panels a ! i) + 1"
  shows "pn_upgrade_state p = UStarted" "pn_upgrade_gen p = g" "pn_gen p = g" "pn_mode p = MUpgrade"
    "ring_lines (pn_last_upgrade p) = []"
    "RunUpgrade i g \<in> set (snd (start_panels (filtered_indices ui (ready ui a)) (ready ui a)))"
proof -
  have i: "i < length (a_panels a)"
    using filtered_indices_props(2) [OF assms(1)] by simp
  have "sv_upgrade_cmd (pn_server (a_panels (ready ui a) ! i)) \<noteq> None"
    using assms(2) i by (simp add: ready_nth)
  then show "pn_upgrade_state p = UStarted" "pn_upgrade_gen p = g" "pn_gen p = g" "pn_mode p = MUpgrade"
    "ring_lines (pn_last_upgrade p) = []"
    using assms(1) i
    by (simp_all add: p_def g_def started_nth start_panel_def Let_def ready_nth)
  show "RunUpgrade i g \<in> set (snd (start_panels (filtered_indices ui (ready ui a)) (ready ui a)))"
    using assms(1,2) i filtered_indices_props(2) [of _ ui "ready ui a"]
    by (subst start_panels_cmds) (auto simp: filtered_indices_distinct ready_nth g_def)
qed

section \<open>The record\<close>

definition fresh_record :: "u64 \<Rightarrow> host_update" where
  "fresh_record now = \<lparr>hu_started_at = Some now, hu_finished_at = None, hu_success = False\<rparr>"

lemma mark_started_nth:
  "mark_started now a i m k =
    (if i < length (a_panels a) \<and> sv_upgrade_cmd (pn_server (a_panels a ! i)) \<noteq> None
        \<and> account (pn_server (a_panels a ! i)) = k
     then Some (fresh_record now) else m k)"
  by (auto simp: mark_started_def nth_opt_def fresh_record_def)

lemma fold_mark_started:
  "fold (mark_started now a) is m k =
    (if \<exists>i \<in> set is. i < length (a_panels a) \<and> sv_upgrade_cmd (pn_server (a_panels a ! i)) \<noteq> None
        \<and> account (pn_server (a_panels a ! i)) = k
     then Some (fresh_record now) else m k)"
  by (induction "is" arbitrary: m) (auto simp: mark_started_nth)

lemma persist_host_updates [simp]: "a_host_updates (fst (persist_state ui a)) = a_host_updates a"
  by (simp add: persist_state_def Let_def split: option.split)

lemma persist_run_views [simp]:
  "map run_view (a_panels (fst (persist_state ui a))) = map run_view (a_panels a)"
proof -
  have "run_view (add_note t p) = run_view p" for t and p :: "'a panel"
    by (simp add: run_view_def)
  then show ?thesis
    by (simp add: persist_state_def Let_def comp_def split: option.split)
qed

lemma confirm_result:
  assumes "upgrade_runnable ui (a\<lparr>a_mode := Running\<rparr>)"
  shows "a_host_updates (fst (confirm_upgrade ui now a)) =
      fold (mark_started now (started ui a)) (filtered_indices ui (started ui a)) (a_host_updates a)"
    "fst (snd (confirm_upgrade ui now a)) =
      snd (start_panels (filtered_indices ui (ready ui a)) (ready ui a))"
    "map run_view (a_panels (fst (confirm_upgrade ui now a))) = map run_view (a_panels (started ui a))"
proof -
  have m: "mark_started now (b\<lparr>a_started_at := x\<rparr>) = mark_started now b" for b :: "('a, 'b) app" and x
    by (simp add: mark_started_def fun_eq_iff)
  have c: "confirm_upgrade ui now a =
    (let (b, effects) = mark_upgrades_started ui now (filtered_indices ui (started ui a)) (started ui a)
     in (b, snd (start_panels (filtered_indices ui (ready ui a)) (ready ui a)), effects))"
    using assms by (simp only: confirm_upgrade_def Let_def run_upgrade_split prod.case if_True)
  show "a_host_updates (fst (confirm_upgrade ui now a)) =
      fold (mark_started now (started ui a)) (filtered_indices ui (started ui a)) (a_host_updates a)"
    "fst (snd (confirm_upgrade ui now a)) =
      snd (start_panels (filtered_indices ui (ready ui a)) (ready ui a))"
    "map run_view (a_panels (fst (confirm_upgrade ui now a))) = map run_view (a_panels (started ui a))"
    by (simp_all add: c mark_upgrades_started_def case_prod_beta Let_def m)
qed

lemma runs_recorded:
  assumes "a_focused a = None" "trim (a_filter_query a) = []" "tx_lower (ui_text ui) [] = []"
    and "i < length (a_panels a)" "sv_upgrade_cmd (pn_server (a_panels a ! i)) \<noteq> None"
  shows "let (b, cmds, effects) = confirm_upgrade ui now a; p = a_panels b ! i; g = pn_gen (a_panels a ! i) + 1
    in pn_upgrade_state p = UStarted \<and> pn_upgrade_gen p = g \<and> pn_gen p = g
     \<and> ring_lines (pn_last_upgrade p) = [] \<and> RunUpgrade i g \<in> set cmds
     \<and> a_host_updates b (account (pn_server (a_panels a ! i))) =
         Some \<lparr>hu_started_at = Some now, hu_finished_at = None, hu_success = False\<rparr>"
proof -
  have all: "filtered_indices ui b = [0..<length (a_panels b)]"
    if "a_focused b = None" "a_filter_query b = a_filter_query a" for b
    using that assms(2,3)
    by (simp add: filtered_indices_def indices_where_def matches_empty lit_def)
  have f: "filtered_indices ui (ready ui a) = [0..<length (a_panels a)]"
    "filtered_indices ui (started ui a) = [0..<length (a_panels a)]"
    using all [of "ready ui a"] all [of "started ui a"] assms(1) by simp_all
  have r: "upgrade_runnable ui (a\<lparr>a_mode := Running\<rparr>)"
    using all [of "a\<lparr>a_mode := Running\<rparr>"] assms(1,4,5)
    by (auto simp: upgrade_runnable_def list_ex_iff)
  obtain b cmds effects where c: "confirm_upgrade ui now a = (b, cmds, effects)"
    by (metis prod_cases3)
  have s: "run_view (a_panels b ! i) = run_view (a_panels (started ui a) ! i)"
    using confirm_result(3) [OF r, of now] assms(4) c
    by (metis fst_conv length_map nth_map started_rest(5))
  have i: "i \<in> set (filtered_indices ui (ready ui a))"
    using assms(4) by (simp add: f)
  have "\<exists>j \<in> set [0..<length (a_panels a)]. j < length (a_panels (started ui a))
      \<and> sv_upgrade_cmd (pn_server (a_panels (started ui a) ! j)) \<noteq> None
      \<and> account (pn_server (a_panels (started ui a) ! j)) = account (pn_server (a_panels a ! i))"
    using assms(4,5) by (intro bexI [of _ i]) (simp_all add: started_server)
  then have "a_host_updates b (account (pn_server (a_panels a ! i))) = Some (fresh_record now)"
    using confirm_result(1) [OF r, of now] c by (simp add: fold_mark_started f)
  then show ?thesis
    using runs_started [OF i assms(5)] confirm_result(2) [OF r, of now] s
    by (simp add: c run_view_def fresh_record_def)
qed

text \<open>A confirmed upgrade with no filter in force starts every configured host and writes each
  one down. Every panel with an upgrade command is running under a new generation, on an empty
  log, with the command to run it handed out, and its host's record says it started now and has
  not finished, which is what an interrupted run is recognised by; a host without a command is
  not started. The lower-casing of the empty text is assumed empty.\<close>

theorem confirmed_runs_recorded:
  assumes "a_focused a = None" "trim (a_filter_query a) = []" "tx_lower (ui_text ui) [] = []"
    and "i < length (a_panels a)" "sv_upgrade_cmd (pn_server (a_panels a ! i)) \<noteq> None"
  shows "let (b, cmds, effects) = confirm_upgrade ui now a; p = a_panels b ! i; g = pn_gen (a_panels a ! i) + 1
    in pn_upgrade_state p = UStarted \<and> pn_upgrade_gen p = g \<and> pn_gen p = g
     \<and> ring_lines (pn_last_upgrade p) = [] \<and> RunUpgrade i g \<in> set cmds
     \<and> a_host_updates b (account (pn_server (a_panels a ! i))) =
         Some \<lparr>hu_started_at = Some now, hu_finished_at = None, hu_success = False\<rparr>"
  using assms by (rule runs_recorded)

theorem confirmed_runs_recorded_witness:
  "let (b, cmds, effects) = confirm_upgrade (quiet_ui :: (unit, unit) ui) 5 (sample_app [sample_panel])
   in RunUpgrade 0 1 \<in> set cmds \<and> a_host_updates b (account sample_server) = Some (fresh_record 5)"
  using confirmed_runs_recorded [of "sample_app [sample_panel] :: (unit, unit) app" quiet_ui 0 5]
  by (simp add: fresh_record_def Let_def case_prod_beta)


section \<open>The filter and the record\<close>

lemmas filter_defs = matches_filter_def text_matches_def shown_matches_def monitor_matches_def
  docker_matches_def ops_matches_def fetch_matches_def ip_hit_def image_hit_def

lemma threshold_hit_cong:
  assumes "pn_last_monitor p = pn_last_monitor p'"
  shows "threshold_hit tx q p = threshold_hit tx q p'"
  unfolding threshold_hit_def assms by (rule refl)

text \<open>What the filter reads of a panel.\<close>

definition filter_view :: "'o panel \<Rightarrow> server \<times> mode \<times> payload option \<times> payload option
    \<times> fetch_snapshot option \<times> 'o ops_state option \<times> rstring ring_lines" where
  "filter_view p = (pn_server p, pn_mode p, pn_last_monitor p, pn_last_docker p, pn_last_fetch p,
     pn_last_ops p, pn_last_upgrade p)"

lemma matches_filter_cong:
  assumes "filter_view p = filter_view p'"
  shows "matches_filter tx terms q p = matches_filter tx terms q p'"
proof -
  have f: "pn_server p = pn_server p'" "pn_mode p = pn_mode p'" "pn_last_monitor p = pn_last_monitor p'"
    "pn_last_docker p = pn_last_docker p'" "pn_last_fetch p = pn_last_fetch p'"
    "pn_last_ops p = pn_last_ops p'" "pn_last_upgrade p = pn_last_upgrade p'"
    using assms by (simp_all add: filter_view_def)
  show ?thesis
    unfolding filter_defs f threshold_hit_cong [OF f(3)] by (rule refl)
qed

lemma filter_view_load [simp]: "filter_view (try_load_vault_password ui v p) = filter_view p"
  by (auto simp: filter_view_def try_load_vault_password_def set_sudo_password_def Let_def
      split: option.split sum.split)

lemma filter_view_ready:
  assumes "i < length (a_panels a)"
  shows "filter_view (a_panels (ready ui a) ! i) = filter_view (a_panels a ! i)"
proof -
  have "filter_view (p\<lparr>pn_scroll_offset := 0, pn_upgrade_scroll_offset := 0\<rparr>) = filter_view p"
    for p :: "'a panel"
    by (simp add: filter_view_def)
  then show ?thesis
    using assms
    by (simp add: ready_def load_known_passwords_def reset_scroll_def all_panels_def Let_def
        split: vault_state.split)
qed

lemma filter_view_start:
  "filter_view p = filter_view p' \<Longrightarrow> filter_view (start_panel pal p) = filter_view (start_panel pal p')"
  by (simp add: filter_view_def start_panel_def Let_def)

text \<open>A confirmed run can start without being written down. The hosts to record are taken from
  the filter again after the run has emptied the logs, so a panel that the query found only by a
  line of its last run's log is started, its command handed out and its log cleared, but its
  host's record stays that of the run before: if the application dies now, nothing says this host
  was being upgraded.\<close>

theorem started_run_not_recorded:
  assumes "a_focused a = None" "map ascii_lower (trim (a_filter_query a)) \<noteq> lit ''unhealthy''"
    and "i < length (a_panels a)" "sv_upgrade_cmd (pn_server (a_panels a ! i)) \<noteq> None"
    and "matches_filter (ui_text ui) (ui_terms ui) (a_filter_query a) (a_panels a ! i)"
    and "\<not> matches_filter (ui_text ui) (ui_terms ui) (a_filter_query a)
           (start_panel (a_palette a) (a_panels a ! i))"
    and "\<forall>j < length (a_panels a). j \<noteq> i \<longrightarrow>
           account (pn_server (a_panels a ! j)) \<noteq> account (pn_server (a_panels a ! i))"
  shows "let (b, cmds, effects) = confirm_upgrade ui now a
    in RunUpgrade i (pn_gen (a_panels a ! i) + 1) \<in> set cmds
     \<and> pn_upgrade_state (a_panels b ! i) = UStarted
     \<and> ring_lines (pn_last_upgrade (a_panels b ! i)) = []
     \<and> a_host_updates b (account (pn_server (a_panels a ! i))) =
         a_host_updates a (account (pn_server (a_panels a ! i)))"
proof -
  let ?matches = "matches_filter (ui_text ui) (ui_terms ui) (a_filter_query a)"
  have shown: "j \<in> set (filtered_indices ui b) \<longleftrightarrow> j < length (a_panels b) \<and> ?matches (a_panels b ! j)"
    if "a_focused b = None" "a_filter_query b = a_filter_query a" for b j
    using that assms(2) by (simp add: filtered_indices_def indices_where_props)
  have i: "i \<in> set (filtered_indices ui (ready ui a))"
    using assms(1,3,5) by (simp add: shown matches_filter_cong [OF filter_view_ready])
  have r: "upgrade_runnable ui (a\<lparr>a_mode := Running\<rparr>)"
    using shown [of "a\<lparr>a_mode := Running\<rparr>"] assms(1,3-5)
    by (auto simp: upgrade_runnable_def list_ex_iff intro!: bexI [of _ i])
  have start: "?matches (start_panel (a_palette a) (a_panels (ready ui a) ! i)) =
      ?matches (start_panel (a_palette a) (a_panels a ! i))"
    by (intro matches_filter_cong filter_view_start filter_view_ready assms(3))
  have out: "i \<notin> set (filtered_indices ui (started ui a))"
    using assms(1,3,6) i by (simp add: shown started_nth start)
  obtain b cmds effects where c: "confirm_upgrade ui now a = (b, cmds, effects)"
    by (metis prod_cases3)
  have s: "run_view (a_panels b ! i) = run_view (a_panels (started ui a) ! i)"
    using confirm_result(3) [OF r, of now] assms(3) c
    by (metis fst_conv length_map nth_map started_rest(5))
  have none: "\<not> (\<exists>j \<in> set (filtered_indices ui (started ui a)). j < length (a_panels (started ui a))
      \<and> sv_upgrade_cmd (pn_server (a_panels (started ui a) ! j)) \<noteq> None
      \<and> account (pn_server (a_panels (started ui a) ! j)) = account (pn_server (a_panels a ! i)))"
    using out assms(7) by (auto simp: started_server)
  have "a_host_updates b (account (pn_server (a_panels a ! i))) =
      a_host_updates a (account (pn_server (a_panels a ! i)))"
    using confirm_result(1) [OF r, of now] c
    by (simp only: fst_conv fold_mark_started none if_False)
  then show ?thesis
    using runs_started [OF i assms(4)] confirm_result(2) [OF r, of now] s
    by (simp add: c run_view_def)
qed

definition filtered_app :: "(unit, unit) app" where
  "filtered_app = (sample_app [sample_panel\<lparr>pn_mode := MUpgrade, pn_last_upgrade := ring_from [lit ''kernel'']\<rparr>])
     \<lparr>a_filter_query := lit ''kernel''\<rparr>"

theorem started_run_not_recorded_witness:
  "let (b, cmds, effects) = confirm_upgrade quiet_ui 5 filtered_app
   in RunUpgrade 0 1 \<in> set cmds \<and> pn_upgrade_state (a_panels b ! 0) = UStarted
    \<and> a_host_updates b (account sample_server) = None"
proof -
  have m: "matches_filter (ui_text quiet_ui) (ui_terms quiet_ui) (a_filter_query filtered_app) (a_panels filtered_app ! 0)"
    by code_simp
  have n: "\<not> matches_filter (ui_text quiet_ui) (ui_terms quiet_ui) (a_filter_query filtered_app)
      (start_panel (a_palette filtered_app) (a_panels filtered_app ! 0))"
    by code_simp
  have u: "map ascii_lower (trim (a_filter_query filtered_app)) \<noteq> lit ''unhealthy''"
    by code_simp
  have f: "a_focused filtered_app = None" "length (a_panels filtered_app) = 1"
    "pn_server (a_panels filtered_app ! 0) = sample_server" "pn_gen (a_panels filtered_app ! 0) = 0"
    "a_host_updates filtered_app = Map.empty"
    by (simp_all add: filtered_app_def)
  show ?thesis
    using started_run_not_recorded [OF f(1) u _ _ m n, of 5]
    by (simp add: f Let_def case_prod_beta)
qed

end
