(* ===== verification/Exec_Pump.thy ===== *)
theory Exec_Pump
  imports Sieve Proto
begin

text \<open>
  Reading a child's two streams and reporting them as frames (crates/agent/src/exec/pump.rs, and
  \<open>send\<close>, \<open>send_out\<close> of crates/agent/src/exec/run.rs). The output is the list of frames sent;
  each is written to the client as \<open>encode_packet (Exec f)\<close>, and a client that has gone is not
  reported to, so a failed write changes nothing here. What the operating system answers
  (which descriptor is ready, what a read gave, whether the child has been reaped, whether a
  second has passed) is a list of \<open>turn\<close>s, one for each pass of the loop.
\<close>

section \<open>The request and the reader\<close>

record request =
  rq_command :: rstring
  rq_password :: "rstring option"
  rq_use_lock :: bool
  rq_cols :: u16
  rq_rows :: u16
  rq_host :: rstring

definition STARTUP_HOLD_LIMIT :: nat where "STARTUP_HOLD_LIMIT = 64 * 1024"

text \<open>The \<open>Reader\<close>, the frames sent, the sequence number, what was written to the terminal, and
  which of the child's descriptors are open.\<close>

record reader =
  rd_sieve :: sieve
  rd_err_sieve :: sieve
  rd_held :: "bytes option"
  rd_done :: bool
  rd_password_sent :: bool
  rd_sudo_rejected :: bool
  rd_out :: "exec_frame list"
  rd_seq :: u32
  rd_tty :: "bytes list"
  rd_master_open :: bool
  rd_err_open :: bool

definition reader_new :: "exec_frame list \<Rightarrow> u32 \<Rightarrow> reader" where
  "reader_new out sq =
     \<lparr>rd_sieve = sieve_new, rd_err_sieve = sieve_new, rd_held = Some [], rd_done = False,
      rd_password_sent = False, rd_sudo_rejected = False, rd_out = out, rd_seq = sq, rd_tty = [],
      rd_master_open = True, rd_err_open = True\<rparr>"

section \<open>Sending\<close>

definition send :: "exec_frame \<Rightarrow> exec_frame list \<Rightarrow> exec_frame list" where
  "send f out = out @ [f]"

definition wire :: "exec_frame list \<Rightarrow> bytes" where
  "wire out = concat (map (\<lambda>f. encode_packet (Exec f)) out)"

fun send_chunks :: "stream \<Rightarrow> bytes list \<Rightarrow> u32 \<Rightarrow> exec_frame list \<Rightarrow> u32 \<times> exec_frame list" where
  "send_chunks st [] sq out = (sq, out)"
| "send_chunks st (c # cs) sq out = send_chunks st cs (sq + 1) (send (Out st sq c) out)"

definition send_out :: "stream \<Rightarrow> bytes \<Rightarrow> u32 \<Rightarrow> exec_frame list \<Rightarrow> u32 \<times> exec_frame list" where
  "send_out st bs sq out = send_chunks st (exec_chunks bs) sq out"

definition emit :: "exec_frame \<Rightarrow> reader \<Rightarrow> reader" where
  "emit f r = r\<lparr>rd_out := send f (rd_out r)\<rparr>"

definition emit_out :: "stream \<Rightarrow> bytes \<Rightarrow> reader \<Rightarrow> reader" where
  "emit_out st bs r =
     (let (sq, out) = send_out st bs (rd_seq r) (rd_out r) in r\<lparr>rd_seq := sq, rd_out := out\<rparr>)"

section \<open>The steps\<close>

definition release :: "reader \<Rightarrow> reader" where
  "release r =
     (case rd_held r of
        None \<Rightarrow> r
      | Some buf \<Rightarrow>
          let r = r\<lparr>rd_held := None\<rparr> in if buf \<noteq> [] then emit_out Stdout buf r else r)"

definition stash :: "bytes \<Rightarrow> reader \<Rightarrow> reader" where
  "stash bs r =
     (case rd_held r of
        None \<Rightarrow> emit_out Stdout bs r
      | Some buf \<Rightarrow>
          let buf = buf @ bs; r = r\<lparr>rd_held := Some buf\<rparr>
          in if length buf \<ge> STARTUP_HOLD_LIMIT then release r else r)"

definition consume_piece :: "request \<Rightarrow> piece \<Rightarrow> reader \<Rightarrow> reader" where
  "consume_piece req p r =
     (case p of
        POut bs \<Rightarrow> if \<not> rd_done r then stash bs r else r
      | PMark Started \<Rightarrow> r\<lparr>rd_held := None\<rparr>
      | PMark Done \<Rightarrow> r\<lparr>rd_done := True\<rparr>
      | PMark k \<Rightarrow>
          let r = emit (Marker k) r
          in if k = PwReady \<and> \<not> rd_password_sent r then
               (case rq_password req of
                  Some pw \<Rightarrow> r\<lparr>rd_tty := rd_tty r @ [pw @ [0x0A]], rd_password_sent := True\<rparr>
                | None \<Rightarrow> r)
             else if k = SudoFailed then r\<lparr>rd_sudo_rejected := True\<rparr>
             else r)"

definition consume :: "request \<Rightarrow> piece list \<Rightarrow> reader \<Rightarrow> reader" where
  "consume req pieces r = fold (consume_piece req) pieces r"

definition emit_stderr_piece :: "piece \<Rightarrow> reader \<Rightarrow> reader" where
  "emit_stderr_piece p r =
     (case p of
        POut bs \<Rightarrow> emit_out Stderr bs r
      | PMark Started \<Rightarrow> r
      | PMark Done \<Rightarrow> r
      | PMark k \<Rightarrow>
          let r = (if k = SudoFailed then r\<lparr>rd_sudo_rejected := True\<rparr> else r)
          in emit (Marker k) r)"

definition emit_stderr :: "piece list \<Rightarrow> reader \<Rightarrow> reader" where
  "emit_stderr pieces r = fold emit_stderr_piece pieces r"

definition close_master :: "request \<Rightarrow> reader \<Rightarrow> reader" where
  "close_master req r =
     (let (tail, sv) = sieve_finish (rd_sieve r);
          r = consume req tail (r\<lparr>rd_sieve := sv\<rparr>);
          r = release r
      in r\<lparr>rd_master_open := False\<rparr>)"

definition close_errpipe :: "reader \<Rightarrow> reader" where
  "close_errpipe r =
     (let (tail, sv) = sieve_finish (rd_err_sieve r);
          r = emit_stderr tail (r\<lparr>rd_err_sieve := sv\<rparr>)
      in r\<lparr>rd_err_open := False\<rparr>)"

text \<open>What a read gave: an error, or bytes, where no bytes are the end of the stream.\<close>

type_synonym read_answer = "bytes option"

definition read_master_chunk :: "request \<Rightarrow> read_answer \<Rightarrow> reader \<Rightarrow> reader" where
  "read_master_chunk req ans r =
     (case ans of
        None \<Rightarrow> close_master req r
      | Some data \<Rightarrow>
          if data = [] then close_master req r
          else let (sifted, sv) = feed (rd_sieve r) data
               in consume req sifted (r\<lparr>rd_sieve := sv\<rparr>))"

definition read_errpipe_chunk :: "read_answer \<Rightarrow> reader \<Rightarrow> reader" where
  "read_errpipe_chunk ans r =
     (case ans of
        None \<Rightarrow> close_errpipe r
      | Some data \<Rightarrow>
          if data = [] then close_errpipe r
          else let (sifted, sv) = feed (rd_err_sieve r) data
               in emit_stderr sifted (r\<lparr>rd_err_sieve := sv\<rparr>))"

section \<open>The loop\<close>

record outcome =
  oc_code :: i32
  oc_signalled :: bool

text \<open>One pass: what each descriptor had to read, if it was ready; whether the child was reaped;
  the milliseconds since the start, if a heartbeat was due.\<close>

record turn =
  tn_master :: "read_answer option"
  tn_err :: "read_answer option"
  tn_reaped :: "outcome option"
  tn_alive :: "u32 option"

definition read_ready :: "request \<Rightarrow> read_answer option \<Rightarrow> read_answer option \<Rightarrow> reader \<Rightarrow> reader" where
  "read_ready req mr er r =
     (let m_ready = (if rd_master_open r then mr else None);
          e_ready = (if rd_err_open r then er else None);
          r = (case m_ready of Some ans \<Rightarrow> read_master_chunk req ans r | None \<Rightarrow> r)
      in case e_ready of Some ans \<Rightarrow> read_errpipe_chunk ans r | None \<Rightarrow> r)"

text \<open>What is still queued when the child has gone: passes of a poll that does not wait.\<close>

fun drain_loop :: "request \<Rightarrow> (read_answer option \<times> read_answer option) list \<Rightarrow> reader \<Rightarrow> reader" where
  "drain_loop req [] r = r"
| "drain_loop req ((mr, er) # ts) r =
     (if \<not> rd_master_open r \<and> \<not> rd_err_open r then r
      else if (\<not> rd_master_open r \<or> mr = None) \<and> (\<not> rd_err_open r \<or> er = None) then r
      else drain_loop req ts (read_ready req mr er r))"

definition drain_post_exit ::
  "request \<Rightarrow> (read_answer option \<times> read_answer option) list \<Rightarrow> reader \<Rightarrow> reader" where
  "drain_post_exit req ts r =
     (let r = drain_loop req ts r;
          r = (if rd_master_open r then close_master req r else r)
      in if rd_err_open r then close_errpipe r else r)"

text \<open>\<open>None\<close> while the loop is still running when the answers given to it run out.\<close>

fun pump ::
  "request \<Rightarrow> turn list \<Rightarrow> (read_answer option \<times> read_answer option) list \<Rightarrow> reader
   \<Rightarrow> (outcome option \<times> reader) option" where
  "pump req ts ds r =
     (if \<not> rd_master_open r \<and> \<not> rd_err_open r then Some (None, r)
      else case ts of
             [] \<Rightarrow> None
           | t # ts \<Rightarrow>
               let r = read_ready req (tn_master t) (tn_err t) r
               in case tn_reaped t of
                    Some oc \<Rightarrow> Some (Some oc, drain_post_exit req ds r)
                  | None \<Rightarrow>
                      pump req ts ds (case tn_alive t of Some ms \<Rightarrow> emit (Alive ms) r | None \<Rightarrow> r))"

declare pump.simps [simp del]

section \<open>What the loop keeps\<close>

text \<open>The output the operator sees on one stream.\<close>

definition stream_bytes :: "stream \<Rightarrow> exec_frame list \<Rightarrow> bytes" where
  "stream_bytes st fs = concat (map (\<lambda>f. case f of Out s _ b \<Rightarrow> if s = st then b else [] | _ \<Rightarrow> []) fs)"

definition out_seqs :: "exec_frame list \<Rightarrow> u32 list" where
  "out_seqs fs = concat (map (\<lambda>f. case f of Out _ q _ \<Rightarrow> [q] | _ \<Rightarrow> []) fs)"

text \<open>The output frames are numbered in order from zero, each within the chunk ceiling, and nothing
  has ended the run.\<close>

definition well_sent :: "u32 \<Rightarrow> exec_frame list \<Rightarrow> bool" where
  "well_sent sq fs \<longleftrightarrow>
     out_seqs fs = map of_nat [0..<length (out_seqs fs)] \<and> sq = of_nat (length (out_seqs fs))
     \<and> list_all (\<lambda>f. \<not> is_terminal f \<and> (\<forall>st q b. f = Out st q b \<longrightarrow> b \<noteq> [] \<and> length b \<le> MAX_EXEC_CHUNK)) fs"

lemma stream_bytes_simps [simp]:
  "stream_bytes st [] = []"
  "stream_bytes st (fs @ gs) = stream_bytes st fs @ stream_bytes st gs"
  "stream_bytes st (f # fs) = (case f of Out s _ b \<Rightarrow> if s = st then b else [] | _ \<Rightarrow> []) @ stream_bytes st fs"
  by (simp_all add: stream_bytes_def)

lemma out_seqs_simps [simp]:
  "out_seqs [] = []"
  "out_seqs (fs @ gs) = out_seqs fs @ out_seqs gs"
  "out_seqs (f # fs) = (case f of Out _ q _ \<Rightarrow> [q] | _ \<Rightarrow> []) @ out_seqs fs"
  by (simp_all add: out_seqs_def)

lemma send_chunks_bytes:
  "send_chunks st cs sq out = (sq', out') \<Longrightarrow>
   stream_bytes st out' = stream_bytes st out @ concat cs \<and>
   (s \<noteq> st \<longrightarrow> stream_bytes s out' = stream_bytes s out)"
  by (induction st cs sq out rule: send_chunks.induct) (auto simp: send_def)

lemma send_chunks_well_sent:
  "send_chunks st cs sq out = (sq', out') \<Longrightarrow> well_sent sq out \<Longrightarrow>
   \<forall>c \<in> set cs. c \<noteq> [] \<and> length c \<le> MAX_EXEC_CHUNK \<Longrightarrow> well_sent sq' out'"
proof (induction st cs sq out rule: send_chunks.induct)
  case (1 st sq out)
  then show ?case by simp
next
  case (2 st c cs sq out)
  have "well_sent (sq + 1) (send (Out st sq c) out)"
    using "2.prems" by (auto simp: well_sent_def send_def)
  with 2 show ?case by simp
qed

lemma send_out_facts:
  assumes "send_out st bs sq out = (sq', out')"
  shows "stream_bytes st out' = stream_bytes st out @ bs"
    and "s \<noteq> st \<Longrightarrow> stream_bytes s out' = stream_bytes s out"
    and "well_sent sq out \<Longrightarrow> well_sent sq' out'"
  using send_chunks_bytes [OF assms [unfolded send_out_def]]
    send_chunks_well_sent [OF assms [unfolded send_out_def]] exec_chunks_bound
  by (auto simp: exec_chunks_concat)

section \<open>Invariants of the loop\<close>

text \<open>
  A predicate on the reader that every primitive step of the module keeps is kept by the whole
  loop, whatever the operating system answers. The steps that change two things at once (the
  password, the rejection) are one step of the interface.
\<close>

locale pump_invariant =
  fixes req :: request and P :: "reader \<Rightarrow> bool"
  assumes emit_marker: "P r \<Longrightarrow> k = PwReady \<or> k = LockHeld \<Longrightarrow> P (emit (Marker k) r)"
    and emit_alive: "P r \<Longrightarrow> P (emit (Alive ms) r)"
    and emit_out: "P r \<Longrightarrow> P (emit_out st bs r)"
    and reject: "P r \<Longrightarrow> P ((emit (Marker SudoFailed) r)\<lparr>rd_sudo_rejected := True\<rparr>)"
    and password: "P r \<Longrightarrow> rq_password req = Some pw \<Longrightarrow> \<not> rd_password_sent r \<Longrightarrow>
      P ((emit (Marker PwReady) r)\<lparr>rd_tty := rd_tty r @ [pw @ [0x0A]], rd_password_sent := True\<rparr>)"
    and held: "P r \<Longrightarrow> P (r\<lparr>rd_held := h\<rparr>)"
    and finished: "P r \<Longrightarrow> P (r\<lparr>rd_done := True\<rparr>)"
    and sieves: "P r \<Longrightarrow> P (r\<lparr>rd_sieve := sv\<rparr>)" "P r \<Longrightarrow> P (r\<lparr>rd_err_sieve := sv\<rparr>)"
    and closing: "P r \<Longrightarrow> P (r\<lparr>rd_master_open := False\<rparr>)" "P r \<Longrightarrow> P (r\<lparr>rd_err_open := False\<rparr>)"
begin

lemma release: "P r \<Longrightarrow> P (release r)"
  by (auto simp: release_def Let_def split: option.split intro: held emit_out)

lemma stash: "P r \<Longrightarrow> P (stash bs r)"
  by (auto simp: stash_def Let_def split: option.split intro: held emit_out release)

lemma consume_piece: "P r \<Longrightarrow> P (consume_piece req p r)"
  using emit_marker [of r] reject [of r] password [of r]
  by (auto simp: consume_piece_def Let_def emit_def held finished stash
      split: piece.split marker_kind.split option.split)

lemma consume: "P r \<Longrightarrow> P (consume req ps r)"
  unfolding consume_def by (induction ps arbitrary: r) (simp_all add: consume_piece)

lemma emit_stderr: "P r \<Longrightarrow> P (emit_stderr ps r)"
  unfolding emit_stderr_def
proof (induction ps arbitrary: r)
  case Nil
  then show ?case by simp
next
  case (Cons p ps)
  have "P (emit (Marker SudoFailed) (r\<lparr>rd_sudo_rejected := True\<rparr>))"
    using reject [OF Cons.prems] by (cases r) (simp add: emit_def)
  then have "P (emit_stderr_piece p r)"
    using Cons.prems emit_marker [of r] emit_out [of r]
    by (auto simp: emit_stderr_piece_def Let_def emit_def split: piece.split marker_kind.split)
  with Cons.IH show ?case by simp
qed

lemma close_master: "P r \<Longrightarrow> P (close_master req r)"
  by (auto simp: close_master_def Let_def sieves closing consume release split: prod.split)

lemma close_errpipe: "P r \<Longrightarrow> P (close_errpipe r)"
  by (auto simp: close_errpipe_def Let_def sieves closing emit_stderr split: prod.split)

lemma read_ready: "P r \<Longrightarrow> P (read_ready req mr er r)"
proof -
  have m: "P r \<Longrightarrow> P (read_master_chunk req a r)" for a r
    by (auto simp: read_master_chunk_def close_master sieves consume split: option.split prod.split)
  have e: "P r \<Longrightarrow> P (read_errpipe_chunk a r)" for a r
    by (auto simp: read_errpipe_chunk_def close_errpipe sieves emit_stderr split: option.split prod.split)
  show "P r \<Longrightarrow> P (read_ready req mr er r)"
    by (auto simp: read_ready_def Let_def m e split: option.split)
qed

lemma drain_loop: "P r \<Longrightarrow> P (drain_loop req ds r)"
proof (induction ds arbitrary: r)
  case Nil
  then show ?case by simp
next
  case (Cons d ds)
  then show ?case by (cases d) (simp add: read_ready)
qed

lemma drain_post_exit: "P r \<Longrightarrow> P (drain_post_exit req ds r)"
  by (simp add: drain_post_exit_def Let_def close_master close_errpipe drain_loop)

lemma pump: "pump req ts ds r = Some (oc, r') \<Longrightarrow> P r \<Longrightarrow> P r'"
proof (induction ts arbitrary: r)
  case Nil
  then show ?case by (simp add: pump.simps split: if_splits)
next
  case (Cons t ts)
  show ?case
    using Cons.prems Cons.IH [of "case tn_alive t of Some ms \<Rightarrow> emit (Alive ms) (read_ready req (tn_master t) (tn_err t) r)
        | None \<Rightarrow> read_ready req (tn_master t) (tn_err t) r"]
    by (auto simp: pump.simps [of req "t # ts"] Let_def read_ready drain_post_exit emit_alive
        split: if_splits option.splits)
qed

end

text \<open>Frames are well sent throughout.\<close>

lemma well_sent_send:
  "well_sent sq fs \<Longrightarrow> \<not> is_terminal f \<Longrightarrow> \<forall>st q b. f \<noteq> Out st q b \<Longrightarrow> well_sent sq (send f fs)"
  by (cases f) (auto simp: well_sent_def send_def)

interpretation sent: pump_invariant req "\<lambda>r. well_sent (rd_seq r) (rd_out r)" for req
  by unfold_locales
     (auto simp: emit_def emit_out_def split: prod.split intro: well_sent_send send_out_facts(3))

text \<open>The password goes to the terminal at most once, and only after the far side said that echo
  is off.\<close>

definition password_kept :: "request \<Rightarrow> reader \<Rightarrow> bool" where
  "password_kept req r \<longleftrightarrow>
     (if rd_password_sent r
      then Marker PwReady \<in> set (rd_out r) \<and> (\<exists>pw. rq_password req = Some pw \<and> rd_tty r = [pw @ [0x0A]])
      else rd_tty r = [])"

lemma send_out_keeps: "send_out st bs sq out = (sq', out') \<Longrightarrow> set out \<subseteq> set out'"
proof -
  have "send_chunks st cs sq out = (sq', out') \<Longrightarrow> set out \<subseteq> set out'" for cs
    by (induction st cs sq out rule: send_chunks.induct) (auto simp: send_def)
  then show "send_out st bs sq out = (sq', out') \<Longrightarrow> set out \<subseteq> set out'"
    by (simp add: send_out_def)
qed

lemma send_out_markers: "send_out st bs sq out = (sq', out') \<Longrightarrow> Marker k \<in> set out' \<longleftrightarrow> Marker k \<in> set out"
proof -
  have "send_chunks st cs sq out = (sq', out') \<Longrightarrow> Marker k \<in> set out' \<longleftrightarrow> Marker k \<in> set out" for cs
    by (induction st cs sq out rule: send_chunks.induct) (auto simp: send_def)
  then show "send_out st bs sq out = (sq', out') \<Longrightarrow> Marker k \<in> set out' \<longleftrightarrow> Marker k \<in> set out"
    by (simp add: send_out_def)
qed

interpretation secret: pump_invariant req "password_kept req" for req
  by unfold_locales
     (auto simp: password_kept_def emit_def emit_out_def send_def send_out_markers split: prod.split if_splits)

text \<open>A rejection is remembered exactly when the client was told of it.\<close>

definition rejection_told :: "reader \<Rightarrow> bool" where
  "rejection_told r \<longleftrightarrow> rd_sudo_rejected r = (Marker SudoFailed \<in> set (rd_out r))"

interpretation told: pump_invariant req rejection_told for req
  by unfold_locales
     (auto simp: rejection_told_def emit_def emit_out_def send_def send_out_markers split: prod.split)

section \<open>What the operator sees of the standard output\<close>

definition outs :: "piece list \<Rightarrow> bytes" where
  "outs ps = concat (map (\<lambda>p. case p of POut b \<Rightarrow> b | PMark _ \<Rightarrow> []) ps)"

lemma outs_simps [simp]:
  "outs [] = []" "outs (POut b # ps) = b @ outs ps" "outs (PMark k # ps) = outs ps"
  "outs (ps @ qs) = outs ps @ outs qs"
  by (simp_all add: outs_def)

abbreviation stdout :: "reader \<Rightarrow> bytes" where
  "stdout r \<equiv> stream_bytes Stdout (rd_out r)"

lemma stdout_emit_out: "stdout (emit_out Stdout bs r) = stdout r @ bs"
  "rd_held (emit_out st bs r) = rd_held r" "rd_done (emit_out st bs r) = rd_done r"
  by (auto simp: emit_out_def split: prod.split dest: send_out_facts(1))

text \<open>Held output, before the shell has started: kept back up to the limit.\<close>

lemma consume_held:
  assumes "rd_held r = Some buf" and "\<not> rd_done r"
    and "PMark Started \<notin> set ps" and "PMark Done \<notin> set ps"
    and "length buf + length (outs ps) < STARTUP_HOLD_LIMIT"
  shows "rd_held (consume req ps r) = Some (buf @ outs ps) \<and> \<not> rd_done (consume req ps r)
         \<and> stdout (consume req ps r) = stdout r"
  using assms
proof (induction ps arbitrary: r buf)
  case Nil
  then show ?case by (simp add: consume_def)
next
  case (Cons p ps)
  let ?r = "consume_piece req p r"
  have step: "rd_held ?r = Some (buf @ outs [p])" "\<not> rd_done ?r" "stdout ?r = stdout r"
    using Cons.prems
    by (auto simp: consume_piece_def stash_def Let_def emit_def send_def
        split: piece.split marker_kind.split option.split)
  have "length (buf @ outs [p]) + length (outs ps) < STARTUP_HOLD_LIMIT"
    using Cons.prems(5) by (cases p) simp_all
  with step Cons.prems Cons.IH [of ?r "buf @ outs [p]"] show ?case
    by (cases p) (simp_all add: consume_def)
qed

text \<open>Forwarded output, once it has.\<close>

lemma consume_forwards:
  assumes "rd_held r = None" and "\<not> rd_done r" and "PMark Done \<notin> set ps"
  shows "rd_held (consume req ps r) = None \<and> \<not> rd_done (consume req ps r)
         \<and> stdout (consume req ps r) = stdout r @ outs ps"
  using assms
proof (induction ps arbitrary: r)
  case Nil
  then show ?case by (simp add: consume_def)
next
  case (Cons p ps)
  let ?r = "consume_piece req p r"
  have "rd_held ?r = None" "\<not> rd_done ?r" "stdout ?r = stdout r @ outs [p]"
    using Cons.prems
    by (auto simp: consume_piece_def stash_def Let_def emit_def send_def stdout_emit_out
        split: piece.split marker_kind.split option.split)
  with Cons.prems Cons.IH [of ?r] show ?case
    by (cases p) (simp_all add: consume_def)
qed

lemma consume_done:
  assumes "rd_done r"
  shows "rd_done (consume req ps r) \<and> stdout (consume req ps r) = stdout r
         \<and> (rd_held r = None \<longrightarrow> rd_held (consume req ps r) = None)"
  using assms
proof (induction ps arbitrary: r)
  case Nil
  then show ?case by (simp add: consume_def)
next
  case (Cons p ps)
  let ?r = "consume_piece req p r"
  have "rd_done ?r" "stdout ?r = stdout r" "rd_held r = None \<longrightarrow> rd_held ?r = None"
    using Cons.prems
    by (auto simp: consume_piece_def Let_def emit_def send_def
        split: piece.split marker_kind.split option.split)
  with Cons.IH [of ?r] show ?case by (simp add: consume_def)
qed

text \<open>Without the marker nothing is dropped: what is not yet forwarded is still held.\<close>

lemma stash_total:
  "stdout (stash bs r) @ (case rd_held (stash bs r) of Some b \<Rightarrow> b | None \<Rightarrow> [])
     = stdout r @ (case rd_held r of Some b \<Rightarrow> b | None \<Rightarrow> []) @ bs"
  "rd_done (stash bs r) = rd_done r"
  by (auto simp: stash_def release_def Let_def stdout_emit_out split: option.split)

lemma consume_total:
  assumes "\<not> rd_done r" and "PMark Started \<notin> set ps" and "PMark Done \<notin> set ps"
  shows "stdout (consume req ps r) @ (case rd_held (consume req ps r) of Some b \<Rightarrow> b | None \<Rightarrow> [])
         = stdout r @ (case rd_held r of Some b \<Rightarrow> b | None \<Rightarrow> []) @ outs ps"
  using assms
proof (induction ps arbitrary: r)
  case Nil
  then show ?case by (simp add: consume_def)
next
  case (Cons p ps)
  let ?r = "consume_piece req p r"
  have "\<not> rd_done ?r" "stdout ?r @ (case rd_held ?r of Some b \<Rightarrow> b | None \<Rightarrow> [])
      = stdout r @ (case rd_held r of Some b \<Rightarrow> b | None \<Rightarrow> []) @ outs [p]"
    using Cons.prems stash_total
    by (auto simp: consume_piece_def Let_def emit_def send_def
        split: piece.split marker_kind.split option.split)
  with Cons.prems Cons.IH [of ?r] show ?case
    by (cases p) (simp_all add: consume_def)
qed

lemma release_total:
  "stdout (release r) = stdout r @ (case rd_held r of Some b \<Rightarrow> b | None \<Rightarrow> [])"
  by (auto simp: release_def Let_def stdout_emit_out split: option.split)

text \<open>The terminal's side of a run: its reads, then its end.\<close>

definition master_run :: "request \<Rightarrow> bytes list \<Rightarrow> reader \<Rightarrow> reader" where
  "master_run req chunks r =
     close_master req (fold (\<lambda>c. read_master_chunk req (Some c)) chunks r)"

lemma consume_sieve: "consume req ps (r\<lparr>rd_sieve := sv\<rparr>) = (consume req ps r)\<lparr>rd_sieve := sv\<rparr>"
proof -
  have e: "emit_out st bs (r\<lparr>rd_sieve := sv\<rparr>) = (emit_out st bs r)\<lparr>rd_sieve := sv\<rparr>" for st bs and r :: reader
    by (simp add: emit_out_def split: prod.split)
  have rl: "release (r\<lparr>rd_sieve := sv\<rparr>) = (release r)\<lparr>rd_sieve := sv\<rparr>" for r :: reader
    using e [of _ _ "r\<lparr>rd_held := None\<rparr>"]
    by (cases r) (simp add: release_def Let_def split: option.split)
  have st: "stash bs (r\<lparr>rd_sieve := sv\<rparr>) = (stash bs r)\<lparr>rd_sieve := sv\<rparr>" for bs and r :: reader
    using rl [of "r\<lparr>rd_held := Some (the (rd_held r) @ bs)\<rparr>"] e [of Stdout bs r]
    by (cases r) (auto simp: stash_def Let_def e split: option.split)
  have "consume_piece req p (r\<lparr>rd_sieve := sv\<rparr>) = (consume_piece req p r)\<lparr>rd_sieve := sv\<rparr>" for p and r :: reader
    using st [of _ r]
    by (cases r) (auto simp: consume_piece_def emit_def Let_def
        split: piece.split marker_kind.split option.split)
  then show ?thesis
    unfolding consume_def by (induction ps arbitrary: r) simp_all
qed

lemma consume_append: "consume req (ps @ qs) r = consume req qs (consume req ps r)"
  by (simp add: consume_def)

lemma read_chunks:
  assumes "[] \<notin> set chunks" and "feed_all (rd_sieve r) chunks = (ps, sv)"
  shows "fold (\<lambda>c. read_master_chunk req (Some c)) chunks r = (consume req ps r)\<lparr>rd_sieve := sv\<rparr>"
  using assms
proof (induction chunks arbitrary: r ps)
  case Nil
  then show ?case by (simp add: consume_def)
next
  case (Cons c cs)
  obtain p1 sv1 where f: "feed (rd_sieve r) c = (p1, sv1)" by fastforce
  obtain p2 where g: "feed_all sv1 cs = (p2, sv)" and ps: "ps = p1 @ p2"
    using Cons.prems f by (auto split: prod.splits)
  have "read_master_chunk req (Some c) r = (consume req p1 r)\<lparr>rd_sieve := sv1\<rparr>"
    using Cons.prems(1) f by (auto simp: read_master_chunk_def consume_sieve)
  with Cons.IH [of "(consume req p1 r)\<lparr>rd_sieve := sv1\<rparr>" p2] Cons.prems(1) g show ?case
    by (simp add: ps consume_append consume_sieve)
qed

lemma master_run_stdout:
  assumes "[] \<notin> set chunks" and "rd_sieve r = sieve_new"
  shows "stdout (master_run req chunks r) = stdout (release (consume req (sift_stream chunks) r))"
proof -
  obtain ps sv where f: "feed_all sieve_new chunks = (ps, sv)" by fastforce
  obtain qs sv' where g: "sieve_finish sv = (qs, sv')" by fastforce
  have "fold (\<lambda>c. read_master_chunk req (Some c)) chunks r = (consume req ps r)\<lparr>rd_sieve := sv\<rparr>"
    using read_chunks [OF assms(1)] f assms(2) by simp
  then show ?thesis
    using f g
    by (simp add: master_run_def close_master_def sift_stream_def consume_sieve consume_append release_total)
qed

text \<open>The operator is shown exactly what the terminal said between the command's two markers: the
  shell's startup noise is dropped while it is within the limit, and so is everything the shell
  says after the command is done, however the reads split the stream.\<close>

theorem shown_between_markers:
  assumes "[] \<notin> set chunks"
    and "sift_stream chunks = pre @ [PMark Started] @ mid @ [PMark Done] @ post"
    and "PMark Started \<notin> set pre" and "PMark Done \<notin> set pre" and "PMark Done \<notin> set mid"
    and "length (outs pre) < STARTUP_HOLD_LIMIT"
  shows "stdout (master_run req chunks (reader_new out sq)) = stream_bytes Stdout out @ outs mid"
proof -
  let ?r0 = "reader_new out sq"
  let ?r1 = "consume req pre ?r0"
  let ?r2 = "consume req [PMark Started] ?r1"
  let ?r3 = "consume req mid ?r2"
  let ?r4 = "consume req [PMark Done] ?r3"
  let ?r5 = "consume req post ?r4"
  have r1: "\<not> rd_done ?r1" "stdout ?r1 = stream_bytes Stdout out"
    using consume_held [of ?r0 "[]" pre req] assms(3,4,6) by (simp_all add: reader_new_def)
  then have r2: "\<not> rd_done ?r2" "rd_held ?r2 = None" "stdout ?r2 = stream_bytes Stdout out"
    by (simp_all add: consume_def consume_piece_def)
  with consume_forwards [of ?r2 mid req] assms(5)
  have r3: "rd_held ?r3 = None" "stdout ?r3 = stream_bytes Stdout out @ outs mid" by simp_all
  then have r4: "rd_done ?r4" "rd_held ?r4 = None" "stdout ?r4 = stream_bytes Stdout out @ outs mid"
    by (simp_all add: consume_def consume_piece_def)
  with consume_done [of ?r4 req post]
  have "rd_held ?r5 = None" "stdout ?r5 = stream_bytes Stdout out @ outs mid" by simp_all
  moreover have "consume req (sift_stream chunks) ?r0 = ?r5"
    by (simp add: assms(2) consume_def)
  moreover have "rd_sieve ?r0 = sieve_new" by (simp add: reader_new_def)
  ultimately show ?thesis
    using master_run_stdout [OF assms(1), of ?r0 req] by (simp add: release_total)
qed

definition sample_request :: request where
  "sample_request =
     \<lparr>rq_command = lit ''ud'', rq_password = None, rq_use_lock = False, rq_cols = 80, rq_rows = 24,
      rq_host = lit ''h''\<rparr>"

lemma sift_line:
  assumes "(s, k) \<in> set MARKERS"
  shows "feed \<lparr>sv_partial = []\<rparr> (s @ [0x0A]) = ([PMark k], \<lparr>sv_partial = []\<rparr>)"
  using feed_whole [OF assms, of "[0x0A]" "[]" "s @ [0x0A]"] by simp

lemma shown_between_markers_witness:
  "stdout (master_run sample_request [STARTED_SENTINEL @ [0x0A], [0x61, 0x62], DONE_SENTINEL @ [0x0A]]
     (reader_new [] 0)) = [0x61, 0x62]"
proof -
  have ab: "feed \<lparr>sv_partial = []\<rparr> [0x61, 0x62] = ([POut [0x61, 0x62]], \<lparr>sv_partial = []\<rparr>)"
  proof -
    have "utf8_lossy [0x61, 0x62] = [0x61, 0x62]" by (rule lossy_ascii) simp
    then show ?thesis
      using take_lines_none [of "[0x61, 0x62]" "[]"] longest_marker
      by (simp add: feed_def could_become_marker_def trim_start.simps ws_prefix_def ws_chars_def
          starts_with_def push_out_def MARKERS_def PW_READY_SENTINEL_def SUDO_FAILED_SENTINEL_def
          LOCK_HELD_SENTINEL_def STARTED_SENTINEL_def DONE_SENTINEL_def lit_def)
  qed
  have m: "(STARTED_SENTINEL, Started) \<in> set MARKERS" "(DONE_SENTINEL, Done) \<in> set MARKERS"
    by (simp_all add: MARKERS_def)
  have "sift_stream [STARTED_SENTINEL @ [0x0A], [0x61, 0x62], DONE_SENTINEL @ [0x0A]]
      = [] @ [PMark Started] @ [POut [0x61, 0x62]] @ [PMark Done] @ []"
    using sift_line [OF m(1)] sift_line [OF m(2)] ab
    by (simp add: sift_stream_def sieve_new_def sieve_finish_def)
  from shown_between_markers [OF _ this, of sample_request "[]" 0] show ?thesis
    by (simp add: STARTUP_HOLD_LIMIT_def)
qed

lemma sifts_outs: "sifts bs ps \<Longrightarrow> \<forall>k. PMark k \<notin> set ps \<Longrightarrow> outs ps = bs"
  by (induction rule: sifts.induct) auto

text \<open>When the shell never says that it has started, nothing it printed is lost: every byte of
  the terminal is forwarded by the end of the run, in order. The shell that died in its own
  start files is shown to the operator.\<close>

theorem nothing_lost_without_start:
  assumes "[] \<notin> set chunks" and "\<forall>k. PMark k \<notin> set (sift_stream chunks)"
  shows "stdout (master_run req chunks (reader_new out sq)) = stream_bytes Stdout out @ concat chunks"
proof -
  let ?r = "reader_new out sq"
  have "stdout (release (consume req (sift_stream chunks) ?r)) = stream_bytes Stdout out @ outs (sift_stream chunks)"
    using consume_total [of ?r "sift_stream chunks" req] assms(2) by (simp add: release_total reader_new_def)
  then show ?thesis
    using master_run_stdout [OF assms(1), of ?r req] sifts_outs [OF sieve_bytes assms(2)]
    by (simp add: reader_new_def)
qed

lemma nothing_lost_without_start_witness:
  "stdout (master_run sample_request [[0x0A], [0x0A]] (reader_new [] 0)) = [0x0A, 0x0A]"
proof -
  have "marker_of [0x0A] = None"
    using marker_of_newline .
  then have "feed \<lparr>sv_partial = []\<rparr> [0x0A] = ([POut [0x0A]], \<lparr>sv_partial = []\<rparr>)"
    using take_lines_line [of "[]" "[]"] by (simp add: feed_def push_out_def)
  then have "sift_stream [[0x0A], [0x0A]] = [POut [0x0A], POut [0x0A]]"
    by (simp add: sift_stream_def sieve_new_def sieve_finish_def)
  with nothing_lost_without_start [of "[[0x0A], [0x0A]]" sample_request "[]" 0] show ?thesis by simp
qed

end
