(* ===== verification/Exec_Lock.thy ===== *)
theory Exec_Lock
  imports Text
begin

text \<open>
  The upgrade lock (crates/agent/src/exec/lock.rs): a directory whose creation is the
  acquisition, with the owner's process id in a file inside it. A lock is broken when its owner
  is demonstrably gone, or, when it names no owner, when it is more than six hours old.

  The file system is the entry at the lock's path together with what the operating system
  answers: whether each best-effort call works, whether a signal would reach a process, the
  clock, and what a rival puts at the path between the removal of a broken lock and the
  creation of the new one. Times are nanoseconds.
\<close>

section \<open>The world the lock lives in\<close>

datatype kill_answer = Delivered | NotPermitted | NoSuchProcess

datatype entry =
    NoEntry
  | FileEntry "nat option"
  | DirEntry "bytes option" "nat option"

record lock_world =
  lk_entry :: entry
  lk_now :: nat
  lk_kill :: "int \<Rightarrow> kill_answer"
  lk_parent_error :: "rstring option"
  lk_create_error :: "rstring option"
  lk_remove_file_ok :: bool
  lk_remove_dir_ok :: bool
  lk_write_ok :: bool
  lk_rival :: "entry option"

datatype denied = Held | Failed rstring

datatype create_error = AlreadyExists | OtherError rstring

definition STALE_AFTER :: nat where "STALE_AFTER = 6 * 3600 * 1000000000"

section \<open>The operations\<close>

definition create_dir :: "lock_world \<Rightarrow> (unit, create_error) result \<times> lock_world" where
  "create_dir w =
     (case lk_entry w of
        NoEntry \<Rightarrow>
          (case lk_create_error w of
             None \<Rightarrow> (Ok (), w\<lparr>lk_entry := DirEntry None (Some (lk_now w))\<rparr>)
           | Some e \<Rightarrow> (Err (OtherError e), w))
      | _ \<Rightarrow> (Err AlreadyExists, w))"

text \<open>\<open>remove_dir_all\<close> does nothing to a plain file; a rival may act before the next call.\<close>

definition remove_dir_all :: "lock_world \<Rightarrow> lock_world" where
  "remove_dir_all w =
     (case lk_entry w of
        DirEntry _ _ \<Rightarrow> if lk_remove_dir_ok w then w\<lparr>lk_entry := NoEntry\<rparr> else w
      | _ \<Rightarrow> w)"

definition rival_moves :: "lock_world \<Rightarrow> lock_world" where
  "rival_moves w =
     (case (lk_entry w, lk_rival w) of
        (NoEntry, Some e) \<Rightarrow> w\<lparr>lk_entry := e\<rparr>
      | _ \<Rightarrow> w)"

definition stamp :: "nat \<Rightarrow> lock_world \<Rightarrow> lock_world" where
  "stamp pid w =
     (case lk_entry w of
        DirEntry _ made \<Rightarrow>
          if lk_write_ok w then w\<lparr>lk_entry := DirEntry (Some (show_nat pid)) (Some (lk_now w))\<rparr> else w
      | _ \<Rightarrow> w)"

definition read_pid :: "lock_world \<Rightarrow> int option" where
  "read_pid w =
     (case lk_entry w of
        DirEntry (Some content) _ \<Rightarrow> do {
          text \<leftarrow> from_utf8 content;
          parse_i32 (trim text) }
      | _ \<Rightarrow> None)"

definition age :: "lock_world \<Rightarrow> nat option" where
  "age w =
     (case lk_entry w of
        NoEntry \<Rightarrow> None
      | FileEntry made \<Rightarrow> do { m \<leftarrow> made; if m \<le> lk_now w then Some (lk_now w - m) else None }
      | DirEntry _ made \<Rightarrow> do { m \<leftarrow> made; if m \<le> lk_now w then Some (lk_now w - m) else None })"

definition alive :: "lock_world \<Rightarrow> int \<Rightarrow> bool" where
  "alive w pid =
     (if pid \<le> 0 then False
      else case lk_kill w pid of
             Delivered \<Rightarrow> True
           | NotPermitted \<Rightarrow> True
           | NoSuchProcess \<Rightarrow> False)"

definition breakable :: "lock_world \<Rightarrow> bool" where
  "breakable w =
     (case read_pid w of
        Some pid \<Rightarrow> \<not> alive w pid
      | None \<Rightarrow> (case age w of None \<Rightarrow> True | Some a \<Rightarrow> a > STALE_AFTER))"

text \<open>The guard is the acquired lock; dropping it removes the directory.\<close>

definition acquire :: "nat \<Rightarrow> lock_world \<Rightarrow> (unit, denied) result \<times> lock_world" where
  "acquire pid w =
     (case lk_parent_error w of
        Some e \<Rightarrow> (Err (Failed e), w)
      | None \<Rightarrow>
          let w = (case lk_entry w of
                     FileEntry _ \<Rightarrow> if lk_remove_file_ok w then w\<lparr>lk_entry := NoEntry\<rparr> else w
                   | _ \<Rightarrow> w)
          in case create_dir w of
               (Ok _, w) \<Rightarrow> (Ok (), stamp pid w)
             | (Err AlreadyExists, w) \<Rightarrow>
                 if breakable w then
                   let w = rival_moves (remove_dir_all w)
                   in case create_dir w of
                        (Ok _, w) \<Rightarrow> (Ok (), stamp pid w)
                      | (Err _, w) \<Rightarrow> (Err Held, w)
                 else (Err Held, w)
             | (Err (OtherError e), w) \<Rightarrow> (Err (Failed e), w))"

definition drop_guard :: "lock_world \<Rightarrow> lock_world" where
  "drop_guard w = remove_dir_all w"

section \<open>What an acquisition can do\<close>

lemma parse_i32_show:
  assumes "n < 2 ^ 31"
  shows "parse_i32 (trim (show_nat n)) = Some (int n)"
proof -
  obtain c cs where s: "show_nat n = c # cs" by (cases "show_nat n") simp_all
  have "c \<noteq> 0x2D" "c \<noteq> 0x2B"
    using digit_cases [of c n] s by auto
  then show ?thesis
    using parse_digits_show [of n "2 ^ 31 - 1"] assms
    unfolding parse_i32_def trim_show_nat by (simp add: s del: parse_digits.simps)
qed

text \<open>A lock whose recorded owner answers is never taken from it, whatever its age, and the
  attempt changes nothing: a six-hour compile is not a stale lock.\<close>

theorem live_owner_keeps_lock:
  assumes "lk_parent_error w = None"
    and "lk_entry w = DirEntry (Some content) made"
    and "read_pid w = Some owner" and "alive w owner"
  shows "acquire pid w = (Err Held, w)"
  using assms by (simp add: acquire_def create_dir_def breakable_def)

definition sample_world :: lock_world where
  "sample_world =
     \<lparr>lk_entry = DirEntry (Some (show_nat 7)) (Some 0), lk_now = 10 * STALE_AFTER,
      lk_kill = (\<lambda>p. if p = 7 then NotPermitted else NoSuchProcess),
      lk_parent_error = None, lk_create_error = None, lk_remove_file_ok = True,
      lk_remove_dir_ok = True, lk_write_ok = True, lk_rival = None\<rparr>"

lemma read_pid_sample: "read_pid sample_world = Some 7"
  using parse_i32_show [of 7] by (simp add: read_pid_def sample_world_def from_utf8_def valid_utf8_show)

lemma live_owner_keeps_lock_witness: "acquire 9 sample_world = (Err Held, sample_world)"
  by (rule live_owner_keeps_lock [OF _ _ read_pid_sample])
     (simp_all add: sample_world_def alive_def)

text \<open>A lock whose recorded owner is gone is broken at once, whatever its age, and is then held by
  the process that asked, unless a rival took it first, in which case the answer is \<open>Held\<close>.\<close>

theorem dead_owner_broken:
  assumes "lk_parent_error w = None" and "lk_create_error w = None" and "lk_remove_dir_ok w"
    and "lk_entry w = DirEntry (Some content) made"
    and "read_pid w = Some owner" and "\<not> alive w owner"
    and "lk_rival w \<noteq> Some NoEntry"
  shows "acquire pid w =
     (case lk_rival w of
        None \<Rightarrow> (Ok (), w\<lparr>lk_entry := DirEntry (if lk_write_ok w then Some (show_nat pid) else None)
                                              (Some (lk_now w))\<rparr>)
      | Some e \<Rightarrow> (Err Held, w\<lparr>lk_entry := e\<rparr>))"
  using assms
  by (auto simp: acquire_def create_dir_def breakable_def remove_dir_all_def rival_moves_def stamp_def
      Let_def split: option.split entry.split)

lemma dead_owner_broken_witness:
  "fst (acquire 9 (sample_world\<lparr>lk_kill := (\<lambda>_. NoSuchProcess)\<rparr>)) = Ok ()"
proof -
  let ?w = "sample_world\<lparr>lk_kill := (\<lambda>_. NoSuchProcess)\<rparr>"
  have "read_pid ?w = Some 7"
    using read_pid_sample by (simp add: read_pid_def sample_world_def)
  then show ?thesis
    using dead_owner_broken [of ?w "show_nat 7" "Some 0" 7 9]
    by (simp add: sample_world_def alive_def)
qed

text \<open>Two runs never hold the lock together. Once one has acquired it, another that asks while the
  first is alive and its lock is at most six hours old, or any time while it is alive and its
  process id could be written, is told \<open>Held\<close> and changes nothing; once the first has dropped
  it, the next to ask gets it.\<close>

theorem lock_exclusion:
  assumes "acquire p w = (Ok (), w1)" and "0 < p" and "p < 2 ^ 31"
    and later: "w2 = w1\<lparr>lk_now := t, lk_kill := kill\<rparr>"
    and owner: "kill (int p) \<noteq> NoSuchProcess"
    and young: "lk_write_ok w \<or> lk_now w \<le> t \<and> t \<le> lk_now w + STALE_AFTER"
  shows "acquire q w2 = (Err Held, w2) \<and>
         (lk_remove_dir_ok w2 \<longrightarrow> lk_create_error w2 = None \<longrightarrow> fst (acquire q (drop_guard w2)) = Ok ())"
proof -
  have same: "lk_parent_error w1 = None" "lk_write_ok w1 = lk_write_ok w" "lk_now w1 = lk_now w"
    and e: "lk_entry w1 = DirEntry (if lk_write_ok w then Some (show_nat p) else None) (Some (lk_now w))"
    using assms(1)
    by (auto simp: acquire_def create_dir_def remove_dir_all_def rival_moves_def stamp_def Let_def
        split: option.splits entry.splits if_splits create_error.splits)
  have "\<not> breakable w2"
  proof (cases "lk_write_ok w")
    case True
    then have "read_pid w2 = Some (int p)"
      using parse_i32_show [of p] assms(3) by (simp add: read_pid_def later e from_utf8_def valid_utf8_show)
    moreover have "alive w2 (int p)"
      using owner assms(2) by (simp add: alive_def later split: kill_answer.split)
    ultimately show ?thesis by (simp add: breakable_def)
  next
    case False
    with young have "t - lk_now w \<le> STALE_AFTER" "lk_now w \<le> t"
      by (simp_all add: le_diff_conv add.commute)
    with False show ?thesis
      by (simp add: breakable_def read_pid_def age_def later e)
  qed
  then have "acquire q w2 = (Err Held, w2)"
    using same by (simp add: acquire_def create_dir_def later e)
  moreover have "lk_remove_dir_ok w2 \<Longrightarrow> lk_create_error w2 = None \<Longrightarrow> fst (acquire q (drop_guard w2)) = Ok ()"
    using same by (simp add: drop_guard_def remove_dir_all_def acquire_def create_dir_def later e)
  ultimately show ?thesis by blast
qed

lemma lock_exclusion_witness:
  "acquire 9 (snd (acquire 7 (sample_world\<lparr>lk_entry := NoEntry\<rparr>))) =
     (Err Held, snd (acquire 7 (sample_world\<lparr>lk_entry := NoEntry\<rparr>)))"
proof -
  let ?w = "sample_world\<lparr>lk_entry := NoEntry\<rparr>"
  have "acquire 7 ?w = (Ok (), ?w\<lparr>lk_entry := DirEntry (Some (show_nat 7)) (Some (10 * STALE_AFTER))\<rparr>)"
    by (simp add: acquire_def create_dir_def stamp_def sample_world_def)
  then show ?thesis
    using lock_exclusion [of 7 ?w "snd (acquire 7 ?w)" "snd (acquire 7 ?w)"
        "\<lambda>p. if p = 7 then NotPermitted else NoSuchProcess" "10 * STALE_AFTER" 9]
    by (simp add: sample_world_def)
qed

text \<open>A lock directory with no readable owner, such as a crash between its creation and the
  writing of its owner leaves, is never permanent: it is refused while it is at most six hours
  old by its own creation time, and broken after.\<close>

theorem unstamped_lock_times_out:
  assumes "lk_parent_error w = None" and "lk_create_error w = None" and "lk_remove_dir_ok w"
    and "lk_rival w = None"
    and "lk_entry w = DirEntry content (Some made)" and "made \<le> lk_now w" and "read_pid w = None"
  shows "fst (acquire pid w) = (if lk_now w - made > STALE_AFTER then Ok () else Err Held)"
  using assms
  by (simp add: acquire_def create_dir_def breakable_def age_def remove_dir_all_def rival_moves_def)

lemma unstamped_lock_times_out_witness:
  "fst (acquire 9 (sample_world\<lparr>lk_entry := DirEntry None (Some 0)\<rparr>)) = Ok ()"
  using unstamped_lock_times_out [of "sample_world\<lparr>lk_entry := DirEntry None (Some 0)\<rparr>" None 0 9]
  by (simp add: sample_world_def read_pid_def STALE_AFTER_def)

end
