(* ===== verification/Exec_Script.thy ===== *)
theory Exec_Script
  imports Exec_Frames
begin

text \<open>
  The shell command an upgrade runs (crates/agent/src/exec/script.rs). The operator's command is
  quoted twice, once for the \<open>eval\<close> of the login shell and once for the \<open>-c\<close> argument that
  carries it there. \<open>sh_word\<close> is the quote removal of a POSIX shell on one word; both levels are
  proved to give the command back, byte for byte, whatever it contains.
\<close>

section \<open>Quoting\<close>

text \<open>\<open>s.replace('\'', r"'\''")\<close>\<close>

definition quote_escape :: "rstring \<Rightarrow> rstring" where
  "quote_escape s = concat (map (\<lambda>c. if c = 0x27 then [0x27, 0x5C, 0x27, 0x27] else [c]) s)"

definition sh_quote :: "rstring \<Rightarrow> rstring" where
  "sh_quote s = [0x27] @ quote_escape s @ [0x27]"

section \<open>The script\<close>

definition before_eval :: rstring where
  "before_eval =
     lit ''export PAGER=cat COMPOSE_PROGRESS=tty BUILDKIT_PROGRESS=tty; echo '' @ STARTED_SENTINEL
     @ lit ''; exec 2>&3 3>&-; eval ''"

definition after_eval :: rstring where
  "after_eval =
     lit ''; __mt_rc=$?; exec 2>/dev/null; echo '' @ DONE_SENTINEL @ lit ''; exit $__mt_rc''"

definition bracket :: "rstring \<Rightarrow> rstring" where
  "bracket inner = before_eval @ inner @ after_eval"

definition zsh_prelude :: rstring where
  "zsh_prelude =
     lit ''setopt expand_aliases 2>/dev/null; source ~/.zshrc 2>/dev/null; source ~/.zprofile 2>/dev/null; ''"

definition bash_prelude :: rstring where
  "bash_prelude =
     lit ''shopt -s expand_aliases 2>/dev/null; source ~/.bashrc 2>/dev/null; source ~/.bash_profile 2>/dev/null; ''"

definition script_body :: "rstring \<Rightarrow> rstring" where
  "script_body inner =
     lit ''exec 3>&2 2>/dev/null; '' @
     lit ''if command -v zsh >/dev/null 2>&1 && { [ -f ~/.zshrc ] || [ -f ~/.zprofile ] || [ -f ~/.zshenv ]; }; then '' @
     lit ''zsh -l -i -c '' @ [0x27] @ zsh_prelude @ bracket inner @ [0x27] @ lit ''; '' @
     lit ''elif command -v bash >/dev/null 2>&1; then '' @
     lit ''bash -i -c '' @ [0x27] @ bash_prelude @ bracket inner @ [0x27] @ lit ''; '' @
     lit ''else sh -c '' @ [0x27] @ bracket inner @ [0x27] @ lit ''; fi''"

text \<open>A backslash and an \<open>n\<close>, as \<open>printf\<close> reads them.\<close>

definition esc_n :: rstring where "esc_n = [0x5C, 0x6E]"

definition password_preamble :: rstring where
  \<open>password_preamble =
     lit ''stty -echo 2>/dev/null; printf '' @ [0x27] @ PW_READY_SENTINEL @ esc_n @ [0x27] @
     lit ''; IFS= read -r __mt_pw; '' @
     lit ''stty echo 2>/dev/null; printf '' @ [0x27] @ lit ''%s'' @ esc_n @ [0x27] @
     lit '' "$__mt_pw" | sudo -S -p '' @ [0x27, 0x27] @ lit '' -v 2>/dev/null; '' @
     lit ''__mt_rc=$?; unset __mt_pw; '' @
     lit ''if [ $__mt_rc -ne 0 ]; then printf '' @ [0x27] @ SUDO_FAILED_SENTINEL @ esc_n @ [0x27] @
     lit ''; exit '' @ show_int (sint SUDO_FAILED_CODE) @ lit ''; fi; ''\<close>

definition wrap :: "rstring \<Rightarrow> bool \<Rightarrow> rstring" where
  "wrap command with_password =
     (let quoted = sh_quote command;
          inner = quote_escape quoted;
          body = script_body inner
      in if \<not> with_password then body else password_preamble @ body)"

text \<open>\<open>CString::new\<close> refuses a string with a NUL byte in it.\<close>

definition cstring :: "rstring \<Rightarrow> bytes option" where
  "cstring s = (if 0 \<in> set s then None else Some (s @ [0]))"

definition shell_argv :: "rstring \<Rightarrow> bytes list option" where
  "shell_argv script = do {
     a \<leftarrow> cstring (lit ''/bin/sh'');
     b \<leftarrow> cstring (lit ''-c'');
     c \<leftarrow> cstring script;
     Some [a, b, c] }"

section \<open>What a shell makes of it\<close>

text \<open>
  Quote removal on the word at the start of the input: single quotes protect everything up to
  the next one, a backslash protects one character, an unquoted separator ends the word. A
  character that would start an expansion or a double-quoted string is outside this reader.
\<close>

definition sh_meta :: "u8 \<Rightarrow> bool" where
  "sh_meta c \<longleftrightarrow> c \<in> {0x20, 0x09, 0x0A, 0x3B, 0x26, 0x7C, 0x3C, 0x3E, 0x28, 0x29}"

definition sh_special :: "u8 \<Rightarrow> bool" where
  "sh_special c \<longleftrightarrow> c \<in> {0x22, 0x24, 0x60}"

fun sh_word :: "bool \<Rightarrow> bytes \<Rightarrow> (bytes \<times> bytes) option" where
  "sh_word True [] = None"
| "sh_word True (c # cs) =
     (if c = 0x27 then sh_word False cs else map_option (apfst ((#) c)) (sh_word True cs))"
| "sh_word False [] = Some ([], [])"
| "sh_word False (c # cs) =
     (if c = 0x27 then sh_word True cs
      else if c = 0x5C then
        (case cs of [] \<Rightarrow> None | d # ds \<Rightarrow> map_option (apfst ((#) d)) (sh_word False ds))
      else if sh_meta c then Some ([], c # cs)
      else if sh_special c then None
      else map_option (apfst ((#) c)) (sh_word False cs))"

lemma apfst_Cons: "apfst ((#) c) = (\<lambda>(w, r). (c # w, r))"
  by (auto simp: fun_eq_iff)

lemma sh_word_escaped:
  "sh_word True (quote_escape s @ t) = map_option (apfst ((@) s)) (sh_word True t)"
proof (induction s)
  case Nil
  show ?case by (cases "sh_word True t") (auto simp: quote_escape_def)
next
  case (Cons c s)
  then show ?case
    by (auto simp: quote_escape_def option.map_comp comp_def apfst_def map_prod_def split: prod.split
        intro!: option.map_cong)
qed

lemma sh_word_plain:
  "0x27 \<notin> set p \<Longrightarrow> sh_word True (p @ t) = map_option (apfst ((@) p)) (sh_word True t)"
proof (induction p)
  case Nil
  show ?case by (cases "sh_word True t") auto
next
  case (Cons c p)
  then show ?case
    by (auto simp: option.map_comp comp_def apfst_def map_prod_def split: prod.split
        intro!: option.map_cong)
qed

lemma sh_word_end: "rest = [] \<or> sh_meta (hd rest) \<Longrightarrow> sh_word False rest = Some ([], rest)"
  by (cases rest) (auto simp: sh_meta_def)

text \<open>A word in single quotes that carries an escaped text between two plain ones.\<close>

lemma sh_word_carries:
  assumes "0x27 \<notin> set pre" and "0x27 \<notin> set post" and "rest = [] \<or> sh_meta (hd rest)"
  shows "sh_word False ([0x27] @ pre @ quote_escape s @ post @ [0x27] @ rest) = Some (pre @ s @ post, rest)"
  using assms by (simp add: sh_word_plain sh_word_escaped sh_word_end apfst_def)

lemma sh_quote_reads:
  assumes "rest = [] \<or> sh_meta (hd rest)"
  shows "sh_word False (sh_quote s @ rest) = Some (s, rest)"
  using sh_word_carries [of "[]" "[]" rest s] assms by (simp add: sh_quote_def)

lemma no_quote:
  "0x27 \<notin> set before_eval" "0x27 \<notin> set after_eval" "0x27 \<notin> set zsh_prelude" "0x27 \<notin> set bash_prelude"
  by (simp_all add: before_eval_def after_eval_def zsh_prelude_def bash_prelude_def lit_def
      STARTED_SENTINEL_def DONE_SENTINEL_def)

text \<open>Where those words stand in the script.\<close>

lemma wrap_words:
  "\<exists>a. wrap command pw =
     a @ lit ''zsh -l -i -c ''
       @ [0x27] @ zsh_prelude @ bracket (quote_escape (sh_quote command)) @ [0x27]
       @ lit ''; elif command -v bash >/dev/null 2>&1; then bash -i -c ''
       @ [0x27] @ bash_prelude @ bracket (quote_escape (sh_quote command)) @ [0x27]
       @ lit ''; else sh -c ''
       @ [0x27] @ bracket (quote_escape (sh_quote command)) @ [0x27] @ lit ''; fi''"
  by (cases pw) (auto simp: wrap_def script_body_def Let_def lit_def)

text \<open>C29: The command survives both levels of quoting, byte for byte, whatever is in it. In each of
  the three shells the script can reach, the \<open>-c\<close> argument is one word, its text is the prelude and
  the bracket around the quoted command, and the word that \<open>eval\<close> is given there is the command.\<close>

theorem command_cannot_escape:
  assumes "rest = [] \<or> sh_meta (hd rest)"
    and "prelude \<in> {zsh_prelude, bash_prelude, []}"
  shows "(\<exists>a. wrap command pw =
            a @ lit ''zsh -l -i -c ''
              @ [0x27] @ zsh_prelude @ bracket (quote_escape (sh_quote command)) @ [0x27]
              @ lit ''; elif command -v bash >/dev/null 2>&1; then bash -i -c ''
              @ [0x27] @ bash_prelude @ bracket (quote_escape (sh_quote command)) @ [0x27]
              @ lit ''; else sh -c ''
              @ [0x27] @ bracket (quote_escape (sh_quote command)) @ [0x27] @ lit ''; fi'') \<and>
         sh_word False ([0x27] @ prelude @ bracket (quote_escape (sh_quote command)) @ [0x27] @ rest)
           = Some (prelude @ before_eval @ sh_quote command @ after_eval, rest) \<and>
         sh_word False (sh_quote command @ after_eval) = Some (command, after_eval)"
proof -
  have "0x27 \<notin> set (prelude @ before_eval)"
    using assms(2) no_quote by auto
  then have "sh_word False ([0x27] @ (prelude @ before_eval) @ quote_escape (sh_quote command)
      @ after_eval @ [0x27] @ rest) = Some ((prelude @ before_eval) @ sh_quote command @ after_eval, rest)"
    using no_quote(2) assms(1) by (rule sh_word_carries)
  moreover have "sh_meta (hd after_eval)"
    by (simp add: after_eval_def lit_def sh_meta_def)
  then have "sh_word False (sh_quote command @ after_eval) = Some (command, after_eval)"
    by (intro sh_quote_reads) simp
  ultimately show ?thesis
    using wrap_words [of command pw] by (simp add: bracket_def)
qed

lemma command_cannot_escape_witness:
  "sh_word False (sh_quote (lit ''a; rm -rf /'' @ [0x27]) @ after_eval) = Some (lit ''a; rm -rf /'' @ [0x27], after_eval)"
  using command_cannot_escape [of "[]" "[]" "lit ''a; rm -rf /'' @ [0x27]"] by simp

end
