(* ===== verification/Exec_Run.thy ===== *)
theory Exec_Run
  imports Exec_Pump Exec_Lock Exec_Script Proto_Codec
begin

text \<open>
  One run of the exec channel, from the request on the agent's standard input to the frame that
  ends it (crates/agent/src/exec/run.rs, serve.rs). The environment supplies what the operating
  system answers: the lock's world, the attempts to start a shell, the passes of the pump, and
  the status of the child when it has to be waited for.
\<close>

section \<open>Reading the request\<close>

definition read_exact :: "nat \<Rightarrow> bytes \<Rightarrow> (bytes \<times> bytes) option" where
  "read_exact n input = (if n \<le> length input then Some (take n input, drop n input) else None)"

definition read_request :: "bytes \<Rightarrow> exec_frame option" where
  "read_request input = do {
     (header, input) \<leftarrow> read_exact HEADER_LEN input;
     let len = unat (of_le [header ! (HEADER_LEN - 2), header ! (HEADER_LEN - 1)] :: u16);
     (body, input) \<leftarrow> read_exact len input;
     p \<leftarrow> decode_packet (header @ body);
     (case p of
        Exec (Request cmd pw lock cs rs) \<Rightarrow> Some (Request cmd pw lock cs rs)
      | _ \<Rightarrow> None) }"

section \<open>The run\<close>

definition NO_SHELL_CODE :: i32 where "NO_SHELL_CODE = 127"

datatype io_kind = NotFound | PermissionDenied | OtherKind

datatype spawn_answer = Spawned (child_pid: int) | SpawnFailed io_kind (why: rstring)

record run_env =
  ev_lock :: lock_world
  ev_pid :: nat
  ev_version :: rstring
  ev_spawn :: "nat \<Rightarrow> spawn_answer"
  ev_turns :: "turn list"
  ev_drain :: "(read_answer option \<times> read_answer option) list"
  ev_wait :: outcome

definition ATTEMPTS :: nat where "ATTEMPTS = 3"

fun spawn_attempts :: "(nat \<Rightarrow> spawn_answer) \<Rightarrow> nat \<Rightarrow> nat \<Rightarrow> rstring option \<Rightarrow> (int, rstring) result" where
  "spawn_attempts ask attempt 0 prev =
     Err (case prev of Some e \<Rightarrow> e
          | None \<Rightarrow> lit ''could not start a shell, and no reason was reported'')"
| "spawn_attempts ask attempt (Suc left) prev =
     (case ask attempt of
        Spawned pid \<Rightarrow> Ok pid
      | SpawnFailed k e \<Rightarrow>
          if k = NotFound \<or> k = PermissionDenied then Err e
          else spawn_attempts ask (attempt + 1) left (Some e))"

definition spawn_with_retry :: "(nat \<Rightarrow> spawn_answer) \<Rightarrow> (int, rstring) result" where
  "spawn_with_retry ask = spawn_attempts ask 0 ATTEMPTS None"

text \<open>The outcome, the frames sent so far, the sequence number and the lock's world; \<open>None\<close> while
  the child is still running.\<close>

type_synonym executed = "outcome \<times> exec_frame list \<times> u32 \<times> lock_world"

definition refuse :: "i32 \<Rightarrow> rstring \<Rightarrow> exec_frame list \<Rightarrow> u32 \<Rightarrow> lock_world \<Rightarrow> executed option" where
  "refuse code text out sq w =
     (let (sq, out) = send_out Stderr text sq out
      in Some (\<lparr>oc_code = code, oc_signalled = False\<rparr>, out, sq, w))"

definition settle :: "outcome \<Rightarrow> bool \<Rightarrow> outcome" where
  "settle oc rejected =
     (if rejected \<and> oc_code oc \<noteq> SUDO_FAILED_CODE
      then \<lparr>oc_code = SUDO_FAILED_CODE, oc_signalled = False\<rparr> else oc)"

definition execute_unlocked ::
  "request \<Rightarrow> run_env \<Rightarrow> exec_frame list \<Rightarrow> u32 \<Rightarrow> lock_world \<Rightarrow> executed option" where
  "execute_unlocked req ev out sq w =
     (case shell_argv (wrap (rq_command req) (rq_password req \<noteq> None)) of
        None \<Rightarrow> refuse 1 (lit ''the command contains a NUL byte and cannot be run'' @ [0x0A]) out sq w
      | Some argv \<Rightarrow>
          (case spawn_with_retry (ev_spawn ev) of
             Err e \<Rightarrow> refuse NO_SHELL_CODE (lit ''could not start a shell: '' @ e @ [0x0A]) out sq w
           | Ok pid \<Rightarrow>
               let out = send (Begin (rq_host req) (ev_version ev)
                                 (if 0 \<le> pid \<and> pid < 2 ^ 32 then of_int pid else 0)) out
               in case pump req (ev_turns ev) (ev_drain ev) (reader_new out sq) of
                    None \<Rightarrow> None
                  | Some (reaped, r) \<Rightarrow>
                      let oc = (case reaped of Some oc \<Rightarrow> oc | None \<Rightarrow> ev_wait ev)
                      in Some (settle oc (rd_sudo_rejected r), rd_out r, rd_seq r, w)))"

text \<open>The guard is dropped when \<open>execute\<close> returns, before the frame that ends the run.\<close>

definition execute :: "request \<Rightarrow> run_env \<Rightarrow> executed option" where
  "execute req ev =
     (if rq_use_lock req then
        (case acquire (ev_pid ev) (ev_lock ev) of
           (Ok _, w) \<Rightarrow> map_option (\<lambda>(oc, out, sq, w). (oc, out, sq, drop_guard w))
                          (execute_unlocked req ev [] 0 w)
         | (Err Held, w) \<Rightarrow>
             Some (\<lparr>oc_code = LOCK_HELD_CODE, oc_signalled = False\<rparr>, send (Marker LockHeld) [], 0, w)
         | (Err (Failed e), w) \<Rightarrow>
             refuse 1 (lit ''could not take the upgrade lock: '' @ e @ [0x0A]) [] 0 w)
      else execute_unlocked req ev [] 0 (ev_lock ev))"

definition run :: "request \<Rightarrow> run_env \<Rightarrow> (i32 \<times> exec_frame list \<times> lock_world) option" where
  "run req ev =
     (case execute req ev of
        None \<Rightarrow> None
      | Some (oc, out, sq, w) \<Rightarrow>
          Some (oc_code oc, send (Exit (oc_code oc) (oc_signalled oc)) out, w))"

definition emit_failure :: "stream \<Rightarrow> rstring \<Rightarrow> u32 \<Rightarrow> exec_frame list \<Rightarrow> u32 \<times> exec_frame list" where
  "emit_failure st reason sq out =
     (let (sq, out) = send_out st (reason @ [0x0A]) sq out in (sq, send (Exit 1 False) out))"

section \<open>The entry point\<close>

definition DEFAULT_PTY_COLS :: u16 where "DEFAULT_PTY_COLS = 80"
definition DEFAULT_PTY_ROWS :: u16 where "DEFAULT_PTY_ROWS = 24"

definition fit :: "nat \<Rightarrow> u16" where
  "fit n = u16_clamp n"

text \<open>Hello goes out first, then the frames of the run. \<open>None\<close> while the run is going on.\<close>

definition serve :: "rstring \<Rightarrow> nat \<Rightarrow> nat \<Rightarrow> bytes \<Rightarrow> run_env \<Rightarrow> payload list option" where
  "serve host cols lines input ev =
     (let hello = HelloP (hello_new (ev_version ev))
      in case read_request input of
           Some (Request cmd pw lock want_cols want_rows) \<Rightarrow>
             let req = \<lparr>rq_command = cmd, rq_password = pw, rq_use_lock = lock,
                        rq_cols = (if want_cols \<noteq> 0 then want_cols
                                   else if cols \<noteq> 0 then fit cols else DEFAULT_PTY_COLS),
                        rq_rows = (if want_rows \<noteq> 0 then want_rows
                                   else if lines \<noteq> 0 then fit lines else DEFAULT_PTY_ROWS),
                        rq_host = host\<rparr>
             in map_option (\<lambda>(_, out, _). hello # map Exec out) (run req ev)
         | _ \<Rightarrow> Some (hello # map Exec
                  (snd (emit_failure Stderr (lit ''no readable exec request on stdin'') 0 []))))"

section \<open>Every path ends the run\<close>

lemma refuse_well_sent:
  "refuse code text out sq w = Some (oc, out', sq', w') \<Longrightarrow> well_sent sq out \<Longrightarrow> well_sent sq' out' \<and> w' = w"
  by (auto simp: refuse_def split: prod.splits dest: send_out_facts(3))

lemma execute_unlocked_well_sent:
  assumes "execute_unlocked req ev out sq w = Some (oc, out', sq', w')" and "well_sent sq out"
  shows "well_sent sq' out' \<and> w' = w"
proof (cases "shell_argv (wrap (rq_command req) (rq_password req \<noteq> None))")
  case None
  with assms show ?thesis by (auto simp: execute_unlocked_def dest: refuse_well_sent)
next
  case (Some argv)
  show ?thesis
  proof (cases "spawn_with_retry (ev_spawn ev)")
    case (Inl e)
    with assms Some show ?thesis by (auto simp: execute_unlocked_def dest: refuse_well_sent)
  next
    case (Inr pid)
    let ?out = "send (Begin (rq_host req) (ev_version ev) (if 0 \<le> pid \<and> pid < 2 ^ 32 then of_int pid else 0)) out"
    have "well_sent sq ?out"
      using assms(2) by (intro well_sent_send) simp_all
    moreover from assms(1) Some Inr obtain reaped r where
      "pump req (ev_turns ev) (ev_drain ev) (reader_new ?out sq) = Some (reaped, r)"
      "out' = rd_out r" "sq' = rd_seq r" "w' = w"
      by (auto simp: execute_unlocked_def Let_def split: option.splits)
    ultimately show ?thesis
      using sent.pump [of req "ev_turns ev" "ev_drain ev" "reader_new ?out sq" reaped r]
      by (simp add: reader_new_def)
  qed
qed

lemma well_sent_Nil: "well_sent 0 []"
  by (simp add: well_sent_def)

lemma execute_well_sent:
  assumes "execute req ev = Some (oc, out, sq, w)"
  shows "well_sent sq out"
proof -
  have marker: "well_sent 0 (send (Marker k) [])" for k
    by (rule well_sent_send) (simp_all add: well_sent_Nil)
  show ?thesis
    using assms marker well_sent_Nil
    by (auto simp: execute_def split: if_splits prod.splits sum.splits denied.splits
        dest!: execute_unlocked_well_sent refuse_well_sent)
qed

lemma run_frames:
  assumes "run req ev = Some (code, out, w)"
  shows "\<exists>fs sq sg. out = fs @ [Exit code sg] \<and> well_sent sq fs"
  using assms execute_well_sent [of req ev] by (auto simp: run_def send_def split: option.splits)

text \<open>C28: The agent says Hello first and ends every run it serves with exactly one Exit frame, the last
  thing it sends, whatever arrived on its input and whatever went wrong: an unreadable request, a
  lock held or not to be had, a command that cannot be run, a shell that cannot be started. The
  output frames before it are numbered in order from zero and none is over the chunk ceiling.\<close>

theorem serve_ends_with_exit:
  assumes "serve host cols lines input ev = Some ps"
  shows "\<exists>fs sq code sg. ps = HelloP (hello_new (ev_version ev)) # map Exec (fs @ [Exit code sg]) \<and> well_sent sq fs"
proof -
  have fail: "\<exists>fs sq. snd (emit_failure Stderr t 0 []) = fs @ [Exit 1 False] \<and> well_sent sq fs" for t
    using well_sent_Nil send_out_facts(3) [of Stderr "t @ [0x0A]" 0 "[]"]
    by (auto simp: emit_failure_def send_def split: prod.split)
  show ?thesis
  proof (cases "\<exists>cmd pw lock wc wr. read_request input = Some (Request cmd pw lock wc wr)")
    case True
    then obtain req code out w where "run req ev = Some (code, out, w)"
      and ps: "ps = HelloP (hello_new (ev_version ev)) # map Exec out"
      using assms by (auto simp: serve_def Let_def)
    then show ?thesis using run_frames by blast
  next
    case False
    then have "ps = HelloP (hello_new (ev_version ev)) #
        map Exec (snd (emit_failure Stderr (lit ''no readable exec request on stdin'') 0 []))"
      using assms by (auto simp: serve_def Let_def split: option.splits exec_frame.splits)
    then show ?thesis
      using fail [of "lit ''no readable exec request on stdin''"] by metis
  qed
qed

definition sample_env :: run_env where
  "sample_env =
     \<lparr>ev_lock = sample_world, ev_pid = 9, ev_version = lit ''0.43.0'', ev_spawn = (\<lambda>_. Spawned 41),
      ev_turns = [\<lparr>tn_master = Some (Some (SUDO_FAILED_SENTINEL @ [0x0A])), tn_err = None,
        tn_reaped = Some \<lparr>oc_code = 1, oc_signalled = False\<rparr>, tn_alive = None\<rparr>],
      ev_drain = [], ev_wait = \<lparr>oc_code = 0, oc_signalled = False\<rparr>\<rparr>"

lemma serve_nothing:
  "serve h cs ls [] ev = Some (HelloP (hello_new (ev_version ev)) #
     map Exec (snd (emit_failure Stderr (lit ''no readable exec request on stdin'') 0 [])))"
  by (simp add: serve_def read_request_def read_exact_def HEADER_LEN_def)

lemma serve_ends_with_exit_witness:
  "\<exists>fs sq code sg.
     HelloP (hello_new (lit ''0.43.0'')) #
       map Exec (snd (emit_failure Stderr (lit ''no readable exec request on stdin'') 0 []))
     = HelloP (hello_new (lit ''0.43.0'')) # map Exec (fs @ [Exit code sg]) \<and> well_sent sq fs"
proof -
  have v: "ev_version sample_env = lit ''0.43.0''" by (simp add: sample_env_def)
  show ?thesis
    using serve_ends_with_exit [OF serve_nothing [of "lit ''h''" 80 24 sample_env]] unfolding v .
qed

lemma pump_returns:
  "\<exists>t \<in> set ts. tn_reaped t \<noteq> None \<Longrightarrow> pump req ts ds r \<noteq> None"
proof (induction ts arbitrary: r)
  case Nil
  then show ?case by simp
next
  case (Cons t ts)
  show ?case
  proof (cases "tn_reaped t")
    case None
    with Cons.prems have "\<exists>t \<in> set ts. tn_reaped t \<noteq> None" by auto
    from Cons.IH [OF this] None show ?thesis
      by (simp add: pump.simps [of req "t # ts"] Let_def)
  next
    case (Some oc)
    then show ?thesis by (simp add: pump.simps [of req "t # ts"] Let_def)
  qed
qed

text \<open>A run whose child is reaped in some pass of the loop returns: a daemon that keeps the terminal
  open after the shell has gone does not keep the run going.\<close>

theorem reaped_run_returns:
  assumes "\<exists>t \<in> set (ev_turns ev). tn_reaped t \<noteq> None"
  shows "run req ev \<noteq> None"
proof -
  have p: "pump rq (ev_turns ev) ds r = None \<longleftrightarrow> False" for rq ds r
    using pump_returns [OF assms] by simp
  have "execute_unlocked req ev out sq w \<noteq> None" for out sq w
    unfolding execute_unlocked_def refuse_def Let_def
    by (auto simp: p split: option.split sum.split prod.split)
  then have "execute req ev \<noteq> None"
    by (auto simp: execute_def refuse_def split: prod.split sum.split denied.split)
  then show ?thesis
    by (auto simp: run_def)
qed

lemma reaped_run_returns_witness: "run sample_request sample_env \<noteq> None"
  by (rule reaped_run_returns) (simp add: sample_env_def)



text \<open>A refused sudo password decides the outcome: once the client has been told of it, the run ends
  with the code that says so, whatever status the shell came back with.\<close>

theorem rejected_password_code:
  assumes "run req ev = Some (code, out, w)" and "Marker SudoFailed \<in> set out"
  shows "code = SUDO_FAILED_CODE"
proof -
  obtain oc fs sq where ex: "execute req ev = Some (oc, fs, sq, w)" and code: "code = oc_code oc"
    and out: "out = send (Exit (oc_code oc) (oc_signalled oc)) fs"
    using assms(1) by (auto simp: run_def split: option.splits)
  have mark: "Marker SudoFailed \<in> set fs" using assms(2) by (simp add: out send_def)
  have refused: "Marker SudoFailed \<notin> set o2" if "refuse c t o1 s w1 = Some (oc2, o2, s2, w2)" "Marker SudoFailed \<notin> set o1"
    for c t o1 s w1 oc2 o2 s2 w2
    using that send_out_markers [of Stderr t s o1] by (auto simp: refuse_def split: prod.splits)
  have unlocked: "oc_code oc2 = SUDO_FAILED_CODE"
    if "execute_unlocked req ev [] 0 w1 = Some (oc2, o2, s2, w2)" "Marker SudoFailed \<in> set o2" for w1 oc2 o2 s2 w2
  proof -
    from that refused obtain h p reaped r oc3 where
      p: "pump req (ev_turns ev) (ev_drain ev) (reader_new (send (Begin h (ev_version ev) p) []) 0) = Some (reaped, r)"
      and o2: "o2 = rd_out r" and oc2: "oc2 = settle oc3 (rd_sudo_rejected r)"
      unfolding execute_unlocked_def
      by (auto simp: Let_def split: option.splits sum.splits)
    have "rejection_told r"
      by (rule told.pump [OF p]) (simp add: rejection_told_def reader_new_def send_def)
    with that(2) o2 show ?thesis by (simp add: rejection_told_def oc2 settle_def)
  qed
  show ?thesis
    using ex mark refused unlocked code unfolding execute_def
    by (auto simp: send_def split: if_splits prod.splits sum.splits denied.splits)
qed

lemma sample_argv: "\<exists>argv. shell_argv (wrap (lit ''ud'') False) = Some argv"
  by (simp add: shell_argv_def cstring_def wrap_def script_body_def bracket_def before_eval_def
      after_eval_def zsh_prelude_def bash_prelude_def sh_quote_def quote_escape_def lit_def
      STARTED_SENTINEL_def DONE_SENTINEL_def)

lemma sample_pump:
  "\<exists>r. pump sample_request (ev_turns sample_env) [] (reader_new out 0)
         = Some (Some \<lparr>oc_code = 1, oc_signalled = False\<rparr>, r)
       \<and> Marker SudoFailed \<in> set (rd_out r)"
proof -
  have f: "feed \<lparr>sv_partial = []\<rparr> (SUDO_FAILED_SENTINEL @ [0x0A]) = ([PMark SudoFailed], \<lparr>sv_partial = []\<rparr>)"
    using sift_line [of SUDO_FAILED_SENTINEL SudoFailed] by (simp add: MARKERS_def)
  show ?thesis
    by (simp add: sample_env_def pump.simps Let_def read_ready_def read_master_chunk_def reader_new_def f
        consume_def consume_piece_def emit_def send_def drain_post_exit_def close_master_def
        close_errpipe_def emit_stderr_def release_def sieve_finish_def sieve_new_def)
qed

lemma rejected_password_code_witness:
  "\<exists>code out w. run sample_request sample_env = Some (code, out, w) \<and> code = SUDO_FAILED_CODE"
proof -
  obtain argv where argv: "shell_argv (wrap (rq_command sample_request) (rq_password sample_request \<noteq> None)) = Some argv"
    using sample_argv by (auto simp: sample_request_def)
  have sp: "spawn_with_retry (ev_spawn sample_env) = Ok 41"
    by (simp add: spawn_with_retry_def ATTEMPTS_def sample_env_def numeral_3_eq_3)
  obtain r where r: "pump sample_request (ev_turns sample_env) []
      (reader_new (send (Begin (rq_host sample_request) (ev_version sample_env) 41) []) 0)
      = Some (Some \<lparr>oc_code = 1, oc_signalled = False\<rparr>, r)" "Marker SudoFailed \<in> set (rd_out r)"
    using sample_pump by blast
  have "ev_drain sample_env = []" "\<not> rq_use_lock sample_request"
    by (simp_all add: sample_env_def sample_request_def)
  with argv sp r have "\<exists>code out w. run sample_request sample_env = Some (code, out, w) \<and> Marker SudoFailed \<in> set out"
    by (simp add: run_def execute_def execute_unlocked_def Let_def send_def)
  then show ?thesis using rejected_password_code by blast
qed

section \<open>Requests off the input\<close>

definition as_request :: "payload \<Rightarrow> exec_frame option" where
  "as_request p =
     (case p of
        Exec (Request cmd pw lock cs rs) \<Rightarrow> Some (Request cmd pw lock cs rs)
      | _ \<Rightarrow> None)"

lemma read_request_split:
  assumes "length h = HEADER_LEN"
  shows "read_request (h @ d) =
     (let len = unat (of_le [h ! 6, h ! 7] :: u16)
      in if len \<le> length d then decode_packet (h @ take len d) \<bind> as_request else None)"
proof -
  have "as_request = (\<lambda>p. case p of Exec (Request cmd pw lock cs rs) \<Rightarrow> Some (Request cmd pw lock cs rs) | _ \<Rightarrow> None)"
    by (simp add: as_request_def fun_eq_iff)
  moreover have "HEADER_LEN - 2 = 6" "HEADER_LEN - 1 = 7"
    by (simp_all add: HEADER_LEN_def)
  ultimately show ?thesis
    using assms by (simp add: read_request_def read_exact_def Let_def del: of_le.simps)
qed

lemma read_request_short: "length d < HEADER_LEN \<Longrightarrow> read_request d = None"
  by (simp add: read_request_def read_exact_def)

lemma packet_split:
  assumes "length (body p) \<le> MAX_PAYLOAD"
  shows "\<exists>h. encode_packet p = h @ body p \<and> length h = HEADER_LEN
             \<and> unat (of_le [h ! 6, h ! 7] :: u16) = length (body p)"
proof -
  let ?l = "le_bytes 2 (u16_clamp (length (body p)))"
  obtain a b where ab: "?l = [a, b]" using le_bytes_2_nth by metis
  with of_le_u16 [of "u16_clamp (length (body p))"]
  have w: "of_le [a, b] = u16_clamp (length (body p))" by simp
  let ?h = "MAGIC @ [PROTO_VERSION, mode_as_u8 (mode_of p), a, b]"
  have "encode_packet p = ?h @ body p"
    using assms ab by (simp add: encode_packet_bytes min_def)
  moreover have "unat (of_le [?h ! 6, ?h ! 7] :: u16) = length (body p)"
  proof -
    have "[?h ! 6, ?h ! 7] = [a, b]" by (simp add: MAGIC_def)
    then show ?thesis
      using assms w by (simp add: unat_u16_clamp MAX_PAYLOAD_def del: of_le.simps)
  qed
  ultimately show ?thesis
    by (intro exI [of _ ?h]) (simp add: MAGIC_def HEADER_LEN_def)
qed

text \<open>A request reads back from the agent's input as it was written, whatever follows it; an input
  that ends before the packet does gives no request, rather than another one.\<close>

theorem request_reads_back:
  assumes "payload_fits (Exec (Request cmd pw lock cs rs))"
  shows "read_request (encode_packet (Exec (Request cmd pw lock cs rs)) @ rest) = Some (Request cmd pw lock cs rs) \<and>
    (\<forall>n < length (encode_packet (Exec (Request cmd pw lock cs rs))).
       read_request (take n (encode_packet (Exec (Request cmd pw lock cs rs)))) = None)"
proof -
  define p where "p = Exec (Request cmd pw lock cs rs)"
  have fits: "payload_fits p" and canon: "payload_canon p = p" and req: "as_request p = Some (Request cmd pw lock cs rs)"
    using assms by (simp_all add: p_def as_request_def)
  obtain h where h: "encode_packet p = h @ body p" "length h = HEADER_LEN"
    "unat (of_le [h ! 6, h ! 7] :: u16) = length (body p)"
    using packet_split [OF body_within [OF fits]] by blast
  have dec: "decode_packet (h @ body p) = Some p"
    using decode_encode_packet [OF fits, of "[]"] h(1) canon by simp
  have whole: "read_request (encode_packet p @ rest) = Some (Request cmd pw lock cs rs)"
    using read_request_split [OF h(2), of "body p @ rest"] h(1,3) dec req by (simp add: Let_def)
  have "read_request (take n (encode_packet p)) = None" if "n < length (encode_packet p)" for n
  proof (cases "n < HEADER_LEN")
    case True
    then show ?thesis by (intro read_request_short) simp
  next
    case False
    then have "take n (encode_packet p) = h @ take (n - HEADER_LEN) (body p)"
      using h(1,2) by simp
    moreover have "length (take (n - HEADER_LEN) (body p)) < length (body p)"
      using that False h(1,2) by simp
    ultimately show ?thesis
      using read_request_split [OF h(2), of "take (n - HEADER_LEN) (body p)"] h(3)
      by (auto simp: Let_def)
  qed
  with whole show ?thesis unfolding p_def by blast
qed

lemma request_reads_back_witness:
  "read_request (encode_packet (Exec (Request (lit ''ud'') None True 80 24)) @ [7]) = Some (Request (lit ''ud'') None True 80 24)"
  using request_reads_back [of "lit ''ud''" None True 80 24 "[7]"]
  by (simp add: str_fits_def valid_utf8_ascii lit_def MAX_PAYLOAD_def Let_def put_str_def)

end
