(* ===== verification/Vault_Api_Props.thy ===== *)
theory Vault_Api_Props
  imports Vault_Api
begin

text \<open>
  What the vault's operations promise their callers. The abstraction of a vault is the password
  that opens it, its key and its contents: \<open>opens\<close> says that a file is a vault with that meaning,
  \<open>unlocked_ok\<close> that an open vault would be written as one. Creating, saving and changing the
  password are shown to establish it and opening to return it, through the cipher's, the
  serializer's and the file format's round trips.
\<close>

section \<open>The meaning of a vault file\<close>

definition keyed :: "packages \<Rightarrow> rstring \<Rightarrow> key \<Rightarrow> vault_header \<Rightarrow> bool" where
  "keyed pk password key h \<longleftrightarrow>
     header_ok h \<and> vh_pk h = derive_verifying_key (pk_prim pk) key
     \<and> (\<exists>wr. get_wrapper Argon2id h = Some wr
          \<and> unwrap_argon2id (pk_prim pk) (w_data wr) password (vh_salt h) (vh_params h) = Ok key)"

definition sealed :: "packages \<Rightarrow> key \<Rightarrow> contents \<Rightarrow> vault_file \<Rightarrow> bool" where
  "sealed pk key c f \<longleftrightarrow>
     verify_canary (vh_canary (vf_header f)) c
     \<and> (\<exists>b. decrypt_vault (pk_prim pk) key (vh_nonce (vf_header f)) (vf_ciphertext f) = Ok b
          \<and> cj_parse (pk_contents pk) b = Ok c)"

definition signed :: "packages \<Rightarrow> vault_file \<Rightarrow> bool" where
  "signed pk f \<longleftrightarrow>
     verify_vault_signature (pk_prim pk) (vh_pk (vf_header f))
       (signed_data (vf_header f) (vf_ciphertext f)) (vh_signature (vf_header f)) = Ok ()"

definition opens :: "packages \<Rightarrow> rstring \<Rightarrow> key \<Rightarrow> contents \<Rightarrow> vault_file \<Rightarrow> bool" where
  "opens pk password key c f \<longleftrightarrow> keyed pk password key (vf_header f) \<and> sealed pk key c f \<and> signed pk f"

definition file_bytes :: "vault_file \<Rightarrow> bytes" where
  "file_bytes f = to_bytes (vf_header f) @ vf_ciphertext f"

definition holds :: "vault_world \<Rightarrow> vault_file \<Rightarrow> bool" where
  "holds w f \<longleftrightarrow> vault_bytes (vw_disk w) = Some (file_bytes f)"

definition unlocked_ok :: "packages \<Rightarrow> rstring \<Rightarrow> unlocked_vault \<Rightarrow> bool" where
  "unlocked_ok pk password u \<longleftrightarrow>
     keyed pk password (uv_key u) (uv_header u) \<and> verify_canary (vh_canary (uv_header u)) (uv_contents u)"

lemma read_holds:
  "holds w f \<Longrightarrow> header_ok (vf_header f) \<Longrightarrow> read_vault_file (vw_disk w) = Ok f"
  by (simp add: read_vault_file_def holds_def file_bytes_def file_from_bytes_at)

lemma read_verified_holds:
  "holds w f \<Longrightarrow> header_ok (vf_header f) \<Longrightarrow> signed pk f \<Longrightarrow> read_verified pk w = Ok f"
  by (simp add: read_verified_def read_holds signed_def)

lemma open_opens:
  "keyed pk password key (vf_header f) \<Longrightarrow> sealed pk key c f \<Longrightarrow>
   open_with_password pk password f = Ok \<lparr>uv_key = key, uv_contents = c, uv_header = vf_header f\<rparr>"
  by (auto simp: keyed_def sealed_def open_with_password_def decrypt_and_load_def)

lemma read_verified_Ok:
  assumes "read_verified pk w = Ok f"
  shows "holds w f \<and> header_ok (vf_header f) \<and> signed pk f"
proof -
  let ?v = "\<lambda>f. verify_vault_signature (pk_prim pk) (vh_pk (vf_header f))
      (signed_data (vf_header f) (vf_ciphertext f)) (vh_signature (vf_header f))"
  obtain a where a: "read_vault_file (vw_disk w) = Ok a"
    and v: "(case ?v a of Err _ \<Rightarrow> Err (Corrupted (lit ''signature verification failed'')) | Ok _ \<Rightarrow> Ok a) = Ok f"
    using assms by (auto simp: read_verified_def rbind_Inr_iff)
  have f: "a = f" "signed pk f" using v by (cases "?v a"; simp add: signed_def)+
  obtain bs where "vault_bytes (vw_disk w) = Some bs" "file_from_bytes bs = Ok f"
    using a f(1) by (auto simp: read_vault_file_def rbind_Inr_iff ok_or_Inr_iff)
  with f file_from_bytes_Inr [of bs f] show ?thesis by (simp add: holds_def file_bytes_def)
qed

section \<open>Sealing\<close>

lemma signed_data_signature: "signed_data (h\<lparr>vh_signature := s\<rparr>) ct = signed_data h ct"
  by (simp add: signed_data_def write_header_bytes)

lemma header_ok_fields:
  "header_ok h \<Longrightarrow> header_ok (h\<lparr>vh_counter := a, vh_created_ms := b\<rparr>)"
  "header_ok h \<Longrightarrow> length n = NONCE_LEN \<Longrightarrow> length s = SIGNATURE_LEN \<Longrightarrow>
   header_ok (h\<lparr>vh_nonce := n, vh_signature := s\<rparr>)"
  "header_ok h \<Longrightarrow> length l = KEY_LEN \<Longrightarrow> header_ok (h\<lparr>vh_salt := l, vh_params := p\<rparr>)"
  "header_ok h \<Longrightarrow> header_ok (h\<lparr>vh_key_version := k\<rparr>)"
  by (simp_all add: header_ok_def)

lemma get_wrapper_cong: "vh_wrappers h = vh_wrappers h' \<Longrightarrow> get_wrapper t h = get_wrapper t h'"
  by (simp add: get_wrapper_def)

lemma seal_effect:
  assumes pk: "packages_ok pk" and dr: "draws_ok dr" and k: "keyed pk password key h"
    and c: "verify_canary (vh_canary h) c" and p: "serialize pk c = Ok plaintext"
    and s: "seal_vault pk dr key plaintext h = Ok (h', ct)"
  shows "opens pk password key c \<lparr>vf_header = h', vf_ciphertext = ct\<rparr>
    \<and> (\<exists>n sg. h' = h\<lparr>vh_nonce := n, vh_signature := sg\<rparr>)"
proof -
  let ?P = "pk_prim pk"
  obtain n where e: "encrypt_vault ?P (dr_nonce dr) key plaintext = Ok (ct, n)"
    and h': "h' = h\<lparr>vh_nonce := n, vh_signature := sign_vault ?P key (signed_data (h\<lparr>vh_nonce := n\<rparr>) ct)\<rparr>"
    using s by (auto simp: seal_vault_def rbind_Inr_iff Let_def)
  have crypto: "crypto_ok ?P" using pk by (simp add: packages_ok_def)
  have d: "decrypt_vault ?P key n ct = Ok plaintext" "n = dr_nonce dr"
    using encrypt_decrypt [OF crypto e] by auto
  have "cj_parse (pk_contents pk) plaintext = Ok c"
    using p pk by (auto simp: serialize_def packages_ok_def contents_json_ok_def split: sum.splits)
  moreover have "header_ok h'"
    unfolding h' using k dr d crypto_sizes [OF crypto]
    by (intro header_ok_fields(2)) (simp_all add: keyed_def draws_ok_def)
  moreover have "signed pk \<lparr>vf_header = h', vf_ciphertext = ct\<rparr>"
    using k sign_verify [OF crypto]
    by (simp add: signed_def h' keyed_def signed_data_signature)
  moreover have "get_wrapper Argon2id h' = get_wrapper Argon2id h"
    by (rule get_wrapper_cong) (simp add: h')
  ultimately have "opens pk password key c \<lparr>vf_header = h', vf_ciphertext = ct\<rparr>"
    using k c d by (simp add: opens_def keyed_def sealed_def) (simp add: h')
  with h' show ?thesis by blast
qed

lemma new_bytes_job: "new_bytes (job cfg h ct) = file_bytes \<lparr>vf_header = h, vf_ciphertext = ct\<rparr>"
  by (simp add: new_bytes_def job_def file_bytes_def)

lemma atomic_write_content:
  assumes "disk_ok d" and "atomic_write_vault j p answers d = (r, d')"
  shows "vault_bytes d' = vault_bytes d \<or> vault_bytes d' = Some (new_bytes j)"
    and "r = Ok () \<Longrightarrow> vault_bytes d' = Some (new_bytes j)"
proof -
  have "alone j d (Finished r, d')"
    using alone_run [OF alone_start [OF assms(1)]] atomic_write_run [OF assms] by metis
  then show "vault_bytes d' = vault_bytes d \<or> vault_bytes d' = Some (new_bytes j)"
    and "r = Ok () \<Longrightarrow> vault_bytes d' = Some (new_bytes j)"
    by (auto dest: alone_content) (auto simp: written_def)
qed

section \<open>Saving\<close>

definition bumped :: "draws \<Rightarrow> vault_header \<Rightarrow> vault_header" where
  "bumped dr h = h\<lparr>vh_counter := vh_counter h + 1, vh_created_ms := dr_now dr\<rparr>"

lemma keyed_fields:
  "keyed pk password key h \<Longrightarrow> keyed pk password key (bumped dr h)"
  by (simp add: keyed_def bumped_def header_ok_fields get_wrapper_def)

lemma save_effect:
  assumes pk: "packages_ok pk" and dr: "draws_ok dr" and u: "unlocked_ok pk password u"
    and d: "disk_ok (vw_disk w)" and s: "save pk cfg dr (u, w) = (r, u', w')"
  shows "uv_key u' = uv_key u \<and> uv_contents u' = uv_contents u
    \<and> vh_counter (uv_header u') = vh_counter (uv_header u) + 1 \<and> vw_limiter w' = vw_limiter w
    \<and> (r = Ok () \<longrightarrow> (\<exists>ct. holds w' \<lparr>vf_header = uv_header u', vf_ciphertext = ct\<rparr>
          \<and> opens pk password (uv_key u) (uv_contents u) \<lparr>vf_header = uv_header u', vf_ciphertext = ct\<rparr>)
        \<and> vw_keychain w' = store_counter (vw_keychain w) (vc_account cfg) (vh_counter (uv_header u'))
            (vh_created_ms (uv_header u')) (vc_use_keychain cfg)
        \<and> unlocked_ok pk password u')
    \<and> (r \<noteq> Ok () \<longrightarrow> vw_keychain w' = vw_keychain w
        \<and> (vault_bytes (vw_disk w') = vault_bytes (vw_disk w)
           \<or> (\<exists>f. holds w' f \<and> opens pk password (uv_key u) (uv_contents u) f)))"
proof -
  let ?h = "bumped dr (uv_header u)"
  have k: "keyed pk password (uv_key u) ?h" and c: "verify_canary (vh_canary ?h) (uv_contents u)"
    using u keyed_fields by (simp_all add: unlocked_ok_def bumped_def)
  show ?thesis
  proof (cases "rbind (serialize pk (uv_contents u)) (\<lambda>plaintext. seal_vault pk dr (uv_key u) plaintext ?h)")
    case (Inl e)
    with s show ?thesis by (auto simp: save_def bumped_def)
  next
    case (Inr hc)
    obtain h ct where hc: "hc = (h, ct)" by (cases hc)
    with Inr obtain pt where "serialize pk (uv_contents u) = Ok pt" "seal_vault pk dr (uv_key u) pt ?h = Ok (h, ct)"
      by (auto simp: rbind_Inr_iff)
    from seal_effect [OF pk dr k c this] obtain n sg where
      o: "opens pk password (uv_key u) (uv_contents u) \<lparr>vf_header = h, vf_ciphertext = ct\<rparr>"
      and h: "h = ?h\<lparr>vh_nonce := n, vh_signature := sg\<rparr>" by blast
    obtain r0 d0 where a: "atomic_write_vault (job cfg h ct) (dr_pid dr) (dr_answers dr) (vw_disk w) = (r0, d0)"
      by fastforce
    note content = atomic_write_content [OF d a, unfolded new_bytes_job]
    have u': "u' = u\<lparr>uv_header := h\<rparr>" and r: "r0 = r"
      and w': "w' = (case r0 of Inl e \<Rightarrow> w\<lparr>vw_disk := d0\<rparr>
         | Inr _ \<Rightarrow> w\<lparr>vw_disk := d0, vw_keychain := store_counter (vw_keychain w) (vc_account cfg)
                                   (vh_counter h) (vh_created_ms h) (vc_use_keychain cfg)\<rparr>)"
      using s Inr a by (auto simp: save_def bumped_def hc Let_def split: sum.splits)
    have ok: "r = Ok () \<Longrightarrow> holds w' \<lparr>vf_header = h, vf_ciphertext = ct\<rparr>"
      using content(2) r by (simp add: w' holds_def)
    have err: "r \<noteq> Ok () \<Longrightarrow> vault_bytes (vw_disk w') = vault_bytes (vw_disk w)
        \<or> holds w' \<lparr>vf_header = h, vf_ciphertext = ct\<rparr>"
      using content(1) r by (auto simp: w' holds_def split: sum.splits)
    have "unlocked_ok pk password u'"
      using o c by (simp add: unlocked_ok_def u' opens_def sealed_def)
    moreover have "vh_counter h = vh_counter (uv_header u) + 1"
      by (simp add: h bumped_def)
    moreover have "r = Ok () \<Longrightarrow> vw_keychain w' = store_counter (vw_keychain w) (vc_account cfg) (vh_counter h)
            (vh_created_ms h) (vc_use_keychain cfg)" and "r \<noteq> Ok () \<Longrightarrow> vw_keychain w' = vw_keychain w"
      and "vw_limiter w' = vw_limiter w"
      using r by (auto simp: w' split: sum.splits)
    ultimately show ?thesis using o ok err by (auto simp: u')
  qed
qed

lemma seal_time: "seal_vault pk dr key p h = Ok (h', ct) \<Longrightarrow> vh_created_ms h' = vh_created_ms h"
  by (auto simp: seal_vault_def rbind_Inr_iff Let_def)

lemma save_time: "save pk cfg dr (u, w) = (Ok (), u', w') \<Longrightarrow> vh_created_ms (uv_header u') = dr_now dr"
  by (auto simp: save_def Let_def rbind_Inr_iff dest!: seal_time split: sum.splits prod.splits)

lemma seal_header:
  "seal_vault pk dr key p h = Ok (h', ct) \<Longrightarrow> vh_wrappers h' = vh_wrappers h \<and> vh_key_version h' = vh_key_version h"
  by (auto simp: seal_vault_def rbind_Inr_iff Let_def)

lemma save_header:
  "save pk cfg dr (u, w) = (Ok (), u', w') \<Longrightarrow>
   vh_wrappers (uv_header u') = vh_wrappers (uv_header u) \<and> vh_key_version (uv_header u') = vh_key_version (uv_header u)"
  by (auto simp: save_def Let_def rbind_Inr_iff dest!: seal_header split: sum.splits prod.splits)

section \<open>Creating\<close>

lemma hex_digit_ascii: "n < 16 \<Longrightarrow> hex_digit n < 0x80"
  by (auto simp: hex_digit_def word_less_nat_alt unat_plus_if')

lemma hex_encode_ascii: "\<forall>b \<in> set (hex_encode bs). b < 0x80"
proof -
  have "unat (b :: u8) div 16 < 16" for b
  proof -
    have "unat b < 256" using unsigned_less [of b] by simp
    then show ?thesis by simp
  qed
  then show ?thesis by (auto simp: hex_encode_def intro!: hex_digit_ascii)
qed

lemma length_hex_encode: "length (hex_encode bs) = 2 * length bs"
  by (induction bs) (simp_all add: hex_encode_def)

lemma canary_fits: "str_fits (generate_canary bs)"
proof -
  have "\<forall>b \<in> set (generate_canary bs). b < 0x80"
    using hex_encode_ascii by (auto simp: generate_canary_def lit_def)
  then have "valid_utf8 (generate_canary bs)" by (rule valid_utf8_ascii)
  moreover have "length (generate_canary bs) \<le> 65535"
    by (simp add: generate_canary_def length_hex_encode min_def)
  ultimately show ?thesis by (simp add: str_fits_def)
qed

lemma wrapper_new_Ok: "wrapper_new t d = Ok w \<Longrightarrow> w = \<lparr>w_type = t, w_data = d\<rparr> \<and> wrapper_ok w"
  by (auto simp: wrapper_new_def wrapper_ok_def split: if_splits)

lemma tpm_first_cases: "tpm_first pk cfg key ws = ws \<or> (\<exists>w. tpm_first pk cfg key ws = w # ws \<and> w_type w = Tpm2 \<and> wrapper_ok w)"
  by (auto simp: tpm_first_def dest: wrapper_new_Ok split: sum.splits)

lemma unwrap_length: "unwrap_argon2id P w pw salt params = Ok key \<Longrightarrow> length key = KEY_LEN"
  by (auto simp: unwrap_argon2id_def rbind_Inr_iff split: if_splits)

definition fresh_contents :: "draws \<Rightarrow> contents" where
  "fresh_contents dr = \<lparr>ct_passwords = Map.empty, ct_canary = Some (generate_canary (dr_canary dr))\<rparr>"

lemma new_vault_opens:
  assumes pk: "packages_ok pk" and dr: "draws_ok dr" and n: "new_vault pk cfg dr password = Ok (h, ct)"
  shows "opens pk password (dr_key dr) (fresh_contents dr) \<lparr>vf_header = h, vf_ciphertext = ct\<rparr>
    \<and> vh_counter h = 0 \<and> vh_created_ms h = dr_now dr"
proof -
  let ?P = "pk_prim pk" and ?can = "generate_canary (dr_canary dr)" and ?ps = "config_params cfg dr"
  have crypto: "crypto_ok ?P" using pk by (simp add: packages_ok_def)
  have c: "set_canary ?can contents_default = fresh_contents dr"
    by (simp add: set_canary_def contents_default_def fresh_contents_def)
  obtain wd wr h0 pt where
    wd: "wrap_argon2id ?P (dr_wrap_nonce dr) (dr_key dr) password (dr_salt dr) ?ps = Ok wd"
    and wr: "wrapper_new Argon2id wd = Ok wr"
    and h0: "new_with_canary (derive_verifying_key ?P (dr_key dr)) (dr_salt dr) ?ps
               (tpm_first pk cfg (dr_key dr) [wr]) ?can (dr_now dr) = Ok h0"
    and pt: "serialize pk (fresh_contents dr) = Ok pt"
    and s: "seal_vault pk dr (dr_key dr) pt h0 = Ok (h, ct)"
    using n by (auto simp: new_vault_def rbind_Inr_iff Let_def c)
  have w: "wr = \<lparr>w_type = Argon2id, w_data = wd\<rparr>" "wrapper_ok wr" using wrapper_new_Ok [OF wr] by auto
  have unwrap: "unwrap_argon2id ?P wd password (dr_salt dr) ?ps = Ok (dr_key dr)"
    using wrap_unwrap_lemma [OF crypto _ _ wd] dr by (simp add: draws_ok_def)
  have h: "h0 = \<lparr>vh_magic = VAULT_MAGIC, vh_version = CURRENT_VERSION, vh_key_version = 0,
               vh_created_ms = dr_now dr, vh_counter = 0, vh_salt = dr_salt dr, vh_params = ?ps,
               vh_wrappers = tpm_first pk cfg (dr_key dr) [wr], vh_nonce = replicate NONCE_LEN 0,
               vh_pk = derive_verifying_key ?P (dr_key dr),
               vh_signature = replicate SIGNATURE_LEN 0, vh_canary = ?can\<rparr>"
    using h0 by (simp add: new_with_canary_def split: if_splits)
  have "header_ok h0"
    using tpm_first_cases [of pk cfg "dr_key dr" "[wr]"] w(2) dr crypto_sizes(1) [OF crypto] canary_fits
    by (auto simp: h header_ok_def draws_ok_def MAX_WRAPPERS_def)
  moreover have "get_wrapper Argon2id h0 = Some wr"
    using tpm_first_cases [of pk cfg "dr_key dr" "[wr]"] w(1) by (auto simp: h get_wrapper_def)
  ultimately have "keyed pk password (dr_key dr) h0"
    using unwrap by (simp add: keyed_def w) (simp add: h)
  moreover have "verify_canary (vh_canary h0) (fresh_contents dr)"
    by (simp add: h verify_canary_def fresh_contents_def)
  ultimately have "opens pk password (dr_key dr) (fresh_contents dr) \<lparr>vf_header = h, vf_ciphertext = ct\<rparr>
      \<and> (\<exists>n sg. h = h0\<lparr>vh_nonce := n, vh_signature := sg\<rparr>)"
    by (rule seal_effect [OF pk dr _ _ pt s])
  then show ?thesis by (auto simp: h)
qed

lemma initialize_holds:
  assumes "packages_ok pk" and "draws_ok dr" and "disk_ok (vw_disk w)"
    and "initialize pk cfg dr password w = (Ok (), w')"
  obtains f where "holds w' f" and "opens pk password (dr_key dr) (fresh_contents dr) f"
    and "vh_counter (vf_header f) = 0" and "vh_created_ms (vf_header f) = dr_now dr"
    and "vw_limiter w' = vw_limiter w" and "vw_keychain w' = vw_keychain w"
proof -
  obtain h ct where n: "new_vault pk cfg dr password = Ok (h, ct)"
    and a: "atomic_write_vault (job cfg h ct) (dr_pid dr) (dr_answers dr) (vw_disk w) = (Ok (), vw_disk w')"
    and w': "vw_limiter w' = vw_limiter w" "vw_keychain w' = vw_keychain w"
    using assms(4)
    by (auto simp: initialize_def rbind_Inr_iff rbind_def split: if_splits sum.splits prod.splits)
  have "holds w' \<lparr>vf_header = h, vf_ciphertext = ct\<rparr>"
    using atomic_write_content(2) [OF assms(3) a] by (simp add: holds_def new_bytes_job)
  with new_vault_opens [OF assms(1,2) n] w' show ?thesis using that by fastforce
qed

section \<open>Opening\<close>

definition admitted :: "packages \<Rightarrow> vault_config \<Rightarrow> draws \<Rightarrow> vault_manager \<times> vault_world \<Rightarrow> bool" where
  "admitted pk cfg dr vw \<longleftrightarrow>
     check_lockout (vm_lockout (ensure_lockout_loaded pk cfg (snd vw) (fst vw))) (dr_attempt dr) = Ok ()"

definition anchor_allows :: "vault_config \<Rightarrow> vault_world \<Rightarrow> vault_header \<Rightarrow> bool" where
  "anchor_allows cfg w h \<longleftrightarrow>
     fst (check_counter (vw_keychain w) (vc_account cfg) (vh_counter h) (vh_created_ms h) (vc_use_keychain cfg)) = Ok ()"

lemma unlock_verified:
  assumes "read_verified pk w = Ok f" and "admitted pk cfg dr (v, w)"
  shows "unlock_with_password pk cfg dr password (v, w) =
    (let v = ensure_lockout_loaded pk cfg w v;
         (r, guard, kc) = attempt pk cfg password f (vw_keychain w);
         (l, st) = guard_drop (pk_lockout pk) (dr_end dr) guard
                     (on_attempt (pk_lockout pk) (dr_attempt dr) (vm_lockout v, vw_limiter w))
     in (r, v\<lparr>vm_lockout := l\<rparr>, w\<lparr>vw_limiter := st, vw_keychain := kc\<rparr>))"
  using assms by (simp add: unlock_with_password_def admitted_def Let_def)

lemma on_success_clears:
  "on_success js ls = (l, st) \<Longrightarrow> lo_failed l = 0 \<and> lo_until l = 0"
  by (auto simp: on_success_def Let_def split: prod.splits)

lemma unlock_opens:
  assumes h: "holds w f" and o: "opens pk password key c f" and adm: "admitted pk cfg dr (v, w)"
    and anchor: "anchor_allows cfg w (vf_header f)"
  obtains v' w' where "unlock_with_password pk cfg dr password (v, w) =
      (Ok \<lparr>uv_key = key, uv_contents = c, uv_header = vf_header f\<rparr>, v', w')"
    and "lo_failed (vm_lockout v') = 0" and "lo_until (vm_lockout v') = 0" and "vw_disk w' = vw_disk w"
    and "vw_keychain w' = snd (check_counter (vw_keychain w) (vc_account cfg) (vh_counter (vf_header f))
           (vh_created_ms (vf_header f)) (vc_use_keychain cfg))"
proof -
  let ?u = "\<lparr>uv_key = key, uv_contents = c, uv_header = vf_header f\<rparr>"
  have rv: "read_verified pk w = Ok f"
    using h o by (intro read_verified_holds) (simp_all add: opens_def keyed_def)
  have op: "open_with_password pk password f = Ok ?u"
    using o by (intro open_opens) (simp_all add: opens_def)
  obtain kc where kc: "check_counter (vw_keychain w) (vc_account cfg) (vh_counter (vf_header f))
      (vh_created_ms (vf_header f)) (vc_use_keychain cfg) = (Ok (), kc)"
    using anchor by (cases "check_counter (vw_keychain w) (vc_account cfg) (vh_counter (vf_header f))
      (vh_created_ms (vf_header f)) (vc_use_keychain cfg)") (simp add: anchor_allows_def)
  let ?ls = "on_attempt (pk_lockout pk) (dr_attempt dr)
      (vm_lockout (ensure_lockout_loaded pk cfg w v), vw_limiter w)"
  obtain l st where l: "on_success (pk_lockout pk) ?ls = (l, st)" by fastforce
  have "unlock_with_password pk cfg dr password (v, w) =
      (Ok ?u, (ensure_lockout_loaded pk cfg w v)\<lparr>vm_lockout := l\<rparr>, w\<lparr>vw_limiter := st, vw_keychain := kc\<rparr>)"
    by (simp add: unlock_verified [OF rv adm] attempt_def op kc guard_drop_def mark_success_def l Let_def)
  from that [OF this] on_success_clears [OF l] kc show ?thesis by simp
qed

section \<open>A concrete vault\<close>

text \<open>A serializer for vaults that hold no password or one.\<close>

definition one_password :: "(rstring \<Rightarrow> rstring option)" where
  "one_password = [[0x61] \<mapsto> [0x62]]"

definition sample_contents_json :: contents_json where
  "sample_contents_json =
     \<lparr>cj_show = (\<lambda>c. case ct_canary c of
          None \<Rightarrow> Err []
        | Some x \<Rightarrow> if ct_passwords c = Map.empty then Ok (0 # x)
                    else if ct_passwords c = one_password then Ok (1 # x) else Err []),
      cj_parse = (\<lambda>b. case b of
          [] \<Rightarrow> Err []
        | t # x \<Rightarrow> Ok \<lparr>ct_passwords = (if t = 0 then Map.empty else one_password), ct_canary = Some x\<rparr>)\<rparr>"

definition sample_packages :: packages where
  "sample_packages =
     \<lparr>pk_prim = sample_primitives, pk_contents = sample_contents_json, pk_lockout = sample_json,
      pk_tpm_available = True, pk_tpm_seal = (\<lambda>k. Ok k), pk_tpm_unseal = (\<lambda>b. Ok b)\<rparr>"

lemma sample_packages_ok: "packages_ok sample_packages"
  using sample_crypto_ok sample_json_ok
  by (auto simp: packages_ok_def sample_packages_def contents_json_ok_def sample_contents_json_def
      split: option.splits if_splits)

definition sample_config :: vault_config where
  "sample_config = \<lparr>vc_account = [0x61], vc_parent = True, vc_params = Some (from_config 3 64 1),
     vc_use_keychain = True\<rparr>"

definition sample_draws :: draws where
  "sample_draws =
     \<lparr>dr_key = replicate 32 1, dr_salt = replicate 32 2, dr_canary = replicate 16 3,
      dr_wrap_nonce = replicate 12 4, dr_nonce = replicate 12 5, dr_attempt = 10, dr_end = 20, dr_now = 1000,
      dr_meminfo = None, dr_mkdir = Ok (), dr_chmod = Ok (), dr_remove = Ok (), dr_pid = 1,
      dr_answers = (\<lambda>_. Succeeds), dr_finger = FingerVerified\<rparr>"

lemma sample_draws_ok: "draws_ok sample_draws"
  by (simp add: draws_ok_def sample_draws_def vault_sizes)

definition sample_world :: vault_world where
  "sample_world = \<lparr>vw_disk = empty_disk, vw_limiter = sample_store, vw_keychain = sample_keychain\<rparr>"

lemma sample_world_ok: "disk_ok (vw_disk sample_world)"
  by (simp add: sample_world_def empty_disk_def disk_ok_def)

lemma sample_new_vault: "is_ok (new_vault sample_packages sample_config sample_draws [0x70])"
proof -
  have "validate (from_config 3 64 1) = Ok ()" using configured_params_lemma by blast
  then show ?thesis
    by (simp add: new_vault_def sample_packages_def sample_config_def sample_draws_def config_params_def
        wrap_argon2id_def to_argon2_def hash_password_def sample_primitives_def wrapper_new_def
        vault_sizes tpm_first_def new_with_canary_def serialize_def sample_contents_json_def set_canary_def
        contents_default_def seal_vault_def encrypt_vault_def Let_def)
qed

lemma sample_initialize_ok:
  assumes "dk_vault (vw_disk w) = None" and "dk_tmp (vw_disk w) = None"
    and "dk_lock (vw_disk w) (dk_next (vw_disk w)) = None"
  obtains w' where "initialize sample_packages sample_config sample_draws [0x70] w = (Ok (), w')"
    and "vw_limiter w' = vw_limiter w" and "vw_keychain w' = vw_keychain w"
proof -
  obtain h ct where n: "new_vault sample_packages sample_config sample_draws [0x70] = Ok (h, ct)"
    using sample_new_vault by (auto simp: is_ok_iff)
  obtain d where d: "atomic_write_vault (job sample_config h ct) 1 (\<lambda>_. Succeeds) (vw_disk w) = (Ok (), d)"
    using atomic_success [of "job sample_config h ct" "vw_disk w" 1] assms(2,3)
    by (auto simp: job_def sample_config_def)
  have "initialize sample_packages sample_config sample_draws [0x70] w = (Ok (), w\<lparr>vw_disk := d\<rparr>)"
    using n d assms(1) by (simp add: initialize_def vault_exists_def prepare_dir_def sample_draws_def)
  from that [OF this] show ?thesis by simp
qed

lemma sample_initialized:
  obtains w f where "initialize sample_packages sample_config sample_draws [0x70] sample_world = (Ok (), w)"
    and "holds w f" and "opens sample_packages [0x70] (dr_key sample_draws) (fresh_contents sample_draws) f"
    and "vh_counter (vf_header f) = 0" and "vh_created_ms (vf_header f) = 1000"
    and "vw_limiter w = sample_store" and "vw_keychain w = sample_keychain"
proof -
  obtain w where i: "initialize sample_packages sample_config sample_draws [0x70] sample_world = (Ok (), w)"
    by (rule sample_initialize_ok [of sample_world]) (simp_all add: sample_world_def empty_disk_def)
  from initialize_holds [OF sample_packages_ok sample_draws_ok sample_world_ok i] that [OF i] show ?thesis
    by (metis (no_types, lifting) draws.select_convs(8) sample_draws_def sample_world_def
        vault_world.select_convs(2,3))
qed

lemma on_attempt_store:
  "on_attempt js now (s, st) = (s', st') \<Longrightarrow> st' = lockout_save js s' st \<and> lo_use_keychain s' = lo_use_keychain s"
  by (auto simp: on_attempt_def Let_def)

lemma guard_drop_stored:
  assumes "guard_drop js t g (on_attempt js now (s, st)) = (s', st')" and "lockout_json_ok js" and "store_works st"
  shows "lockout_load js st' (lo_use_keychain s) = s'"
proof -
  obtain s1 st1 where a: "on_attempt js now (s, st) = (s1, st1)" by fastforce
  note b = on_attempt_store [OF a]
  have "st' = lockout_save js s' st1 \<and> lo_use_keychain s' = lo_use_keychain s1"
    using assms(1) a by (auto simp: guard_drop_def on_success_def on_failure_recorded_def Let_def split: if_splits)
  with load_save [OF assms(2), of st1 s'] save_works [OF assms(3)] b show ?thesis by simp
qed

lemma guard_drop_failure:
  "guard_drop js t guard_new (on_attempt js now (s, st)) = (s', st') \<Longrightarrow>
   lo_failed s' = lo_failed s + 1 \<and> lo_until s \<le> lo_until s'"
  by (auto simp: guard_drop_def guard_new_def on_failure_recorded_def on_attempt_def Let_def le_max_iff_disj)

lemma check_counter_result:
  "fst (check_counter kc a c t b) = Ok () \<or> (\<exists>x y. fst (check_counter kc a c t b) = Err (RollbackDetected x y))"
  by (auto simp: check_counter_def check_counter_in_def split: anchor_read.splits option.splits)

lemma attempt_success:
  assumes "open_with_password pk password f = Ok u" and "attempt pk cfg password f kc = (r, g, kc')"
  shows "g = mark_success guard_new \<and> (r = Ok u \<or> (\<exists>a b. r = Err (RollbackDetected a b)))"
proof -
  let ?c = "check_counter kc (vc_account cfg) (vh_counter (uv_header u)) (vh_created_ms (uv_header u)) (vc_use_keychain cfg)"
  obtain r0 k0 where c: "?c = (r0, k0)" by fastforce
  have "r0 = Ok () \<or> (\<exists>x y. r0 = Err (RollbackDetected x y))"
    using check_counter_result [of kc "vc_account cfg" "vh_counter (uv_header u)" "vh_created_ms (uv_header u)" "vc_use_keychain cfg"] c
    by simp
  with assms c show ?thesis by (auto simp: attempt_def Let_def)
qed

lemma load_header:
  assumes "decrypt_and_load pk key f = Ok u"
  shows "uv_header u = vf_header f"
proof (cases "decrypt_vault (pk_prim pk) key (vh_nonce (vf_header f)) (vf_ciphertext f)")
  case (Inr b)
  with assms show ?thesis
    by (cases "cj_parse (pk_contents pk) b") (auto simp: decrypt_and_load_def split: if_splits)
qed (use assms in \<open>simp add: decrypt_and_load_def\<close>)

section \<open>Properties\<close>

lemma anchor_allows_behind:
  "entry_behind (vw_keychain w) (vc_account cfg) (vh_counter h) (vh_created_ms h) \<Longrightarrow> anchor_allows cfg w h"
  using kc.behind_accepts entry_behind_kc by (simp add: anchor_allows_def check_counter_def)

lemma sample_admitted:
  "vw_limiter w = sample_store \<Longrightarrow> admitted sample_packages sample_config sample_draws (vault_new sample_config, w)"
  by (simp add: admitted_def ensure_lockout_loaded_def vault_new_def sample_store_def lockout_load_def
      of_pair_def check_lockout_def)

lemma sample_anchor: "entry_behind sample_keychain a c t"
  by (simp add: entry_behind_def sample_keychain_def)

text \<open>A vault that was created opens with the password it was created with, to the key that was
  drawn for it and no stored passwords, provided the limiter admits the attempt and the anchor
  does not hold a later vault at that path; and opening it clears the limiter.\<close>

theorem created_vault_unlocks:
  assumes "packages_ok pk" and "draws_ok dr" and "disk_ok (vw_disk w)"
    and "initialize pk cfg dr password w = (Ok (), w')"
    and "entry_behind (vw_keychain w) (vc_account cfg) 0 (dr_now dr)" and "admitted pk cfg dr' (v, w')"
  shows "\<exists>u v'' w''. unlock_with_password pk cfg dr' password (v, w') = (Ok u, v'', w'')
    \<and> uv_key u = dr_key dr \<and> contents_hosts (uv_contents u) = {} \<and> lo_failed (vm_lockout v'') = 0"
proof -
  obtain f where f: "holds w' f" "opens pk password (dr_key dr) (fresh_contents dr) f"
    and h: "vh_counter (vf_header f) = 0" "vh_created_ms (vf_header f) = dr_now dr"
    and k: "vw_keychain w' = vw_keychain w"
    by (rule initialize_holds [OF assms(1-4)])
  have "anchor_allows cfg w' (vf_header f)"
    using assms(5) h k by (intro anchor_allows_behind) simp
  from unlock_opens [OF f assms(6) this] show ?thesis
    by (fastforce simp: contents_hosts_def fresh_contents_def)
qed

lemma created_vault_unlocks_witness:
  "\<exists>w u v w'. unlock_with_password sample_packages sample_config sample_draws [0x70] (vault_new sample_config, w) = (Ok u, v, w')
     \<and> uv_key u = replicate 32 1"
proof -
  obtain w f where i: "initialize sample_packages sample_config sample_draws [0x70] sample_world = (Ok (), w)"
    and l: "vw_limiter w = sample_store"
    by (rule sample_initialized)
  have "entry_behind (vw_keychain sample_world) (vc_account sample_config) 0 (dr_now sample_draws)"
    by (simp add: sample_world_def sample_anchor)
  from created_vault_unlocks [OF sample_packages_ok sample_draws_ok sample_world_ok i this sample_admitted [OF l]]
  show ?thesis by (auto simp: sample_draws_def)
qed

lemma set_password_ok: "unlocked_ok pk password u \<Longrightarrow> unlocked_ok pk password (u\<lparr>uv_contents := contents_set host secret (uv_contents u)\<rparr>)"
  by (simp add: unlocked_ok_def verify_canary_def contents_set_def)


definition sample_unlocked :: "vault_header \<Rightarrow> unlocked_vault" where
  "sample_unlocked h = \<lparr>uv_key = dr_key sample_draws, uv_contents = fresh_contents sample_draws, uv_header = h\<rparr>"

lemma sample_unlocked_ok:
  obtains h where "unlocked_ok sample_packages [0x70] (sample_unlocked h)" and "vh_counter h = 0"
proof -
  obtain f where "opens sample_packages [0x70] (dr_key sample_draws) (fresh_contents sample_draws) f"
    "vh_counter (vf_header f) = 0"
    by (rule sample_initialized)
  then show ?thesis
    using that [of "vf_header f"] by (simp add: unlocked_ok_def opens_def sealed_def sample_unlocked_def)
qed

lemma sample_saves:
  "\<exists>u' w'. set_password sample_packages sample_config sample_draws [0x61] [0x62] (sample_unlocked h, sample_world)
     = (Ok (), u', w') \<and> vw_limiter w' = sample_store"
proof -
  let ?c = "contents_set [0x61] [0x62] (fresh_contents sample_draws)"
  have "is_ok (serialize sample_packages ?c)"
    by (simp add: serialize_def sample_packages_def sample_contents_json_def contents_set_def fresh_contents_def
        one_password_def)
  then obtain p where p: "serialize sample_packages ?c = Ok p" by (auto simp: is_ok_iff)
  let ?h = "bumped sample_draws h"
  have "is_ok (seal_vault sample_packages sample_draws (dr_key sample_draws) p ?h)"
    by (simp add: seal_vault_def encrypt_vault_def sample_packages_def sample_primitives_def Let_def)
  then obtain h' ct where s: "seal_vault sample_packages sample_draws (dr_key sample_draws) p ?h = Ok (h', ct)"
    by (auto simp: is_ok_iff)
  obtain d where "atomic_write_vault (job sample_config h' ct) 1 (\<lambda>_. Succeeds) empty_disk = (Ok (), d)"
    using atomic_success [of "job sample_config h' ct" empty_disk 1]
    by (auto simp: job_def sample_config_def empty_disk_def)
  then have "atomic_write_vault (job sample_config h' ct) (dr_pid sample_draws) (dr_answers sample_draws)
      (vw_disk sample_world) = (Ok (), d)"
    by (simp add: sample_draws_def sample_world_def)
  with p s show ?thesis
    by (simp add: set_password_def save_def bumped_def sample_unlocked_def Let_def)
       (simp add: sample_world_def)
qed


text \<open>Saving is all or nothing for the vault and its anchor: when storing a password fails, at
  whatever step, the file at the vault's path is the one from before or a complete vault that
  opens with the master password to the new contents, and the anchor has not moved, so that the
  vault that is there is not refused for the failure.\<close>

theorem failed_save_is_harmless:
  assumes "packages_ok pk" and "draws_ok dr" and "disk_ok (vw_disk w)" and "unlocked_ok pk password u"
    and "set_password pk cfg dr host secret (u, w) = (Err e, u', w')"
  shows "vw_keychain w' = vw_keychain w
    \<and> (vault_bytes (vw_disk w') = vault_bytes (vw_disk w)
       \<or> (\<exists>f. holds w' f \<and> opens pk password (uv_key u) (contents_set host secret (uv_contents u)) f))"
proof -
  let ?u = "u\<lparr>uv_contents := contents_set host secret (uv_contents u)\<rparr>"
  have "save pk cfg dr (?u, w) = (Err e, u', w')" using assms(5) by (simp add: set_password_def)
  from save_effect [OF assms(1,2) set_password_ok [OF assms(4)] assms(3) this] show ?thesis by simp
qed

lemma failed_save_is_harmless_witness:
  "\<exists>u u' w'. set_password sample_packages sample_config sample_draws [0x63] [0x62] (u, sample_world)
     = (Err (Serialization []), u', w') \<and> vw_keychain w' = sample_keychain"
proof -
  obtain h where u: "unlocked_ok sample_packages [0x70] (sample_unlocked h)"
    by (rule sample_unlocked_ok)
  have "[[0x63] \<mapsto> [0x62]] \<noteq> one_password"
    by (auto simp: one_password_def dest: fun_cong [of _ _ "[0x61]"])
  then have "serialize sample_packages (contents_set [0x63] [0x62] (fresh_contents sample_draws)) = Err (Serialization [])"
    by (simp add: serialize_def sample_packages_def sample_contents_json_def contents_set_def fresh_contents_def)
  then obtain u' w' where s: "set_password sample_packages sample_config sample_draws [0x63] [0x62]
      (sample_unlocked h, sample_world) = (Err (Serialization []), u', w')"
    by (simp add: set_password_def save_def sample_unlocked_def Let_def)
  from failed_save_is_harmless [OF sample_packages_ok sample_draws_ok sample_world_ok u s]
  have "vw_keychain w' = sample_keychain" by (simp add: sample_world_def)
  with s show ?thesis by blast
qed

text \<open>Changing the password changes only what opens the vault: when it reports success, the new
  password opens the vault on disk, to the key and the contents the old one opened it to, and
  the wrappers of other kinds are the ones that were there, so that what they open still opens.\<close>

theorem changed_password_opens:
  assumes pk: "packages_ok pk" and dr: "draws_ok dr" and d: "disk_ok (vw_disk w)"
    and h: "holds w f" and o: "opens pk old key c f"
    and ch: "change_password pk cfg dr old new (v, w) = (Ok (), v', w')"
  shows "\<exists>f'. holds w' f' \<and> opens pk new key c f'
    \<and> (\<forall>t. t \<noteq> Argon2id \<longrightarrow> get_wrapper t (vf_header f') = get_wrapper t (vf_header f))
    \<and> vh_key_version (vf_header f') = vh_key_version (vf_header f) + 1"
proof -
  obtain u v1 w1 u' where un: "unlock_with_password pk cfg dr old (v, w) = (Ok u, v1, w1)"
    and nw: "new_wrapper pk cfg dr new u = Ok u'" and sv: "\<exists>u2. save pk cfg dr (u', w1) = (Ok (), u2, w')"
    using ch by (auto simp: change_password_def Let_def split: prod.splits sum.splits)
  have rv: "read_verified pk w = Ok f"
    using h o by (intro read_verified_holds) (simp_all add: opens_def keyed_def)
  have u: "u = \<lparr>uv_key = key, uv_contents = c, uv_header = vf_header f\<rparr>" and w1: "vw_disk w1 = vw_disk w"
    using un open_opens [of pk old key f c] o
    by (auto simp: unlock_with_password_def rv attempt_def opens_def Let_def split: sum.splits prod.splits)
  let ?h0 = "(vf_header f)\<lparr>vh_salt := dr_salt dr, vh_params := config_params cfg dr\<rparr>"
  obtain wd wr h1 where wd: "wrap_argon2id (pk_prim pk) (dr_wrap_nonce dr) key new (dr_salt dr) (config_params cfg dr) = Ok wd"
    and wr: "wrapper_new Argon2id wd = Ok wr" and rp: "replace_wrapper wr ?h0 = Ok h1"
    and u': "u' = u\<lparr>uv_header := h1\<lparr>vh_key_version := vh_key_version h1 + 1\<rparr>\<rparr>"
    using nw by (auto simp: new_wrapper_def u rbind_Inr_iff Let_def)
  have wr': "wr = \<lparr>w_type = Argon2id, w_data = wd\<rparr>" "wrapper_ok wr" using wrapper_new_Ok [OF wr] by auto
  have h1: "h1 = put_wrapper wr ?h0" using rp by (simp add: replace_wrapper_def split: if_splits)
  have keyed: "keyed pk old key (vf_header f)" and can: "verify_canary (vh_canary (vf_header f)) c"
    using o by (simp_all add: opens_def sealed_def)
  have crypto: "crypto_ok (pk_prim pk)" using pk by (simp add: packages_ok_def)
  have len: "length key = KEY_LEN" using keyed unwrap_length by (auto simp: keyed_def)
  have ok0: "header_ok ?h0" using keyed dr by (intro header_ok_fields(3)) (simp_all add: keyed_def draws_ok_def)
  have has: "list_ex (\<lambda>x. w_type x = w_type wr) (vh_wrappers ?h0)"
    using keyed wr' by (auto simp: keyed_def get_wrapper_def list_ex_iff find_Some_iff)
  have "length (vh_wrappers (put_wrapper wr ?h0)) \<le> MAX_WRAPPERS"
    using put_wrapper_length [OF has] ok0 by (simp add: header_ok_def)
  then have ok1: "header_ok h1" unfolding h1 by (intro put_wrapper_ok ok0 wr'(2))
  have "unwrap_argon2id (pk_prim pk) wd new (dr_salt dr) (config_params cfg dr) = Ok key"
    using wrap_unwrap_lemma [OF crypto len _ wd] dr by (simp add: draws_ok_def)
  moreover have "get_wrapper Argon2id h1 = Some wr"
    using put_wrapper_facts(1) [of wr ?h0] wr'(1) by (simp add: h1)
  moreover have same: "vh_salt h1 = dr_salt dr" "vh_params h1 = config_params cfg dr" "vh_pk h1 = vh_pk (vf_header f)"
    "vh_canary h1 = vh_canary (vf_header f)" "vh_key_version h1 = vh_key_version (vf_header f)"
    by (simp_all add: h1 put_wrapper_def)
  ultimately have "keyed pk new key (uv_header u')"
    using keyed ok1 wr'(1) by (simp add: keyed_def u' header_ok_fields(4) get_wrapper_def)
  then have uo: "unlocked_ok pk new u'"
    using can same by (simp add: unlocked_ok_def u' u)
  obtain u2 where s: "save pk cfg dr (u', w1) = (Ok (), u2, w')" using sv by blast
  have d1: "disk_ok (vw_disk w1)" using d w1 by simp
  from save_effect [OF pk dr uo d1 s] obtain ct where
    "holds w' \<lparr>vf_header = uv_header u2, vf_ciphertext = ct\<rparr>"
    "opens pk new key c \<lparr>vf_header = uv_header u2, vf_ciphertext = ct\<rparr>"
    by (auto simp: u' u)
  moreover have "vh_wrappers (uv_header u2) = vh_wrappers (uv_header u')"
    "vh_key_version (uv_header u2) = vh_key_version (uv_header u')"
    using save_header [OF s] by simp_all
  moreover have "t \<noteq> Argon2id \<Longrightarrow> get_wrapper t (uv_header u') = get_wrapper t (vf_header f)" for t
    using put_wrapper_facts(2) [of t wr ?h0] wr'(1) by (simp add: u' h1 get_wrapper_def)
  ultimately show ?thesis
    using same(5) by (intro exI [of _ "\<lparr>vf_header = uv_header u2, vf_ciphertext = ct\<rparr>"])
      (auto simp: u' get_wrapper_def)
qed

text \<open>A world whose disk holds one file, with nothing else on it.\<close>

definition disk_with :: "bytes \<Rightarrow> disk" where
  "disk_with bs = \<lparr>dk_tmp = None, dk_vault = Some 0, dk_data = (\<lambda>_. bs), dk_lock = (\<lambda>_. None), dk_next = 1\<rparr>"

definition world_with :: "vault_file \<Rightarrow> vault_world" where
  "world_with f = sample_world\<lparr>vw_disk := disk_with (file_bytes f)\<rparr>"

lemma world_with_facts [simp]:
  "holds (world_with f) f" "disk_ok (vw_disk (world_with f))" "vw_limiter (world_with f) = sample_store"
  "vw_keychain (world_with f) = sample_keychain"
  by (simp_all add: world_with_def holds_def disk_with_def vault_bytes_def disk_ok_def sample_world_def)

lemma sample_saves_at:
  assumes "uv_contents u = fresh_contents sample_draws"
    and "dk_tmp (vw_disk w) = None" and "dk_lock (vw_disk w) (dk_next (vw_disk w)) = None"
  shows "\<exists>u' w'. save sample_packages sample_config sample_draws (u, w) = (Ok (), u', w')"
proof -
  have "is_ok (serialize sample_packages (uv_contents u))"
    by (simp add: assms(1) serialize_def sample_packages_def sample_contents_json_def fresh_contents_def)
  then obtain p where p: "serialize sample_packages (uv_contents u) = Ok p" by (auto simp: is_ok_iff)
  have "is_ok (seal_vault sample_packages sample_draws (uv_key u) p (bumped sample_draws (uv_header u)))"
    by (simp add: seal_vault_def encrypt_vault_def sample_packages_def sample_primitives_def Let_def)
  then obtain h' ct where s: "seal_vault sample_packages sample_draws (uv_key u) p (bumped sample_draws (uv_header u))
      = Ok (h', ct)"
    by (auto simp: is_ok_iff)
  obtain d where "atomic_write_vault (job sample_config h' ct) 1 (\<lambda>_. Succeeds) (vw_disk w) = (Ok (), d)"
    using atomic_success [of "job sample_config h' ct" "vw_disk w" 1] assms(2,3)
    by (auto simp: job_def sample_config_def)
  with p s show ?thesis
    by (simp add: save_def bumped_def Let_def sample_draws_def)
qed

lemma changed_password_opens_witness:
  "\<exists>v w v' w' f. change_password sample_packages sample_config sample_draws [0x70] [0x71] (v, w) = (Ok (), v', w')
     \<and> holds w' f \<and> opens sample_packages [0x71] (dr_key sample_draws) (fresh_contents sample_draws) f"
proof -
  let ?v = "vault_new sample_config"
  obtain f where o: "opens sample_packages [0x70] (dr_key sample_draws) (fresh_contents sample_draws) f"
    by (rule sample_initialized)
  let ?w = "world_with f"
  let ?u = "\<lparr>uv_key = dr_key sample_draws, uv_contents = fresh_contents sample_draws, uv_header = vf_header f\<rparr>"
  have "anchor_allows sample_config ?w (vf_header f)"
    by (intro anchor_allows_behind) (simp add: sample_anchor)
  then obtain v1 w1 where un: "unlock_with_password sample_packages sample_config sample_draws [0x70] (?v, ?w)
      = (Ok ?u, v1, w1)" and w1: "vw_disk w1 = vw_disk ?w"
    using unlock_opens [OF world_with_facts(1) o sample_admitted [OF world_with_facts(3)]] by metis
  have "validate (from_config 3 64 1) = Ok ()" using configured_params_lemma by blast
  then have "is_ok (new_wrapper sample_packages sample_config sample_draws [0x71] ?u)"
    by (simp add: new_wrapper_def sample_packages_def sample_config_def sample_draws_def config_params_def
        wrap_argon2id_def to_argon2_def hash_password_def sample_primitives_def wrapper_new_def
        vault_sizes replace_wrapper_def Let_def)
  then obtain u' where u': "new_wrapper sample_packages sample_config sample_draws [0x71] ?u = Ok u'"
    by (auto simp: is_ok_iff)
  have c: "uv_contents u' = fresh_contents sample_draws"
    using u' by (auto simp: new_wrapper_def rbind_Inr_iff Let_def)
  obtain u2 w2 where "save sample_packages sample_config sample_draws (u', w1) = (Ok (), u2, w2)"
    using sample_saves_at [OF c, of w1] w1 by (auto simp: world_with_def disk_with_def)
  then have ch: "change_password sample_packages sample_config sample_draws [0x70] [0x71] (?v, ?w) = (Ok (), v1, w2)"
    by (simp add: change_password_def un u')
  from changed_password_opens [OF sample_packages_ok sample_draws_ok world_with_facts(2) world_with_facts(1) o ch] ch
  show ?thesis by blast
qed



text \<open>
  What someone can make of a vault file without its password or its key: the counter and the
  timestamp they like, a public key of their own, and a signature made with it.
\<close>

definition forge :: "primitives \<Rightarrow> key \<Rightarrow> u32 \<Rightarrow> u64 \<Rightarrow> vault_file \<Rightarrow> vault_file" where
  "forge P seed c t f =
     (let h = (vf_header f)\<lparr>vh_counter := c, vh_created_ms := t, vh_pk := pr_verifying P seed\<rparr>
      in f\<lparr>vf_header := h\<lparr>vh_signature := pr_sign P seed (signed_data h (vf_ciphertext f))\<rparr>\<rparr>)"

lemma forge_opens:
  assumes "packages_ok pk" and "opens pk password key c f"
  shows "header_ok (vf_header (forge (pk_prim pk) seed n t f)) \<and> signed pk (forge (pk_prim pk) seed n t f)
    \<and> open_with_password pk password (forge (pk_prim pk) seed n t f) =
        Ok \<lparr>uv_key = key, uv_contents = c, uv_header = vf_header (forge (pk_prim pk) seed n t f)\<rparr>"
proof -
  let ?P = "pk_prim pk"
  have crypto: "crypto_ok ?P" using assms(1) by (simp add: packages_ok_def)
  have "header_ok (vf_header f)" using assms(2) by (simp add: opens_def keyed_def)
  with crypto have "header_ok (vf_header (forge ?P seed n t f))"
    by (simp add: header_ok_def forge_def Let_def crypto_ok_def)
  moreover have "signed pk (forge ?P seed n t f)"
    using crypto by (simp add: signed_def forge_def Let_def signed_data_signature verify_vault_signature_def crypto_ok_def)
  moreover have "open_with_password pk password (forge ?P seed n t f) =
        Ok \<lparr>uv_key = key, uv_contents = c, uv_header = vf_header (forge ?P seed n t f)\<rparr>"
    using assms(2) by (auto simp: opens_def keyed_def sealed_def open_with_password_def decrypt_and_load_def
        forge_def Let_def get_wrapper_def)
  ultimately show ?thesis by simp
qed

text \<open>The signature does not keep a rolled back file out. The key it verifies under is read from the
  same header and never compared with the vault's, and the cipher does not cover the header; so
  an old copy of the vault that is refused can be given any counter and timestamp by someone
  who has neither the password nor the key, and then opens, with its old contents.\<close>

theorem forged_counter_accepted:
  assumes "packages_ok pk" and "opens pk password key c f" and "vc_use_keychain cfg"
    and "holds w f" and "holds w2 (forge (pk_prim pk) seed c1 t1 f)" and "vw_keychain w2 = vw_keychain w"
    and "keychain_read (vw_keychain w) (vc_account cfg) = Value (anchor_text c0 t0)"
    and "vh_counter (vf_header f) < c0" and "c0 \<le> c1" and "t0 \<le> t1"
    and "admitted pk cfg dr (v, w)" and "admitted pk cfg dr (v, w2)"
  shows "fst (unlock_with_password pk cfg dr password (v, w)) = Err (RollbackDetected c0 (vh_counter (vf_header f)))
    \<and> (\<exists>u. fst (unlock_with_password pk cfg dr password (v, w2)) = Ok u \<and> uv_key u = key \<and> uv_contents u = c)"
proof -
  let ?f2 = "forge (pk_prim pk) seed c1 t1 f"
  have rv: "read_verified pk w = Ok f"
    using assms(2,4) by (intro read_verified_holds) (simp_all add: opens_def keyed_def)
  have op: "open_with_password pk password f = Ok \<lparr>uv_key = key, uv_contents = c, uv_header = vf_header f\<rparr>"
    using assms(2) by (intro open_opens) (simp_all add: opens_def)
  note fo = forge_opens [OF assms(1,2), of seed c1 t1]
  have rv2: "read_verified pk w2 = Ok ?f2"
    using fo assms(5) by (intro read_verified_holds) simp_all
  have ct: "vh_counter (vf_header ?f2) = c1" "vh_created_ms (vf_header ?f2) = t1"
    by (simp_all add: forge_def Let_def)
  have c1: "check_counter (vw_keychain w) (vc_account cfg) n t True =
      (if n < c0 \<or> t < t0 then Err (RollbackDetected c0 n) else Ok (), vw_keychain w)" for n t
    using kc.stored_decides [OF assms(7)] by (simp add: check_counter_def)
  have "fst (unlock_with_password pk cfg dr password (v, w)) = Err (RollbackDetected c0 (vh_counter (vf_header f)))"
    using assms(3,8) by (simp add: unlock_verified [OF rv assms(11)] attempt_def op c1 Let_def split: prod.split)
  moreover have "fst (unlock_with_password pk cfg dr password (v, w2)) =
      Ok \<lparr>uv_key = key, uv_contents = c, uv_header = vf_header ?f2\<rparr>"
    using assms(3,6,9,10) fo
    by (simp add: unlock_verified [OF rv2 assms(12)] attempt_def c1 ct Let_def not_less split: prod.split)
  ultimately show ?thesis by simp
qed

definition anchored :: "vault_file \<Rightarrow> vault_world" where
  "anchored f = (world_with f)\<lparr>vw_keychain := store_counter sample_keychain [0x61] 5 500 True\<rparr>"

lemma anchored_facts:
  "holds (anchored f) f" "disk_ok (vw_disk (anchored f))" "vw_limiter (anchored f) = sample_store"
  "vw_keychain (anchored f) = vw_keychain (anchored g)"
  "keychain_read (vw_keychain (anchored f)) (vc_account sample_config) = Value (anchor_text 5 500)"
  using world_with_facts(1,2) [of f]
  by (simp_all add: anchored_def holds_def store_counter_def store_counter_in_def keychain_write_def sample_config_def
      keychain_read_def sample_keychain_def)

lemma forged_counter_accepted_witness:
  "\<exists>f. fst (unlock_with_password sample_packages sample_config sample_draws [0x70] (vault_new sample_config, anchored f))
       = Err (RollbackDetected 5 0)
     \<and> is_ok (fst (unlock_with_password sample_packages sample_config sample_draws [0x70]
         (vault_new sample_config, anchored (forge sample_primitives [7] 6 600 f))))"
proof -
  obtain f where o: "opens sample_packages [0x70] (dr_key sample_draws) (fresh_contents sample_draws) f"
    and z: "vh_counter (vf_header f) = 0"
    by (rule sample_initialized)
  let ?f2 = "forge sample_primitives [7] 6 600 f" and ?v = "vault_new sample_config"
  have p: "pk_prim sample_packages = sample_primitives" and u: "vc_use_keychain sample_config"
    by (simp_all add: sample_packages_def sample_config_def)
  have h2: "holds (anchored ?f2) (forge (pk_prim sample_packages) [7] 6 600 f)"
    unfolding p by (rule anchored_facts(1))
  have adm: "admitted sample_packages sample_config sample_draws (?v, anchored g)" for g
    by (rule sample_admitted) (rule anchored_facts(3))
  have "fst (unlock_with_password sample_packages sample_config sample_draws [0x70] (?v, anchored f))
        = Err (RollbackDetected 5 (vh_counter (vf_header f)))
      \<and> (\<exists>u. fst (unlock_with_password sample_packages sample_config sample_draws [0x70] (?v, anchored ?f2)) = Ok u
          \<and> uv_key u = dr_key sample_draws \<and> uv_contents u = fresh_contents sample_draws)"
    by (rule forged_counter_accepted [OF sample_packages_ok o u anchored_facts(1) h2 anchored_facts(4)
          anchored_facts(5) _ _ _ adm adm]) (simp_all add: z)
  then show ?thesis by (auto simp: z)
qed

text \<open>A vault made anew at a path is locked out by its predecessor's anchor: deleting a vault that
  had been saved and creating another in its place both succeed, and the right password for the
  new one is then answered with a rollback, whatever it is, as long as the anchor can be read.\<close>

theorem recreated_vault_refused:
  assumes "packages_ok pk" and "draws_ok dr1" and "disk_ok (vw_disk w)" and "vc_use_keychain cfg"
    and "keychain_read (vw_keychain w) (vc_account cfg) = Value (anchor_text c0 t0)" and "0 < c0"
    and "delete_vault dr0 w = (Ok (), w1)" and "initialize pk cfg dr1 password w1 = (Ok (), w2)"
    and "admitted pk cfg dr2 (v, w2)"
  shows "fst (unlock_with_password pk cfg dr2 password (v, w2)) = Err (RollbackDetected c0 0)"
proof -
  have w1: "disk_ok (vw_disk w1)" "vw_keychain w1 = vw_keychain w"
    using assms(3,7) by (auto simp: delete_vault_def disk_ok_def split: if_splits sum.splits)
  obtain f where f: "holds w2 f" "opens pk password (dr_key dr1) (fresh_contents dr1) f"
    and h: "vh_counter (vf_header f) = 0" and k: "vw_keychain w2 = vw_keychain w"
    using initialize_holds [OF assms(1,2) w1(1) assms(8)] w1(2) by metis
  have rv: "read_verified pk w2 = Ok f"
    using f by (intro read_verified_holds) (simp_all add: opens_def keyed_def)
  have op: "open_with_password pk password f =
      Ok \<lparr>uv_key = dr_key dr1, uv_contents = fresh_contents dr1, uv_header = vf_header f\<rparr>"
    using f(2) by (intro open_opens) (simp_all add: opens_def)
  have "check_counter (vw_keychain w) (vc_account cfg) 0 t True = (Err (RollbackDetected c0 0), vw_keychain w)" for t
    using kc.stored_decides [OF assms(5)] assms(6) by (simp add: check_counter_def)
  then show ?thesis
    using assms(4) by (simp add: unlock_verified [OF rv assms(9)] attempt_def op h k Let_def split: prod.split)
qed

lemma recreated_vault_refused_witness:
  "\<exists>w1 w2. initialize sample_packages sample_config sample_draws [0x70] w1 = (Ok (), w2)
     \<and> fst (unlock_with_password sample_packages sample_config sample_draws [0x70] (vault_new sample_config, w2))
         = Err (RollbackDetected 5 0)"
proof -
  obtain f where "opens sample_packages [0x70] (dr_key sample_draws) (fresh_contents sample_draws) f"
    by (rule sample_initialized)
  let ?w1 = "(anchored f)\<lparr>vw_disk := (vw_disk (anchored f))\<lparr>dk_vault := None\<rparr>\<rparr>"
  have d: "delete_vault sample_draws (anchored f) = (Ok (), ?w1)"
    by (simp add: delete_vault_def vault_exists_def anchored_def world_with_def disk_with_def sample_draws_def)
  obtain w2 where i: "initialize sample_packages sample_config sample_draws [0x70] ?w1 = (Ok (), w2)"
    and l: "vw_limiter w2 = vw_limiter ?w1"
    by (rule sample_initialize_ok [of ?w1])
       (simp_all add: anchored_def world_with_def disk_with_def)
  have a: "admitted sample_packages sample_config sample_draws (vault_new sample_config, w2)"
    using l anchored_facts(3) [of f] by (intro sample_admitted) simp
  have "vc_use_keychain sample_config" by (simp add: sample_config_def)
  from recreated_vault_refused [OF sample_packages_ok sample_draws_ok anchored_facts(2) this anchored_facts(5) _ d i a] i
  show ?thesis by auto
qed

text \<open>The finger is asked for what it can release and is obeyed: an unlock without the password
  succeeds only on a file whose signature verifies, with a wrapper for the TPM, after the reader
  verified a finger, and with the anchor's consent; and it never touches the limiter or the file.\<close>

theorem biometric_needs_finger:
  "vw_limiter (snd (unlock_biometric pk cfg dr w)) = vw_limiter w
   \<and> vw_disk (snd (unlock_biometric pk cfg dr w)) = vw_disk w
   \<and> (is_ok (fst (unlock_biometric pk cfg dr w)) \<longleftrightarrow> dr_finger dr = FingerVerified
        \<and> (\<exists>f wr key u. read_verified pk w = Ok f \<and> get_wrapper Tpm2 (vf_header f) = Some wr
             \<and> pk_tpm_unseal pk (w_data wr) = Ok key \<and> decrypt_and_load pk key f = Ok u
             \<and> anchor_allows cfg w (vf_header f)))"
  using load_header [of pk]
  by (auto simp: unlock_biometric_def try_unlock_biometric_def Let_def rbind_def anchor_allows_def is_ok_def
        split: sum.splits option.splits finger.splits prod.splits)

end
