(* ===== verification/Settings.thy ===== *)
theory Settings
  imports Vault_Ui
begin

text \<open>
  The settings panel: one list of hosts, one set of keys
  (crates/multitop/src/passwords/types.rs, passwords/actions.rs), and what each of its actions
  does (password_actions.rs): writing the server list, saving and deleting a host's password in
  the credential store and the vault, and changing the master password.

  A key press is a \<open>key\<close>; \<open>KChar\<close> carries the UTF-8 bytes of its character. Text typed into a
  field grows by a character and shrinks by one (\<open>pop_char\<close>).
\<close>

section \<open>Keys and text fields\<close>

datatype key_code =
    KChar rstring
  | KEnter
  | KEsc
  | KBackspace
  | KTab
  | KUp
  | KDown
  | KPageUp
  | KPageDown
  | KHome
  | KEnd
  | KOther

definition key_in :: "string \<Rightarrow> key_code \<Rightarrow> bool" where
  "key_in s k = (case k of KChar c \<Rightarrow> length c = 1 \<and> hd c \<in> set (lit s) | _ \<Rightarrow> False)"

fun pop_rev :: "bytes \<Rightarrow> bytes" where
  "pop_rev [] = []"
| "pop_rev (b # bs) = (if utf8_cont b then pop_rev bs else bs)"

definition pop_char :: "rstring \<Rightarrow> rstring" where
  "pop_char s = rev (pop_rev (rev s))"

definition has_whitespace :: "rstring \<Rightarrow> bool" where
  "has_whitespace s = list_ex (\<lambda>w. contains s w) ws_chars"

definition validate_host :: "rstring \<Rightarrow> (unit, rstring) result" where
  "validate_host h = rguard (\<not> has_whitespace h) (lit ''Host name must not contain whitespace.'')"

definition validate_user :: "rstring \<Rightarrow> (unit, rstring) result" where
  "validate_user u = rguard (\<not> has_whitespace u) (lit ''User name must not contain whitespace.'')"

section \<open>The editor of one host\<close>

definition DEFAULT_PORT :: u16 where "DEFAULT_PORT = 22"

definition draft_new :: "nat option \<Rightarrow> server option \<Rightarrow> rstring option \<Rightarrow> server_draft" where
  "draft_new original s password =
     \<lparr>sd_original = original,
      sd_host = (case s of Some s \<Rightarrow> sv_host s | None \<Rightarrow> []),
      sd_user = (case s of Some s \<Rightarrow> sv_user s | None \<Rightarrow> []),
      sd_port = show_nat (unat (case s of Some s \<Rightarrow> sv_port s | None \<Rightarrow> DEFAULT_PORT)),
      sd_upgrade_cmd = (case s of Some s \<Rightarrow> (case sv_upgrade_cmd s of Some c \<Rightarrow> c | None \<Rightarrow> []) | None \<Rightarrow> []),
      sd_password = (case password of Some p \<Rightarrow> p | None \<Rightarrow> []),
      sd_field = 0\<rparr>"

text \<open>\<open>active_field\<close>, as the update of the field the cursor is in.\<close>

definition update_active :: "(rstring \<Rightarrow> rstring) \<Rightarrow> server_draft \<Rightarrow> server_draft" where
  "update_active f d =
     (if sd_field d = 0 then d\<lparr>sd_host := f (sd_host d)\<rparr>
      else if sd_field d = 1 then d\<lparr>sd_user := f (sd_user d)\<rparr>
      else if sd_field d = 2 then d\<lparr>sd_port := f (sd_port d)\<rparr>
      else if sd_field d = 3 then d\<lparr>sd_upgrade_cmd := f (sd_upgrade_cmd d)\<rparr>
      else d\<lparr>sd_password := f (sd_password d)\<rparr>)"

definition port_error :: rstring where
  "port_error = lit ''Port must be between 1 and 65535.''"

definition into_server :: "server_draft \<Rightarrow> (server, rstring) result" where
  "into_server d =
     rbind (validate_host (sd_host d)) (\<lambda>_.
     rbind (validate_user (sd_user d)) (\<lambda>_.
     rbind (ok_or port_error (parse_unsigned 65535 (sd_port d))) (\<lambda>port.
     if port = 0 then Err port_error
     else Ok \<lparr>sv_host = sd_host d, sv_name = None, sv_port = of_nat port, sv_user = sd_user d,
              sv_upgrade_cmd = (if trim (sd_upgrade_cmd d) = [] then None else Some (sd_upgrade_cmd d)),
              sv_custom_command = None, sv_mcp = None\<rparr>)))"

section \<open>The panel\<close>

datatype pw_action =
    PaNone
  | PaSave nat rstring bool
  | PaDelete nat
  | PaCycleBanner
  | PaImport
  | PaRotate rstring rstring
  | PaApplyServers "server list"
  | PaApplyEdit "server list" nat "rstring option"

definition manager_new :: "nat \<Rightarrow> bool \<Rightarrow> pw_manager" where
  "manager_new selected resume =
     \<lparr>pm_selected = selected, pm_edit = None, pm_input = [], pm_resume_upgrade = resume,
      pm_draft = None, pm_notice = None, pm_pending_delete = None, pm_rotating = False\<rparr>"

definition with_manager :: "(pw_manager \<Rightarrow> pw_manager) \<Rightarrow> ('o, 'v) app \<Rightarrow> ('o, 'v) app" where
  "with_manager f a = (case a_manager a of Some m \<Rightarrow> a\<lparr>a_manager := Some (f m)\<rparr> | None \<Rightarrow> a)"

definition set_notice :: "rstring \<Rightarrow> ('o, 'v) app \<Rightarrow> ('o, 'v) app" where
  "set_notice t = with_manager (\<lambda>m. m\<lparr>pm_notice := Some t\<rparr>)"

definition open_settings :: "nat \<Rightarrow> bool \<Rightarrow> ('o, 'v) app \<Rightarrow> ('o, 'v) app \<times> (nat \<times> server) list" where
  "open_settings selected resume a =
     (if a_panels a = [] then (a, [])
      else let idx = min selected (length (a_panels a) - 1);
               a = a\<lparr>a_manager := Some (manager_new idx resume)\<rparr>;
               p = a_panels a ! idx
           in (a, if needs_credential_load p then [(idx, pn_server p)] else []))"

definition answer_pending_delete :: "pw_manager \<Rightarrow> key_code \<Rightarrow> ('o, 'v) app \<Rightarrow> ('o, 'v) app \<times> pw_action" where
  "answer_pending_delete m k a =
     (case pm_pending_delete m of
        None \<Rightarrow> (a, PaNone)
      | Some idx \<Rightarrow>
          (let a = a\<lparr>a_manager := Some (m\<lparr>pm_pending_delete := None\<rparr>)\<rparr>
           in if \<not> key_in ''yY'' k \<or> length (a_panels a) \<le> idx
              then (set_notice (lit ''Removal cancelled.'') a, PaNone)
              else (set_notice (lit ''Removed '' @ sv_host (pn_server (a_panels a ! idx)) @ lit ''.'') a,
                    PaApplyServers (map pn_server
                      (take idx (a_panels a) @ drop (idx + 1) (a_panels a))))))"

definition prompt_key :: "pw_manager \<Rightarrow> key_code \<Rightarrow> pw_manager \<times> pw_action" where
  "prompt_key m k =
     (case k of
        KEsc \<Rightarrow> (m\<lparr>pm_edit := None, pm_input := [], pm_notice := None\<rparr>, PaNone)
      | KEnter \<Rightarrow>
          (let typed = pm_input m; stage = pm_edit m; m = m\<lparr>pm_input := [], pm_edit := None\<rparr>
           in if typed = [] then (m\<lparr>pm_notice := Some (lit ''Password was not changed.'')\<rparr>, PaNone)
              else case stage of
                     Some RotateCurrent \<Rightarrow>
                       (m\<lparr>pm_edit := Some (RotateNew typed),
                          pm_notice := Some (lit ''Enter the NEW master password:'')\<rparr>, PaNone)
                   | Some (RotateNew current) \<Rightarrow> (m, PaRotate current typed)
                   | None \<Rightarrow> (m, PaNone))
      | KBackspace \<Rightarrow> (m\<lparr>pm_input := pop_char (pm_input m)\<rparr>, PaNone)
      | KChar c \<Rightarrow> (m\<lparr>pm_input := pm_input m @ c\<rparr>, PaNone)
      | _ \<Rightarrow> (m, PaNone))"

definition draft_key :: "server list \<Rightarrow> server_draft \<Rightarrow> pw_manager \<Rightarrow> key_code \<Rightarrow> pw_manager \<times> pw_action" where
  "draft_key servers d m k =
     (case k of
        KEsc \<Rightarrow> (m\<lparr>pm_draft := None\<rparr>, PaNone)
      | KTab \<Rightarrow> (m\<lparr>pm_draft := Some (d\<lparr>sd_field := (sd_field d + 1) mod 5\<rparr>)\<rparr>, PaNone)
      | KDown \<Rightarrow> (m\<lparr>pm_draft := Some (d\<lparr>sd_field := (sd_field d + 1) mod 5\<rparr>)\<rparr>, PaNone)
      | KUp \<Rightarrow> (m\<lparr>pm_draft := Some (d\<lparr>sd_field := (if sd_field d = 0 then 4 else sd_field d - 1)\<rparr>)\<rparr>, PaNone)
      | KBackspace \<Rightarrow> (m\<lparr>pm_draft := Some (update_active pop_char d)\<rparr>, PaNone)
      | KChar c \<Rightarrow> (m\<lparr>pm_draft := Some (update_active (\<lambda>s. s @ c) d)\<rparr>, PaNone)
      | KEnter \<Rightarrow>
          (case into_server d of
             Ok s \<Rightarrow>
               (let (servers, idx) = (case sd_original d of
                                        Some i \<Rightarrow> (servers[i := s], i)
                                      | None \<Rightarrow> (servers @ [s], length servers))
                in (m\<lparr>pm_draft := None\<rparr>,
                    PaApplyEdit servers idx
                      (if trim (sd_password d) = [] then None else Some (sd_password d))))
           | Err e \<Rightarrow> (m\<lparr>pm_notice := Some e, pm_draft := Some d\<rparr>, PaNone))
      | _ \<Rightarrow> (m, PaNone))"

fun join_with :: "rstring \<Rightarrow> rstring list \<Rightarrow> rstring" where
  "join_with sep [] = []"
| "join_with sep [x] = x"
| "join_with sep (x # y # xs) = x @ sep @ join_with sep (y # xs)"

definition removal_question :: "('o, 'v) app \<Rightarrow> rstring \<Rightarrow> rstring" where
  "removal_question a host =
     (let running = running_upgrade_hosts a
      in if running = []
         then lit ''Remove '' @ host @ lit '' from the configuration? [y] confirm  [Esc] cancel''
         else lit ''Remove '' @ host @ lit ''? This interrupts the upgrade running on ''
                @ join_with (lit '', '') running @ lit ''. [y] confirm  [Esc] cancel'')"

definition row_key :: "pw_manager \<Rightarrow> key_code \<Rightarrow> ('o, 'v) app \<Rightarrow> ('o, 'v) app \<times> pw_action" where
  "row_key m k a =
     (let put = (\<lambda>m. a\<lparr>a_manager := Some m\<rparr>); n = length (a_panels a)
      in if pm_edit m \<noteq> None then (let (m, act) = prompt_key m k in (put m, act))
         else case pm_draft m of
           Some d \<Rightarrow> (let (m, act) = draft_key (map pn_server (a_panels a)) d m k in (put m, act))
         | None \<Rightarrow>
             if pm_pending_delete m \<noteq> None then answer_pending_delete m k a
             else if k = KEsc \<or> key_in ''qQ'' k then (a\<lparr>a_manager := None\<rparr>, PaNone)
             else if k = KUp \<or> key_in ''kK'' k then (put (m\<lparr>pm_selected := pm_selected m - 1\<rparr>), PaNone)
             else if k = KDown \<or> key_in ''jJ'' k
               then (put (m\<lparr>pm_selected := min (pm_selected m + 1) (n - 1)\<rparr>), PaNone)
             else if k = KEnter \<or> key_in ''eE'' k
               then (put (m\<lparr>pm_draft := map_option (\<lambda>p.
                        draft_new (Some (pm_selected m)) (Some (pn_server p)) (pn_sudo_password p))
                        (nth_opt (a_panels a) (pm_selected m))\<rparr>), PaNone)
             else if key_in ''aA'' k then (put (m\<lparr>pm_draft := Some (draft_new None None None)\<rparr>), PaNone)
             else if key_in ''dD'' k then
               (if 1 < n
                then (let host = (case nth_opt (a_panels a) (pm_selected m) of
                                    Some p \<Rightarrow> sv_host (pn_server p) | None \<Rightarrow> [])
                      in (put (m\<lparr>pm_pending_delete := Some (pm_selected m),
                                  pm_notice := Some (removal_question a host)\<rparr>), PaNone))
                else (put (m\<lparr>pm_notice := Some (lit ''Cannot remove the last remaining server.'')\<rparr>), PaNone))
             else if key_in ''bB'' k then (a, PaCycleBanner)
             else if key_in ''iI'' k then (a, PaImport)
             else if key_in ''rR'' k then
               (if pm_rotating m then
                  (put (m\<lparr>pm_notice := Some (lit ''The master password is already being changed; one moment.'')\<rparr>), PaNone)
                else if a_vault a \<noteq> None then
                  (put (m\<lparr>pm_edit := Some RotateCurrent, pm_input := [],
                          pm_notice := Some (lit ''Enter the CURRENT master password:'')\<rparr>), PaNone)
                else (put (m\<lparr>pm_notice := Some (lit ''No vault to rotate; save a password to create one.'')\<rparr>), PaNone))
             else (a, PaNone))"

definition settings_key :: "key_code \<Rightarrow> ('o, 'v) app \<Rightarrow> ('o, 'v) app \<times> pw_action" where
  "settings_key k a = (case a_manager a of None \<Rightarrow> (a, PaNone) | Some m \<Rightarrow> row_key m k a)"

end
