(* ===== verification/Text_Lines.thy ===== *)
theory Text_Lines
  imports Text
begin

text \<open>
  Lines and words of a text, as the program's parsers and readers take them apart
  (\<open>str::lines\<close>, \<open>str::split_whitespace\<close>, and the carriage return of a CRLF).
\<close>

section \<open>Lines and words\<close>

definition strip_cr :: "bytes \<Rightarrow> bytes" where
  "strip_cr l = (if l \<noteq> [] \<and> last l = 0x0D then butlast l else l)"

text \<open>\<open>str::lines\<close>: split at line feeds, a last empty piece dropped, a carriage return before
  the line feed dropped.\<close>

definition str_lines :: "rstring \<Rightarrow> rstring list" where
  "str_lines s =
     (let ps = split_at_byte 0x0A s
      in map strip_cr (butlast ps) @ (if last ps = [] then [] else [last ps]))"

text \<open>\<open>str::split_whitespace\<close>\<close>

function split_words :: "rstring \<Rightarrow> rstring \<Rightarrow> rstring list" where
  "split_words acc [] = (if acc = [] then [] else [acc])"
| "split_words acc (b # s) =
     (case ws_prefix (b # s) of
        Some n \<Rightarrow> (if acc = [] then [] else [acc]) @ split_words [] (drop n (b # s))
      | None \<Rightarrow> split_words (acc @ [b]) s)"
  by pat_completeness auto
termination
  by (relation "measure (\<lambda>(acc, s). length s)") (auto dest: ws_prefix_Some)

definition split_whitespace :: "rstring \<Rightarrow> rstring list" where
  "split_whitespace s = split_words [] s"

fun join_words :: "rstring list \<Rightarrow> rstring" where
  "join_words [] = []"
| "join_words [w] = w"
| "join_words (w # v # ws) = w @ lit '' '' @ join_words (v # ws)"

end
