(* ===== verification/Ssh_Config.thy ===== *)
theory Ssh_Config
  imports Panel_Filter Text_Lines
begin

text \<open>
  Hosts from ~/.ssh/config (crates/multitop/src/config/ssh.rs): the parser of the file and the
  additive merge into the configured servers. Unicode lower-casing is the argument \<open>lower\<close>.
\<close>

section \<open>The parser\<close>

record ssh_reader =
  sr_servers :: "server list"
  sr_host :: "rstring option"
  sr_user :: rstring
  sr_port :: u16
  sr_hostname :: "rstring option"

definition ssh_reader_new :: ssh_reader where
  "ssh_reader_new = \<lparr>sr_servers = [], sr_host = None, sr_user = [], sr_port = 22, sr_hostname = None\<rparr>"

text \<open>A host block is over: what it named is a server.\<close>

definition flush_host :: "ssh_reader \<Rightarrow> ssh_reader" where
  "flush_host r =
     (case sr_host r of
        None \<Rightarrow> r
      | Some host \<Rightarrow>
          r\<lparr>sr_servers := sr_servers r @
              [\<lparr>sv_host = (case sr_hostname r of Some h \<Rightarrow> h | None \<Rightarrow> host), sv_name = None,
                sv_port = sr_port r, sv_user = sr_user r, sv_upgrade_cmd = None,
                sv_custom_command = None, sv_mcp = None\<rparr>],
            sr_host := None, sr_hostname := None\<rparr>)"

definition begin_host :: "rstring \<Rightarrow> ssh_reader \<Rightarrow> ssh_reader" where
  "begin_host first_host r =
     (if 0x2A \<in> set first_host \<or> 0x3F \<in> set first_host \<or> first_host = []
      then r\<lparr>sr_host := None\<rparr>
      else r\<lparr>sr_host := Some first_host, sr_user := [], sr_port := 22, sr_hostname := None\<rparr>)"

definition ssh_line :: "(rstring \<Rightarrow> rstring) \<Rightarrow> ssh_reader \<Rightarrow> rstring \<Rightarrow> ssh_reader" where
  "ssh_line lower r line =
     (let line = trim line in
      if line = [] \<or> starts_with line (lit ''#'') then r
      else case split_whitespace line of
        [] \<Rightarrow> r
      | k # parts \<Rightarrow>
          (let val = join_words parts; k = lower k
           in if k = lit ''host'' then
                begin_host (case parts of [] \<Rightarrow> [] | p # _ \<Rightarrow> p) (flush_host r)
              else if k = lit ''hostname'' then
                (if sr_host r \<noteq> None then r\<lparr>sr_hostname := Some val\<rparr> else r)
              else if k = lit ''user'' then
                (if sr_host r \<noteq> None then r\<lparr>sr_user := val\<rparr> else r)
              else if k = lit ''port'' \<and> sr_host r \<noteq> None then
                (case parse_unsigned 65535 val of
                   Some n \<Rightarrow> r\<lparr>sr_port := of_nat n\<rparr>
                 | None \<Rightarrow> r)
              else r))"

definition parse_ssh_config :: "(rstring \<Rightarrow> rstring) \<Rightarrow> rstring \<Rightarrow> server list" where
  "parse_ssh_config lower txt = sr_servers (flush_host (foldl (ssh_line lower) ssh_reader_new (str_lines txt)))"

section \<open>The merge\<close>

definition server_key :: "server \<Rightarrow> rstring" where
  "server_key s = sv_user s @ lit ''@'' @ sv_host s @ lit '':'' @ show_nat (unat (sv_port s))"

fun merge_new :: "rstring set \<Rightarrow> server list \<Rightarrow> server list \<Rightarrow> nat \<Rightarrow> server list \<times> nat" where
  "merge_new seen merged [] added = (merged, added)"
| "merge_new seen merged (s # imported) added =
     (if server_key s \<in> seen then merge_new seen merged imported added
      else merge_new (insert (server_key s) seen) (merged @ [s]) imported (added + 1))"

definition merge_ssh_hosts :: "server list \<Rightarrow> server list \<Rightarrow> server list \<times> nat" where
  "merge_ssh_hosts existing imported =
     merge_new (set (map server_key existing)) existing imported 0"

section \<open>What the merge keeps\<close>

lemma merge_new_props:
  assumes "merge_new seen merged imported added = (out, n)" "set (map server_key merged) \<subseteq> seen"
  shows "\<exists>new. out = merged @ new \<and> n = added + length new \<and> distinct (map server_key new)
    \<and> set (map server_key new) \<inter> seen = {}
    \<and> set (map server_key imported) \<subseteq> seen \<union> set (map server_key new)"
  using assms
proof (induction imported arbitrary: seen merged added)
  case Nil
  then show ?case by simp
next
  case (Cons s imported)
  show ?case
  proof (cases "server_key s \<in> seen")
    case True
    with Cons show ?thesis by auto
  next
    case False
    with Cons.prems have "merge_new (insert (server_key s) seen) (merged @ [s]) imported (added + 1) = (out, n)"
      by simp
    moreover have "set (map server_key (merged @ [s])) \<subseteq> insert (server_key s) seen"
      using Cons.prems(2) by auto
    ultimately have "\<exists>new. out = (merged @ [s]) @ new \<and> n = added + 1 + length new \<and> distinct (map server_key new)
      \<and> set (map server_key new) \<inter> insert (server_key s) seen = {}
      \<and> set (map server_key imported) \<subseteq> insert (server_key s) seen \<union> set (map server_key new)"
      by (rule Cons.IH)
    then obtain new where
      "out = (merged @ [s]) @ new" "n = added + 1 + length new" "distinct (map server_key new)"
      "set (map server_key new) \<inter> insert (server_key s) seen = {}"
      "set (map server_key imported) \<subseteq> insert (server_key s) seen \<union> set (map server_key new)"
      by blast
    with False show ?thesis by (intro exI [of _ "s # new"]) auto
  qed
qed

text \<open>Importing hosts is additive. Whatever ~/.ssh/config holds, every configured server
  stays as it was and in its place, the new ones follow it, no two of them share a user, host
  and port and none repeats a configured one, every host of the file is then configured, and the
  number reported is the number added.\<close>

theorem import_is_additive:
  "\<exists>new. merge_ssh_hosts existing imported = (existing @ new, length new)
    \<and> distinct (map server_key new)
    \<and> set (map server_key new) \<inter> set (map server_key existing) = {}
    \<and> set (map server_key imported) \<subseteq> set (map server_key (existing @ new))"
proof -
  obtain out n where r: "merge_ssh_hosts existing imported = (out, n)" by fastforce
  from merge_new_props [OF r [unfolded merge_ssh_hosts_def]] show ?thesis
    by (auto simp: r)
qed

end
