(* ===== verification/Settings_Actions.thy ===== *)
theory Settings_Actions
  imports Settings Ssh_Config
begin

text \<open>
  What the settings panel's actions do (crates/multitop/src/password_actions.rs). A panel index
  an action carries is within the panel list, as it is where the actions are made; the code
  indexes with it.
\<close>

section \<open>The server list\<close>

definition write_servers ::
  "('o, 'v) ui \<Rightarrow> server list \<Rightarrow> ('o, 'v) app \<Rightarrow> (rstring list, rstring) result \<times> ('o, 'v) app \<times> effect list"
where
  "write_servers ui servers a =
     (case a_config_path a of
        None \<Rightarrow> (Err (lit ''No configuration file is active.''), a, [])
      | Some path \<Rightarrow>
          (case ui_save_servers ui path servers of
             Some e \<Rightarrow> (Err e, a, [SaveServers path servers])
           | None \<Rightarrow>
               (let interrupted = running_upgrade_hosts a
                in (Ok interrupted, replace_panels ui servers a,
                    [SaveServers path servers, AbortUpgrades]))))"

definition report_server_write ::
  "(rstring list, rstring) result \<Rightarrow> ('o, 'v) app \<Rightarrow> ('o, 'v) app" where
  "report_server_write r a =
     with_manager (\<lambda>m.
       m\<lparr>pm_selected := (if a_panels a = [] then pm_selected m
                         else min (pm_selected m) (length (a_panels a) - 1)),
         pm_notice := Some
           (case r of
              Ok interrupted \<Rightarrow>
                (if interrupted = [] then lit ''Server configuration saved.''
                 else lit ''Server configuration saved. The upgrade on '' @ join_with (lit '', '') interrupted
                   @ lit '' was interrupted -- if it had started installing, remove ~/.cache/multitop/upgrade.lock on that host before the next run.'')
            | Err e \<Rightarrow> lit ''Could not save server configuration: '' @ e)\<rparr>) a"

definition current_notice :: "('o, 'v) app \<Rightarrow> rstring option" where
  "current_notice a = (case a_manager a of Some m \<Rightarrow> pm_notice m | None \<Rightarrow> None)"

definition prepend_notice :: "rstring option \<Rightarrow> ('o, 'v) app \<Rightarrow> ('o, 'v) app" where
  "prepend_notice before a =
     (case before of
        None \<Rightarrow> a
      | Some b \<Rightarrow>
          with_manager (\<lambda>m. m\<lparr>pm_notice := Some
            (case pm_notice m of
               Some after \<Rightarrow> if after \<noteq> b then b @ lit '' '' @ after else b
             | None \<Rightarrow> b)\<rparr>) a)"

section \<open>Passwords\<close>

text \<open>Write through to what is unlocked; the error, if any.\<close>

definition on_unlocked :: "('v \<Rightarrow> rstring option \<times> 'v) \<Rightarrow> ('o, 'v) app \<Rightarrow> rstring option \<times> ('o, 'v) app" where
  "on_unlocked f a =
     (case a_vault_state a of
        VUnlocked v awaiting \<Rightarrow> (let (e, v) = f v in (e, a\<lparr>a_vault_state := VUnlocked v awaiting\<rparr>))
      | _ \<Rightarrow> (None, a))"

definition on_delete :: "('o, 'v) ui \<Rightarrow> nat \<Rightarrow> ('o, 'v) app \<Rightarrow> ('o, 'v) app \<times> effect list" where
  "on_delete ui i a =
     (let server = pn_server (a_panels a ! i);
          result = ui_store_delete ui server;
          (vault_error, a) = on_unlocked (ui_vault_remove ui (account server)) a;
          a = with_panel i (\<lambda>p. p\<lparr>pn_sudo_password := None, pn_password_saved := False,
                                 pn_external_password := False, pn_lookup := Answered\<rparr>) a;
          a = set_notice
                (case (result, vault_error) of
                   (None, None) \<Rightarrow> lit ''Saved password removed; this host now has none.''
                 | (None, Some e) \<Rightarrow>
                     lit ''Removed from the credential store, but NOT from the vault: '' @ e
                       @ lit ''. It will be used again until the vault entry is removed.''
                 | (Some e, _) \<Rightarrow> lit ''Could not remove saved password: '' @ e) a
      in (a, [StoreDelete server]))"

definition offer_vault_creation :: "('o, 'v) app \<Rightarrow> ('o, 'v) app" where
  "offer_vault_creation a =
     (if vault_creating a \<or> show_vault_password_prompt a \<or> vault_awaiting_biometric a \<or> show_upgrade_modal a
      then a else snd (begin_vault_creation a))"

definition resume_note :: "palette \<Rightarrow> rstring" where
  "resume_note pal = loading_line pal (lit '' Upgrade running...'')"

text \<open>The upgrade that stopped for want of a password starts again, recorded as any other.\<close>

definition resume_run ::
  "('o, 'v) ui \<Rightarrow> u64 \<Rightarrow> nat \<Rightarrow> ('o, 'v) app \<Rightarrow> ('o, 'v) app \<times> command list \<times> effect list" where
  "resume_run ui now i a =
     (let (g, a) = bump i a;
          a = with_panel i (\<lambda>p. p\<lparr>pn_mode := MUpgrade, pn_upgrade_state := UStarted, pn_upgrade_gen := g,
                pn_last_upgrade := replace_with [resume_note (a_palette a)] (pn_last_upgrade p)\<rparr>) a;
          (a, effects) = mark_upgrades_started ui now [i] a
      in (a, [RunUpgrade i g], effects))"

definition on_save ::
  "('o, 'v) ui \<Rightarrow> u64 \<Rightarrow> nat \<Rightarrow> rstring \<Rightarrow> bool \<Rightarrow> ('o, 'v) app \<Rightarrow> ('o, 'v) app \<times> command list \<times> effect list"
where
  "on_save ui now i password resume a =
     (let server = pn_server (a_panels a ! i);
          a = with_panel i (\<lambda>p. p\<lparr>pn_sudo_password := Some password\<rparr>) a;
          result = ui_store_save ui server password;
          stored = (result = None);
          a = with_panel i (\<lambda>p. p\<lparr>pn_password_saved := stored\<rparr>) a;
          (vault_error, a) = on_unlocked (ui_vault_set ui (account server) password) a;
          a = with_manager (\<lambda>m. m\<lparr>pm_resume_upgrade := False,
                pm_notice := Some
                  (case (result, vault_error) of
                     (None, None) \<Rightarrow> lit ''Password saved securely in system credential store.''
                   | (None, Some e) \<Rightarrow> lit ''Saved to the credential store, but NOT to the vault: '' @ e
                   | (Some e, _) \<Rightarrow> lit ''Password kept for this session; save failed: '' @ e)\<rparr>) a;
          a = (if stored then offer_vault_creation a else a);
          p = a_panels a ! i;
          should_resume = ((resume \<or> pn_mode p = MUpgrade) \<and> pn_upgrade_state p \<noteq> UStarted)
      in if should_resume \<and> sv_upgrade_cmd (pn_server p) \<noteq> None
         then (let (a, cmds, effects) = resume_run ui now i a in (a, cmds, StoreSave server password # effects))
         else (a, [], [StoreSave server password]))"

section \<open>The master password, the banner, the import\<close>

definition on_rotate :: "rstring \<Rightarrow> rstring \<Rightarrow> ('o, 'v) app \<Rightarrow> ('o, 'v) app \<times> effect list" where
  "on_rotate current new a =
     (case a_vault a of
        None \<Rightarrow> (set_notice (lit ''There is no vault to rotate.'') a, [])
      | Some vault \<Rightarrow>
          (let (epoch, a) = bump_vault_epoch a;
               a = with_manager (\<lambda>m. m\<lparr>pm_rotating := True,
                     pm_notice := Some (lit ''Changing the master password...'')\<rparr>) a
           in (a, [Rotate vault epoch current new])))"

definition on_cycle_banner :: "('o, 'v) app \<Rightarrow> ('o, 'v) app \<times> effect list" where
  "on_cycle_banner a =
     (let a = a\<lparr>a_banner := banner_next (a_banner a)\<rparr>
      in (set_notice (lit ''Banner: '' @ banner_label (a_banner a)
            @ lit ''. Wide needs a font with fullwidth Latin glyphs.'') a,
          case a_config_path a of Some path \<Rightarrow> [SaveBanner path (a_banner a)] | None \<Rightarrow> []))"

definition on_import :: "('o, 'v) ui \<Rightarrow> ('o, 'v) app \<Rightarrow> ('o, 'v) app \<times> effect list" where
  "on_import ui a =
     (case ui_ssh_config ui of
        None \<Rightarrow> (set_notice (lit ''Could not read ~/.ssh/config.'') a, [])
      | Some txt \<Rightarrow>
          (let (merged, added) = merge_ssh_hosts (map pn_server (a_panels a))
                                   (parse_ssh_config (tx_lower (ui_text ui)) txt)
           in if added = 0
              then (set_notice (lit ''No new hosts in ~/.ssh/config; nothing was changed.'') a, [])
              else
                (let (r, a, effects) = write_servers ui merged a;
                     a = report_server_write r a;
                     a = (if is_ok r then
                            (let reported = current_notice a;
                                 a = set_notice (lit ''Imported '' @ show_nat added @ lit '' ''
                                       @ (if added = 1 then lit ''host'' else lit ''hosts'')
                                       @ lit '' from ~/.ssh/config; existing entries were left alone.'') a
                             in prepend_notice reported a)
                          else a)
                 in (a, effects))))"

section \<open>Actions\<close>

definition on_apply_edit ::
  "('o, 'v) ui \<Rightarrow> u64 \<Rightarrow> server list \<Rightarrow> nat \<Rightarrow> rstring option \<Rightarrow> ('o, 'v) app
   \<Rightarrow> ('o, 'v) app \<times> command list \<times> effect list" where
  "on_apply_edit ui now servers idx password a =
     (let (r, a, effects) = write_servers ui servers a;
          a = report_server_write r a
      in if \<not> is_ok r then (a, [], effects)
         else
           (let reported = current_notice a
            in if idx < length (a_panels a) then
                 (let (a, cmds, more) =
                        (case password of
                           None \<Rightarrow> (let (a, more) = on_delete ui idx a in (a, [], more))
                         | Some pass \<Rightarrow> on_save ui now idx pass False a)
                  in (prepend_notice reported a, cmds, effects @ more))
               else (a, [], effects)))"

fun pw_apply ::
  "('o, 'v) ui \<Rightarrow> u64 \<Rightarrow> pw_action \<Rightarrow> ('o, 'v) app \<Rightarrow> ('o, 'v) app \<times> command list \<times> effect list" where
  "pw_apply ui now PaNone a = (a, [], [])"
| "pw_apply ui now (PaApplyServers servers) a =
     (let (r, a, effects) = write_servers ui servers a in (report_server_write r a, [], effects))"
| "pw_apply ui now (PaApplyEdit servers idx password) a = on_apply_edit ui now servers idx password a"
| "pw_apply ui now (PaDelete i) a = (let (a, effects) = on_delete ui i a in (a, [], effects))"
| "pw_apply ui now (PaRotate current new) a = (let (a, effects) = on_rotate current new a in (a, [], effects))"
| "pw_apply ui now PaCycleBanner a = (let (a, effects) = on_cycle_banner a in (a, [], effects))"
| "pw_apply ui now PaImport a = (let (a, effects) = on_import ui a in (a, [], effects))"
| "pw_apply ui now (PaSave i password resume) a = on_save ui now i password resume a"

end
