(* ===== verification/Keys.thy ===== *)
theory Keys
  imports Settings_Actions
begin

text \<open>
  Key dispatch (crates/multitop/src/run/handle_key.rs, confirm_keys.rs, nav_keys.rs,
  palette.rs): what one key press does to the application, which commands it hands to the task
  runner and what it asks of the outside. The stages are tried in the order of the code, and a
  stage that answers consumes the key.

  The loop runs inside a runtime, so lookups in the credential store go to a worker. \<open>local\<close>
  says which hosts are this machine.
\<close>

record key_event =
  ke_code :: key_code
  ke_ctrl :: bool
  ke_press :: bool

type_synonym ('o, 'v) kstep = "bool \<times> ('o, 'v) app \<times> command list \<times> effect list"

abbreviation ignored :: "('o, 'v) app \<Rightarrow> ('o, 'v) kstep" where
  "ignored a \<equiv> (False, a, [], [])"

abbreviation taken :: "('o, 'v) app \<Rightarrow> ('o, 'v) kstep" where
  "taken a \<equiv> (True, a, [], [])"

definition taken_saving :: "('o, 'v) ui \<Rightarrow> ('o, 'v) app \<Rightarrow> ('o, 'v) kstep" where
  "taken_saving ui a = (let (a, effects) = persist_state ui a in (True, a, [], effects))"

definition taken_cmds :: "('o, 'v) app \<times> command list \<Rightarrow> ('o, 'v) kstep" where
  "taken_cmds r = (True, fst r, snd r, [])"

definition load_and_take :: "('o, 'v) ui \<Rightarrow> ('o, 'v) app \<times> (nat \<times> server) list \<Rightarrow> ('o, 'v) kstep" where
  "load_and_take ui r =
     (let (a, effects) = dispatch_credential_loads ui False (snd r) (fst r) in (True, a, [], effects))"

section \<open>Selection\<close>

definition clamp_selection_to_filter :: "('o, 'v) ui \<Rightarrow> ('o, 'v) app \<Rightarrow> ('o, 'v) app" where
  "clamp_selection_to_filter ui a =
     (let shown = filtered_indices ui a
      in if shown \<noteq> [] \<and> a_selected a \<notin> set shown then a\<lparr>a_selected := hd shown\<rparr> else a)"

section \<open>The process actions\<close>

text \<open>The first of the processes sorted by the key in force, highest first; the sort is stable.
  (A NaN share of the CPU, which no agent measures, makes the code's comparison inconsistent.)\<close>

fun top_by :: "('a \<Rightarrow> 'a \<Rightarrow> bool) \<Rightarrow> 'a \<Rightarrow> 'a list \<Rightarrow> 'a" where
  "top_by lt best [] = best"
| "top_by lt best (x # xs) = top_by lt (if lt best x then x else best) xs"

definition top_process :: "sort_by \<Rightarrow> process list \<Rightarrow> process option" where
  "top_process srt ps =
     (case ps of
        [] \<Rightarrow> None
      | p # ps \<Rightarrow> Some (case srt of
                          SortCpu \<Rightarrow> top_by (\<lambda>x y. f64_less (p_cpu x) (p_cpu y)) p ps
                        | SortMem \<Rightarrow> top_by (\<lambda>x y. p_mem x < p_mem y) p ps))"

definition arm :: "exec_kind \<Rightarrow> ('o, 'v) app \<Rightarrow> ('o, 'v) app" where
  "arm kd a =
     (case nth_opt (a_panels a) (a_selected a) of
        Some p \<Rightarrow>
          (case pn_last_monitor p of
             Some (Monitor snap) \<Rightarrow>
               (case top_process (a_sort a) (s_procs snap) of
                  Some q \<Rightarrow>
                    a\<lparr>a_kill_confirm := Some \<lparr>ec_panel = a_selected a, ec_pid = p_pid q,
                        ec_name = proc_name_str (p_name q), ec_kind = kd\<rparr>\<rparr>
                | None \<Rightarrow> a)
           | _ \<Rightarrow> a)
      | None \<Rightarrow> a)"

definition process_keys :: "key_code \<Rightarrow> ('o, 'v) app \<Rightarrow> ('o, 'v) app" where
  "process_keys k a =
     (if key_in ''xX'' k then arm Kill a
      else if key_in ''oO'' k then arm Journal a
      else if key_in ''rR'' k then arm Renice a
      else a)"

text \<open>The armed action runs if the key is the one of its kind; otherwise it stays armed.\<close>

definition fire :: "exec_kind \<Rightarrow> ('o, 'v) app \<Rightarrow> ('o, 'v) app \<times> effect list" where
  "fire kd a =
     (case a_kill_confirm a of
        None \<Rightarrow> (a, [])
      | Some ec \<Rightarrow>
          if ec_kind ec = kd \<and> ec_panel ec < length (a_panels a) then
            (let a = a\<lparr>a_kill_confirm := None\<rparr>;
                 (g, a) = bump (ec_panel ec) a;
                 p = a_panels a ! ec_panel ec
             in (a, [ProcessAction kd (ec_panel ec) g (pn_server p) (ec_pid ec) (ec_name ec)
                       (pn_sudo_password p)]))
          else (a, []))"

definition kill_confirm_keys :: "key_code \<Rightarrow> ('o, 'v) app \<Rightarrow> ('o, 'v) app \<times> effect list" where
  "kill_confirm_keys k a =
     (if key_in ''kKxX'' k then fire Kill a
      else if key_in ''oO'' k then fire Journal a
      else if key_in ''rR'' k then fire Renice a
      else if k = KEsc \<or> key_in ''qQnN'' k then (a\<lparr>a_kill_confirm := None\<rparr>, [])
      else (a, []))"

section \<open>Confirmations\<close>

definition upgrade_confirm_keys ::
  "('o, 'v) ui \<Rightarrow> u64 \<Rightarrow> dims \<Rightarrow> key_code \<Rightarrow> ('o, 'v) app \<Rightarrow> ('o, 'v) kstep" where
  "upgrade_confirm_keys ui now dm k a =
     (if key_in ''uU'' k then
        (if any_password_checking a then taken a
         else let (a, cmds, effects) = confirm_upgrade ui now a in (True, a, cmds, effects))
      else if k = KEsc \<or> key_in ''qQnN'' k then taken (set_show_upgrade_modal False a)
      else if key_in ''sS'' k then taken_cmds (switch_stats (set_show_upgrade_modal False a))
      else if key_in ''dD'' k then taken_cmds (toggle_docker ui dm (set_show_upgrade_modal False a))
      else if key_in ''fF'' k then taken_cmds (toggle_fetch ui dm (set_show_upgrade_modal False a))
      else if key_in ''gG'' k then taken_cmds (toggle_graphs ui dm (set_show_upgrade_modal False a))
      else taken a)"

definition confirmation_keys ::
  "('o, 'v) ui \<Rightarrow> u64 \<Rightarrow> dims \<Rightarrow> key_event \<Rightarrow> ('o, 'v) app \<Rightarrow> ('o, 'v) kstep" where
  "confirmation_keys ui now dm ke a =
     (let k = ke_code ke
      in case active_confirm a of
           Some ConfirmQuit \<Rightarrow>
             taken (if key_in ''qQ'' k then quit a
                    else if key_in ''c'' k \<and> ke_ctrl ke then quit a
                    else if k = KEsc then cancel_quit a
                    else a)
         | Some ConfirmKill \<Rightarrow> (let (a, effects) = kill_confirm_keys k a in (True, a, [], effects))
         | Some ConfirmUpgrade \<Rightarrow> upgrade_confirm_keys ui now dm k a
         | None \<Rightarrow> ignored a)"

section \<open>The command palette\<close>

definition start_unlock :: "('o, 'v) ui \<Rightarrow> ('o, 'v) app \<Rightarrow> ('o, 'v) app \<times> effect list" where
  "start_unlock ui a =
     (let (started, a) = begin_vault_unlock ui a
      in case started of
           Some (vault, epoch) \<Rightarrow> (a, [UnlockBiometric vault epoch])
         | None \<Rightarrow>
             if show_vault_password_prompt a then (a, [])
             else (set_show_upgrade_modal True a, []))"

definition palette_view ::
  "('o, 'v) ui \<Rightarrow> (server \<Rightarrow> bool) \<Rightarrow> dims \<Rightarrow> rstring \<Rightarrow> ('o, 'v) app \<Rightarrow> (('o, 'v) app \<times> command list) option"
where
  "palette_view ui local dm input a =
     (if input = lit ''docker'' then Some (toggle_docker ui dm a)
      else if input = lit ''fetch'' then Some (toggle_fetch ui dm a)
      else if input = lit ''graphs'' \<or> input = lit ''graph'' then Some (toggle_graphs ui dm a)
      else if input = lit ''stats'' \<or> input = lit ''s'' then Some (switch_stats a)
      else if input = lit ''ops'' then Some (toggle_ops ui local dm a)
      else None)"

definition theme_step :: "('o, 'v) ui \<Rightarrow> dims \<Rightarrow> ('o, 'v) app \<Rightarrow> ('o, 'v) app \<times> effect list" where
  "theme_step ui dm a =
     (let a = cycle_theme ui a
      in (rerender_all ui dm a,
          case a_config_path a of Some path \<Rightarrow> [SaveTheme path (a_theme_idx a)] | None \<Rightarrow> []))"

definition copy_selected :: "('o, 'v) app \<Rightarrow> effect list" where
  "copy_selected a =
     (case nth_opt (a_panels a) (a_selected a) of
        Some p \<Rightarrow> [CopyText (target (pn_server p))] | None \<Rightarrow> [])"

definition execute_palette_command ::
  "('o, 'v) ui \<Rightarrow> (server \<Rightarrow> bool) \<Rightarrow> dims \<Rightarrow> rstring \<Rightarrow> ('o, 'v) app \<Rightarrow> ('o, 'v) kstep" where
  "execute_palette_command ui local dm raw a =
     (let input = tx_lower (ui_text ui) (trim raw)
      in case strip_prefix (lit ''filter '') input of
           Some stripped \<Rightarrow>
             taken_saving ui (clamp_selection_to_filter ui (a\<lparr>a_filter_query := stripped\<rparr>))
         | None \<Rightarrow>
             if input = lit ''filter'' \<or> input = lit ''clear filter''
             then taken_saving ui (clamp_selection_to_filter ui (a\<lparr>a_filter_query := []\<rparr>))
             else if starts_with input (lit ''upgrade'') then load_and_take ui (enter_upgrade_view ui a)
             else case palette_view ui local dm input a of
               Some (a, cmds) \<Rightarrow> (let (a, effects) = persist_state ui a in (True, a, cmds, effects))
             | None \<Rightarrow>
                 if starts_with input (lit ''sort '') then
                   (let srt = (if contains input (lit ''mem'') then SortMem else SortCpu);
                        changed = (srt \<noteq> a_sort a); a = a\<lparr>a_sort := srt\<rparr>
                    in if changed then taken_saving ui a else taken a)
                 else if input = lit ''theme'' \<or> starts_with input (lit ''theme '') then
                   (let (a, effects) = theme_step ui dm a in (True, a, [], effects))
                 else if input = lit ''add server'' \<or> input = lit ''add'' then
                   load_and_take ui (open_settings (a_selected a) True a)
                 else if input = lit ''vault unlock'' then
                   (let (a, effects) = start_unlock ui a in (True, a, [], effects))
                 else if input = lit ''yank'' \<or> starts_with input (lit ''yank '') \<or> input = lit ''y''
                   \<or> input = lit ''copy'' then (True, a, [], copy_selected a)
                 else taken a)"

definition overlay_keys ::
  "('o, 'v) ui \<Rightarrow> (server \<Rightarrow> bool) \<Rightarrow> dims \<Rightarrow> key_code \<Rightarrow> ('o, 'v) app \<Rightarrow> ('o, 'v) kstep" where
  "overlay_keys ui local dm k a =
     (case a_overlay a of
        HelpOverlay palette_open \<Rightarrow>
          taken (if k = KEsc \<or> key_in ''?hHqQ'' k
                 then a\<lparr>a_overlay := (if palette_open then CommandPalette else NoOverlay)\<rparr> else a)
      | _ \<Rightarrow>
          if key_in ''?'' k then taken (a\<lparr>a_overlay := HelpOverlay (is_palette (a_overlay a))\<rparr>)
          else if is_palette (a_overlay a) then
            (case k of
               KEsc \<Rightarrow> taken (a\<lparr>a_overlay := NoOverlay, a_command_input := []\<rparr>)
             | KEnter \<Rightarrow>
                 execute_palette_command ui local dm (a_command_input a)
                   (a\<lparr>a_command_input := [], a_overlay := NoOverlay\<rparr>)
             | KBackspace \<Rightarrow> taken (a\<lparr>a_command_input := pop_char (a_command_input a)\<rparr>)
             | KChar c \<Rightarrow> taken (a\<lparr>a_command_input := a_command_input a @ c\<rparr>)
             | _ \<Rightarrow> taken a)
          else if key_in '':'' k then taken (a\<lparr>a_overlay := CommandPalette, a_command_input := []\<rparr>)
          else ignored a)"

section \<open>The vault's prompts and the settings panel\<close>

definition creation_keys :: "('o, 'v) ui \<Rightarrow> key_code \<Rightarrow> ('o, 'v) app \<Rightarrow> ('o, 'v) kstep" where
  "creation_keys ui k a =
     (if vault_create_in_flight a then taken (if k = KEsc then cancel_vault_creation a else a)
      else case k of
        KEnter \<Rightarrow>
          (let (started, a) = begin_vault_create_attempt a
           in case started of
                None \<Rightarrow> taken a
              | Some master \<Rightarrow>
                  (case Option.bind (a_config_path a) (ui_vault_path ui) of
                     None \<Rightarrow> taken (fail_vault_creation
                               (lit ''No config directory to create the vault in'') a)
                   | Some path \<Rightarrow> (True, a, [], [CreateVault path (a_vault_epoch a) master])))
      | KEsc \<Rightarrow> taken (cancel_vault_creation a)
      | KBackspace \<Rightarrow> taken (a\<lparr>a_vault_input := pop_char (a_vault_input a)\<rparr>)
      | KChar c \<Rightarrow> taken (a\<lparr>a_vault_input := a_vault_input a @ c\<rparr>)
      | _ \<Rightarrow> taken a)"

definition unlock_prompt_keys :: "key_code \<Rightarrow> ('o, 'v) app \<Rightarrow> ('o, 'v) kstep" where
  "unlock_prompt_keys k a =
     (case k of
        KEnter \<Rightarrow>
          (let password = a_vault_input a; a = a\<lparr>a_vault_input := []\<rparr>
           in if password = [] then taken a
              else case a_vault a of
                     None \<Rightarrow> taken a
                   | Some vault \<Rightarrow>
                       (let (epoch, a) = set_vault_unlocking a
                        in (True, a, [], [UnlockPassword vault epoch password])))
      | KEsc \<Rightarrow> taken (set_vault_password_error None
                        ((set_show_vault_password_prompt False a)\<lparr>a_vault_input := []\<rparr>))
      | KBackspace \<Rightarrow> taken (a\<lparr>a_vault_input := pop_char (a_vault_input a)\<rparr>)
      | KChar c \<Rightarrow> taken (a\<lparr>a_vault_input := a_vault_input a @ c\<rparr>)
      | _ \<Rightarrow> taken a)"

definition vault_and_password_keys ::
  "('o, 'v) ui \<Rightarrow> u64 \<Rightarrow> key_code \<Rightarrow> ('o, 'v) app \<Rightarrow> ('o, 'v) kstep" where
  "vault_and_password_keys ui now k a =
     (if vault_creating a then creation_keys ui k a
      else if show_vault_password_prompt a then unlock_prompt_keys k a
      else if a_manager a \<noteq> None then
        (let (a, action) = settings_key k a;
             (a, cmds, effects) = pw_apply ui now action a
         in (True, a, cmds, effects))
      else ignored a)"

section \<open>Filtering\<close>

definition save_filter :: "('o, 'v) ui \<Rightarrow> ('o, 'v) app \<Rightarrow> ('o, 'v) kstep" where
  "save_filter ui a =
     (let q = trim (a_filter_query a)
      in if q \<noteq> [] \<and> q \<notin> set (a_saved_filters a) then
           (let saved = (if 3 \<le> length (a_saved_filters a) then tl (a_saved_filters a) else a_saved_filters a)
            in taken_saving ui (a\<lparr>a_saved_filters := saved @ [q]\<rparr>))
         else taken a)"

definition digit_key :: "nat \<Rightarrow> key_code \<Rightarrow> nat option" where
  "digit_key hi k =
     (case k of
        KChar c \<Rightarrow> if length c = 1 \<and> 0x31 \<le> hd c \<and> unat (hd c) \<le> 0x30 + hi
                   then Some (unat (hd c) - 0x31) else None
      | _ \<Rightarrow> None)"

definition filter_keys :: "('o, 'v) ui \<Rightarrow> key_event \<Rightarrow> ('o, 'v) app \<Rightarrow> ('o, 'v) kstep" where
  "filter_keys ui ke a =
     (let k = ke_code ke
      in if a_mode a = Filtering then
           (if key_in ''s'' k \<and> ke_ctrl ke then save_filter ui a
            else taken_saving ui (clamp_selection_to_filter ui
              (case k of
                 KEsc \<Rightarrow> set_filtering False (a\<lparr>a_filter_query := []\<rparr>)
               | KEnter \<Rightarrow> set_filtering False a
               | KBackspace \<Rightarrow> a\<lparr>a_filter_query := pop_char (a_filter_query a)\<rparr>
               | KChar c \<Rightarrow> a\<lparr>a_filter_query := a_filter_query a @ c\<rparr>
               | _ \<Rightarrow> a)))
         else if key_in ''s'' k \<and> ke_ctrl ke then save_filter ui a
         else if ke_ctrl ke then
           (case digit_key 3 k of
              Some idx \<Rightarrow>
                (case nth_opt (a_saved_filters a) idx of
                   Some q \<Rightarrow> taken_saving ui (clamp_selection_to_filter ui (a\<lparr>a_filter_query := q\<rparr>))
                 | None \<Rightarrow> taken a)
            | None \<Rightarrow> ignored a)
         else ignored a)"

section \<open>Navigation\<close>

definition scroll_keys :: "key_code \<Rightarrow> ('o, 'v) app \<Rightarrow> ('o, 'v) kstep" where
  "scroll_keys k a =
     (if k = KUp \<or> key_in ''kK'' k then taken (scroll_up 1 a)
      else if k = KDown \<or> key_in ''jJ'' k then taken (scroll_down 1 a)
      else if k = KPageUp then taken (scroll_up 15 a)
      else if k = KPageDown then taken (scroll_down 15 a)
      else if k = KHome then taken (scroll_to_top a)
      else if k = KEnd then taken (scroll_to_bottom a)
      else ignored a)"

definition set_sort :: "('o, 'v) ui \<Rightarrow> sort_by \<Rightarrow> ('o, 'v) app \<Rightarrow> ('o, 'v) kstep" where
  "set_sort ui srt a =
     (let old = a_sort a; a = a\<lparr>a_sort := srt\<rparr>
      in if old \<noteq> srt then (let (a, effects) = persist_state ui a in (True, a, [], effects @ [RestartAgents]))
         else taken a)"

definition zoom_graphs :: "('o, 'v) ui \<Rightarrow> dims \<Rightarrow> bool \<Rightarrow> ('o, 'v) app \<Rightarrow> ('o, 'v) app" where
  "zoom_graphs ui dm closer a =
     (if in_mode MGraphs a \<or> in_mode MAlerts a then
        rerender_all ui dm (a\<lparr>a_graph_zoom :=
          (if closer then min (max (a_graph_zoom a + 1) 1) 16
           else max (if a_graph_zoom a = 0 then 0 else a_graph_zoom a - 1) 1)\<rparr>)
      else a)"

definition tail_selected :: "('o, 'v) app \<Rightarrow> ('o, 'v) kstep" where
  "tail_selected a =
     (let i = a_selected a
      in if i < length (a_panels a) then
           (let (g, a) = bump i a; p = a_panels a ! i
            in (True, a, [], [TailLog i g (pn_server p) (pn_sudo_password p)]))
         else taken a)"

definition focus_and_navigation_keys ::
  "('o, 'v) ui \<Rightarrow> dims \<Rightarrow> key_event \<Rightarrow> ('o, 'v) app \<Rightarrow> ('o, 'v) kstep" where
  "focus_and_navigation_keys ui dm ke a =
     (let k = ke_code ke
      in if k = KEsc \<and> a_focused a \<noteq> None then taken (rerender_all ui dm (toggle_focus a))
         else if k = KEsc \<and> trim (a_filter_query a) \<noteq> [] then
           taken_saving ui (clamp_selection_to_filter ui (a\<lparr>a_filter_query := []\<rparr>))
         else if key_in ''/'' k then taken ((set_filtering True a)\<lparr>a_filter_query := []\<rparr>)
         else if k = KEsc \<or> key_in ''qQ'' k then taken (request_quit a)
         else if key_in ''c'' k \<and> ke_ctrl ke then taken (request_quit a)
         else if key_in ''eE'' k then load_and_take ui (open_settings (a_selected a) False a)
         else if digit_key 9 k \<noteq> None then
           (case nth_opt (filtered_indices ui a) (the (digit_key 9 k)) of
              Some i \<Rightarrow> taken_saving ui (a\<lparr>a_selected := i\<rparr>)
            | None \<Rightarrow> taken a)
         else if key_in ''cC'' k then set_sort ui SortCpu a
         else if key_in ''mM'' k then set_sort ui SortMem a
         else if key_in ''tT'' k then (let (a, effects) = theme_step ui dm a in (True, a, [], effects))
         else if key_in ''+='' k then taken (zoom_graphs ui dm True a)
         else if key_in ''-_'' k then taken (zoom_graphs ui dm False a)
         else if key_in ''yY'' k then (True, a, [], copy_selected a)
         else if key_in ''H'' k \<and> a_mode a \<noteq> Filtering then taken_saving ui (fst (toggle_alerts ui dm a))
         else if key_in ''xXoOrR'' k then taken (process_keys k a)
         else if key_in ''lL'' k then tail_selected a
         else if k = KEnter \<or> key_in ''zZ'' k then taken (rerender_all ui dm (toggle_focus a))
         else scroll_keys k a)"

section \<open>The dispatch\<close>

text \<open>\<open>u\<close>: into the Upgrade view first, and once there, towards a run.\<close>

definition upgradable_checks :: "('o, 'v) ui \<Rightarrow> ('o, 'v) app \<Rightarrow> effect list" where
  "upgradable_checks ui a =
     map (\<lambda>i. CheckUpgradable i (pn_gen (a_panels a ! i)) (pn_server (a_panels a ! i)))
       (filter (\<lambda>i. pn_upgradable (a_panels a ! i) = None
                    \<and> sv_upgrade_cmd (pn_server (a_panels a ! i)) \<noteq> None)
         (filtered_indices ui a))"

definition u_key :: "('o, 'v) ui \<Rightarrow> ('o, 'v) app \<Rightarrow> ('o, 'v) app \<times> effect list" where
  "u_key ui a =
     (if \<not> in_mode MUpgrade a then
        (let (a, loads) = enter_upgrade_view ui a;
             (a, effects) = dispatch_credential_loads ui False loads a
         in (a, effects @ upgradable_checks ui a))
      else if upgrades_in_flight a then (a, [])
      else if \<not> upgrade_runnable ui a then (note_nothing_to_upgrade a, [])
      else start_unlock ui a)"

definition view_keys ::
  "('o, 'v) ui \<Rightarrow> (server \<Rightarrow> bool) \<Rightarrow> dims \<Rightarrow> key_code \<Rightarrow> ('o, 'v) app \<Rightarrow> ('o, 'v) kstep" where
  "view_keys ui local dm k a =
     (let save = (\<lambda>(a, cmds, effects).
            (let (a, saved) = persist_state ui a in (True, a, cmds, effects @ saved)))
      in if key_in ''fF'' k then save (let (a, cmds) = toggle_fetch ui dm a in (a, cmds, []))
         else if key_in ''dD'' k then save (let (a, cmds) = toggle_docker ui dm a in (a, cmds, []))
         else if key_in ''gG'' k then save (let (a, cmds) = toggle_graphs ui dm a in (a, cmds, []))
         else if key_in ''hH'' k then save (let (a, cmds) = toggle_alerts ui dm a in (a, cmds, []))
         else if key_in ''pP'' k then save (let (a, cmds) = toggle_ops ui local dm a in (a, cmds, []))
         else if key_in ''sS'' k then save (let (a, cmds) = switch_stats a in (a, cmds, []))
         else if key_in ''uU'' k then save (let (a, effects) = u_key ui a in (a, [], effects))
         else ignored a)"

definition or_else :: "('o, 'v) kstep \<Rightarrow> (('o, 'v) app \<Rightarrow> ('o, 'v) kstep) \<Rightarrow> ('o, 'v) kstep" where
  "or_else r f = (case r of (True, _) \<Rightarrow> r | (False, a, _, _) \<Rightarrow> f a)"

definition handle_key ::
  "('o, 'v) ui \<Rightarrow> (server \<Rightarrow> bool) \<Rightarrow> u64 \<Rightarrow> dims \<Rightarrow> key_event \<Rightarrow> ('o, 'v) app
   \<Rightarrow> ('o, 'v) app \<times> command list \<times> effect list" where
  "handle_key ui local now dm ke a =
     (let k = ke_code ke
      in if \<not> ke_press ke then (a, [], [])
         else if vault_awaiting_biometric a then
           (if k = KEsc \<or> key_in ''qQ'' k then cancel_vault_biometric a else a, [], [])
         else if vault_verifying a then (if k = KEsc then cancel_vault_verify a else a, [], [])
         else snd (or_else (overlay_keys ui local dm k a) (\<lambda>a.
                   or_else (confirmation_keys ui now dm ke a) (\<lambda>a.
                   or_else (vault_and_password_keys ui now k a) (\<lambda>a.
                   or_else (filter_keys ui ke a) (\<lambda>a.
                   or_else (focus_and_navigation_keys ui dm ke a) (\<lambda>a.
                   view_keys ui local dm k a)))))))"

end
