(* ===== verification/Keys_Props.thy ===== *)
theory Keys_Props
  imports Keys Run_Props
begin

text \<open>
  What a key press can and cannot do: commands reach the hosts only through a confirmation that
  is on screen, the application does not end under a running upgrade at one key press, and the
  one way round both.
\<close>

section \<open>Steps that ask for nothing dangerous\<close>

text \<open>A dispatch is a long chain of tests; a property of every branch is one of the chain.\<close>

lemma branch_if: "P x \<Longrightarrow> P y \<Longrightarrow> P (if c then x else y)"
  by simp

lemma branch_option:
  "P x \<Longrightarrow> (\<And>y. v = Some y \<Longrightarrow> P (f y)) \<Longrightarrow> P (case v of None \<Rightarrow> x | Some y \<Rightarrow> f y)"
  by (simp split: option.split)

fun starts_run :: "command \<Rightarrow> bool" where
  "starts_run (RunUpgrade i g) = True"
| "starts_run _ = False"

fun acts_on_process :: "effect \<Rightarrow> bool" where
  "acts_on_process (ProcessAction kd i g s pid nm pw) = True"
| "acts_on_process _ = False"

definition harmless_cmds :: "command list \<Rightarrow> bool" where
  "harmless_cmds cmds = list_all (\<lambda>c. \<not> starts_run c) cmds"

definition harmless_effects :: "effect list \<Rightarrow> bool" where
  "harmless_effects es = list_all (\<lambda>e. \<not> acts_on_process e) es"

lemma harmless_simps [simp]:
  "harmless_cmds []" "harmless_cmds (c # cs) \<longleftrightarrow> \<not> starts_run c \<and> harmless_cmds cs"
  "harmless_effects []" "harmless_effects (e # es) \<longleftrightarrow> \<not> acts_on_process e \<and> harmless_effects es"
  "harmless_effects (es @ fs) \<longleftrightarrow> harmless_effects es \<and> harmless_effects fs"
  by (simp_all add: harmless_cmds_def harmless_effects_def)

text \<open>A step that starts no run, touches no process and does not end the application.\<close>

definition calm :: "('o, 'v) app \<Rightarrow> ('o, 'v) kstep \<Rightarrow> bool" where
  "calm a r \<longleftrightarrow> a_should_quit (fst (snd r)) = a_should_quit a
     \<and> harmless_cmds (fst (snd (snd r))) \<and> harmless_effects (snd (snd (snd r)))"

named_theorems quits "what leaves the wish to quit alone"

lemma with_panel_quits [quits]: "a_should_quit (with_panel i f a) = a_should_quit a"
  by (simp add: with_panel_def)

lemma persist_quits [quits]: "a_should_quit (fst (persist_state ui a)) = a_should_quit a"
  by (simp add: persist_state_def Let_def split: option.split)

lemma persist_harmless [simp]: "harmless_effects (snd (persist_state ui a))"
  by (simp add: persist_state_def Let_def split: option.split)

lemma clamp_quits [quits]: "a_should_quit (clamp_selection_to_filter ui a) = a_should_quit a"
  by (simp add: clamp_selection_to_filter_def Let_def)

lemma leave_quits [quits]: "a_should_quit (leave_current_view a) = a_should_quit a"
  by (simp add: leave_current_view_def)

lemma toggles_quit [quits]:
  "a_should_quit (fst (toggle_docker ui dm a)) = a_should_quit a"
  "a_should_quit (fst (toggle_fetch ui dm a)) = a_should_quit a"
  "a_should_quit (fst (toggle_graphs ui dm a)) = a_should_quit a"
  "a_should_quit (fst (toggle_alerts ui dm a)) = a_should_quit a"
  "a_should_quit (fst (toggle_ops ui local dm a)) = a_should_quit a"
  "a_should_quit (fst (switch_stats a)) = a_should_quit a"
  by (simp_all add: toggle_docker_def toggle_fetch_def toggle_graphs_def toggle_alerts_def
      toggle_ops_def switch_stats_def Let_def quits)

lemma toggles_harmless [simp]:
  "harmless_cmds (snd (toggle_docker ui dm a))"
  "harmless_cmds (snd (toggle_fetch ui dm a))"
  "harmless_cmds (snd (toggle_graphs ui dm a))"
  "harmless_cmds (snd (toggle_alerts ui dm a))"
  "harmless_cmds (snd (toggle_ops ui local dm a))"
  "harmless_cmds (snd (switch_stats a))"
  by (auto simp: toggle_docker_def toggle_fetch_def toggle_graphs_def toggle_alerts_def
      toggle_ops_def switch_stats_def Let_def harmless_cmds_def list_all_iff)

lemma theme_quits [quits]: "a_should_quit (fst (theme_step ui dm a)) = a_should_quit a"
  by (simp add: theme_step_def cycle_theme_def rebuild_palette_view_def rerender_all_def Let_def)

lemma theme_harmless [simp]: "harmless_effects (snd (theme_step ui dm a))"
  by (simp add: theme_step_def Let_def split: option.split)

lemma small_quits [quits]:
  "a_should_quit (rerender_all ui dm a) = a_should_quit a"
  "a_should_quit (toggle_focus a) = a_should_quit a"
  "a_should_quit (set_filtering b a) = a_should_quit a"
  "a_should_quit (set_show_upgrade_modal b a) = a_should_quit a"
  "a_should_quit (scroll_by f i a) = a_should_quit a"
  "a_should_quit (arm kd a) = a_should_quit a"
  "a_should_quit (fst (load_known_passwords ui a)) = a_should_quit a"
  "a_should_quit (snd (begin_vault_unlock ui a)) = a_should_quit a"
  by (simp_all add: rerender_all_def toggle_focus_def set_filtering_def set_show_upgrade_modal_def
      scroll_by_def arm_def load_known_passwords_def begin_vault_unlock_def begin_password_unlock_def
      bump_vault_epoch_def prompt_for_master_password_def Let_def quits
      split: option.split payload.split vault_state.split)

lemma more_quits [quits]:
  "a_should_quit (zoom_graphs ui dm closer a) = a_should_quit a"
  "a_should_quit (process_keys k a) = a_should_quit a"
  "a_should_quit (fst (enter_upgrade_view ui a)) = a_should_quit a"
  "a_should_quit (note_nothing_to_upgrade a) = a_should_quit a"
  "a_should_quit (fst (start_unlock ui a)) = a_should_quit a"
  "a_should_quit (fst (open_settings i b a)) = a_should_quit a"
  "a_should_quit (snd (bump i a)) = a_should_quit a"
  by (simp_all add: zoom_graphs_def process_keys_def enter_upgrade_view_def note_nothing_to_upgrade_def
      start_unlock_def open_settings_def bump_def Let_def case_prod_beta quits split: option.split)

lemma loads_calm:
  "a_should_quit (fst (dispatch_credential_loads ui direct loads a)) = a_should_quit a
    \<and> harmless_effects (snd (dispatch_credential_loads ui direct loads a))"
proof (induction loads arbitrary: a)
  case (Cons l loads)
  then show ?case by (cases l; cases direct) (simp_all add: Let_def case_prod_beta quits)
qed simp

lemma start_unlock_harmless [simp]: "harmless_effects (snd (start_unlock ui a))"
  by (simp add: start_unlock_def case_prod_beta Let_def split: option.split)

lemma copy_harmless [simp]: "harmless_effects (copy_selected a)"
  by (simp add: copy_selected_def split: option.split)

section \<open>The stages of the dispatch\<close>

lemma calm_simps [simp]:
  "calm a (t, c, cmds, es) \<longleftrightarrow>
     a_should_quit c = a_should_quit a \<and> harmless_cmds cmds \<and> harmless_effects es"
  "calm a (taken_saving ui b) \<longleftrightarrow> a_should_quit b = a_should_quit a"
  "calm a (taken_cmds r) \<longleftrightarrow> a_should_quit (fst r) = a_should_quit a \<and> harmless_cmds (snd r)"
  "calm a (load_and_take ui l) \<longleftrightarrow> a_should_quit (fst l) = a_should_quit a"
  by (simp_all add: calm_def taken_saving_def taken_cmds_def load_and_take_def case_prod_beta Let_def
      quits loads_calm)

lemma palette_view_calm:
  assumes "palette_view ui local dm input a = Some r"
  shows "a_should_quit (fst r) = a_should_quit a \<and> harmless_cmds (snd r)"
proof -
  have "r \<in> {toggle_docker ui dm a, toggle_fetch ui dm a, toggle_graphs ui dm a, switch_stats a,
      toggle_ops ui local dm a}"
    using assms unfolding palette_view_def by (simp only: option.inject split: if_splits) blast+
  then show ?thesis
    by (auto simp: quits)
qed

lemma palette_calm: "calm a (execute_palette_command ui local dm raw a)"
  unfolding execute_palette_command_def Let_def case_prod_beta
  by (intro branch_if [where P = "calm a"] branch_option [where P = "calm a"])
     (simp_all add: quits loads_calm palette_view_calm)

lemma calm_cong: "a_should_quit a = a_should_quit b \<Longrightarrow> calm a r = calm b r"
  by (simp add: calm_def)

lemma overlay_calm: "calm a (overlay_keys ui local dm k a)"
proof -
  have "calm a (execute_palette_command ui local dm raw (a\<lparr>a_command_input := [], a_overlay := NoOverlay\<rparr>))" for raw
    using palette_calm by (rule calm_cong [THEN iffD1, rotated]) simp
  then show ?thesis
    by (simp add: overlay_keys_def split: overlay.split key_code.split)
qed

lemma filter_calm: "calm a (filter_keys ui ke a)"
  by (simp add: filter_keys_def save_filter_def Let_def quits split: option.split key_code.split)

lemma view_calm: "calm a (view_keys ui local dm k a)"
proof -
  have "harmless_effects (upgradable_checks ui b)" for b
    by (auto simp: upgradable_checks_def harmless_effects_def list_all_iff)
  then have "a_should_quit (fst (u_key ui a)) = a_should_quit a \<and> harmless_effects (snd (u_key ui a))"
    by (simp add: u_key_def Let_def case_prod_beta quits loads_calm)
  then show ?thesis
    by (simp add: view_keys_def Let_def case_prod_beta quits)
qed

lemma nav_calm:
  "calm a (focus_and_navigation_keys ui dm ke a) \<or> focus_and_navigation_keys ui dm ke a = taken (request_quit a)"
proof -
  let ?P = "\<lambda>r. calm a r \<or> r = taken (request_quit a)"
  have "calm a (set_sort ui srt a)" for srt
    by (simp add: set_sort_def case_prod_beta Let_def quits)
  moreover have "calm a (tail_selected a)"
    by (simp add: tail_selected_def case_prod_beta Let_def quits)
  moreover have "calm a (scroll_keys k a)" for k
    by (simp add: scroll_keys_def scroll_up_def scroll_down_def scroll_to_top_def scroll_to_bottom_def quits)
  ultimately show ?thesis
    unfolding focus_and_navigation_keys_def Let_def case_prod_beta
    by (intro branch_if [where P = ?P] branch_option [where P = ?P]) (simp_all add: quits)
qed

section \<open>The settings panel\<close>

lemma with_manager_simps [simp]:
  "a_should_quit (with_manager f a) = a_should_quit a"
  "a_panels (with_manager f a) = a_panels a"
  by (simp_all add: with_manager_def split: option.split)

lemma set_notice_simps [simp]:
  "a_should_quit (set_notice t a) = a_should_quit a"
  "a_panels (set_notice t a) = a_panels a"
  by (simp_all add: set_notice_def)

lemma prepend_notice_simps [simp]:
  "a_should_quit (prepend_notice t a) = a_should_quit a"
  "a_panels (prepend_notice t a) = a_panels a"
  by (simp_all add: prepend_notice_def split: option.split)

lemma on_unlocked_simps [simp]:
  "a_should_quit (snd (on_unlocked f a)) = a_should_quit a"
  "a_panels (snd (on_unlocked f a)) = a_panels a"
  by (simp_all add: on_unlocked_def case_prod_beta Let_def split: vault_state.split)

lemma offer_vault_simps [simp]:
  "a_should_quit (offer_vault_creation a) = a_should_quit a"
  "a_panels (offer_vault_creation a) = a_panels a"
  by (simp_all add: offer_vault_creation_def begin_vault_creation_def bump_vault_epoch_def Let_def)

lemma replace_quits [quits]: "a_should_quit (replace_panels ui servers a) = a_should_quit a"
  by (simp add: replace_panels_def Let_def)

lemma write_servers_calm:
  "a_should_quit (fst (snd (write_servers ui servers a))) = a_should_quit a"
  "harmless_effects (snd (snd (write_servers ui servers a)))"
  by (simp_all add: write_servers_def Let_def quits split: option.split)

lemma replaced_modes: "p \<in> set (a_panels (replace_panels ui servers a)) \<Longrightarrow> pn_mode p = MMonitor"
  by (auto simp: replace_panels_def Let_def carry_credential_def panel_new_def split: option.split)

lemma written_modes:
  assumes "is_ok (fst (write_servers ui servers a))"
    "p \<in> set (a_panels (fst (snd (write_servers ui servers a))))"
  shows "pn_mode p = MMonitor"
  using assms replaced_modes
  by (auto simp: write_servers_def is_ok_def Let_def split: option.splits)

text \<open>Saving a host's password starts nothing unless the panel is in the Upgrade view.\<close>

lemma save_calm:
  assumes "pn_mode (a_panels a ! i) \<noteq> MUpgrade" "i < length (a_panels a)"
  shows "calm a (True, on_save ui now i password False a)"
  using assms by (simp add: on_save_def Let_def case_prod_beta quits)

lemma delete_calm: "a_should_quit (fst (on_delete ui i a)) = a_should_quit a"
  "harmless_effects (snd (on_delete ui i a))"
  by (simp_all add: on_delete_def Let_def case_prod_beta quits)

lemma report_simps [simp]:
  "a_should_quit (report_server_write r a) = a_should_quit a"
  "a_panels (report_server_write r a) = a_panels a"
  by (simp_all add: report_server_write_def)

lemma edit_calm: "calm a (True, on_apply_edit ui now servers i password a)"
proof (cases "is_ok (fst (write_servers ui servers a))")
  case False
  then show ?thesis
    by (simp add: on_apply_edit_def Let_def case_prod_beta write_servers_calm)
next
  case True
  let ?b = "report_server_write (fst (write_servers ui servers a)) (fst (snd (write_servers ui servers a)))"
  have s: "calm ?b (True, on_save ui now i pass False ?b)" if "i < length (a_panels ?b)" for pass
    using that written_modes [OF True] by (intro save_calm) (simp_all add: nth_mem)
  show ?thesis
    using True s
    by (auto simp: on_apply_edit_def Let_def case_prod_beta write_servers_calm delete_calm calm_def
        split: option.split)
qed

lemma fields_no_save:
  "snd (prompt_key m k) \<noteq> PaSave i pass resume"
  "snd (draft_key servers d m k) \<noteq> PaSave i pass resume"
  "snd (answer_pending_delete m k a) \<noteq> PaSave i pass resume"
  by (auto simp: prompt_key_def draft_key_def answer_pending_delete_def Let_def case_prod_beta
      split: option.split key_code.split pw_edit.split sum.split)

text \<open>A key of the panel neither ends the application nor asks for a save that resumes a run.\<close>

definition mild :: "('o, 'v) app \<Rightarrow> ('o, 'v) app \<times> pw_action \<Rightarrow> bool" where
  "mild a r \<longleftrightarrow> a_should_quit (fst r) = a_should_quit a \<and> (\<forall>i pass resume. snd r \<noteq> PaSave i pass resume)"

lemma settings_mild: "mild a (settings_key k a)"
  unfolding settings_key_def row_key_def Let_def case_prod_beta
  by (intro branch_if [where P = "mild a"] branch_option [where P = "mild a"])
     (simp_all add: mild_def fields_no_save answer_pending_delete_def Let_def split: option.split)

lemmas settings_quits = settings_mild [unfolded mild_def, THEN conjunct1]
  and settings_no_save = settings_mild [unfolded mild_def, THEN conjunct2, rule_format]

text \<open>The settings panel starts no run: what its keys ask for never resumes one.\<close>

lemma settings_calm:
  assumes "\<And>i pass resume. act \<noteq> PaSave i pass resume"
  shows "calm a (True, pw_apply ui now act a)"
proof (cases act)
  case (PaImport)
  then show ?thesis
    by (simp add: on_import_def Let_def case_prod_beta write_servers_calm split: option.split)
next
  case (PaApplyEdit servers i password)
  then show ?thesis using edit_calm by (simp only: pw_apply.simps)
qed (use assms in \<open>simp_all add: write_servers_calm delete_calm on_rotate_def on_cycle_banner_def
  bump_vault_epoch_def Let_def case_prod_beta split: option.split\<close>)

lemma vault_keys_calm: "calm a (vault_and_password_keys ui now k a)"
proof -
  have "calm a (creation_keys ui k a)"
    by (simp add: creation_keys_def cancel_vault_creation_def begin_vault_create_attempt_def
        fail_vault_creation_def bump_vault_epoch_def Let_def split: key_code.split option.split)
  moreover have "calm a (unlock_prompt_keys k a)"
    by (simp add: unlock_prompt_keys_def set_vault_unlocking_def set_vault_password_error_def
        set_show_vault_password_prompt_def bump_vault_epoch_def Let_def
        split: key_code.split option.split vault_state.split)
  moreover have "calm (fst (settings_key k a))
      (True, pw_apply ui now (snd (settings_key k a)) (fst (settings_key k a)))"
    by (rule settings_calm) (rule settings_no_save)
  ultimately show ?thesis
    by (simp add: vault_and_password_keys_def calm_def case_prod_beta Let_def settings_quits)
qed

section \<open>The dispatch\<close>

text \<open>A stage that does not take the key leaves everything to the next.\<close>

definition quiet :: "('o, 'v) app \<Rightarrow> ('o, 'v) kstep \<Rightarrow> bool" where
  "quiet a r \<longleftrightarrow> fst r \<or> r = ignored a"

lemma quiet_taken [simp]: "quiet a (True, r)" "quiet a (taken_saving ui b)" "quiet a (taken_cmds c)"
  "quiet a (load_and_take ui d)" "quiet a (ignored a)"
  by (simp_all add: quiet_def taken_saving_def taken_cmds_def load_and_take_def case_prod_beta Let_def)

lemma palette_quiet: "quiet b (execute_palette_command ui local dm raw a)"
  unfolding execute_palette_command_def Let_def case_prod_beta
  by (intro branch_if [where P = "quiet b"] branch_option [where P = "quiet b"] quiet_taken)

lemma quiet_stages:
  "quiet a (overlay_keys ui local dm k a)"
  "quiet a (confirmation_keys ui now dm ke a)"
  "quiet a (vault_and_password_keys ui now k a)"
  "quiet a (filter_keys ui ke a)"
  "quiet a (focus_and_navigation_keys ui dm ke a)"
proof -
  show "quiet a (overlay_keys ui local dm k a)"
    by (simp add: overlay_keys_def palette_quiet split: overlay.split key_code.split)
  show "quiet a (confirmation_keys ui now dm ke a)"
    unfolding confirmation_keys_def upgrade_confirm_keys_def Let_def case_prod_beta
    by (simp split: option.split confirm.split)
  show "quiet a (vault_and_password_keys ui now k a)"
    by (simp add: vault_and_password_keys_def creation_keys_def unlock_prompt_keys_def Let_def
        case_prod_beta split: key_code.split option.split)
  show "quiet a (filter_keys ui ke a)"
    by (simp add: filter_keys_def save_filter_def Let_def split: option.split)
  show "quiet a (focus_and_navigation_keys ui dm ke a)"
    unfolding focus_and_navigation_keys_def Let_def case_prod_beta set_sort_def tail_selected_def
      scroll_keys_def
    by (intro branch_if [where P = "quiet a"] branch_option [where P = "quiet a"] quiet_taken)
qed

lemma or_else_any:
  assumes "P r" "quiet a r" "P (f a)"
  shows "P (or_else r f)"
  using assms by (cases r) (auto simp: or_else_def quiet_def split: bool.split)

text \<open>What holds of every calm step and of the confirmations and the way out holds of any key.\<close>

lemma handle_key_any:
  assumes "\<And>r. calm a r \<Longrightarrow> P (snd r)"
    and "P (snd (confirmation_keys ui now dm ke a))"
    and "P (request_quit a, [], [])"
    and "P (cancel_vault_biometric a, [], [])" "P (cancel_vault_verify a, [], [])"
  shows "P (handle_key ui local now dm ke a)"
proof -
  let ?P = "\<lambda>r. P (snd r)"
  have nav: "?P (focus_and_navigation_keys ui dm ke a)"
    using nav_calm [of a ui dm ke] by (rule disjE) (erule assms(1), simp add: assms(3))
  have "?P (or_else (overlay_keys ui local dm (ke_code ke) a) (\<lambda>a.
        or_else (confirmation_keys ui now dm ke a) (\<lambda>a.
        or_else (vault_and_password_keys ui now (ke_code ke) a) (\<lambda>a.
        or_else (filter_keys ui ke a) (\<lambda>a.
        or_else (focus_and_navigation_keys ui dm ke a) (\<lambda>a.
        view_keys ui local dm (ke_code ke) a))))))"
    by (intro or_else_any [where P = ?P and a = a] quiet_stages nav
        assms(2) assms(1) [OF overlay_calm] assms(1) [OF vault_keys_calm] assms(1) [OF filter_calm]
        assms(1) [OF view_calm])
  moreover have "P (a, [], [])"
    using assms(1) [of "taken a"] by simp
  ultimately show ?thesis
    using assms(4,5) by (simp add: handle_key_def Let_def)
qed

section \<open>One key does not end the application under a running upgrade\<close>

lemma confirm_quits:
  "a_should_quit (fst (confirm_upgrade ui now a)) = a_should_quit a"
proof -
  have "a_should_quit (fst (start_panels is b)) = a_should_quit b" for "is" and b :: "('a, 'b) app"
    by (induction "is" arbitrary: b) (simp_all add: Let_def case_prod_beta quits)
  then show ?thesis
    by (simp add: confirm_upgrade_def run_upgrade_def mark_upgrades_started_def reset_scroll_def
        Let_def case_prod_beta quits)
qed

lemma fire_quits: "a_should_quit (fst (fire kd a)) = a_should_quit a"
  by (simp add: fire_def Let_def case_prod_beta quits split: option.split)

lemma confirmation_quits:
  assumes "\<not> a_quit_armed a"
  shows "a_should_quit (fst (snd (confirmation_keys ui now dm ke a))) = a_should_quit a"
proof -
  have "active_confirm a \<noteq> Some ConfirmQuit"
    using assms by (simp add: active_confirm_def)
  then show ?thesis
    by (simp add: confirmation_keys_def kill_confirm_keys_def upgrade_confirm_keys_def taken_cmds_def
        Let_def case_prod_beta fire_quits confirm_quits quits split: option.split confirm.split)
qed

text \<open>C16: No single key press ends the application while an upgrade is running. Whatever is on
  screen (a prompt, a dialog, the palette, the settings, a view) and whatever the key, with an
  upgrade in flight and the way out not yet asked for, the application goes on; the first request
  only asks for a second.\<close>

theorem one_key_never_quits:
  assumes "upgrades_in_flight a" "\<not> a_quit_armed a" "\<not> a_should_quit a"
  shows "\<not> a_should_quit (fst (handle_key ui local now dm ke a))"
  by (rule handle_key_any)
     (use assms in \<open>simp_all add: calm_def confirmation_quits request_quit_def cancel_vault_biometric_def
       cancel_vault_verify_def bump_vault_epoch_def Let_def\<close>)

definition key_of :: "key_code \<Rightarrow> key_event" where
  "key_of k = \<lparr>ke_code = k, ke_ctrl = False, ke_press = True\<rparr>"

theorem one_key_never_quits_witness:
  "\<not> a_should_quit (fst (handle_key (quiet_ui :: (unit, unit) ui) (\<lambda>_. False) 5
     (80, 24) (key_of (KChar (lit ''q''))) (sample_app [running_panel])))"
  by (rule one_key_never_quits)
     (simp_all add: upgrades_in_flight_def running_panel_def sample_app_def app_new_def)

section \<open>Nothing runs unconfirmed\<close>

lemma start_panels_runs:
  assumes "distinct is" "\<forall>j \<in> set is. j < length (a_panels a)"
    "RunUpgrade i g \<in> set (snd (start_panels is a))"
  shows "i \<in> set is \<and> g = pn_gen (a_panels a ! i) + 1 \<and> sv_upgrade_cmd (pn_server (a_panels a ! i)) \<noteq> None"
  using assms by (auto simp: start_panels_cmds)

lemma confirmed_runs:
  assumes "RunUpgrade i g \<in> set (fst (snd (confirm_upgrade ui now a)))"
  shows "i < length (a_panels a) \<and> g = pn_gen (a_panels a ! i) + 1
    \<and> sv_upgrade_cmd (pn_server (a_panels a ! i)) \<noteq> None"
proof -
  have "fst (snd (confirm_upgrade ui now a)) = snd (run_upgrade ui (a\<lparr>a_mode := Running\<rparr>))"
    by (simp add: confirm_upgrade_def Let_def case_prod_beta)
  then have "RunUpgrade i g \<in> set (snd (start_panels (filtered_indices ui (ready ui a)) (ready ui a)))"
    using assms by (simp add: run_upgrade_split)
  from start_panels_runs [OF filtered_indices_distinct _ this] filtered_indices_props(2) [of _ ui "ready ui a"]
  show ?thesis by (auto simp: ready_nth)
qed

text \<open>What the confirmation on screen allows.\<close>

definition confirmed :: "key_code \<Rightarrow> ('o, 'v) app \<Rightarrow> command list \<Rightarrow> effect list \<Rightarrow> bool" where
  "confirmed k a cmds es \<longleftrightarrow>
     (\<forall>i g. RunUpgrade i g \<in> set cmds \<longrightarrow>
        active_confirm a = Some ConfirmUpgrade \<and> key_in ''uU'' k \<and> \<not> any_password_checking a
        \<and> i < length (a_panels a) \<and> g = pn_gen (a_panels a ! i) + 1
        \<and> sv_upgrade_cmd (pn_server (a_panels a ! i)) \<noteq> None)
   \<and> (\<forall>kd i g s pid nm pw. ProcessAction kd i g s pid nm pw \<in> set es \<longrightarrow>
        active_confirm a = Some ConfirmKill \<and> i < length (a_panels a) \<and> s = pn_server (a_panels a ! i)
        \<and> a_kill_confirm a = Some \<lparr>ec_panel = i, ec_pid = pid, ec_name = nm, ec_kind = kd\<rparr>)"

lemma harmless_confirmed: "harmless_cmds cmds \<Longrightarrow> harmless_effects es \<Longrightarrow> confirmed k a cmds es"
  by (force simp: confirmed_def harmless_cmds_def harmless_effects_def list_all_iff)

lemma fire_confirmed:
  "ProcessAction kd' i g s pid nm pw \<in> set (snd (fire kd a)) \<Longrightarrow>
     i < length (a_panels a) \<and> s = pn_server (a_panels a ! i)
     \<and> a_kill_confirm a = Some \<lparr>ec_panel = i, ec_pid = pid, ec_name = nm, ec_kind = kd'\<rparr>"
  by (auto simp: fire_def bump_def Let_def split: option.splits if_splits)

lemma kill_confirmed:
  assumes "ProcessAction kd i g s pid nm pw \<in> set (snd (kill_confirm_keys k a))"
  shows "i < length (a_panels a) \<and> s = pn_server (a_panels a ! i)
     \<and> a_kill_confirm a = Some \<lparr>ec_panel = i, ec_pid = pid, ec_name = nm, ec_kind = kd\<rparr>"
proof -
  have "\<exists>kd. kill_confirm_keys k a = fire kd a \<or> snd (kill_confirm_keys k a) = []"
    unfolding kill_confirm_keys_def by (simp; blast)
  then show ?thesis
    using assms fire_confirmed by (metis empty_iff list.set(1))
qed

lemma confirm_effects: "harmless_effects (snd (snd (confirm_upgrade ui now a)))"
  by (simp add: confirm_upgrade_def mark_upgrades_started_def Let_def case_prod_beta)

lemma confirmation_confirmed:
  "confirmed (ke_code ke) a (fst (snd (snd (confirmation_keys ui now dm ke a))))
     (snd (snd (snd (confirmation_keys ui now dm ke a))))"
proof (cases "active_confirm a")
  case None
  then show ?thesis by (simp add: confirmation_keys_def harmless_confirmed)
next
  case (Some c)
  show ?thesis
  proof (cases c)
    case ConfirmQuit
    then show ?thesis using Some by (simp add: confirmation_keys_def Let_def harmless_confirmed)
  next
    case ConfirmKill
    then show ?thesis
      using Some kill_confirmed [of _ _ _ _ _ _ _ "ke_code ke" a]
      by (simp add: confirmation_keys_def confirmed_def Let_def case_prod_beta)
  next
    case ConfirmUpgrade
    have "confirmed (ke_code ke) a (fst (snd (confirm_upgrade ui now a))) (snd (snd (confirm_upgrade ui now a)))"
      if "key_in ''uU'' (ke_code ke)" "\<not> any_password_checking a"
      using that Some ConfirmUpgrade confirmed_runs [of _ _ ui now a] confirm_effects [of ui now a]
      by (auto simp: confirmed_def harmless_effects_def list_all_iff)
    then show ?thesis
      using Some ConfirmUpgrade
      by (simp add: confirmation_keys_def upgrade_confirm_keys_def taken_cmds_def Let_def case_prod_beta
          harmless_confirmed)
  qed
qed


section \<open>The way round\<close>

lemma unlock_without_prompt:
  assumes "a_vault_state a = VLocked \<and> a_vault a = None \<or> a_vault_state a = VUnlocked v False"
  shows "start_unlock ui a = (a\<lparr>a_mode := ShowUpgradeModal\<rparr>, [])"
  using assms
  by (auto simp: start_unlock_def begin_vault_unlock_def show_vault_password_prompt_def
      set_show_upgrade_modal_def)

lemma palette_unlock:
  assumes "tx_lower (ui_text ui) (trim raw) = lit ''vault unlock''"
    and "a_vault_state a = VLocked \<and> a_vault a = None \<or> a_vault_state a = VUnlocked v False"
  shows "execute_palette_command ui local dm raw a = taken (a\<lparr>a_mode := ShowUpgradeModal\<rparr>)"
proof -
  have s: "strip_prefix (lit ''filter '') (lit ''vault unlock'') = None"
    "lit ''vault unlock'' \<noteq> lit ''filter''" "lit ''vault unlock'' \<noteq> lit ''clear filter''"
    "\<not> starts_with (lit ''vault unlock'') (lit ''upgrade'')"
    "\<not> starts_with (lit ''vault unlock'') (lit ''sort '')"
    "lit ''vault unlock'' \<noteq> lit ''theme''" "\<not> starts_with (lit ''vault unlock'') (lit ''theme '')"
    "lit ''vault unlock'' \<noteq> lit ''add server''" "lit ''vault unlock'' \<noteq> lit ''add''"
    by code_simp+
  have "lit ''vault unlock'' \<notin> {lit ''docker'', lit ''fetch'', lit ''graphs'', lit ''graph'', lit ''stats'',
      lit ''s'', lit ''ops''}"
    by code_simp
  then have "palette_view ui local dm (lit ''vault unlock'') a = None"
    by (simp add: palette_view_def)
  then show ?thesis
    by (simp add: execute_palette_command_def Let_def assms(1) s unlock_without_prompt [OF assms(2)])
qed

lemma no_prompt:
  assumes "a_vault_state a = VLocked \<and> a_vault a = None \<or> a_vault_state a = VUnlocked v False"
  shows "\<not> vault_awaiting_biometric a" "\<not> vault_verifying a"
  using assms by (auto simp: vault_awaiting_biometric_def vault_verifying_def)

lemma palette_enter:
  assumes "a_overlay a = CommandPalette" "tx_lower (ui_text ui) (trim (a_command_input a)) = lit ''vault unlock''"
    and "a_vault_state a = VLocked \<and> a_vault a = None \<or> a_vault_state a = VUnlocked v False"
  shows "handle_key ui local now dm (key_of KEnter) a =
    (a\<lparr>a_command_input := [], a_overlay := NoOverlay, a_mode := ShowUpgradeModal\<rparr>, [], [])"
proof -
  have "execute_palette_command ui local dm (a_command_input a) (a\<lparr>a_command_input := [], a_overlay := NoOverlay\<rparr>) =
      taken (a\<lparr>a_command_input := [], a_overlay := NoOverlay, a_mode := ShowUpgradeModal\<rparr>)"
    using assms(2,3) by (subst palette_unlock [where v = v]) simp_all
  then show ?thesis
    using assms(1) no_prompt [OF assms(3)]
    by (simp add: handle_key_def key_of_def overlay_keys_def or_else_def is_palette_def key_in_def Let_def)
qed

lemma u_confirms:
  assumes "a_overlay b = NoOverlay" "a_mode b = ShowUpgradeModal" "a_kill_confirm b = None"
    "\<not> a_quit_armed b" "\<not> any_password_checking b"
    and "a_vault_state b = VLocked \<and> a_vault b = None \<or> a_vault_state b = VUnlocked v False"
  shows "handle_key ui local now dm (key_of (KChar (lit ''u''))) b = confirm_upgrade ui now b"
proof -
  have k: "key_in ''uU'' (KChar (lit ''u''))" "\<not> key_in ''?'' (KChar (lit ''u''))"
    "\<not> key_in '':'' (KChar (lit ''u''))"
    by code_simp+
  show ?thesis
    using assms no_prompt [OF assms(6)]
    by (simp add: handle_key_def key_of_def overlay_keys_def or_else_def is_palette_def k Let_def
        confirmation_keys_def active_confirm_def upgrade_confirm_keys_def case_prod_beta)
qed

text \<open>The palette restarts a running upgrade. While the key \<open>u\<close> refuses to ask for a run as
  long as one is in flight, the palette's \<open>vault unlock\<close>, with no vault or with one already open,
  puts up the same confirmation: \<open>u\<close> then hands out the command of the running host a second
  time, under a new generation and on an emptied log, so what the first run goes on to say, and
  how it ends, is no longer taken in.\<close>

theorem palette_restarts_running_upgrade:
  assumes "i < length (a_panels a)" "pn_upgrade_state (a_panels a ! i) = UStarted"
    "sv_upgrade_cmd (pn_server (a_panels a ! i)) \<noteq> None"
    and "a_overlay a = CommandPalette" "tx_lower (ui_text ui) (trim (a_command_input a)) = lit ''vault unlock''"
    and "a_vault_state a = VLocked \<and> a_vault a = None \<or> a_vault_state a = VUnlocked v False"
    and "a_kill_confirm a = None" "\<not> a_quit_armed a" "\<not> any_password_checking a"
    and "a_focused a = None" "trim (a_filter_query a) = []" "tx_lower (ui_text ui) [] = []"
  shows "let (b, cmds, es) = handle_key ui local now dm (key_of KEnter) a;
             (c, cmds', es') = handle_key ui local now dm (key_of (KChar (lit ''u''))) b;
             g = pn_gen (a_panels a ! i) + 1
         in upgrades_in_flight b \<and> RunUpgrade i g \<in> set cmds' \<and> pn_upgrade_gen (a_panels c ! i) = g
          \<and> ring_lines (pn_last_upgrade (a_panels c ! i)) = []"
proof -
  let ?b = "a\<lparr>a_command_input := [], a_overlay := NoOverlay, a_mode := ShowUpgradeModal\<rparr>"
  have b: "handle_key ui local now dm (key_of (KChar (lit ''u''))) ?b = confirm_upgrade ui now ?b"
    using assms(6-9) by (intro u_confirms [where v = v]) (simp_all add: any_password_checking_def)
  have "upgrades_in_flight ?b"
    using assms(1,2) by (auto simp: upgrades_in_flight_def list_ex_iff)
  then show ?thesis
    using runs_recorded [of ?b ui i now] assms
    by (simp add: palette_enter [OF assms(4-6)] b Let_def case_prod_beta)
qed

definition palette_app :: "(unit, unit) app" where
  "palette_app = (sample_app [running_panel])\<lparr>a_overlay := CommandPalette, a_command_input := lit ''vault unlock''\<rparr>"

theorem palette_restarts_running_upgrade_witness:
  "let (b, cmds, es) = handle_key quiet_ui (\<lambda>_. False) 5 (80, 24) (key_of KEnter) palette_app;
       (c, cmds', es') = handle_key quiet_ui (\<lambda>_. False) 5 (80, 24) (key_of (KChar (lit ''u''))) b
   in RunUpgrade 0 2 \<in> set cmds'"
proof -
  have t: "tx_lower (ui_text quiet_ui) (trim (a_command_input palette_app)) = lit ''vault unlock''"
    by code_simp
  have p: "a_panels palette_app = [running_panel]" "a_overlay palette_app = CommandPalette"
    "a_vault_state palette_app = VLocked" "a_vault palette_app = None" "a_kill_confirm palette_app = None"
    "\<not> a_quit_armed palette_app" "a_focused palette_app = None" "a_filter_query palette_app = []"
    by (simp_all add: palette_app_def sample_app_def app_new_def)
  have r: "pn_upgrade_state running_panel = UStarted" "pn_server running_panel = sample_server"
    "pn_gen running_panel = 1" "\<not> in_flight (pn_lookup running_panel)"
    by (simp_all add: running_panel_def sample_panel_def panel_new_def in_flight_def)
  show ?thesis
    using palette_restarts_running_upgrade [of 0 palette_app quiet_ui _ "\<lambda>_. False" 5 "(80, 24)", OF _ _ _ p(2) t]
    by (simp add: p r any_password_checking_def Let_def case_prod_beta)
qed

end
