(* ===== verification/Settings_Props.thy ===== *)
theory Settings_Props
  imports Keys_Props
begin

text \<open>
  What the settings panel does to hosts and passwords: a host is removed only on the answer the
  question names, passwords stay with their account when the list is rewritten, and the way an
  edit that changes nothing still loses a stored password.
\<close>

section \<open>Removing a host\<close>

definition removal_of :: "('o, 'v) app \<Rightarrow> key_code \<Rightarrow> server list \<Rightarrow> bool" where
  "removal_of a k servers \<longleftrightarrow>
     (\<exists>m idx. a_manager a = Some m \<and> pm_pending_delete m = Some idx \<and> pm_edit m = None \<and> pm_draft m = None
        \<and> key_in ''yY'' k \<and> idx < length (a_panels a)
        \<and> servers = map pn_server (take idx (a_panels a) @ drop (idx + 1) (a_panels a)))"

definition removes_only :: "(server list \<Rightarrow> bool) \<Rightarrow> ('o, 'v) app \<times> pw_action \<Rightarrow> bool" where
  "removes_only P r \<longleftrightarrow> (\<forall>servers. snd r = PaApplyServers servers \<longrightarrow> P servers)"

lemma fields_remove_nothing:
  "snd (prompt_key m k) \<noteq> PaApplyServers servers"
  "snd (draft_key ss d m k) \<noteq> PaApplyServers servers"
  by (auto simp: prompt_key_def draft_key_def Let_def case_prod_beta
      split: option.split key_code.split pw_edit.split sum.split)

text \<open>A host leaves the configuration only on \<open>y\<close>. Of all keys of the settings panel, in
  whatever state it is, only \<open>y\<close> typed as the answer to the removal question asks for the server
  list to be written without a host, and the list then lacks exactly the host the question was
  about, the others in their order.\<close>

theorem only_yes_removes:
  assumes "snd (settings_key k a) = PaApplyServers servers"
  shows "removal_of a k servers"
proof (cases "a_manager a")
  case None
  then show ?thesis using assms by (simp add: settings_key_def)
next
  case (Some m)
  let ?P = "removes_only (removal_of a k)"
  have "?P (answer_pending_delete m k a)"
    if "pm_pending_delete m \<noteq> None" "pm_edit m = None" "pm_draft m = None"
    using that Some by (auto simp: removes_only_def answer_pending_delete_def removal_of_def Let_def
        split: if_splits)
  then have "?P (row_key m k a)"
    by (cases "pm_edit m"; cases "pm_draft m"; cases "pm_pending_delete m")
       (simp_all add: row_key_def removes_only_def fields_remove_nothing Let_def case_prod_beta)
  then show ?thesis
    using assms Some by (simp add: settings_key_def removes_only_def)
qed

definition removal_app :: "(unit, unit) app" where
  "removal_app = (sample_app [sample_panel, sample_panel\<lparr>pn_server := sample_server\<lparr>sv_port := 23\<rparr>\<rparr>])
     \<lparr>a_manager := Some ((manager_new 1 False)\<lparr>pm_pending_delete := Some 0\<rparr>)\<rparr>"

theorem only_yes_removes_witness:
  "removal_of removal_app (KChar [0x79]) [sample_server\<lparr>sv_port := 23\<rparr>]"
proof (rule only_yes_removes)
  show "snd (settings_key (KChar [0x79]) removal_app) = PaApplyServers [sample_server\<lparr>sv_port := 23\<rparr>]"
    by (simp add: removal_app_def settings_key_def row_key_def answer_pending_delete_def sample_app_def lit_def
        app_new_def manager_new_def key_in_def Let_def case_prod_beta sample_panel_def panel_new_def)
qed

section \<open>Passwords stay with their account\<close>

definition credentials :: "'o panel \<Rightarrow> rstring option \<times> bool \<times> bool \<times> credential_lookup" where
  "credentials p = (pn_sudo_password p, pn_password_saved p, pn_external_password p, pn_lookup p)"

lemma carry_found:
  "find (\<lambda>old. account (pn_server old) = account (pn_server p)) olds = Some old \<Longrightarrow>
     credentials (carry_credential olds p) = credentials old"
  by (simp add: carry_credential_def credentials_def)

lemma replaced_nth:
  assumes "i < length servers"
  shows "\<exists>p. a_panels (replace_panels ui servers a) ! i = carry_credential (a_panels a) p
    \<and> pn_server p = servers ! i \<and> pn_sudo_password p = None"
  using assms by (auto simp: replace_panels_def Let_def panel_new_def)

lemma find_account:
  assumes "p \<in> set ps" "distinct (map (\<lambda>p. account (pn_server p)) ps)" "account (pn_server p) = k"
  shows "find (\<lambda>p. account (pn_server p) = k) ps = Some p"
  using assms by (induction ps) (auto simp: image_iff)

text \<open>C33: A rewritten server list moves no password to another account. Whatever list replaces the
  old one, a panel that comes with a password had it, as a panel of the same user, host and port,
  before; and where the accounts of the old list are distinct, a panel of the new list whose
  account was in the old one has that panel's password, whether it is stored, and the state of its
  lookup, wherever in the list it now stands.\<close>

theorem passwords_follow_account:
  fixes ui :: "('o, 'v) ui"
  assumes "i < length servers"
  shows "let q = a_panels (replace_panels ui servers a) ! i in pn_server q = servers ! i
    \<and> (pn_sudo_password q = Some pass \<longrightarrow>
        (\<exists>p \<in> set (a_panels a). account (pn_server p) = account (servers ! i) \<and> pn_sudo_password p = Some pass))
    \<and> (\<forall>p \<in> set (a_panels a). account (pn_server p) = account (servers ! i)
        \<longrightarrow> distinct (map (\<lambda>p. account (pn_server p)) (a_panels a)) \<longrightarrow> credentials q = credentials p)"
proof -
  let ?q = "a_panels (replace_panels ui servers a) ! i"
  obtain n where n: "?q = carry_credential (a_panels a) n" "pn_server n = servers ! i"
    "pn_sudo_password n = None"
    using replaced_nth [OF assms(1), of ui a] by auto
  have "pn_sudo_password ?q = Some pass \<Longrightarrow>
      \<exists>p \<in> set (a_panels a). account (pn_server p) = account (servers ! i) \<and> pn_sudo_password p = Some pass"
    using n by (auto simp: carry_credential_def find_Some_iff split: option.splits)
  moreover have "credentials ?q = credentials p"
    if "p \<in> set (a_panels a)" "account (pn_server p) = account (servers ! i)"
      "distinct (map (\<lambda>p. account (pn_server p)) (a_panels a))" for p
    unfolding n(1) using that n(2) by (intro carry_found find_account) simp_all
  ultimately show ?thesis
    using n by (simp add: Let_def)
qed

theorem passwords_follow_account_witness:
  "pn_sudo_password (a_panels (replace_panels (quiet_ui :: (unit, unit) ui) [sample_server\<lparr>sv_port := 23\<rparr>, sample_server]
     (sample_app [sample_panel\<lparr>pn_sudo_password := Some [0x61]\<rparr>])) ! 1) = Some [0x61]"
  using passwords_follow_account [of 1 "[sample_server\<lparr>sv_port := 23\<rparr>, sample_server]" "quiet_ui :: (unit, unit) ui"
      "sample_app [sample_panel\<lparr>pn_sudo_password := Some [0x61]\<rparr>]"]
  by (simp add: credentials_def Let_def)

section \<open>An edit of a row whose password is not loaded\<close>

lemma whole_port:
  fixes n :: u16
  assumes "n \<noteq> 0"
  shows "parse_unsigned 65535 (show_nat (unat n)) = Some (unat n)" "unat n \<noteq> 0"
proof -
  have "unat n < 2 ^ 16" using unsigned_less [of n] by simp
  then show "parse_unsigned 65535 (show_nat (unat n)) = Some (unat n)"
    by (intro parse_unsigned_show) simp
  show "unat n \<noteq> 0" using assms by (simp add: unat_eq_zero)
qed

text \<open>The row as the editor hands it back when nothing was typed.\<close>

definition unedited :: "server \<Rightarrow> server" where
  "unedited s = s\<lparr>sv_name := None, sv_custom_command := None, sv_mcp := None,
     sv_upgrade_cmd := (case sv_upgrade_cmd s of
                          Some c \<Rightarrow> if trim c = [] then None else Some c | None \<Rightarrow> None)\<rparr>"

lemma into_server_unedited:
  assumes "\<not> has_whitespace (sv_host s)" "\<not> has_whitespace (sv_user s)" "sv_port s \<noteq> 0"
  shows "into_server (draft_new i (Some s) pw) = Ok (unedited s)"
  using assms whole_port [OF assms(3)]
  by (cases s)
     (simp add: into_server_def draft_new_def validate_host_def validate_user_def rguard_def ok_or_def
       unedited_def split: option.split)

text \<open>A key reaches the settings panel when nothing is in front of it.\<close>

definition in_settings :: "('o, 'v) app \<Rightarrow> bool" where
  "in_settings a \<longleftrightarrow> a_overlay a = NoOverlay \<and> active_confirm a = None \<and> a_manager a \<noteq> None
     \<and> (case a_vault_state a of VLocked \<Rightarrow> True | VUnlocked v awaiting \<Rightarrow> \<not> awaiting | _ \<Rightarrow> False)"

lemma settings_reached:
  assumes "in_settings a"
  shows "handle_key ui local now dm (key_of KEnter) a =
    (let (b, act) = settings_key KEnter a in pw_apply ui now act b)"
  using assms
  by (auto simp: in_settings_def handle_key_def key_of_def overlay_keys_def is_palette_def key_in_def
      or_else_def confirmation_keys_def vault_and_password_keys_def vault_creating_def
      show_vault_password_prompt_def vault_awaiting_biometric_def vault_verifying_def
      Let_def case_prod_beta split: vault_state.splits)

lemma row_opened:
  assumes "a_manager a = Some m" "pm_edit m = None" "pm_draft m = None" "pm_pending_delete m = None"
    "i = pm_selected m" "i < length (a_panels a)"
  shows "settings_key KEnter a = (a\<lparr>a_manager := Some (m\<lparr>pm_draft := Some (draft_new (Some i)
      (Some (pn_server (a_panels a ! i))) (pn_sudo_password (a_panels a ! i)))\<rparr>)\<rparr>, PaNone)"
  using assms by (simp add: settings_key_def row_key_def key_in_def nth_opt_def Let_def)

lemma draft_accepted:
  assumes "a_manager a = Some m" "pm_edit m = None" "pm_draft m = Some d" "into_server d = Ok s"
    "sd_original d = Some i" "trim (sd_password d) = []"
  shows "settings_key KEnter a = (a\<lparr>a_manager := Some (m\<lparr>pm_draft := None\<rparr>)\<rparr>,
      PaApplyEdit ((map pn_server (a_panels a))[i := s]) i None)"
  using assms by (simp add: settings_key_def row_key_def draft_key_def Let_def)

lemma account_unedited [simp]: "account (unedited s) = account s"
  by (simp add: account_def unedited_def)

lemma edit_deletes:
  assumes "a_config_path a = Some path" "ui_save_servers ui path servers = None" "i < length servers"
  shows "StoreDelete (servers ! i) \<in> set (snd (snd (on_apply_edit ui now servers i None a)))"
    "SaveServers path servers \<in> set (snd (snd (on_apply_edit ui now servers i None a)))"
proof -
  have "length (a_panels (replace_panels ui servers a)) = length servers"
    by (simp add: replace_panels_def Let_def)
  moreover have "pn_server (a_panels (replace_panels ui servers a) ! i) = servers ! i"
    using replaced_nth [OF assms(3), of ui a] by (auto simp: carry_credential_simps)
  ultimately show "StoreDelete (servers ! i) \<in> set (snd (snd (on_apply_edit ui now servers i None a)))"
    "SaveServers path servers \<in> set (snd (snd (on_apply_edit ui now servers i None a)))"
    using assms
    by (simp_all add: on_apply_edit_def write_servers_def is_ok_def on_delete_def Let_def case_prod_beta)
qed

text \<open>Opening a host's row and accepting it unchanged deletes its stored password. The editor's
  password field starts from what the panel has loaded, and only the host the settings were
  opened on is looked up; for any other host whose password sits in the credential store, two
  presses of Enter (open, accept) write the list and then delete that account's entry from the
  store. The same two keys drop the host's \<open>name\<close>, \<open>mcp\<close> and \<open>custom_command\<close>, which the editor
  does not carry.\<close>

theorem saving_unloaded_row_deletes_password:
  assumes "in_settings a" "a_manager a = Some m" "pm_edit m = None" "pm_draft m = None"
    "pm_pending_delete m = None"
    and "pm_selected m < length (a_panels a)" "pn_server (a_panels a ! pm_selected m) = s"
    "pn_sudo_password (a_panels a ! pm_selected m) = None"
    and "\<not> has_whitespace (sv_host s)" "\<not> has_whitespace (sv_user s)" "sv_port s \<noteq> 0"
    and "a_config_path a = Some path" "\<forall>servers. ui_save_servers ui path servers = None"
  shows "let (b, cmds, es) = handle_key ui local now dm (key_of KEnter) a;
             (c, cmds', es') = handle_key ui local now dm (key_of KEnter) b
         in es = [] \<and> StoreDelete (unedited s) \<in> set es' \<and> account (unedited s) = account s
          \<and> SaveServers path ((map pn_server (a_panels a))[pm_selected m := unedited s]) \<in> set es'"
proof -
  let ?i = "pm_selected m"
  let ?d = "draft_new (Some ?i) (Some s) None"
  let ?m = "m\<lparr>pm_draft := Some ?d\<rparr>"
  let ?b = "a\<lparr>a_manager := Some ?m\<rparr>" and ?c = "a\<lparr>a_manager := Some (?m\<lparr>pm_draft := None\<rparr>)\<rparr>"
  let ?servers = "(map pn_server (a_panels a))[?i := unedited s]"
  have one: "handle_key ui local now dm (key_of KEnter) a = (?b, [], [])"
    using row_opened [OF assms(2-5) refl assms(6)] assms(7,8)
    by (simp add: settings_reached [OF assms(1)])
  have b: "in_settings ?b"
    using assms(1) by (simp add: in_settings_def active_confirm_def split: if_splits)
  have "settings_key KEnter ?b = (?c, PaApplyEdit ?servers ?i None)"
    using draft_accepted [of ?b ?m ?d "unedited s" ?i] into_server_unedited [OF assms(9-11), of "Some ?i" None] assms(3)
    by (simp add: draft_new_def)
  then have "handle_key ui local now dm (key_of KEnter) ?b = on_apply_edit ui now ?servers ?i None ?c"
    by (simp add: settings_reached [OF b])
  then show ?thesis
    using edit_deletes [of ?c path ui ?servers ?i now] assms(6,12,13)
    by (simp add: one Let_def case_prod_beta)
qed

definition settings_app :: "(unit, unit) app" where
  "settings_app = (sample_app [sample_panel\<lparr>pn_sudo_password := Some [0x61]\<rparr>,
       sample_panel\<lparr>pn_server := sample_server\<lparr>sv_host := lit ''db''\<rparr>\<rparr>])
     \<lparr>a_config_path := Some [0x63], a_manager := Some (manager_new 1 False)\<rparr>"

theorem saving_unloaded_row_deletes_password_witness:
  "let (b, cmds, es) = handle_key quiet_ui (\<lambda>_. False) 5 (80, 24) (key_of KEnter) settings_app;
       (c, cmds', es') = handle_key quiet_ui (\<lambda>_. False) 5 (80, 24) (key_of KEnter) b
   in StoreDelete (unedited (sample_server\<lparr>sv_host := lit ''db''\<rparr>)) \<in> set es'"
proof -
  have w: "\<not> has_whitespace (lit ''db'')" "\<not> has_whitespace (sv_user sample_server)" "sv_port sample_server \<noteq> 0"
    by code_simp+
  have a: "in_settings settings_app" "a_manager settings_app = Some (manager_new 1 False)"
    "a_panels settings_app = [sample_panel\<lparr>pn_sudo_password := Some [0x61]\<rparr>,
       sample_panel\<lparr>pn_server := sample_server\<lparr>sv_host := lit ''db''\<rparr>\<rparr>]"
    "a_config_path settings_app = Some [0x63]"
    by (simp_all add: settings_app_def in_settings_def active_confirm_def sample_app_def app_new_def)
  have m: "pm_edit (manager_new i r) = None" "pm_draft (manager_new i r) = None"
    "pm_pending_delete (manager_new i r) = None" "pm_selected (manager_new i r) = i" for i r
    by (simp_all add: manager_new_def)
  have u: "\<forall>path servers. ui_save_servers (quiet_ui :: (unit, unit) ui) path servers = None"
    by (simp add: quiet_ui_def)
  show ?thesis
    using saving_unloaded_row_deletes_password [OF a(1,2) m(1-3), of "sample_server\<lparr>sv_host := lit ''db''\<rparr>"
        "[0x63]" quiet_ui "\<lambda>_. False" 5 "(80, 24)"]
    by (simp add: a m u w Let_def case_prod_beta)
qed

end
