(* ===== verification/Escape.thy ===== *)
theory Escape
  imports Text
begin

text \<open>
  The reading of terminal escapes that everything drawing a tool's output shares
  (crates/agent/src/escape.rs). The grammar itself is the crate \<open>vte\<close>: its parser is an
  argument, a state and the events one \<open>advance\<close> over some bytes calls back with, and what the
  theorems rely on is named (\<open>prints_plain\<close>). The visitor that turns events into tokens, the
  probe for a token boundary and the readings of a control sequence are the program's own.

  A \<open>char\<close> is its UTF-8 bytes.
\<close>

section \<open>The parser\<close>

datatype event =
    EvPrint rstring
  | EvExecute u8
  | EvCsi "u16 list list" bytes bool rstring
  | EvEsc bytes bool u8
  | EvOsc "bytes list" bool
  | EvHook
  | EvPut u8
  | EvUnhook

record 'p vte =
  vt_new :: 'p
  vt_advance :: "'p \<Rightarrow> bytes \<Rightarrow> 'p \<times> event list"

record csi =
  csi_params :: "u16 list list"
  csi_intermediates :: bytes
  csi_action :: rstring

datatype token =
    TPrint rstring
  | TControl u8
  | TCsi csi
  | TEsc bytes u8
  | TOsc "bytes list"
  | TOpaque

text \<open>The visitor: an event it does not override is no token.\<close>

fun token_of :: "event \<Rightarrow> token option" where
  "token_of (EvPrint c) = Some (TPrint c)"
| "token_of (EvExecute b) = Some (TControl b)"
| "token_of (EvCsi ps ims ignore act) =
     Some (if ignore then TOpaque
           else TCsi \<lparr>csi_params = ps, csi_intermediates = ims, csi_action = act\<rparr>)"
| "token_of (EvEsc ims ignore b) = Some (TEsc ims b)"
| "token_of (EvOsc ps bell) = Some (TOsc ps)"
| "token_of EvHook = None"
| "token_of (EvPut b) = None"
| "token_of EvUnhook = Some TOpaque"

definition visit :: "event list \<Rightarrow> token list" where
  "visit evs = List.map_filter token_of evs"

definition scan :: "'p vte \<Rightarrow> bytes \<Rightarrow> token list" where
  "scan v bs = visit (snd (vt_advance v (vt_new v) bs))"

text \<open>Fed a sentinel in a call of its own, a parser at a boundary reports exactly it.\<close>

definition is_complete :: "'p vte \<Rightarrow> bytes \<Rightarrow> bool" where
  "is_complete v bs =
     (visit (snd (vt_advance v (fst (vt_advance v (vt_new v) bs)) [0x78])) = [TPrint [0x78]])"

fun strip_token :: "token \<Rightarrow> rstring" where
  "strip_token (TPrint c) = c"
| "strip_token (TControl b) = (if b < 0x80 then [b] else [0xC0 OR (drop_bit 6 b), 0x80 OR (b AND 0x3F)])"
| "strip_token _ = []"

definition strip :: "'p vte \<Rightarrow> rstring \<Rightarrow> rstring" where
  "strip v s = concat (map strip_token (scan v s))"

section \<open>Control sequences\<close>

definition is_sgr :: "csi \<Rightarrow> bool" where
  "is_sgr c \<longleftrightarrow> csi_action c = lit ''m'' \<and> csi_intermediates c = []"

definition csi_flat :: "csi \<Rightarrow> u16 list" where
  "csi_flat c = concat (csi_params c)"

text \<open>A colour's colon form, without the colour space it may carry.\<close>

definition sgr_group :: "u16 list \<Rightarrow> u16 list" where
  "sgr_group ns =
     (if 5 \<le> length ns \<and> ns ! 0 \<in> {38, 48, 58} \<and> ns ! 1 = 2
      then [ns ! 0, 2] @ drop (length ns - 3) ns
      else if 3 \<le> length ns \<and> ns ! 0 \<in> {38, 48, 58} \<and> ns ! 1 = 5
      then [ns ! 0, 5, ns ! 2]
      else ns)"

definition sgr_params :: "csi \<Rightarrow> u16 list" where
  "sgr_params c = concat (map sgr_group (csi_params c))"

definition csi_first :: "csi \<Rightarrow> u16" where
  "csi_first c = (case csi_params c of (n # _) # _ \<Rightarrow> n | _ \<Rightarrow> 0)"

definition csi_count :: "csi \<Rightarrow> nat" where
  "csi_count c = unat (max (csi_first c) 1)"

fun join_bytes :: "u8 \<Rightarrow> rstring list \<Rightarrow> rstring" where
  "join_bytes sep [] = []"
| "join_bytes sep [s] = s"
| "join_bytes sep (s # t # ss) = s @ [sep] @ join_bytes sep (t # ss)"

definition private_marker :: "u8 \<Rightarrow> bool" where
  "private_marker b \<longleftrightarrow> 0x3C \<le> b \<and> b \<le> 0x3F"

definition csi_text :: "csi \<Rightarrow> rstring" where
  "csi_text c =
     [0x1B, 0x5B] @ filter private_marker (csi_intermediates c)
     @ join_bytes 0x3B (map (\<lambda>p. join_bytes 0x3A (map (\<lambda>n. show_nat (unat n)) p)) (csi_params c))
     @ filter (\<lambda>b. \<not> private_marker b) (csi_intermediates c) @ csi_action c"

section \<open>What is relied on\<close>

text \<open>Printable ASCII is printed, character by character, and leaves the parser between tokens.\<close>

definition printable :: "u8 \<Rightarrow> bool" where
  "printable b \<longleftrightarrow> 0x20 \<le> b \<and> b < 0x7F"

definition prints_plain :: "'p vte \<Rightarrow> bool" where
  "prints_plain v \<longleftrightarrow>
     (\<forall>bs. list_all printable bs \<longrightarrow>
        snd (vt_advance v (vt_new v) bs) = map (\<lambda>b. EvPrint [b]) bs
      \<and> snd (vt_advance v (fst (vt_advance v (vt_new v) bs)) [0x78]) = [EvPrint [0x78]])"

lemma visit_simps [simp]:
  "visit [] = []"
  "visit (e # es) = (case token_of e of None \<Rightarrow> visit es | Some t \<Rightarrow> t # visit es)"
  by (simp_all add: visit_def map_filter_simps split: option.split)

lemma visit_prints [simp]: "visit (map (\<lambda>b. EvPrint [b]) bs) = map (\<lambda>b. TPrint [b]) bs"
  by (induction bs) simp_all

lemma scan_plain:
  "prints_plain v \<Longrightarrow> list_all printable bs \<Longrightarrow> scan v bs = map (\<lambda>b. TPrint [b]) bs"
  by (simp add: prints_plain_def scan_def)

lemma complete_plain:
  "prints_plain v \<Longrightarrow> list_all printable bs \<Longrightarrow> is_complete v bs"
  by (simp add: prints_plain_def is_complete_def)

section \<open>A small parser\<close>

text \<open>Enough of the grammar for the instances below: printable characters, C0 controls, and
  \<open>ESC [\<close> with decimal parameters. The state is what has been read of an unfinished sequence.\<close>

fun tiny_step :: "bytes \<Rightarrow> u8 \<Rightarrow> bytes \<times> event list" where
  "tiny_step [] b =
     (if b = 0x1B then ([0x1B], []) else if b < 0x20 then ([], [EvExecute b]) else ([], [EvPrint [b]]))"
| "tiny_step (e # rest) b =
     (if rest = [] then (if b = 0x5B then ([e, b], []) else ([], [EvEsc [] False b]))
      else if 0x30 \<le> b \<and> b \<le> 0x3B then (e # rest @ [b], [])
      else ([], [EvCsi (map (\<lambda>p. [of_nat (case parse_unsigned 65535 p of Some n \<Rightarrow> n | None \<Rightarrow> 0)])
                         (split_at_byte 0x3B (tl rest))) [] False [b]]))"

fun tiny_advance :: "bytes \<Rightarrow> bytes \<Rightarrow> bytes \<times> event list" where
  "tiny_advance st [] = (st, [])"
| "tiny_advance st (b # bs) =
     (let (st, es) = tiny_step st b; (st, fs) = tiny_advance st bs in (st, es @ fs))"

definition tiny_vte :: "bytes vte" where
  "tiny_vte = \<lparr>vt_new = [], vt_advance = tiny_advance\<rparr>"

lemma tiny_plain: "list_all printable bs \<Longrightarrow> tiny_advance [] bs = ([], map (\<lambda>b. EvPrint [b]) bs)"
proof (induction bs)
  case (Cons b bs)
  then have "b \<noteq> 0x1B" "\<not> b < 0x20"
    by (auto simp: printable_def not_less)
  with Cons show ?case by simp
qed simp

lemma tiny_prints_plain: "prints_plain tiny_vte"
  by (simp add: prints_plain_def tiny_vte_def tiny_plain)

end
