(* ===== verification/Painter.thy ===== *)
theory Painter
  imports Escape Text_Lines App_Props
begin

text \<open>
  The screen a tool thinks it is drawing on (crates/multitop/src/tasks/painted.rs,
  tasks/painted/reading.rs): output bytes, in the pieces they arrive in, become log lines that
  are appended or overwrite an earlier row, and changes of the pinned status line.

  Row counts are \<open>usize\<close> with saturating arithmetic; they are natural numbers here, capped by
  \<open>sat_add\<close>.
\<close>

section \<open>The reading of a line\<close>

datatype bracket = BrOpen | BrSaved | BrPinned

datatype line_end = EndOpen | EndNewline | EndEof

datatype status_write = Untouched | SetTo rstring | Erased

record line_state =
  ls_up :: nat
  ls_down :: nat
  ls_erase :: nat
  ls_text :: rstring
  ls_touched :: bool
  ls_here_cleared :: bool
  ls_cleared_below :: nat
  ls_printed :: bool

definition state_default :: line_state where
  "state_default = \<lparr>ls_up = 0, ls_down = 0, ls_erase = 0, ls_text = [], ls_touched = False,
     ls_here_cleared = False, ls_cleared_below = 0, ls_printed = False\<rparr>"

record reading =
  rd_states :: "line_state list"
  rd_bracket :: bracket
  rd_status :: status_write

text \<open>The state being written is the last; there always is one.\<close>

definition on_state :: "(line_state \<Rightarrow> line_state) \<Rightarrow> reading \<Rightarrow> reading" where
  "on_state f r =
     (let ss = (if rd_states r = [] then [state_default] else rd_states r)
      in r\<lparr>rd_states := butlast ss @ [f (List.last ss)]\<rparr>)"

definition touch :: "reading \<Rightarrow> reading" where
  "touch = on_state (\<lambda>s. s\<lparr>ls_touched := True\<rparr>)"

definition write_text :: "rstring \<Rightarrow> bool \<Rightarrow> reading \<Rightarrow> reading" where
  "write_text t glyph r =
     (if rd_bracket r = BrPinned then
        (case rd_status r of SetTo st \<Rightarrow> r\<lparr>rd_status := SetTo (st @ t)\<rparr> | _ \<Rightarrow> r)
      else on_state (\<lambda>s. s\<lparr>ls_text := ls_text s @ t, ls_touched := True,
                          ls_printed := ls_printed s \<or> glyph\<rparr>) r)"

definition move_state :: "rstring \<Rightarrow> nat \<Rightarrow> u16 \<Rightarrow> line_state \<Rightarrow> line_state" where
  "move_state act n first s =
     (let s = s\<lparr>ls_touched := True\<rparr>
      in if ls_printed s then s
         else if act = lit ''A'' \<or> act = lit ''F'' then
           s\<lparr>ls_up := sat_add (ls_up s) n,
             ls_cleared_below := (if n = 1 \<and> ls_here_cleared s then sat_add (ls_cleared_below s) 1 else 0),
             ls_here_cleared := False\<rparr>
         else if act = lit ''B'' \<or> act = lit ''E'' then
           s\<lparr>ls_down := sat_add (ls_down s) n, ls_cleared_below := 0, ls_here_cleared := False\<rparr>
         else if act = lit ''K'' then s\<lparr>ls_here_cleared := True\<rparr>
         else if act = lit ''J'' \<and> first = 0 then s\<lparr>ls_erase := max (ls_erase s) (max (ls_up s) 1)\<rparr>
         else s)"

definition move_cursor :: "rstring \<Rightarrow> nat \<Rightarrow> u16 \<Rightarrow> reading \<Rightarrow> reading" where
  "move_cursor act n first r =
     (let printed = (rd_states r \<noteq> [] \<and> ls_printed (List.last (rd_states r)));
          r = on_state (move_state act n first) r
      in if \<not> printed \<and> act = lit ''J'' \<and> first = 0 then r\<lparr>rd_status := Erased\<rparr> else r)"

definition read_csi :: "csi \<Rightarrow> reading \<Rightarrow> reading" where
  "read_csi c r =
     (if is_sgr c then write_text (csi_text c) False r
      else if csi_intermediates c = [] then
        (if csi_action c = lit ''s'' then r\<lparr>rd_bracket := BrSaved\<rparr>
         else if csi_action c = lit ''u'' then r\<lparr>rd_bracket := BrOpen\<rparr>
         else if csi_action c \<in> {lit ''H'', lit ''f'', lit ''d''} \<and> rd_bracket r \<noteq> BrOpen
           then r\<lparr>rd_bracket := BrPinned, rd_status := SetTo []\<rparr>
         else if rd_bracket r = BrOpen then move_cursor (csi_action c) (csi_count c) (csi_first c) r
         else r)
      else if csi_intermediates c = [0x3F] then r
      else if rd_bracket r \<noteq> BrPinned then touch r else r)"

fun read_token :: "token \<Rightarrow> reading \<Rightarrow> reading" where
  "read_token (TPrint c) r = write_text c True r"
| "read_token (TControl b) r =
     (if b = 0x0D then
        (if rd_bracket r = BrPinned then r\<lparr>rd_status := SetTo []\<rparr>
         else r\<lparr>rd_states := rd_states r @ [state_default]\<rparr>)
      else if b = 0x09 then write_text [0x09] True r
      else if rd_bracket r \<noteq> BrPinned then touch r else r)"
| "read_token (TCsi c) r = read_csi c r"
| "read_token (TEsc ims b) r =
     (if ims = [] \<and> b = 0x37 then r\<lparr>rd_bracket := BrSaved\<rparr>
      else if ims = [] \<and> b = 0x38 then r\<lparr>rd_bracket := BrOpen\<rparr>
      else if rd_bracket r \<noteq> BrPinned then touch r else r)"
| "read_token (TOsc ps) r = r"
| "read_token TOpaque r = (if rd_bracket r \<noteq> BrPinned then touch r else r)"

definition reading_of :: "'p vte \<Rightarrow> bytes \<Rightarrow> bracket \<Rightarrow> reading" where
  "reading_of v raw br =
     fold read_token (scan v raw) \<lparr>rd_states = [state_default], rd_bracket = br, rd_status = Untouched\<rparr>"

section \<open>The painter\<close>

record paint =
  pt_text :: rstring
  pt_back :: nat
  pt_erase_below :: nat

datatype painted = PLine paint | PStatus "rstring option"

record painter =
  pa_up :: nat
  pa_open :: bool
  pa_raw :: bytes
  pa_bracket :: bracket
  pa_status :: "rstring option"

definition painter_new :: painter where
  "painter_new = \<lparr>pa_up = 0, pa_open = False, pa_raw = [], pa_bracket = BrOpen, pa_status = None\<rparr>"

definition status_change :: "reading \<Rightarrow> painter \<Rightarrow> painter \<times> painted list" where
  "status_change r p =
     (case (case rd_status r of Untouched \<Rightarrow> None | SetTo t \<Rightarrow> Some (Some t) | Erased \<Rightarrow> Some None) of
        None \<Rightarrow> (p, [])
      | Some st \<Rightarrow> if st \<noteq> pa_status p then (p\<lparr>pa_status := st\<rparr>, [PStatus st]) else (p, []))"

definition max_of :: "nat list \<Rightarrow> nat" where
  "max_of ns = fold max ns 0"

text \<open>What a reading comes to: the row the line is on, the text, the rows erased below it, and
  whether there is a row to paint.\<close>

definition moved_up :: "reading \<Rightarrow> nat" where
  "moved_up r = foldl (\<lambda>n s. sat_add n (ls_up s)) 0 (rd_states r)"

definition moved_down :: "reading \<Rightarrow> nat" where
  "moved_down r = foldl (\<lambda>n s. sat_add n (ls_down s)) 0 (rd_states r)"

definition erased_rows :: "reading \<Rightarrow> nat" where
  "erased_rows r = max_of (map ls_erase (rd_states r))"

definition line_up_of :: "reading \<Rightarrow> nat \<Rightarrow> nat" where
  "line_up_of r up = sat_add up (moved_up r) - moved_down r"

definition last_touched :: "reading \<Rightarrow> line_state option" where
  "last_touched r = find ls_touched (rev (rd_states r))"

definition text_of :: "reading \<Rightarrow> rstring" where
  "text_of r = (case last_touched r of None \<Rightarrow> [] | Some s \<Rightarrow> ls_text s)"

definition erase_below_of :: "reading \<Rightarrow> nat \<Rightarrow> nat" where
  "erase_below_of r line_up =
     max (max_of (map ls_cleared_below (rd_states r)))
         (if 0 < erased_rows r then max line_up (erased_rows r) else 0)"

definition nothing_to_paint :: "reading \<Rightarrow> line_end \<Rightarrow> nat \<Rightarrow> bool" where
  "nothing_to_paint r e line_up \<longleftrightarrow>
     (text_of r = [] \<and> (0 < moved_up r \<or> 0 < moved_down r \<or> 0 < erased_rows r))
   \<or> (e \<noteq> EndNewline \<and> last_touched r = None)
   \<or> (last_touched r = None \<and> 0 < line_up)"

definition paint_line :: "'p vte \<Rightarrow> line_end \<Rightarrow> painter \<Rightarrow> painter \<times> painted list" where
  "paint_line v e p =
     (if e = EndOpen \<and> \<not> is_complete v (pa_raw p) then (p, [])
      else
        let r = reading_of v (pa_raw p) (pa_bracket p);
            (p, out) = status_change r p;
            line_up = line_up_of r (pa_up p);
            skip = nothing_to_paint r e line_up;
            p = (if e \<noteq> EndOpen
                 then p\<lparr>pa_up := line_up - 1, pa_open := False, pa_bracket := rd_bracket r, pa_raw := []\<rparr>
                 else if skip then p
                 else p\<lparr>pa_up := max line_up 1, pa_open := True\<rparr>)
        in (p, out @ (if skip then []
                      else [PLine \<lparr>pt_text = text_of r, pt_back = line_up,
                                   pt_erase_below = erase_below_of r line_up\<rparr>])))"

text \<open>One terminated line of the bytes fed, then what is left of them.\<close>

definition feed_line :: "'p vte \<Rightarrow> bytes \<Rightarrow> painter \<Rightarrow> painter \<times> painted list" where
  "feed_line v line p = paint_line v EndNewline (p\<lparr>pa_raw := strip_cr (pa_raw p @ line)\<rparr>)"

definition feed_rest :: "'p vte \<Rightarrow> bytes \<Rightarrow> painter \<Rightarrow> painter \<times> painted list" where
  "feed_rest v rest p =
     (if rest = [] then (p, []) else paint_line v EndOpen (p\<lparr>pa_raw := pa_raw p @ rest\<rparr>))"

fun feed_parts :: "'p vte \<Rightarrow> bytes list \<Rightarrow> painter \<Rightarrow> painter \<times> painted list" where
  "feed_parts v [] p = (p, [])"
| "feed_parts v [rest] p = feed_rest v rest p"
| "feed_parts v (line # piece # parts) p =
     (let (p, out) = feed_line v line p; (p, out') = feed_parts v (piece # parts) p in (p, out @ out'))"

definition feed_bytes :: "'p vte \<Rightarrow> bytes \<Rightarrow> painter \<Rightarrow> painter \<times> painted list" where
  "feed_bytes v bs p = feed_parts v (split_at_byte 0x0A bs) p"

definition painter_finish :: "'p vte \<Rightarrow> painter \<Rightarrow> painter \<times> painted list" where
  "painter_finish v p =
     (let (p, out) = (if pa_raw p \<noteq> [] then paint_line v EndEof p else (p, []))
      in if pa_status p \<noteq> None then (p\<lparr>pa_status := None\<rparr>, out @ [PStatus None]) else (p, out))"

section \<open>The messages\<close>

definition paint_msg :: "nat \<Rightarrow> u64 \<Rightarrow> paint \<Rightarrow> rstring \<Rightarrow> ('o, 'v) msg" where
  "paint_msg i g pt line =
     (if pt_back pt = 0 \<and> pt_erase_below pt = 0 then AuxLine i g line
      else AuxRepaint i g line (pt_back pt) (pt_erase_below pt))"

fun painted_msg :: "nat \<Rightarrow> u64 \<Rightarrow> painted \<Rightarrow> (rstring \<Rightarrow> rstring) \<Rightarrow> ('o, 'v) msg" where
  "painted_msg i g (PLine pt) style = paint_msg i g pt (style (pt_text pt))"
| "painted_msg i g (PStatus st) style = AuxStatus i g st"

end
