(* ===== verification/Upgrade_Read.thy ===== *)
theory Upgrade_Read
  imports Painter Exec_Run
begin

text \<open>
  One upgrade as the application runs it (crates/multitop/src/tasks/upgrade.rs, tasks/verdict.rs):
  the request sent to the host's agent, the framed stream read back and painted, the agent
  installed when the host has none, and the verdict the operator is told.

  What arrives is the bytes of the agent's output up to its end: the stream is closed, or falls
  silent for good (\<open>Silent\<close>; for the read of a packet's header that is the thirty seconds of
  \<open>STALL_AFTER\<close> passing, while the read of a packet's body has no deadline and never returns).
  The outside (\<open>run_outside\<close>) says what each attempt to start the agent gives, whether it can be
  installed, how errors read, and the version of this build.
\<close>

section \<open>Lines for the operator\<close>

definition status_line :: "palette \<Rightarrow> rstring \<Rightarrow> rstring" where
  "status_line pal t = pal_meter_mid pal @ t @ pal_reset pal"

definition error_line :: "palette \<Rightarrow> rstring \<Rightarrow> rstring" where
  "error_line pal t = pal_meter_high pal @ t @ pal_reset pal"

definition header_line :: "palette \<Rightarrow> rstring \<Rightarrow> rstring" where
  "header_line pal t = pal_primary pal @ pal_bold pal @ t @ pal_reset pal"

definition HORIZONTAL_BAR :: rstring where "HORIZONTAL_BAR = [0xE2, 0x94, 0x80]"

definition SETTINGS_KEY :: rstring where "SETTINGS_KEY = lit ''e''"

section \<open>The verdict\<close>

definition SIGNAL_EXIT_BASE :: int where "SIGNAL_EXIT_BASE = 128"
definition MAX_SIGNAL :: int where "MAX_SIGNAL = 31"

record sudo_signs =
  sg_help :: bool
  sg_rejected :: bool

record report =
  rp_exit :: "(i32 \<times> bool) option"
  rp_sudo :: sudo_signs
  rp_lock_held :: bool
  rp_need_agent :: "rstring option"
  rp_preamble :: "rstring option"
  rp_stalled :: bool

definition report_default :: report where
  "report_default = \<lparr>rp_exit = None, rp_sudo = \<lparr>sg_help = False, sg_rejected = False\<rparr>,
     rp_lock_held = False, rp_need_agent = None, rp_preamble = None, rp_stalled = False\<rparr>"

record told =
  td_note :: rstring
  td_success :: bool

definition signal_behind :: "i32 \<Rightarrow> int option" where
  "signal_behind code =
     (if SIGNAL_EXIT_BASE < sint code \<and> sint code \<le> SIGNAL_EXIT_BASE + MAX_SIGNAL
      then Some (sint code - SIGNAL_EXIT_BASE) else None)"

definition failed_with :: "palette \<Rightarrow> rstring \<Rightarrow> told" where
  "failed_with pal t = \<lparr>td_note = status_line pal (WARNING_SIGN @ t), td_success = False\<rparr>"

definition code_text :: "i32 \<Rightarrow> bool \<Rightarrow> rstring" where
  "code_text code signalled =
     (if signalled then lit '' upgrade command was killed by a signal (exit '' @ show_int (sint code) @ lit '')''
      else case signal_behind code of
             Some sig \<Rightarrow> lit '' upgrade command was killed by signal '' @ show_int sig @ lit '' (exit ''
               @ show_int (sint code) @ lit '') '' @ EM_DASH @ lit '' host reachable''
           | None \<Rightarrow> lit '' upgrade command exited '' @ show_int (sint code) @ lit '' '' @ EM_DASH
               @ lit '' host reachable, command failed'')"

definition verdict :: "palette \<Rightarrow> server \<Rightarrow> report \<Rightarrow> told" where
  "verdict pal server r =
     (if rp_stalled r then
        failed_with pal (lit '' lost contact with '' @ sv_host server @ lit '' mid-upgrade '' @ EM_DASH
          @ lit '' it may still be running there'')
      else let code_says = map_option fst (rp_exit r)
      in if sg_rejected (rp_sudo r) \<or> code_says = Some SUDO_FAILED_CODE then
        failed_with pal (lit '' sudo refused the stored password on '' @ sv_host server @ lit '' '' @ EM_DASH
          @ lit '' the upgrade did not run. Set this host'' @ [0x27] @ lit ''s password with '' @ SETTINGS_KEY
          @ lit '' in Settings.'')
      else if rp_lock_held r \<or> code_says = Some LOCK_HELD_CODE then
        failed_with pal (lit '' another upgrade holds the lock on '' @ sv_host server @ lit '' '' @ EM_DASH
          @ lit '' this one never ran. If no other run is active, remove ~/.cache/multitop/upgrade.lock.'')
      else case rp_need_agent r of
        Some arch \<Rightarrow> failed_with pal (lit '' no agent could be installed on '' @ sv_host server @ lit '' for '' @ arch)
      | None \<Rightarrow>
          (case rp_exit r of
             None \<Rightarrow> failed_with pal (lit '' the upgrade never reported finishing '' @ EM_DASH @ lit '' ''
               @ (case rp_preamble r of
                    Some t \<Rightarrow> t
                  | None \<Rightarrow> lit ''the session to '' @ sv_host server @ lit '' closed''))
           | Some (code, signalled) \<Rightarrow>
               if code = 0 then \<lparr>td_note = status_line pal (HORIZONTAL_BAR @ lit '' done''), td_success = True\<rparr>
               else failed_with pal (code_text code signalled)))"

definition sudo_tips :: "palette \<Rightarrow> rstring option \<Rightarrow> rstring list" where
  "sudo_tips pal pass =
     [status_line pal (RIGHT_ARROW @
        (if pass = None then lit '' Tip: Set password in settings ('' @ [0x27] @ lit ''e'' @ [0x27] @ lit '') to allow upgrades''
         else lit '' Tip: Check password in settings ('' @ [0x27] @ lit ''e'' @ [0x27] @ lit '') or sudoer permissions'')),
      status_line pal (RIGHT_ARROW @
        lit '' Tip: Add '' @ [0x27] @ lit ''<user> ALL=(ALL) NOPASSWD: ALL'' @ [0x27]
          @ lit '' to /etc/sudoers for passwordless sudo'')]"

section \<open>What a line says\<close>

text \<open>\<open>painted_states\<close>: the states a line passed through, as carriage returns rewrote it.\<close>

definition trim_end_byte :: "u8 \<Rightarrow> bytes \<Rightarrow> bytes" where
  "trim_end_byte b s = rev (dropWhile (\<lambda>c. c = b) (rev s))"

definition painted_states :: "rstring \<Rightarrow> rstring list" where
  "painted_states line = map (trim_end_byte 0x0D) (split_at_byte 0x0D (trim_end_byte 0x0A line))"

definition is_sudo_help :: "rstring \<Rightarrow> bool" where
  "is_sudo_help lower \<longleftrightarrow>
     (contains lower (lit ''sudo'') \<and>
        (contains lower (lit ''terminal'') \<or> contains lower (lit ''password'')
         \<or> contains lower (lit ''pre-authorized'') \<or> contains lower (lit ''tty'')
         \<or> contains lower (lit ''prompt on'')))
   \<or> contains lower (lit ''are you root'')
   \<or> (contains lower (lit ''permission denied'') \<and>
        (contains lower (lit ''/var/lib/dpkg'') \<or> contains lower (lit ''/var/lib/apt'')
         \<or> contains lower (lit ''lock-frontend'')))"

definition MUX_NOISE_PHRASES :: "rstring list" where
  "MUX_NOISE_PHRASES = map lit [''controlsocket '', ''control socket '', ''stale control socket'',
     ''shared connection '', ''multiplex uid mismatch'', ''unsupported multiplexing protocol version'',
     ''failed to multiplex into the shared connection'']"

definition is_mux_noise :: "text_env \<Rightarrow> rstring \<Rightarrow> bool" where
  "is_mux_noise tx line = list_ex (contains (tx_lower tx line)) MUX_NOISE_PHRASES"

definition NEED_AGENT :: rstring where "NEED_AGENT = lit ''===NEEDAGENT===''"

definition parse_need_agent :: "rstring \<Rightarrow> rstring option" where
  "parse_need_agent line = map_option trim (strip_prefix NEED_AGENT (trim line))"

datatype arch = X86_64 | Aarch64

definition from_uname :: "rstring \<Rightarrow> arch option" where
  "from_uname s =
     (let s = trim s
      in if s = lit ''x86_64'' \<or> s = lit ''amd64'' then Some X86_64
         else if s = lit ''aarch64'' \<or> s = lit ''arm64'' then Some Aarch64
         else None)"

section \<open>The framed stream\<close>

datatype stream_end = Closed | Silent

text \<open>What a run is for, and what it needs of its surroundings.\<close>

record 'p run_outside =
  ro_idx :: nat
  ro_gen :: u64
  ro_palette :: palette
  ro_text :: text_env
  ro_vte :: "'p vte"
  ro_version :: rstring

definition say :: "'p run_outside \<Rightarrow> rstring \<Rightarrow> ('o, 'v) msg" where
  "say ro line = AuxLine (ro_idx ro) (ro_gen ro) line"

definition show_painted ::
  "'p run_outside \<Rightarrow> (rstring \<Rightarrow> rstring) \<Rightarrow> painted list \<Rightarrow> ('o, 'v) msg list" where
  "show_painted ro style ps = map (\<lambda>pd. painted_msg (ro_idx ro) (ro_gen ro) pd style) ps"

definition note_sudo_help :: "text_env \<Rightarrow> bytes \<Rightarrow> report \<Rightarrow> report" where
  "note_sudo_help tx bs r =
     (if is_sudo_help (tx_lower tx (utf8_lossy bs)) then r\<lparr>rp_sudo := (rp_sudo r)\<lparr>sg_help := True\<rparr>\<rparr> else r)"

text \<open>A paint of the error stream that is worth a row.\<close>

definition worth_showing :: "text_env \<Rightarrow> painted \<Rightarrow> bool" where
  "worth_showing tx pd =
     (case pd of
        PLine pt \<Rightarrow> \<not> (trim (pt_text pt) = [] \<and> pt_back pt = 0 \<and> pt_erase_below pt = 0)
                    \<and> \<not> is_mux_noise tx (trim (pt_text pt))
      | PStatus _ \<Rightarrow> True)"

text \<open>Whether the frame ends the run, and what it does to the painter and the report.\<close>

fun apply_frame ::
  "'p run_outside \<Rightarrow> exec_frame \<Rightarrow> painter \<Rightarrow> report \<Rightarrow> bool \<times> painter \<times> report \<times> ('o, 'v) msg list"
where
  "apply_frame ro (Out Stdout sq bs) p r =
     (let r = note_sudo_help (ro_text ro) bs r; (p, ps) = feed_bytes (ro_vte ro) bs p
      in (False, p, r, show_painted ro id ps))"
| "apply_frame ro (Out Stderr sq bs) p r =
     (let r = note_sudo_help (ro_text ro) bs r; (p, ps) = feed_bytes (ro_vte ro) bs p
      in (False, p, r, show_painted ro (error_line (ro_palette ro)) (filter (worth_showing (ro_text ro)) ps)))"
| "apply_frame ro (Marker m) p r =
     (False, p,
      (if m = SudoFailed then r\<lparr>rp_sudo := (rp_sudo r)\<lparr>sg_rejected := True\<rparr>\<rparr>
       else if m = LockHeld then r\<lparr>rp_lock_held := True\<rparr> else r), [])"
| "apply_frame ro (Exit code signalled) p r = (True, p, r\<lparr>rp_exit := Some (code, signalled)\<rparr>, [])"
| "apply_frame ro (Alive ms) p r = (False, p, r, [])"
| "apply_frame ro (Begin host v pid) p r = (False, p, r, [])"
| "apply_frame ro (Request cmd pw lock cs rs) p r = (False, p, r, [])"

definition version_note :: "rstring \<Rightarrow> hello \<Rightarrow> rstring" where
  "version_note local h =
     lit ''agent version mismatch: remote '' @ h_agent_version h @ lit '' (proto ''
       @ show_nat (unat (h_proto_version h)) @ lit '') vs local '' @ local @ lit '' (proto ''
       @ show_nat (unat PROTO_VERSION) @ lit '')''"

definition apply_payload ::
  "'p run_outside \<Rightarrow> payload option \<Rightarrow> painter \<Rightarrow> report \<Rightarrow> bool \<times> painter \<times> report \<times> ('o, 'v) msg list"
where
  "apply_payload ro pl p r =
     (case pl of
        Some (HelloP h) \<Rightarrow>
          (False, p, if needs_replacement h (ro_version ro)
                     then r\<lparr>rp_preamble := Some (version_note (ro_version ro) h)\<rparr> else r, [])
      | Some (Exec f) \<Rightarrow> apply_frame ro f p r
      | _ \<Rightarrow> (False, p, r, []))"

definition finish_run ::
  "'p run_outside \<Rightarrow> painter \<Rightarrow> report \<Rightarrow> report \<times> ('o, 'v) msg list" where
  "finish_run ro p r = (r, show_painted ro id (snd (painter_finish (ro_vte ro) p)))"

definition stall_note :: rstring where
  "stall_note = lit ''no word from the agent for 30s '' @ EM_DASH @ lit '' the connection is gone''"

definition packet_len :: "bytes \<Rightarrow> nat" where
  "packet_len bs = unat (of_le [bs ! (HEADER_LEN - 2), bs ! (HEADER_LEN - 1)] :: u16)"

function read_frames ::
  "'p run_outside \<Rightarrow> stream_end \<Rightarrow> bytes \<Rightarrow> painter \<Rightarrow> report
   \<Rightarrow> (report \<times> ('o, 'v) msg list) option" where
  "read_frames ro e bs p r =
     (if length bs < HEADER_LEN then
        (case e of
           Silent \<Rightarrow> Some (r\<lparr>rp_stalled := True\<rparr>, [say ro (error_line (ro_palette ro) stall_note)])
         | Closed \<Rightarrow> Some (finish_run ro p r))
      else if take 4 bs \<noteq> MAGIC then
        Some (finish_run ro p (r\<lparr>rp_preamble := Some (trim_end (utf8_lossy (take HEADER_LEN bs)))\<rparr>))
      else if length bs < HEADER_LEN + packet_len bs then
        (case e of Silent \<Rightarrow> None | Closed \<Rightarrow> Some (finish_run ro p r))
      else
        (let n = HEADER_LEN + packet_len bs;
             (ended, p, r, msgs) = apply_payload ro (decode_packet (take n bs)) p r
         in if ended then (let (r, fin) = finish_run ro p r in Some (r, msgs @ fin))
            else map_option (\<lambda>(r, rest). (r, msgs @ rest)) (read_frames ro e (drop n bs) p r)))"
  by pat_completeness auto
termination
  by (relation "measure (\<lambda>(ro, e, bs, p, r). length bs)") (auto simp: HEADER_LEN_def)

declare read_frames.simps [simp del]

section \<open>One attempt\<close>

datatype started =
    NotStarted rstring
  | StartedWith bytes stream_end "rstring list"

text \<open>The channel's own stderr: what ssh and the bootstrap say.\<close>

definition read_stderr_line :: "text_env \<Rightarrow> report \<Rightarrow> rstring \<Rightarrow> report" where
  "read_stderr_line tx r line =
     (case parse_need_agent line of
        Some a \<Rightarrow> r\<lparr>rp_need_agent := Some a\<rparr>
      | None \<Rightarrow>
          (let trimmed = trim line
           in if trimmed = [] \<or> is_mux_noise tx trimmed then r else r\<lparr>rp_preamble := Some trimmed\<rparr>))"

text \<open>A stream that ended without an Exit is named by what was said instead.\<close>

definition last_words :: "'p run_outside \<Rightarrow> report \<Rightarrow> ('o, 'v) msg list" where
  "last_words ro r =
     (if rp_exit r = None \<and> rp_need_agent r = None \<and> \<not> rp_stalled r
      then (case rp_preamble r of
              Some t \<Rightarrow> [say ro (error_line (ro_palette ro) t)] | None \<Rightarrow> [])
      else [])"

definition attempt_once ::
  "'p run_outside \<Rightarrow> started \<Rightarrow> (report \<times> ('o, 'v) msg list) option" where
  "attempt_once ro st =
     (case st of
        NotStarted reason \<Rightarrow> Some (report_default, [say ro (error_line (ro_palette ro) reason)])
      | StartedWith bs e errs \<Rightarrow>
          map_option (\<lambda>(r, msgs).
            (let r = foldl (read_stderr_line (ro_text ro)) r errs in (r, msgs @ last_words ro r)))
            (read_frames ro e bs painter_new report_default))"

definition install_agent ::
  "'p run_outside \<Rightarrow> (arch \<Rightarrow> (unit, rstring) result) \<Rightarrow> server \<Rightarrow> rstring
   \<Rightarrow> (unit, rstring) result \<times> ('o, 'v) msg list" where
  "install_agent ro upload server arch_str =
     (case from_uname arch_str of
        None \<Rightarrow> (Err (status_line (ro_palette ro) (WARNING_SIGN @ lit '' unsupported architecture '' @ [0x27]
                   @ arch_str @ [0x27] @ lit '' on '' @ sv_host server @ lit '' '' @ EM_DASH
                   @ lit '' multitop ships x86_64 and aarch64'')), [])
      | Some a \<Rightarrow>
          ((case upload a of
              Ok u \<Rightarrow> Ok u
            | Err e \<Rightarrow> Err (status_line (ro_palette ro) (WARNING_SIGN @ lit '' '' @ e))),
           [say ro (status_line (ro_palette ro)
              (RIGHT_ARROW @ lit '' installing the agent on '' @ sv_host server))]))"

section \<open>The run\<close>

text \<open>What starting the agent gives: the n-th time, for the request it is sent.\<close>

record remote =
  rm_start :: "nat \<Rightarrow> exec_frame \<Rightarrow> started"
  rm_upload :: "arch \<Rightarrow> (unit, rstring) result"
  rm_mock :: bool

definition upgrade_request :: "bool \<Rightarrow> rstring \<Rightarrow> rstring option \<Rightarrow> dims \<Rightarrow> exec_frame" where
  "upgrade_request mock command pass dm =
     Request command (if mock then None else pass) (\<not> mock) (fst dm) (snd dm)"

text \<open>Two attempts at most, the second after an agent was installed.\<close>

datatype attempts_end = Reported report | NotInstalled told

definition attempts ::
  "'p run_outside \<Rightarrow> remote \<Rightarrow> server \<Rightarrow> exec_frame
   \<Rightarrow> (attempts_end \<times> ('o, 'v) msg list) option" where
  "attempts ro rm server req =
     Option.bind (attempt_once ro (rm_start rm 0 req)) (\<lambda>(r, msgs).
       (case rp_need_agent r of
          None \<Rightarrow> Some (Reported r, msgs)
        | Some a \<Rightarrow>
            (let (installed, more) = install_agent ro (rm_upload rm) server a
             in case installed of
                  Inl t \<Rightarrow> Some (NotInstalled \<lparr>td_note = t, td_success = False\<rparr>, msgs @ more)
                | Inr _ \<Rightarrow> map_option (\<lambda>(r, again). (Reported r, msgs @ more @ again))
                             (attempt_once ro (rm_start rm 1 req)))))"

definition run_upgrade_task ::
  "'p run_outside \<Rightarrow> remote \<Rightarrow> server \<Rightarrow> rstring option \<Rightarrow> dims \<Rightarrow> (told \<times> ('o, 'v) msg list) option"
where
  "run_upgrade_task ro rm server pass dm =
     (case sv_upgrade_cmd server of
        None \<Rightarrow> Some (failed_with (ro_palette ro) (lit '' no upgrade_cmd configured''), [])
      | Some command \<Rightarrow>
          map_option (\<lambda>(fin, msgs).
            (let begin = AuxBegin (ro_idx ro) (ro_gen ro)
                           (Some (header_line (ro_palette ro) (lit ''Upgrade on '' @ sv_host server)))
             in case fin of
                  NotInstalled t \<Rightarrow> (t, begin # msgs)
                | Reported r \<Rightarrow>
                    (verdict (ro_palette ro) server r,
                     begin # msgs @ (if sg_help (rp_sudo r)
                                     then map (say ro) (sudo_tips (ro_palette ro) pass) else []))))
            (attempts ro rm server (upgrade_request (rm_mock rm) command pass dm)))"

definition spawn_upgrade ::
  "'p run_outside \<Rightarrow> remote \<Rightarrow> server \<Rightarrow> rstring option \<Rightarrow> dims \<Rightarrow> ('o, 'v) msg list option" where
  "spawn_upgrade ro rm server pass dm =
     map_option (\<lambda>(t, msgs). msgs @ [AuxDone (ro_idx ro) (ro_gen ro) (Some (td_note t)) (td_success t)])
       (run_upgrade_task ro rm server pass dm)"

end
