(* ===== verification/Painter_Props.thy ===== *)
theory Painter_Props
  imports Painter
begin

text \<open>
  What the painter leaves in the log: nothing depends on how plain output was cut into pieces, a
  cut inside an escape sequence or at a newline shows nothing, the status line is reported when it
  changes and taken down at the end; and the one way a cut is counted twice.
\<close>

section \<open>Output in pieces\<close>

fun feed_all :: "'p vte \<Rightarrow> bytes list \<Rightarrow> painter \<Rightarrow> painter \<times> painted list" where
  "feed_all v [] p = (p, [])"
| "feed_all v (bs # chunks) p =
     (let (p, out) = feed_bytes v bs p; (p, out') = feed_all v chunks p in (p, out @ out'))"

definition whole_run :: "'p vte \<Rightarrow> bytes list \<Rightarrow> painted list" where
  "whole_run v chunks =
     (let (p, out) = feed_all v chunks painter_new; (p, out') = painter_finish v p in out @ out')"

lemma split_at_byte_append:
  "split_at_byte d (xs @ d # ys) = split_at_byte d xs @ split_at_byte d ys"
  by (induction xs) simp_all

lemma split_at_byte_prefix:
  "d \<notin> set xs \<Longrightarrow> split_at_byte d (xs @ ys) = (xs @ hd (split_at_byte d ys)) # tl (split_at_byte d ys)"
  by (induction xs) auto

lemma feed_parts_append:
  assumes "B \<noteq> []"
  shows "feed_parts v (A @ B) p =
    (let (p, out) = feed_parts v (A @ [[]]) p; (p, out') = feed_parts v B p in (p, out @ out'))"
proof (induction A arbitrary: p)
  case Nil
  show ?case by (simp add: feed_rest_def)
next
  case (Cons l A)
  obtain x xs where x: "A @ B = x # xs" using assms by (cases "A @ B") auto
  obtain y ys where y: "A @ [[]] = y # ys" by (cases "A @ [[]]") auto
  have "feed_parts v (l # A @ C) p =
      (let (p, out) = feed_line v l p; (p, out') = feed_parts v (A @ C) p in (p, out @ out'))"
    if "A @ C = z # zs" for C z zs
    using that by simp
  from this [OF x] this [OF y] show ?case
    by (simp add: Cons.IH Let_def case_prod_beta)
qed

text \<open>C19: A cut right after a newline, or inside an escape sequence or a character, is invisible.
  Output fed in two pieces gives the same paints, in the same order, and leaves the painter in the
  same state as fed at once, whatever the bytes and the parser: where the first piece ends in a
  newline always, and where it ends inside a sequence because nothing is painted until the rest
  has come.\<close>

theorem cut_invisible:
  assumes "bs \<noteq> []"
    and "as = front @ [0x0A] \<or> (0x0A \<notin> set as \<and> as \<noteq> [] \<and> \<not> is_complete v (pa_raw p @ as))"
  shows "feed_all v [as, bs] p = feed_bytes v (as @ bs) p"
  using assms(2)
proof
  assume a: "as = front @ [0x0A]"
  have "split_at_byte 0x0A as = split_at_byte 0x0A front @ [[]]"
    using split_at_byte_append [of "0x0A" front "[]"] a by simp
  moreover have "split_at_byte 0x0A (as @ bs) = split_at_byte 0x0A front @ split_at_byte 0x0A bs"
    using split_at_byte_append [of "0x0A" front bs] a by simp
  ultimately show ?thesis
    using feed_parts_append [of "split_at_byte 0x0A bs" v "split_at_byte 0x0A front" p]
    by (simp add: feed_bytes_def Let_def case_prod_beta)
next
  assume a: "0x0A \<notin> set as \<and> as \<noteq> [] \<and> \<not> is_complete v (pa_raw p @ as)"
  then have one: "feed_bytes v as p = (p\<lparr>pa_raw := pa_raw p @ as\<rparr>, [])"
    by (simp add: feed_bytes_def split_at_byte_no_sep feed_rest_def paint_line_def)
  have split: "split_at_byte 0x0A (as @ bs) =
      (as @ hd (split_at_byte 0x0A bs)) # tl (split_at_byte 0x0A bs)"
    using a by (simp add: split_at_byte_prefix)
  obtain l ls where l: "split_at_byte 0x0A bs = l # ls"
    by (cases "split_at_byte 0x0A bs") auto
  have "l \<noteq> [] \<or> ls \<noteq> []"
    using l assms(1) by (cases bs) (auto split: if_splits)
  then have "feed_parts v ((as @ l) # ls) p = feed_parts v (l # ls) (p\<lparr>pa_raw := pa_raw p @ as\<rparr>)"
    using a by (cases ls) (simp_all add: feed_rest_def feed_line_def)
  then show ?thesis
    using one l split by (simp add: feed_bytes_def Let_def case_prod_beta)
qed

theorem cut_invisible_witness:
  "feed_all tiny_vte [[0x1B, 0x5B], [0x41, 0x61]] painter_new = feed_bytes tiny_vte [0x1B, 0x5B, 0x41, 0x61] painter_new"
proof -
  have "\<not> is_complete tiny_vte (pa_raw painter_new @ [0x1B, 0x5B])"
    by (simp add: is_complete_def tiny_vte_def painter_new_def parse_unsigned_def digit_of_def)
  then show ?thesis
    using cut_invisible [of "[0x41, 0x61]" "[0x1B, 0x5B]" "[]" tiny_vte painter_new] by simp
qed

section \<open>What plain output leaves in the log\<close>

fun paint_effect :: "rstring ring_lines \<Rightarrow> painted \<Rightarrow> rstring ring_lines" where
  "paint_effect log (PLine pt) =
     (if pt_back pt = 0 \<and> pt_erase_below pt = 0 then ring_push (pt_text pt) log
      else log_repaint (pt_text pt) (pt_back pt) (pt_erase_below pt) log)"
| "paint_effect log (PStatus st) = log"

lemma paint_effect_msg:
  "g = pn_upgrade_gen p \<Longrightarrow>
     log_effect i p log (painted_msg i g pd id :: ('o, 'v) msg) = paint_effect log pd"
  by (cases pd) (simp_all add: paint_msg_def)

text \<open>The reference: the lines of a text, the last one if anything of it was written.\<close>

definition lines_of :: "bytes \<Rightarrow> rstring list" where
  "lines_of bs =
     (let parts = split_at_byte 0x0A bs
      in butlast parts @ (if List.last parts = [] then [] else [List.last parts]))"

definition plain_reading :: "bytes \<Rightarrow> reading" where
  "plain_reading raw = \<lparr>rd_states = [state_default\<lparr>ls_text := raw, ls_touched := (raw \<noteq> []), ls_printed := (raw \<noteq> [])\<rparr>],
     rd_bracket = BrOpen, rd_status = Untouched\<rparr>"

lemma read_print: "read_token (TPrint [b]) (plain_reading raw) = plain_reading (raw @ [b])"
  by (simp add: plain_reading_def write_text_def on_state_def state_default_def)

lemma read_prints:
  "fold read_token (map (\<lambda>b. TPrint [b]) bs) (plain_reading raw) = plain_reading (raw @ bs)"
  by (induction bs arbitrary: raw) (simp_all add: read_print del: read_token.simps)

lemma reading_plain:
  assumes "prints_plain v" "list_all printable raw"
  shows "reading_of v raw BrOpen = plain_reading raw"
proof -
  have "\<lparr>rd_states = [state_default], rd_bracket = BrOpen, rd_status = Untouched\<rparr> = plain_reading []"
    by (simp add: plain_reading_def state_default_def)
  then show ?thesis
    using assms read_prints [of raw "[]"] by (simp add: reading_of_def scan_plain)
qed

text \<open>The painter in the middle of plain output, with \<open>raw\<close> of a line painted.\<close>

definition plain_painter :: "bytes \<Rightarrow> painter" where
  "plain_painter raw = \<lparr>pa_up = (if raw = [] then 0 else 1), pa_open = (raw \<noteq> []), pa_raw = raw,
     pa_bracket = BrOpen, pa_status = None\<rparr>"

definition painted_at :: "rstring \<Rightarrow> bytes \<Rightarrow> painted" where
  "painted_at t raw = PLine \<lparr>pt_text = t, pt_back = (if raw = [] then 0 else 1), pt_erase_below = 0\<rparr>"

lemma plain_measures [simp]:
  "moved_up (plain_reading raw) = 0" "moved_down (plain_reading raw) = 0"
  "erased_rows (plain_reading raw) = 0" "text_of (plain_reading raw) = raw"
  "last_touched (plain_reading raw) = None \<longleftrightarrow> raw = []"
  "erase_below_of (plain_reading raw) up = 0" "rd_status (plain_reading raw) = Untouched"
  "rd_bracket (plain_reading raw) = BrOpen"
  by (simp_all add: plain_reading_def moved_up_def moved_down_def erased_rows_def max_of_def text_of_def
      last_touched_def erase_below_of_def state_default_def sat_add_def)

lemma feed_line_plain:
  assumes "prints_plain v" "list_all printable (raw @ line)"
  shows "feed_line v line (plain_painter raw) = (plain_painter [], [painted_at (raw @ line) raw])"
proof -
  have "List.last (raw @ line) \<noteq> 0x0D" if "raw @ line \<noteq> []"
  proof -
    have "printable (List.last (raw @ line))"
      using that assms(2) by (metis last_in_set list_all_iff)
    then show ?thesis by (auto simp: printable_def)
  qed
  then have "strip_cr (raw @ line) = raw @ line"
    by (auto simp: strip_cr_def)
  then show ?thesis
    using assms
    by (simp add: feed_line_def paint_line_def plain_painter_def reading_plain status_change_def
        line_up_of_def nothing_to_paint_def painted_at_def sat_add_def USIZE_MAX_def Let_def)
qed

lemma feed_rest_plain:
  assumes "prints_plain v" "list_all printable (raw @ rest)" "rest \<noteq> []"
  shows "feed_rest v rest (plain_painter raw) = (plain_painter (raw @ rest), [painted_at (raw @ rest) raw])"
  using assms
  by (simp add: feed_rest_def paint_line_def plain_painter_def reading_plain status_change_def complete_plain
      line_up_of_def nothing_to_paint_def painted_at_def sat_add_def USIZE_MAX_def Let_def)

text \<open>What the log holds while \<open>raw\<close> of a line is painted after the lines \<open>done\<close>.\<close>

definition log_holds :: "rstring list \<Rightarrow> bytes \<Rightarrow> rstring ring_lines \<Rightarrow> bool" where
  "log_holds finished raw log \<longleftrightarrow> ring_fits log \<and>
     ring_lines log = take_last (cap log) (finished @ (if raw = [] then [] else [raw]))"

lemma painted_lines:
  assumes "log_holds finished raw log"
  shows "ring_lines (paint_effect log (painted_at t raw)) = take_last (cap log) (finished @ [t])"
    "ring_fits (paint_effect log (painted_at t raw))" "cap (paint_effect log (painted_at t raw)) = cap log"
proof -
  have "ring_lines (paint_effect log (painted_at t raw)) = take_last (cap log) (finished @ [t])
      \<and> ring_fits (paint_effect log (painted_at t raw)) \<and> cap (paint_effect log (painted_at t raw)) = cap log"
  proof (cases "raw = [] \<or> cap log = 0")
    case True
    then have "paint_effect log (painted_at t raw) = ring_push t log"
      using assms by (auto simp: painted_at_def log_repaint_def log_holds_def ring_fits_def ring_ok_def)
    then show ?thesis
      using True assms ring.take_last_take_last_snoc [of "cap log" finished "[t]"]
      by (auto simp: log_holds_def ring.contents_add ring.inv_add)
  next
    case False
    then have l: "ring_lines log = take_last (cap log - 1) finished @ [raw]"
      using assms by (simp add: log_holds_def take_last_snoc)
    then have "length (ring_lines log) \<noteq> 0" by simp
    then have "paint_effect log (painted_at t raw) = overwrite_from_end 0 t log"
      using False by (simp add: painted_at_def log_repaint_def)
    then show ?thesis
      using False assms l
      by (simp add: log_holds_def ring.contents_rewrite ring.inv_rewrite take_last_snoc list_update_append)
  qed
  then show "ring_lines (paint_effect log (painted_at t raw)) = take_last (cap log) (finished @ [t])"
    "ring_fits (paint_effect log (painted_at t raw))" "cap (paint_effect log (painted_at t raw)) = cap log"
    by simp_all
qed

lemma line_finished:
  assumes "log_holds finished raw log"
  shows "log_holds (finished @ [t]) [] (paint_effect log (painted_at t raw))"
  using painted_lines [OF assms, of t] by (simp add: log_holds_def)

lemma line_grown:
  assumes "log_holds finished raw log" "t \<noteq> []"
  shows "log_holds finished t (paint_effect log (painted_at t raw))"
  using painted_lines [OF assms(1), of t] assms(2) by (simp add: log_holds_def)

text \<open>Feeding the pieces of a text: the lines before the last piece are finished, the last is
  on screen as far as it has come.\<close>

definition plain_byte :: "u8 \<Rightarrow> bool" where
  "plain_byte b \<longleftrightarrow> printable b \<or> b = 0x0A"

definition all_lines :: "bytes \<Rightarrow> bytes list \<Rightarrow> rstring list" where
  "all_lines raw parts = (raw @ hd parts) # tl parts"

lemma feed_parts_plain:
  assumes "prints_plain v" "\<forall>part \<in> set parts. list_all printable part" "list_all printable raw"
    "parts \<noteq> []" "log_holds finished raw log"
  shows "\<exists>out. feed_parts v parts (plain_painter raw) = (plain_painter (List.last (all_lines raw parts)), out)
    \<and> log_holds (finished @ butlast (all_lines raw parts)) (List.last (all_lines raw parts)) (foldl paint_effect log out)
    \<and> cap (foldl paint_effect log out) = cap log"
  using assms(2-)
proof (induction parts arbitrary: raw finished log)
  case Nil
  then show ?case by simp
next
  case (Cons part parts)
  show ?case
  proof (cases "parts = []")
    case True
    show ?thesis
    proof (cases "part = []")
      case True
      with Cons.prems \<open>parts = []\<close> show ?thesis
        by (simp add: feed_rest_def all_lines_def)
    next
      case False
      with Cons.prems \<open>parts = []\<close> show ?thesis
        using line_grown [OF Cons.prems(4), of "raw @ part"] painted_lines(3) [OF Cons.prems(4)]
        by (simp add: feed_rest_plain [OF assms(1)] all_lines_def)
    qed
  next
    case False
    then obtain q qs where q: "parts = q # qs" by (cases parts) auto
    have "feed_line v part (plain_painter raw) = (plain_painter [], [painted_at (raw @ part) raw])"
      using Cons.prems by (intro feed_line_plain assms(1)) simp
    moreover have "\<exists>out. feed_parts v parts (plain_painter []) = (plain_painter (List.last (all_lines [] parts)), out)
      \<and> log_holds ((finished @ [raw @ part]) @ butlast (all_lines [] parts)) (List.last (all_lines [] parts))
          (foldl paint_effect (paint_effect log (painted_at (raw @ part) raw)) out)
      \<and> cap (foldl paint_effect (paint_effect log (painted_at (raw @ part) raw)) out)
          = cap (paint_effect log (painted_at (raw @ part) raw))"
      using Cons.prems False line_finished [OF Cons.prems(4)] by (intro Cons.IH) simp_all
    moreover have "all_lines [] parts = parts"
      using False by (simp add: all_lines_def)
    ultimately show ?thesis
      using painted_lines(3) [OF Cons.prems(4)] q
      by (auto simp: all_lines_def Let_def)
  qed
qed

lemma split_printable:
  "\<forall>b \<in> set bs. plain_byte b \<Longrightarrow> \<forall>part \<in> set (split_at_byte 0x0A bs). list_all printable part"
proof (induction bs)
  case (Cons b bs)
  then obtain l ls where l: "split_at_byte 0x0A bs = l # ls"
    by (cases "split_at_byte 0x0A bs") auto
  with Cons show ?case by (auto simp: plain_byte_def)
qed simp

lemma split_append:
  "split_at_byte d (xs @ ys) = butlast (split_at_byte d xs) @ all_lines (List.last (split_at_byte d xs)) (split_at_byte d ys)"
proof (induction xs)
  case Nil
  obtain l ls where "split_at_byte d ys = l # ls" by (cases "split_at_byte d ys") auto
  then show ?case by (simp add: all_lines_def)
next
  case (Cons x xs)
  obtain l ls where l: "split_at_byte d xs = l # ls" by (cases "split_at_byte d xs") auto
  show ?case
    using Cons.IH by (cases "ls = []") (simp_all add: l all_lines_def)
qed

definition plain_so_far :: "rstring list \<Rightarrow> bytes \<Rightarrow> painter \<Rightarrow> rstring ring_lines \<Rightarrow> bool" where
  "plain_so_far before s p log \<longleftrightarrow>
     (let parts = split_at_byte 0x0A s
      in p = plain_painter (List.last parts) \<and> log_holds (before @ butlast parts) (List.last parts) log)"

lemma feed_bytes_plain:
  assumes "prints_plain v" "\<forall>b \<in> set (s @ bs). plain_byte b" "plain_so_far before s p log"
  shows "\<exists>p' out. feed_bytes v bs p = (p', out) \<and> plain_so_far before (s @ bs) p' (foldl paint_effect log out)
    \<and> cap (foldl paint_effect log out) = cap log"
proof -
  let ?parts = "split_at_byte 0x0A s" and ?new = "split_at_byte 0x0A bs"
  have a: "all_lines (List.last ?parts) ?new \<noteq> []"
    by (simp add: all_lines_def)
  have "\<forall>part \<in> set ?new. list_all printable part" "list_all printable (List.last ?parts)"
    using split_printable [of bs] split_printable [of s] assms(2) by auto
  then obtain out where out: "feed_parts v ?new (plain_painter (List.last ?parts)) =
      (plain_painter (List.last (all_lines (List.last ?parts) ?new)), out)"
    "log_holds ((before @ butlast ?parts) @ butlast (all_lines (List.last ?parts) ?new))
      (List.last (all_lines (List.last ?parts) ?new)) (foldl paint_effect log out)"
    "cap (foldl paint_effect log out) = cap log"
    using feed_parts_plain [OF assms(1), of ?new "List.last ?parts" "before @ butlast ?parts" log] assms(3)
    by (auto simp: plain_so_far_def Let_def)
  moreover have "p = plain_painter (List.last ?parts)"
    using assms(3) by (simp add: plain_so_far_def Let_def)
  ultimately show ?thesis
    using a by (simp add: feed_bytes_def plain_so_far_def Let_def split_append [of _ s] butlast_append)
qed

lemma feed_all_plain:
  assumes "prints_plain v" "\<forall>b \<in> set (s @ concat chunks). plain_byte b" "plain_so_far before s p log"
  shows "\<exists>p' out. feed_all v chunks p = (p', out)
    \<and> plain_so_far before (s @ concat chunks) p' (foldl paint_effect log out)
    \<and> cap (foldl paint_effect log out) = cap log"
  using assms(2,3)
proof (induction chunks arbitrary: s p log)
  case Nil
  then show ?case by simp
next
  case (Cons bs chunks)
  obtain p' out where one: "feed_bytes v bs p = (p', out)" "plain_so_far before (s @ bs) p' (foldl paint_effect log out)"
    "cap (foldl paint_effect log out) = cap log"
    using feed_bytes_plain [OF assms(1), of s bs before p log] Cons.prems by auto
  obtain p'' out' where two: "feed_all v chunks p' = (p'', out')"
    "plain_so_far before ((s @ bs) @ concat chunks) p'' (foldl paint_effect (foldl paint_effect log out) out')"
    "cap (foldl paint_effect (foldl paint_effect log out) out') = cap (foldl paint_effect log out)"
    using Cons.IH [OF _ one(2)] Cons.prems(1) by auto
  show ?case
    using one two by (simp add: Let_def)
qed

lemma finish_plain:
  assumes "prints_plain v" "\<forall>b \<in> set s. plain_byte b" "plain_so_far before s p log"
  shows "ring_lines (foldl paint_effect log (snd (painter_finish v p))) = take_last (cap log) (before @ lines_of s)"
proof -
  let ?raw = "List.last (split_at_byte 0x0A s)"
  have p: "p = plain_painter ?raw" and l: "log_holds (before @ butlast (split_at_byte 0x0A s)) ?raw log"
    using assms(3) by (simp_all add: plain_so_far_def Let_def)
  have plain: "list_all printable ?raw"
    using split_printable [OF assms(2)] by simp
  show ?thesis
  proof (cases "?raw = []")
    case True
    then show ?thesis
      using p l by (simp add: painter_finish_def plain_painter_def log_holds_def lines_of_def Let_def)
  next
    case False
    have "painter_finish v p = (plain_painter [], [painted_at ?raw ?raw])"
      using False plain assms(1)
      by (simp add: p painter_finish_def paint_line_def plain_painter_def reading_plain status_change_def
          line_up_of_def nothing_to_paint_def painted_at_def sat_add_def USIZE_MAX_def Let_def)
    then show ?thesis
      using painted_lines(1) [OF l, of ?raw] False by (simp add: lines_of_def Let_def)
  qed
qed

text \<open>Plain output reaches the log line by line however it is cut. Text without control
  characters, fed in any pieces (a line at a time, a byte at a time, a prompt long before its
  newline), sent as messages of the run and applied to the panel's log, leaves exactly what
  splitting the whole text at its newlines gives, appended to what was there and kept to the
  log's capacity: every line once, the unfinished last line shown, nothing doubled by having been
  shown before it was complete. The parser is assumed to print printable characters.\<close>

theorem plain_output_line_by_line:
  fixes q :: "'o panel"
  assumes "prints_plain v" "\<forall>b \<in> set (concat chunks). plain_byte b" "ring_fits log"
  shows "ring_lines (foldl (log_effect i q) log
      (map (\<lambda>pd. painted_msg i (pn_upgrade_gen q) pd id :: ('o, 'v) msg) (whole_run v chunks))) =
    take_last (cap log) (ring_lines log @ lines_of (concat chunks))"
proof -
  have "foldl (log_effect i q) l (map (\<lambda>pd. painted_msg i (pn_upgrade_gen q) pd id :: ('o, 'v) msg) out) =
      foldl paint_effect l out" for l out
    by (induction out arbitrary: l) (simp_all only: list.map foldl_Nil foldl_Cons paint_effect_msg)
  moreover have "plain_so_far (ring_lines log) [] painter_new log"
    using assms(3) ring.bounded [OF assms(3)]
    by (simp add: plain_so_far_def plain_painter_def painter_new_def log_holds_def take_last_all)
  then obtain p' out where "feed_all v chunks painter_new = (p', out)"
    "plain_so_far (ring_lines log) (concat chunks) p' (foldl paint_effect log out)"
    "cap (foldl paint_effect log out) = cap log"
    using feed_all_plain [OF assms(1), of "[]" chunks "ring_lines log" painter_new log] assms(2) by auto
  ultimately show ?thesis
    using finish_plain [OF assms(1,2)] by (simp add: whole_run_def Let_def case_prod_beta)
qed

theorem plain_output_line_by_line_witness:
  "ring_lines (foldl (log_effect 0 (sample_panel :: unit panel)) (ring_new 5)
     (map (\<lambda>pd. painted_msg 0 (pn_upgrade_gen (sample_panel :: unit panel)) pd id :: (unit, unit) msg)
       (whole_run tiny_vte [lit ''ab'', lit ''c'' @ [0x0A, 0x64]]))) = [lit ''abc'', lit ''d'']"
proof -
  have p: "\<forall>b \<in> set (concat [lit ''ab'', lit ''c'' @ [0x0A, 0x64]]). plain_byte b"
    by code_simp
  have l: "take_last 5 (lines_of (concat [lit ''ab'', lit ''c'' @ [0x0A, 0x64]])) = [lit ''abc'', lit ''d'']"
    by code_simp
  show ?thesis
    using plain_output_line_by_line [OF tiny_prints_plain p, of "ring_new 5" 0 "sample_panel :: unit panel"] l
    by simp
qed

section \<open>A moved line in two pieces\<close>

definition cursor_up :: "u16 \<Rightarrow> token" where
  "cursor_up n = TCsi \<lparr>csi_params = [[n]], csi_intermediates = [], csi_action = lit ''A''\<rparr>"

definition moved_reading :: "u16 \<Rightarrow> bytes \<Rightarrow> reading" where
  "moved_reading n raw = \<lparr>rd_states = [state_default\<lparr>ls_up := unat n, ls_text := raw, ls_touched := True,
       ls_printed := (raw \<noteq> [])\<rparr>],
     rd_bracket = BrOpen, rd_status = Untouched\<rparr>"

lemma read_moved:
  "fold read_token (map (\<lambda>b. TPrint [b]) bs) (moved_reading n raw) = moved_reading n (raw @ bs)"
proof (induction bs arbitrary: raw)
  case (Cons b bs)
  have "read_token (TPrint [b]) (moved_reading n raw) = moved_reading n (raw @ [b])"
    by (simp add: moved_reading_def write_text_def on_state_def state_default_def)
  with Cons show ?case by (simp del: read_token.simps)
qed simp

lemma action_letters: "lit ''A'' \<noteq> lit ''m''" "lit ''A'' \<noteq> lit ''s''" "lit ''A'' \<noteq> lit ''u''"
  "lit ''A'' \<notin> {lit ''H'', lit ''f'', lit ''d''}" "lit ''A'' \<noteq> lit ''J''"
  by code_simp+

lemma read_cursor_up:
  assumes "0 < n"
  shows "read_token (cursor_up n) (plain_reading []) = moved_reading n []"
proof -
  have "n = 1" if "unat n \<le> 1"
  proof -
    have "unat n = unat (1 :: u16)"
      using that assms by (simp add: word_less_nat_alt)
    then show ?thesis by (simp only: word_unat_eq_iff)
  qed
  then have "max n 1 = n"
    by (auto simp: max_def word_le_nat_alt)
  moreover have "min (unat n) USIZE_MAX = unat n"
    using unsigned_less [of n, where ?'a = nat] by (simp add: USIZE_MAX_def)
  ultimately show ?thesis
    using action_letters
    by (simp add: cursor_up_def read_csi_def is_sgr_def move_cursor_def move_state_def on_state_def
        plain_reading_def moved_reading_def state_default_def csi_count_def csi_first_def sat_add_def Let_def)
qed

lemma reading_moved:
  assumes "scan v raw = cursor_up n # map (\<lambda>b. TPrint [b]) t" "0 < n"
  shows "reading_of v raw BrOpen = moved_reading n t"
proof -
  have "\<lparr>rd_states = [state_default], rd_bracket = BrOpen, rd_status = Untouched\<rparr> = plain_reading []"
    by (simp add: plain_reading_def state_default_def)
  then show ?thesis
    using assms read_moved [of t n "[]"] read_cursor_up [OF assms(2)]
    by (simp add: reading_of_def del: read_token.simps)
qed

lemma moved_measures [simp]:
  "moved_up (moved_reading n raw) = min (unat n) USIZE_MAX" "moved_down (moved_reading n raw) = 0"
  "erased_rows (moved_reading n raw) = 0" "text_of (moved_reading n raw) = raw"
  "last_touched (moved_reading n raw) \<noteq> None" "last_touched (moved_reading n raw) = None \<longleftrightarrow> False"
  "erase_below_of (moved_reading n raw) up = 0" "rd_status (moved_reading n raw) = Untouched"
  "rd_bracket (moved_reading n raw) = BrOpen"
  by (simp_all add: moved_reading_def moved_up_def moved_down_def erased_rows_def max_of_def text_of_def
      last_touched_def erase_below_of_def state_default_def sat_add_def)

definition paint_at :: "rstring \<Rightarrow> nat \<Rightarrow> painted" where
  "paint_at t back = PLine \<lparr>pt_text = t, pt_back = back, pt_erase_below = 0\<rparr>"

text \<open>A line drawn in two pieces is placed by its movement twice. A line that begins by moving
  \<open>n\<close> rows up, whose text arrives in two pieces without a newline between them, is painted first
  on the row \<open>n\<close> above and, when the rest of it comes, on the row \<open>2 n\<close> above: the row of the
  unfinished line is kept as the place to count from, and the movement is counted again with the
  re-read of the whole line. Fed at once, the same bytes give one paint, \<open>n\<close> rows up.\<close>

theorem movement_counted_twice:
  assumes "scan v a = cursor_up n # map (\<lambda>b. TPrint [b]) t" "is_complete v a"
    and "scan v (a @ b) = cursor_up n # map (\<lambda>b. TPrint [b]) (t @ u)"
    and "0 < n" "t \<noteq> []" "0x0A \<notin> set (a @ b)" "a \<noteq> []" "List.last (a @ b) \<noteq> 0x0D"
  shows "snd (feed_all v [a, b @ [0x0A]] painter_new) = [paint_at t (unat n), paint_at (t @ u) (2 * unat n)]
    \<and> snd (feed_bytes v (a @ b @ [0x0A]) painter_new) = [paint_at (t @ u) (unat n)]"
proof -
  have n: "unat n < 2 ^ 16" "0 < unat n"
    using unsigned_less [of n] assms(4) by (simp_all add: word_less_nat_alt)
  let ?p = "\<lparr>pa_up = unat n, pa_open = True, pa_raw = a, pa_bracket = BrOpen, pa_status = None\<rparr>"
  have one: "feed_bytes v a painter_new = (?p, [paint_at t (unat n)])"
    using assms n
    by (simp add: feed_bytes_def split_at_byte_no_sep feed_rest_def paint_line_def painter_new_def
        reading_moved [OF assms(1)] status_change_def line_up_of_def nothing_to_paint_def paint_at_def
        sat_add_def USIZE_MAX_def Let_def)
  have s: "split_at_byte 0x0A (b @ [0x0A]) = [b, []]" "split_at_byte 0x0A (a @ b @ [0x0A]) = [a @ b, []]"
    using split_at_byte_sep [of "0x0A" b "[]"] split_at_byte_sep [of "0x0A" "a @ b" "[]"] assms(6) by simp_all
  have cr: "strip_cr (a @ b) = a @ b"
    using assms(8) by (simp add: strip_cr_def)
  have two: "snd (feed_bytes v (b @ [0x0A]) ?p) = [paint_at (t @ u) (2 * unat n)]"
    using assms(5) n cr
    by (simp add: feed_bytes_def s feed_line_def feed_rest_def paint_line_def reading_moved [OF assms(3,4)]
        status_change_def line_up_of_def nothing_to_paint_def paint_at_def sat_add_def USIZE_MAX_def Let_def
        case_prod_beta)
  have "snd (feed_bytes v (a @ b @ [0x0A]) painter_new) = [paint_at (t @ u) (unat n)]"
    using assms(5) n cr
    by (simp add: feed_bytes_def s feed_line_def feed_rest_def paint_line_def painter_new_def
        reading_moved [OF assms(3,4)] status_change_def line_up_of_def nothing_to_paint_def paint_at_def
        sat_add_def USIZE_MAX_def Let_def case_prod_beta)
  then show ?thesis
    using one two by (simp add: Let_def case_prod_beta)
qed

theorem movement_counted_twice_witness:
  "snd (feed_all tiny_vte [[0x1B, 0x5B, 0x32, 0x41, 0x61], [0x62, 0x0A]] painter_new) =
     [paint_at [0x61] 2, paint_at [0x61, 0x62] 4]"
proof -
  have s: "scan tiny_vte [0x1B, 0x5B, 0x32, 0x41, 0x61] = cursor_up 2 # map (\<lambda>b. TPrint [b]) [0x61]"
    "scan tiny_vte ([0x1B, 0x5B, 0x32, 0x41, 0x61] @ [0x62]) =
      cursor_up 2 # map (\<lambda>b. TPrint [b]) ([0x61] @ [0x62])"
    by (simp_all add: scan_def tiny_vte_def cursor_up_def lit_def parse_unsigned_def digit_of_def)
  have "is_complete tiny_vte [0x1B, 0x5B, 0x32, 0x41, 0x61]"
    by (simp add: is_complete_def tiny_vte_def parse_unsigned_def digit_of_def)
  then show ?thesis
    using movement_counted_twice [OF s(1) _ s(2)] by simp
qed

section \<open>The status line\<close>

text \<open>What a reader of the paints takes the status line to be.\<close>

fun status_after :: "rstring option \<Rightarrow> painted \<Rightarrow> rstring option" where
  "status_after st (PLine pt) = st"
| "status_after st (PStatus st') = st'"

lemma paint_line_status:
  "foldl status_after (pa_status p) (snd (paint_line v e p)) = pa_status (fst (paint_line v e p))"
  by (simp add: paint_line_def status_change_def Let_def case_prod_beta split: status_write.split)

lemma feed_line_status:
  "foldl status_after (pa_status p) (snd (feed_line v line p)) = pa_status (fst (feed_line v line p))"
  using paint_line_status [of "p\<lparr>pa_raw := strip_cr (pa_raw p @ line)\<rparr>" v EndNewline]
  by (simp add: feed_line_def)

lemma feed_rest_status:
  "foldl status_after (pa_status p) (snd (feed_rest v rest p)) = pa_status (fst (feed_rest v rest p))"
  using paint_line_status [of "p\<lparr>pa_raw := pa_raw p @ rest\<rparr>" v EndOpen]
  by (simp add: feed_rest_def)

lemma feed_parts_status:
  "foldl status_after (pa_status p) (snd (feed_parts v parts p)) = pa_status (fst (feed_parts v parts p))"
proof (induction parts arbitrary: p)
  case (Cons line parts)
  then show ?case
    by (cases parts) (simp_all add: feed_rest_status feed_line_status Let_def case_prod_beta)
qed simp

lemma feed_all_status:
  "foldl status_after (pa_status p) (snd (feed_all v chunks p)) = pa_status (fst (feed_all v chunks p))"
  by (induction chunks arbitrary: p)
     (simp_all add: feed_bytes_def feed_parts_status Let_def case_prod_beta)

text \<open>No run leaves a status line behind. Whatever bytes a run writes, cut in any way and read
  by any parser, after the painter is finished the pinned status line is down: the last word on it
  among all paints is that there is none, so a progress bar never outlives its process.\<close>

theorem status_taken_down:
  "foldl status_after None (whole_run v chunks) = None"
proof -
  have fin: "foldl status_after (pa_status p) (snd (painter_finish v p)) = None" for p
    using paint_line_status [of p v EndEof]
    by (auto simp: painter_finish_def Let_def case_prod_beta)
  show ?thesis
    using fin [of "fst (feed_all v chunks painter_new)"] feed_all_status [of painter_new v chunks]
    by (simp add: whole_run_def Let_def case_prod_beta) (simp add: painter_new_def)
qed

end
