(* ===== verification/Upgrade_Props.thy ===== *)
theory Upgrade_Props
  imports Upgrade_Read Painter_Props Run_Props
begin

text \<open>
  What an upgrade comes to: what the agent sends is what the operator is told, success means that
  the command ran and exited with 0, and every run reports its end, so that the panel it belongs
  to always settles.
\<close>

section \<open>Reading what the agent wrote\<close>

lemma decoded_magic:
  assumes "decode_packet bs = Some pl"
  shows "HEADER_LEN \<le> length bs" "take 4 bs = MAGIC"
  using assms by (auto simp: decode_packet_def split: if_splits)

lemma read_packet:
  assumes "payload_fits pl"
  shows "read_frames ro e (encode_packet pl @ rest) p r =
    (let (ended, p, r, msgs) = apply_payload ro (Some (payload_canon pl)) p r
     in if ended then (let (r, fin) = finish_run ro p r in Some (r, msgs @ fin))
        else map_option (\<lambda>(r, more). (r, msgs @ more)) (read_frames ro e rest p r))"
proof -
  obtain h where h: "encode_packet pl = h @ body pl" "length h = HEADER_LEN"
    "unat (of_le [h ! 6, h ! 7] :: u16) = length (body pl)"
    using packet_split [OF body_within [OF assms]] by blast
  have d: "decode_packet (h @ body pl) = Some (payload_canon pl)"
    using decode_encode_packet [OF assms, of "[]"] h(1) by simp
  have len: "packet_len (h @ body pl @ rest) = length (body pl)"
    using h(2,3) by (simp add: packet_len_def nth_append HEADER_LEN_def)
  have magic: "take 4 (h @ body pl @ rest) = MAGIC"
    using decoded_magic(2) [OF d] h(2) by (simp add: HEADER_LEN_def)
  show ?thesis
    unfolding h(1) append_assoc
    using h(2) magic by (subst read_frames.simps) (simp add: len d Let_def case_prod_beta)
qed

text \<open>What the frames of a run that has not ended add to the report.\<close>

definition signs_after :: "exec_frame list \<Rightarrow> report \<Rightarrow> report \<Rightarrow> bool" where
  "signs_after fs r r' \<longleftrightarrow>
     rp_exit r' = rp_exit r \<and> rp_stalled r' = rp_stalled r \<and> rp_need_agent r' = rp_need_agent r
     \<and> rp_preamble r' = rp_preamble r
     \<and> (sg_rejected (rp_sudo r') \<longleftrightarrow> sg_rejected (rp_sudo r) \<or> Marker SudoFailed \<in> set fs)
     \<and> (rp_lock_held r' \<longleftrightarrow> rp_lock_held r \<or> Marker LockHeld \<in> set fs)"

lemma frame_signs:
  assumes "\<not> is_terminal f" "apply_frame ro f p r = (ended, p', r', msgs)"
  shows "\<not> ended" "signs_after [f] r r'"
proof -
  have "\<not> ended \<and> signs_after [f] r r'"
  proof (cases f)
    case (Out st sq bs)
    with assms show ?thesis
      by (cases st) (auto simp: signs_after_def note_sudo_help_def Let_def case_prod_beta split: if_splits)
  next
    case (Marker m)
    with assms show ?thesis by (cases m) (auto simp: signs_after_def)
  qed (use assms in \<open>auto simp: signs_after_def\<close>)
  then show "\<not> ended" "signs_after [f] r r'" by simp_all
qed

lemma signs_trans: "signs_after fs r r' \<Longrightarrow> signs_after gs r' r'' \<Longrightarrow> signs_after (fs @ gs) r r''"
  by (auto simp: signs_after_def)

definition on_wire :: "exec_frame list \<Rightarrow> bytes" where
  "on_wire fs = concat (map (\<lambda>f. encode_packet (Exec f)) fs)"

lemma read_running:
  assumes "\<forall>f \<in> set fs. \<not> is_terminal f \<and> payload_fits (Exec f)"
  shows "\<exists>p' r' (msgs :: ('o, 'v) msg list). signs_after fs r r' \<and>
    read_frames ro e (on_wire fs @ rest) p r =
      map_option (\<lambda>(r, more). (r, msgs @ more)) (read_frames ro e rest p' r')"
  using assms
proof (induction fs arbitrary: p r)
  case Nil
  show ?case
    by (intro exI [of _ p] exI [of _ r] exI [of _ "[]"])
       (simp add: on_wire_def signs_after_def option.map_ident)
next
  case (Cons f fs)
  obtain ended p1 r1 and msgs1 :: "('o, 'v) msg list" where a: "apply_frame ro f p r = (ended, p1, r1, msgs1)"
    by (metis prod_cases4)
  have one: "\<not> ended" "signs_after [f] r r1"
    using frame_signs [OF _ a] Cons.prems by simp_all
  obtain p2 r2 and msgs2 :: "('o, 'v) msg list" where two: "signs_after fs r1 r2"
    "read_frames ro e (on_wire fs @ rest) p1 r1 =
      map_option (\<lambda>(r, more). (r, msgs2 @ more)) (read_frames ro e rest p2 r2)"
    using Cons.IH Cons.prems by (meson list.set_intros(2))
  have "read_frames ro e (encode_packet (Exec f) @ on_wire fs @ rest) p r =
      map_option (\<lambda>(r, more). (r, msgs1 @ msgs2 @ more)) (read_frames ro e rest p2 r2)"
    using Cons.prems one(1) a two(2)
    by (subst read_packet) (simp_all add: apply_payload_def option.map_comp comp_def case_prod_unfold)
  then show ?case
    using signs_trans [OF one(2) two(1)]
    by (intro exI [of _ p2] exI [of _ r2] exI [of _ "msgs1 @ msgs2"]) (simp add: on_wire_def)
qed

lemma read_to_exit:
  assumes "\<forall>f \<in> set fs. \<not> is_terminal f \<and> payload_fits (Exec f)"
  shows "\<exists>r' (msgs :: ('o, 'v) msg list). read_frames ro e (on_wire (fs @ [Exit code sg]) @ rest) p r = Some (r'\<lparr>rp_exit := Some (code, sg)\<rparr>, msgs)
    \<and> signs_after fs r r'"
proof -
  obtain p' r' and msgs :: "('o, 'v) msg list" where r: "signs_after fs r r'"
    "read_frames ro e (on_wire fs @ encode_packet (Exec (Exit code sg)) @ rest) p r =
      map_option (\<lambda>(r, more). (r, msgs @ more)) (read_frames ro e (encode_packet (Exec (Exit code sg)) @ rest) p' r')"
    using read_running [OF assms, of r ro e "encode_packet (Exec (Exit code sg)) @ rest" p]
    by blast
  have x: "payload_fits (Exec (Exit code sg))"
    by (simp add: MAX_PAYLOAD_def)
  have "read_frames ro e (on_wire (fs @ [Exit code sg]) @ rest) p r =
      Some (r'\<lparr>rp_exit := Some (code, sg)\<rparr>, msgs @ show_painted ro id (snd (painter_finish (ro_vte ro) p')))"
    using r(2) by (simp add: on_wire_def read_packet [OF x] apply_payload_def finish_run_def)
  then show ?thesis
    using r(1) by blast
qed

text \<open>What an agent that was there and ran wrote: Hello, its frames, its Exit, and anything.\<close>

definition agent_wrote :: "hello \<Rightarrow> exec_frame list \<Rightarrow> i32 \<Rightarrow> bool \<Rightarrow> bytes \<Rightarrow> bool" where
  "agent_wrote h fs code sg bs \<longleftrightarrow>
     (\<exists>rest. bs = encode_packet (HelloP h) @ on_wire (fs @ [Exit code sg]) @ rest) \<and> payload_fits (HelloP h)
     \<and> (\<forall>f \<in> set fs. \<not> is_terminal f \<and> payload_fits (Exec f))"

lemma wrote_reported:
  assumes "agent_wrote h fs code sg bs"
  shows "\<exists>r (msgs :: ('o, 'v) msg list). read_frames ro e bs painter_new report_default = Some (r, msgs)
    \<and> rp_exit r = Some (code, sg) \<and> \<not> rp_stalled r \<and> rp_need_agent r = None
    \<and> (sg_rejected (rp_sudo r) \<longleftrightarrow> Marker SudoFailed \<in> set fs)
    \<and> (rp_lock_held r \<longleftrightarrow> Marker LockHeld \<in> set fs)"
proof -
  obtain rest where bs: "bs = encode_packet (HelloP h) @ on_wire (fs @ [Exit code sg]) @ rest"
    using assms by (auto simp: agent_wrote_def)
  let ?r = "if needs_replacement h (ro_version ro)
            then report_default\<lparr>rp_preamble := Some (version_note (ro_version ro) h)\<rparr> else report_default"
  have frames: "\<forall>f \<in> set fs. \<not> is_terminal f \<and> payload_fits (Exec f)" and hello: "payload_fits (HelloP h)"
    using assms by (simp_all add: agent_wrote_def)
  obtain r' and msgs :: "('o, 'v) msg list" where
    "read_frames ro e (on_wire (fs @ [Exit code sg]) @ rest) painter_new ?r = Some (r'\<lparr>rp_exit := Some (code, sg)\<rparr>, msgs)"
    and signs: "signs_after fs ?r r'"
    using read_to_exit [OF frames] by blast
  then have "read_frames ro e bs painter_new report_default = Some (r'\<lparr>rp_exit := Some (code, sg)\<rparr>, msgs)"
    by (simp add: bs read_packet [OF hello] apply_payload_def)
  then show ?thesis
    using signs
    by (intro exI [of _ "r'\<lparr>rp_exit := Some (code, sg)\<rparr>"] exI [of _ msgs])
       (simp add: signs_after_def report_default_def split: if_splits)
qed

text \<open>The exit the agent observed is the exit that is reported. Whatever frames a run sends, in
  pieces or bursts, followed by its Exit frame and whatever junk or silence comes after, reading the
  stream back ends with that code and signal, and the report says the password was refused or
  the lock held exactly when the agent sent that marker; nothing after the Exit frame is read.\<close>

theorem agent_exit_reported:
  assumes "agent_wrote h fs code sg bs"
  shows "\<exists>r (msgs :: ('o, 'v) msg list). read_frames ro e bs painter_new report_default = Some (r, msgs)
    \<and> rp_exit r = Some (code, sg) \<and> \<not> rp_stalled r \<and> rp_need_agent r = None
    \<and> (sg_rejected (rp_sudo r) \<longleftrightarrow> Marker SudoFailed \<in> set fs)
    \<and> (rp_lock_held r \<longleftrightarrow> Marker LockHeld \<in> set fs)"
  using assms by (rule wrote_reported)

section \<open>The operator is told the truth\<close>

lemma sint_zero: "(c :: i32) = 0 \<Longrightarrow> c \<noteq> SUDO_FAILED_CODE \<and> c \<noteq> LOCK_HELD_CODE"
  by (simp add: SUDO_FAILED_CODE_def LOCK_HELD_CODE_def)

lemma success_iff:
  "td_success (verdict pal server r) \<longleftrightarrow>
     \<not> rp_stalled r \<and> \<not> sg_rejected (rp_sudo r) \<and> \<not> rp_lock_held r \<and> rp_need_agent r = None
     \<and> (\<exists>sg. rp_exit r = Some (0, sg))"
  using sint_zero
  by (auto simp: verdict_def failed_with_def Let_def split: option.split)

lemma stderr_keeps:
  "rp_exit (foldl (read_stderr_line tx) r errs) = rp_exit r \<and> rp_stalled (foldl (read_stderr_line tx) r errs) = rp_stalled r
    \<and> rp_sudo (foldl (read_stderr_line tx) r errs) = rp_sudo r
    \<and> rp_lock_held (foldl (read_stderr_line tx) r errs) = rp_lock_held r
    \<and> (list_all (\<lambda>l. parse_need_agent l = None) errs \<longrightarrow>
        rp_need_agent (foldl (read_stderr_line tx) r errs) = rp_need_agent r)"
  by (induction errs arbitrary: r) (simp_all add: read_stderr_line_def Let_def split: option.split)

section \<open>A run's messages\<close>

definition run_message :: "nat \<Rightarrow> u64 \<Rightarrow> ('o, 'v) msg \<Rightarrow> bool" where
  "run_message i g m \<longleftrightarrow>
     (case m of AuxBegin j h _ \<Rightarrow> j = i \<and> h = g | AuxLine j h _ \<Rightarrow> j = i \<and> h = g
              | AuxRepaint j h _ _ _ \<Rightarrow> j = i \<and> h = g | AuxStatus j h _ \<Rightarrow> j = i \<and> h = g | _ \<Rightarrow> False)"

abbreviation own :: "'p run_outside \<Rightarrow> ('o, 'v) msg list \<Rightarrow> bool" where
  "own ro msgs \<equiv> list_all (run_message (ro_idx ro) (ro_gen ro)) msgs"

lemma own_say [simp]: "run_message (ro_idx ro) (ro_gen ro) (say ro t)"
  by (simp add: run_message_def say_def)

lemma own_says [simp]: "own ro (map (say ro) ts)"
  by (simp add: list_all_iff)

lemma own_painted: "run_message (ro_idx ro) (ro_gen ro) (painted_msg (ro_idx ro) (ro_gen ro) pd style)"
  by (cases pd) (simp_all add: run_message_def paint_msg_def)

lemma own_show [simp]: "own ro (show_painted ro style ps)"
  by (simp add: show_painted_def list_all_iff own_painted)

lemma own_frame: "own ro (snd (snd (snd (apply_frame ro f p r))))"
proof (cases f)
  case (Out st sq bs)
  then show ?thesis by (cases st) (simp_all add: Let_def case_prod_beta)
qed simp_all

lemma own_payload: "own ro (snd (snd (snd (apply_payload ro pl p r))))"
  by (simp add: apply_payload_def own_frame split: option.split payload.split)

lemma own_finish [simp]: "own ro (snd (finish_run ro p r))"
  by (simp add: finish_run_def)

lemma own_read:
  fixes msgs :: "('o, 'v) msg list"
  shows "read_frames ro e bs p r = Some (r', msgs) \<Longrightarrow> own ro msgs"
proof (induction "length bs" arbitrary: bs p r r' msgs rule: less_induct)
  case less
  let ?n = "HEADER_LEN + packet_len bs"
  let ?x = "apply_payload ro (decode_packet (take ?n bs)) p r :: bool \<times> painter \<times> report \<times> ('o, 'v) msg list"
  obtain ended p1 r1 m1 where a: "?x = (ended, p1, r1, m1)"
    by (metis prod_cases4)
  have m1: "own ro m1"
    using own_payload [of ro "decode_packet (take ?n bs)" p r, where ?'a = 'o and ?'b = 'v] a by simp
  have step: "read_frames ro e (drop ?n bs) p1 r1 = Some (r'', m2) \<Longrightarrow> length bs \<ge> HEADER_LEN \<Longrightarrow> own ro m2"
    for r'' and m2 :: "('o, 'v) msg list"
    by (rule less.hyps [of "drop ?n bs"]) (simp_all add: HEADER_LEN_def)
  show ?case
    using less.prems m1 step a
    by (subst (asm) read_frames.simps)
       (auto simp: Let_def case_prod_beta finish_run_def split: if_splits stream_end.splits)
qed

lemma own_last_words [simp]: "own ro (last_words ro r)"
  by (simp add: last_words_def split: option.split)

lemma own_attempt:
  fixes msgs :: "('o, 'v) msg list"
  assumes "attempt_once ro st = Some (r, msgs)"
  shows "own ro msgs"
  using assms own_read
  by (cases st) (auto simp: attempt_once_def Let_def)

lemma own_install: "own ro (snd (install_agent ro up server a))"
  by (simp add: install_agent_def split: option.split)

lemma own_attempts:
  fixes msgs :: "('o, 'v) msg list"
  assumes "attempts ro rm server req = Some (fin, msgs)"
  shows "own ro msgs"
proof -
  obtain r0 and m0 :: "('o, 'v) msg list" where one: "attempt_once ro (rm_start rm 0 req) = Some (r0, m0)"
    using assms by (auto simp: attempts_def bind_eq_Some_conv)
  show ?thesis
  proof (cases "rp_need_agent r0")
    case None
    then show ?thesis using assms one own_attempt [OF one] by (simp add: attempts_def)
  next
    case (Some a)
    obtain inst m1 where i: "install_agent ro (rm_upload rm) server a = (inst, m1 :: ('o, 'v) msg list)"
      by fastforce
    have "own ro m1"
      using own_install [of ro "rm_upload rm" server a, where ?'a = 'o and ?'b = 'v] i by simp
    moreover have "own ro m2" if "attempt_once ro (rm_start rm 1 req) = Some (r2, m2)" for r2 and m2 :: "('o, 'v) msg list"
      using that by (rule own_attempt)
    ultimately show ?thesis
      using assms one Some i own_attempt [OF one]
      by (auto simp: attempts_def split: sum.splits)
  qed
qed

lemma own_run:
  fixes msgs :: "('o, 'v) msg list"
  assumes "run_upgrade_task ro rm server pass dm = Some (t, msgs)"
  shows "own ro msgs"
proof (cases "sv_upgrade_cmd server")
  case None
  then show ?thesis using assms by (simp add: run_upgrade_task_def)
next
  case (Some cmd)
  obtain fin and m :: "('o, 'v) msg list" where
    a: "attempts ro rm server (upgrade_request (rm_mock rm) cmd pass dm) = Some (fin, m)"
    using assms Some by (auto simp: run_upgrade_task_def)
  have "run_message (ro_idx ro) (ro_gen ro) (AuxBegin (ro_idx ro) (ro_gen ro) x)" for x
    by (simp add: run_message_def)
  then show ?thesis
    using assms Some a own_attempts [OF a]
    by (cases fin) (auto simp: run_upgrade_task_def Let_def)
qed

section \<open>Success\<close>

lemma attempt_report:
  assumes "agent_wrote h fs code sg bs" "list_all (\<lambda>l. parse_need_agent l = None) errs"
  shows "\<exists>r (msgs :: ('o, 'v) msg list). attempt_once ro (StartedWith bs e errs) = Some (r, msgs)
    \<and> rp_need_agent r = None \<and> (td_success (verdict pal server r) \<longleftrightarrow>
        code = 0 \<and> Marker SudoFailed \<notin> set fs \<and> Marker LockHeld \<notin> set fs)"
proof -
  obtain r and msgs :: "('o, 'v) msg list" where
    r: "read_frames ro e bs painter_new report_default = Some (r, msgs)"
      "rp_exit r = Some (code, sg)" "\<not> rp_stalled r" "rp_need_agent r = None"
      "sg_rejected (rp_sudo r) \<longleftrightarrow> Marker SudoFailed \<in> set fs" "rp_lock_held r \<longleftrightarrow> Marker LockHeld \<in> set fs"
    using wrote_reported [OF assms(1), of ro e] by metis
  let ?r = "foldl (read_stderr_line (ro_text ro)) r errs"
  have "rp_exit ?r = Some (code, sg)" "\<not> rp_stalled ?r" "rp_need_agent ?r = None"
    "sg_rejected (rp_sudo ?r) \<longleftrightarrow> Marker SudoFailed \<in> set fs" "rp_lock_held ?r \<longleftrightarrow> Marker LockHeld \<in> set fs"
    using stderr_keeps [of "ro_text ro" r errs] assms(2) r by simp_all
  then show ?thesis
    using r(1)
    by (intro exI [of _ ?r] exI [of _ "msgs @ last_words ro ?r"]) (auto simp: attempt_once_def success_iff Let_def)
qed

lemma run_told:
  assumes "sv_upgrade_cmd server = Some cmd"
    and "rm_start rm 0 (upgrade_request (rm_mock rm) cmd pass dm) = StartedWith bs e errs"
    and "agent_wrote h fs code sg bs" "list_all (\<lambda>l. parse_need_agent l = None) errs"
  shows "\<exists>(msgs :: ('o, 'v) msg list) (t :: told). spawn_upgrade ro rm server pass dm =
      Some (msgs @ [AuxDone (ro_idx ro) (ro_gen ro) (Some (td_note t)) (td_success t)])
    \<and> own ro msgs \<and> (td_success t \<longleftrightarrow> code = 0 \<and> Marker SudoFailed \<notin> set fs \<and> Marker LockHeld \<notin> set fs)"
proof -
  obtain r and m :: "('o, 'v) msg list" where
    r: "attempt_once ro (StartedWith bs e errs) = Some (r, m)" "rp_need_agent r = None"
      "td_success (verdict (ro_palette ro) server r) \<longleftrightarrow>
        code = 0 \<and> Marker SudoFailed \<notin> set fs \<and> Marker LockHeld \<notin> set fs"
    using attempt_report [OF assms(3,4), of ro e "ro_palette ro" server] by blast
  then obtain msgs :: "('o, 'v) msg list" where
    run: "run_upgrade_task ro rm server pass dm = Some (verdict (ro_palette ro) server r, msgs)"
    using assms(1,2) by (simp add: run_upgrade_task_def attempts_def Let_def)
  show ?thesis
    by (rule exI [of _ msgs], rule exI [of _ "verdict (ro_palette ro) server r"])
       (use run own_run [OF run] r(3) in \<open>simp add: spawn_upgrade_def\<close>)
qed

text \<open>Success means that the command ran and exited with 0. When the agent was there and ran,
  the run ends with one message telling its end, and it tells success exactly when the command
  exited with 0, the password was not refused and the lock was not held by another run; the
  messages before it are the run's own and none of them ends it.\<close>

theorem success_told_exactly:
  assumes "sv_upgrade_cmd server = Some cmd"
    and "rm_start rm 0 (upgrade_request (rm_mock rm) cmd pass dm) = StartedWith bs e errs"
    and "agent_wrote h fs code sg bs" "list_all (\<lambda>l. parse_need_agent l = None) errs"
  shows "\<exists>(msgs :: ('o, 'v) msg list) (t :: told). spawn_upgrade ro rm server pass dm =
      Some (msgs @ [AuxDone (ro_idx ro) (ro_gen ro) (Some (td_note t)) (td_success t)])
    \<and> own ro msgs \<and> (td_success t \<longleftrightarrow> code = 0 \<and> Marker SudoFailed \<notin> set fs \<and> Marker LockHeld \<notin> set fs)"
  using assms by (rule run_told)

definition sample_outside :: "bytes run_outside" where
  "sample_outside = \<lparr>ro_idx = 0, ro_gen = 1, ro_palette = plain_palette, ro_text = plain_text, ro_vte = tiny_vte,
     ro_version = lit ''0.43.0''\<rparr>"

definition remote_saying :: "bytes \<Rightarrow> remote" where
  "remote_saying bs = \<lparr>rm_start = (\<lambda>_ _. StartedWith bs Closed []), rm_upload = (\<lambda>_. Ok ()), rm_mock = False\<rparr>"

definition sample_stream :: bytes where
  "sample_stream = encode_packet (HelloP (hello_new (lit ''0.43.0''))) @
     on_wire ([Out Stdout 0 [0x61, 0x0A]] @ [Exit 0 False])"

lemma sample_outside_simps [simp]:
  "ro_idx sample_outside = 0" "ro_gen sample_outside = 1"
  "rm_start (remote_saying bs) n req = StartedWith bs Closed []" "\<not> rm_mock (remote_saying bs)"
  by (simp_all add: sample_outside_def remote_saying_def)

lemma sample_wrote: "agent_wrote (hello_new (lit ''0.43.0'')) [Out Stdout 0 [0x61, 0x0A]] 0 False sample_stream"
  unfolding agent_wrote_def sample_stream_def
  by (intro conjI exI [of _ "[]"])
     (simp_all add: hello_new_def valid_utf8_ascii lit_def MAX_EXEC_CHUNK_def MAX_PAYLOAD_def put_blob_def Let_def)

theorem agent_exit_reported_witness:
  "\<exists>r (msgs :: (unit, unit) msg list).
     read_frames sample_outside Silent sample_stream painter_new report_default = Some (r, msgs)
     \<and> rp_exit r = Some (0, False)"
  using agent_exit_reported [OF sample_wrote, of sample_outside Silent, where ?'o = unit and ?'v = unit] by blast

theorem success_told_exactly_witness:
  "\<exists>(msgs :: (unit, unit) msg list) (t :: told).
     spawn_upgrade sample_outside (remote_saying sample_stream) sample_server None (80, 24) =
       Some (msgs @ [AuxDone 0 1 (Some (td_note t)) (td_success t)])
     \<and> list_all (run_message 0 1) msgs \<and> td_success t"
  using success_told_exactly [OF sample_simps(11) _ sample_wrote, of "remote_saying sample_stream" None "(80, 24)"
      Closed "[]" sample_outside, where ?'o = unit and ?'v = unit]
  by simp

section \<open>End to end\<close>

lemma serve_wrote:
  assumes "serve host cols lns input ev = Some (HelloP h # map Exec (fs @ [Exit code sg]))"
    and "\<forall>f \<in> set fs. \<not> is_terminal f" "list_all payload_fits (HelloP h # map Exec (fs @ [Exit code sg]))"
  shows "agent_wrote h fs code sg (concat (map encode_packet (HelloP h # map Exec (fs @ [Exit code sg]))))"
  using assms(2,3) unfolding agent_wrote_def
  by (intro conjI exI [of _ "[]"]) (simp_all add: on_wire_def list_all_iff comp_def)

text \<open>C2: End to end, the operator is told what happened on the host. Let the application's request
  reach the agent and the agent's packets come back: the agent runs the configured command with
  the host's password under the host's lock, and when it has run, the application reports success
  exactly if that run's exit code was 0 and the agent neither found the password refused nor the
  lock held. The host name and version in the agent's packets are assumed to fit their length
  prefixes.\<close>

theorem upgrade_end_to_end:
  assumes "sv_upgrade_cmd server = Some cmd" "req = upgrade_request (rm_mock rm) cmd pass dm"
    and "payload_fits (Exec req)" "serve host cols lns (encode_packet (Exec req)) ev = Some ps"
    and "list_all payload_fits ps" "rm_start rm 0 req = StartedWith (concat (map encode_packet ps)) e errs"
    and "list_all (\<lambda>l. parse_need_agent l = None) errs"
  shows "\<exists>rq code out w (msgs :: ('o, 'v) msg list) (t :: told). run rq ev = Some (code, out, w)
    \<and> rq_command rq = cmd \<and> rq_password rq = (if rm_mock rm then None else pass) \<and> rq_use_lock rq = (\<not> rm_mock rm)
    \<and> spawn_upgrade ro rm server pass dm =
        Some (msgs @ [AuxDone (ro_idx ro) (ro_gen ro) (Some (td_note t)) (td_success t)])
    \<and> (td_success t \<longleftrightarrow> code = 0 \<and> Marker SudoFailed \<notin> set out \<and> Marker LockHeld \<notin> set out)"
proof -
  let ?pw = "if rm_mock rm then None else pass"
  have req: "req = Request cmd ?pw (\<not> rm_mock rm) (fst dm) (snd dm)"
    using assms(2) by (simp add: upgrade_request_def)
  then have "read_request (encode_packet (Exec req)) = Some (Request cmd ?pw (\<not> rm_mock rm) (fst dm) (snd dm))"
    using request_reads_back [of cmd ?pw "\<not> rm_mock rm" "fst dm" "snd dm" "[]"] assms(3) by simp
  then obtain rq code out w where run: "run rq ev = Some (code, out, w)" "rq_command rq = cmd"
    "rq_password rq = ?pw" "rq_use_lock rq = (\<not> rm_mock rm)"
    and ps: "ps = HelloP (hello_new (ev_version ev)) # map Exec out"
    using assms(4) by (auto simp: serve_def Let_def)
  obtain fs sq sg where fs: "out = fs @ [Exit code sg]" "well_sent sq fs"
    using run_frames [OF run(1)] by blast
  have "agent_wrote (hello_new (ev_version ev)) fs code sg (concat (map encode_packet ps))"
    using serve_wrote [OF _ _ assms(5) [unfolded ps fs(1)]] assms(4) fs(2)
    by (simp add: ps fs(1) well_sent_def list_all_iff)
  from run_told [OF assms(1) assms(6) [unfolded assms(2)] this assms(7), of ro, where ?'o = 'o and ?'v = 'v]
  obtain msgs :: "('o, 'v) msg list" and t :: told where
    t: "spawn_upgrade ro rm server pass dm =
        Some (msgs @ [AuxDone (ro_idx ro) (ro_gen ro) (Some (td_note t)) (td_success t)])"
      "td_success t \<longleftrightarrow> code = 0 \<and> Marker SudoFailed \<notin> set fs \<and> Marker LockHeld \<notin> set fs"
    by blast
  have "Marker m \<in> set out \<longleftrightarrow> Marker m \<in> set fs" for m
    by (simp add: fs(1))
  with run t show ?thesis
    by metis
qed

lemma sample_served:
  "serve (lit ''h'') 80 24 (encode_packet (Exec (Request (lit ''apt'') None True 80 24))) sample_env =
     Some [HelloP (hello_new (lit ''0.43.0'')), Exec (Marker LockHeld), Exec (Exit LOCK_HELD_CODE False)]"
proof -
  have acq: "acquire 9 sample_world = (Err Held, sample_world)"
    using read_pid_sample by (simp add: acquire_def create_dir_def breakable_def alive_def sample_world_def)
  have "read_request (encode_packet (Exec (Request (lit ''apt'') None True 80 24)) @ []) =
      Some (Request (lit ''apt'') None True 80 24)"
    using request_reads_back [of "lit ''apt''" None True 80 24 "[]"]
    by (simp add: str_fits_def valid_utf8_ascii lit_def MAX_PAYLOAD_def Let_def put_str_def)
  then show ?thesis
    using acq by (simp add: serve_def run_def execute_def sample_env_def send_def Let_def)
qed

theorem upgrade_end_to_end_witness:
  "\<exists>rq code out w (msgs :: (unit, unit) msg list) (t :: told). run rq sample_env = Some (code, out, w)
    \<and> rq_command rq = lit ''apt''
    \<and> spawn_upgrade sample_outside (remote_saying (concat (map encode_packet
          [HelloP (hello_new (lit ''0.43.0'')), Exec (Marker LockHeld), Exec (Exit LOCK_HELD_CODE False)])))
        sample_server None (80, 24) = Some (msgs @ [AuxDone 0 1 (Some (td_note t)) (td_success t)])"
proof -
  let ?ps = "[HelloP (hello_new (lit ''0.43.0'')), Exec (Marker LockHeld), Exec (Exit LOCK_HELD_CODE False)]"
  let ?rm = "remote_saying (concat (map encode_packet ?ps))"
  have q: "upgrade_request (rm_mock ?rm) (lit ''apt'') None (80, 24) = Request (lit ''apt'') None True 80 24"
    by (simp add: upgrade_request_def)
  have f: "payload_fits (Exec (Request (lit ''apt'') None True 80 24))" "list_all payload_fits ?ps"
    by (simp_all add: str_fits_def valid_utf8_ascii lit_def MAX_PAYLOAD_def Let_def put_str_def hello_new_def)
  show ?thesis
    using upgrade_end_to_end [OF sample_simps(11) q [symmetric] f(1) sample_served f(2), of Closed "[]"
        sample_outside, where ?'o = unit and ?'v = unit]
    by (simp del: list.map concat.simps) blast
qed

section \<open>Every run settles its panel\<close>

text \<open>The stream falls silent in the middle of a packet's body, where the read has no deadline.\<close>

function cut_in_body :: "bytes \<Rightarrow> bool" where
  "cut_in_body bs =
     (if length bs < HEADER_LEN \<or> take 4 bs \<noteq> MAGIC then False
      else if length bs < HEADER_LEN + packet_len bs then True
      else cut_in_body (drop (HEADER_LEN + packet_len bs) bs))"
  by pat_completeness auto
termination
  by (relation "measure length") (auto simp: HEADER_LEN_def)

declare cut_in_body.simps [simp del]

fun returns :: "started \<Rightarrow> bool" where
  "returns (NotStarted t) \<longleftrightarrow> True"
| "returns (StartedWith bs e errs) \<longleftrightarrow> e = Closed \<or> \<not> cut_in_body bs"

lemma read_returns:
  "e = Closed \<or> \<not> cut_in_body bs \<Longrightarrow>
     \<exists>r' (msgs :: ('o, 'v) msg list). read_frames ro e bs p r = Some (r', msgs)"
proof (induction "length bs" arbitrary: bs p r rule: less_induct)
  case less
  let ?n = "HEADER_LEN + packet_len bs"
  let ?x = "apply_payload ro (decode_packet (take ?n bs)) p r :: bool \<times> painter \<times> report \<times> ('o, 'v) msg list"
  obtain ended p1 r1 m1 where a: "?x = (ended, p1, r1, m1)"
    by (metis prod_cases4)
  show ?case
  proof (cases "length bs < HEADER_LEN \<or> take 4 bs \<noteq> MAGIC \<or> length bs < ?n \<or> ended")
    case True
    have "cut_in_body bs" if "\<not> length bs < HEADER_LEN" "take 4 bs = MAGIC" "length bs < ?n"
      using that by (subst cut_in_body.simps) simp
    then show ?thesis
      using True less.prems a
      by (subst read_frames.simps) (cases e; auto simp: Let_def case_prod_beta)
  next
    case False
    then have "e = Closed \<or> \<not> cut_in_body (drop ?n bs)"
      using less.prems by (subst (asm) cut_in_body.simps) simp
    moreover have "8 \<le> length bs"
      using False by (simp add: HEADER_LEN_def)
    then have "length (drop ?n bs) < length bs"
      by (simp add: HEADER_LEN_def)
    ultimately obtain r' and m2 :: "('o, 'v) msg list" where "read_frames ro e (drop ?n bs) p1 r1 = Some (r', m2)"
      using less.hyps by blast
    then show ?thesis
      using False a by (subst read_frames.simps) (simp add: Let_def)
  qed
qed

lemma attempt_returns:
  "returns st \<Longrightarrow> \<exists>r (msgs :: ('o, 'v) msg list). attempt_once ro st = Some (r, msgs)"
proof (cases st)
  case (StartedWith bs e errs)
  moreover assume "returns st"
  ultimately show ?thesis
    using read_returns [of e bs ro painter_new report_default, where ?'o = 'o and ?'v = 'v]
    by (auto simp: attempt_once_def Let_def)
qed (simp add: attempt_once_def)

lemma run_returns:
  assumes "\<forall>n req. returns (rm_start rm n req)"
  shows "\<exists>t (msgs :: ('o, 'v) msg list). run_upgrade_task ro rm server pass dm = Some (t, msgs)"
proof -
  have ends: "\<exists>fin (msgs :: ('o, 'v) msg list). attempts ro rm server req = Some (fin, msgs)" for req
  proof -
    obtain r0 and m0 :: "('o, 'v) msg list" where one: "attempt_once ro (rm_start rm 0 req) = Some (r0, m0)"
      using attempt_returns assms by metis
    obtain r1 and m1 :: "('o, 'v) msg list" where two: "attempt_once ro (rm_start rm 1 req) = Some (r1, m1)"
      using attempt_returns assms by metis
    show ?thesis
      using one two
      by (cases "rp_need_agent r0") (auto simp: attempts_def case_prod_beta split: sum.split)
  qed
  show ?thesis
  proof (cases "sv_upgrade_cmd server")
    case None
    then show ?thesis by (simp add: run_upgrade_task_def)
  next
    case (Some cmd)
    obtain fin and m :: "('o, 'v) msg list" where
      "attempts ro rm server (upgrade_request (rm_mock rm) cmd pass dm) = Some (fin, m)"
      using ends by blast
    with Some show ?thesis
      by (cases fin) (simp_all add: run_upgrade_task_def Let_def)
  qed
qed

text \<open>What the end of a run does to the panel it belongs to.\<close>

lemma run_message_no_end: "run_message j h m \<Longrightarrow> \<not> ends_run i g m"
  by (cases m) (simp_all add: run_message_def)

lemma own_not_end: "own ro msgs \<Longrightarrow> \<forall>m \<in> set msgs. \<not> ends_run i g m"
  by (auto simp: list_all_iff dest: run_message_no_end)

lemma done_settles:
  assumes "i < length (a_panels a)" "pn_upgrade_state (a_panels a ! i) = UStarted"
    "pn_upgrade_gen (a_panels a ! i) = g"
  shows "pn_upgrade_state (a_panels (after (app_apply ui now (AuxDone i g (Some t) ok) a)) ! i) = UDone"
    "\<exists>h. a_host_updates (after (app_apply ui now (AuxDone i g (Some t) ok) a))
        (account (pn_server (a_panels a ! i))) = Some h \<and> hu_finished_at h = Some now \<and> hu_success h = ok"
proof -
  have f: "map log_view (a_panels (fst (finish_upgrade ui now i ok a))) =
      map log_view ((a_panels a)[i := (a_panels a ! i)\<lparr>pn_upgrade_state := UDone\<rparr>])"
    by (simp only: finish_upgrade_def Let_def case_prod_beta fst_conv persist_log_views) simp
  have len: "length (a_panels (fst (finish_upgrade ui now i ok a))) = length (a_panels a)"
    using map_eq_imp_length_eq [OF f] by simp
  have "log_view (a_panels (fst (finish_upgrade ui now i ok a)) ! i) =
      log_view ((a_panels a)[i := (a_panels a ! i)\<lparr>pn_upgrade_state := UDone\<rparr>] ! i)"
    using arg_cong [OF f, of "\<lambda>xs. xs ! i"] assms(1) len by simp
  then have "pn_upgrade_state (a_panels (fst (finish_upgrade ui now i ok a)) ! i) = UDone"
    using assms(1) by (simp add: log_view_def)
  then show "pn_upgrade_state (a_panels (after (app_apply ui now (AuxDone i g (Some t) ok) a)) ! i) = UDone"
    using assms len by (simp add: on_aux_done_def nth_opt_def belongs_def Let_def case_prod_beta)
  show "\<exists>h. a_host_updates (after (app_apply ui now (AuxDone i g (Some t) ok) a))
        (account (pn_server (a_panels a ! i))) = Some h \<and> hu_finished_at h = Some now \<and> hu_success h = ok"
    using assms
    by (simp add: on_aux_done_def nth_opt_def belongs_def finish_upgrade_def Let_def case_prod_beta)
qed



end
