(* ===== verification/Ssh_Text.thy ===== *)
theory Ssh_Text
  imports Upgrade_Read Exec_Script
begin

text \<open>
  What the client says to a host over ssh and how it reads the answers
  (crates/multitop/src/ssh_opts.rs, ssh/command.rs and ssh/spawn.rs): the options, the bootstrap
  scripts, the upload of an agent, and ssh's own chatter.

  The agents built into the binary are written by the build (agents.rs in its output directory):
  they are the record \<open>agents\<close>, an argument. The reading of ssh's own chatter and of the report of
  a missing agent is in theory \<open>Upgrade_Read\<close>.
\<close>

section \<open>The agents built in\<close>

record agents =
  ag_hash_x86 :: rstring
  ag_hash_arm :: rstring
  ag_version_x86 :: rstring
  ag_version_arm :: rstring
  ag_binary_x86 :: "bytes option"
  ag_binary_arm :: "bytes option"

definition arch_binary :: "agents \<Rightarrow> arch \<Rightarrow> bytes option" where
  "arch_binary ag a = (case a of X86_64 \<Rightarrow> ag_binary_x86 ag | Aarch64 \<Rightarrow> ag_binary_arm ag)"

definition arch_hash :: "agents \<Rightarrow> arch \<Rightarrow> rstring" where
  "arch_hash ag a = (case a of X86_64 \<Rightarrow> ag_hash_x86 ag | Aarch64 \<Rightarrow> ag_hash_arm ag)"

definition arch_label :: "arch \<Rightarrow> rstring" where
  "arch_label a = (case a of X86_64 \<Rightarrow> lit ''x86_64'' | Aarch64 \<Rightarrow> lit ''aarch64'')"

datatype ssh_mode = SshMonitor | SshDocker | SshFetch

definition ssh_mode_word :: "ssh_mode \<Rightarrow> rstring" where
  "ssh_mode_word m =
     (case m of SshMonitor \<Rightarrow> lit ''monitor'' | SshDocker \<Rightarrow> lit ''docker'' | SshFetch \<Rightarrow> lit ''fetch'')"

section \<open>Options\<close>

definition SSH_OPTS :: "rstring list" where
  "SSH_OPTS =
     [lit ''-o'', lit ''BatchMode=yes'', lit ''-o'', lit ''ConnectTimeout=10'', lit ''-o'',
      lit ''ServerAliveInterval=15'', lit ''-o'', lit ''ServerAliveCountMax=3'', lit ''-o'',
      lit ''SendEnv=-*'', lit ''-T'']"

definition CONTROL_DIR :: rstring where "CONTROL_DIR = lit ''.ssh''"
definition CONTROL_PREFIX :: rstring where "CONTROL_PREFIX = lit ''multitop-''"
definition CONTROL_PATH_MAX :: nat where "CONTROL_PATH_MAX = 104"
definition CONTROL_HASH_LEN :: nat where "CONTROL_HASH_LEN = 40"

text \<open>\<open>Path::join\<close> of a relative path, and \<open>str::matches(..).count()\<close>.\<close>

definition path_join :: "rstring \<Rightarrow> rstring \<Rightarrow> rstring" where
  "path_join p q = (if p = [] \<or> last p = 0x2F then p @ q else p @ [0x2F] @ q)"

function match_count :: "bytes \<Rightarrow> bytes \<Rightarrow> nat" where
  "match_count p [] = 0"
| "match_count p (x # xs) =
     (if p \<noteq> [] \<and> starts_with (x # xs) p then Suc (match_count p (drop (length p) (x # xs)))
      else match_count p xs)"
  by pat_completeness auto
termination
  by (relation "measure (\<lambda>(p, xs). length xs)") auto

definition expanded_len :: "rstring \<Rightarrow> nat" where
  "expanded_len path =
     (let n = match_count (lit ''%C'') path in length path - 2 * n + CONTROL_HASH_LEN * n)"

definition control_socket_path :: "rstring \<Rightarrow> rstring option" where
  "control_socket_path home =
     (let path = path_join (path_join home CONTROL_DIR) (CONTROL_PREFIX @ lit ''%C'')
      in if CONTROL_PATH_MAX \<le> expanded_len path then None else Some path)"

text \<open>\<open>multiplex_opts\<close>: \<open>dir_ok\<close> is whether the directory is there or could be made.\<close>

definition multiplex_opts :: "bool \<Rightarrow> rstring \<Rightarrow> rstring list option" where
  "multiplex_opts dir_ok home =
     (if \<not> dir_ok then None
      else map_option (\<lambda>path. [lit ''-o'', lit ''ControlMaster=auto'', lit ''-o'', lit ''ControlPath='' @ path,
                               lit ''-o'', lit ''ControlPersist=30s'']) (control_socket_path home))"

text \<open>The arguments of every ssh the client starts, before the remote command.\<close>

definition ssh_args :: "rstring list \<Rightarrow> server \<Rightarrow> rstring list" where
  "ssh_args multiplex s = SSH_OPTS @ multiplex @ [lit ''-p'', show_nat (unat (sv_port s)), target s]"

definition is_local :: "server \<Rightarrow> bool" where
  "is_local s \<longleftrightarrow> sv_host s = lit ''localhost'' \<or> sv_host s = lit ''127.0.0.1'' \<or> sv_port s = 0"

section \<open>Scripts\<close>

definition NEED_AGENT_CODE :: int where "NEED_AGENT_CODE = 3"

definition agent_path :: "rstring \<Rightarrow> rstring" where
  "agent_path h = lit ''$HOME/.cache/multitop/agent-'' @ h"

definition script_lines :: "rstring list \<Rightarrow> rstring" where
  "script_lines ls = concat (map (\<lambda>l. l @ [0x0A]) ls)"

definition bootstrap_before :: "agents \<Rightarrow> ssh_mode \<Rightarrow> rstring" where
  \<open>bootstrap_before ag mode =
     script_lines
       [lit ''LC_ALL=C; LANG=C; export LC_ALL LANG'',
        lit ''M=$(uname -m)'',
        lit ''case "$M" in'',
        lit ''x86_64|amd64) A="'' @ agent_path (ag_hash_x86 ag) @ lit ''" ;;'',
        lit ''aarch64|arm64) A="'' @ agent_path (ag_hash_arm ag) @ lit ''" ;;'',
        lit ''*) A="" ;;'',
        lit ''esac'',
        lit ''if [ -n "$A" ] && [ -x "$A" ]; then'']
     @ lit ''exec "$A" '' @ ssh_mode_word mode @ lit '' ''\<close>

definition bootstrap_after :: "sort_by \<Rightarrow> rstring" where
  \<open>bootstrap_after srt =
     lit '' 80 24 '' @ sort_word srt @ [0x0A]
     @ script_lines [lit ''fi'', lit ''echo "'' @ NEED_AGENT @ lit '' $M"'']\<close>

definition bootstrap_script :: "agents \<Rightarrow> ssh_mode \<Rightarrow> rstring \<Rightarrow> sort_by \<Rightarrow> rstring" where
  "bootstrap_script ag mode ip srt = bootstrap_before ag mode @ sh_quote ip @ bootstrap_after srt"

definition upload_command :: "rstring \<Rightarrow> rstring \<Rightarrow> nat \<Rightarrow> rstring" where
  \<open>upload_command h token wanted =
     (let dir = lit ''~/.cache/multitop''; final_path = dir @ lit ''/agent-'' @ h;
          staging = final_path @ lit ''.'' @ token
      in lit ''mkdir -p '' @ dir @ lit '' && cat > '' @ staging
         @ lit '' && [ "$(wc -c < '' @ staging @ lit '' | tr -d '' @ [0x27] @ lit ''[:space:]'' @ [0x27]
         @ lit '')" = "'' @ show_nat wanted @ lit ''" ] && chmod 755 '' @ staging @ lit '' && mv -f '' @ staging
         @ lit '' '' @ final_path @ lit '' || { rm -f '' @ staging
         @ lit ''; echo "agent upload was incomplete" >&2; exit 1; }'')\<close>

definition cleanup_old_agents_command :: "agents \<Rightarrow> rstring" where
  \<open>cleanup_old_agents_command ag =
     (let keep = filter (\<lambda>h. h \<noteq> [] \<and> h \<noteq> lit ''missing'') [ag_hash_x86 ag, ag_hash_arm ag]
      in if keep = [] then lit '':''
         else lit ''cd ~/.cache/multitop 2>/dev/null && for f in agent-*; do'' @ [0x0A]
              @ lit ''  case "$f" in'' @ [0x0A]
              @ concat (map (\<lambda>h. lit ''    agent-'' @ h @ lit '') continue ;;'' @ [0x0A]) keep)
              @ lit ''    agent-*) rm -f "$f" ;;'' @ [0x0A] @ lit ''  esac'' @ [0x0A] @ lit ''done'')\<close>

definition exec_bootstrap_script :: "agents \<Rightarrow> rstring" where
  \<open>exec_bootstrap_script ag =
     lit ''M=$(uname -m); case "$M" in x86_64|amd64) A='' @ agent_path (ag_hash_x86 ag)
     @ lit '' ;; aarch64|arm64) A='' @ agent_path (ag_hash_arm ag)
     @ lit '' ;; *) A="" ;; esac; if [ -n "$A" ] && [ -x "$A" ]; then exec "$A" exec; fi; echo "''
     @ NEED_AGENT @ lit '' $M" >&2; exit '' @ show_int NEED_AGENT_CODE\<close>

definition exec_bootstrap_arg :: "agents \<Rightarrow> rstring" where
  "exec_bootstrap_arg ag = lit ''sh -c '' @ sh_quote (exec_bootstrap_script ag)"

section \<open>Uploading an agent\<close>

definition upload_failure :: "text_env \<Rightarrow> rstring \<Rightarrow> rstring \<Rightarrow> rstring option \<Rightarrow> rstring" where
  "upload_failure tx host stderr wrote =
     (let said = filter (\<lambda>l. l \<noteq> [] \<and> \<not> is_mux_noise tx l) (map trim (str_lines stderr));
          detail = (if said \<noteq> [] then last said
                    else case wrote of Some w \<Rightarrow> w | None \<Rightarrow> lit ''unknown error'')
      in lit ''Could not install agent on '' @ host @ lit '': '' @ detail)"

text \<open>What became of the upload's ssh: not started, not waited for, or ended with its exit status,
  what it wrote to stderr, and whether its input could be written.\<close>

datatype upload_run =
    UploadNotStarted rstring
  | UploadNotWaited rstring
  | UploadEnded bool bytes "rstring option"

definition upload_agent ::
  "text_env \<Rightarrow> agents \<Rightarrow> server \<Rightarrow> arch \<Rightarrow> (bytes \<Rightarrow> upload_run) \<Rightarrow> (unit, rstring) result" where
  "upload_agent tx ag s a ssh =
     (case arch_binary ag a of
        None \<Rightarrow> Err (lit ''No '' @ arch_label a
                       @ lit '' agent was built into this binary. Rebuild with ./build.sh to include it.'')
      | Some binary \<Rightarrow>
          (case ssh binary of
             UploadNotStarted e \<Rightarrow> Err (lit ''ssh: '' @ e)
           | UploadNotWaited e \<Rightarrow> Err (lit ''upload: '' @ e)
           | UploadEnded success stderr wrote \<Rightarrow>
               (let wrote = map_option (\<lambda>e. lit ''upload: '' @ e) wrote
                in if success then (case wrote of Some e \<Rightarrow> Err e | None \<Rightarrow> Ok ())
                   else Err (upload_failure tx (sv_host s) (utf8_lossy stderr) wrote))))"

text \<open>\<open>probe\<close>: whether \<open>uname -m\<close> ran and exited well, and what it printed.\<close>

definition probe_remote_arch :: "(bool \<times> bytes) option \<Rightarrow> arch option" where
  "probe_remote_arch probe =
     (case probe of
        Some (True, out) \<Rightarrow> from_uname (trim (utf8_lossy out))
      | _ \<Rightarrow> None)"

section \<open>What a shell and the reader make of it\<close>

lemma after_separator: "\<exists>rest. bootstrap_after srt = 0x20 # rest"
  by (simp add: bootstrap_after_def lit_def)

text \<open>A host name cannot leave its place in the bootstrap script: whatever bytes it has, the shell
  that reads the script takes it for one word, and that word is the name; and the script handed to
  \<open>sh -c\<close> for an upgrade is read back as it was written.\<close>

theorem host_cannot_escape:
  "\<exists>before after. bootstrap_script ag mode host srt = before @ sh_quote host @ after
     \<and> sh_word False (sh_quote host @ after) = Some (host, after)
     \<and> sh_word False (drop (length (lit ''sh -c '')) (exec_bootstrap_arg ag)) = Some (exec_bootstrap_script ag, [])"
proof (intro exI conjI)
  show "bootstrap_script ag mode host srt = bootstrap_before ag mode @ sh_quote host @ bootstrap_after srt"
    by (simp add: bootstrap_script_def)
  obtain rest where "bootstrap_after srt = 0x20 # rest" using after_separator by blast
  then show "sh_word False (sh_quote host @ bootstrap_after srt) = Some (host, bootstrap_after srt)"
    by (intro sh_quote_reads) (simp add: sh_meta_def)
  show "sh_word False (drop (length (lit ''sh -c '')) (exec_bootstrap_arg ag)) = Some (exec_bootstrap_script ag, [])"
    using sh_quote_reads [of "[]" "exec_bootstrap_script ag"] by (simp add: exec_bootstrap_arg_def)
qed

text \<open>A socket path that is used is one ssh accepts: expanded as ssh expands it, with a forty character
  hash for each \<open>%C\<close>, it is shorter than the limit.\<close>

theorem control_path_fits:
  assumes "multiplex_opts dir_ok home = Some opts"
  shows "\<exists>path. lit ''ControlPath='' @ path \<in> set opts \<and> expanded_len path < 104"
  using assms
  by (auto simp: multiplex_opts_def control_socket_path_def CONTROL_PATH_MAX_def Let_def split: if_splits)

theorem control_path_fits_witness:
  "\<exists>opts. multiplex_opts True (lit ''/home/ops'') = Some opts
     \<and> (\<exists>path. lit ''ControlPath='' @ path \<in> set opts \<and> expanded_len path < 104)"
proof -
  obtain opts where o: "multiplex_opts True (lit ''/home/ops'') = Some opts"
    by (auto simp: multiplex_opts_def control_socket_path_def Let_def path_join_def expanded_len_def
        starts_with_def CONTROL_PATH_MAX_def CONTROL_HASH_LEN_def CONTROL_DIR_def CONTROL_PREFIX_def lit_def)
  show ?thesis using o control_path_fits [OF o] by blast
qed

end
