(* ===== verification/Line_Reader.thy ===== *)
theory Line_Reader
  imports Text_Lines
begin

text \<open>
  Reading lines through a fixed buffer (\<open>for_each_line_in\<close> of crates/agent/src/proc_read.rs) and
  what the client says on the agent's standard input (crates/agent/src/stdin_watch.rs): the size of
  the panel it draws into.

  An input is what its reads give, in order: \<open>Some\<close> of a block of bytes, handed out in pieces no
  larger than the room there is, or an error; then the end.
\<close>

section \<open>The reader\<close>

text \<open>The complete lines of the buffer, what is left of it, and whether a line is still being
  passed over.\<close>

function scan_lines :: "bool \<Rightarrow> bytes \<Rightarrow> bytes list \<times> bytes \<times> bool" where
  "scan_lines skipping buf =
     (case position (\<lambda>b. b = 0x0A) buf of
        None \<Rightarrow> ([], buf, skipping)
      | Some pos \<Rightarrow>
          (let (ls, rest, sk) = scan_lines False (drop (pos + 1) buf)
           in (if skipping then ls else take pos buf # ls, rest, sk)))"
  by pat_completeness auto
termination
  by (relation "measure (\<lambda>(skipping, buf). length buf)") (auto dest!: position_Some)

declare scan_lines.simps [simp del]

type_synonym input = "bytes option list"

definition input_size :: "input \<Rightarrow> nat" where
  "input_size rs = sum_list (map (\<lambda>r. case r of None \<Rightarrow> 1 | Some b \<Rightarrow> Suc (length b)) rs)"

function line_loop :: "nat \<Rightarrow> bytes \<Rightarrow> bool \<Rightarrow> bool \<Rightarrow> input \<Rightarrow> bytes list \<times> bool" where
  "line_loop cap filled skipping any [] =
     (if filled \<noteq> [] \<and> \<not> skipping then [filled] else [], any)"
| "line_loop cap filled skipping any (None # rs) = ([], False)"
| "line_loop cap filled skipping any (Some block # rs) =
     (let n = min (cap - length filled) (length block)
      in if n = 0 then (if filled \<noteq> [] \<and> \<not> skipping then [filled] else [], any)
         else let buf = filled @ take n block;
                  rs' = (if n < length block then Some (drop n block) # rs else rs);
                  (ls, rest, sk) = scan_lines skipping buf;
                  (sk, rest) = (if length rest = length buf \<and> length buf = cap then (True, []) else (sk, rest));
                  (more, any) = line_loop cap rest sk True rs'
              in (ls @ more, any))"
  by pat_completeness auto
termination
  by (relation "measure (\<lambda>(cap, filled, skipping, any, rs). input_size rs)") (auto simp: input_size_def)

declare line_loop.simps [simp del]

text \<open>A line that is not UTF-8 is not handed on.\<close>

definition for_each_line_in :: "nat \<Rightarrow> input \<Rightarrow> rstring list \<times> bool" where
  "for_each_line_in cap rs = (let (ls, any) = line_loop cap [] False False rs in (filter valid_utf8 ls, any))"

section \<open>What the client says\<close>

definition STDIN_WATCH_BUF :: nat where "STDIN_WATCH_BUF = 64"

definition panel_size_set :: "u16 \<Rightarrow> u16 \<Rightarrow> u32" where
  "panel_size_set cols lines = or (push_bit 16 (ucast cols)) (ucast lines)"

definition panel_size_get :: "u32 \<Rightarrow> (nat \<times> nat) option" where
  "panel_size_get v =
     (if v = 0 then None else Some (unat (ucast (drop_bit 16 v) :: u16), unat (ucast (and v 0xFFFF) :: u16)))"

definition size_line :: "u16 \<Rightarrow> u16 \<Rightarrow> rstring" where
  "size_line cols lines = lit ''size '' @ show_nat (unat cols) @ lit '' '' @ show_nat (unat lines) @ [0x0A]"

text \<open>\<open>str::split_ascii_whitespace\<close>\<close>

definition ascii_space :: "u8 \<Rightarrow> bool" where
  "ascii_space b \<longleftrightarrow> b \<in> {0x20, 0x09, 0x0A, 0x0C, 0x0D}"

fun ascii_words :: "rstring \<Rightarrow> rstring \<Rightarrow> rstring list" where
  "ascii_words acc [] = (if acc = [] then [] else [acc])"
| "ascii_words acc (b # s) =
     (if ascii_space b then (if acc = [] then [] else [acc]) @ ascii_words [] s
      else ascii_words (acc @ [b]) s)"

definition parse_size_line :: "bytes \<Rightarrow> (u16 \<times> u16) option" where
  "parse_size_line line =
     (if \<not> valid_utf8 line then None
      else case ascii_words [] line of
             w # c # l # more \<Rightarrow>
               (if w \<noteq> lit ''size'' then None
                else case (parse_unsigned 65535 c, parse_unsigned 65535 l) of
                       (Some cols, Some lines) \<Rightarrow>
                         if more = [] \<and> 0 < cols \<and> 0 < lines then Some (of_nat cols, of_nat lines) else None
                     | _ \<Rightarrow> None)
           | _ \<Rightarrow> None)"

text \<open>What the shared size is after reading an input to its end.\<close>

definition read_commands :: "input \<Rightarrow> u32 \<Rightarrow> u32" where
  "read_commands rs v =
     foldl (\<lambda>v line. case parse_size_line line of Some (cols, lines) \<Rightarrow> panel_size_set cols lines | None \<Rightarrow> v)
       v (fst (for_each_line_in STDIN_WATCH_BUF rs))"

end
