(* ===== verification/Agent_Stream.thy ===== *)
theory Agent_Stream
  imports Ssh_Text Upgrade_Read Line_Reader
begin

text \<open>
  The stream from a host's agent (crates/multitop/src/stream/prod.rs): what the first bytes of a
  session were, the bootstrap that installs an agent where there is none, and the packets.

  What arrives is a list, in order: bytes on standard output, a line on standard error, the end or
  a failure of standard output. Between two arrivals the reader runs until it has to wait. What
  has arrived and has not been read is in the stream. \<open>tokio::select!\<close> polls its branches in a
  random order: that choice is the argument \<open>coin\<close>. Standard error closing is no event, since the
  branch that reads it only matches a line.
\<close>

datatype error_kind = NotFound | UnexpectedEof | InvalidData | OtherKind

record io_error =
  io_kind :: error_kind
  io_text :: rstring

definition early_eof :: io_error where
  "early_eof = \<lparr>io_kind = UnexpectedEof, io_text = lit ''early eof''\<rparr>"

datatype arrival = OutBytes bytes | ErrLine rstring | OutEnd | OutFail io_error

record stream =
  st_buf :: bytes
  st_errs :: "rstring list"
  st_next :: "arrival list"
  st_header :: "bytes option"
  st_preamble :: "rstring option"
  st_told :: "dims option"

definition fresh :: "arrival list \<Rightarrow> stream" where
  "fresh arrivals =
     \<lparr>st_buf = [], st_errs = [], st_next = arrivals, st_header = None, st_preamble = None, st_told = None\<rparr>"

datatype 'a read = Got 'a | AtEnd | Failed io_error | Waiting

section \<open>Reading standard output alone\<close>

function read_exact :: "nat \<Rightarrow> stream \<Rightarrow> bytes read \<times> stream" where
  "read_exact n st =
     (if n \<le> length (st_buf st) then (Got (take n (st_buf st)), st\<lparr>st_buf := drop n (st_buf st)\<rparr>)
      else case st_next st of
             [] \<Rightarrow> (Waiting, st)
           | OutBytes bs # ns \<Rightarrow> read_exact n (st\<lparr>st_buf := st_buf st @ bs, st_next := ns\<rparr>)
           | ErrLine l # ns \<Rightarrow> read_exact n (st\<lparr>st_errs := st_errs st @ [l], st_next := ns\<rparr>)
           | OutEnd # ns \<Rightarrow> (AtEnd, st\<lparr>st_buf := []\<rparr>)
           | OutFail e # ns \<Rightarrow> (Failed e, st\<lparr>st_buf := []\<rparr>))"
  by pat_completeness auto
termination
  by (relation "measure (\<lambda>(n, st). length (st_next st))") auto

declare read_exact.simps [simp del]

text \<open>\<open>read_line\<close>: up to and with the line feed, or to the end; nothing if that is not UTF-8 or the
  read fails. \<open>None\<close> while it waits.\<close>

function read_line :: "stream \<Rightarrow> rstring option \<times> stream" where
  "read_line st =
     (case position (\<lambda>b. b = 0x0A) (st_buf st) of
        Some p \<Rightarrow>
          (let l = take (p + 1) (st_buf st)
           in (Some (if valid_utf8 l then l else []), st\<lparr>st_buf := drop (p + 1) (st_buf st)\<rparr>))
      | None \<Rightarrow>
          (case st_next st of
             [] \<Rightarrow> (None, st)
           | OutBytes bs # ns \<Rightarrow> read_line (st\<lparr>st_buf := st_buf st @ bs, st_next := ns\<rparr>)
           | ErrLine l # ns \<Rightarrow> read_line (st\<lparr>st_errs := st_errs st @ [l], st_next := ns\<rparr>)
           | OutEnd # ns \<Rightarrow>
               (Some (if valid_utf8 (st_buf st) then st_buf st else []), st\<lparr>st_buf := []\<rparr>)
           | OutFail e # ns \<Rightarrow> (Some [], st\<lparr>st_buf := []\<rparr>)))"
  by pat_completeness auto
termination
  by (relation "measure (\<lambda>st. length (st_next st))") auto

declare read_line.simps [simp del]

section \<open>The handshake\<close>

datatype handshake = HsFramed | HsNeedAgent rstring | HsText rstring | HsClosed

definition read_handshake :: "stream \<Rightarrow> handshake option \<times> stream" where
  "read_handshake st =
     (let (r, st) = read_exact 4 st
      in case r of
           Waiting \<Rightarrow> (None, st)
         | AtEnd \<Rightarrow> (Some HsClosed, st)
         | Failed e \<Rightarrow> (Some HsClosed, st)
         | Got first4 \<Rightarrow>
             if first4 = MAGIC then (Some HsFramed, st)
             else (let (l, st) = read_line st
                   in case l of
                        None \<Rightarrow> (None, st)
                      | Some rest \<Rightarrow>
                          (let line = utf8_lossy first4 @ rest
                           in (Some (case parse_need_agent line of
                                       None \<Rightarrow> HsText (trim_end line) | Some a \<Rightarrow> HsNeedAgent a), st))))"

definition spawn_failure :: "server \<Rightarrow> io_error \<Rightarrow> rstring" where
  "spawn_failure s e =
     (if io_kind e = NotFound then
        (if is_local s then lit ''the multitop-agent binary was not found next to multitop or on PATH''
         else lit ''ssh command not found'')
      else if is_local s then lit ''could not start multitop-agent: '' @ io_text e
      else lit ''ssh: '' @ io_text e)"

datatype bootstrap = BsReady "bytes option" "rstring option" | BsInstall arch | BsFailed rstring

definition bootstrap :: "handshake \<Rightarrow> rstring \<Rightarrow> nat \<Rightarrow> rstring option \<Rightarrow> bootstrap" where
  "bootstrap hs host pass stderr_detail =
     (case hs of
        HsClosed \<Rightarrow>
          BsFailed (case stderr_detail of
                      Some d \<Rightarrow> d | None \<Rightarrow> lit ''Connection to '' @ host @ lit '' closed'')
      | HsFramed \<Rightarrow> BsReady (Some MAGIC) None
      | HsText line \<Rightarrow> BsReady None (Some line)
      | HsNeedAgent a \<Rightarrow>
          if 0 < pass then BsFailed (lit ''Agent did not start on '' @ host @ lit '' after install'')
          else (case from_uname a of
                  None \<Rightarrow> BsFailed (lit ''Unsupported architecture '' @ [0x27] @ a @ [0x27] @ lit '' on '' @ host
                                  @ lit '' - multitop ships x86_64 and aarch64'')
                | Some ar \<Rightarrow> BsInstall ar))"

text \<open>The lines still to come on standard error.\<close>

definition err_lines :: "arrival list \<Rightarrow> rstring list" where
  "err_lines ns = List.map_filter (\<lambda>n. case n of ErrLine l \<Rightarrow> Some l | _ \<Rightarrow> None) ns"

definition last_stderr_line :: "text_env \<Rightarrow> stream \<Rightarrow> rstring option" where
  "last_stderr_line tx st =
     (let said = filter (\<lambda>l. trim l \<noteq> [] \<and> \<not> is_mux_noise tx (trim l)) (st_errs st @ err_lines (st_next st))
      in if said = [] then None else Some (last said))"

text \<open>What a try at a session gives: no process, or what arrives from it.\<close>

datatype opened = NoProcess io_error | Process "arrival list"

text \<open>One pass of \<open>connect\<close>'s loop: the status lines it shows, and the stream, an error, or another
  pass. \<open>None\<close> while it waits.\<close>

datatype connected = Connected stream | Refused rstring | Again

definition connect_once ::
  "text_env \<Rightarrow> palette \<Rightarrow> agents \<Rightarrow> server \<Rightarrow> nat \<Rightarrow> opened \<Rightarrow> (bytes \<Rightarrow> upload_run)
   \<Rightarrow> (rstring list \<times> connected) option" where
  "connect_once tx pal ag s pass op upload =
     (case op of
        NoProcess e \<Rightarrow> Some ([], Refused (spawn_failure s e))
      | Process arrivals \<Rightarrow>
          (case read_handshake (fresh arrivals) of
             (None, _) \<Rightarrow> None
           | (Some hs, st) \<Rightarrow>
               (let detail = (if hs = HsClosed then last_stderr_line tx st else None)
                in case bootstrap hs (sv_host s) pass detail of
                     BsFailed m \<Rightarrow> Some ([], Refused m)
                   | BsReady h p \<Rightarrow> Some ([], Connected (st\<lparr>st_header := h, st_preamble := p, st_told := None\<rparr>))
                   | BsInstall a \<Rightarrow>
                       Some ([status_line pal (RIGHT_ARROW @ lit '' installing agent ('' @ arch_label a @ lit '')...'')],
                             case upload_agent tx ag s a upload of Ok _ \<Rightarrow> Again | Err m \<Rightarrow> Refused m))))"

text \<open>Both passes; \<open>Again\<close> out of the second is the code's \<open>unreachable!\<close>.\<close>

definition connect ::
  "text_env \<Rightarrow> palette \<Rightarrow> agents \<Rightarrow> server \<Rightarrow> (nat \<Rightarrow> opened) \<Rightarrow> (nat \<Rightarrow> bytes \<Rightarrow> upload_run)
   \<Rightarrow> (rstring list \<times> connected) option" where
  "connect tx pal ag s op upload =
     (case connect_once tx pal ag s 0 (op 0) (upload 0) of
        Some (says, Again) \<Rightarrow>
          map_option (\<lambda>(more, r). (says @ more, r)) (connect_once tx pal ag s 1 (op 1) (upload 1))
      | r \<Rightarrow> r)"

section \<open>Packets\<close>

definition MAX_STDERR_LINES :: nat where "MAX_STDERR_LINES = 8"

text \<open>\<open>note\<close>\<close>

definition note_reason :: "rstring \<Rightarrow> rstring list \<Rightarrow> rstring list" where
  "note_reason reason errbuf = (if MAX_STDERR_LINES \<le> length errbuf then drop 1 errbuf else errbuf) @ [reason]"

definition note_line :: "rstring \<Rightarrow> rstring list \<Rightarrow> rstring list" where
  "note_line line errbuf = (if trim line = [] then errbuf else note_reason line errbuf)"

definition describe_failure :: "io_error \<Rightarrow> rstring" where
  "describe_failure e =
     (if io_kind e = InvalidData then io_text e
      else lit ''reading from the agent failed: '' @ io_text e
           @ lit '' -- the host may still be reachable; the session is being restarted'')"

text \<open>\<open>drain_stderr\<close>; a line too late for its 250 ms is not in the list.\<close>

definition drain_stderr :: "stream \<Rightarrow> rstring list \<Rightarrow> rstring list" where
  "drain_stderr st errbuf = fold note_line (st_errs st @ err_lines (st_next st)) errbuf"

text \<open>\<open>{:?}\<close> of a string is the argument \<open>dbg\<close>.\<close>

definition framing_lost :: "(rstring \<Rightarrow> rstring) \<Rightarrow> bytes \<Rightarrow> rstring option \<Rightarrow> io_error" where
  "framing_lost dbg header preamble =
     \<lparr>io_kind = InvalidData,
      io_text =
        (case preamble of
           None \<Rightarrow> lit ''the agent'' @ [0x27] @ lit ''s framing was lost mid-stream (expected a packet header, got ''
             @ dbg (utf8_lossy header) @ lit '') -- the host is reachable; the session is being restarted''
         | Some t \<Rightarrow> lit ''the remote sent text where the agent'' @ [0x27]
             @ lit ''s framing should be, so the agent never started -- a login banner or a shell profile that prints on a non-interactive session will do this. It said: '' @ t)\<rparr>"

definition interpret_packet :: "bytes \<Rightarrow> u8 \<Rightarrow> nat \<Rightarrow> rstring list \<Rightarrow> payload option \<times> rstring list" where
  "interpret_packet full mode len errbuf =
     (case decode_packet full of
        Some p \<Rightarrow> (Some p, errbuf)
      | None \<Rightarrow> (None, note_reason
          (lit ''agent sent a packet this build cannot read (mode '' @ show_nat (unat mode) @ lit '', '' @ show_nat len
           @ lit '' bytes) -- the host is reachable; the agent is a different version'') errbuf))"

text \<open>The header is read in a \<open>select!\<close> beside standard error. \<open>got\<close> is what the read in progress holds:
  a line on standard error ends the \<open>select!\<close>, the read is dropped, and what it held is gone.\<close>

function select_header ::
  "(nat \<Rightarrow> bool) \<Rightarrow> nat \<Rightarrow> bytes \<Rightarrow> stream \<Rightarrow> rstring list \<Rightarrow> bytes read \<times> stream \<times> rstring list" where
  "select_header coin k got st errbuf =
     (if st_errs st \<noteq> [] \<and> coin k then
        select_header coin (k + 1) [] (st\<lparr>st_errs := tl (st_errs st)\<rparr>) (note_line (hd (st_errs st)) errbuf)
      else let avail = got @ st_buf st
           in if HEADER_LEN \<le> length avail then
                (Got (take HEADER_LEN avail), st\<lparr>st_buf := drop HEADER_LEN avail\<rparr>, errbuf)
              else if st_errs st \<noteq> [] then
                select_header coin (k + 1) [] (st\<lparr>st_buf := [], st_errs := tl (st_errs st)\<rparr>)
                  (note_line (hd (st_errs st)) errbuf)
              else case st_next st of
                     [] \<Rightarrow> (Waiting, st\<lparr>st_buf := []\<rparr>, errbuf)
                   | OutBytes bs # ns \<Rightarrow> select_header coin (k + 1) avail (st\<lparr>st_buf := bs, st_next := ns\<rparr>) errbuf
                   | ErrLine l # ns \<Rightarrow>
                       select_header coin (k + 1) [] (st\<lparr>st_buf := [], st_next := ns\<rparr>) (note_line l errbuf)
                   | OutEnd # ns \<Rightarrow> (AtEnd, st\<lparr>st_buf := []\<rparr>, drain_stderr st errbuf)
                   | OutFail e # ns \<Rightarrow> (Failed e, st\<lparr>st_buf := []\<rparr>, errbuf))"
  by pat_completeness auto
termination
  by (relation "measure (\<lambda>(coin, k, got, st, errbuf). length (st_errs st) + length (st_next st))") auto

declare select_header.simps [simp del]

definition read_header ::
  "(nat \<Rightarrow> bool) \<Rightarrow> stream \<Rightarrow> rstring list \<Rightarrow> bytes read \<times> stream \<times> rstring list" where
  "read_header coin st errbuf =
     (case st_header st of
        None \<Rightarrow> select_header coin 0 [] st errbuf
      | Some pending \<Rightarrow>
          (let (r, st) = read_exact (HEADER_LEN - 4) (st\<lparr>st_header := None\<rparr>)
           in case r of
                Got rest \<Rightarrow> (Got (pending @ rest), st, errbuf)
              | AtEnd \<Rightarrow> (AtEnd, st, drain_stderr st errbuf)
              | Failed e \<Rightarrow> (Failed e, st, errbuf)
              | Waiting \<Rightarrow> (Waiting, st, errbuf)))"

definition header_len :: "bytes \<Rightarrow> nat" where
  "header_len header = unat (of_le [header ! 6, header ! 7] :: u16)"

definition read_body ::
  "(rstring \<Rightarrow> rstring) \<Rightarrow> bytes \<Rightarrow> stream \<Rightarrow> rstring list \<Rightarrow> payload option read \<times> stream \<times> rstring list" where
  "read_body dbg header st errbuf =
     (if take 4 header \<noteq> MAGIC then
        (Failed (framing_lost dbg header (st_preamble st)), st\<lparr>st_preamble := None\<rparr>, errbuf)
      else let (r, st) = read_exact (header_len header) st
           in case r of
                Got bs \<Rightarrow>
                  (let (p, errbuf) = interpret_packet (header @ bs) (header ! 5) (header_len header) errbuf
                   in (Got p, st, errbuf))
              | AtEnd \<Rightarrow> (Failed early_eof, st, errbuf)
              | Failed e \<Rightarrow> (Failed e, st, errbuf)
              | Waiting \<Rightarrow> (Waiting, st, errbuf))"

text \<open>\<open>read_packet\<close>: \<open>Got None\<close> is the \<open>Ok(None)\<close> every reader takes for the end.\<close>

definition read_packet ::
  "(rstring \<Rightarrow> rstring) \<Rightarrow> (nat \<Rightarrow> bool) \<Rightarrow> stream \<Rightarrow> rstring list \<Rightarrow> payload option read \<times> stream \<times> rstring list" where
  "read_packet dbg coin st errbuf =
     (let (r, st, errbuf) = read_header coin st errbuf
      in case r of
           Got header \<Rightarrow> read_body dbg header st errbuf
         | AtEnd \<Rightarrow> (Got None, st, errbuf)
         | Failed e \<Rightarrow> (Failed e, st, errbuf)
         | Waiting \<Rightarrow> (Waiting, st, errbuf))"

definition next_packet ::
  "(rstring \<Rightarrow> rstring) \<Rightarrow> (nat \<Rightarrow> bool) \<Rightarrow> stream \<Rightarrow> rstring list \<Rightarrow> payload option read \<times> stream \<times> rstring list" where
  "next_packet dbg coin st errbuf =
     (let (r, st, errbuf) = read_packet dbg coin st errbuf
      in (r, st, case r of Failed e \<Rightarrow> note_reason (describe_failure e) errbuf | _ \<Rightarrow> errbuf))"

text \<open>\<open>tell_size\<close>: the line written, if any; \<open>ok\<close> is whether the write and the flush succeed.\<close>

definition tell_size :: "dims \<Rightarrow> bool \<Rightarrow> stream \<Rightarrow> bytes \<times> stream" where
  "tell_size dm ok st =
     (if st_told st = Some dm then ([], st)
      else (size_line (fst dm) (snd dm), if ok then st\<lparr>st_told := Some dm\<rparr> else st))"

end
