(* ===== verification/Monitor_Session.thy ===== *)
theory Monitor_Session
  imports Agent_Stream
begin

text \<open>
  A panel's monitor task (crates/multitop/src/run/spawn.rs, \<open>reconnect_wait\<close> of run/mod.rs and
  \<open>Hello::mismatch_reason\<close> of crates/agent/src/proto/mod.rs): it connects, checks that the agent is
  one this build can talk to, forwards its packets, and connects again.

  What the task meets in one session is the record \<open>session_env\<close>. The channel to the event loop
  is taken to be open and to have room.
\<close>

section \<open>The version handshake\<close>

definition mismatch_reason :: "(rstring \<Rightarrow> rstring) \<Rightarrow> hello \<Rightarrow> rstring \<Rightarrow> rstring" where
  "mismatch_reason dbg h local =
     (let ver = h_agent_version h; u = (\<lambda>n :: u8. show_nat (unat n)) in
      if \<not> hello_is_valid h then
        lit ''invalid Hello (agent_version='' @ dbg ver @ lit '' proto='' @ u (h_proto_version h)
        @ lit '' min='' @ u (h_min_proto_version h) @ lit '')''
      else if \<not> hello_is_compatible h then
        lit ''incompatible proto remote '' @ u (h_proto_version h) @ lit '' (min '' @ u (h_min_proto_version h)
        @ lit '') vs local '' @ u PROTO_VERSION @ lit '' (min '' @ u PROTO_MIN_VERSION @ lit '')''
      else if ver \<noteq> local then
        (if (case (parse_version ver, parse_version local) of
               (Some r, Some l) \<Rightarrow> version_less l r | _ \<Rightarrow> False)
         then lit ''remote '' @ ver @ lit '' newer than local '' @ local @ lit '' '' @ EM_DASH @ lit '' update local''
         else lit ''remote '' @ ver @ lit '' vs local '' @ local)
      else [])"

datatype verdict = Proceed | Skip | EndSession rstring bool

record shaken =
  sh_hello_seen :: bool
  sh_version_checked :: bool

record session_env =
  se_panel :: nat
  se_gen :: u64
  se_epoch :: u64
  se_server :: server
  se_palette :: palette
  se_agents :: agents
  se_version :: rstring
  se_text :: text_env
  se_debug :: "rstring \<Rightarrow> rstring"
  se_open :: "nat \<Rightarrow> opened"
  se_upload :: "nat \<Rightarrow> bytes \<Rightarrow> upload_run"
  se_coin :: "nat \<Rightarrow> nat \<Rightarrow> bool"
  se_dims :: "nat \<Rightarrow> dims"
  se_write_ok :: "nat \<Rightarrow> bool"
  se_probe :: "(bool \<times> bytes) option"
  se_replace :: "bytes \<Rightarrow> upload_run"

definition mismatch_note :: "rstring \<Rightarrow> rstring" where
  "mismatch_note reason = RIGHT_ARROW @ lit '' agent version mismatch: '' @ reason @ lit '', replacing...''"

definition handshake_verdict :: "session_env \<Rightarrow> payload \<Rightarrow> shaken \<Rightarrow> verdict \<times> shaken" where
  "handshake_verdict se pl sh =
     (let local = se_version se; dbg = se_debug se in
      case pl of
        HelloP h \<Rightarrow>
          if sh_hello_seen sh then
            (EndSession (error_line (se_palette se)
               (lit ''protocol violation: duplicate Hello from '' @ h_agent_version h
                @ lit '' (proto '' @ show_nat (unat (h_proto_version h)) @ lit '' min ''
                @ show_nat (unat (h_min_proto_version h)) @ lit '')'')) False, sh)
          else
            (let sh = sh\<lparr>sh_hello_seen := True\<rparr> in
             if \<not> hello_is_valid h then
               (EndSession (error_line (se_palette se)
                  (lit ''invalid Hello from '' @ sv_host (se_server se) @ lit '': '' @ mismatch_reason dbg h local)) True, sh)
             else if sh_version_checked sh then (Skip, sh)
             else (let sh = sh\<lparr>sh_version_checked := True\<rparr> in
                   if needs_replacement h local then (EndSession (mismatch_note (mismatch_reason dbg h local)) True, sh)
                   else (Skip, sh)))
      | Monitor snap \<Rightarrow>
          if sh_version_checked sh then (Proceed, sh)
          else (let sh = sh\<lparr>sh_version_checked := True\<rparr> in
                if s_agent_version snap \<noteq> [] \<and> s_agent_version snap \<noteq> local then
                  (EndSession (mismatch_note (lit ''remote '' @ s_agent_version snap @ lit '' vs local '' @ local)) True, sh)
                else (Proceed, sh))
      | _ \<Rightarrow> (Proceed, sh))"

section \<open>Replacing an agent\<close>

definition replace_agent :: "session_env \<Rightarrow> (rstring, rstring) result" where
  "replace_agent se =
     (let s = se_server se in
      if is_local s then
        Err (lit ''the local agent is a different version and cannot be replaced over SSH -- ''
             @ lit ''a stale multitop-agent is ahead of this build on PATH, or beside it; ''
             @ lit ''remove it or rebuild with ./build.sh'')
      else case probe_remote_arch (se_probe se) of
             None \<Rightarrow> Err (lit ''could not read the architecture of '' @ sv_host s @ lit '' to replace its agent -- ''
                          @ lit ''the version mismatch will repeat on every reconnect until it is replaced by hand'')
           | Some a \<Rightarrow>
               (case upload_agent (se_text se) (se_agents se) s a (se_replace se) of
                  Err e \<Rightarrow> Err e
                | Ok _ \<Rightarrow> Ok (CHECK_MARK @ lit '' agent replaced on '' @ sv_host s)))"

definition embedded_stale :: "session_env \<Rightarrow> bool" where
  "embedded_stale se =
     (let stale = (\<lambda>v. v \<noteq> lit ''missing'' \<and> v \<noteq> se_version se)
      in stale (ag_version_x86 (se_agents se)) \<or> stale (ag_version_arm (se_agents se)))"

definition replacement_line :: "session_env \<Rightarrow> rstring" where
  "replacement_line se =
     (if embedded_stale se then
        error_line (se_palette se)
          (lit ''embedded agent stale ('' @ ag_version_x86 (se_agents se) @ lit '' vs local '' @ se_version se @ lit '') ''
           @ EM_DASH @ lit '' rebuild with ./build.sh to update it; not re-uploading the same bytes'')
      else case replace_agent se of Ok n \<Rightarrow> n | Err r \<Rightarrow> error_line (se_palette se) r)"

section \<open>A session\<close>

record ('o, 'v) session =
  ss_msgs :: "('o, 'v) msg list"
  ss_shaken :: shaken
  ss_delivered :: bool
  ss_mismatched :: bool
  ss_errbuf :: "rstring list"
  ss_stdin :: bytes

definition session_new :: "('o, 'v) session" where
  "session_new =
     \<lparr>ss_msgs = [], ss_shaken = \<lparr>sh_hello_seen = False, sh_version_checked = False\<rparr>, ss_delivered = False,
      ss_mismatched = False, ss_errbuf = [], ss_stdin = []\<rparr>"

definition frame_msg :: "session_env \<Rightarrow> rstring \<Rightarrow> ('o, 'v) msg" where
  "frame_msg se line = Frame (se_panel se) (se_epoch se) [line]"

text \<open>The k-th payload: whether the loop goes on. The watch of the panel's size is read twice.\<close>

definition on_payload ::
  "session_env \<Rightarrow> nat \<Rightarrow> payload \<Rightarrow> stream \<Rightarrow> ('o, 'v) session \<Rightarrow> bool \<times> stream \<times> ('o, 'v) session" where
  "on_payload se k pl st s =
     (let (v, sh) = handshake_verdict se pl (ss_shaken s);
          (said, st) = tell_size (se_dims se (2 * k)) (se_write_ok se k) st;
          s = s\<lparr>ss_shaken := sh, ss_stdin := ss_stdin s @ said\<rparr>
      in case v of
           Skip \<Rightarrow> (True, st, s)
         | EndSession line mismatch \<Rightarrow>
             (False, st, s\<lparr>ss_msgs := ss_msgs s @ [frame_msg se line], ss_mismatched := mismatch\<rparr>)
         | Proceed \<Rightarrow>
             (True, st, s\<lparr>ss_msgs := ss_msgs s
                            @ [Packet (se_panel se) (se_gen se) (se_epoch se) pl (se_dims se (2 * k + 1))],
                          ss_delivered := True\<rparr>))"

text \<open>What a stream still has to give.\<close>

definition arrival_size :: "arrival \<Rightarrow> nat" where
  "arrival_size a = (case a of OutBytes bs \<Rightarrow> Suc (length bs) | _ \<Rightarrow> 1)"

definition stream_size :: "stream \<Rightarrow> nat" where
  "stream_size st =
     length (st_buf st) + length (st_errs st) + sum_list (map arrival_size (st_next st))
     + (case st_header st of Some _ \<Rightarrow> 4 | None \<Rightarrow> 0)"

lemma read_exact_size:
  "read_exact n st = (r, st') \<Longrightarrow> stream_size st' \<le> stream_size st \<and> st_header st' = st_header st
     \<and> (\<forall>bs. r = Got bs \<longrightarrow> length bs = n \<and> stream_size st' + n \<le> stream_size st)"
proof (induction n st rule: read_exact.induct)
  case (1 n st)
  show ?case
  proof (cases "n \<le> length (st_buf st)")
    case True
    then show ?thesis using 1(3) by (auto simp: read_exact.simps [of n st] stream_size_def)
  next
    case False
    show ?thesis
    proof (cases "st_next st")
      case Nil
      then show ?thesis using 1(3) False by (auto simp: read_exact.simps [of n st])
    next
      case (Cons a ns)
      show ?thesis
        using 1(1,2) [OF False Cons] 1(3) False Cons
        by (cases a) (auto simp: read_exact.simps [of n st] stream_size_def arrival_size_def)
    qed
  qed
qed

lemma select_header_size:
  "select_header coin k got st errbuf = (Got h, st', errbuf') \<Longrightarrow>
     stream_size st' + HEADER_LEN \<le> stream_size st + length got"
proof (induction coin k got st errbuf rule: select_header.induct)
  case (1 coin k got st errbuf)
  show ?case
  proof (cases "st_errs st \<noteq> [] \<and> coin k")
    case True
    then show ?thesis
      using 1(1) [OF True] 1(5) by (cases "st_errs st") (auto simp: select_header.simps [of coin k got st] stream_size_def)
  next
    case e: False
    show ?thesis
    proof (cases "HEADER_LEN \<le> length (got @ st_buf st)")
      case True
      then show ?thesis
        using 1(5) e by (auto simp: select_header.simps [of coin k got st] Let_def stream_size_def)
    next
      case h: False
      show ?thesis
      proof (cases "st_errs st")
        case (Cons l ls)
        then show ?thesis
          using 1(2) [OF e refl h] 1(5) e h
          by (auto simp: select_header.simps [of coin k got st] Let_def stream_size_def)
      next
        case n: Nil
        show ?thesis
        proof (cases "st_next st")
          case Nil
          then show ?thesis using 1(5) e h n by (auto simp: select_header.simps [of coin k got st] Let_def)
        next
          case (Cons a ns)
          show ?thesis
            using 1(3,4) [OF e refl h _ Cons] 1(5) e h n Cons
            by (cases a) (auto simp: select_header.simps [of coin k got st] Let_def stream_size_def arrival_size_def)
        qed
      qed
    qed
  qed
qed

lemma read_header_size:
  assumes "read_header coin st errbuf = (Got h, st', errbuf')"
  shows "stream_size st' < stream_size st"
proof (cases "st_header st")
  case None
  then have "select_header coin 0 [] st errbuf = (Got h, st', errbuf')"
    using assms by (simp add: read_header_def)
  from select_header_size [OF this] show ?thesis by (simp add: HEADER_LEN_def)
next
  case (Some pending)
  obtain r st1 where r: "read_exact (HEADER_LEN - 4) (st\<lparr>st_header := None\<rparr>) = (r, st1)"
    by (metis prod.exhaust)
  then have "st1 = st'"
    using assms Some by (cases r) (auto simp: read_header_def)
  moreover have "stream_size (st\<lparr>st_header := None\<rparr>) < stream_size st"
    using Some by (simp add: stream_size_def)
  ultimately show ?thesis
    using read_exact_size [OF r] by simp
qed

lemma read_body_size: "read_body dbg h st errbuf = (Got p, st', errbuf') \<Longrightarrow> stream_size st' \<le> stream_size st"
  using read_exact_size [of "header_len h" st]
  by (auto simp: read_body_def Let_def split: if_splits prod.splits read.splits)

lemma next_packet_size:
  assumes "next_packet dbg coin st errbuf = (Got p, st', errbuf')" "p \<noteq> None"
  shows "stream_size st' < stream_size st"
proof -
  obtain r st1 eb1 where h: "read_header coin st errbuf = (r, st1, eb1)"
    by (metis prod_cases3)
  obtain eb where r: "read_packet dbg coin st errbuf = (Got p, st', eb)"
    using assms(1) by (auto simp: next_packet_def split: prod.splits read.splits)
  show ?thesis
  proof (cases r)
    case (Got hd)
    then have "read_body dbg hd st1 eb1 = (Got p, st', eb)"
      using r h by (simp add: read_packet_def)
    then show ?thesis
      using read_body_size read_header_size h Got by fastforce
  qed (use r h assms(2) in \<open>auto simp: read_packet_def\<close>)
qed

text \<open>The loop over packets; \<open>None\<close> while it waits for more.\<close>

function packets_loop ::
  "session_env \<Rightarrow> nat \<Rightarrow> stream \<Rightarrow> ('o, 'v) session \<Rightarrow> ('o, 'v) session option" where
  "packets_loop se k st s =
     (let (r, st', errbuf) = next_packet (se_debug se) (se_coin se k) st (ss_errbuf s);
          s = s\<lparr>ss_errbuf := errbuf\<rparr>
      in case r of
           Waiting \<Rightarrow> None
         | Got (Some pl) \<Rightarrow>
             (let (go_on, st', s) = on_payload se k pl st' s
              in if go_on then packets_loop se (Suc k) st' s else Some s)
         | _ \<Rightarrow> Some s)"
  by pat_completeness auto

lemma tell_size_size [simp]: "stream_size (snd (tell_size dm ok st)) = stream_size st"
  by (simp add: tell_size_def stream_size_def)

lemma on_payload_size: "on_payload se k pl st s = (g, st', s') \<Longrightarrow> stream_size st' = stream_size st"
  using tell_size_size [of "se_dims se (2 * k)" "se_write_ok se k" st]
  by (auto simp: on_payload_def Let_def simp del: tell_size_size split: prod.splits verdict.splits)

termination packets_loop
  by (relation "measure (\<lambda>(se, k, st, s). stream_size st)")
     (auto dest!: next_packet_size [OF sym] on_payload_size [OF sym])

declare packets_loop.simps [simp del]

datatype session_outcome = SoNeverConnected | SoNoData | SoDelivered

text \<open>A whole session: what it sends and how it ended, or \<open>None\<close> while it lasts.\<close>

definition close_session :: "session_env \<Rightarrow> ('o, 'v) session \<Rightarrow> ('o, 'v) msg list \<times> session_outcome" where
  "close_session se s =
     (ss_msgs s
        @ (if ss_mismatched s then [frame_msg se (replacement_line se)]
           else [frame_msg se (error_line (se_palette se)
                   (if ss_errbuf s = [] then lit ''Connection to '' @ sv_host (se_server se) @ lit '' closed''
                    else last (ss_errbuf s)))]),
      if ss_delivered s then SoDelivered else SoNoData)"

definition monitor_session :: "session_env \<Rightarrow> (('o, 'v) msg list \<times> session_outcome) option" where
  "monitor_session se =
     (case connect (se_text se) (se_palette se) (se_agents se) (se_server se) (se_open se) (se_upload se) of
        None \<Rightarrow> None
      | Some (says, c) \<Rightarrow>
          (let notes = map (frame_msg se) says
           in case c of
                Refused e \<Rightarrow> Some (notes @ [frame_msg se (error_line (se_palette se) e)], SoNeverConnected)
              | Connected st \<Rightarrow>
                  map_option (\<lambda>s. let (ms, out) = close_session se s in (notes @ ms, out)) (packets_loop se 0 st session_new)
              | Again \<Rightarrow> None))"

section \<open>Connecting again\<close>

definition RECONNECT_BACKOFF :: "nat list" where "RECONNECT_BACKOFF = [2, 5, 10, 20]"

text \<open>The seconds to wait and the count of failures after it; the count saturates.\<close>

definition reconnect_wait :: "session_outcome \<Rightarrow> nat \<Rightarrow> nat \<times> nat" where
  "reconnect_wait outcome failures =
     (let failures = (if outcome = SoDelivered then 0 else failures)
      in (RECONNECT_BACKOFF ! min failures (length RECONNECT_BACKOFF - 1), min (failures + 1) (2 ^ 64 - 1)))"

text \<open>The task over a list of sessions: what it sends, and the waits between them.\<close>

fun monitor_task :: "session_env list \<Rightarrow> nat \<Rightarrow> ('o, 'v) msg list \<times> nat list" where
  "monitor_task [] failures = ([], [])"
| "monitor_task (se # ses) failures =
     (case monitor_session se of
        None \<Rightarrow> ([], [])
      | Some (ms, out) \<Rightarrow>
          (let (wait, failures) = reconnect_wait out failures; (more, waits) = monitor_task ses failures
           in (ms @ more, wait # waits)))"

end
