(* ===== verification/Line_Props.thy ===== *)
theory Line_Props
  imports Line_Reader
begin

text \<open>
  The reader gives the lines of its input, however the input arrives in pieces, but for those that
  do not fit its buffer; and the size a client wrote last is the size the agent samples for.
\<close>

section \<open>The lines of an input\<close>

text \<open>What is left to say when a text is still to come: the first piece is dropped while a line is
  passed over.\<close>

definition lines_from :: "nat \<Rightarrow> bool \<Rightarrow> bytes \<Rightarrow> bytes list" where
  "lines_from cap skipping s =
     (let ps = (if skipping then tl (split_at_byte 0x0A s) else split_at_byte 0x0A s)
      in filter (\<lambda>l. length l < cap) (butlast ps)
         @ (if ps \<noteq> [] \<and> last ps \<noteq> [] \<and> length (last ps) < cap then [last ps] else []))"

lemma split_no_newline: "0x0A \<notin> set s \<Longrightarrow> split_at_byte 0x0A (s @ t) = (s @ hd (split_at_byte 0x0A t)) # tl (split_at_byte 0x0A t)"
  by (induction s) (simp_all add: hd_Cons_tl)

lemma lines_from_newline:
  "0x0A \<notin> set l \<Longrightarrow> lines_from cap skipping (l @ 0x0A # s) =
     (if skipping \<or> cap \<le> length l then [] else [l]) @ lines_from cap False s"
  by (simp add: lines_from_def split_at_byte_sep Let_def)

lemma lines_from_skip: "0x0A \<notin> set s \<Longrightarrow> lines_from cap True (s @ t) = lines_from cap True t"
  by (simp add: lines_from_def split_no_newline)

lemma lines_from_long: "0 < cap \<Longrightarrow> 0x0A \<notin> set s \<Longrightarrow> cap \<le> length s \<Longrightarrow> lines_from cap skipping (s @ t) = lines_from cap True t"
  by (cases "tl (split_at_byte 0x0A t)") (auto simp: lines_from_def split_no_newline Let_def)

lemma lines_from_end:
  "0x0A \<notin> set s \<Longrightarrow> length s < cap \<Longrightarrow> lines_from cap skipping s = (if s \<noteq> [] \<and> \<not> skipping then [s] else [])"
  by (simp add: lines_from_def split_at_byte_no_sep)

lemma position_newline:
  assumes "position (\<lambda>b. b = 0x0A) buf = Some pos"
  shows "buf = take pos buf @ 0x0A # drop (pos + 1) buf" "0x0A \<notin> set (take pos buf)" "pos < length buf"
  using assms
proof (induction buf arbitrary: pos)
  case (Cons b buf)
  { case 1 then show ?case using Cons.IH(1) by (auto split: if_splits)
  next
    case 2 then show ?case using Cons.IH(2) by (auto split: if_splits)
  next
    case 3 then show ?case using Cons.IH(3) by (auto split: if_splits) }
qed simp_all

lemma scan_lines_from:
  assumes "scan_lines skipping buf = (ls, rest, sk)" "length buf \<le> cap"
  shows "lines_from cap skipping (buf @ t) = ls @ lines_from cap sk (rest @ t)
    \<and> 0x0A \<notin> set rest \<and> length rest \<le> length buf
    \<and> (length rest = length buf \<longrightarrow> ls = [] \<and> rest = buf \<and> sk = skipping)"
  using assms
proof (induction skipping buf arbitrary: ls rest sk rule: scan_lines.induct)
  case (1 skipping buf)
  show ?case
  proof (cases "position (\<lambda>b. b = 0x0A) buf")
    case None
    then have "ls = []" "rest = buf" "sk = skipping"
      using 1(2) by (auto simp: scan_lines.simps [of skipping buf])
    then show ?thesis using None by (simp add: position_None) blast
  next
    case (Some pos)
    note p = position_newline [OF Some]
    obtain ls' where s: "scan_lines False (drop (pos + 1) buf) = (ls', rest, sk)"
      "ls = (if skipping then ls' else take pos buf # ls')"
      using 1(2) Some by (auto simp: scan_lines.simps [of skipping buf] split: prod.splits)
    have ih: "lines_from cap False (drop (pos + 1) buf @ t) = ls' @ lines_from cap sk (rest @ t)"
      "0x0A \<notin> set rest" "length rest \<le> length (drop (pos + 1) buf)"
      using 1(1) [OF Some s(1)] 1(3) by simp_all
    have "lines_from cap skipping ((take pos buf @ 0x0A # drop (pos + 1) buf) @ t)
        = (if skipping then [] else [take pos buf]) @ ls' @ lines_from cap sk (rest @ t)"
      using p(2,3) 1(3) ih(1) by (simp add: lines_from_newline)
    then have "lines_from cap skipping (buf @ t) = ls @ lines_from cap sk (rest @ t)"
      unfolding p(1) [symmetric] s(2) by simp
    moreover have "length rest < length buf"
      using ih(3) p(3) by simp
    ultimately show ?thesis using ih(2) by simp
  qed
qed

text \<open>An input whose reads succeed and give something.\<close>

definition sound_input :: "input \<Rightarrow> bool" where
  "sound_input rs \<longleftrightarrow> None \<notin> set rs \<and> Some [] \<notin> set rs"

definition input_bytes :: "input \<Rightarrow> bytes" where
  "input_bytes rs = concat (map (\<lambda>r. case r of None \<Rightarrow> [] | Some b \<Rightarrow> b) rs)"

lemma line_loop_from:
  assumes "sound_input rs" "length filled < cap" "0x0A \<notin> set filled"
  shows "fst (line_loop cap filled skipping any rs) = lines_from cap skipping (filled @ input_bytes rs)"
  using assms
proof (induction cap filled skipping any rs rule: line_loop.induct)
  case (1 cap filled skipping any)
  then show ?case by (simp add: line_loop.simps input_bytes_def lines_from_end)
next
  case (2 cap filled skipping any rs)
  then show ?case by (simp add: sound_input_def)
next
  case (3 cap filled skipping any block rs)
  define n where "n = min (cap - length filled) (length block)"
  define buf where "buf = filled @ take n block"
  define rs' where "rs' = (if n < length block then Some (drop n block) # rs else rs)"
  have n: "n \<noteq> 0" "length buf \<le> cap"
    using 3(2,3) by (auto simp: n_def buf_def sound_input_def)
  obtain ls rest sk where s: "scan_lines skipping buf = (ls, rest, sk)"
    by (metis prod_cases3)
  define full where "full = (length rest = length buf \<and> length buf = cap)"
  define sk' where "sk' = (full \<or> sk)"
  define rest' where "rest' = (if full then [] else rest)"
  have step: "fst (line_loop cap filled skipping any (Some block # rs)) = ls @ fst (line_loop cap rest' sk' True rs')"
    using n(1) by (simp add: line_loop.simps(3) Let_def n_def [symmetric] buf_def [symmetric] rs'_def [symmetric] s
        full_def [symmetric] rest'_def sk'_def case_prod_beta)
  have r: "lines_from cap skipping (buf @ input_bytes rs') = ls @ lines_from cap sk (rest @ input_bytes rs')"
    "0x0A \<notin> set rest" "length rest \<le> length buf"
    using scan_lines_from [OF s n(2)] by auto
  have i: "filled @ input_bytes (Some block # rs) = buf @ input_bytes rs'" "sound_input rs'"
    using 3(2) by (auto simp: buf_def rs'_def input_bytes_def sound_input_def)
  have f: "length rest' < cap" "0x0A \<notin> set rest'"
    using r n(2) 3(3) by (auto simp: rest'_def full_def)
  have full: "(sk', rest') = (if length rest = length buf \<and> length buf = cap then (True, []) else (sk, rest))"
    by (auto simp: sk'_def rest'_def full_def)
  have "fst (line_loop cap rest' sk' True rs') = lines_from cap sk' (rest' @ input_bytes rs')"
    using 3(1) [OF n_def n(1) buf_def rs'_def s [symmetric] refl refl refl full i(2) f] .
  also have "\<dots> = lines_from cap sk (rest @ input_bytes rs')"
    using r(2) 3(3) lines_from_long [of cap rest sk] by (auto simp: rest'_def sk'_def full_def)
  finally show ?case
    using step r(1) i(1) by simp
qed

text \<open>C20: However an input arrives in pieces, the reader gives exactly its lines: those that end in a line
  feed, and what follows the last one if anything does; a line that does not fit the buffer is left
  out whole, never cut, and one that is not UTF-8 is left out.\<close>

theorem reader_gives_the_lines:
  assumes "None \<notin> set reads" "Some [] \<notin> set reads" "0 < cap"
  shows "fst (for_each_line_in cap reads) =
    (let ps = split_at_byte 0x0A (concat (map the reads))
     in filter (\<lambda>l. valid_utf8 l \<and> length l < cap) (butlast ps @ (if last ps = [] then [] else [last ps])))"
proof -
  have "input_bytes reads = concat (map the reads)"
    using assms(1) by (auto simp: input_bytes_def intro!: arg_cong [where f = concat] split: option.split)
  then have "fst (line_loop cap [] False False reads) = lines_from cap False (concat (map the reads))"
    using line_loop_from [of reads "[]" cap False False] assms by (simp add: sound_input_def)
  then show ?thesis
    by (simp add: for_each_line_in_def case_prod_beta lines_from_def Let_def conj_commute)
qed

theorem reader_gives_the_lines_witness:
  "for_each_line_in 6 [Some (lit ''ab''), Some [0x63, 0x0A, 0x64], Some (lit ''efghij''), Some [0x0A, 0x6B]]
     = ([lit ''abc'', lit ''k''], True)
   \<and> fst (for_each_line_in 6 [Some (lit ''ab''), Some [0x63, 0x0A]]) = [lit ''abc'']"
proof
  show "for_each_line_in 6 [Some (lit ''ab''), Some [0x63, 0x0A, 0x64], Some (lit ''efghij''), Some [0x0A, 0x6B]]
     = ([lit ''abc'', lit ''k''], True)" by code_simp
  show "fst (for_each_line_in 6 [Some (lit ''ab''), Some [0x63, 0x0A]]) = [lit ''abc'']"
    by (rule trans [OF reader_gives_the_lines]) code_simp+
qed

section \<open>The size the agent samples for\<close>

lemma panel_size_round: "cols \<noteq> 0 \<or> lines \<noteq> 0 \<Longrightarrow> panel_size_get (panel_size_set cols lines) = Some (unat cols, unat lines)"
proof -
  assume nz: "cols \<noteq> 0 \<or> lines \<noteq> 0"
  have hi: "ucast (drop_bit 16 (panel_size_set cols lines)) = cols"
    by (rule bit_word_eqI) (auto simp: panel_size_set_def bit_simps dest: bit_imp_le_length)
  have m: "(0xFFFF :: u32) = mask 16" by (simp add: mask_eq_exp_minus_1)
  have lo: "ucast (and (panel_size_set cols lines) 0xFFFF) = lines"
    unfolding m by (rule bit_word_eqI) (auto simp: panel_size_set_def bit_simps dest: bit_imp_le_length)
  have "panel_size_set cols lines \<noteq> 0"
    using nz hi lo by auto
  then show ?thesis using hi lo by (simp add: panel_size_get_def)
qed

lemma ascii_words_word: "\<forall>b \<in> set w. \<not> ascii_space b \<Longrightarrow> ascii_words acc (w @ s) = ascii_words (acc @ w) s"
  by (induction w arbitrary: acc) simp_all

lemma ascii_words_sep:
  assumes "\<forall>b \<in> set w. \<not> ascii_space b" "w \<noteq> []"
  shows "ascii_words [] (w @ 0x20 # s) = w # ascii_words [] s" "ascii_words [] w = [w]"
  using assms(2) ascii_words_word [OF assms(1), of "[]" "0x20 # s"] ascii_words_word [OF assms(1), of "[]" "[]"]
  by (simp_all add: ascii_space_def)

lemma show_nat_range: "c \<in> set (show_nat n) \<Longrightarrow> 0x30 \<le> c \<and> c \<le> 0x39"
proof -
  assume "c \<in> set (show_nat n)"
  then obtain d where d: "d < 10" "c = 0x30 + of_nat d" using show_nat_digits by blast
  then have "d \<in> {0, 1, 2, 3, 4, 5, 6, 7, 8, 9}" by auto
  then show ?thesis using d(2) by auto
qed

lemma digits_no_space: "\<forall>b \<in> set (show_nat n). \<not> ascii_space b"
  using show_nat_range [of _ n] by (fastforce simp: ascii_space_def)

lemma show_nat_u16_length: "n < 65536 \<Longrightarrow> length (show_nat n) \<le> 5"
  by (simp add: show_nat.simps [of n] show_nat.simps [of "n div 10"] show_nat.simps [of "n div 100"]
      show_nat.simps [of "n div 1000"] show_nat.simps [of "n div 10000"] div_mult2_eq [symmetric] flip: div_mult2_eq)

definition size_body :: "u16 \<Rightarrow> u16 \<Rightarrow> rstring" where
  "size_body cols lines = lit ''size '' @ show_nat (unat cols) @ lit '' '' @ show_nat (unat lines)"

lemma size_body_valid: "valid_utf8 (size_body cols lines)"
proof (rule valid_utf8_ascii, rule)
  fix b assume "b \<in> set (size_body cols lines)"
  moreover have "b \<le> 0x39 \<Longrightarrow> b < 0x80" by (simp add: word_le_nat_alt word_less_nat_alt)
  ultimately show "b < 0x80"
    using show_nat_range [of b "unat cols"] show_nat_range [of b "unat lines"]
    by (auto simp: size_body_def lit_def)
qed

lemma size_word_unat: "unat (w :: u16) < 65536"
  using unsigned_less [of w] by simp

lemma parse_size_body:
  assumes "0 < cols" "0 < lines"
  shows "parse_size_line (size_body cols lines) = Some (cols, lines)"
proof -
  have w: "ascii_words [] (size_body cols lines) = [lit ''size'', show_nat (unat cols), show_nat (unat lines)]"
  proof -
    have "\<forall>b \<in> set (lit ''size''). \<not> ascii_space b" by (simp add: lit_def ascii_space_def)
    then have "ascii_words [] (lit ''size'' @ 0x20 # show_nat (unat cols) @ 0x20 # show_nat (unat lines))
        = [lit ''size'', show_nat (unat cols), show_nat (unat lines)]"
      by (subst ascii_words_sep(1)) (simp_all add: ascii_words_sep digits_no_space lit_def)
    then show ?thesis by (simp add: size_body_def lit_def)
  qed
  have "unat cols \<le> 65535" "unat lines \<le> 65535"
    using size_word_unat [of cols] size_word_unat [of lines] by simp_all
  then show ?thesis
    using assms by (simp add: parse_size_line_def w size_body_valid parse_unsigned_show word_gt_0 unat_gt_0)
qed

lemma size_body_plain:
  "0x0A \<notin> set (size_body cols lines)" "length (size_body cols lines) < STDIN_WATCH_BUF"
  "size_line cols lines = size_body cols lines @ [0x0A]"
proof -
  show "0x0A \<notin> set (size_body cols lines)"
    using show_nat_range [of "0x0A"] by (auto simp: size_body_def lit_def)
  have "unat cols < 65536" "unat lines < 65536"
    by (rule size_word_unat)+
  then have "length (show_nat (unat cols)) \<le> 5" "length (show_nat (unat lines)) \<le> 5"
    by (simp_all add: show_nat_u16_length)
  then show "length (size_body cols lines) < STDIN_WATCH_BUF"
    by (simp add: size_body_def lit_def STDIN_WATCH_BUF_def)
qed (simp add: size_line_def size_body_def)

lemma size_lines_split:
  "split_at_byte 0x0A (concat (map (\<lambda>(c, l). size_line c l) ss)) = map (\<lambda>(c, l). size_body c l) ss @ [[]]"
  by (induction ss) (auto simp: size_body_plain split_at_byte_sep)

lemma size_lines_from:
  "lines_from STDIN_WATCH_BUF False (concat (map (\<lambda>(c, l). size_line c l) ss)) = map (\<lambda>(c, l). size_body c l) ss"
  unfolding lines_from_def if_False size_lines_split Let_def
  by (auto simp: filter_id_conv size_body_plain(2))

text \<open>The agent samples for the panel the client last said it has: whatever sizes the client writes, and
  however the pipe cuts them up, the shared size the watcher leaves is the last one written.\<close>

theorem last_size_told_is_used:
  assumes "None \<notin> set reads" "Some [] \<notin> set reads"
    and "concat (map the reads) = concat (map (\<lambda>(c, l). size_line c l) (sizes @ [(cols, lines)]))"
    and "\<forall>(c, l) \<in> set (sizes @ [(cols, lines)]). 0 < c \<and> 0 < l"
  shows "panel_size_get (read_commands reads v) = Some (unat cols, unat lines)"
proof -
  have b: "input_bytes reads = concat (map the reads)"
    using assms(1) by (auto simp: input_bytes_def intro!: arg_cong [where f = concat] split: option.split)
  have "fst (line_loop STDIN_WATCH_BUF [] False False reads) = map (\<lambda>(c, l). size_body c l) (sizes @ [(cols, lines)])"
    using line_loop_from [of reads "[]" STDIN_WATCH_BUF False False] assms(1,2)
    unfolding b assms(3) size_lines_from [symmetric] by (simp add: sound_input_def STDIN_WATCH_BUF_def)
  then have "fst (for_each_line_in STDIN_WATCH_BUF reads) = map (\<lambda>(c, l). size_body c l) (sizes @ [(cols, lines)])"
    by (simp add: for_each_line_in_def case_prod_beta size_body_valid)
  moreover have "0 < cols" "0 < lines" using assms(4) by auto
  ultimately show ?thesis
    using panel_size_round [of cols lines] by (auto simp: read_commands_def parse_size_body)
qed

theorem last_size_told_is_used_witness:
  "panel_size_get (read_commands [Some (lit ''size 80 24''), Some (0x0A # lit ''size 2''), Some (lit ''00 50'' @ [0x0A])] 0)
     = Some (200, 50)"
proof -
  let ?rs = "[Some (lit ''size 80 24''), Some (0x0A # lit ''size 2''), Some (lit ''00 50'' @ [0x0A])]"
  have "concat (map the ?rs) = concat (map (\<lambda>(c, l). size_line c l) ([(80, 24)] @ [(200, 50)]))"
    by code_simp
  from last_size_told_is_used [OF _ _ this, of 0] show ?thesis
    by (simp add: lit_def)
qed

end
