(* ===== verification/Session_Props.thy ===== *)
theory Session_Props
  imports Monitor_Session Upgrade_Props Line_Props
begin

text \<open>
  What a monitor session comes to: packets arrive whole however the pipe cuts them, nothing is
  shown of an agent this build cannot talk to, connecting ends, retries back off, and the agent
  samples for the panel it is drawn into. And where a line on standard error costs a session.
\<close>

section \<open>Reading what arrives\<close>

text \<open>Nothing on standard error; the bytes still to be read, then the end.\<close>

definition holds :: "stream \<Rightarrow> bytes \<Rightarrow> bool" where
  "holds st bs \<longleftrightarrow> st_errs st = [] \<and>
     (\<exists>cs. st_next st = map OutBytes cs @ [OutEnd] \<and> st_buf st @ concat cs = bs)"

lemma holds_fresh: "holds (fresh (map OutBytes cs @ [OutEnd])) (concat cs)"
  by (auto simp: holds_def fresh_def)

lemma holds_header [simp]: "holds (st\<lparr>st_header := h\<rparr>) bs = holds st bs"
  "holds (st\<lparr>st_preamble := p\<rparr>) bs = holds st bs" "holds (st\<lparr>st_told := t\<rparr>) bs = holds st bs"
  by (simp_all add: holds_def)

text \<open>What reading leaves as it was.\<close>

definition aside :: "stream \<Rightarrow> bytes option \<times> rstring option \<times> dims option" where
  "aside st = (st_header st, st_preamble st, st_told st)"

lemma read_exact_holds:
  assumes "holds st bs" "n \<le> length bs"
  shows "\<exists>st'. read_exact n st = (Got (take n bs), st') \<and> holds st' (drop n bs) \<and> aside st' = aside st"
  using assms
proof (induction n st rule: read_exact.induct)
  case (1 n st)
  obtain cs where c: "st_errs st = []" "st_next st = map OutBytes cs @ [OutEnd]" "bs = st_buf st @ concat cs"
    using 1(3) by (auto simp: holds_def)
  show ?case
  proof (cases "n \<le> length (st_buf st)")
    case True
    then show ?thesis using c by (auto simp: read_exact.simps [of n st] holds_def aside_def)
  next
    case False
    then obtain b cs' where cs: "cs = b # cs'"
      using 1(4) c(3) by (cases cs) auto
    have "holds (st\<lparr>st_buf := st_buf st @ b, st_next := map OutBytes cs' @ [OutEnd]\<rparr>) bs"
      using c cs by (auto simp: holds_def)
    then show ?thesis
      using 1(1) [OF False, of "OutBytes b" "map OutBytes cs' @ [OutEnd]" b] c cs False 1(4)
      by (simp add: read_exact.simps [of n st] aside_def)
  qed
qed

lemma select_header_holds:
  assumes "holds st bs" "HEADER_LEN \<le> length (got @ bs)"
  shows "\<exists>st'. select_header coin k got st errbuf = (Got (take HEADER_LEN (got @ bs)), st', errbuf)
    \<and> holds st' (drop HEADER_LEN (got @ bs)) \<and> aside st' = aside st"
  using assms
proof (induction coin k got st errbuf arbitrary: bs rule: select_header.induct)
  case (1 coin k got st errbuf)
  obtain cs where c: "st_errs st = []" "st_next st = map OutBytes cs @ [OutEnd]" "bs = st_buf st @ concat cs"
    using 1(5) by (auto simp: holds_def)
  show ?case
  proof (cases "HEADER_LEN \<le> length (got @ st_buf st)")
    case True
    then show ?thesis
      using c by (auto simp: select_header.simps [of coin k got st] Let_def holds_def aside_def)
  next
    case False
    then obtain b cs' where cs: "cs = b # cs'"
      using 1(6) c(3) by (cases cs) auto
    let ?st = "st\<lparr>st_buf := b, st_next := map OutBytes cs' @ [OutEnd]\<rparr>"
    have "holds ?st (concat cs)"
      using c cs by (auto simp: holds_def)
    moreover have all: "(got @ st_buf st) @ concat cs = got @ bs" using c(3) by simp
    ultimately have "\<exists>st'. select_header coin (k + 1) (got @ st_buf st) ?st errbuf
          = (Got (take HEADER_LEN (got @ bs)), st', errbuf)
        \<and> holds st' (drop HEADER_LEN (got @ bs)) \<and> aside st' = aside ?st"
      using 1(3) [OF _ refl False, of "OutBytes b" "map OutBytes cs' @ [OutEnd]" b "concat cs"] c(1,2) cs 1(6)
      unfolding all by simp
    moreover have "select_header coin k got st errbuf = select_header coin (k + 1) (got @ st_buf st) ?st errbuf"
      using c(1,2) cs False by (simp add: select_header.simps [of coin k got st])
    ultimately show ?thesis by (simp add: aside_def)
  qed
qed

lemma read_header_holds:
  assumes "holds st bs" "st_header st = None" "HEADER_LEN \<le> length bs"
  shows "\<exists>st'. read_header coin st errbuf = (Got (take HEADER_LEN bs), st', errbuf)
    \<and> holds st' (drop HEADER_LEN bs) \<and> aside st' = aside st"
  using select_header_holds [OF assms(1), of "[]"] assms(2,3) by (simp add: read_header_def)

lemma read_header_pending:
  assumes "holds st bs" "st_header st = Some m" "length m = 4" "HEADER_LEN \<le> length (m @ bs)"
  shows "\<exists>st'. read_header coin st errbuf = (Got (take HEADER_LEN (m @ bs)), st', errbuf)
    \<and> holds st' (drop HEADER_LEN (m @ bs)) \<and> aside st' = (None, st_preamble st, st_told st)"
proof -
  have n: "HEADER_LEN - 4 \<le> length bs" "take HEADER_LEN (m @ bs) = m @ take (HEADER_LEN - 4) bs"
    "drop HEADER_LEN (m @ bs) = drop (HEADER_LEN - 4) bs"
    using assms(3,4) by (simp_all add: HEADER_LEN_def)
  show ?thesis
    using read_exact_holds [of "st\<lparr>st_header := None\<rparr>" bs "HEADER_LEN - 4"] assms(1,2) n
    by (auto simp: read_header_def aside_def)
qed

text \<open>A packet at the front of what arrives is read, whole.\<close>

lemma read_body_holds:
  assumes "payload_fits pl" "holds st (drop HEADER_LEN (encode_packet pl @ rest))"
  shows "\<exists>st'. read_body dbg (take HEADER_LEN (encode_packet pl @ rest)) st errbuf
      = (Got (Some (payload_canon pl)), st', errbuf) \<and> holds st' rest \<and> aside st' = aside st"
proof -
  obtain h where h: "encode_packet pl = h @ body pl" "length h = HEADER_LEN"
    "unat (of_le [h ! 6, h ! 7] :: u16) = length (body pl)"
    using packet_split [OF body_within [OF assms(1)]] by blast
  have d: "decode_packet (h @ body pl) = Some (payload_canon pl)"
    using decode_encode_packet [OF assms(1), of "[]"] h(1) by simp
  have magic: "take 4 h = MAGIC"
    using decoded_magic(2) [OF d] h(2) by (simp add: HEADER_LEN_def)
  have "holds st (body pl @ rest)" using assms(2) h(1,2) by simp
  then obtain st2 where "read_exact (header_len h) st = (Got (body pl), st2)" "holds st2 rest" "aside st2 = aside st"
    using read_exact_holds [of st "body pl @ rest" "header_len h"] h(3) by (auto simp: header_len_def)
  then show ?thesis
    using magic d h(1,2) by (simp add: read_body_def interpret_packet_def)
qed

lemma next_packet_holds:
  assumes "holds st bs" "payload_fits pl"
    and "case st_header st of None \<Rightarrow> bs = encode_packet pl @ rest
         | Some m \<Rightarrow> length m = 4 \<and> m @ bs = encode_packet pl @ rest"
  shows "\<exists>st'. next_packet dbg coin st errbuf = (Got (Some (payload_canon pl)), st', errbuf) \<and> holds st' rest
    \<and> aside st' = (None, st_preamble st, st_told st)"
proof -
  have len: "HEADER_LEN \<le> length (encode_packet pl @ rest)"
    by (simp add: encode_packet_bytes MAGIC_def HEADER_LEN_def)
  have "\<exists>st'. read_header coin st errbuf = (Got (take HEADER_LEN (encode_packet pl @ rest)), st', errbuf)
      \<and> holds st' (drop HEADER_LEN (encode_packet pl @ rest)) \<and> aside st' = (None, st_preamble st, st_told st)"
  proof (cases "st_header st")
    case None
    then show ?thesis
      using read_header_holds [OF assms(1) None, of coin errbuf] assms(3) len by (simp add: aside_def)
  next
    case (Some m)
    then have e: "length m = 4" "m @ bs = encode_packet pl @ rest" using assms(3) by simp_all
    show ?thesis
      using read_header_pending [OF assms(1) Some e(1), of coin errbuf] len unfolding e(2) by simp
  qed
  then obtain st1 where st1: "read_header coin st errbuf = (Got (take HEADER_LEN (encode_packet pl @ rest)), st1, errbuf)"
    "holds st1 (drop HEADER_LEN (encode_packet pl @ rest))" "aside st1 = (None, st_preamble st, st_told st)" by blast
  then show ?thesis
    using read_body_holds [OF assms(2) st1(2), of dbg errbuf]
    by (auto simp del: take_append simp: next_packet_def read_packet_def)
qed

text \<open>The end of what arrives, between packets.\<close>

lemma select_header_end:
  assumes "holds st []" shows "\<exists>st'. select_header coin k [] st errbuf = (AtEnd, st', errbuf)"
  using assms
proof (induction "length (st_next st)" arbitrary: st k)
  case 0
  then show ?case by (simp add: holds_def)
next
  case (Suc n)
  obtain cs where c: "st_errs st = []" "st_next st = map OutBytes cs @ [OutEnd]" "st_buf st = []" "concat cs = []"
    using Suc(3) by (auto simp: holds_def)
  show ?case
  proof (cases cs)
    case Nil
    then show ?thesis
      using c by (simp add: select_header.simps [of coin k "[]" st] HEADER_LEN_def drain_stderr_def err_lines_def
          List.map_filter_simps)
  next
    case (Cons b cs')
    let ?st = "st\<lparr>st_buf := b, st_next := map OutBytes cs' @ [OutEnd]\<rparr>"
    have "holds ?st []" "n = length (st_next ?st)"
      using c Cons Suc(2) by (auto simp: holds_def)
    then have "\<exists>st'. select_header coin (k + 1) [] ?st errbuf = (AtEnd, st', errbuf)"
      using Suc(1) by blast
    then show ?thesis
      using c Cons by (simp add: select_header.simps [of coin k "[]" st] HEADER_LEN_def)
  qed
qed

lemma next_packet_end:
  assumes "holds st []" "st_header st = None"
  shows "\<exists>st'. next_packet dbg coin st errbuf = (Got None, st', errbuf)"
  using select_header_end [OF assms(1), of coin 0 errbuf] assms(2)
  by (auto simp: next_packet_def read_packet_def read_header_def)

section \<open>A whole session\<close>

text \<open>What the loop makes of a list of payloads; of the stream only the size it was told matters.\<close>

fun over_payloads ::
  "session_env \<Rightarrow> nat \<Rightarrow> stream \<Rightarrow> payload list \<Rightarrow> ('o, 'v) session \<Rightarrow> ('o, 'v) session" where
  "over_payloads se k st [] s = s"
| "over_payloads se k st (pl # pls) s =
     (let (go_on, st, s) = on_payload se k pl st s in if go_on then over_payloads se (Suc k) st pls s else s)"

lemma tell_size_told:
  assumes "st_told st1 = st_told st2"
  shows "fst (tell_size dm ok st1) = fst (tell_size dm ok st2)"
    "st_told (snd (tell_size dm ok st1)) = st_told (snd (tell_size dm ok st2))"
  using assms by (simp_all add: tell_size_def)

lemma tell_size_holds [simp]: "holds (snd (tell_size dm ok st)) bs = holds st bs"
  "st_header (snd (tell_size dm ok st)) = st_header st"
  by (simp_all add: tell_size_def)

lemma on_payload_split:
  "on_payload se k pl st s =
     (let v = handshake_verdict se pl (ss_shaken s); t = tell_size (se_dims se (2 * k)) (se_write_ok se k) st;
          s = s\<lparr>ss_shaken := snd v, ss_stdin := ss_stdin s @ fst t\<rparr>
      in (\<not> (\<exists>l m. fst v = EndSession l m), snd t,
          case fst v of
            Skip \<Rightarrow> s
          | EndSession line mismatch \<Rightarrow> s\<lparr>ss_msgs := ss_msgs s @ [frame_msg se line], ss_mismatched := mismatch\<rparr>
          | Proceed \<Rightarrow> s\<lparr>ss_msgs := ss_msgs s
                  @ [Packet (se_panel se) (se_gen se) (se_epoch se) pl (se_dims se (2 * k + 1))], ss_delivered := True\<rparr>))"
  by (cases "fst (handshake_verdict se pl (ss_shaken s))") (simp_all add: on_payload_def Let_def case_prod_beta)

lemma on_payload_told:
  assumes "st_told st1 = st_told st2" "on_payload se k pl st1 s = (g, st1', s1)" "on_payload se k pl st2 s = (g', st2', s2)"
  shows "g' = g \<and> s2 = s1 \<and> st_told st1' = st_told st2'"
  using assms(2,3)
  by (cases "fst (handshake_verdict se pl (ss_shaken s))")
    (auto simp: on_payload_split Let_def tell_size_told [OF assms(1)])

lemma on_payload_stream:
  "on_payload se k pl st s = (g, st', s') \<Longrightarrow> holds st' bs = holds st bs \<and> st_header st' = st_header st
     \<and> ss_errbuf s' = ss_errbuf s"
  by (auto simp: on_payload_split Let_def split: verdict.split)

lemma packets_loop_over:
  assumes "\<forall>p \<in> set ps. payload_fits p" "holds st bs" "st_told st = st_told st0"
    and "case st_header st of None \<Rightarrow> bs = concat (map encode_packet ps)
         | Some m \<Rightarrow> ps \<noteq> [] \<and> length m = 4 \<and> m @ bs = concat (map encode_packet ps)"
  shows "packets_loop se k st s = Some (over_payloads se k st0 (map payload_canon ps) s)"
  using assms
proof (induction ps arbitrary: k st st0 bs s)
  case Nil
  then obtain st' where "next_packet (se_debug se) (se_coin se k) st (ss_errbuf s) = (Got None, st', ss_errbuf s)"
    using next_packet_end [of st "se_debug se" "se_coin se k" "ss_errbuf s"] by (auto split: option.splits)
  then show ?case by (simp add: packets_loop.simps [of se k st s])
next
  case (Cons p ps)
  let ?rest = "concat (map encode_packet ps)"
  have "case st_header st of None \<Rightarrow> bs = encode_packet p @ ?rest
      | Some m \<Rightarrow> length m = 4 \<and> m @ bs = encode_packet p @ ?rest"
    using Cons.prems(4) by (auto split: option.splits)
  then obtain st1 where n: "next_packet (se_debug se) (se_coin se k) st (ss_errbuf s) = (Got (Some (payload_canon p)), st1, ss_errbuf s)"
    "holds st1 ?rest" "st_header st1 = None" "st_told st1 = st_told st"
    using next_packet_holds [OF Cons.prems(2), of p ?rest "se_debug se" "se_coin se k" "ss_errbuf s"] Cons.prems(1)
    by (auto simp: aside_def)
  obtain g st2 s2 where o: "on_payload se k (payload_canon p) st1 s = (g, st2, s2)"
    by (metis prod_cases3)
  obtain g' st2' s2' where o': "on_payload se k (payload_canon p) st0 s = (g', st2', s2')"
    by (metis prod_cases3)
  have same: "g' = g" "s2' = s2" "st_told st2 = st_told st2'"
    using on_payload_told [OF _ o o'] n(4) Cons.prems(3) by simp_all
  have "packets_loop se k st s = (if g then packets_loop se (Suc k) st2 s2 else Some s2)"
    using n(1) o by (simp add: packets_loop.simps [of se k st s])
  moreover have "packets_loop se (Suc k) st2 s2 = Some (over_payloads se (Suc k) st2' (map payload_canon ps) s2)"
    using Cons.prems(1) n(2,3) on_payload_stream [OF o] same(3) by (intro Cons.IH) auto
  ultimately show ?case
    using o' same by simp
qed

lemma encoded_first4:
  assumes "payload_fits p" shows "take 4 (encode_packet p @ rest) = MAGIC" "4 \<le> length (encode_packet p)"
  using decoded_magic [OF decode_encode_packet [OF assms, of "[]"]] by (simp_all add: HEADER_LEN_def)

text \<open>A session over whatever a framed agent writes until it ends.\<close>

lemma connect_framed:
  assumes "se_open se 0 = Process (map OutBytes cs @ [OutEnd])"
    and "concat cs = concat (map encode_packet ps)" "ps \<noteq> []" "\<forall>p \<in> set ps. payload_fits p"
  obtains st bs where
    "connect (se_text se) (se_palette se) (se_agents se) (se_server se) (se_open se) (se_upload se) = Some ([], Connected st)"
    "holds st bs" "st_told st = None" "st_header st = Some MAGIC" "MAGIC @ bs = concat (map encode_packet ps)"
proof -
  obtain p qs where ps: "ps = p # qs" using assms(3) by (cases ps) auto
  have first: "take 4 (concat cs) = MAGIC" "4 \<le> length (concat cs)"
    using encoded_first4 [of p] assms(2,4) ps by simp_all
  obtain st where st: "read_exact 4 (fresh (map OutBytes cs @ [OutEnd])) = (Got MAGIC, st)"
    "holds st (drop 4 (concat cs))" "aside st = (None, None, None)"
    using read_exact_holds [OF holds_fresh, of 4 cs] first by (auto simp: aside_def fresh_def)
  let ?st = "st\<lparr>st_header := Some MAGIC, st_preamble := None, st_told := None\<rparr>"
  show ?thesis
  proof (rule that [of ?st "drop 4 (concat cs)"])
    show "connect (se_text se) (se_palette se) (se_agents se) (se_server se) (se_open se) (se_upload se) = Some ([], Connected ?st)"
      using st(1) by (simp add: connect_def connect_once_def assms(1) read_handshake_def bootstrap_def)
    show "MAGIC @ drop 4 (concat cs) = concat (map encode_packet ps)"
      unfolding assms(2) [symmetric] using first(1) append_take_drop_id by metis
  qed (use st(2) in simp_all)
qed

lemma monitor_session_over:
  assumes "se_open se 0 = Process (map OutBytes cs @ [OutEnd])"
    and "concat cs = concat (map encode_packet ps)" "ps \<noteq> []" "\<forall>p \<in> set ps. payload_fits p"
  shows "monitor_session se =
    Some (close_session se (over_payloads se 0 (fresh []) (map payload_canon ps) (session_new :: ('o, 'v) session)))"
proof -
  obtain st bs where st:
    "connect (se_text se) (se_palette se) (se_agents se) (se_server se) (se_open se) (se_upload se) = Some ([], Connected st)"
    "holds st bs" "st_told st = None" "st_header st = Some MAGIC" "MAGIC @ bs = concat (map encode_packet ps)"
    by (rule connect_framed [OF assms])
  have "packets_loop se 0 st (session_new :: ('o, 'v) session) =
      Some (over_payloads se 0 (fresh []) (map payload_canon ps) session_new)"
    by (rule packets_loop_over [OF assms(4) st(2)]) (use st(3-5) assms(3) in \<open>simp_all add: fresh_def MAGIC_def\<close>)
  then show ?thesis
    by (simp add: monitor_session_def st(1) case_prod_beta)
qed

lemma over_payloads_accepted:
  assumes "ss_shaken s = \<lparr>sh_hello_seen = True, sh_version_checked = True\<rparr>" "\<forall>pl \<in> set pls. \<nexists>h. pl = HelloP h"
  shows "\<exists>said. over_payloads se k st pls s =
    s\<lparr>ss_msgs := ss_msgs s @ map (\<lambda>(j, pl). Packet (se_panel se) (se_gen se) (se_epoch se) pl (se_dims se (2 * j + 1)))
          (enumerate k pls),
      ss_delivered := ss_delivered s \<or> pls \<noteq> [], ss_stdin := said\<rparr>"
  using assms
proof (induction pls arbitrary: k st s)
  case Nil
  show ?case by (intro exI [of _ "ss_stdin s"]) simp
next
  case (Cons pl pls)
  have v: "handshake_verdict se pl (ss_shaken s) = (Proceed, ss_shaken s)"
    using Cons.prems by (cases pl) (simp_all add: handshake_verdict_def)
  let ?s = "s\<lparr>ss_stdin := ss_stdin s @ fst (tell_size (se_dims se (2 * k)) (se_write_ok se k) st),
      ss_msgs := ss_msgs s @ [Packet (se_panel se) (se_gen se) (se_epoch se) pl (se_dims se (2 * k + 1))],
      ss_delivered := True\<rparr>"
  have "over_payloads se k st (pl # pls) s
      = over_payloads se (Suc k) (snd (tell_size (se_dims se (2 * k)) (se_write_ok se k) st)) pls ?s"
    by (simp add: on_payload_split Let_def v)
  moreover obtain said where "over_payloads se (Suc k) (snd (tell_size (se_dims se (2 * k)) (se_write_ok se k) st)) pls ?s =
    ?s\<lparr>ss_msgs := ss_msgs ?s @ map (\<lambda>(j, pl). Packet (se_panel se) (se_gen se) (se_epoch se) pl (se_dims se (2 * j + 1)))
          (enumerate (Suc k) pls),
      ss_delivered := ss_delivered ?s \<or> pls \<noteq> [], ss_stdin := said\<rparr>"
    using Cons.IH [of ?s "Suc k" "snd (tell_size (se_dims se (2 * k)) (se_write_ok se k) st)"] Cons.prems by auto
  ultimately show ?case by (intro exI [of _ said]) simp
qed

definition after_hello :: "session_env \<Rightarrow> ('o, 'v) session" where
  "after_hello se = session_new\<lparr>ss_shaken := \<lparr>sh_hello_seen = True, sh_version_checked = True\<rparr>,
     ss_stdin := fst (tell_size (se_dims se 0) (se_write_ok se 0) (fresh []))\<rparr>"

definition told_first :: "session_env \<Rightarrow> stream" where
  "told_first se = snd (tell_size (se_dims se 0) (se_write_ok se 0) (fresh []))"

lemma over_hello:
  assumes "\<not> needs_replacement h (se_version se)"
  shows "over_payloads se 0 (fresh []) (HelloP h # pls) session_new = over_payloads se 1 (told_first se) pls (after_hello se)"
proof -
  have "hello_is_valid h" using assms by (auto simp: needs_replacement_def split: if_splits)
  then show ?thesis
    using assms by (simp add: on_payload_split handshake_verdict_def session_new_def after_hello_def told_first_def Let_def)
qed

definition closed_note :: "session_env \<Rightarrow> rstring" where
  "closed_note se = error_line (se_palette se) (lit ''Connection to '' @ sv_host (se_server se) @ lit '' closed'')"

lemma canon_hello: "payload_canon p = HelloP h \<longleftrightarrow> p = HelloP h"
  by (cases p) simp_all


text \<open>A session to instantiate the theorems with: a remote host, no agents built in.\<close>

definition sample_env :: "bytes list \<Rightarrow> session_env" where
  "sample_env cs =
     \<lparr>se_panel = 0, se_gen = 1, se_epoch = 0, se_server = sample_server, se_palette = plain_palette,
      se_agents = \<lparr>ag_hash_x86 = lit ''missing'', ag_hash_arm = lit ''missing'', ag_version_x86 = lit ''missing'',
        ag_version_arm = lit ''missing'', ag_binary_x86 = None, ag_binary_arm = None\<rparr>,
      se_version = lit ''0.44.1'', se_text = plain_text, se_debug = (\<lambda>s. s),
      se_open = (\<lambda>_. Process (map OutBytes cs @ [OutEnd])), se_upload = (\<lambda>_ _. UploadNotStarted []),
      se_coin = (\<lambda>_ _. True), se_dims = (\<lambda>_. (80, 24)), se_write_ok = (\<lambda>_. True),
      se_probe = None, se_replace = (\<lambda>_. UploadNotStarted [])\<rparr>"

lemma sample_env_simps [simp]:
  "se_open (sample_env cs) n = Process (map OutBytes cs @ [OutEnd])"
  "se_version (sample_env cs) = lit ''0.44.1''" "se_panel (sample_env cs) = 0" "se_gen (sample_env cs) = 1"
  "se_epoch (sample_env cs) = 0" "se_dims (sample_env cs) n = (80, 24)" "se_write_ok (sample_env cs) n"
  by (simp_all add: sample_env_def)

definition sample_hello :: hello where "sample_hello = hello_new (lit ''0.44.1'')"

lemma sample_hello_ok: "\<not> needs_replacement sample_hello (lit ''0.44.1'')"
  by code_simp

lemma sample_payloads: "payload_fits (HelloP sample_hello)" "payload_fits (Docker (lit ''h'') [])"
  by (simp_all add: sample_hello_def hello_new_def str_fits_def lit_def valid_utf8_ascii)




text \<open>A second Hello ends the session, and the reason is lost: the task sends the line that names the
  protocol violation and at once, since the session was not ended for a mismatch, the line that the
  connection closed; the panel keeps only the second.\<close>

theorem violation_note_lost:
  assumes "se_open se 0 = Process (map OutBytes cs @ [OutEnd])"
    and "concat cs = concat (map encode_packet (HelloP h # HelloP h2 # ps))"
    and "\<forall>p \<in> set (HelloP h # HelloP h2 # ps). payload_fits p"
    and "\<not> needs_replacement h (se_version se)"
    and "i = se_panel se" "i < length (a_panels a)" "a_panels_epoch a = se_epoch se"
  shows "\<exists>violation. (monitor_session se :: (('o, 'v) msg list \<times> session_outcome) option)
      = Some ([frame_msg se violation, frame_msg se (closed_note se)], SoNoData)
    \<and> pn_last_frame (a_panels (deliver ui [(t, frame_msg se violation), (t, frame_msg se (closed_note se))] a) ! i)
      = Some [closed_note se]"
proof -
  let ?s = "after_hello se :: ('o, 'v) session"
  have "sh_hello_seen (ss_shaken ?s)" by (simp add: after_hello_def)
  then obtain violation where v: "handshake_verdict se (HelloP h2) (ss_shaken ?s) = (EndSession violation False, ss_shaken ?s)"
    by (auto simp: handshake_verdict_def)
  have "over_payloads se 1 (told_first se) (map payload_canon (HelloP h2 # ps)) ?s
      = ?s\<lparr>ss_stdin := ss_stdin ?s @ fst (tell_size (se_dims se 2) (se_write_ok se 1) (told_first se)),
           ss_msgs := ss_msgs ?s @ [frame_msg se violation], ss_mismatched := False\<rparr>"
    by (auto simp: on_payload_split v Let_def)
  then have "(monitor_session se :: (('o, 'v) msg list \<times> session_outcome) option)
      = Some ([frame_msg se violation, frame_msg se (closed_note se)], SoNoData)"
    unfolding monitor_session_over [OF assms(1,2) list.distinct(2) assms(3)] list.map(2) [of _ "HelloP h"]
      payload_canon.simps(5) [of h] over_hello [OF assms(4)]
    by (simp add: close_session_def session_new_def after_hello_def closed_note_def)
  moreover have "pn_last_frame (a_panels (deliver ui [(t, frame_msg se violation), (t, frame_msg se (closed_note se))] a) ! i)
      = Some [closed_note se]"
    using assms(5-7)
    by (simp add: deliver_def frame_msg_def on_frame_def nth_opt_def with_panel_def show_last_frame_def show_frame_def show_body_def Let_def)
  ultimately show ?thesis by blast
qed

theorem violation_note_lost_witness:
  "let bs = encode_packet (HelloP sample_hello) @ encode_packet (HelloP sample_hello); se = sample_env [bs]
   in \<exists>violation. monitor_session se = Some ([frame_msg se violation, frame_msg se (closed_note se)]
        :: (unit, unit) msg list, SoNoData)
     \<and> pn_last_frame (a_panels (deliver (quiet_ui :: (unit, unit) ui)
          [(0, frame_msg se violation), (0, frame_msg se (closed_note se))] (sample_app [sample_panel])) ! 0)
        = Some [closed_note se]"
  unfolding Let_def
  by (rule violation_note_lost [where h = sample_hello and ?h2.0 = sample_hello and ps = "[]"
      and cs = "[encode_packet (HelloP sample_hello) @ encode_packet (HelloP sample_hello)]"])
    (use sample_payloads sample_hello_ok in \<open>simp_all del: payload_fits.simps\<close>)

section \<open>A line on standard error in the middle of a header\<close>

lemma read_bad_header:
  assumes "take 4 h \<noteq> MAGIC"
  shows "read_body dbg h st errbuf = (Failed (framing_lost dbg h (st_preamble st)), st\<lparr>st_preamble := None\<rparr>, errbuf)"
  using assms by (simp add: read_body_def)

lemma magic_shifted:
  assumes "k \<in> {1, 2, 3}"
  shows "take 4 (take HEADER_LEN (drop k (encode_packet p) @ later)) \<noteq> MAGIC"
  using assms by (auto simp: encode_packet_bytes MAGIC_def HEADER_LEN_def)

lemma encode_packet_length: "HEADER_LEN \<le> length (encode_packet p)"
  by (simp add: encode_packet_bytes MAGIC_def HEADER_LEN_def)

text \<open>A header begun before the line is lost with it; a header after the line is not.\<close>

lemma line_drops_header:
  assumes "0 < length pre" "length pre < HEADER_LEN" "HEADER_LEN \<le> length mid"
  shows "read_header coin (fresh [OutBytes pre, ErrLine l, OutBytes mid, OutEnd]) [] =
    (Got (take HEADER_LEN mid), (fresh [OutEnd])\<lparr>st_buf := drop HEADER_LEN mid\<rparr>, note_line l [])"
proof -
  have "select_header coin 0 [] (fresh [OutBytes pre, ErrLine l, OutBytes mid, OutEnd]) [] =
      select_header coin 1 [] ((fresh [ErrLine l, OutBytes mid, OutEnd])\<lparr>st_buf := pre\<rparr>) []"
    by (subst select_header.simps) (simp add: fresh_def HEADER_LEN_def)
  also have "\<dots> = select_header coin 2 [] (fresh [OutBytes mid, OutEnd]) (note_line l [])"
    using assms(2) by (subst select_header.simps) (simp add: fresh_def numeral_2_eq_2 not_le)
  also have "\<dots> = select_header coin 3 [] ((fresh [OutEnd])\<lparr>st_buf := mid\<rparr>) (note_line l [])"
    by (subst select_header.simps) (simp add: fresh_def HEADER_LEN_def numeral_3_eq_3 numeral_2_eq_2)
  also have "\<dots> = (Got (take HEADER_LEN mid), (fresh [OutEnd])\<lparr>st_buf := drop HEADER_LEN mid\<rparr>, note_line l [])"
    using assms(3) by (subst select_header.simps) (simp add: fresh_def)
  finally show ?thesis by (simp add: read_header_def fresh_def)
qed

lemma line_before_header:
  assumes "HEADER_LEN \<le> length (pre @ mid)"
  obtains st1 where "read_header coin (fresh [ErrLine l, OutBytes pre, OutBytes mid, OutEnd]) [] =
      (Got (take HEADER_LEN (pre @ mid)), st1, note_line l [])" "holds st1 (drop HEADER_LEN (pre @ mid))"
proof -
  let ?rest = "fresh (map OutBytes [pre, mid] @ [OutEnd])"
  have c: "concat [pre, mid] = pre @ mid" by simp
  have "HEADER_LEN \<le> length ([] @ pre @ mid)" using assms by simp
  from select_header_holds [OF holds_fresh [of "[pre, mid]", unfolded c] this, of coin 1 "note_line l []"]
  obtain st1 where st1: "select_header coin 1 [] ?rest (note_line l []) = (Got (take HEADER_LEN (pre @ mid)), st1, note_line l [])"
    "holds st1 (drop HEADER_LEN (pre @ mid))"
    unfolding append_Nil by blast
  have "select_header coin 0 [] (fresh [ErrLine l, OutBytes pre, OutBytes mid, OutEnd]) [] =
      select_header coin 1 [] ?rest (note_line l [])"
    by (subst select_header.simps) (simp add: fresh_def HEADER_LEN_def)
  then show thesis using that st1 by (simp add: read_header_def fresh_def)
qed

text \<open>C36: One line on standard error can cost a session. If it comes while a packet's header has arrived only in
  part (one, two or three of its bytes), the bytes read so far are lost with the read it
  interrupts: the packet, which arrives whole, is not delivered, and the session ends as one whose
  framing was lost. The same bytes with the same line before them are read as the packet they are.\<close>

theorem stderr_line_loses_header:
  assumes "payload_fits p" "k \<in> {1, 2, 3}" "k \<le> length later"
  shows "(\<exists>e st errs. io_kind e = InvalidData \<and>
      next_packet dbg coin (fresh [OutBytes (take k (encode_packet p)), ErrLine l,
          OutBytes (drop k (encode_packet p) @ later), OutEnd]) [] = (Failed e, st, errs))
    \<and> (\<exists>st errs. next_packet dbg coin (fresh [ErrLine l, OutBytes (take k (encode_packet p)),
          OutBytes (drop k (encode_packet p) @ later), OutEnd]) [] = (Got (Some (payload_canon p)), st, errs))"
proof
  let ?enc = "encode_packet p"
  have k: "length (take k ?enc) < HEADER_LEN" "0 < length (take k ?enc)" "k \<le> length ?enc"
    using assms(2) encode_packet_length [of p] by (auto simp: HEADER_LEN_def)
  have long: "HEADER_LEN \<le> length (drop k ?enc @ later)"
    using assms(3) encode_packet_length [of p] k(3) by simp
  show "\<exists>e st errs. io_kind e = InvalidData \<and>
      next_packet dbg coin (fresh [OutBytes (take k ?enc), ErrLine l, OutBytes (drop k ?enc @ later), OutEnd]) [] = (Failed e, st, errs)"
    using line_drops_header [OF k(2,1) long, of coin l] read_bad_header [OF magic_shifted [OF assms(2), of p later]]
    by (simp add: next_packet_def read_packet_def framing_lost_def)
  have c: "take k ?enc @ drop k ?enc @ later = ?enc @ later"
    by (simp only: append_assoc [symmetric] append_take_drop_id)
  have "HEADER_LEN \<le> length (take k ?enc @ drop k ?enc @ later)"
    using encode_packet_length [of p] unfolding c by simp
  from line_before_header [OF this, where coin = coin and l = l, unfolded c]
  obtain st1 where st1: "read_header coin (fresh [ErrLine l, OutBytes (take k ?enc), OutBytes (drop k ?enc @ later), OutEnd]) []
      = (Got (take HEADER_LEN (?enc @ later)), st1, note_line l [])" "holds st1 (drop HEADER_LEN (?enc @ later))"
    by blast
  then show "\<exists>st errs. next_packet dbg coin (fresh [ErrLine l, OutBytes (take k ?enc), OutBytes (drop k ?enc @ later), OutEnd]) []
      = (Got (Some (payload_canon p)), st, errs)"
    using read_body_holds [OF assms(1) st1(2), of dbg "note_line l []"]
    by (auto simp del: take_append simp: next_packet_def read_packet_def)
qed

theorem stderr_line_loses_header_witness:
  "let bs = encode_packet (Docker (lit ''h'') []); st = [OutBytes (take 2 bs), ErrLine (lit ''x''), OutBytes (drop 2 bs @ bs), OutEnd]
   in (\<exists>e st' errs. io_kind e = InvalidData \<and>
        next_packet (\<lambda>s. s) (\<lambda>_. True) (fresh st) [] = (Failed e, st', errs))"
  unfolding Let_def
  using stderr_line_loses_header [of "Docker (lit ''h'') []" 2 "encode_packet (Docker (lit ''h'') [])" "\<lambda>s. s" "\<lambda>_. True" "lit ''x''"]
    sample_payloads encode_packet_length [of "Docker (lit ''h'') []"]
  by (simp add: HEADER_LEN_def del: payload_fits.simps)

end
