(* ===== verification/Text_Chars.thy ===== *)
theory Text_Chars
  imports Text_Lines
begin

text \<open>
  A string as a sequence of characters: the part of \<open>str::chars\<close> the layout of the screen counts
  and cuts by.
\<close>

section \<open>Characters\<close>

text \<open>\<open>str::chars\<close>, a character as its bytes.\<close>

function chars :: "rstring \<Rightarrow> rstring list" where
  "chars [] = []"
| "chars (b # s) = (b # takeWhile utf8_cont s) # chars (dropWhile utf8_cont s)"
  by pat_completeness auto
termination
  by (relation "measure length") (auto simp: length_dropWhile_le le_imp_less_Suc)

definition char_count :: "rstring \<Rightarrow> nat" where
  "char_count s = length (chars s)"

lemma concat_chars [simp]: "concat (chars s) = s"
  by (induction s rule: chars.induct) simp_all

lemma chars_eq_Nil [simp]: "chars s = [] \<longleftrightarrow> s = []"
  by (cases s) simp_all

lemma char_count_eq_0 [simp]: "char_count s = 0 \<longleftrightarrow> s = []"
  by (simp add: char_count_def)

text \<open>A string that starts with a character, not with the rest of one.\<close>

definition whole :: "rstring \<Rightarrow> bool" where
  "whole s \<longleftrightarrow> s = [] \<or> \<not> utf8_cont (hd s)"

lemma whole_Nil [simp]: "whole []" by (simp add: whole_def)

lemma chars_cont_append: "whole t \<Longrightarrow> chars (s @ t) = chars s @ chars t"
proof (induction s rule: chars.induct)
  case (2 b s)
  have "takeWhile utf8_cont (s @ t) = takeWhile utf8_cont s"
    using 2(2) by (cases t) (auto simp: whole_def takeWhile_append takeWhile_eq_all_conv [THEN iffD2])
  moreover have "dropWhile utf8_cont (s @ t) = dropWhile utf8_cont s @ t"
    using 2(2) by (cases t) (auto simp: whole_def dropWhile_append)
  ultimately show ?case
    using 2 by simp
qed simp

lemma char_count_append: "whole t \<Longrightarrow> char_count (s @ t) = char_count s + char_count t"
  by (simp add: char_count_def chars_cont_append)

text \<open>Concatenating characters and splitting again gives them back.\<close>

definition is_char :: "rstring \<Rightarrow> bool" where
  "is_char c \<longleftrightarrow> c \<noteq> [] \<and> (\<forall>b \<in> set (tl c). utf8_cont b)"

lemma chars_single: "is_char c \<Longrightarrow> chars c = [c]"
  by (cases c) (auto simp: is_char_def takeWhile_eq_all_conv dropWhile_eq_Nil_conv)

lemma set_chars: "c \<in> set (chars s) \<Longrightarrow> is_char c"
  by (induction s rule: chars.induct) (auto simp: is_char_def dest: set_takeWhileD)

lemma whole_chars_tl: "c \<in> set (tl (chars s)) \<Longrightarrow> \<not> utf8_cont (hd c)"
proof (induction s rule: chars.induct)
  case (2 b s)
  let ?r = "dropWhile utf8_cont s"
  have h: "?r \<noteq> [] \<Longrightarrow> \<not> utf8_cont (hd ?r)" by (rule hd_dropWhile)
  show ?case
  proof (cases ?r)
    case (Cons x xs)
    have "c = x # takeWhile utf8_cont xs \<or> c \<in> set (tl (chars ?r))"
      using 2(2) Cons by simp
    then show ?thesis using 2(1) h Cons by (metis hd_conv_nth list.sel(1) neq_Nil_conv)
  next
    case Nil
    then show ?thesis using 2(2) by (auto simp: dropWhile_eq_Nil_conv [THEN iffD2])
  qed
qed simp

lemma chars_concat:
  "\<forall>c \<in> set cs. is_char c \<Longrightarrow> \<forall>c \<in> set (tl cs). \<not> utf8_cont (hd c) \<Longrightarrow> chars (concat cs) = cs"
proof (induction cs)
  case (Cons c cs)
  have w: "whole (concat cs)"
    using Cons.prems by (cases cs) (auto simp: whole_def is_char_def)
  have "\<forall>c \<in> set (tl cs). \<not> utf8_cont (hd c)"
    using Cons.prems by (cases cs) auto
  then show ?case
    using Cons w by (simp add: chars_cont_append chars_single)
qed simp

lemma chars_concat_drop: "chars (concat (drop n (chars s))) = drop n (chars s)"
proof (rule chars_concat)
  show "\<forall>c \<in> set (drop n (chars s)). is_char c"
    by (auto dest: in_set_dropD set_chars)
  show "\<forall>c \<in> set (tl (drop n (chars s))). \<not> utf8_cont (hd c)"
    using whole_chars_tl [of _ s] by (metis drop_Suc in_set_dropD tl_drop)
qed

end
