(* ===== verification/Text_Layout.thy ===== *)
theory Text_Layout
  imports Text_Chars Panel_Model App_Views
begin

text \<open>
  Fitting text into a width (crates/multitop/src/layout.rs and the fullwidth mapping of
  crates/agent/src/fmt.rs): rows of labels that are kept whole or dropped, columns that share a
  width, host names that are cut from the left, prose that is wrapped.
\<close>

section \<open>A row of labels\<close>

definition row_width :: "nat list \<Rightarrow> nat \<Rightarrow> bool list \<Rightarrow> nat" where
  "row_width widths sep kept =
     sum_list (map fst (filter snd (zip widths kept))) + sep * (length (filter id kept) - 1)"

fun shed_labels :: "nat list \<Rightarrow> nat \<Rightarrow> nat \<Rightarrow> nat list \<Rightarrow> bool list \<Rightarrow> bool list" where
  "shed_labels widths sep budget [] kept = kept"
| "shed_labels widths sep budget (i # shed) kept =
     (if row_width widths sep kept \<le> budget then kept
      else shed_labels widths sep budget shed (kept[i := False]))"

definition fit_row :: "nat list \<Rightarrow> nat \<Rightarrow> nat \<Rightarrow> nat list \<Rightarrow> nat list" where
  "fit_row widths sep budget shed =
     (let kept = shed_labels widths sep budget shed (replicate (length widths) True)
      in filter (\<lambda>i. kept ! i) [0..<length widths])"

section \<open>Columns that share a width\<close>

text \<open>One round over the cells that still want more; each takes at most its share.\<close>

fun feed_cell :: "nat list \<Rightarrow> nat \<Rightarrow> nat \<Rightarrow> nat list \<times> nat \<Rightarrow> (nat list \<times> nat) \<times> bool" where
  "feed_cell want share i (out, pool) =
     (if pool = 0 then ((out, pool), True)
      else let need = want ! i - out ! i;
               give = min (min share need) pool;
               out = out[i := out ! i + give]
           in ((out, pool - give), out ! i < want ! i))"

fun feed_round :: "nat list \<Rightarrow> nat \<Rightarrow> nat list \<Rightarrow> nat list \<times> nat \<Rightarrow> nat list \<Rightarrow> nat list \<times> nat \<times> nat list" where
  "feed_round want share [] st still = (fst st, snd st, still)"
| "feed_round want share (i # hungry) st still =
     (let (st, wants) = feed_cell want share i st
      in feed_round want share hungry st (if wants then still @ [i] else still))"

lemma feed_cell_cases:
  obtains (none) "pool = 0" "feed_cell want share i (out, pool) = ((out, pool), True)"
  | (give) n where "0 < pool" "n = min (min share (want ! i - out ! i)) pool"
      "feed_cell want share i (out, pool) =
         ((out[i := out ! i + n], pool - n), out[i := out ! i + n] ! i < want ! i)"
  by (cases "pool = 0") (simp_all add: Let_def)

declare feed_cell.simps [simp del]

lemma feed_round_grows:
  "feed_round want share hungry (out, pool) still = (out', pool', still') \<Longrightarrow>
     pool' \<le> pool \<and> length still' \<le> length still + length hungry"
proof (induction hungry arbitrary: out pool still)
  case (Cons i hungry)
  obtain out1 pool1 w where c: "feed_cell want share i (out, pool) = ((out1, pool1), w)"
    by (metis prod.exhaust)
  have "pool1 \<le> pool"
    by (cases rule: feed_cell_cases [of pool want share i out]) (use c in auto)
  then show ?case
    using Cons.IH [of out1 pool1 "if w then still @ [i] else still"] Cons.prems c
    by (cases w) simp_all
qed simp

text \<open>A round that gave nothing away leaves nobody wanting.\<close>

lemma feed_round_progress:
  assumes "0 < share" "0 < pool" "feed_round want share hungry (out, pool) still = (out', pool, still')"
  shows "still' = still"
  using assms(2,3)
proof (induction hungry arbitrary: out still)
  case (Cons i hungry)
  obtain out1 pool1 w where c: "feed_cell want share i (out, pool) = ((out1, pool1), w)"
    by (metis prod.exhaust)
  then have r: "feed_round want share hungry (out1, pool1) (if w then still @ [i] else still) = (out', pool, still')"
    using Cons.prems(2) by simp
  have "pool \<le> pool1" using feed_round_grows [OF r] by simp
  then have "\<not> w \<and> pool1 = pool"
    by (cases rule: feed_cell_cases [of pool want share i out])
      (use c assms(1) Cons.prems(1) in \<open>auto simp: nth_list_update min_def split: if_splits\<close>)
  then show ?case using Cons.IH [of out1 still] Cons.prems(1) r by simp
qed simp

function share_loop :: "nat list \<Rightarrow> nat list \<Rightarrow> nat \<Rightarrow> nat list \<Rightarrow> nat list" where
  "share_loop want out pool hungry =
     (if pool = 0 \<or> hungry = [] then out
      else let share = max (pool div length hungry) 1;
               (out', pool', still) = feed_round want share hungry (out, pool) []
           in if length still = length hungry \<and> share = 1 \<and> pool' = 0 then out'
              else share_loop want out' pool' still)"
  by pat_completeness auto
termination
proof (relation "measures [\<lambda>(want, out, pool, hungry). pool, \<lambda>(want, out, pool, hungry). length hungry]")
  show "wf (measures [\<lambda>(want, out, pool, hungry). pool, \<lambda>(want, out, pool, hungry). length hungry])"
    by (rule wf_measures)
next
  fix want out :: "nat list" and pool :: nat and hungry :: "nat list" and share and r and out' and r' and pool' still
  assume a: "\<not> (pool = 0 \<or> hungry = [])" "share = max (pool div length hungry) 1"
    "r = feed_round want share hungry (out, pool) []" "(out', r') = r" "(pool', still) = r'"
  then have f: "feed_round want share hungry (out, pool) [] = (out', pool', still)" by simp
  show "((want, out', pool', still), want, out, pool, hungry) \<in>
      measures [\<lambda>(want, out, pool, hungry). pool, \<lambda>(want, out, pool, hungry). length hungry]"
  proof (cases "pool' = pool")
    case True
    then have "still = []"
      using feed_round_progress [of share pool want hungry out "[]" out' still] f a(1,2) by simp
    then show ?thesis using True a(1) by simp
  next
    case False
    then show ?thesis using feed_round_grows [OF f] by simp
  qed
qed

declare share_loop.simps [simp del]

definition share_width :: "nat \<Rightarrow> nat list \<Rightarrow> nat list \<Rightarrow> nat \<Rightarrow> nat list" where
  "share_width fixed flex_min flex_want budget =
     (if flex_min = [] then []
      else if budget < fixed + sum_list flex_min then flex_min
      else share_loop flex_want flex_min (budget - (fixed + sum_list flex_min))
             (filter (\<lambda>i. flex_min ! i < flex_want ! i) [0..<length flex_min]))"

section \<open>Host names\<close>

definition banner_as_str :: "banner_style \<Rightarrow> rstring" where
  "banner_as_str b = (case b of Plain \<Rightarrow> lit ''plain'' | Wide \<Rightarrow> lit ''wide'')"

definition banner_parse :: "rstring \<Rightarrow> banner_style" where
  "banner_parse s = (if map ascii_lower s = lit ''wide'' then Wide else Plain)"

definition fit_banner :: "rstring \<Rightarrow> rstring \<Rightarrow> nat \<Rightarrow> rstring" where
  "fit_banner user host budget =
     (let full = user @ lit ''@'' @ host;
          named = (user \<noteq> [] \<and> map ascii_lower user \<noteq> lit ''default'')
      in if budget = 0 then []
         else if named \<and> char_count full \<le> budget then full
         else if char_count host \<le> budget then host
         else if budget = 1 then (if host = [] then [] else last (chars host))
         else ELLIPSIS @ concat (drop (char_count host - (budget - 1)) (chars host)))"

text \<open>U+0021 to U+007E, one byte each, become U+FF01 to U+FF5E.\<close>

definition fullwidth_char :: "rstring \<Rightarrow> rstring" where
  "fullwidth_char c =
     (case c of
        [b] \<Rightarrow> if 0x21 \<le> b \<and> b \<le> 0x7E
               then (if b < 0x60 then [0xEF, 0xBC, b + 0x60] else [0xEF, 0xBD, b + 0x20])
               else c
      | _ \<Rightarrow> c)"

definition fullwidth :: "rstring \<Rightarrow> rstring" where
  "fullwidth s = concat (map fullwidth_char (chars s))"

definition fullwidth_display_width :: "rstring \<Rightarrow> nat" where
  "fullwidth_display_width s =
     sum_list (map (\<lambda>c. case c of [b] \<Rightarrow> if 0x21 \<le> b \<and> b \<le> 0x7E then 2 else 1 | _ \<Rightarrow> 1) (chars s))"

definition fit_banner_styled :: "rstring \<Rightarrow> rstring \<Rightarrow> nat \<Rightarrow> banner_style \<Rightarrow> rstring \<times> nat" where
  "fit_banner_styled user host budget style =
     (if style = Wide \<and> 2 \<le> budget then
        (let plain = fit_banner user host (budget div 2)
         in (fullwidth plain, fullwidth_display_width plain))
      else let plain = fit_banner user host budget in (plain, char_count plain))"

section \<open>Prose\<close>

fun wrap_step :: "nat \<Rightarrow> rstring list \<times> rstring \<Rightarrow> rstring \<Rightarrow> rstring list \<times> rstring" where
  "wrap_step width (out, line) word =
     (let extra = (if line = [] then char_count word else char_count word + 1);
          (out, line) = (if line \<noteq> [] \<and> width < char_count line + extra then (out @ [line], []) else (out, line));
          line = (if line \<noteq> [] then line @ lit '' '' else line)
      in (out, line @ word))"

definition wrap_words :: "rstring \<Rightarrow> nat \<Rightarrow> rstring list" where
  "wrap_words t width =
     (if width = 0 then []
      else let (out, line) = foldl (wrap_step width) ([], []) (split_whitespace t)
           in if line \<noteq> [] then out @ [line] else out)"

end
