(* ===== verification/Upgrade_View.thy ===== *)
theory Upgrade_View
  imports Upgrade_Read
begin

text \<open>
  What the Upgrade pane says before anything runs (crates/multitop/src/upgrade_view/prod.rs and
  upgradable.rs, and \<open>spawn_upgradable_check\<close> of tasks/upgrade.rs): the status header, composed
  from the host's record, its credential and whether a run is in flight, and the summary of
  \<open>apt list --upgradable\<close>.
\<close>

definition MIDDLE_DOT :: rstring where "MIDDLE_DOT = [0xC2, 0xB7]"

section \<open>Times\<close>

definition fmt_duration :: "u64 \<Rightarrow> rstring" where
  "fmt_duration secs =
     (let s = unat secs
      in if s \<le> 59 then show_nat s @ lit ''s''
         else if s \<le> 3599 then show_nat (s div 60) @ lit ''m '' @ show_nat (s mod 60) @ lit ''s''
         else show_nat (s div 3600) @ lit ''h '' @ show_nat (s mod 3600 div 60) @ lit ''m'')"

definition plural :: "nat \<Rightarrow> rstring" where
  "plural n = (if n = 1 then [] else lit ''s'')"

definition fmt_ago :: "u64 \<Rightarrow> u64 \<Rightarrow> rstring" where
  "fmt_ago past now =
     (if past > now then lit ''in the future''
      else let d = unat (now - past)
           in if d \<le> 59 then lit ''just now''
              else if d \<le> 3599 then show_nat (d div 60) @ lit '' min ago''
              else if d \<le> 86399 then
                (let h = d div 3600 in show_nat h @ lit '' hour'' @ plural h @ lit '' ago'')
              else (let n = d div 86400 in show_nat n @ lit '' day'' @ plural n @ lit '' ago''))"

section \<open>The status header\<close>

record status =
  us_server :: server
  us_record :: host_update
  us_credential :: credential
  us_running :: bool
  us_upgradable :: "rstring option"

datatype host_state = HsRunning | HsNotConfigured | HsLast run_outcome

definition host_state_of :: "status \<Rightarrow> host_state" where
  "host_state_of s =
     (if us_running s then HsRunning
      else if sv_upgrade_cmd (us_server s) = None then HsNotConfigured
      else HsLast (run_outcome (us_record s)))"

definition badge :: "status \<Rightarrow> rstring" where
  "badge s =
     (case host_state_of s of
        HsRunning \<Rightarrow> lit ''running''
      | HsNotConfigured \<Rightarrow> lit ''not configured''
      | HsLast RanInterrupted \<Rightarrow> lit ''interrupted''
      | HsLast RanFailed \<Rightarrow> lit ''last run failed''
      | HsLast _ \<Rightarrow> lit ''ready'')"

definition label :: "palette \<Rightarrow> string \<Rightarrow> rstring" where
  "label pal t = pal_muted pal @ lit t @ pal_reset pal"

definition badge_color :: "palette \<Rightarrow> status \<Rightarrow> rstring" where
  "badge_color pal s =
     (case host_state_of s of
        HsRunning \<Rightarrow> pal_meter_mid pal
      | HsNotConfigured \<Rightarrow> pal_muted pal
      | HsLast RanFailed \<Rightarrow> pal_meter_high pal
      | HsLast RanInterrupted \<Rightarrow> pal_meter_high pal
      | HsLast _ \<Rightarrow> pal_meter_low pal)"

definition or_empty :: "('a \<Rightarrow> rstring) \<Rightarrow> 'a option \<Rightarrow> rstring" where
  "or_empty f x = (case x of None \<Rightarrow> [] | Some y \<Rightarrow> f y)"

definition finished_run_text :: "palette \<Rightarrow> u64 \<Rightarrow> status \<Rightarrow> rstring" where
  "finished_run_text pal now s =
     (let r = us_record s;
          ended = (\<lambda>verdict.
            or_empty (\<lambda>t. fmt_ago t now) (hu_finished_at r) @ lit '' '' @ MIDDLE_DOT @ lit '' '' @ verdict
              @ or_empty (\<lambda>d. lit '' ('' @ fmt_duration d @ lit '')'') (duration_secs r))
      in case run_outcome r of
           NeverRan \<Rightarrow> pal_muted pal @ lit ''never'' @ pal_reset pal
         | RanInterrupted \<Rightarrow>
             or_empty (\<lambda>t. fmt_ago t now @ lit '' '' @ MIDDLE_DOT @ lit '' '') (hu_started_at r)
               @ pal_meter_high pal @ lit ''interrupted'' @ pal_reset pal
         | RanOk \<Rightarrow> ended (pal_meter_low pal @ lit ''ok'' @ pal_reset pal)
         | RanFailed \<Rightarrow> ended (pal_meter_high pal @ lit ''failed'' @ pal_reset pal))"

definition last_run_text :: "palette \<Rightarrow> u64 \<Rightarrow> status \<Rightarrow> rstring" where
  "last_run_text pal now s =
     (case host_state_of s of
        HsRunning \<Rightarrow>
          (case hu_started_at (us_record s) of None \<Rightarrow> lit ''just now'' | Some t \<Rightarrow> fmt_ago t now)
            @ lit '' '' @ MIDDLE_DOT @ lit '' '' @ pal_meter_mid pal @ lit ''in progress'' @ pal_reset pal
      | _ \<Rightarrow> finished_run_text pal now s)"

definition next_action :: "palette \<Rightarrow> status \<Rightarrow> rstring list" where
  "next_action pal s =
     (case host_state_of s of
        HsRunning \<Rightarrow>
          [pal_meter_mid pal @ RIGHT_ARROW @ lit '' running '' @ EM_DASH @ lit '' do not quit'' @ pal_reset pal]
      | HsNotConfigured \<Rightarrow>
          [pal_meter_high pal @ WARNING_SIGN @ lit '' no upgrade_cmd '' @ EM_DASH
             @ lit '' host is skipped'' @ pal_reset pal,
           pal_muted pal @ lit ''  set upgrade_cmd in config.toml'' @ pal_reset pal]
      | HsLast last_run \<Rightarrow>
          (if last_run = RanInterrupted
           then [pal_meter_high pal @ WARNING_SIGN @ lit '' last run never finished '' @ EM_DASH
                   @ lit '' check host'' @ pal_reset pal]
           else [])
          @ [pal_meter_mid pal @ RIGHT_ARROW @ lit '' u to run '' @ MIDDLE_DOT @ lit '' s to go back''
               @ pal_reset pal])"

definition credential_text :: "palette \<Rightarrow> credential \<Rightarrow> rstring" where
  "credential_text pal c =
     (case c of
        Stored \<Rightarrow> pal_meter_low pal @ lit ''password stored'' @ pal_reset pal
      | Session \<Rightarrow> pal_reset pal @ lit ''set for this session'' @ pal_reset pal
      | Checking \<Rightarrow> pal_muted pal @ lit ''checking keychain '' @ MIDDLE_DOT @ lit '' not started'' @ pal_reset pal
      | Missing \<Rightarrow> pal_meter_high pal @ lit ''will prompt '' @ MIDDLE_DOT @ lit '' '' @ SETTINGS_KEY
                     @ lit '' to save'' @ pal_reset pal
      | MissingNoVault \<Rightarrow> pal_meter_high pal @ lit ''will prompt '' @ MIDDLE_DOT @ lit '' no vault'' @ pal_reset pal
      | CredVaultLocked \<Rightarrow> pal_reset pal @ lit ''vault '' @ MIDDLE_DOT @ lit '' unlocks on run'' @ pal_reset pal)"

definition UPGRADE_RULE_MIN_WIDTH :: nat where "UPGRADE_RULE_MIN_WIDTH = 20"

text \<open>The first line is the banner's: the frame writes over it.\<close>

definition header :: "palette \<Rightarrow> u64 \<Rightarrow> nat \<Rightarrow> status \<Rightarrow> rstring list" where
  "header pal now width s =
     [[], label pal ''Status   '' @ lit ''  '' @ badge_color pal s @ badge s @ pal_reset pal,
      label pal ''Command  '' @ lit ''  ''
        @ (case sv_upgrade_cmd (us_server s) of
             Some cmd \<Rightarrow> cmd @ pal_reset pal
           | None \<Rightarrow> pal_muted pal @ lit ''(none)'' @ pal_reset pal)]
     @ (case us_upgradable s of
          Some pkgs \<Rightarrow> [label pal ''Packages '' @ lit ''  '' @ pkgs @ pal_reset pal] | None \<Rightarrow> [])
     @ [label pal ''Last run '' @ lit ''  '' @ last_run_text pal now s]
     @ (if sv_upgrade_cmd (us_server s) \<noteq> None
        then [label pal ''Sudo     '' @ lit ''  '' @ credential_text pal (us_credential s)] else [])
     @ [[]] @ next_action pal s
     @ (if UPGRADE_RULE_MIN_WIDTH \<le> width
        then [pal_muted pal @ concat (replicate width HORIZONTAL_BAR) @ pal_reset pal] else [])"

text \<open>\<open>App::upgrade_pane_header\<close>\<close>

definition upgrade_pane_header :: "u64 \<Rightarrow> ('o, 'v) app \<Rightarrow> nat \<Rightarrow> rstring list" where
  "upgrade_pane_header now a i =
     (case nth_opt (a_panels a) i of
        None \<Rightarrow> []
      | Some p \<Rightarrow>
          header (a_palette a) now 0
            \<lparr>us_server = pn_server p, us_record = host_update_of a i, us_credential = credential_of a p,
             us_running = (pn_upgrade_state p = UStarted), us_upgradable = pn_upgradable p\<rparr>)"

section \<open>What apt would upgrade\<close>

fun find_sub :: "'a list \<Rightarrow> 'a list \<Rightarrow> nat option" where
  "find_sub p [] = (if p = [] then Some 0 else None)"
| "find_sub p (x # xs) = (if starts_with (x # xs) p then Some 0 else map_option Suc (find_sub p xs))"

definition short_version :: "rstring \<Rightarrow> rstring" where
  "short_version ver =
     (let clean = dropWhile (\<lambda>b. digit_of b = None) ver
      in case split_at_byte 0x2E clean of
           major # minor # _ \<Rightarrow> major @ lit ''.'' @ hd (split_at_byte 0x2D minor)
         | _ \<Rightarrow> clean)"

record package_tally =
  pt_packages :: nat
  pt_held :: nat
  pt_kernel_held :: bool
  pt_kernel_diff :: "(rstring \<times> rstring) option"

definition kernel_package :: "rstring \<Rightarrow> bool" where
  "kernel_package n \<longleftrightarrow> starts_with n (lit ''linux-image'') \<or> starts_with n (lit ''linux-generic'')
     \<or> starts_with n (lit ''linux-modules'')"

text \<open>The old and the new version of a package line, shortened, when both can be read.\<close>

definition version_diff :: "rstring \<Rightarrow> (rstring \<times> rstring) option" where
  "version_diff line =
     (case find_sub (lit ''[upgradable from:'') line of
        None \<Rightarrow> None
      | Some pos \<Rightarrow>
          (let rest = drop (pos + 17) line
           in case position (\<lambda>b. b = 0x5D) rest of
                None \<Rightarrow> None
              | Some end \<Rightarrow>
                  (case split_whitespace (trim (take pos line)) of
                     _ # new_ver # _ \<Rightarrow>
                       (let short_old = short_version (trim (take end rest)); short_new = short_version new_ver
                        in if short_old \<noteq> [] \<and> short_new \<noteq> [] then Some (short_old, short_new) else None)
                   | _ \<Rightarrow> None)))"

definition tally_line :: "package_tally \<Rightarrow> rstring \<Rightarrow> package_tally" where
  "tally_line t line =
     (if starts_with line (lit ''Listing...'') \<or> starts_with line (lit ''WARNING:'') then t
      else if contains line (lit ''[upgradable from:'') \<or> 0x2F \<in> set line then
        (let is_held = contains line (lit ''[held]'') \<or> contains line (lit ''held'');
             t = t\<lparr>pt_packages := pt_packages t + 1,
                   pt_held := (if is_held then pt_held t + 1 else pt_held t)\<rparr>
         in if kernel_package (hd (split_at_byte 0x2F line)) then
              t\<lparr>pt_kernel_held := pt_kernel_held t \<or> is_held,
                pt_kernel_diff := (case version_diff line of None \<Rightarrow> pt_kernel_diff t | Some d \<Rightarrow> Some d)\<rparr>
            else t)
      else t)"

definition tally_new :: package_tally where
  "tally_new = \<lparr>pt_packages = 0, pt_held = 0, pt_kernel_held = False, pt_kernel_diff = None\<rparr>"

definition up_to_date :: rstring where "up_to_date = lit ''0 pkgs (up to date)''"

definition tally_note :: "package_tally \<Rightarrow> rstring option" where
  "tally_note t =
     (case pt_kernel_diff t of
        Some (old_v, new_v) \<Rightarrow>
          Some (lit ''kernel '' @ old_v @ RIGHT_ARROW @ new_v
                  @ (if pt_kernel_held t then lit '' held'' else []))
      | None \<Rightarrow>
          if pt_kernel_held t then Some (lit ''kernel held'')
          else if 0 < pt_held t then Some (show_nat (pt_held t) @ lit '' held'') else None)"

definition tally_summary :: "package_tally \<Rightarrow> rstring" where
  "tally_summary t =
     (if pt_packages t = 0 then up_to_date
      else show_nat (pt_packages t) @ lit '' pkg'' @ plural (pt_packages t)
             @ or_empty (\<lambda>n. lit '' ('' @ n @ lit '')'') (tally_note t))"

definition parse_upgradable_output :: "rstring \<Rightarrow> rstring option" where
  "parse_upgradable_output output =
     (let ls = filter (\<lambda>l. l \<noteq> []) (map trim (str_lines output))
      in if ls = [] then Some up_to_date else Some (tally_summary (foldl tally_line tally_new ls)))"

section \<open>The check\<close>

definition UPGRADABLE_CHECK_MAX_OUTPUT_BYTES :: nat where "UPGRADABLE_CHECK_MAX_OUTPUT_BYTES = 65536"

definition upgradable_request :: "dims \<Rightarrow> exec_frame" where
  "upgradable_request dm =
     Request (lit ''PAGER=cat DEBIAN_FRONTEND=noninteractive apt list --upgradable 2>/dev/null || true'')
       None False (fst dm) (snd dm)"

text \<open>What one packet adds to the output, and whether the reading is over.\<close>

definition collect_payload :: "payload option \<Rightarrow> rstring \<Rightarrow> bool \<times> rstring" where
  "collect_payload pl out =
     (case pl of
        Some (Exec (Out Stdout sq bs)) \<Rightarrow>
          (let out = out @ utf8_lossy bs in (UPGRADABLE_CHECK_MAX_OUTPUT_BYTES < length out, out))
      | Some (Exec (Exit code signalled)) \<Rightarrow> (True, out)
      | _ \<Rightarrow> (False, out))"

function collect_output :: "stream_end \<Rightarrow> bytes \<Rightarrow> rstring \<Rightarrow> rstring option" where
  "collect_output e bs out =
     (if length bs < HEADER_LEN then Some out
      else if take 4 bs \<noteq> MAGIC then Some out
      else if length bs < HEADER_LEN + packet_len bs then
        (case e of Silent \<Rightarrow> None | Closed \<Rightarrow> Some out)
      else (let n = HEADER_LEN + packet_len bs; (ended, out) = collect_payload (decode_packet (take n bs)) out
            in if ended then Some out else collect_output e (drop n bs) out))"
  by pat_completeness auto
termination
  by (relation "measure (\<lambda>(e, bs, out). length bs)") (auto simp: HEADER_LEN_def)

declare collect_output.simps [simp del]

definition spawn_upgradable_check ::
  "nat \<Rightarrow> u64 \<Rightarrow> (exec_frame \<Rightarrow> started) \<Rightarrow> dims \<Rightarrow> ('o, 'v) msg list option" where
  "spawn_upgradable_check i g start dm =
     (case start (upgradable_request dm) of
        NotStarted _ \<Rightarrow> Some []
      | StartedWith bs e errs \<Rightarrow>
          map_option (\<lambda>out. case parse_upgradable_output out of
                              Some summary \<Rightarrow> [UpgradableReceived i g summary] | None \<Rightarrow> [])
            (collect_output e bs []))"

end
