(* ===== verification/Pane_Window.thy ===== *)
theory Pane_Window
  imports Text_Layout Escape Upgrade_View
begin

text \<open>
  What a pane shows (crates/multitop/src/ui/windowing.rs and refit.rs): the window over a panel's
  lines, the notices above and below them, the status row of a run, and the header and rules that
  are drawn again at the pane's own width. The palette that \<open>palette_store\<close> publishes is the one
  of the application's theme.
\<close>

section \<open>Lines drawn again at another width\<close>

definition is_fullwidth :: "rstring \<Rightarrow> bool" where
  "is_fullwidth c =
     (case c of
        [a, b, d] \<Rightarrow> a = 0xEF \<and> (b = 0xBC \<and> 0x81 \<le> d \<and> d \<le> 0xBF \<or> b = 0xBD \<and> 0x80 \<le> d \<and> d \<le> 0x9E)
      | _ \<Rightarrow> False)"

definition refit_header :: "palette \<Rightarrow> rstring \<Rightarrow> nat \<Rightarrow> rstring option" where
  "refit_header pal line cols =
     (if HORIZONTAL_BAR \<notin> set (chars line) then None
      else let fw = trim (concat (filter (\<lambda>c. is_fullwidth c \<or> c = lit '' '') (chars line)))
           in if fw = [] then None
              else let disp_w = sum_list (map (\<lambda>c. if is_fullwidth c then 2 else 1) (chars fw));
                       title = pal_primary pal @ pal_bold pal @ fw @ pal_reset pal;
                       need = disp_w + 2
                   in if cols < need then Some title
                      else let rem = cols - need;
                               rule = (\<lambda>n. pal_secondary pal @ concat (replicate n HORIZONTAL_BAR) @ pal_reset pal)
                           in Some (rule (rem div 2) @ lit '' '' @ title @ lit '' '' @ rule (rem - rem div 2)))"

definition refit_line :: "'p vte \<Rightarrow> palette \<Rightarrow> rstring \<Rightarrow> nat \<Rightarrow> rstring" where
  "refit_line v pal line cols =
     (if cols = 0 then line
      else case refit_header pal line cols of
             Some h \<Rightarrow> h
           | None \<Rightarrow>
               (let trimmed = trim (strip v line)
                in if trimmed \<noteq> [] \<and> list_all (\<lambda>c. c = HORIZONTAL_BAR) (chars trimmed)
                   then lit '' '' @ pal_secondary pal @ concat (replicate (cols - 2) HORIZONTAL_BAR) @ pal_reset pal
                   else line))"

section \<open>The window\<close>

text \<open>How many lines are pinned, the first and the end of the window, and the offset in effect.\<close>

definition pane_window :: "nat \<Rightarrow> nat \<Rightarrow> nat \<Rightarrow> nat \<Rightarrow> nat \<times> nat \<times> nat \<times> nat" where
  "pane_window rows height pinned scroll =
     (let pinned = min (min (min pinned rows) (max (height div 2) 1)) (height - 1);
          body_budget = height - max pinned 1
      in if 0 < pinned \<and> pinned < rows then
           (let body_len = rows - pinned;
                eff = min scroll (body_len - body_budget);
                end = body_len - eff;
                start = end - body_budget
            in (pinned, pinned + start, pinned + end, eff))
         else
           (let eff = min scroll (rows - height); end = rows - eff; start = end - height
            in (0, start, end, eff)))"

definition span :: "nat \<Rightarrow> nat \<Rightarrow> 'a list \<Rightarrow> 'a list" where
  "span a b xs = take (b - a) (drop a xs)"

definition fit_lines :: "'p vte \<Rightarrow> palette \<Rightarrow> nat \<Rightarrow> rstring list \<Rightarrow> rstring list" where
  "fit_lines v pal cols ls = (if 0 < cols then map (\<lambda>l. refit_line v pal l cols) ls else ls)"

definition visible :: "'p vte \<Rightarrow> palette \<Rightarrow> rstring list \<Rightarrow> nat \<Rightarrow> nat \<Rightarrow> nat \<Rightarrow> nat \<Rightarrow> rstring list \<times> nat" where
  "visible v pal lines height pinned cols scroll =
     (if height = 0 \<or> lines = [] then ([], 0)
      else let (pinned, start, end, badge) = pane_window (length lines) height pinned scroll
           in (fit_lines v pal cols (take pinned lines @ span start end lines), badge))"

text \<open>The same window over three sources, of which the middle one is not copied.\<close>

definition visible_upgrade ::
  "'p vte \<Rightarrow> palette \<Rightarrow> rstring list \<Rightarrow> nat \<Rightarrow> rstring ring_lines \<Rightarrow> rstring list \<Rightarrow> nat \<Rightarrow> nat \<Rightarrow> nat
     \<Rightarrow> rstring list \<times> nat" where
  "visible_upgrade v pal block pinned lg tail height cols scroll =
     (let rows = length block + length (slots lg) + length tail
      in if height = 0 \<or> rows = 0 then ([], 0)
         else let (pinned, start, end, badge) = pane_window rows height pinned scroll;
                  header_end = length block;
                  body_end = header_end + length (slots lg);
                  h_hi = min end header_end;
                  b_lo = min (max start header_end) body_end;
                  b_hi = min end body_end;
                  t_lo = max start body_end
              in (fit_lines v pal cols
                    (take pinned block
                     @ (if start < h_hi then span start h_hi block else [])
                     @ (if b_lo < b_hi then ring_slice (b_lo - header_end) (b_hi - b_lo) lg else [])
                     @ (if t_lo < end then span (t_lo - body_end) (end - body_end) tail else [])),
                  badge))"

section \<open>Notices\<close>

text \<open>How many of the newest blocks fit into a budget, whole ones only.\<close>

fun newest_fit :: "nat \<Rightarrow> nat \<Rightarrow> 'a list list \<Rightarrow> nat" where
  "newest_fit budget used [] = 0"
| "newest_fit budget used (b # bs) =
     (if budget < used + length b then 0 else Suc (newest_fit budget (used + length b) bs))"

definition earlier_notices :: "nat \<Rightarrow> rstring" where
  "earlier_notices n = ELLIPSIS @ lit '' '' @ show_nat n @ lit '' earlier notice'' @ plural n @ lit '' above''"

text \<open>The notices held back above the content, and those shown below it.\<close>

definition notice_split :: "rstring list \<Rightarrow> nat \<Rightarrow> nat \<Rightarrow> rstring list \<times> rstring list" where
  "notice_split notes cols height =
     (if notes = [] \<or> cols = 0 then ([], [])
      else let wrapped = map (\<lambda>n. wrap_words n cols) notes;
               budget = max (height div 2) 1
           in if newest_fit budget 0 (rev wrapped) = length wrapped then ([], concat wrapped)
              else let hidden = length wrapped - newest_fit (budget - 1) 0 (rev wrapped)
                   in (concat (take hidden wrapped),
                       wrap_words (earlier_notices hidden) cols @ concat (drop hidden wrapped)))"

section \<open>A panel's pane\<close>

definition ORDINARY_PINNED :: nat where "ORDINARY_PINNED = 1"

definition pane_body ::
  "'p vte \<Rightarrow> u64 \<Rightarrow> ('o, 'v) app \<Rightarrow> 'o panel \<Rightarrow> nat \<Rightarrow> nat \<Rightarrow> nat \<Rightarrow> nat \<Rightarrow> rstring list \<times> nat" where
  "pane_body v now a p i height cols scroll =
     (let (held, shown) = notice_split (pn_notes p) cols height
      in if pn_mode p = MUpgrade then
           (let block = upgrade_pane_header now a i
            in visible_upgrade v (a_palette a) (block @ held) (length block) (pn_last_upgrade p) shown
                 height cols scroll)
         else if held = [] \<and> shown = [] then
           visible v (a_palette a) (pn_view p) height ORDINARY_PINNED cols scroll
         else
           visible v (a_palette a) (take 1 (pn_view p) @ held @ drop 1 (pn_view p) @ shown)
             height ORDINARY_PINNED cols scroll)"

text \<open>The status row a run pinned, if the run that drew it is the one the pane shows.\<close>

definition pane_status :: "'o panel \<Rightarrow> rstring option" where
  "pane_status p =
     (if pn_mode p = MUpgrade then
        (case pn_upgrade_status p of Some (g, s) \<Rightarrow> if g = pn_upgrade_gen p then Some s else None | None \<Rightarrow> None)
      else (case pn_view_status p of Some (g, s) \<Rightarrow> if g = pn_gen p then Some s else None | None \<Rightarrow> None))"

definition resize :: "nat \<Rightarrow> 'a \<Rightarrow> 'a list \<Rightarrow> 'a list" where
  "resize n x xs = take n xs @ replicate (n - length xs) x"

definition pane_lines ::
  "'p vte \<Rightarrow> u64 \<Rightarrow> ('o, 'v) app \<Rightarrow> nat \<Rightarrow> nat \<Rightarrow> nat \<Rightarrow> nat \<Rightarrow> rstring list \<times> nat" where
  "pane_lines v now a i height cols scroll =
     (case nth_opt (a_panels a) i of
        None \<Rightarrow> ([], 0)
      | Some p \<Rightarrow>
          (case pane_status p of
             Some status \<Rightarrow>
               if 1 < height then
                 (let rows = min height 65535 - 1;
                      (lines, badge) = pane_body v now a p i rows cols scroll
                  in (resize rows [] lines
                        @ [if 0 < cols then refit_line v (a_palette a) status cols else status], badge))
               else pane_body v now a p i height cols scroll
           | None \<Rightarrow> pane_body v now a p i height cols scroll))"

end
