(* ===== verification/Pane_Props.thy ===== *)
theory Pane_Props
  imports Pane_Window App_Props
begin

text \<open>
  What the windowing promises: the Upgrade pane is the window over one list of lines, though it
  never builds that list; every line can be scrolled to; the offset written back after a frame is
  the one the frame shows; no notice is lost; a run's status row keeps the bottom row.
\<close>

section \<open>The window\<close>

text \<open>The window after \<open>p\<close> pinned lines, over \<open>n\<close> lines with room for \<open>k\<close>.\<close>

definition window_after :: "nat \<Rightarrow> nat \<Rightarrow> nat \<Rightarrow> nat \<Rightarrow> nat \<times> nat \<times> nat \<times> nat" where
  "window_after p n k scroll =
     (let eff = min scroll (n - k) in (p, p + (n - eff - k), p + (n - eff), eff))"

definition pins :: "nat \<Rightarrow> nat \<Rightarrow> nat \<Rightarrow> nat" where
  "pins rows height pinned =
     (let p = min (min (min pinned rows) (max (height div 2) 1)) (height - 1) in if p < rows then p else 0)"

lemma pane_window_after:
  "pane_window rows height pinned scroll =
     window_after (pins rows height pinned) (rows - pins rows height pinned) (height - pins rows height pinned) scroll"
proof -
  define p where "p = min (min (min pinned rows) (max (height div 2) 1)) (height - 1)"
  show ?thesis
  proof (cases "0 < p \<and> p < rows")
    case True
    then have "pins rows height pinned = p" "max p 1 = p"
      unfolding pins_def p_def [symmetric] Let_def by simp_all
    then show ?thesis
      using True unfolding pane_window_def p_def [symmetric] Let_def window_after_def by simp
  next
    case False
    then have "pins rows height pinned = 0"
      unfolding pins_def p_def [symmetric] Let_def by auto
    then show ?thesis
      using False unfolding pane_window_def p_def [symmetric] Let_def window_after_def by simp
  qed
qed

lemma pins_bounds: "pins rows height pinned \<le> pinned" "pins rows height pinned \<le> rows"
  "pins rows height pinned \<le> height - 1"
  by (auto simp: pins_def Let_def min_le_iff_disj)

lemma window_after_again:
  "window_after p n k scroll = (p', s, e, eff) \<Longrightarrow> window_after p n k eff = (p', s, e, eff)"
  by (auto simp: window_after_def Let_def)

lemma window_after_range:
  assumes "window_after p n k scroll = (p', s, e, eff)"
  shows "p' = p" "p \<le> s" "s \<le> e" "e \<le> p + n" "e - s = min k n" "eff \<le> scroll" "eff \<le> n"
    "scroll = 0 \<Longrightarrow> e = p + n"
proof -
  have r: "p' = p" "s = p + (n - eff - k)" "e = p + (n - eff)" "eff = min scroll (n - k)"
    using assms unfolding window_after_def Let_def by fastforce+
  show "p' = p" by (rule r(1))
  show "p \<le> s" "s \<le> e" "e \<le> p + n" unfolding r(2,3) by simp_all
  show "eff \<le> scroll" "eff \<le> n" using r(4) by simp_all
  show "e - s = min k n" unfolding r(2,3) using r(4) by linarith
  show "scroll = 0 \<Longrightarrow> e = p + n" unfolding r(3) using r(4) by simp
qed

lemma pane_window_pinned:
  "pane_window rows height pinned scroll = (p, s, e, eff) \<Longrightarrow> p \<le> pinned \<and> p \<le> rows \<and> p \<le> height - 1"
  using window_after_range(1) pins_bounds by (metis pane_window_after)

lemma pane_window_range:
  "pane_window rows height pinned scroll = (p, s, e, eff) \<Longrightarrow> p \<le> s \<and> s \<le> e \<and> e \<le> rows"
  using window_after_range(1-4) pins_bounds(2) by (metis pane_window_after le_add_diff_inverse)

lemma pane_window_size:
  assumes "pane_window rows height pinned scroll = (p, s, e, eff)" "0 < height"
  shows "p + (e - s) = min height rows"
proof -
  have p: "p = pins rows height pinned" "e - s = min (height - p) (rows - p)"
    using assms(1) window_after_range(1,5) by (metis pane_window_after)+
  show ?thesis
    using pins_bounds(2,3) [of rows height pinned] assms(2) unfolding p(2) unfolding p(1) by linarith
qed

text \<open>The window is well formed for every size and offset: what is pinned and what is shown lies within the
  lines (no slice can panic), the pane is filled exactly as far as there are lines, drawing with the
  offset that was reported draws the same window, with offset 0 the last line is shown, and no
  offset goes past the first line.\<close>

theorem window_well_formed:
  assumes "0 < height" "pane_window rows height pinned scroll = (p, start, stop, eff)"
  shows "p \<le> pinned \<and> p \<le> start \<and> start \<le> stop \<and> stop \<le> rows \<and> p + (stop - start) = min height rows
    \<and> eff \<le> scroll \<and> eff \<le> rows
    \<and> pane_window rows height pinned eff = (p, start, stop, eff)
    \<and> (scroll = 0 \<longrightarrow> stop = rows)"
proof -
  note w = assms(2) [unfolded pane_window_after]
  have "eff \<le> rows" "scroll = 0 \<longrightarrow> stop = rows"
    using window_after_range(7,8) [OF w] pins_bounds(2) [of rows height pinned] by auto
  moreover have "pane_window rows height pinned eff = (p, start, stop, eff)"
    using window_after_again [OF w] by (simp only: pane_window_after)
  ultimately show ?thesis
    using pane_window_pinned [OF assms(2)] pane_window_range [OF assms(2)] pane_window_size [OF assms(2,1)]
      window_after_range(6) [OF w] by simp
qed

theorem window_well_formed_witness:
  "pane_window 100 10 3 5 = (3, 88, 95, 5) \<and> 3 + (95 - 88) = min 10 (100 :: nat)"
proof
  show w: "pane_window 100 10 3 5 = (3, 88, 95, 5)" by code_simp
  show "3 + (95 - 88) = min 10 (100 :: nat)"
    using window_well_formed [OF _ w] by simp
qed

section \<open>The Upgrade pane is one list\<close>

lemma span_append:
  assumes "s \<le> e"
  shows "span s e (xs @ ys) = span s e xs @ span (s - length xs) (e - length xs) ys"
proof -
  have "e - s - (length xs - s) = e - length xs - (s - length xs)"
    using assms by linarith
  then show ?thesis by (simp add: span_def)
qed

lemma max_diff: "max a b - b = a - (b :: nat)" by simp

lemma span_empty: "e \<le> s \<or> length xs \<le> s \<Longrightarrow> span s e xs = []"
  by (auto simp: span_def)

lemma span_clip: "span (min s (length xs)) (min e (length xs)) xs = span s e xs"
proof (cases "s < length xs")
  case True
  then show ?thesis by (cases "e \<le> length xs") (simp_all add: span_def min_def)
qed (simp add: span_def)

text \<open>The three guarded parts are the one span.\<close>

lemma span_append3:
  assumes "s \<le> e"
  shows "span s e (xs @ ys @ zs) =
    (if s < min e (length xs) then span s (min e (length xs)) xs else [])
    @ (if min (max s (length xs)) (length xs + length ys) < min e (length xs + length ys)
       then span (min (max s (length xs)) (length xs + length ys) - length xs)
              (min e (length xs + length ys) - length xs) ys else [])
    @ (if max s (length xs + length ys) < e
       then span (max s (length xs + length ys) - (length xs + length ys)) (e - (length xs + length ys)) zs else [])"
    (is "_ = ?a @ ?b @ ?c")
proof -
  have a: "?a = span s e xs"
    using span_clip [of s xs e] span_empty [of e s xs] by (auto simp: min_def)
  have "span (min (max s (length xs)) (length xs + length ys) - length xs)
        (min e (length xs + length ys) - length xs) ys
      = span (min (s - length xs) (length ys)) (min (e - length xs) (length ys)) ys"
    (is "span ?l ?r ys = span ?l' ?r' ys")
  proof -
    have "?l = ?l'" "?r = ?r'" by linarith+
    then show ?thesis by (simp only:)
  qed
  then have "span (min (max s (length xs)) (length xs + length ys) - length xs)
        (min e (length xs + length ys) - length xs) ys = span (s - length xs) (e - length xs) ys"
    by (simp only: span_clip)
  moreover have "\<not> min (max s (length xs)) (length xs + length ys) < min e (length xs + length ys)
      \<Longrightarrow> e - length xs \<le> s - length xs \<or> length ys \<le> s - length xs" by linarith
  ultimately have b: "?b = span (s - length xs) (e - length xs) ys"
    using span_empty by metis
  have "?c = span (s - (length xs + length ys)) (e - (length xs + length ys)) zs"
  proof (cases "max s (length xs + length ys) < e")
    case False
    then have "e - (length xs + length ys) \<le> s - (length xs + length ys)"
      using assms by linarith
    then have "span (s - (length xs + length ys)) (e - (length xs + length ys)) zs = []"
      by (intro span_empty disjI1)
    then show ?thesis using False by (simp only: if_False)
  qed (simp add: max_diff)
  then have c: "?c = span (s - length xs - length ys) (e - length xs - length ys) zs" by simp
  have "s - length xs \<le> e - length xs" using assms by simp
  then show ?thesis
    unfolding a b c using assms by (simp only: span_append)
qed

lemma ring_slice_span:
  "l \<le> a \<Longrightarrow> ring_slice (a - l) (b - a) r = span (a - l) (b - l) (ring_lines r)"
  by (simp add: ring_slice_lines span_def)

lemma visible_upgrade_window:
  assumes "pinned \<le> length block"
  shows "visible_upgrade v pal block pinned lg tail height cols scroll
    = visible v pal (block @ ring_lines lg @ tail) height pinned cols scroll"
proof (cases "height = 0 \<or> length block + length (slots lg) + length tail = 0")
  case True
  then show ?thesis
    by (auto simp: visible_upgrade_def visible_def Let_def simp flip: length_ring_lines)
next
  case False
  obtain p s e eff where w: "pane_window (length block + length (slots lg) + length tail) height pinned scroll = (p, s, e, eff)"
    by (metis prod_cases4)
  then have le: "p \<le> length block" "s \<le> e"
    using pane_window_pinned [OF w] pane_window_range [OF w] assms by simp_all
  have t: "length (block @ ring_lines lg @ tail) = length block + length (slots lg) + length tail"
    by simp
  have n: "block @ ring_lines lg @ tail \<noteq> []"
    using False unfolding length_0_conv [symmetric] t by simp
  have "take p (block @ ring_lines lg @ tail) = take p block"
    using le(1) by simp
  then have "visible v pal (block @ ring_lines lg @ tail) height pinned cols scroll =
      (fit_lines v pal cols (take p block @ span s e (block @ ring_lines lg @ tail)), eff)"
    using False n by (simp only: visible_def t w if_False prod.case Let_def de_Morgan_disj simp_thms)
  then show ?thesis
    unfolding span_append3 [OF le(2)] length_ring_lines using False
    by (simp only: visible_upgrade_def w if_False prod.case Let_def
        ring_slice_span [of "length block" "min (max s (length block)) (length block + length (slots lg))"]
        min.bounded_iff max.cobounded2 le_add1 simp_thms)
qed

text \<open>C9: The Upgrade pane is drawn from three sources without copying the log, and what comes out is the
  window over the one list they would make: status block and held notices, then the log's lines,
  then the notices below. For any ring, height, width and offset.\<close>

theorem upgrade_pane_is_one_list:
  "visible_upgrade v pal (block @ held) (length block) lg tail height cols scroll
    = visible v pal (block @ held @ ring_lines lg @ tail) height (length block) cols scroll"
  using visible_upgrade_window [of "length block" "block @ held"] by simp

section \<open>Notices\<close>

lemma newest_fit_prefix:
  "newest_fit budget used bs \<le> length bs
   \<and> (0 < newest_fit budget used bs \<longrightarrow> used + length (concat (take (newest_fit budget used bs) bs)) \<le> budget)
   \<and> (newest_fit budget used bs < length bs \<longrightarrow>
        budget < used + length (concat (take (Suc (newest_fit budget used bs)) bs)))"
proof (induction bs arbitrary: used)
  case (Cons b bs)
  show ?case
  proof (cases "budget < used + length b")
    case False
    then show ?thesis
      using Cons.IH [of "used + length b"] by (cases "newest_fit budget (used + length b) bs") (auto simp: add.assoc)
  qed simp
qed simp

lemma concat_split: "concat (take n xs) @ concat (drop n xs) = concat xs"
  by (metis append_take_drop_id concat_append)

lemma concat_take_le: "length (concat (take n xs)) \<le> length (concat xs)"
  using concat_split [of n xs] by (metis le_add1 length_append)

text \<open>A pane loses no notice. What is held above the content and what is shown below it are
  all the notices' lines in order, with one more line between them, which says how many are above,
  exactly when some are; and of the notices shown, what they need is no more than half the pane.\<close>

theorem no_notice_lost:
  assumes "notice_split notes cols height = (held, shown)" "0 < cols"
  shows "let blocks = map (\<lambda>n. wrap_words n cols) notes in
    (held = [] \<and> shown = concat blocks \<and> length shown \<le> max (height div 2) 1)
    \<or> (\<exists>k. 0 < k \<and> k \<le> length notes \<and> held = concat (take k blocks)
        \<and> shown = wrap_words (earlier_notices k) cols @ concat (drop k blocks)
        \<and> length (concat (drop k blocks)) \<le> max (height div 2) 1 - 1)"
proof -
  let ?b = "map (\<lambda>n. wrap_words n cols) notes"
  let ?budget = "max (height div 2) 1"
  have rev_drop: "length (concat (take n (rev ?b))) = length (concat (drop (length ?b - n) ?b))" for n
    by (simp add: take_rev length_concat sum_list_rev flip: rev_map)
  consider "notes = []" | (all) "notes \<noteq> []" "newest_fit ?budget 0 (rev ?b) = length ?b"
    | (some) "notes \<noteq> []" "newest_fit ?budget 0 (rev ?b) \<noteq> length ?b" by blast
  then show ?thesis
  proof cases
    case 1
    then show ?thesis using assms by (simp add: notice_split_def)
  next
    case all
    then have "length (concat ?b) \<le> ?budget"
      using newest_fit_prefix [of ?budget 0 "rev ?b"] rev_drop [of "length ?b"] by simp
    then show ?thesis using assms all by (simp add: notice_split_def)
  next
    case some
    let ?n = "newest_fit (?budget - 1) 0 (rev ?b)"
    have le: "?n \<le> length notes" "length (concat (take ?n (rev ?b))) \<le> ?budget - 1"
      using newest_fit_prefix [of "?budget - 1" 0 "rev ?b"] by (cases ?n; simp)+
    have "?n \<noteq> length notes"
    proof
      assume "?n = length notes"
      then have "length (concat (rev ?b)) \<le> ?budget - 1" using le(2) by simp
      moreover have "newest_fit ?budget 0 (rev ?b) < length (rev ?b)"
        using some(2) newest_fit_prefix [of ?budget 0 "rev ?b"] by simp
      then have "?budget < length (concat (take (Suc (newest_fit ?budget 0 (rev ?b))) (rev ?b)))"
        using newest_fit_prefix [of ?budget 0 "rev ?b"] by simp
      ultimately show False
        using concat_take_le [of "Suc (newest_fit ?budget 0 (rev ?b))" "rev ?b"] by linarith
    qed
    define k where "k = length notes - ?n"
    have k: "0 < k" "k \<le> length notes"
      unfolding k_def using \<open>?n \<noteq> length notes\<close> le(1) by linarith+
    have d: "length (concat (drop k ?b)) \<le> ?budget - 1"
      using le(2) unfolding rev_drop length_map k_def .
    have "(held, shown) = (concat (take k ?b), wrap_words (earlier_notices k) cols @ concat (drop k ?b))"
      using assms some unfolding notice_split_def Let_def k_def length_map by (simp only: if_False) simp
    then show ?thesis
      using k d unfolding Let_def by (intro disjI2 exI [of _ k]) simp
  qed
qed

theorem no_notice_lost_witness:
  "notice_split [lit ''one'', lit ''two'', lit ''three''] 40 4
     = ([lit ''one'', lit ''two''], [ELLIPSIS @ lit '' 2 earlier notices above'', lit ''three''])
   \<and> [lit ''one'', lit ''two''] \<noteq> []"
  (is "?n = (?held, ?shown) \<and> _")
proof
  show n: "?n = (?held, ?shown)" by code_simp
  show "?held \<noteq> []"
    using no_notice_lost [OF n] by simp
qed

section \<open>Everything can be scrolled to\<close>

lemma window_reaches:
  assumes "1 < height" "1 \<le> pinned" "0 < i" "i < rows"
  shows "\<exists>scroll p s e eff. pane_window rows height pinned scroll = (p, s, e, eff)
    \<and> (i < p \<or> s \<le> i \<and> i < e \<and> 0 < p + (i - s))"
proof -
  define p where "p = pins rows height pinned"
  have p: "p \<le> rows" "p \<le> height - 1" using pins_bounds p_def by auto
  define k where "k = height - p"
  have k: "1 \<le> k" using p(2) assms(1) unfolding k_def by linarith
  show ?thesis
  proof (cases "i < p")
    case True
    obtain q s e eff where w: "pane_window rows height pinned 0 = (q, s, e, eff)"
      by (metis prod_cases4)
    then have "q = p"
      using window_after_range(1) unfolding p_def pane_window_after by blast
    then show ?thesis using w True by blast
  next
    case False
    define scroll where "scroll = rows - i - 1"
    define eff where "eff = min scroll (rows - p - k)"
    have e: "i < p + (rows - p - eff)"
    proof (cases "scroll \<le> rows - p - k")
      case True
      then have "eff = rows - i - 1" unfolding eff_def scroll_def by simp
      then show ?thesis using False assms(4) by simp
    next
      case c: False
      then have "eff = rows - (p + k)" unfolding eff_def by simp
      then show ?thesis using c False assms(4) p(1) unfolding scroll_def by (cases "rows \<le> p + k") simp_all
    qed
    have s: "rows - p - eff - k \<le> i - p"
    proof (cases "scroll \<le> rows - p - k")
      case True
      then have "eff = rows - i - 1" unfolding eff_def scroll_def by simp
      then show ?thesis using k False by simp
    qed (simp add: eff_def)
    have "0 < p + (i - (p + (rows - p - eff - k)))"
    proof (cases "p = 0")
      case True
      have "rows \<le> height - 1"
      proof -
        have "\<not> min (min (min pinned rows) (max (height div 2) 1)) (height - 1) < rows
            \<or> min (min (min pinned rows) (max (height div 2) 1)) (height - 1) = 0"
          using True p_def unfolding pins_def Let_def by (metis (full_types))
        then show ?thesis using assms by linarith
      qed
      then have "rows - p - k = 0" using True unfolding k_def by simp
      then show ?thesis using True assms(3) k_def \<open>rows \<le> height - 1\<close> by simp
    qed simp
    moreover have "p + (rows - p - eff - k) \<le> i" using s False by linarith
    moreover have "pane_window rows height pinned scroll = (p, p + (rows - p - eff - k), p + (rows - p - eff), eff)"
      unfolding pane_window_after p_def [symmetric] k_def [symmetric] window_after_def eff_def Let_def ..
    ultimately show ?thesis using e by blast
  qed
qed

text \<open>What the pane's lines are, over all its sources.\<close>

definition pane_content :: "u64 \<Rightarrow> ('o, 'v) app \<Rightarrow> 'o panel \<Rightarrow> nat \<Rightarrow> nat \<Rightarrow> nat \<Rightarrow> rstring list" where
  "pane_content now a p i height cols =
     (let (held, shown) = notice_split (pn_notes p) cols height
      in if pn_mode p = MUpgrade then upgrade_pane_header now a i @ held @ ring_lines (pn_last_upgrade p) @ shown
         else take 1 (pn_view p) @ held @ drop 1 (pn_view p) @ shown)"

definition pane_pinned :: "u64 \<Rightarrow> ('o, 'v) app \<Rightarrow> 'o panel \<Rightarrow> nat \<Rightarrow> nat" where
  "pane_pinned now a p i =
     (if pn_mode p = MUpgrade then length (upgrade_pane_header now a i) else ORDINARY_PINNED)"

lemma pane_body_visible:
  "pane_body v now a p i height cols scroll =
     visible v (a_palette a) (pane_content now a p i height cols) height (pane_pinned now a p i) cols scroll"
proof (cases "notice_split (pn_notes p) cols height")
  case (Pair held shown)
  then show ?thesis
    by (cases "pn_view p")
      (simp_all add: pane_body_def pane_content_def pane_pinned_def visible_upgrade_window Let_def)
qed

lemma nth_fit_lines: "k < length ls \<Longrightarrow> 0 < cols \<Longrightarrow> fit_lines v pal cols ls ! k = refit_line v pal (ls ! k) cols"
  by (simp add: fit_lines_def)

lemma length_fit_lines [simp]: "length (fit_lines v pal cols ls) = length ls"
  by (simp add: fit_lines_def)

lemma length_span: "b \<le> length xs \<Longrightarrow> length (span a b xs) = b - a"
  by (simp add: span_def)

lemma visible_reaches:
  assumes "1 < height" "1 \<le> pinned" "0 < i" "i < length ls" "0 < cols"
  shows "\<exists>scroll k. 0 < k \<and> k < length (fst (visible v pal ls height pinned cols scroll))
    \<and> fst (visible v pal ls height pinned cols scroll) ! k = refit_line v pal (ls ! i) cols"
proof -
  obtain scroll p s e eff where w: "pane_window (length ls) height pinned scroll = (p, s, e, eff)"
    and i: "i < p \<or> s \<le> i \<and> i < e \<and> 0 < p + (i - s)"
    using window_reaches [OF assms(1-4)] by blast
  have r: "p \<le> length ls" "s \<le> e" "e \<le> length ls"
    using pane_window_pinned [OF w] pane_window_range [OF w] by simp_all
  let ?out = "take p ls @ span s e ls"
  have v: "fst (visible v pal ls height pinned cols scroll) = fit_lines v pal cols ?out"
    using assms(1,4) w by (auto simp: visible_def)
  have "\<exists>k. 0 < k \<and> k < length ?out \<and> ?out ! k = ls ! i"
  proof (cases "i < p")
    case True
    then show ?thesis using assms(3) r by (intro exI [of _ i]) (simp add: nth_append length_span)
  next
    case False
    then have "s \<le> i" "i < e" "0 < p + (i - s)" using i by auto
    moreover obtain j where "i = s + j" using \<open>s \<le> i\<close> le_Suc_ex by blast
    ultimately show ?thesis using r by (intro exI [of _ "p + j"]) (simp add: nth_append length_span span_def)
  qed
  then obtain k where k: "0 < k" "k < length ?out" "?out ! k = ls ! i" by blast
  then have "fit_lines v pal cols ?out ! k = refit_line v pal (ls ! i) cols"
    using nth_fit_lines [OF k(2) assms(5), of v pal] by simp
  then show ?thesis
    using k(1,2) v by (intro exI [of _ scroll] exI [of _ k]) simp
qed

lemma visible_size: "length (fst (visible v pal ls height pinned cols scroll)) \<le> height"
proof (cases "height = 0 \<or> ls = []")
  case False
  obtain p s e eff where w: "pane_window (length ls) height pinned scroll = (p, s, e, eff)"
    by (metis prod_cases4)
  have "length (take p ls @ span s e ls) = min height (length ls)"
    using False pane_window_pinned [OF w] pane_window_range [OF w] pane_window_size [OF w]
    by (simp add: length_span)
  then show ?thesis using False w by (simp add: visible_def)
qed (auto simp: visible_def)

lemma notices_in_split:
  assumes "notice_split notes cols height = (held, shown)" "0 < cols" "n \<in> set notes" "l \<in> set (wrap_words n cols)"
  shows "l \<in> set held \<or> l \<in> set shown"
proof -
  have l: "l \<in> set (concat (map (\<lambda>n. wrap_words n cols) notes))"
    using assms(3,4) by auto
  have ne: "\<not> (notes = [] \<or> cols = 0)" using assms(2,3) by auto
  have "\<exists>k xs. held = concat (take k (map (\<lambda>n. wrap_words n cols) notes))
      \<and> shown = xs @ concat (drop k (map (\<lambda>n. wrap_words n cols) notes))"
  proof (cases "newest_fit (max (height div 2) 1) 0 (rev (map (\<lambda>n. wrap_words n cols) notes)) = length notes")
    case True
    then have "(held, shown) = ([], concat (map (\<lambda>n. wrap_words n cols) notes))"
      using assms(1) ne unfolding notice_split_def Let_def length_map by (simp only: if_True if_False simp_thms)
    then show ?thesis by (intro exI [of _ 0] exI [of _ "[]"]) simp
  next
    case False
    then have "(held, shown) = (let hidden = length notes
          - newest_fit (max (height div 2) 1 - 1) 0 (rev (map (\<lambda>n. wrap_words n cols) notes))
        in (concat (take hidden (map (\<lambda>n. wrap_words n cols) notes)),
            wrap_words (earlier_notices hidden) cols @ concat (drop hidden (map (\<lambda>n. wrap_words n cols) notes))))"
      using assms(1) ne unfolding notice_split_def Let_def length_map by (simp only: if_True if_False simp_thms)
    then show ?thesis unfolding Let_def by blast
  qed
  then show ?thesis
    using l by (metis Un_iff concat_split set_append)
qed

text \<open>A line of a pane that is not row 0, which is the banner's.\<close>

definition pane_line :: "'o panel \<Rightarrow> nat \<Rightarrow> rstring \<Rightarrow> bool" where
  "pane_line p cols l \<longleftrightarrow>
     (\<exists>n \<in> set (pn_notes p). l \<in> set (wrap_words n cols))
     \<or> l \<in> (if pn_mode p = MUpgrade then set (ring_lines (pn_last_upgrade p)) else set (tl (pn_view p)))"

lemma header_first: "nth_opt (a_panels a) i = Some p \<Longrightarrow> \<exists>rest. upgrade_pane_header now a i = [] # rest"
  by (simp add: upgrade_pane_header_def header_def)

lemma pane_line_in_content:
  assumes "nth_opt (a_panels a) i = Some p" "0 < cols" "pane_line p cols l" "pn_mode p \<noteq> MUpgrade \<longrightarrow> pn_view p \<noteq> []"
  shows "l \<in> set (tl (pane_content now a p i height cols))"
proof (cases "notice_split (pn_notes p) cols height")
  case (Pair held shown)
  have "\<forall>n \<in> set (pn_notes p). \<forall>l \<in> set (wrap_words n cols). l \<in> set held \<or> l \<in> set shown"
    using notices_in_split [OF Pair assms(2)] by blast
  moreover obtain rest where "upgrade_pane_header now a i = [] # rest"
    using header_first [OF assms(1)] by blast
  ultimately show ?thesis
    using Pair assms(3,4)
    by (cases "pn_mode p = MUpgrade"; cases "pn_view p") (auto simp: pane_content_def pane_line_def)
qed

lemma pane_body_reaches:
  assumes "nth_opt (a_panels a) i = Some p" "1 < height" "0 < cols" "pane_line p cols l"
    and "pn_mode p \<noteq> MUpgrade \<longrightarrow> pn_view p \<noteq> []"
  shows "\<exists>scroll k. 0 < k \<and> k < length (fst (pane_body v now a p i height cols scroll))
    \<and> fst (pane_body v now a p i height cols scroll) ! k = refit_line v (a_palette a) l cols"
proof -
  let ?c = "pane_content now a p i height cols"
  obtain j where "j < length (tl ?c)" "tl ?c ! j = l"
    using pane_line_in_content [OF assms(1,3-5)] by (metis in_set_conv_nth)
  then have "Suc j < length ?c" "?c ! Suc j = l" by (simp_all add: nth_tl)
  moreover have "1 \<le> pane_pinned now a p i"
    using header_first [OF assms(1), of now] by (auto simp: pane_pinned_def ORDINARY_PINNED_def)
  ultimately show ?thesis
    using visible_reaches [of height "pane_pinned now a p i" "Suc j" ?c cols v "a_palette a"] assms(2,3)
    by (simp add: pane_body_visible)
qed

text \<open>C27: Everything a pane holds can be brought on screen. In a pane of at least three rows, for every line of
  the panel's content (the upgrade log in the Upgrade view, the view's lines elsewhere) and for every
  line of every notice, wrapped at the pane's width, there is a scroll offset at which that line is
  drawn, on a row that is not the banner's, and whether or not a run has a status row.\<close>

theorem nothing_out_of_reach:
  assumes "nth_opt (a_panels a) i = Some p" "2 < height" "0 < cols" "pane_line p cols l"
    and "pn_mode p \<noteq> MUpgrade \<longrightarrow> pn_view p \<noteq> []"
  shows "\<exists>scroll k. 0 < k \<and> k < length (fst (pane_lines v now a i height cols scroll))
    \<and> fst (pane_lines v now a i height cols scroll) ! k = refit_line v (a_palette a) l cols"
proof (cases "pane_status p")
  case None
  then show ?thesis
    using pane_body_reaches [OF assms(1) _ assms(3-5), of height v now] assms(1,2) by (simp add: pane_lines_def)
next
  case (Some status)
  let ?rows = "min height 65535 - 1"
  have "1 < ?rows" using assms(2) by linarith
  then obtain scroll k where k: "0 < k" "k < length (fst (pane_body v now a p i ?rows cols scroll))"
    "fst (pane_body v now a p i ?rows cols scroll) ! k = refit_line v (a_palette a) l cols"
    using pane_body_reaches [OF assms(1) _ assms(3-5), of ?rows v now] by blast
  have le: "length (fst (pane_body v now a p i ?rows cols scroll)) \<le> ?rows"
    unfolding pane_body_visible by (rule visible_size)
  have "fst (pane_lines v now a i height cols scroll) =
      fst (pane_body v now a p i ?rows cols scroll)
      @ replicate (?rows - length (fst (pane_body v now a p i ?rows cols scroll))) []
      @ [refit_line v (a_palette a) status cols]"
    using assms(1-3) Some le by (simp add: pane_lines_def resize_def case_prod_beta Let_def)
  then show ?thesis
    using k by (intro exI [of _ scroll] exI [of _ k]) (simp add: nth_append)
qed

text \<open>A pane with a notice longer than it is high: the notice's second line is one step up.\<close>

definition noted_panel :: "'o panel" where
  "noted_panel = sample_panel\<lparr>pn_view := [[], lit ''cpu'', lit ''mem''], pn_notes := [lit ''one two'']\<rparr>"

theorem nothing_out_of_reach_witness:
  "\<exists>scroll k. 0 < k \<and> k < length (fst (pane_lines tiny_vte 0 (sample_app [noted_panel] :: (unit, unit) app) 0 4 4 scroll))
    \<and> fst (pane_lines tiny_vte 0 (sample_app [noted_panel] :: (unit, unit) app) 0 4 4 scroll) ! k = lit ''two''"
proof -
  have w: "wrap_words (lit ''one two'') 4 = [lit ''one'', lit ''two'']" by code_simp
  have r: "refit_line tiny_vte plain_palette (lit ''two'') 4 = lit ''two''" by code_simp
  have p: "nth_opt (a_panels (sample_app [noted_panel] :: (unit, unit) app)) 0 = Some noted_panel"
    by (simp add: nth_opt_def)
  have l: "pane_line (noted_panel :: unit panel) 4 (lit ''two'')"
    by (simp add: pane_line_def noted_panel_def w)
  show ?thesis
    using nothing_out_of_reach [OF p _ _ l, of 4 tiny_vte 0] by (simp add: noted_panel_def r)
qed

section \<open>The status row\<close>

text \<open>The status row a run pinned (apt's progress bar) stays put: while it is the current run's, the last
  of the pane's rows is that row, fitted to the width, whatever the scroll offset, and the pane has
  exactly as many rows as it was given.\<close>

theorem status_row_stays:
  assumes "nth_opt (a_panels a) i = Some p" "pane_status p = Some s" "1 < height" "height \<le> 65535"
  shows "length (fst (pane_lines v now a i height cols scroll)) = height
    \<and> last (fst (pane_lines v now a i height cols scroll)) = (if 0 < cols then refit_line v (a_palette a) s cols else s)"
  using assms by (simp add: pane_lines_def resize_def case_prod_beta Let_def)

theorem status_row_stays_witness:
  "last (fst (pane_lines tiny_vte 0
       (sample_app [sample_panel\<lparr>pn_view_status := Some (0, lit ''Progress: 40%'')\<rparr>] :: (unit, unit) app) 0 5 30 7))
     = lit ''Progress: 40%''"
proof -
  let ?p = "sample_panel\<lparr>pn_view_status := Some (0, lit ''Progress: 40%'')\<rparr> :: unit panel"
  have r: "refit_line tiny_vte plain_palette (lit ''Progress: 40%'') 30 = lit ''Progress: 40%''" by code_simp
  have p: "nth_opt (a_panels (sample_app [?p] :: (unit, unit) app)) 0 = Some ?p"
    by (simp add: nth_opt_def)
  have s: "pane_status ?p = Some (lit ''Progress: 40%'')"
    by (simp add: pane_status_def sample_panel_def panel_new_def)
  show ?thesis
    using status_row_stays [OF p s, of 5 tiny_vte 0 30 7] by (simp add: r)
qed

end
