(* ===== verification/Layout_Props.thy ===== *)
theory Layout_Props
  imports Text_Layout
begin

text \<open>
  What fitting keeps: labels are shed in the declared order and no further than needed, columns
  share exactly the width there is, a cut host name keeps the end that tells machines apart, and
  wrapped prose loses no word.
\<close>

section \<open>Sharing a width\<close>

text \<open>The cells that still want more are exactly the hungry ones.\<close>

definition wanting :: "nat list \<Rightarrow> nat list \<Rightarrow> nat list \<Rightarrow> bool" where
  "wanting want out hungry \<longleftrightarrow> length want = length out \<and> distinct hungry
     \<and> set hungry = {i. i < length out \<and> out ! i < want ! i}"

lemma wanting_update:
  fixes n :: nat
  assumes "wanting want out (still @ i # hungry)" "i < length out"
  defines "out' \<equiv> out[i := out ! i + n]"
  shows "wanting want out' ((if out' ! i < want ! i then still @ [i] else still) @ hungry)"
proof -
  have d: "distinct (still @ i # hungry)"
    and s: "\<And>j. j \<in> set still \<or> j = i \<or> j \<in> set hungry \<longleftrightarrow> j < length out \<and> out ! j < want ! j"
    using assms(1) by (auto simp: wanting_def)
  have "j \<in> set ((if out' ! i < want ! i then still @ [i] else still) @ hungry)
      \<longleftrightarrow> j < length out' \<and> out' ! j < want ! j" for j
  proof (cases "j = i")
    case True
    then show ?thesis using d assms(2) by (simp add: out'_def)
  next
    case False
    then show ?thesis using s [of j] by (simp add: out'_def)
  qed
  then have "set ((if out' ! i < want ! i then still @ [i] else still) @ hungry)
      = {j. j < length out' \<and> out' ! j < want ! j}" by blast
  moreover have "distinct ((if out' ! i < want ! i then still @ [i] else still) @ hungry)"
    using d by auto
  ultimately show ?thesis
    using assms(1) by (simp only: wanting_def out'_def length_list_update simp_thms)
qed

text \<open>No cell gives anything up, and none takes more than it wants.\<close>

definition grown :: "nat list \<Rightarrow> nat list \<Rightarrow> nat list \<Rightarrow> bool" where
  "grown want out out' \<longleftrightarrow> length out' = length out \<and>
     (\<forall>i < length out. out ! i \<le> out' ! i \<and> out' ! i \<le> max (out ! i) (want ! i))"

lemma grown_refl [simp]: "grown want out out"
  by (simp add: grown_def)

lemma grown_trans: "grown want a b \<Longrightarrow> grown want b c \<Longrightarrow> grown want a c"
  unfolding grown_def by (metis (no_types, lifting) le_trans max.bounded_iff max.cobounded2 max_def)

lemma grown_update:
  "i < length out \<Longrightarrow> n \<le> want ! i - out ! i \<Longrightarrow> grown want out (out[i := out ! i + n])"
  by (auto simp: grown_def nth_list_update)

lemma feed_round_sound:
  assumes "feed_round want share hungry (out, pool) still = (out', pool', still')"
    and "wanting want out (still @ hungry)" "0 < share"
  shows "wanting want out' still' \<and> grown want out out' \<and> sum_list out' + pool' = sum_list out + pool"
  using assms
proof (induction hungry arbitrary: out pool still)
  case (Cons i hungry)
  from Cons.prems(2) have i: "i < length out" by (auto simp: wanting_def)
  show ?case
  proof (cases rule: feed_cell_cases [of pool want share i out])
    case none
    then show ?thesis using Cons.IH [of out pool "still @ [i]"] Cons.prems by simp
  next
    case (give n)
    let ?out = "out[i := out ! i + n]"
    let ?still = "if ?out ! i < want ! i then still @ [i] else still"
    have "wanting want ?out (?still @ hungry)"
      using Cons.prems(2) i by (rule wanting_update)
    moreover have "feed_round want share hungry (?out, pool - n) ?still = (out', pool', still')"
      using Cons.prems(1) give(3) by simp
    ultimately have r: "wanting want out' still' \<and> grown want ?out out'
        \<and> sum_list out' + pool' = sum_list ?out + (pool - n)"
      using Cons.IH Cons.prems(3) by blast
    have "grown want out ?out"
      using i give(2) by (intro grown_update) simp_all
    then have "grown want out out'"
      using r grown_trans by blast
    moreover have "sum_list ?out = sum_list out + n"
      using i by (simp add: sum_list_update)
    moreover have "n \<le> pool" using give(2) by simp
    ultimately show ?thesis using r by simp
  qed
qed simp

lemma share_loop_sound:
  assumes "wanting want out hungry"
  shows "\<exists>left. grown want out (share_loop want out pool hungry)
    \<and> sum_list (share_loop want out pool hungry) + left = sum_list out + pool
    \<and> (left = 0 \<or> (\<forall>i < length out. want ! i \<le> share_loop want out pool hungry ! i))"
  using assms
proof (induction want out pool hungry rule: share_loop.induct)
  case (1 want out pool hungry)
  show ?case
  proof (cases "pool = 0 \<or> hungry = []")
    case True
    then have "share_loop want out pool hungry = out"
      by (simp add: share_loop.simps [of want out pool hungry])
    moreover have "hungry = [] \<Longrightarrow> \<forall>i < length out. want ! i \<le> out ! i"
      using 1(2) by (auto simp: wanting_def not_less [symmetric])
    ultimately show ?thesis using True by (intro exI [of _ pool]) auto
  next
    case False
    let ?share = "max (pool div length hungry) 1"
    obtain out' pool' still where f: "feed_round want ?share hungry (out, pool) [] = (out', pool', still)"
      by (metis prod_cases3)
    then have s: "wanting want out' still" "grown want out out'" "sum_list out' + pool' = sum_list out + pool"
      using feed_round_sound [OF f] 1(2) by simp_all
    show ?thesis
    proof (cases "length still = length hungry \<and> ?share = 1 \<and> pool' = 0")
      case True
      then have "share_loop want out pool hungry = out'"
        using False f by (simp add: share_loop.simps [of want out pool hungry] Let_def)
      then show ?thesis using s True by auto
    next
      case go: False
      then have eq: "share_loop want out pool hungry = share_loop want out' pool' still"
        using False f by (auto simp: share_loop.simps [of want out pool hungry] Let_def)
      obtain left where "grown want out' (share_loop want out' pool' still)"
        "sum_list (share_loop want out' pool' still) + left = sum_list out' + pool'"
        "left = 0 \<or> (\<forall>i < length out'. want ! i \<le> share_loop want out' pool' still ! i)"
        using 1(1) [OF False refl f [symmetric] refl refl go s(1)] by blast
      moreover have "length out' = length out"
        using s(2) by (simp add: grown_def)
      ultimately show ?thesis
        using s(2,3) eq grown_trans [OF s(2)] by (intro exI [of _ left]) simp
    qed
  qed
qed

text \<open>Columns share exactly the width there is. For any fixed part, smallest widths and wishes, a
  row gets one width per flexible cell; no cell gets less than its smallest width, none gets more
  than it wished for (or its smallest width, where the wish is less); when the smallest widths fit,
  the row stays within the budget, and room is left over only if every wish is met. When they do
  not fit, the smallest widths are used as they are.\<close>

theorem share_width_fair:
  assumes "length flex_want = length flex_min"
  shows "let out = share_width fixed flex_min flex_want budget in
    length out = length flex_min
    \<and> (\<forall>i < length out. flex_min ! i \<le> out ! i \<and> out ! i \<le> max (flex_min ! i) (flex_want ! i))
    \<and> (if fixed + sum_list flex_min \<le> budget
       then fixed + sum_list out \<le> budget
         \<and> (fixed + sum_list out = budget \<or> (\<forall>i < length out. flex_want ! i \<le> out ! i) \<or> out = [])
       else out = flex_min)"
proof -
  let ?pool = "budget - (fixed + sum_list flex_min)"
  let ?hungry = "filter (\<lambda>i. flex_min ! i < flex_want ! i) [0..<length flex_min]"
  have "wanting flex_want flex_min ?hungry"
    using assms by (auto simp: wanting_def)
  then obtain left where l: "grown flex_want flex_min (share_loop flex_want flex_min ?pool ?hungry)"
    "sum_list (share_loop flex_want flex_min ?pool ?hungry) + left = sum_list flex_min + ?pool"
    "left = 0 \<or> (\<forall>i < length flex_min. flex_want ! i \<le> share_loop flex_want flex_min ?pool ?hungry ! i)"
    using share_loop_sound by blast
  consider "flex_min = []" | "flex_min \<noteq> []" "budget < fixed + sum_list flex_min"
    | (room) "flex_min \<noteq> []" "fixed + sum_list flex_min \<le> budget" by linarith
  then show ?thesis
  proof cases
    case room
    then have "share_width fixed flex_min flex_want budget = share_loop flex_want flex_min ?pool ?hungry"
      by (simp add: share_width_def)
    then show ?thesis using l room by (auto simp: Let_def grown_def)
  qed (simp_all add: share_width_def)
qed

theorem share_width_fair_witness:
  "share_width 10 [4, 4, 4] [6, 30, 4] 40 = [6, 20, 4]
   \<and> length (share_width 10 [4, 4, 4] [6, 30, 4] 40) = 3"
proof
  show "share_width 10 [4, 4, 4] [6, 30, 4] 40 = [6, 20, 4]"
    by code_simp
  show "length (share_width 10 [4, 4, 4] [6, 30, 4] 40) = 3"
    using share_width_fair [of "[6, 30, 4]" "[4, 4, 4]" 10 40] by (simp add: Let_def)
qed

section \<open>Rows of labels\<close>

text \<open>Which labels are left once the given ones are shed.\<close>

definition without :: "nat \<Rightarrow> nat list \<Rightarrow> bool list" where
  "without n shed = map (\<lambda>i. i \<notin> set shed) [0..<n]"

lemma without_snoc: "i < n \<Longrightarrow> (without n shed)[i := False] = without n (shed @ [i])"
  by (rule nth_equalityI) (auto simp: without_def nth_list_update)

lemma shed_labels_prefix:
  assumes "set (gone @ shed) \<subseteq> {..< n}"
  shows "\<exists>k \<le> length shed. shed_labels widths sep budget shed (without n gone) = without n (gone @ take k shed)
    \<and> (\<forall>j < k. budget < row_width widths sep (without n (gone @ take j shed)))
    \<and> (k = length shed \<or> row_width widths sep (without n (gone @ take k shed)) \<le> budget)"
  using assms
proof (induction shed arbitrary: gone)
  case (Cons i shed)
  show ?case
  proof (cases "row_width widths sep (without n gone) \<le> budget")
    case True
    then show ?thesis by (intro exI [of _ 0]) simp
  next
    case False
    have "(without n gone)[i := False] = without n (gone @ [i])"
      using Cons.prems by (intro without_snoc) simp
    then obtain k where k: "k \<le> length shed"
      "shed_labels widths sep budget (i # shed) (without n gone) = without n (gone @ i # take k shed)"
      "\<forall>j < k. budget < row_width widths sep (without n (gone @ i # take j shed))"
      "k = length shed \<or> row_width widths sep (without n (gone @ i # take k shed)) \<le> budget"
      using Cons.IH [of "gone @ [i]"] Cons.prems False by auto
    then show ?thesis
      using False by (intro exI [of _ "Suc k"]) (auto simp: less_Suc_eq_0_disj)
  qed
qed simp

text \<open>Labels leave a row in the declared order, no earlier than they must: what \<open>fit_row\<close> keeps is the row
  without some initial part of the shed list, every shorter part would not have fitted, and the
  row fits unless everything that may go is gone. A label not on the list stays.\<close>

theorem labels_shed_in_order:
  assumes "set shed \<subseteq> {..< length widths}"
  shows "\<exists>k \<le> length shed. fit_row widths sep budget shed = filter (\<lambda>i. i \<notin> set (take k shed)) [0..<length widths]
    \<and> (\<forall>j < k. budget < row_width widths sep (map (\<lambda>i. i \<notin> set (take j shed)) [0..<length widths]))
    \<and> (k = length shed \<or> row_width widths sep (map (\<lambda>i. i \<notin> set (take k shed)) [0..<length widths]) \<le> budget)"
proof -
  let ?n = "length widths"
  have "replicate ?n True = without ?n []"
    by (simp add: without_def map_replicate_trivial)
  moreover have "filter (\<lambda>i. without ?n xs ! i) [0..<?n] = filter (\<lambda>i. i \<notin> set xs) [0..<?n]" for xs
    by (rule filter_cong) (simp_all add: without_def)
  ultimately show ?thesis
    using shed_labels_prefix [of "[]" shed ?n widths sep budget] assms
    by (auto simp: fit_row_def Let_def without_def)
qed

theorem labels_shed_in_order_witness:
  "fit_row [5, 7, 6] 1 13 [2, 0] = [0, 1]
   \<and> (\<exists>k \<le> length [2, 0 :: nat]. fit_row [5, 7, 6] 1 13 [2, 0]
        = filter (\<lambda>i. i \<notin> set (take k [2, 0])) [0..<length [5, 7, 6 :: nat]])"
proof
  show "fit_row [5, 7, 6] 1 13 [2, 0] = [0, 1]" by code_simp
  have "set [2, 0] \<subseteq> {..< length [5, 7, 6 :: nat]}" by simp
  from labels_shed_in_order [OF this, of 1 13]
  show "\<exists>k \<le> length [2, 0 :: nat]. fit_row [5, 7, 6] 1 13 [2, 0]
        = filter (\<lambda>i. i \<notin> set (take k [2, 0])) [0..<length [5, 7, 6 :: nat]]"
    by blast
qed

section \<open>Host names\<close>

lemma char_count_Nil [simp]: "char_count [] = 0" by simp

lemma char_count_chars: "char_count (concat (drop n (chars s))) = char_count s - n"
  by (simp add: char_count_def chars_concat_drop)

lemma ellipsis_count: "whole t \<Longrightarrow> char_count (ELLIPSIS @ t) = Suc (char_count t)"
  by (simp add: char_count_append) (simp add: char_count_def ELLIPSIS_def utf8_cont_def)

lemma whole_chars_drop: "whole s \<Longrightarrow> whole (concat (drop n (chars s)))"
proof (cases n)
  case (Suc m)
  have "set (drop n (chars s)) \<subseteq> set (tl (chars s))"
    using Suc by (simp add: drop_Suc set_drop_subset)
  then have "\<forall>c \<in> set (drop n (chars s)). is_char c \<and> \<not> utf8_cont (hd c)"
    using whole_chars_tl [of _ s] set_chars [of _ s] Suc
    by (metis in_set_dropD subsetD)
  then show ?thesis
    by (cases "drop n (chars s)") (auto simp: whole_def is_char_def)
qed simp

text \<open>A host name never overflows its column, and what is cut is its front: with room for two
  characters or more, either the whole host is on the row or an ellipsis and the host's own last
  characters, as many as fit.\<close>

theorem banner_keeps_host_end:
  assumes "whole host"
  shows "char_count (fit_banner user host budget) \<le> budget
    \<and> (2 \<le> budget \<longrightarrow>
        fit_banner user host budget \<in> {user @ lit ''@'' @ host, host}
        \<or> (\<exists>front back. host = front @ back \<and> char_count back = budget - 1
             \<and> fit_banner user host budget = ELLIPSIS @ back))"
proof -
  let ?cut = "concat (drop (char_count host - (budget - 1)) (chars host))"
  have w: "whole ?cut" using assms by (rule whole_chars_drop)
  have "char_count (last (chars host)) = 1" if "host \<noteq> []"
    using chars_single [OF set_chars [of "last (chars host)" host]] that by (simp add: char_count_def)
  moreover have "host = concat (take n (chars host)) @ concat (drop n (chars host))" for n
    by (metis append_take_drop_id concat_append concat_chars)
  then have "\<exists>front. host = front @ ?cut" by blast
  moreover have "budget < char_count host \<Longrightarrow> char_count ?cut = budget - 1" by (simp add: char_count_chars)
  ultimately show ?thesis
    using ellipsis_count [OF w]
    by (cases "budget = 0"; cases "budget = 1") (auto simp: fit_banner_def Let_def not_le)
qed

theorem banner_keeps_host_end_witness:
  "fit_banner (lit ''root'') (lit ''web-frontend-07'') 5 = ELLIPSIS @ lit ''d-07''
   \<and> char_count (fit_banner (lit ''root'') (lit ''web-frontend-07'') 5) \<le> 5"
proof
  show "fit_banner (lit ''root'') (lit ''web-frontend-07'') 5 = ELLIPSIS @ lit ''d-07''"
    by code_simp
  have "whole (lit ''web-frontend-07'')" by code_simp
  then show "char_count (fit_banner (lit ''root'') (lit ''web-frontend-07'') 5) \<le> 5"
    using banner_keeps_host_end [of "lit ''web-frontend-07''" "lit ''root''" 5] by simp
qed

section \<open>Prose\<close>

lemma join_words_snoc: "ws \<noteq> [] \<Longrightarrow> join_words (ws @ [w]) = join_words ws @ lit '' '' @ w"
  by (induction ws rule: join_words.induct) simp_all

lemma char_count_spaced: "whole w \<Longrightarrow> char_count (s @ lit '' '' @ w) = char_count s + (char_count w + 1)"
proof -
  assume w: "whole w"
  have "whole (lit '' '' @ w)" by (simp add: whole_def lit_def utf8_cont_def)
  moreover have "char_count (lit '' '') = 1" by code_simp
  ultimately show ?thesis using w by (simp only: char_count_append)
qed

text \<open>A line is one word, or several that fit together.\<close>

definition fair_line :: "nat \<Rightarrow> rstring list \<Rightarrow> bool" where
  "fair_line width ws \<longleftrightarrow> ws \<noteq> [] \<and> [] \<notin> set ws \<and> (length ws = 1 \<or> char_count (join_words ws) \<le> width)"

lemma join_words_Nil: "fair_line width ws \<Longrightarrow> join_words ws \<noteq> []"
  by (cases ws rule: join_words.cases) (auto simp: fair_line_def)

lemma wrap_step_eq:
  "wrap_step width (out, line) word =
     (if line = [] then (out, word)
      else if width < char_count line + (char_count word + 1) then (out @ [line], word)
      else (out, line @ lit '' '' @ word))"
  by (simp add: Let_def)

declare wrap_step.simps [simp del]

lemma wrap_step_groups:
  assumes "out = map join_words gs" "line = join_words g" "\<forall>x \<in> set gs. fair_line width x"
    and "g = [] \<or> fair_line width g" "w \<noteq> []" "whole w"
  shows "\<exists>gs' g'. wrap_step width (out, line) w = (map join_words gs', join_words g')
    \<and> concat gs' @ g' = concat gs @ g @ [w] \<and> (\<forall>x \<in> set gs'. fair_line width x) \<and> fair_line width g'"
proof -
  have l: "line \<noteq> [] \<longleftrightarrow> g \<noteq> []"
    using assms(2,4) join_words_Nil [of width g] by auto
  have c: "char_count (line @ lit '' '' @ w) = char_count line + (char_count w + 1)"
    using assms(6) by (rule char_count_spaced)
  consider "g = []" | (brk) "g \<noteq> []" "width < char_count line + (char_count w + 1)"
    | (fit) "g \<noteq> []" "\<not> width < char_count line + (char_count w + 1)" by blast
  then show ?thesis
  proof cases
    case 1
    then show ?thesis
      using assms(2-5) l by (intro exI [of _ gs] exI [of _ "[w]"]) (simp add: wrap_step_eq assms(1) fair_line_def)
  next
    case brk
    then have "wrap_step width (out, line) w = (map join_words (gs @ [g]), join_words [w])"
      using l by (simp add: wrap_step_eq assms(1,2))
    then show ?thesis
      using assms(3-5) brk(1) by (intro exI [of _ "gs @ [g]"] exI [of _ "[w]"]) (auto simp: fair_line_def)
  next
    case fit
    then have "wrap_step width (out, line) w = (map join_words gs, join_words (g @ [w]))"
      using l by (simp add: wrap_step_eq assms(1,2) join_words_snoc)
    moreover have "fair_line width (g @ [w])"
      using assms(2,4,5) fit c by (auto simp: fair_line_def join_words_snoc)
    ultimately show ?thesis
      using assms(3) by (intro exI [of _ gs] exI [of _ "g @ [w]"]) simp
  qed
qed

lemma wrap_fold_groups:
  assumes "\<forall>w \<in> set ws. w \<noteq> [] \<and> whole w" "\<forall>x \<in> set gs. fair_line width x" "g = [] \<or> fair_line width g"
  shows "\<exists>gs' g'. foldl (wrap_step width) (map join_words gs, join_words g) ws = (map join_words gs', join_words g')
    \<and> concat gs' @ g' = concat gs @ g @ ws \<and> (\<forall>x \<in> set gs'. fair_line width x) \<and> (g' = [] \<or> fair_line width g')"
  using assms
proof (induction ws arbitrary: gs g)
  case (Cons w ws)
  obtain gs1 g1 where s: "wrap_step width (map join_words gs, join_words g) w = (map join_words gs1, join_words g1)"
    "concat gs1 @ g1 = concat gs @ g @ [w]" "\<forall>x \<in> set gs1. fair_line width x" "fair_line width g1"
    using wrap_step_groups [OF refl refl Cons.prems(2,3), of w] Cons.prems(1) by auto
  have e: "concat gs1 @ g1 @ ws = concat gs @ g @ w # ws"
    using s(2) by (metis append_assoc append_Cons append_Nil)
  show ?case
    using Cons.IH [of gs1 g1] Cons.prems(1) s(3,4) by (simp add: s(1) e)
qed auto

text \<open>Wrapping loses nothing: the lines are the text's words, all of them and in order, put together with
  single spaces; and a line is wider than the pane only if it is one word that is.\<close>

theorem wrapping_keeps_words:
  assumes "0 < width" "\<forall>w \<in> set (split_whitespace t). w \<noteq> [] \<and> whole w"
  shows "\<exists>groups. wrap_words t width = map join_words groups \<and> concat groups = split_whitespace t
    \<and> (\<forall>g \<in> set groups. g \<noteq> [] \<and> (length g = 1 \<or> char_count (join_words g) \<le> width))"
proof -
  obtain gs g where f: "foldl (wrap_step width) ([], []) (split_whitespace t) = (map join_words gs, join_words g)"
    "concat gs @ g = split_whitespace t" "\<forall>x \<in> set gs. fair_line width x" "g = [] \<or> fair_line width g"
    using wrap_fold_groups [of "split_whitespace t" "[]" width "[]"] assms(2) by auto
  let ?groups = "gs @ (if g = [] then [] else [g])"
  have "wrap_words t width = map join_words ?groups"
    using f(1,4) assms(1) join_words_Nil [of width g] by (auto simp: wrap_words_def)
  then show ?thesis
    using f(2-4) by (intro exI [of _ ?groups]) (auto simp: fair_line_def)
qed

theorem wrapping_keeps_words_witness:
  "wrap_words (lit ''the pane  is narrow'') 8 = [lit ''the pane'', lit ''is'', lit ''narrow'']
   \<and> (\<exists>groups. wrap_words (lit ''the pane  is narrow'') 8 = map join_words groups
        \<and> concat groups = [lit ''the'', lit ''pane'', lit ''is'', lit ''narrow''])"
proof
  show "wrap_words (lit ''the pane  is narrow'') 8 = [lit ''the pane'', lit ''is'', lit ''narrow'']"
    by code_simp
  have w: "split_whitespace (lit ''the pane  is narrow'') = [lit ''the'', lit ''pane'', lit ''is'', lit ''narrow'']"
    by code_simp
  have "\<forall>w \<in> set (split_whitespace (lit ''the pane  is narrow'')). w \<noteq> [] \<and> whole w"
    unfolding w by code_simp
  then show "\<exists>groups. wrap_words (lit ''the pane  is narrow'') 8 = map join_words groups
      \<and> concat groups = [lit ''the'', lit ''pane'', lit ''is'', lit ''narrow'']"
    using wrapping_keeps_words [of 8 "lit ''the pane  is narrow''"] w by auto
qed

end
