(* ===== verification/Serve_Token.thy ===== *)
theory Serve_Token
  imports Panel_Filter Sieve
begin

text \<open>
  The token of \<open>multitop --serve\<close> (crates/multitop/src/serve_token.rs) and the files only their owner
  may open (owner_file.rs). A path's file is what is at it: nothing, or a mode and bytes. A start goes
  through its calls one at a time, and other starts may have their turns in between; what the calls
  answer beyond the file itself (a failing disk, the bytes of the generator) is the record
  \<open>start_env\<close>.
\<close>

section \<open>Tokens\<close>

definition TOKEN_BYTES :: nat where "TOKEN_BYTES = 32"
definition MIN_TOKEN_LEN :: nat where "MIN_TOKEN_LEN = 32"

definition hex_nibble :: "u8 \<Rightarrow> u8" where
  "hex_nibble n = (if n < 10 then 0x30 + n else 0x57 + n)"

definition hex_byte :: "u8 \<Rightarrow> rstring" where
  "hex_byte b = [hex_nibble (drop_bit 4 b), hex_nibble (and b 0x0F)]"

definition hex_lower :: "bytes \<Rightarrow> rstring" where
  "hex_lower bs = concat (map hex_byte bs)"

text \<open>\<open>generate\<close>: the bytes of the operating system's generator, or its error.\<close>

definition generate_token :: "(bytes, rstring) result \<Rightarrow> (rstring, rstring) result" where
  "generate_token random = rbind random (\<lambda>bs. Ok (hex_lower bs))"

text \<open>\<open>matches\<close>: \<open>ct_eq\<close> folds the differences of all the bytes before it looks at any.\<close>

definition ct_eq :: "bytes \<Rightarrow> bytes \<Rightarrow> bool" where
  "ct_eq xs ys \<longleftrightarrow> fold (\<lambda>(x, y) acc. or acc (xor x y)) (zip xs ys) 0 = 0"

definition token_matches :: "rstring \<Rightarrow> rstring \<Rightarrow> bool" where
  "token_matches expected got \<longleftrightarrow> (if length expected \<noteq> length got then False else ct_eq expected got)"

definition ascii_graphic :: "u8 \<Rightarrow> bool" where
  "ascii_graphic b \<longleftrightarrow> 0x21 \<le> b \<and> b \<le> 0x7E"

definition bad_token :: "rstring \<Rightarrow> rstring" where
  "bad_token shown =
     shown @ lit '' must hold one token of at least '' @ show_nat MIN_TOKEN_LEN
       @ lit '' visible ASCII characters; delete it and --serve writes a fresh 256-bit one''"

definition token_of_file :: "rstring \<Rightarrow> bytes \<Rightarrow> (rstring, rstring) result" where
  "token_of_file shown bs =
     (let token = trim (utf8_lossy bs)
      in if length token < MIN_TOKEN_LEN \<or> \<not> list_all ascii_graphic token then Err (bad_token shown)
         else Ok token)"

section \<open>Files only their owner may open\<close>

definition GROUP_AND_OTHER :: u32 where "GROUP_AND_OTHER = 0x3F"

definition octal3 :: "u32 \<Rightarrow> rstring" where
  "octal3 m = map (\<lambda>k. 0x30 + ucast (and (drop_bit k m) 7)) [6, 3, 0]"

definition refuse_if_open :: "rstring \<Rightarrow> u32 \<Rightarrow> (unit, rstring) result" where
  "refuse_if_open shown mode =
     (if and mode GROUP_AND_OTHER = 0 then Ok ()
      else Err (shown @ lit '' is open to other users (mode '' @ octal3 (and mode 0x1FF)
                  @ lit ''); run: chmod 600 '' @ shown))"

datatype outcome = Existing bytes | Created bytes

type_synonym file_at = "(u32 \<times> bytes) option"

text \<open>What the calls of one start answer: the error of the first or second \<open>metadata\<close>, of making the
  directory, of opening, of writing and of reading, if there is one, and what is made to be
  written.\<close>

record start_env =
  sn_shown :: rstring
  sn_stat_err :: "rstring option"
  sn_dir_err :: "rstring option"
  sn_make :: "(bytes, rstring) result"
  sn_open_err :: "rstring option"
  sn_write_err :: "(bytes \<times> rstring) option"
  sn_again_err :: "rstring option"
  sn_read_err :: "rstring option"

text \<open>A start between two of its calls, and after its last.\<close>

datatype start =
    Probe | MakeDir | Make | OpenNew bytes | WriteAll bytes | ProbeAgain | ReadExisting u32
  | Started "(outcome, rstring) result"

definition read_failed :: "start_env \<Rightarrow> rstring \<Rightarrow> start" where
  "read_failed se e = Started (Err (lit ''cannot read '' @ sn_shown se @ lit '': '' @ e))"

text \<open>\<open>read_or_create\<close> and \<open>read_existing\<close>, a call at a time. A file that is opened with
  \<open>create_new\<close> has its bytes only after the next call; a failed write leaves what it wrote.\<close>

fun start_step :: "start_env \<Rightarrow> start \<Rightarrow> file_at \<Rightarrow> start \<times> file_at" where
  "start_step se Probe f =
     (case sn_stat_err se of
        Some e \<Rightarrow> (read_failed se e, f)
      | None \<Rightarrow> (case f of Some (mode, _) \<Rightarrow> (ReadExisting mode, f) | None \<Rightarrow> (MakeDir, f)))"
| "start_step se MakeDir f =
     (case sn_dir_err se of Some e \<Rightarrow> (Started (Err e), f) | None \<Rightarrow> (Make, f))"
| "start_step se Make f =
     (case sn_make se of Err e \<Rightarrow> (Started (Err e), f) | Ok bs \<Rightarrow> (OpenNew bs, f))"
| "start_step se (OpenNew bs) f =
     (case f of
        Some _ \<Rightarrow> (ProbeAgain, f)
      | None \<Rightarrow>
          (case sn_open_err se of
             Some e \<Rightarrow> (Started (Err (lit ''cannot create '' @ sn_shown se @ lit '': '' @ e)), f)
           | None \<Rightarrow> (WriteAll bs, Some (0x180, []))))"
| "start_step se (WriteAll bs) f =
     (case sn_write_err se of
        Some (wrote, e) \<Rightarrow>
          (Started (Err (lit ''cannot write '' @ sn_shown se @ lit '': '' @ e)), map_option (\<lambda>(m, _). (m, wrote)) f)
      | None \<Rightarrow> (Started (Ok (Created bs)), map_option (\<lambda>(m, _). (m, bs)) f))"
| "start_step se ProbeAgain f =
     (case sn_again_err se of
        Some e \<Rightarrow> (read_failed se e, f)
      | None \<Rightarrow> (case f of Some (mode, _) \<Rightarrow> (ReadExisting mode, f)
                         | None \<Rightarrow> (read_failed se (lit ''No such file or directory (os error 2)''), f)))"
| "start_step se (ReadExisting mode) f =
     (case refuse_if_open (sn_shown se) mode of
        Err e \<Rightarrow> (Started (Err e), f)
      | Ok _ \<Rightarrow>
          (case sn_read_err se of
             Some e \<Rightarrow> (read_failed se e, f)
           | None \<Rightarrow> (case f of
                 Some (_, bs) \<Rightarrow> (Started (Ok (Existing bs)), f)
               | None \<Rightarrow> (read_failed se (lit ''No such file or directory (os error 2)''), f))))"
| "start_step se (Started r) f = (Started r, f)"

fun start_run :: "nat \<Rightarrow> start_env \<Rightarrow> start \<Rightarrow> file_at \<Rightarrow> start \<times> file_at" where
  "start_run 0 se st f = (st, f)"
| "start_run (Suc n) se st f = (case start_step se st f of (st, f) \<Rightarrow> start_run n se st f)"

text \<open>\<open>load_or_create\<close> of serve_token.rs: a start on its own takes at most six calls.\<close>

definition token_result :: "rstring \<Rightarrow> (outcome, rstring) result \<Rightarrow> (rstring \<times> bool, rstring) result" where
  "token_result shown r =
     (case r of
        Err e \<Rightarrow> Err e
      | Ok (Existing bs) \<Rightarrow> rbind (token_of_file shown bs) (\<lambda>t. Ok (t, False))
      | Ok (Created bs) \<Rightarrow> rbind (token_of_file shown bs) (\<lambda>t. Ok (t, True)))"

definition make_token :: "(bytes, rstring) result \<Rightarrow> (bytes, rstring) result" where
  "make_token random =
     (case generate_token random of
        Ok t \<Rightarrow> Ok (t @ [0x0A])
      | Err e \<Rightarrow> Err (lit ''could not read the OS CSPRNG ('' @ e @ lit '')''))"

definition load_or_create :: "start_env \<Rightarrow> file_at \<Rightarrow> (rstring \<times> bool, rstring) result \<times> file_at" where
  "load_or_create se f =
     (case start_run 6 se Probe f of
        (Started r, f) \<Rightarrow> (token_result (sn_shown se) r, f)
      | (_, f) \<Rightarrow> (Err [], f))"

text \<open>Two starts on one path, each turn the first's or the second's.\<close>

fun two_starts :: "bool list \<Rightarrow> start_env \<Rightarrow> start_env \<Rightarrow> start \<times> start \<times> file_at \<Rightarrow> start \<times> start \<times> file_at" where
  "two_starts [] a b w = w"
| "two_starts (True # ts) a b (s, t, f) = (case start_step a s f of (s, f) \<Rightarrow> two_starts ts a b (s, t, f))"
| "two_starts (False # ts) a b (s, t, f) = (case start_step b t f of (t, f) \<Rightarrow> two_starts ts a b (s, t, f))"

section \<open>What a start leaves and serves\<close>

lemma xor_eq_0: "xor x y = (0 :: 'a::len word) \<longleftrightarrow> x = y"
  by (metis xor.assoc xor.left_neutral xor_self_eq)

lemma ct_eq_fold:
  assumes "length xs = length ys"
  shows "fold (\<lambda>(x, y) acc. or acc (xor x y)) (zip xs ys) a = (0 :: u8) \<longleftrightarrow> a = 0 \<and> xs = ys"
  using assms
proof (induction xs ys arbitrary: a rule: list_induct2)
  case (Cons x xs y ys)
  then show ?case by (auto simp: or_eq_0_iff xor_eq_0)
qed simp

lemma token_matches_iff [simp]: "token_matches expected got \<longleftrightarrow> expected = got"
  by (auto simp: token_matches_def ct_eq_def ct_eq_fold)

lemma nibbles_graphic: "list_all (\<lambda>k. ascii_graphic (hex_nibble (of_nat k))) [0..<16]"
  by code_simp

lemma nibble_graphic:
  assumes "unat n < 16"
  shows "ascii_graphic (hex_nibble n)"
  using nibbles_graphic assms by (auto simp: list_all_iff dest!: bspec [of _ _ "unat n"])

lemma nibble_less: "unat (and b 0x0F :: u8) < 16" "unat (drop_bit 4 b :: u8) < 16"
proof -
  have e: "and b 0x0F = take_bit 4 b" by (simp add: take_bit_eq_mask mask_eq_exp_minus_1)
  have "unat (take_bit 4 b) = unat b mod 16"
    by (subst unsigned_take_bit_eq) (simp add: take_bit_eq_mod)
  then show "unat (and b 0x0F :: u8) < 16" unfolding e by simp
  have "unat (drop_bit 4 b) = unat b div 16"
    by (subst unat_drop_bit_eq) (simp add: drop_bit_eq_div)
  moreover have "unat b < 256" using unsigned_less [of b] by simp
  ultimately show "unat (drop_bit 4 b :: u8) < 16" by simp
qed

lemma hex_nibble_graphic: "ascii_graphic (hex_nibble (and b 0x0F))" "ascii_graphic (hex_nibble (drop_bit 4 b))"
  using nibble_less nibble_graphic by blast+

lemma hex_lower_graphic: "list_all ascii_graphic (hex_lower bs)"
  by (induction bs) (simp_all add: hex_lower_def hex_byte_def hex_nibble_graphic)

lemma hex_lower_length [simp]: "length (hex_lower bs) = 2 * length bs"
  by (induction bs) (simp_all add: hex_lower_def hex_byte_def)

lemma graphic_not_ws:
  assumes "ascii_graphic c"
  shows "c \<notin> hd ` set ws_chars \<and> c \<notin> last ` set ws_chars"
  using assms by (auto simp: ws_chars_def ascii_graphic_def)

lemma graphic_trim:
  assumes "list_all ascii_graphic s"
  shows "trim s = s" "trim (s @ [0x0A]) = s"
proof -
  show t: "trim s = s"
  proof (cases "s = []")
    case True
    then show ?thesis by (simp add: trim_def trim_start.simps trim_end.simps ws_prefix_def ws_suffix_def
          ws_chars_def starts_with_def ends_with_def)
  next
    case False
    then have "ascii_graphic (hd s)" "ascii_graphic (last s)" using assms by (simp_all add: list_all_iff)
    then show ?thesis using False by (intro trim_ends) (auto dest: graphic_not_ws)
  qed
  show "trim (s @ [0x0A]) = s"
  proof (cases "s = []")
    case True
    then show ?thesis using trim_end_newline [of "[]"]
      by (simp add: trim_def trim_start_newline trim_end.simps ws_suffix_def ws_chars_def starts_with_def ends_with_def)
  next
    case False
    then have "hd (s @ [0x0A]) \<notin> hd ` set ws_chars"
      using assms graphic_not_ws [of "hd s"] by (simp add: list_all_iff)
    then have "trim_start (s @ [0x0A]) = s @ [0x0A]" "trim_start s = s"
      using False by (simp_all add: trim_start.simps ws_prefix_None_hd)
    then show ?thesis using t by (simp add: trim_def trim_end_newline)
  qed
qed

lemma graphic_ascii: "ascii_graphic b \<Longrightarrow> b < 0x80"
  unfolding ascii_graphic_def by (rule le_less_trans [of _ "0x7E"]) simp_all

lemma graphic_valid: "list_all ascii_graphic s \<Longrightarrow> valid_utf8 s" "list_all ascii_graphic s \<Longrightarrow> valid_utf8 (s @ [0x0A])"
  by (rule valid_utf8_ascii, auto simp: list_all_iff graphic_ascii)+

lemma fresh_token_good:
  "length bs = TOKEN_BYTES \<Longrightarrow> token_of_file shown (hex_lower bs @ [0x0A]) = Ok (hex_lower bs)"
  using hex_lower_graphic [of bs]
  by (simp add: token_of_file_def graphic_valid graphic_trim Let_def TOKEN_BYTES_def MIN_TOKEN_LEN_def)

section \<open>Starts that race\<close>

fun holds_of :: "bytes \<Rightarrow> start \<Rightarrow> bool" where
  "holds_of c (WriteAll bs) = (bs = c)"
| "holds_of c (Started (Inr (Created bs))) = (bs = c)"
| "holds_of c (Started (Inr (Existing bs))) = (bs = c \<or> bs = [])"
| "holds_of c _ = True"

fun before_open :: "start \<Rightarrow> bool" where
  "before_open (WriteAll bs) = False"
| "before_open (Started (Inr r)) = False"
| "before_open _ = True"

definition one_content :: "start \<Rightarrow> start \<Rightarrow> file_at \<Rightarrow> bool" where
  "one_content s t f \<longleftrightarrow>
     f = None \<and> before_open s \<and> before_open t
     \<or> (\<exists>c m x. f = Some (m, x) \<and> x \<in> {[], c} \<and> holds_of c s \<and> holds_of c t)"

lemma one_content_sym: "one_content s t f \<longleftrightarrow> one_content t s f"
  by (auto simp: one_content_def)

lemma before_open_holds: "before_open s \<Longrightarrow> holds_of c s"
  by (cases "(c, s)" rule: holds_of.cases) auto

lemma one_content_step:
  assumes "one_content s t f" "sn_write_err a = None" "start_step a s f = (s', f')"
  shows "one_content s' t f'"
proof (cases f)
  case None
  then have b: "before_open s" "before_open t" using assms(1) by (auto simp: one_content_def)
  then show ?thesis
    using assms(3) None before_open_holds [OF b(2)]
    by (cases s) (auto simp: one_content_def read_failed_def split: option.splits sum.splits)
next
  case (Some mx)
  then obtain c m x where c: "f = Some (m, x)" "x \<in> {[], c}" "holds_of c s" "holds_of c t"
    using assms(1) by (auto simp: one_content_def)
  then have "holds_of c s' \<and> (\<exists>y. f' = Some (m, y) \<and> y \<in> {[], c})"
    using assms(2,3)
    by (cases s) (auto simp: read_failed_def split: option.splits sum.splits)
  then show ?thesis using c(4) by (auto simp: one_content_def)
qed

lemma two_starts_content:
  assumes "one_content s t f" "sn_write_err a = None" "sn_write_err b = None"
    and "two_starts ts a b (s, t, f) = (s', t', f')"
  shows "one_content s' t' f'"
  using assms
proof (induction ts a b "(s, t, f)" arbitrary: s t f rule: two_starts.induct)
  case (2 ts a b s t f)
  obtain s2 f2 where st: "start_step a s f = (s2, f2)" by fastforce
  show ?case
    using 2(1) [OF st [symmetric]] one_content_step [OF 2(2,3) st] 2(3-5) st by simp
next
  case (3 ts a b s t f)
  obtain t2 f2 where st: "start_step b t f = (t2, f2)" by fastforce
  have "one_content s t2 f2"
    using one_content_step [OF _ 3(4) st] 3(2) one_content_sym by blast
  then show ?case using 3(1) [OF st [symmetric]] 3(3-5) st by simp
qed simp

lemma one_content_start: "one_content Probe Probe f"
  by (cases f) (auto simp: one_content_def)

lemma empty_no_token: "token_of_file shown [] = Err (bad_token shown)"
  by (simp add: token_of_file_def MIN_TOKEN_LEN_def trim_def trim_start.simps trim_end.simps ws_prefix_def
      ws_suffix_def ws_chars_def starts_with_def ends_with_def)

lemma token_result_Ok:
  assumes "holds_of c (Started r)" "token_result shown r = Ok (tok, made)"
  shows "token_of_file shown c = Ok tok"
  using assms
  by (cases "(c, Started r)" rule: holds_of.cases)
    (auto simp: token_result_def empty_no_token rbind_Inr_iff)

text \<open>C18: Two starts of the server at one path agree on the token. However their calls interleave, whatever
  was at the path before and whoever loses the race to create the file, if both starts get a token,
  it is the same one; a start that reads the file the other has made and not yet written gets an
  error, not a token.\<close>

theorem starts_agree_on_token:
  assumes "sn_write_err a = None" "sn_write_err b = None"
    and "two_starts ts a b (Probe, Probe, f) = (Started r1, Started r2, f')"
    and "token_result shown r1 = Ok (tok1, made1)" "token_result shown r2 = Ok (tok2, made2)"
  shows "tok1 = tok2"
proof -
  have "one_content (Started r1) (Started r2) f'"
    by (rule two_starts_content [OF one_content_start assms(1-3)])
  moreover have "\<not> before_open (Started r1)"
    using assms(4) by (cases r1) (auto simp: token_result_def)
  ultimately obtain c where "holds_of c (Started r1)" "holds_of c (Started r2)"
    by (auto simp: one_content_def)
  then show ?thesis using token_result_Ok assms(4,5) by (metis sum.inject(2))
qed

definition sample_start :: "u8 \<Rightarrow> start_env" where
  "sample_start b =
     \<lparr>sn_shown = lit ''/etc/t'', sn_stat_err = None, sn_dir_err = None,
      sn_make = make_token (Ok (replicate 32 b)), sn_open_err = None, sn_write_err = None,
      sn_again_err = None, sn_read_err = None\<rparr>"

theorem starts_agree_on_token_witness:
  "let ts = [True, False, True, False, True, False, True, False, True, False, False];
       (s, t, f) = two_starts ts (sample_start 1) (sample_start 2) (Probe, Probe, None)
   in \<exists>r1 r2 tok1 tok2 m1 m2. s = Started r1 \<and> t = Started r2
        \<and> token_result (lit ''p'') r1 = Ok (tok1, m1) \<and> token_result (lit ''p'') r2 = Ok (tok2, m2)
        \<and> tok1 = tok2"
proof -
  let ?ts = "[True, False, True, False, True, False, True, False, True, False, False]"
  let ?c = "hex_lower (replicate 32 1) @ [0x0A]"
  have run: "two_starts ?ts (sample_start 1) (sample_start 2) (Probe, Probe, None) =
      (Started (Ok (Created ?c)), Started (Ok (Existing ?c)), Some (0x180, ?c))"
    by (simp add: sample_start_def make_token_def generate_token_def refuse_if_open_def GROUP_AND_OTHER_def)
  have "token_of_file (lit ''p'') ?c = Ok (hex_lower (replicate 32 1))"
    by (rule fresh_token_good) (simp add: TOKEN_BYTES_def)
  then have "\<exists>tok m. token_result (lit ''p'') (Ok (Created ?c)) = Ok (tok, m)"
    "\<exists>tok m. token_result (lit ''p'') (Ok (Existing ?c)) = Ok (tok, m)"
    by (auto simp: token_result_def)
  then obtain tok1 m1 tok2 m2 where r: "token_result (lit ''p'') (Ok (Created ?c)) = Ok (tok1, m1)"
    "token_result (lit ''p'') (Ok (Existing ?c)) = Ok (tok2, m2)"
    by blast
  have "tok1 = tok2"
    by (rule starts_agree_on_token [OF _ _ run r]) (simp_all add: sample_start_def)
  then show ?thesis
    unfolding Let_def run prod.case using r by blast
qed

text \<open>The token outlives the server. A first start in an empty place makes a file only its owner may open,
  serves the token it wrote there, and every later start serves the same token and leaves the file
  as it is; a file others may open is refused, and nothing is served.\<close>

theorem token_kept:
  assumes "sn_stat_err se = None" "sn_dir_err se = None" "sn_open_err se = None" "sn_write_err se = None"
    and "sn_read_err se = None" "sn_make se = make_token (Ok bs)" "length bs = TOKEN_BYTES"
  shows "load_or_create se None = (Ok (hex_lower bs, True), Some (0x180, hex_lower bs @ [0x0A]))
    \<and> load_or_create se (Some (0x180, hex_lower bs @ [0x0A]))
      = (Ok (hex_lower bs, False), Some (0x180, hex_lower bs @ [0x0A]))
    \<and> (\<forall>mode c. and mode GROUP_AND_OTHER \<noteq> 0 \<longrightarrow>
          load_or_create se (Some (mode, c))
            = (Err (sn_shown se @ lit '' is open to other users (mode '' @ octal3 (and mode 0x1FF)
                @ lit ''); run: chmod 600 '' @ sn_shown se), Some (mode, c)))"
  using fresh_token_good [OF assms(7)]
  by (simp add: load_or_create_def numeral_eq_Suc assms(1-6) token_result_def make_token_def
      generate_token_def refuse_if_open_def GROUP_AND_OTHER_def)

theorem token_kept_witness:
  "load_or_create (sample_start 7) None
     = (Ok (hex_lower (replicate 32 7), True), Some (0x180, hex_lower (replicate 32 7) @ [0x0A]))"
  using token_kept [of "sample_start 7" "replicate 32 7"]
  by (simp add: sample_start_def TOKEN_BYTES_def)

end
