(* ===== verification/Health.thy ===== *)
theory Health
  imports Panel_Filter
begin

text \<open>
  The health score of a host (crates/multitop/src/health.rs): what it starts from and what an alert, a
  critical reading, a reading near its alert, a locked vault and a busy link take off it. The score
  is an \<open>i16\<close> in the code and stays between -160 and 100, so it is an \<open>int\<close> here.
\<close>

section \<open>Sums of doubles\<close>

text \<open>\<open>x + y\<close> with everything a double can be: rounded once, to nearest; a sum of the two that is zero
  is \<open>+0\<close> unless both are \<open>-0\<close>.\<close>

definition F64_NAN :: f64 where "F64_NAN = 0x7FF8000000000000"

definition f64_signed_sig :: "f64 \<Rightarrow> int \<Rightarrow> int" where
  "f64_signed_sig x k =
     (if f64_sign x = 1 then -1 else 1) * int (f64_sig x) * 2 ^ nat (f64_pow x - k)"

definition f64_add :: "f64 \<Rightarrow> f64 \<Rightarrow> f64" where
  "f64_add x y =
     (if f64_nan x \<or> f64_nan y then F64_NAN
      else if f64_exp x = 2047 \<and> f64_exp y = 2047 then (if f64_sign x = f64_sign y then x else F64_NAN)
      else if f64_exp x = 2047 then x
      else if f64_exp y = 2047 then y
      else let k = min (f64_pow x) (f64_pow y);
               v = f64_signed_sig x k + f64_signed_sig y k;
               n = nat (abs v);
               mag = (if int (ilog2 n) + k < -1022 then n * 2 ^ nat (k + 1074)
                      else min (unat (f64_nearest n 1 k)) (2047 * 2 ^ 52))
           in if v = 0 then of_nat (if f64_sign x = 1 \<and> f64_sign y = 1 then 2 ^ 63 else 0)
              else of_nat ((if v < 0 then 2 ^ 63 else 0) + mag))"

section \<open>The score\<close>

definition MAX_HEALTH :: int where "MAX_HEALTH = 100"
definition HEALTH_RED_BELOW :: int where "HEALTH_RED_BELOW = 50"
definition HEALTH_YELLOW_BELOW :: int where "HEALTH_YELLOW_BELOW = 80"
definition CRITICAL_PCT :: f64 where "CRITICAL_PCT = 0x4057C00000000000"
definition WARNING_FACTOR :: f64 where "WARNING_FACTOR = 0x3FE8000000000000"
definition CPU_ALERT_PENALTY :: int where "CPU_ALERT_PENALTY = 30"
definition MEM_ALERT_PENALTY :: int where "MEM_ALERT_PENALTY = 30"
definition DISK_ALERT_PENALTY :: int where "DISK_ALERT_PENALTY = 20"
definition CRITICAL_EXTRA_PENALTY :: int where "CRITICAL_EXTRA_PENALTY = 10"
definition NEAR_ALERT_PENALTY :: int where "NEAR_ALERT_PENALTY = 10"
definition VAULT_PENALTY :: int where "VAULT_PENALTY = 15"
definition NET_PENALTY :: int where "NET_PENALTY = 10"
definition NET_HIGH_BYTES_PER_SEC :: f64 where "NET_HIGH_BYTES_PER_SEC = 0x4189000000000000"

lemmas health_constants =
  MAX_HEALTH_def HEALTH_RED_BELOW_def HEALTH_YELLOW_BELOW_def CPU_ALERT_PENALTY_def MEM_ALERT_PENALTY_def
  DISK_ALERT_PENALTY_def CRITICAL_EXTRA_PENALTY_def NEAR_ALERT_PENALTY_def VAULT_PENALTY_def NET_PENALTY_def

text \<open>What a reading takes off: at or over its alert, critical, near it.\<close>

definition penalty :: "u8 \<Rightarrow> f64 \<Rightarrow> int \<Rightarrow> int \<Rightarrow> int" where
  "penalty alert_at pct alert_penalty near_penalty =
     (if f64_le (f64_of_u8 alert_at) pct then
        alert_penalty + (if f64_le CRITICAL_PCT pct then CRITICAL_EXTRA_PENALTY else 0)
      else if f64_le (f64_mul (f64_of_u8 alert_at) WARNING_FACTOR) pct then near_penalty else 0)"

definition health_with_vault :: "snapshot \<Rightarrow> alerts \<Rightarrow> bool \<Rightarrow> int" where
  "health_with_vault snap cfg vault_locked =
     (let score = MAX_HEALTH;
          score = score - penalty (or_default 80 (al_cpu cfg)) (s_cpu_pct snap) CPU_ALERT_PENALTY NEAR_ALERT_PENALTY;
          score = score - penalty (or_default 85 (al_mem cfg)) (u_pct (s_mem snap)) MEM_ALERT_PENALTY NEAR_ALERT_PENALTY;
          score = score - penalty (or_default 90 (al_disk cfg)) (u_pct (s_disk snap)) DISK_ALERT_PENALTY 0;
          score = (if vault_locked then score - VAULT_PENALTY else score);
          score = (if f64_le NET_HIGH_BYTES_PER_SEC (f64_add (s_rx_rate snap) (s_tx_rate snap))
                   then score - NET_PENALTY else score)
      in max 0 (min MAX_HEALTH score))"

definition health :: "snapshot \<Rightarrow> alerts \<Rightarrow> int" where
  "health snap cfg = health_with_vault snap cfg False"

section \<open>Scores and alerts\<close>

lemma penalty_bounds:
  "0 \<le> a \<Longrightarrow> 0 \<le> n \<Longrightarrow> 0 \<le> penalty al pct a n \<and> penalty al pct a n \<le> max (a + 10) n"
  by (auto simp: penalty_def health_constants)

lemma penalty_alert: "f64_le (f64_of_u8 al) pct \<Longrightarrow> a \<le> penalty al pct a n"
  by (simp add: penalty_def health_constants)

lemma penalty_quiet: "\<not> f64_le (f64_of_u8 al) pct \<Longrightarrow> 0 \<le> n \<Longrightarrow> penalty al pct a n \<le> n"
  by (simp add: penalty_def)

text \<open>The score is a percentage that follows the alerts: it is between 0 and 100; a host that breaches a
  threshold scores at most 80, and at most 70 if it is the processor's or the memory's; one that
  breaches none, with its vault open, scores at least 70; and locking the vault never raises it.\<close>

theorem score_follows_alerts:
  "0 \<le> health_with_vault snap cfg locked \<and> health_with_vault snap cfg locked \<le> 100
   \<and> (is_breaching snap cfg \<longrightarrow> health_with_vault snap cfg locked \<le> 80)
   \<and> (f64_le (f64_of_u8 (or_default 80 (al_cpu cfg))) (s_cpu_pct snap)
       \<or> f64_le (f64_of_u8 (or_default 85 (al_mem cfg))) (u_pct (s_mem snap))
      \<longrightarrow> health_with_vault snap cfg locked \<le> 70)
   \<and> (\<not> is_breaching snap cfg \<longrightarrow> 70 \<le> health snap cfg)
   \<and> health_with_vault snap cfg True \<le> health_with_vault snap cfg False"
proof -
  let ?c = "penalty (or_default 80 (al_cpu cfg)) (s_cpu_pct snap) CPU_ALERT_PENALTY NEAR_ALERT_PENALTY"
  let ?m = "penalty (or_default 85 (al_mem cfg)) (u_pct (s_mem snap)) MEM_ALERT_PENALTY NEAR_ALERT_PENALTY"
  let ?d = "penalty (or_default 90 (al_disk cfg)) (u_pct (s_disk snap)) DISK_ALERT_PENALTY 0"
  have b: "0 \<le> ?c" "0 \<le> ?m" "0 \<le> ?d"
    using penalty_bounds by (simp_all add: health_constants)
  have h: "health_with_vault snap cfg locked = max 0 (min 100 (100 - ?c - ?m - ?d - (if locked then 15 else 0)
      - (if f64_le NET_HIGH_BYTES_PER_SEC (f64_add (s_rx_rate snap) (s_tx_rate snap)) then 10 else 0)))" for locked
    by (simp add: health_with_vault_def health_constants Let_def algebra_simps)
  have alert: "f64_le (f64_of_u8 (or_default 80 (al_cpu cfg))) (s_cpu_pct snap) \<Longrightarrow> 30 \<le> ?c"
    "f64_le (f64_of_u8 (or_default 85 (al_mem cfg))) (u_pct (s_mem snap)) \<Longrightarrow> 30 \<le> ?m"
    "f64_le (f64_of_u8 (or_default 90 (al_disk cfg))) (u_pct (s_disk snap)) \<Longrightarrow> 20 \<le> ?d"
    using penalty_alert by (simp_all add: health_constants)
  have quiet: "\<not> f64_le (f64_of_u8 (or_default 80 (al_cpu cfg))) (s_cpu_pct snap) \<Longrightarrow> ?c \<le> 10"
    "\<not> f64_le (f64_of_u8 (or_default 85 (al_mem cfg))) (u_pct (s_mem snap)) \<Longrightarrow> ?m \<le> 10"
    "\<not> f64_le (f64_of_u8 (or_default 90 (al_disk cfg))) (u_pct (s_disk snap)) \<Longrightarrow> ?d \<le> 0"
    using penalty_quiet by (simp_all add: health_constants)
  have br: "is_breaching snap cfg \<longleftrightarrow> f64_le (f64_of_u8 (or_default 80 (al_cpu cfg))) (s_cpu_pct snap)
      \<or> f64_le (f64_of_u8 (or_default 85 (al_mem cfg))) (u_pct (s_mem snap))
      \<or> f64_le (f64_of_u8 (or_default 90 (al_disk cfg))) (u_pct (s_disk snap))"
    by (simp add: is_breaching_def is_breaching_with_vault_def)
  show ?thesis
    unfolding h health_def br
  proof (intro conjI impI, goal_cases)
    case 3
    then have "20 \<le> ?c + ?m + ?d" using b alert by linarith
    then show ?case by simp
  next
    case 4
    then have "30 \<le> ?c + ?m" using b alert by linarith
    then show ?case using b(3) by simp
  next
    case 5
    then have "?c \<le> 10" "?m \<le> 10" "?d \<le> 0" using quiet by blast+
    then show ?case by simp
  qed simp_all
qed

definition idle_reading :: "f64 \<Rightarrow> snapshot" where
  "idle_reading cpu =
     \<lparr>s_host = [], s_agent_version = [], s_cpu_pct = cpu, s_cpu_mhz = None, s_cores = [], s_temp_unit = Celsius,
      s_mem = usage_new 100 50, s_disk = usage_new 100 50, s_rx_rate = 0, s_tx_rate = 0, s_procs = [], s_proc_names = []\<rparr>"

theorem score_follows_alerts_witness:
  "is_breaching (idle_reading 0) (default_alerts\<lparr>al_cpu := Some 0\<rparr>)
   \<and> health (idle_reading 0) (default_alerts\<lparr>al_cpu := Some 0\<rparr>) \<le> 70"
proof -
  have "f64_le (f64_of_u8 0) 0"
    by (simp add: f64_of_u8_def unsigned_f64_def f64_nearest_def f64_le_def f64_nan_def f64_exp_def)
  then have c: "f64_le (f64_of_u8 (or_default 80 (al_cpu (default_alerts\<lparr>al_cpu := Some 0\<rparr>)))) (s_cpu_pct (idle_reading 0))"
    by (simp add: idle_reading_def default_alerts_def or_default_def)
  then have "is_breaching (idle_reading 0) (default_alerts\<lparr>al_cpu := Some 0\<rparr>)"
    by (simp add: is_breaching_def is_breaching_with_vault_def)
  then show ?thesis
    using c score_follows_alerts [of "idle_reading 0" "default_alerts\<lparr>al_cpu := Some 0\<rparr>" False] by (simp add: health_def)
qed

end
