(* ===== verification/Server.thy ===== *)
theory Server
  imports Serve_Token Health Monitor_Session
begin

text \<open>
  The companion server (crates/multitop/src/server.rs): who is answered, what each path answers from
  the live state, and the collector that keeps the live state.

  The bodies are the values that are serialized. A request is its path, whether its method is one the
  routes take, and its \<open>Authorization\<close> header; the percent-decoding of a path's last segment is axum's,
  the argument \<open>dec\<close>. A \<open>HashMap\<close> is a map and, where the code iterates over it, the order it
  iterates in: a list of its keys, an argument.
\<close>

section \<open>State\<close>

record live =
  lv_snapshots :: "rstring \<rightharpoonup> snapshot"
  lv_histories :: "rstring \<rightharpoonup> history"
  lv_errors :: "rstring \<rightharpoonup> rstring"

definition live_empty :: live where
  "live_empty = \<lparr>lv_snapshots = Map.empty, lv_histories = Map.empty, lv_errors = Map.empty\<rparr>"

record serve_state =
  sv_token :: rstring
  sv_servers :: "server list"
  sv_alerts :: alerts

text \<open>The orders in which the snapshots and the histories are iterated over.\<close>

record orders =
  or_snapshots :: "rstring list"
  or_histories :: "rstring list"

section \<open>Who is answered\<close>

text \<open>\<open>HeaderValue::to_str\<close>: only of visible ASCII, spaces and tabs.\<close>

definition header_str :: "bytes \<Rightarrow> rstring option" where
  "header_str v = (if list_all (\<lambda>b. 0x20 \<le> b \<and> b < 0x7F \<or> b = 0x09) v then Some v else None)"

definition check_auth :: "bytes option \<Rightarrow> rstring \<Rightarrow> bool" where
  "check_auth auth token =
     (case auth of
        None \<Rightarrow> False
      | Some v \<Rightarrow>
          (case header_str v of
             None \<Rightarrow> False
           | Some val \<Rightarrow>
               (let got = trim (case strip_prefix (lit ''Bearer '') val of Some t \<Rightarrow> t | None \<Rightarrow> val)
                in token_matches token got)))"

definition PUBLIC_PATHS :: "rstring list" where "PUBLIC_PATHS = [lit ''/'']"

record request =
  rq_path :: rstring
  rq_get :: bool
  rq_auth :: "bytes option"

datatype endpoint =
  EpIndex | EpHosts | EpHealth | EpSnapshot rstring | EpHistory rstring | EpMtop | EpNone nat

text \<open>The path parameter of a route: one segment, not empty, percent-decoded.\<close>

definition segment :: "(rstring \<Rightarrow> rstring option) \<Rightarrow> rstring \<Rightarrow> rstring \<Rightarrow> rstring option option" where
  "segment dec pre path =
     (case strip_prefix pre path of
        Some s \<Rightarrow> if s \<noteq> [] \<and> 0x2F \<notin> set s then Some (dec s) else None
      | None \<Rightarrow> None)"

text \<open>The routes of \<open>router\<close>, all of them for GET.\<close>

definition route :: "(rstring \<Rightarrow> rstring option) \<Rightarrow> request \<Rightarrow> endpoint" where
  "route dec rq =
     (let p = rq_path rq; get = (\<lambda>e. if rq_get rq then e else EpNone 405);
          arg = (\<lambda>ep d. get (case d of Some host \<Rightarrow> ep host | None \<Rightarrow> EpNone 400))
      in if p = lit ''/'' then get EpIndex
         else if p = lit ''/api/hosts'' then get EpHosts
         else if p = lit ''/api/health'' then get EpHealth
         else if p = lit ''/api/mtop'' then get EpMtop
         else case segment dec (lit ''/api/snapshot/'') p of
                Some d \<Rightarrow> arg EpSnapshot d
              | None \<Rightarrow>
                  (case segment dec (lit ''/api/history/'') p of
                     Some d \<Rightarrow> arg EpHistory d
                   | None \<Rightarrow> EpNone 404))"

section \<open>What is answered\<close>

record host_info =
  hi_host :: rstring
  hi_name :: "rstring option"
  hi_port :: u16
  hi_user :: rstring
  hi_has_snapshot :: bool
  hi_health :: "int option"
  hi_breaching :: bool
  hi_reachable :: bool

datatype mtop_entry = MtopOk rstring f64 f64 | MtopFailed

datatype reply_body =
    IndexPage
  | Unauthorized
  | HostsBody "host_info list"
  | HealthBody nat nat nat nat
  | SnapshotBody snapshot
  | HistoryBody history
  | ErrorBody rstring
  | MtopBody "mtop_entry list"
  | NoBody

type_synonym reply = "nat \<times> reply_body"

text \<open>By the key itself, or else the first key in the order that contains the host.\<close>

definition live_lookup :: "rstring list \<Rightarrow> (rstring \<rightharpoonup> 'a) \<Rightarrow> rstring \<Rightarrow> 'a option" where
  "live_lookup ks m host =
     (case m host of
        Some v \<Rightarrow> Some v
      | None \<Rightarrow> (case filter (\<lambda>k. m k \<noteq> None \<and> contains k host) ks of [] \<Rightarrow> None | k # _ \<Rightarrow> m k))"

definition host_info_of :: "serve_state \<Rightarrow> orders \<Rightarrow> live \<Rightarrow> server \<Rightarrow> host_info" where
  "host_info_of st ord lv s =
     (let snap = live_lookup (or_snapshots ord) (lv_snapshots lv) (sv_host s)
      in \<lparr>hi_host = sv_host s, hi_name = sv_name s, hi_port = sv_port s, hi_user = sv_user s,
          hi_has_snapshot = (snap \<noteq> None),
          hi_health = map_option (\<lambda>sn. health sn (sv_alerts st)) snap,
          hi_breaching = (case snap of Some sn \<Rightarrow> is_breaching sn (sv_alerts st) | None \<Rightarrow> False),
          hi_reachable = (snap \<noteq> None \<or> lv_errors lv (sv_host s) = None)\<rparr>)"

definition api_hosts :: "serve_state \<Rightarrow> orders \<Rightarrow> live \<Rightarrow> reply" where
  "api_hosts st ord lv = (200, HostsBody (map (host_info_of st ord lv) (sv_servers st)))"

definition count_host ::
  "serve_state \<Rightarrow> orders \<Rightarrow> live \<Rightarrow> server \<Rightarrow> nat \<times> nat \<times> nat \<Rightarrow> nat \<times> nat \<times> nat" where
  "count_host st ord lv s c =
     (let (all, breaching, unread) = c in
      case live_lookup (or_snapshots ord) (lv_snapshots lv) (sv_host s) of
        Some sn \<Rightarrow> (all + 1, if is_breaching sn (sv_alerts st) then breaching + 1 else breaching, unread)
      | None \<Rightarrow> (all + 1, breaching, unread + 1))"

definition api_health :: "serve_state \<Rightarrow> orders \<Rightarrow> live \<Rightarrow> reply" where
  "api_health st ord lv =
     (let (all, breaching, unread) = fold (count_host st ord lv) (sv_servers st) (0, 0, 0)
      in (200, HealthBody all breaching (all - breaching - unread) unread))"

definition api_snapshot :: "orders \<Rightarrow> live \<Rightarrow> rstring \<Rightarrow> reply" where
  "api_snapshot ord lv host =
     (case live_lookup (or_snapshots ord) (lv_snapshots lv) host of
        Some snap \<Rightarrow> (200, SnapshotBody snap)
      | None \<Rightarrow>
          (case lv_errors lv host of
             Some e \<Rightarrow> (503, ErrorBody e)
           | None \<Rightarrow> (404, ErrorBody (lit ''no snapshot yet''))))"

definition api_history :: "orders \<Rightarrow> live \<Rightarrow> rstring \<Rightarrow> reply" where
  "api_history ord lv host =
     (case live_lookup (or_histories ord) (lv_histories lv) host of
        Some h \<Rightarrow> (200, HistoryBody h)
      | None \<Rightarrow> (404, ErrorBody (lit ''no history yet'')))"

definition mtop_entry_of :: "snapshot \<Rightarrow> mtop_entry" where
  "mtop_entry_of snap =
     (case decode_packet (encode_packet (Monitor snap)) of
        Some (Monitor d) \<Rightarrow> MtopOk (s_host d) (s_cpu_pct d) (u_pct (s_mem d))
      | _ \<Rightarrow> MtopFailed)"

definition api_mtop :: "orders \<Rightarrow> live \<Rightarrow> reply" where
  "api_mtop ord lv = (200, MtopBody (map mtop_entry_of (List.map_filter (lv_snapshots lv) (or_snapshots ord))))"

definition handle_request :: "(rstring \<Rightarrow> rstring option) \<Rightarrow> serve_state \<Rightarrow> orders \<Rightarrow> live \<Rightarrow> request \<Rightarrow> reply" where
  "handle_request dec st ord lv rq =
     (case route dec rq of
        EpIndex \<Rightarrow> (200, IndexPage)
      | EpHosts \<Rightarrow> api_hosts st ord lv
      | EpHealth \<Rightarrow> api_health st ord lv
      | EpSnapshot host \<Rightarrow> api_snapshot ord lv host
      | EpHistory host \<Rightarrow> api_history ord lv host
      | EpMtop \<Rightarrow> api_mtop ord lv
      | EpNone code \<Rightarrow> (code, NoBody))"

text \<open>\<open>require_token\<close>, around every route and the fallback.\<close>

definition serve_request :: "(rstring \<Rightarrow> rstring option) \<Rightarrow> serve_state \<Rightarrow> orders \<Rightarrow> live \<Rightarrow> request \<Rightarrow> reply" where
  "serve_request dec st ord lv rq =
     (if rq_path rq \<in> set PUBLIC_PATHS \<or> check_auth (rq_auth rq) (sv_token st)
      then handle_request dec st ord lv rq else (401, Unauthorized))"

section \<open>Collecting\<close>

record collector =
  co_hello_seen :: bool
  co_delivered :: bool
  co_mismatched :: bool
  co_errbuf :: "rstring list"

definition collector_new :: collector where
  "collector_new = \<lparr>co_hello_seen = False, co_delivered = False, co_mismatched = False, co_errbuf = []\<rparr>"

definition record_snapshot :: "rstring \<Rightarrow> snapshot \<Rightarrow> live \<Rightarrow> live" where
  "record_snapshot key snap w =
     (let w = w\<lparr>lv_snapshots := (lv_snapshots w)(key \<mapsto> snap, s_host snap \<mapsto> snap)\<rparr>;
          h = history_record snap (case lv_histories w key of Some h \<Rightarrow> h | None \<Rightarrow> history_empty);
          w = w\<lparr>lv_histories := (lv_histories w)(key \<mapsto> h)\<rparr>;
          w = w\<lparr>lv_histories := (lv_histories w)(s_host snap \<mapsto> h)\<rparr>
      in w\<lparr>lv_errors := (lv_errors w)(key := None)\<rparr>)"

text \<open>One payload: whether the loop goes on.\<close>

definition collector_payload ::
  "session_env \<Rightarrow> payload \<Rightarrow> collector \<Rightarrow> live \<Rightarrow> bool \<times> collector \<times> live" where
  "collector_payload se pl c w =
     (let local = se_version se; key = sv_host (se_server se) in
      case pl of
        HelloP h \<Rightarrow>
          if co_hello_seen c then (False, c, w)
          else (let c = c\<lparr>co_hello_seen := True\<rparr>
                in if \<not> hello_is_valid h \<or> needs_replacement h local then (False, c\<lparr>co_mismatched := True\<rparr>, w)
                   else (True, c, w))
      | Monitor snap \<Rightarrow>
          if \<not> co_hello_seen c \<and> s_agent_version snap \<noteq> [] \<and> s_agent_version snap \<noteq> local
             \<and> needs_replacement
                 \<lparr>h_agent_version = s_agent_version snap, h_proto_version = PROTO_VERSION,
                  h_min_proto_version = PROTO_MIN_VERSION\<rparr> local
          then (False, c\<lparr>co_mismatched := True\<rparr>, w)
          else (True, c\<lparr>co_delivered := True\<rparr>, record_snapshot key snap w)
      | _ \<Rightarrow> (True, c, w))"

function collector_loop ::
  "session_env \<Rightarrow> nat \<Rightarrow> stream \<Rightarrow> collector \<Rightarrow> live \<Rightarrow> (collector \<times> live) option" where
  "collector_loop se k st c w =
     (let (r, st', errbuf) = next_packet (se_debug se) (se_coin se k) st (co_errbuf c);
          c = c\<lparr>co_errbuf := errbuf\<rparr>
      in case r of
           Waiting \<Rightarrow> None
         | Got (Some pl) \<Rightarrow>
             (let (go_on, c, w) = collector_payload se pl c w
              in if go_on then collector_loop se (Suc k) st' c w else Some (c, w))
         | _ \<Rightarrow> Some (c, w))"
  by pat_completeness auto
termination
  by (relation "measure (\<lambda>(se, k, st, c, w). stream_size st)") (auto dest!: next_packet_size [OF sym])

declare collector_loop.simps [simp del]

definition close_collector :: "session_env \<Rightarrow> collector \<Rightarrow> live \<Rightarrow> live \<times> session_outcome" where
  "close_collector se c w =
     (let key = sv_host (se_server se) in
      if co_mismatched c then
        (w\<lparr>lv_errors := (lv_errors w)(key \<mapsto> lit ''agent version mismatch '' @ EM_DASH @ lit '' rebuild with ./build.sh'')\<rparr>,
         SoNoData)
      else if co_delivered c then (w, SoDelivered)
      else (w\<lparr>lv_errors := (lv_errors w)(key \<mapsto>
                (if co_errbuf c = [] then lit ''Connection closed'' else last (co_errbuf c)))\<rparr>, SoNoData))"

text \<open>One session of a host's collector; \<open>None\<close> while it lasts.\<close>

definition collector_session :: "session_env \<Rightarrow> live \<Rightarrow> (live \<times> session_outcome) option" where
  "collector_session se w =
     (case connect (se_text se) (se_palette se) (se_agents se) (se_server se) (se_open se) (se_upload se) of
        None \<Rightarrow> None
      | Some (says, Refused e) \<Rightarrow>
          Some (w\<lparr>lv_errors := (lv_errors w)(sv_host (se_server se) \<mapsto> e)\<rparr>, SoNeverConnected)
      | Some (says, Connected st) \<Rightarrow>
          map_option (\<lambda>(c, w). close_collector se c w) (collector_loop se 0 st collector_new w)
      | Some (says, Again) \<Rightarrow> None)"

text \<open>Sessions of the collectors, in the order in which they end.\<close>

fun collect_sessions :: "session_env list \<Rightarrow> live \<Rightarrow> live option" where
  "collect_sessions [] w = Some w"
| "collect_sessions (se # ses) w =
     (case collector_session se w of None \<Rightarrow> None | Some (w, _) \<Rightarrow> collect_sessions ses w)"

end
