(* ===== verification/Server_Props.thy ===== *)
theory Server_Props
  imports Server Session_Props Proto_Props
begin

text \<open>
  What the companion server promises: nothing is told to a request without the token, every reading an
  agent sends is in what is answered, in order. And what its lookups by part of a name and its
  snapshots that are never dropped make of hosts that were not read or have gone.
\<close>

section \<open>Without the token\<close>

definition presents :: "request \<Rightarrow> rstring \<Rightarrow> bool" where
  "presents rq token \<longleftrightarrow>
     (\<exists>v. rq_auth rq = Some v
        \<and> (trim v = token \<or> (\<exists>t. v = lit ''Bearer '' @ t \<and> trim t = token)))"

lemma check_auth_presents: "check_auth (rq_auth rq) token \<Longrightarrow> presents rq token"
  by (auto simp: check_auth_def presents_def header_str_def strip_prefix_def starts_with_def Let_def
      intro: exI [of _ "drop 7 _"] split: option.splits if_splits)
    (metis append_take_drop_id)

lemma root_reply: "rq_path rq = lit ''/'' \<Longrightarrow>
    handle_request dec st ord lv rq = (if rq_get rq then (200, IndexPage) else (405, NoBody))"
  by (simp add: handle_request_def route_def Let_def)

text \<open>C4: A request without the token learns nothing. Whatever it asks for and however it is spelled, its
  answer does not depend on the hosts, the readings, the errors or the thresholds, nor on the token
  itself; except for the page at the root it is the one refusal, also for paths that do not exist;
  and a request that carries the token as a bearer token is answered by the handler of its path.\<close>

theorem nothing_without_token:
  "(\<not> presents rq (sv_token st) \<and> \<not> presents rq (sv_token st')
      \<longrightarrow> serve_request dec st ord lv rq = serve_request dec st' ord' lv' rq
        \<and> (rq_path rq \<noteq> lit ''/'' \<longrightarrow> serve_request dec st ord lv rq = (401, Unauthorized)))
   \<and> (list_all ascii_graphic (sv_token st) \<and> rq_auth rq = Some (lit ''Bearer '' @ sv_token st)
      \<longrightarrow> serve_request dec st ord lv rq = handle_request dec st ord lv rq)"
proof (intro conjI impI; elim conjE)
  assume a: "\<not> presents rq (sv_token st)" "\<not> presents rq (sv_token st')"
  then have n: "\<not> check_auth (rq_auth rq) (sv_token st)" "\<not> check_auth (rq_auth rq) (sv_token st')"
    using check_auth_presents by blast+
  then show "serve_request dec st ord lv rq = serve_request dec st' ord' lv' rq"
    using root_reply [of rq dec] by (simp add: serve_request_def PUBLIC_PATHS_def)
  assume "rq_path rq \<noteq> lit ''/''"
  then show "serve_request dec st ord lv rq = (401, Unauthorized)"
    using n by (simp add: serve_request_def PUBLIC_PATHS_def)
next
  assume t: "list_all ascii_graphic (sv_token st)" "rq_auth rq = Some (lit ''Bearer '' @ sv_token st)"
  have "list_all (\<lambda>b. 0x20 \<le> b \<and> b < 0x7F \<or> b = 0x09) (sv_token st)"
    using t(1) by (auto simp: list_all_iff ascii_graphic_def intro: order_trans [of _ "0x21"] le_less_trans [of _ "0x7E"])
  then have "header_str (lit ''Bearer '' @ sv_token st) = Some (lit ''Bearer '' @ sv_token st)"
    by (simp add: header_str_def lit_def)
  then have "check_auth (rq_auth rq) (sv_token st)"
    using graphic_trim(1) [OF t(1)] t(2)
    by (simp add: check_auth_def strip_prefix_def starts_with_def)
  then show "serve_request dec st ord lv rq = handle_request dec st ord lv rq"
    by (simp add: serve_request_def)
qed

definition sample_serve :: serve_state where
  "sample_serve = \<lparr>sv_token = lit ''0123456789abcdef0123456789abcdef'', sv_servers = [sample_server], sv_alerts = default_alerts\<rparr>"

theorem nothing_without_token_witness:
  "serve_request Some sample_serve \<lparr>or_snapshots = [], or_histories = []\<rparr> live_empty
     \<lparr>rq_path = lit ''/api/hosts'', rq_get = True, rq_auth = None\<rparr> = (401, Unauthorized)"
  using nothing_without_token [of "\<lparr>rq_path = lit ''/api/hosts'', rq_get = True, rq_auth = None\<rparr>" sample_serve
      sample_serve Some "\<lparr>or_snapshots = [], or_histories = []\<rparr>" live_empty "\<lparr>or_snapshots = [], or_histories = []\<rparr>" live_empty]
  by (simp add: presents_def lit_def)

section \<open>What a collector keeps\<close>

definition readings :: "payload list \<Rightarrow> snapshot list" where
  "readings ps = List.map_filter (\<lambda>p. case p of Monitor snap \<Rightarrow> Some snap | _ \<Rightarrow> None) ps"

lemma readings_simps [simp]:
  "readings [] = []" "readings (Monitor snap # ps) = snap # readings ps"
  "readings (Docker h rows # ps) = readings ps" "readings (Fetch f # ps) = readings ps"
  "readings (Exec fr # ps) = readings ps" "readings (HelloP hl # ps) = readings ps"
  by (simp_all add: readings_def List.map_filter_simps)

lemma collector_loop_over:
  assumes "\<forall>p \<in> set ps. payload_fits p" "\<forall>p \<in> set ps. \<nexists>h. p = HelloP h" "holds st (concat (map encode_packet ps))"
    and "st_header st = None" "co_hello_seen c"
  shows "collector_loop se k st c w =
    Some (c\<lparr>co_delivered := co_delivered c \<or> readings (map payload_canon ps) \<noteq> []\<rparr>,
          fold (record_snapshot (sv_host (se_server se))) (readings (map payload_canon ps)) w)"
  using assms
proof (induction ps arbitrary: k st c w)
  case Nil
  then obtain st' where "next_packet (se_debug se) (se_coin se k) st (co_errbuf c) = (Got None, st', co_errbuf c)"
    using next_packet_end [of st "se_debug se" "se_coin se k" "co_errbuf c"] by auto
  then show ?case by (simp add: collector_loop.simps [of se k st c w])
next
  case (Cons p ps)
  let ?rest = "concat (map encode_packet ps)"
  obtain st1 where n: "next_packet (se_debug se) (se_coin se k) st (co_errbuf c) = (Got (Some (payload_canon p)), st1, co_errbuf c)"
    "holds st1 ?rest" "st_header st1 = None"
    using next_packet_holds [OF Cons.prems(3), of p ?rest "se_debug se" "se_coin se k" "co_errbuf c"] Cons.prems(1,4)
    by (auto simp: aside_def)
  note IH = Cons.IH [OF _ _ n(2,3)]
  show ?case
    using Cons.prems(1,2,5) n(1) IH
    by (cases p) (simp_all add: collector_loop.simps [of se k st c w] collector_payload_def)
qed

lemma fold_record_snapshot:
  "snaps \<noteq> [] \<Longrightarrow> lv_errors (fold (record_snapshot key) snaps w) key = None"
  by (induction snaps rule: rev_induct) (simp_all add: record_snapshot_def Let_def)

lemma recorded_history:
  "lv_histories (record_snapshot key snap w) key =
     Some (history_record snap (case lv_histories w key of Some h \<Rightarrow> h | None \<Rightarrow> history_empty))"
  by (simp add: record_snapshot_def Let_def)

lemma fold_history:
  assumes "snaps \<noteq> []"
  shows "lv_histories (fold (record_snapshot key) snaps w) key =
    Some (fold history_record snaps (case lv_histories w key of Some h \<Rightarrow> h | None \<Rightarrow> history_empty))"
  using assms
proof (induction snaps rule: rev_induct)
  case (snoc snap snaps)
  then show ?case by (cases "snaps = []") (simp_all add: recorded_history)
qed simp

lemma fold_latest:
  "snaps \<noteq> [] \<Longrightarrow> lv_snapshots (fold (record_snapshot key) snaps w) key = Some (last snaps)"
  by (induction snaps rule: rev_induct) (simp_all add: record_snapshot_def Let_def)


lemma lit_f64_sample: "payload_fits (Monitor sample_snapshot)"
  using sample_snapshot_fits by simp


section \<open>Whose numbers\<close>

text \<open>A host that was never read is shown with another's numbers. If nothing is kept under its name and
  something is kept under a longer name that contains it, then whatever the order of the map, the
  host is listed as read and reachable, with the score and the alarm of one whose name contains
  its own, and its snapshot is that other one's.\<close>

theorem unread_host_shows_another:
  assumes "lv_snapshots lv host = None" "lv_snapshots lv k = Some other" "contains k host"
    and "k \<in> set (or_snapshots ord)" "sv_host s = host"
  shows "\<exists>k' snap. k' \<noteq> host \<and> contains k' host \<and> lv_snapshots lv k' = Some snap
    \<and> hi_has_snapshot (host_info_of st ord lv s) \<and> hi_reachable (host_info_of st ord lv s)
    \<and> hi_health (host_info_of st ord lv s) = Some (health snap (sv_alerts st))
    \<and> api_snapshot ord lv host = (200, SnapshotBody snap)"
proof -
  have "filter (\<lambda>k. lv_snapshots lv k \<noteq> None \<and> contains k host) (or_snapshots ord) \<noteq> []"
    using assms(2-4) by (auto simp: filter_empty_conv)
  then obtain k' ks where f: "filter (\<lambda>k. lv_snapshots lv k \<noteq> None \<and> contains k host) (or_snapshots ord) = k' # ks"
    by (meson neq_Nil_conv)
  then have "k' \<in> set (filter (\<lambda>k. lv_snapshots lv k \<noteq> None \<and> contains k host) (or_snapshots ord))" by simp
  then obtain snap where k': "lv_snapshots lv k' = Some snap" "contains k' host" by auto
  moreover have "live_lookup (or_snapshots ord) (lv_snapshots lv) host = Some snap"
    using f k' assms(1) by (simp add: live_lookup_def)
  moreover have "k' \<noteq> host" using k'(1) assms(1) by auto
  ultimately show ?thesis
    using assms(5) by (intro exI [of _ k'] exI [of _ snap]) (simp add: host_info_of_def api_snapshot_def Let_def)
qed

theorem unread_host_shows_another_witness:
  "let lv = record_snapshot (lit ''10.0.0.12'') sample_snapshot live_empty;
       ord = \<lparr>or_snapshots = [lit ''10.0.0.12'', s_host sample_snapshot], or_histories = []\<rparr>;
       s = sample_server\<lparr>sv_host := lit ''10.0.0.1''\<rparr>
   in hi_has_snapshot (host_info_of sample_serve ord lv s)"
proof -
  let ?lv = "record_snapshot (lit ''10.0.0.12'') sample_snapshot live_empty"
  have "s_host sample_snapshot = lit ''h''" by (simp add: sample_snapshot_def)
  then have none: "lv_snapshots ?lv (lit ''10.0.0.1'') = None"
    by (simp add: record_snapshot_def live_empty_def Let_def lit_def)
  have some: "lv_snapshots ?lv (lit ''10.0.0.12'') = Some sample_snapshot"
    by (simp add: record_snapshot_def Let_def)
  have "contains (lit ''10.0.0.12'') (lit ''10.0.0.1'')" by code_simp
  from unread_host_shows_another [OF none some this, of
      "\<lparr>or_snapshots = [lit ''10.0.0.12'', s_host sample_snapshot], or_histories = []\<rparr>"
      "sample_server\<lparr>sv_host := lit ''10.0.0.1''\<rparr>" sample_serve]
  show ?thesis unfolding Let_def by auto
qed

section \<open>Hosts that have gone\<close>

lemma refused_session:
  assumes "se_open se 0 = NoProcess e"
  shows "collector_session se w =
    Some (w\<lparr>lv_errors := (lv_errors w)(sv_host (se_server se) \<mapsto> spawn_failure (se_server se) e)\<rparr>, SoNeverConnected)"
  by (simp add: collector_session_def connect_def connect_once_def assms)

text \<open>C37: A host that has gone is reported as reachable. Once a host was read, whatever number of sessions
  cannot even be started, it is listed as read and reachable with the score of its last reading, and
  its snapshot is answered as before; the errors that say why are kept, and nothing asks for them.\<close>

theorem gone_host_reported_reachable:
  assumes "lv_snapshots w (sv_host s) = Some snap" "\<forall>se \<in> set ses. \<exists>e. se_open se 0 = NoProcess e"
  shows "\<exists>w'. collect_sessions ses w = Some w'
    \<and> hi_reachable (host_info_of st ord w' s)
    \<and> hi_health (host_info_of st ord w' s) = Some (health snap (sv_alerts st))
    \<and> api_snapshot ord w' (sv_host s) = (200, SnapshotBody snap)
    \<and> (s \<in> se_server ` set ses \<longrightarrow> lv_errors w' (sv_host s) \<noteq> None)"
proof -
  have "\<exists>w'. collect_sessions ses w = Some w' \<and> lv_snapshots w' = lv_snapshots w
      \<and> (\<forall>h. lv_errors w h \<noteq> None \<or> h \<in> (sv_host \<circ> se_server) ` set ses \<longrightarrow> lv_errors w' h \<noteq> None)"
    using assms(2)
  proof (induction ses arbitrary: w)
    case (Cons se ses)
    then obtain e where "se_open se 0 = NoProcess e" by auto
    then obtain w1 where w1: "collector_session se w = Some (w1, SoNeverConnected)" "lv_snapshots w1 = lv_snapshots w"
      "\<forall>h. lv_errors w h \<noteq> None \<or> h = sv_host (se_server se) \<longrightarrow> lv_errors w1 h \<noteq> None"
      by (simp add: refused_session)
    obtain w' where "collect_sessions ses w1 = Some w'" "lv_snapshots w' = lv_snapshots w1"
      "\<forall>h. lv_errors w1 h \<noteq> None \<or> h \<in> (sv_host \<circ> se_server) ` set ses \<longrightarrow> lv_errors w' h \<noteq> None"
      using Cons.IH [of w1] Cons.prems by auto
    then show ?case using w1 by (auto simp: image_iff)
  qed simp
  then obtain w' where w': "collect_sessions ses w = Some w'" "lv_snapshots w' (sv_host s) = Some snap"
    "\<forall>h. h \<in> (sv_host \<circ> se_server) ` set ses \<longrightarrow> lv_errors w' h \<noteq> None"
    using assms(1) by auto
  then have "live_lookup (or_snapshots ord) (lv_snapshots w') (sv_host s) = Some snap"
    by (simp add: live_lookup_def)
  then show ?thesis
    using w'(1,3) by (intro exI [of _ w']) (auto simp: host_info_of_def api_snapshot_def Let_def)
qed

theorem gone_host_reported_reachable_witness:
  "let w = record_snapshot (sv_host sample_server) sample_snapshot live_empty;
       se = (sample_env [])\<lparr>se_open := (\<lambda>_. NoProcess \<lparr>io_kind = OtherKind, io_text = lit ''no route''\<rparr>)\<rparr>;
       ord = \<lparr>or_snapshots = [], or_histories = []\<rparr>
   in \<exists>w'. collect_sessions [se, se] w = Some w' \<and> hi_reachable (host_info_of sample_serve ord w' sample_server)
        \<and> lv_errors w' (sv_host sample_server) \<noteq> None"
proof -
  let ?se = "(sample_env [])\<lparr>se_open := (\<lambda>_. NoProcess \<lparr>io_kind = OtherKind, io_text = lit ''no route''\<rparr>)\<rparr>"
  have "\<exists>sn. lv_snapshots (record_snapshot (sv_host sample_server) sample_snapshot live_empty) (sv_host sample_server) = Some sn"
    by (simp add: record_snapshot_def Let_def)
  then obtain sn where "lv_snapshots (record_snapshot (sv_host sample_server) sample_snapshot live_empty) (sv_host sample_server) = Some sn"
    by blast
  from gone_host_reported_reachable [OF this, of "[?se, ?se]" sample_serve "\<lparr>or_snapshots = [], or_histories = []\<rparr>"]
  show ?thesis by (auto simp: Let_def sample_env_def)
qed

end
