(* ===== verification/Pairing.thy ===== *)
theory Pairing
  imports Serve_Token
begin

text \<open>
  What \<open>--serve\<close> prints before it serves: the pairing string for the phone (crates/multitop/src/pairing.rs)
  and the banner (serve_start.rs, \<open>startup_banner\<close> of serve_token.rs, \<open>needs_tls\<close> and \<open>fingerprint\<close> of
  serve_tls.rs). The certificate, SHA-256, base64 and the QR code come from other crates: they are the
  record \<open>pair_env\<close>.
\<close>

section \<open>Addresses\<close>

datatype ip = V4 u8 u8 u8 u8 | V6 "u16 list"

record sock_addr =
  sa_ip :: ip
  sa_port :: u16

definition is_loopback :: "ip \<Rightarrow> bool" where
  "is_loopback a = (case a of V4 p q r s \<Rightarrow> p = 127 | V6 segs \<Rightarrow> segs = [0, 0, 0, 0, 0, 0, 0, 1])"

definition is_unspecified :: "ip \<Rightarrow> bool" where
  "is_unspecified a = (case a of V4 p q r s \<Rightarrow> [p, q, r, s] = [0, 0, 0, 0] | V6 segs \<Rightarrow> segs = replicate 8 0)"

definition is_v6 :: "ip \<Rightarrow> bool" where
  "is_v6 a = (case a of V4 p q r s \<Rightarrow> False | V6 segs \<Rightarrow> True)"

text \<open>\<open>Display\<close> of addresses: hexadecimal without leading zeroes, the first longest run of two zeroes or
  more left out, IPv4 in its mapped form.\<close>

fun hex_digits :: "nat \<Rightarrow> nat \<Rightarrow> rstring" where
  "hex_digits 0 n = []"
| "hex_digits (Suc k) n =
     (if n < 16 then [hex_nibble (of_nat n)] else hex_digits k (n div 16) @ [hex_nibble (of_nat (n mod 16))])"

definition show_hex :: "u16 \<Rightarrow> rstring" where
  "show_hex s = hex_digits 4 (unat s)"

fun sep_by :: "rstring \<Rightarrow> rstring list \<Rightarrow> rstring" where
  "sep_by sep [] = []"
| "sep_by sep [x] = x"
| "sep_by sep (x # y # xs) = x @ sep @ sep_by sep (y # xs)"

definition show_v4 :: "u8 \<Rightarrow> u8 \<Rightarrow> u8 \<Rightarrow> u8 \<Rightarrow> rstring" where
  "show_v4 p q r s = sep_by (lit ''.'') (map (\<lambda>b. show_nat (unat b)) [p, q, r, s])"

text \<open>The start and the length of the longest run, and of the run in progress.\<close>

definition zero_run :: "u16 list \<Rightarrow> nat \<times> nat" where
  "zero_run segs =
     fst (fold (\<lambda>(i, s) (best, cur).
            if s = 0 then (let cur = (if snd cur = 0 then i else fst cur, snd cur + 1)
                           in (if snd best < snd cur then cur else best, cur))
            else (best, (0, 0)))
          (enumerate 0 segs) ((0, 0), (0, 0)))"

definition show_segs :: "u16 list \<Rightarrow> rstring" where
  "show_segs segs = sep_by (lit '':'') (map show_hex segs)"

definition show_v6 :: "u16 list \<Rightarrow> rstring" where
  "show_v6 segs =
     (if take 6 segs = [0, 0, 0, 0, 0, 0xFFFF] \<and> length segs = 8 then
        lit ''::ffff:'' @ show_v4 (ucast (drop_bit 8 (segs ! 6))) (ucast (segs ! 6))
                                 (ucast (drop_bit 8 (segs ! 7))) (ucast (segs ! 7))
      else let (start, len) = zero_run segs
           in if 1 < len then show_segs (take start segs) @ lit ''::'' @ show_segs (drop (start + len) segs)
              else show_segs segs)"

definition show_ip :: "ip \<Rightarrow> rstring" where
  "show_ip a = (case a of V4 p q r s \<Rightarrow> show_v4 p q r s | V6 segs \<Rightarrow> show_v6 segs)"

definition show_addr :: "sock_addr \<Rightarrow> rstring" where
  "show_addr a =
     (if is_v6 (sa_ip a) then lit ''['' @ show_ip (sa_ip a) @ lit '']:'' else show_ip (sa_ip a) @ lit '':'')
       @ show_nat (unat (sa_port a))"

definition needs_tls :: "sock_addr \<Rightarrow> bool" where
  "needs_tls bnd \<longleftrightarrow> \<not> is_loopback (sa_ip bnd)"

section \<open>The pairing string\<close>

record pair_env =
  pe_sha256 :: "bytes \<Rightarrow> bytes"
  pe_b64 :: "bytes \<Rightarrow> rstring"
  pe_unb64 :: "rstring \<Rightarrow> bytes option"
  pe_qr :: "rstring \<Rightarrow> (rstring, rstring) result"

definition fingerprint :: "pair_env \<Rightarrow> bytes \<Rightarrow> rstring" where
  "fingerprint pe der = hex_lower (pe_sha256 pe der)"

definition PREFIX :: rstring where "PREFIX = lit ''multitop://pair?''"
definition VERSION :: rstring where "VERSION = lit ''1''"
definition FIELDS :: "rstring list" where "FIELDS = map lit [''v'', ''addr'', ''token'', ''sha256'', ''cert'']"
definition HEX_LEN :: nat where "HEX_LEN = 64"
definition MAX_CERT_CHARS :: nat where "MAX_CERT_CHARS = 4096"

record fields =
  fl_host :: rstring
  fl_port :: nat
  fl_token :: rstring
  fl_sha256 :: rstring
  fl_cert_der :: bytes

definition ascii_digit :: "u8 \<Rightarrow> bool" where "ascii_digit b \<longleftrightarrow> 0x30 \<le> b \<and> b \<le> 0x39"
definition ascii_alpha :: "u8 \<Rightarrow> bool" where
  "ascii_alpha b \<longleftrightarrow> 0x41 \<le> b \<and> b \<le> 0x5A \<or> 0x61 \<le> b \<and> b \<le> 0x7A"
definition hex_letter :: "u8 \<Rightarrow> bool" where
  "hex_letter b \<longleftrightarrow> 0x41 \<le> b \<and> b \<le> 0x46 \<or> 0x61 \<le> b \<and> b \<le> 0x66"

definition lower_hex_digit :: "u8 \<Rightarrow> bool" where
  "lower_hex_digit b \<longleftrightarrow> ascii_digit b \<or> 0x61 \<le> b \<and> b \<le> 0x66"

definition is_lower_hex :: "rstring \<Rightarrow> bool" where
  "is_lower_hex s \<longleftrightarrow> length s = HEX_LEN \<and> list_all lower_hex_digit s"

text \<open>\<open>str::rsplit_once\<close> and \<open>str::split_once\<close> at a byte.\<close>

definition split_once :: "u8 \<Rightarrow> rstring \<Rightarrow> (rstring \<times> rstring) option" where
  "split_once d s = map_option (\<lambda>i. (take i s, drop (i + 1) s)) (position (\<lambda>b. b = d) s)"

definition rsplit_once :: "u8 \<Rightarrow> rstring \<Rightarrow> (rstring \<times> rstring) option" where
  "rsplit_once d s = map_option (\<lambda>(a, b). (rev b, rev a)) (split_once d (rev s))"

definition strip_suffix :: "'a list \<Rightarrow> 'a list \<Rightarrow> 'a list option" where
  "strip_suffix p s = map_option rev (strip_prefix (rev p) (rev s))"

definition address :: "rstring \<Rightarrow> (rstring \<times> nat) option" where
  "address addr =
     (case rsplit_once 0x3A addr of
        None \<Rightarrow> None
      | Some (host, port) \<Rightarrow>
          (case (if list_all ascii_digit port then parse_unsigned 65535 port else None) of
             None \<Rightarrow> None
           | Some p \<Rightarrow>
               if p = 0 then None
               else let ipv6 = (\<lambda>b. ascii_digit b \<or> hex_letter b \<or> b = 0x3A \<or> b = 0x2E);
                        name = (\<lambda>b. ascii_digit b \<or> ascii_alpha b \<or> b = 0x2E \<or> b = 0x2D);
                        (bare, allowed) =
                          (case Option.bind (strip_prefix (lit ''['') host) (strip_suffix (lit '']'')) of
                             Some inner \<Rightarrow> (inner, ipv6)
                           | None \<Rightarrow> (host, name))
                    in if bare \<noteq> [] \<and> list_all allowed bare then Some (bare, p) else None))"

text \<open>The fields, each once, none unknown; the error names the first that is not so.\<close>

fun read_fields :: "rstring list \<Rightarrow> (rstring \<rightharpoonup> rstring) \<Rightarrow> (rstring \<rightharpoonup> rstring, rstring) result" where
  "read_fields [] m = Ok m"
| "read_fields (part # parts) m =
     (let (k, v) = (case split_once 0x3D part of Some kv \<Rightarrow> kv | None \<Rightarrow> ([], []))
      in if k \<notin> set FIELDS then Err (lit ''unknown or malformed field: '' @ hd (split_at_byte 0x3D part))
         else if m k \<noteq> None then Err (lit ''field given twice: '' @ k)
         else read_fields parts (m(k \<mapsto> v)))"

definition cert_of :: "pair_env \<Rightarrow> rstring \<Rightarrow> bytes option" where
  "cert_of pe cert =
     (if length cert \<le> MAX_CERT_CHARS
         \<and> list_all (\<lambda>b. ascii_digit b \<or> ascii_alpha b \<or> b = 0x2D \<or> b = 0x5F) cert
      then (case pe_unb64 pe cert of Some der \<Rightarrow> if der = [] then None else Some der | None \<Rightarrow> None)
      else None)"

definition check_fields :: "pair_env \<Rightarrow> (rstring \<rightharpoonup> rstring) \<Rightarrow> (fields, rstring) result" where
  "check_fields pe m =
     (let get = (\<lambda>k. case m (lit k) of Some v \<Rightarrow> v | None \<Rightarrow> [])
      in case find (\<lambda>f. m f = None) FIELDS of
           Some missing \<Rightarrow> Err (lit ''missing field: '' @ missing)
         | None \<Rightarrow>
             if get ''v'' \<noteq> VERSION then
               Err (lit ''unsupported pairing version '' @ get ''v'' @ lit '' (the client reads '' @ VERSION @ lit '')'')
             else if \<not> is_lower_hex (get ''token'') then Err (lit ''token must be 64 lowercase hex digits'')
             else if \<not> is_lower_hex (get ''sha256'') then
               Err (lit ''sha256 must be 64 lowercase hex digits, without colons'')
             else case address (get ''addr'') of
                    None \<Rightarrow> Err (lit ''addr must be <host>:<port> with a port from 1 to 65535'')
                  | Some (host, port) \<Rightarrow>
                      (case cert_of pe (get ''cert'') of
                         None \<Rightarrow> Err (lit ''cert is not unpadded base64url'')
                       | Some der \<Rightarrow>
                           if fingerprint pe der \<noteq> get ''sha256'' then
                             Err (lit ''sha256 does not match cert: the pairing string is damaged or altered'')
                           else Ok \<lparr>fl_host = host, fl_port = port, fl_token = get ''token'',
                                    fl_sha256 = get ''sha256'', fl_cert_der = der\<rparr>))"

definition check_pairing :: "pair_env \<Rightarrow> rstring \<Rightarrow> (fields, rstring) result" where
  "check_pairing pe t =
     (case strip_prefix PREFIX (trim t) of
        None \<Rightarrow> Err (lit ''not a multitop pairing string (expected '' @ PREFIX @ lit ''...)'')
      | Some rest \<Rightarrow> rbind (read_fields (split_at_byte 0x26 rest) Map.empty) (check_fields pe))"

definition pairing_text :: "pair_env \<Rightarrow> sock_addr \<Rightarrow> rstring \<Rightarrow> bytes \<Rightarrow> rstring" where
  "pairing_text pe addr token cert_der =
     PREFIX @ lit ''v='' @ VERSION @ lit ''&addr='' @ show_addr addr @ lit ''&token='' @ token
       @ lit ''&sha256='' @ fingerprint pe cert_der @ lit ''&cert='' @ pe_b64 pe cert_der"

definition payload :: "pair_env \<Rightarrow> sock_addr \<Rightarrow> rstring \<Rightarrow> bytes \<Rightarrow> (rstring, rstring) result" where
  "payload pe addr token cert_der =
     (let t = pairing_text pe addr token cert_der in rbind (check_pairing pe t) (\<lambda>_. Ok t))"

definition advertised :: "sock_addr \<Rightarrow> (bool \<Rightarrow> ip option) \<Rightarrow> sock_addr option" where
  "advertised bnd route =
     (if is_unspecified (sa_ip bnd) then
        (case route (is_v6 (sa_ip bnd)) of
           Some a \<Rightarrow> if \<not> is_unspecified a \<and> \<not> is_loopback a then Some \<lparr>sa_ip = a, sa_port = sa_port bnd\<rparr> else None
         | None \<Rightarrow> None)
      else Some bnd)"

section \<open>The banner\<close>

text \<open>A TLS identity, as far as what is printed goes: the form \<open>curl\<close> pins, and the certificate.\<close>

record identity =
  id_curl_pin :: rstring
  id_cert_der :: bytes

definition startup_banner ::
  "sock_addr \<Rightarrow> rstring \<Rightarrow> rstring \<Rightarrow> bool \<Rightarrow> bool \<Rightarrow> identity option \<Rightarrow> rstring" where
  \<open>startup_banner addr token file created to_tty tls =
     (let new_mark = (if created then lit '' (new)'' else []);
          scheme = (case tls of Some _ \<Rightarrow> lit ''https'' | None \<Rightarrow> lit ''http'')
      in if to_tty then
           (let pin = (case tls of None \<Rightarrow> []
                       | Some i \<Rightarrow> lit ''-k --pinnedpubkey sha256//'' @ id_curl_pin i @ lit '' '')
            in lit ''multitop --serve on '' @ scheme @ lit ''://'' @ show_addr addr @ lit '' token='' @ token @ [0x0A]
               @ lit ''  token file: '' @ file @ new_mark @ [0x0A]
               @ lit ''  curl '' @ pin @ lit ''-H "Authorization: Bearer '' @ token @ lit ''" '' @ scheme @ lit ''://''
               @ show_addr addr @ lit ''/api/hosts'')
         else lit ''multitop --serve on '' @ scheme @ lit ''://'' @ show_addr addr @ [0x0A]
              @ lit ''  token file: '' @ file @ new_mark)\<close>

definition pairing_lines ::
  "pair_env \<Rightarrow> sock_addr \<Rightarrow> rstring \<Rightarrow> bytes \<Rightarrow> bool \<Rightarrow> (bool \<Rightarrow> ip option) \<Rightarrow> rstring" where
  "pairing_lines pe bnd token cert_der to_tty rt =
     (if \<not> to_tty then [0x0A] @ lit ''  pairing string: printed only to a terminal (it carries the token)''
      else case advertised bnd rt of
             None \<Rightarrow> [0x0A] @ lit ''  pairing string: unavailable -- '' @ show_addr bnd
               @ lit '' names no address a phone can dial; bind a LAN address instead, e.g. --serve 192.168.1.20:''
               @ show_nat (unat (sa_port bnd))
           | Some addr \<Rightarrow>
               (case payload pe addr token cert_der of
                  Ok t \<Rightarrow>
                    [0x0A] @ lit ''  pair the app: '' @ t @ [0x0A]
                      @ (case pe_qr pe t of Ok q \<Rightarrow> q | Err e \<Rightarrow> lit ''  ('' @ e @ lit '')'')
                | Err why \<Rightarrow> [0x0A] @ lit ''  pairing string: unavailable -- '' @ why))"

record ready =
  rd_token :: rstring
  rd_tls :: "identity option"
  rd_banner :: rstring

text \<open>\<open>prepare\<close>: what loading the token and the identity gave, and whether rustls took the identity.\<close>

definition prepare ::
  "pair_env \<Rightarrow> sock_addr \<Rightarrow> rstring \<Rightarrow> rstring \<Rightarrow> bool \<Rightarrow> (bool \<Rightarrow> ip option)
   \<Rightarrow> (rstring \<times> bool, rstring) result \<Rightarrow> (identity \<times> bool, rstring) result \<Rightarrow> (unit, rstring) result
   \<Rightarrow> (ready, rstring) result" where
  "prepare pe bnd token_file tls_file to_tty rt loaded made config =
     rbind loaded (\<lambda>(token, created).
       if \<not> needs_tls bnd then
         Ok \<lparr>rd_token = token, rd_tls = None, rd_banner = startup_banner bnd token token_file created to_tty None\<rparr>
       else rbind made (\<lambda>(i, tls_created).
         rbind config (\<lambda>_.
           Ok \<lparr>rd_token = token, rd_tls = Some i,
               rd_banner = startup_banner bnd token token_file created to_tty (Some i)
                 @ [0x0A] @ lit ''  certificate: '' @ tls_file
                 @ (if tls_created then lit '' (new: pair the phone again)'' else [])
                 @ [0x0A] @ lit ''  sha256='' @ fingerprint pe (id_cert_der i)
                 @ pairing_lines pe bnd token (id_cert_der i) to_tty rt\<rparr>)))"

section \<open>What is printed and where\<close>

lemma banner_log: "startup_banner a t f c False tls = startup_banner a t' f c False tls"
  by (simp add: startup_banner_def)

lemma pairing_log: "pairing_lines pe a t d False rt = pairing_lines pe a t' d False rt"
  by (simp add: pairing_lines_def)

lemma prepare_tls:
  assumes "prepare pe bnd tf cf to_tty rt loaded made config = Ok r"
  shows "rd_tls r = None \<longleftrightarrow> is_loopback (sa_ip bnd)"
proof -
  obtain token created where l: "loaded = Ok (token, created)"
    using assms by (auto simp: prepare_def rbind_Inr_iff)
  show ?thesis
  proof (cases "needs_tls bnd")
    case False
    then show ?thesis using assms l by (auto simp: prepare_def needs_tls_def)
  next
    case True
    then obtain i tc where "made = Ok (i, tc)" "config = Ok ()"
      using assms l by (auto simp: prepare_def rbind_Inr_iff)
    then show ?thesis using assms l True by (auto simp: prepare_def needs_tls_def)
  qed
qed

lemma prepare_log:
  "prepare pe bnd tf cf False rt (Ok (tok1, created)) made config
     = rbind (prepare pe bnd tf cf False rt (Ok (tok2, created)) made config) (\<lambda>r. Ok (r\<lparr>rd_token := tok1\<rparr>))"
proof (cases made)
  case (Inr m)
  obtain i tc where m: "made = Ok (i, tc)" using Inr by (cases m) simp
  show ?thesis
    using banner_log [of bnd tok1 tf created _ tok2] pairing_log [of pe bnd tok1 "id_cert_der i" rt tok2]
    by (cases config; cases "needs_tls bnd") (simp_all add: prepare_def m)
next
  case (Inl e)
  then show ?thesis
    using banner_log [of bnd tok1 tf created _ tok2] by (cases "needs_tls bnd") (simp_all add: prepare_def)
qed

text \<open>C34: A log never gets the token, and a bind other hosts can reach is never served in the clear. If
  standard error is no terminal, what is printed is the same whatever the token is; and a start
  that succeeds has an identity for TLS exactly if the address is not a loopback address.\<close>

theorem log_never_gets_token:
  "prepare pe bnd tf cf False rt (Ok (tok1, created)) made config
     = rbind (prepare pe bnd tf cf False rt (Ok (tok2, created)) made config) (\<lambda>r. Ok (r\<lparr>rd_token := tok1\<rparr>))
   \<and> (prepare pe bnd tf cf to_tty rt loaded made config = Ok r \<longrightarrow>
        (rd_tls r = None \<longleftrightarrow> is_loopback (sa_ip bnd)))"
  using prepare_log prepare_tls by blast

theorem log_never_gets_token_witness:
  "\<exists>r. prepare \<lparr>pe_sha256 = (\<lambda>_. []), pe_b64 = (\<lambda>d. d), pe_unb64 = Some, pe_qr = Ok\<rparr>
      \<lparr>sa_ip = V4 127 0 0 1, sa_port = 8080\<rparr> [] [] True (\<lambda>_. None) (Ok (lit ''t'', False)) (Err []) (Ok ()) = Ok r
    \<and> rd_tls r = None"
proof -
  obtain r where r: "prepare \<lparr>pe_sha256 = (\<lambda>_. []), pe_b64 = (\<lambda>d. d), pe_unb64 = Some, pe_qr = Ok\<rparr>
      \<lparr>sa_ip = V4 127 0 0 1, sa_port = 8080\<rparr> [] [] True (\<lambda>_. None) (Ok (lit ''t'', False)) (Err []) (Ok ()) = Ok r"
    by (simp add: prepare_def needs_tls_def is_loopback_def)
  then show ?thesis using log_never_gets_token [THEN conjunct2, rule_format, OF r] by (auto simp: is_loopback_def)
qed

end
