(* ===== verification/Pairing_Props.thy ===== *)
theory Pairing_Props
  imports Pairing
begin

text \<open>
  The pairing string reads back: what the server prints is what the phone reads, for every address.
\<close>

section \<open>The characters of its parts\<close>

lemma nibbles_lower: "list_all (\<lambda>k. lower_hex_digit (hex_nibble (of_nat k))) [0..<16]"
  by code_simp

lemma nibble_lower: "k < 16 \<Longrightarrow> lower_hex_digit (hex_nibble (of_nat k))"
  using nibbles_lower by (simp add: list_all_iff)

lemma hex_digits_lower: "list_all lower_hex_digit (hex_digits k n)"
  by (induction k n rule: hex_digits.induct) (simp_all add: nibble_lower)

lemma hex_digits_nonempty: "0 < k \<Longrightarrow> hex_digits k n \<noteq> []"
  by (cases k) simp_all

lemma show_nat_ascii: "list_all ascii_digit (show_nat n)"
proof -
  have "ascii_digit c" if "c \<in> set (show_nat n)" for c
    using digit_cases [OF that] by (elim insertE emptyE) (simp_all add: ascii_digit_def)
  then show ?thesis by (simp add: list_all_iff)
qed

definition in_ipv6 :: "u8 \<Rightarrow> bool" where
  "in_ipv6 b \<longleftrightarrow> ascii_digit b \<or> hex_letter b \<or> b = 0x3A \<or> b = 0x2E"

lemma lower_in_ipv6: "lower_hex_digit b \<Longrightarrow> in_ipv6 b"
  by (auto simp: lower_hex_digit_def in_ipv6_def hex_letter_def)

lemma sep_by_all: "list_all P sep \<Longrightarrow> list_all (list_all P) xs \<Longrightarrow> list_all P (sep_by sep xs)"
  by (induction sep xs rule: sep_by.induct) simp_all

lemma sep_by_nonempty: "xs \<noteq> [] \<Longrightarrow> hd xs \<noteq> [] \<Longrightarrow> sep_by sep xs \<noteq> []"
  by (cases xs; cases "tl xs") auto

lemma show_v4_chars: "list_all (\<lambda>b. ascii_digit b \<or> b = 0x2E) (show_v4 p q r s)"
  unfolding show_v4_def
  by (rule sep_by_all) (use show_nat_ascii in \<open>simp_all add: lit_def list_all_iff\<close>)

lemma show_v4_nonempty: "show_v4 p q r s \<noteq> []"
  unfolding show_v4_def by (rule sep_by_nonempty) simp_all

lemma show_segs_chars: "list_all in_ipv6 (show_segs segs)"
  unfolding show_segs_def
  by (rule sep_by_all)
    (use hex_digits_lower lower_in_ipv6 in \<open>auto simp: lit_def list_all_iff show_hex_def in_ipv6_def [of "0x3A"]\<close>)

lemma show_v6_chars: "list_all in_ipv6 (show_v6 segs)"
proof -
  have v4: "list_all in_ipv6 (show_v4 p q r s)" for p q r s
    using show_v4_chars [of p q r s] by (auto simp: list_all_iff in_ipv6_def)
  have "list_all in_ipv6 (lit ''::ffff:'')" "list_all in_ipv6 (lit ''::'')"
    by (simp_all add: lit_def in_ipv6_def hex_letter_def)
  then show ?thesis
    using v4 show_segs_chars by (simp add: show_v6_def case_prod_beta)
qed

lemma show_v6_nonempty: "segs \<noteq> [] \<Longrightarrow> show_v6 segs \<noteq> []"
  using sep_by_nonempty [of "map show_hex segs" "lit '':''"] hex_digits_nonempty [of 4]
  by (auto simp: show_v6_def show_segs_def show_hex_def lit_def hd_map split: prod.splits)

section \<open>Reading it back\<close>

definition addr_ok :: "sock_addr \<Rightarrow> bool" where
  "addr_ok a \<longleftrightarrow> sa_port a \<noteq> 0 \<and> (\<forall>segs. sa_ip a = V6 segs \<longrightarrow> length segs = 8)"

lemma split_once_at: "d \<notin> set k \<Longrightarrow> split_once d (k @ d # v) = Some (k, v)"
proof -
  assume "d \<notin> set k"
  then have "position (\<lambda>b. b = d) (k @ d # v) = Some (length k)"
    by (intro position_append_hit) auto
  then show ?thesis by (simp add: split_once_def)
qed

lemma rsplit_once_at: "d \<notin> set v \<Longrightarrow> rsplit_once d (k @ d # v) = Some (k, v)"
  using split_once_at [of d "rev v" "rev k"] by (simp add: rsplit_once_def)

lemma digit_name: "list_all ascii_digit s \<Longrightarrow> 0x3A \<notin> set s"
  by (auto simp: list_all_iff ascii_digit_def)

lemma address_reads:
  assumes "addr_ok a"
  shows "address (show_addr a) = Some (show_ip (sa_ip a), unat (sa_port a))"
proof -
  let ?p = "show_nat (unat (sa_port a))"
  have "unat (sa_port a) < 65536" using unsigned_less [of "sa_port a"] by simp
  then have port: "parse_unsigned 65535 ?p = Some (unat (sa_port a))"
    by (intro parse_unsigned_show) simp
  have p: "0x3A \<notin> set ?p" "list_all ascii_digit ?p" "unat (sa_port a) \<noteq> 0"
    using colon_not_digit show_nat_ascii assms by (auto simp: addr_ok_def unat_eq_0)
  show ?thesis
  proof (cases "sa_ip a")
    case (V4 b1 b2 b3 b4)
    let ?h = "show_v4 b1 b2 b3 b4"
    have h: "list_all (\<lambda>b. ascii_digit b \<or> ascii_alpha b \<or> b = 0x2E \<or> b = 0x2D) ?h" "?h \<noteq> []"
      using show_v4_chars [of b1 b2 b3 b4] show_v4_nonempty by (auto simp: list_all_iff)
    moreover have "strip_prefix (lit ''['') ?h = None"
      using show_v4_chars [of b1 b2 b3 b4] h(2)
      by (cases ?h) (auto simp: strip_prefix_def starts_with_def lit_def ascii_digit_def)
    ultimately show ?thesis
      using rsplit_once_at [OF p(1), of ?h] port p V4
      by (simp add: address_def show_addr_def is_v6_def show_ip_def lit_def)
  next
    case (V6 segs)
    let ?h = "show_v6 segs"
    have "length segs = 8" using assms V6 by (simp add: addr_ok_def)
    then have "?h \<noteq> []" by (intro show_v6_nonempty) auto
    moreover have "list_all (\<lambda>b. ascii_digit b \<or> hex_letter b \<or> b = 0x3A \<or> b = 0x2E) ?h"
      using show_v6_chars [of segs] by (simp add: in_ipv6_def [abs_def])
    moreover have "strip_prefix (lit ''['') (lit ''['' @ ?h @ lit '']'') = Some (?h @ lit '']'')"
      "strip_suffix (lit '']'') (?h @ lit '']'') = Some ?h"
      by (simp_all add: strip_prefix_def strip_suffix_def starts_with_def lit_def)
    ultimately show ?thesis
      using rsplit_once_at [OF p(1), of "lit ''['' @ ?h @ lit '']''"] port p V6
      by (simp add: address_def show_addr_def is_v6_def show_ip_def lit_def)
  qed
qed

text \<open>The bytes of a value in the string: graphic, and neither of the separators of fields.\<close>

definition plain_value :: "rstring \<Rightarrow> bool" where
  "plain_value s \<longleftrightarrow> list_all ascii_graphic s \<and> 0x26 \<notin> set s"

lemma in_ipv6_plain: "in_ipv6 b \<Longrightarrow> ascii_graphic b \<and> b \<noteq> 0x26"
proof -
  assume "in_ipv6 b"
  then have "0x21 \<le> b \<and> b \<le> 0x7E \<and> b \<noteq> 0x26"
    unfolding in_ipv6_def ascii_digit_def hex_letter_def
    by (auto intro: order_trans [of "0x21" "0x30"] order_trans [of "0x21" "0x41"] order_trans [of "0x21" "0x61"]
        order_trans [of _ "0x39"] order_trans [of _ "0x46"] order_trans [of _ "0x66"])
  then show ?thesis by (simp add: ascii_graphic_def)
qed

lemma addr_plain: "plain_value (show_addr a)"
proof -
  have "\<forall>b \<in> set (show_ip (sa_ip a)). in_ipv6 b"
    using show_v4_chars show_v6_chars by (cases "sa_ip a") (fastforce simp: show_ip_def list_all_iff in_ipv6_def)+
  moreover have "\<forall>b \<in> set (show_nat (unat (sa_port a))). in_ipv6 b"
    using show_nat_ascii by (auto simp: list_all_iff in_ipv6_def)
  ultimately show ?thesis
    using in_ipv6_plain
    by (auto simp: plain_value_def show_addr_def list_all_iff lit_def ascii_graphic_def split: if_splits)
qed

lemma lower_hex_plain: "list_all lower_hex_digit s \<Longrightarrow> plain_value s"
  using lower_in_ipv6 in_ipv6_plain by (auto simp: plain_value_def list_all_iff)

lemma field_split:
  assumes "plain_value v" "0x26 \<notin> set k"
  shows "split_at_byte 0x26 (k @ v @ 0x26 # others) = (k @ v) # split_at_byte 0x26 others"
  using assms split_at_byte_sep [of "0x26" "k @ v" others] by (simp add: plain_value_def)

text \<open>What is known of the crates: base64 without padding decodes what it encodes and uses the letters of
  URLs, and a SHA-256 is 32 bytes.\<close>

definition pair_ok :: "pair_env \<Rightarrow> bool" where
  "pair_ok pe \<longleftrightarrow> (\<forall>d. length (pe_sha256 pe d) = 32 \<and> pe_unb64 pe (pe_b64 pe d) = Some d
     \<and> list_all (\<lambda>b. ascii_digit b \<or> ascii_alpha b \<or> b = 0x2D \<or> b = 0x5F) (pe_b64 pe d))"

lemma hex_lower_hex: "list_all lower_hex_digit (hex_lower bs)"
proof -
  have "lower_hex_digit (hex_nibble n)" if "unat n < 16" for n
    using nibble_lower [OF that] by simp
  then show ?thesis
    by (induction bs) (simp_all add: hex_lower_def hex_byte_def nibble_less)
qed

lemma b64_plain:
  assumes "pair_ok pe" shows "plain_value (pe_b64 pe d)"
proof -
  have "ascii_graphic b \<and> b \<noteq> 0x26" if "ascii_digit b \<or> ascii_alpha b \<or> b = 0x2D \<or> b = 0x5F" for b
    using that unfolding ascii_digit_def ascii_alpha_def ascii_graphic_def
    by (auto intro: order_trans [of "0x21" "0x30"] order_trans [of "0x21" "0x41"] order_trans [of "0x21" "0x61"]
        order_trans [of _ "0x39"] order_trans [of _ "0x5A"] order_trans [of _ "0x7A"])
  then show ?thesis using assms by (auto simp: pair_ok_def plain_value_def list_all_iff)
qed

definition pairing_rest :: "rstring \<Rightarrow> rstring \<Rightarrow> rstring \<Rightarrow> rstring \<Rightarrow> rstring" where
  "pairing_rest ad token sha cert =
     lit ''v='' @ VERSION @ 0x26 # lit ''addr='' @ ad @ 0x26 # lit ''token='' @ token @ 0x26 # lit ''sha256='' @ sha
       @ 0x26 # lit ''cert='' @ cert"

lemma pairing_text_rest:
  "pairing_text pe a token der = PREFIX @ pairing_rest (show_addr a) token (fingerprint pe der) (pe_b64 pe der)"
  by (simp add: pairing_text_def pairing_rest_def lit_def)

lemma rest_split:
  assumes "plain_value ad" "plain_value token" "plain_value sha" "plain_value cert"
  shows "split_at_byte 0x26 (pairing_rest ad token sha cert) =
    [lit ''v='' @ VERSION, lit ''addr='' @ ad, lit ''token='' @ token, lit ''sha256='' @ sha, lit ''cert='' @ cert]"
proof -
  have V: "plain_value VERSION" by (simp add: VERSION_def lit_def plain_value_def ascii_graphic_def)
  have k: "0x26 \<notin> set (lit ''v='')" "0x26 \<notin> set (lit ''addr='')" "0x26 \<notin> set (lit ''token='')"
    "0x26 \<notin> set (lit ''sha256='')" by (simp_all add: lit_def)
  have c: "split_at_byte 0x26 (lit ''cert='' @ cert) = [lit ''cert='' @ cert]"
    using assms(4) by (intro split_at_byte_no_sep) (simp add: plain_value_def lit_def)
  show ?thesis
    by (simp only: pairing_rest_def field_split [OF V k(1)] field_split [OF assms(1) k(2)]
        field_split [OF assms(2) k(3)] field_split [OF assms(3) k(4)] c)
qed

lemma rest_fields:
  "read_fields [lit ''v='' @ v, lit ''addr='' @ ad, lit ''token='' @ token, lit ''sha256='' @ sha, lit ''cert='' @ cert] Map.empty
    = Ok [lit ''v'' \<mapsto> v, lit ''addr'' \<mapsto> ad, lit ''token'' \<mapsto> token, lit ''sha256'' \<mapsto> sha, lit ''cert'' \<mapsto> cert]"
proof -
  have s: "split_once 0x3D (lit ''v='' @ x) = Some (lit ''v'', x)" "split_once 0x3D (lit ''addr='' @ x) = Some (lit ''addr'', x)"
    "split_once 0x3D (lit ''token='' @ x) = Some (lit ''token'', x)" "split_once 0x3D (lit ''sha256='' @ x) = Some (lit ''sha256'', x)"
    "split_once 0x3D (lit ''cert='' @ x) = Some (lit ''cert'', x)" for x
    by (simp_all add: split_once_def lit_def)
  show ?thesis
    unfolding read_fields.simps s option.case prod.case Let_def by (simp add: FIELDS_def lit_def)
qed

text \<open>C21: The pairing string reads back. For every address with a port, of either kind, every token of 64 digits and
  every certificate that fits, the server prints a string, and read by the phone's rules it gives
  the address without brackets, the port, the token, the fingerprint and the certificate.\<close>

theorem pairing_reads_back:
  assumes "pair_ok pe" "addr_ok a" "is_lower_hex token" "der \<noteq> []" "length (pe_b64 pe der) \<le> MAX_CERT_CHARS"
  shows "payload pe a token der = Ok (pairing_text pe a token der)
    \<and> check_pairing pe (pairing_text pe a token der) =
        Ok \<lparr>fl_host = show_ip (sa_ip a), fl_port = unat (sa_port a), fl_token = token,
            fl_sha256 = fingerprint pe der, fl_cert_der = der\<rparr>"
proof -
  let ?sha = "fingerprint pe der" and ?cert = "pe_b64 pe der"
  have sha: "is_lower_hex ?sha"
    using assms(1) hex_lower_hex by (simp add: fingerprint_def is_lower_hex_def pair_ok_def HEX_LEN_def)
  have plain: "plain_value (show_addr a)" "plain_value token" "plain_value ?sha" "plain_value ?cert"
    using addr_plain lower_hex_plain b64_plain [OF assms(1)] assms(3) sha by (auto simp: is_lower_hex_def)
  have "list_all ascii_graphic (pairing_text pe a token der)"
    using plain unfolding pairing_text_rest pairing_rest_def
    by (simp add: plain_value_def PREFIX_def VERSION_def lit_def ascii_graphic_def)
  then have t: "trim (pairing_text pe a token der) = pairing_text pe a token der"
    by (rule graphic_trim)
  have pre: "strip_prefix PREFIX (pairing_text pe a token der) = Some (pairing_rest (show_addr a) token ?sha ?cert)"
    by (simp add: pairing_text_rest strip_prefix_def starts_with_def)
  have c: "cert_of pe ?cert = Some der"
    using assms(1,4,5) by (simp add: cert_of_def pair_ok_def)
  have "check_fields pe [lit ''v'' \<mapsto> VERSION, lit ''addr'' \<mapsto> show_addr a, lit ''token'' \<mapsto> token, lit ''sha256'' \<mapsto> ?sha,
      lit ''cert'' \<mapsto> ?cert] = Ok \<lparr>fl_host = show_ip (sa_ip a), fl_port = unat (sa_port a), fl_token = token,
            fl_sha256 = ?sha, fl_cert_der = der\<rparr>"
    using address_reads [OF assms(2)] c sha assms(3) by (simp add: check_fields_def FIELDS_def lit_def)
  then have "check_pairing pe (pairing_text pe a token der) =
        Ok \<lparr>fl_host = show_ip (sa_ip a), fl_port = unat (sa_port a), fl_token = token,
            fl_sha256 = fingerprint pe der, fl_cert_der = der\<rparr>"
    unfolding check_pairing_def t pre option.case rest_split [OF plain] rest_fields by simp
  then show ?thesis by (simp add: payload_def Let_def)
qed

text \<open>Packages for the theorem: bytes written as two letters each, and a sum of 32 zeroes.\<close>

definition letters :: "bytes \<Rightarrow> rstring" where
  "letters bs = concat (map (\<lambda>b. [0x61 + drop_bit 4 b, 0x61 + and b 0x0F]) bs)"

fun unletters :: "rstring \<Rightarrow> bytes option" where
  "unletters [] = Some []"
| "unletters [x] = None"
| "unletters (x # y # s) = map_option ((#) (or (push_bit 4 (x - 0x61)) (y - 0x61))) (unletters s)"

lemma letters_back: "unletters (letters bs) = Some bs"
proof (induction bs)
  case (Cons b bs)
  have "or (push_bit 4 (drop_bit 4 b)) (and b 0x0F) = b"
  proof -
    have "and b 0x0F = take_bit 4 b" by (simp add: take_bit_eq_mask mask_eq_exp_minus_1)
    then show ?thesis by (auto intro!: bit_word_eqI simp: bit_simps)
  qed
  then show ?case using Cons by (simp add: letters_def)
qed (simp add: letters_def)

lemma letters_alpha: "list_all ascii_alpha (letters bs)"
proof -
  have a: "list_all (\<lambda>k. ascii_alpha (0x61 + of_nat k)) [0..<16]" by code_simp
  have "ascii_alpha (0x61 + n)" if "unat n < 16" for n
    using a that by (auto simp: list_all_iff dest!: bspec [of _ _ "unat n"])
  then show ?thesis by (induction bs) (simp_all add: letters_def nibble_less)
qed

definition sample_pair :: pair_env where
  "sample_pair = \<lparr>pe_sha256 = (\<lambda>_. replicate 32 0), pe_b64 = letters, pe_unb64 = unletters, pe_qr = Ok\<rparr>"

lemma sample_pair_ok: "pair_ok sample_pair"
  using letters_alpha letters_back by (simp add: pair_ok_def sample_pair_def list_all_iff)

theorem pairing_reads_back_witness:
  "payload sample_pair \<lparr>sa_ip = V6 [0xFE80, 0, 0, 0, 0, 0, 0, 1], sa_port = 8080\<rparr> (replicate 64 0x61) [1, 2]
     = Ok (pairing_text sample_pair \<lparr>sa_ip = V6 [0xFE80, 0, 0, 0, 0, 0, 0, 1], sa_port = 8080\<rparr> (replicate 64 0x61) [1, 2])"
proof -
  have "addr_ok \<lparr>sa_ip = V6 [0xFE80, 0, 0, 0, 0, 0, 0, 1], sa_port = 8080\<rparr>" by (simp add: addr_ok_def)
  moreover have "is_lower_hex (replicate 64 0x61)" by (simp add: is_lower_hex_def HEX_LEN_def list_all_iff lower_hex_digit_def)
  moreover have "length (pe_b64 sample_pair [1, 2]) \<le> MAX_CERT_CHARS"
    by (simp add: sample_pair_def letters_def MAX_CERT_CHARS_def)
  ultimately show ?thesis using pairing_reads_back [OF sample_pair_ok] by blast
qed

end
