(* ===== verification/Ops_Status.thy ===== *)
theory Ops_Status
  imports Text
begin

text \<open>
  The words a host publishes about itself (crates/multitop/src/ops/status.rs): the closed
  vocabulary of the egress verdict, and the open ones of ZFS and Docker, which keep a word they do
  not have as it stands.
\<close>

section \<open>The egress verdict\<close>

datatype leak = Confirmed | Leaked | Disagreement | Unverified | LeakUnknown

definition LEAK_ALL :: "leak list" where
  "LEAK_ALL = [Confirmed, Leaked, Disagreement, Unverified, LeakUnknown]"

definition leak_str :: "leak \<Rightarrow> rstring" where
  "leak_str l =
     (case l of
        Confirmed \<Rightarrow> lit ''confirmed''
      | Leaked \<Rightarrow> lit ''leaked''
      | Disagreement \<Rightarrow> lit ''disagreement''
      | Unverified \<Rightarrow> lit ''unverified''
      | LeakUnknown \<Rightarrow> lit ''unknown'')"

definition leak_words :: "rstring list" where
  "leak_words = map leak_str LEAK_ALL"

definition leak_parse :: "rstring \<Rightarrow> leak option" where
  "leak_parse w = find (\<lambda>s. leak_str s = w) LEAK_ALL"

text \<open>How bad a verdict is, and the derived order of the three.\<close>

datatype severity = SevOk | Unsettled | Bad

instantiation severity :: linorder
begin

definition severity_rank :: "severity \<Rightarrow> nat" where
  "severity_rank s = (case s of SevOk \<Rightarrow> 0 | Unsettled \<Rightarrow> 1 | Bad \<Rightarrow> 2)"

definition less_eq_severity :: "severity \<Rightarrow> severity \<Rightarrow> bool" where
  "s \<le> t \<longleftrightarrow> severity_rank s \<le> severity_rank t"

definition less_severity :: "severity \<Rightarrow> severity \<Rightarrow> bool" where
  "s < t \<longleftrightarrow> severity_rank s < severity_rank t"

instance
  by standard
    (auto simp: less_eq_severity_def less_severity_def severity_rank_def split: severity.splits)

end

section \<open>The verdict about a pool\<close>

datatype verdict = Whole | NotWhole

definition verdict_str :: "verdict \<Rightarrow> rstring" where
  "verdict_str v = (case v of Whole \<Rightarrow> lit ''whole'' | NotWhole \<Rightarrow> lit ''not whole'')"

section \<open>Open vocabularies\<close>

text \<open>\<open>ALL.iter().find(|(_, w)| *w == word)\<close>: the state whose word it is.\<close>

definition word_in :: "('a \<times> rstring) list \<Rightarrow> rstring \<Rightarrow> 'a option" where
  "word_in tbl w = map_option fst (find (\<lambda>e. snd e = w) tbl)"

datatype zfs_state =
  Online | Degraded | Faulted | Offline | Removed | Unavail | Suspended | OtherZfs rstring

definition ZFS_ALL :: "(zfs_state \<times> rstring) list" where
  "ZFS_ALL =
     [(Online, lit ''ONLINE''), (Degraded, lit ''DEGRADED''), (Faulted, lit ''FAULTED''),
      (Offline, lit ''OFFLINE''), (Removed, lit ''REMOVED''), (Unavail, lit ''UNAVAIL''),
      (Suspended, lit ''SUSPENDED'')]"

definition zfs_str :: "zfs_state \<Rightarrow> rstring" where
  "zfs_str s =
     (case s of
        Online \<Rightarrow> lit ''ONLINE'' | Degraded \<Rightarrow> lit ''DEGRADED'' | Faulted \<Rightarrow> lit ''FAULTED''
      | Offline \<Rightarrow> lit ''OFFLINE'' | Removed \<Rightarrow> lit ''REMOVED'' | Unavail \<Rightarrow> lit ''UNAVAIL''
      | Suspended \<Rightarrow> lit ''SUSPENDED'' | OtherZfs w \<Rightarrow> w)"

definition zfs_words :: "rstring list" where
  "zfs_words = map snd ZFS_ALL"

definition zfs_parse :: "rstring \<Rightarrow> zfs_state option" where
  "zfs_parse w = word_in ZFS_ALL w"

definition zfs_from_word :: "rstring \<Rightarrow> zfs_state" where
  "zfs_from_word w = (case zfs_parse w of Some s \<Rightarrow> s | None \<Rightarrow> OtherZfs w)"

definition zfs_online :: "zfs_state \<Rightarrow> bool" where
  "zfs_online s \<longleftrightarrow> s = Online"

datatype docker_state =
  Running | Exited | Paused | Created | Restarting | Removing | Dead | OtherDocker rstring

definition DOCKER_ALL :: "(docker_state \<times> rstring) list" where
  "DOCKER_ALL =
     [(Running, lit ''running''), (Exited, lit ''exited''), (Paused, lit ''paused''),
      (Created, lit ''created''), (Restarting, lit ''restarting''), (Removing, lit ''removing''),
      (Dead, lit ''dead'')]"

definition docker_str :: "docker_state \<Rightarrow> rstring" where
  "docker_str s =
     (case s of
        Running \<Rightarrow> lit ''running'' | Exited \<Rightarrow> lit ''exited'' | Paused \<Rightarrow> lit ''paused''
      | Created \<Rightarrow> lit ''created'' | Restarting \<Rightarrow> lit ''restarting'' | Removing \<Rightarrow> lit ''removing''
      | Dead \<Rightarrow> lit ''dead'' | OtherDocker w \<Rightarrow> w)"

definition docker_words :: "rstring list" where
  "docker_words = map snd DOCKER_ALL"

definition docker_parse :: "rstring \<Rightarrow> docker_state option" where
  "docker_parse w = word_in DOCKER_ALL w"

definition docker_from_word :: "rstring \<Rightarrow> docker_state" where
  "docker_from_word w = (case docker_parse w of Some s \<Rightarrow> s | None \<Rightarrow> OtherDocker w)"

datatype docker_health = Healthy | Unhealthy | Starting | NoCheck | Unset | OtherHealth rstring

definition HEALTH_ALL :: "(docker_health \<times> rstring) list" where
  "HEALTH_ALL =
     [(Healthy, lit ''healthy''), (Unhealthy, lit ''unhealthy''), (Starting, lit ''starting''),
      (NoCheck, lit ''none''), (Unset, [])]"

definition health_str :: "docker_health \<Rightarrow> rstring" where
  "health_str s =
     (case s of
        Healthy \<Rightarrow> lit ''healthy'' | Unhealthy \<Rightarrow> lit ''unhealthy'' | Starting \<Rightarrow> lit ''starting''
      | NoCheck \<Rightarrow> lit ''none'' | Unset \<Rightarrow> [] | OtherHealth w \<Rightarrow> w)"

definition health_words :: "rstring list" where
  "health_words = map snd HEALTH_ALL"

definition health_parse :: "rstring \<Rightarrow> docker_health option" where
  "health_parse w = word_in HEALTH_ALL w"

definition health_from_word :: "rstring \<Rightarrow> docker_health" where
  "health_from_word w = (case health_parse w of Some s \<Rightarrow> s | None \<Rightarrow> OtherHealth w)"

definition health_unchecked :: "docker_health \<Rightarrow> bool" where
  "health_unchecked s \<longleftrightarrow> s = NoCheck \<or> s = Unset"

section \<open>A vocabulary\<close>

text \<open>What the three have in common: a table whose words are what its states print as, and a
  state that prints as any other word.\<close>

locale vocabulary =
  fixes tbl :: "('s \<times> rstring) list" and str :: "'s \<Rightarrow> rstring" and other :: "rstring \<Rightarrow> 's"
  assumes table_prints: "(s, w) \<in> set tbl \<Longrightarrow> str s = w"
    and other_prints: "str (other w) = w"
    and other_named: "s \<notin> fst ` set tbl \<Longrightarrow> \<exists>w. s = other w"
    and words_once: "distinct (map snd tbl)"
begin

definition reads :: "rstring \<Rightarrow> 's" where
  "reads w = (case word_in tbl w of Some s \<Rightarrow> s | None \<Rightarrow> other w)"

lemma word_in_tbl: "word_in tbl w = Some s \<longleftrightarrow> (s, w) \<in> set tbl"
proof -
  have hit: "find (\<lambda>e. snd e = w) tbl = Some e \<Longrightarrow> e \<in> set tbl \<and> snd e = w" for e
    by (auto simp: find_Some_iff)
  have miss: "find (\<lambda>e. snd e = w) tbl = None \<Longrightarrow> (s, w) \<notin> set tbl"
    by (auto simp: find_None_iff)
  have one: "e \<in> set tbl \<Longrightarrow> e' \<in> set tbl \<Longrightarrow> snd e = snd e' \<Longrightarrow> e = e'" for e e'
    using words_once by (auto simp: distinct_map dest: inj_onD)
  show ?thesis
  proof (cases "find (\<lambda>e. snd e = w) tbl")
    case None
    then show ?thesis using miss by (simp add: word_in_def)
  next
    case (Some e)
    with hit have e: "e \<in> set tbl" "snd e = w" by blast+
    then have in_tbl: "(fst e, w) \<in> set tbl" by (metis prod.collapse)
    show ?thesis using Some in_tbl one [OF in_tbl] by (auto simp: word_in_def)
  qed
qed

lemma print_read [simp]: "str (reads w) = w"
proof (cases "word_in tbl w")
  case None
  then show ?thesis by (simp add: reads_def other_prints)
next
  case (Some s)
  then show ?thesis using word_in_tbl [of w s] by (simp add: reads_def table_prints)
qed

lemma read_inj: "reads v = reads w \<longleftrightarrow> v = w"
  by (metis print_read)

lemma read_named: "(s, w) \<in> set tbl \<Longrightarrow> reads w = s"
  using word_in_tbl [of w s] by (simp add: reads_def)

end

interpretation zfs: vocabulary ZFS_ALL zfs_str OtherZfs
proof
  fix s assume "s \<notin> fst ` set ZFS_ALL"
  then show "\<exists>w. s = OtherZfs w" by (cases s) (auto simp: ZFS_ALL_def)
next
  show "distinct (map snd ZFS_ALL)" by code_simp
qed (auto simp: ZFS_ALL_def zfs_str_def)

interpretation docker: vocabulary DOCKER_ALL docker_str OtherDocker
proof
  fix s assume "s \<notin> fst ` set DOCKER_ALL"
  then show "\<exists>w. s = OtherDocker w" by (cases s) (auto simp: DOCKER_ALL_def)
next
  show "distinct (map snd DOCKER_ALL)" by code_simp
qed (auto simp: DOCKER_ALL_def docker_str_def)

interpretation check: vocabulary HEALTH_ALL health_str OtherHealth
proof
  fix s assume "s \<notin> fst ` set HEALTH_ALL"
  then show "\<exists>w. s = OtherHealth w" by (cases s) (auto simp: HEALTH_ALL_def)
next
  show "distinct (map snd HEALTH_ALL)" by code_simp
qed (auto simp: HEALTH_ALL_def health_str_def)

lemma from_word_reads:
  "zfs_from_word = zfs.reads" "docker_from_word = docker.reads" "health_from_word = check.reads"
  by (auto simp: fun_eq_iff zfs_from_word_def zfs_parse_def zfs.reads_def docker_from_word_def
      docker_parse_def docker.reads_def health_from_word_def health_parse_def check.reads_def)

lemma leak_parse_Some: "leak_parse w = Some l \<longleftrightarrow> w = leak_str l"
proof
  assume "leak_parse w = Some l"
  then show "w = leak_str l" by (auto simp: leak_parse_def find_Some_iff)
next
  assume "w = leak_str l"
  moreover have "leak_parse (leak_str l) = Some l"
    by (cases l; simp add: leak_parse_def leak_str_def LEAK_ALL_def lit_def)
  ultimately show "leak_parse w = Some l" by simp
qed

lemma zfs_online_word: "zfs_online (zfs_from_word w) \<longleftrightarrow> w = lit ''ONLINE''"
proof -
  have "zfs.reads (lit ''ONLINE'') = Online" by (rule zfs.read_named) (simp add: ZFS_ALL_def)
  then show ?thesis using zfs.read_inj [of w "lit ''ONLINE''"] by (simp add: zfs_online_def from_word_reads)
qed

end
