(* ===== verification/Json.thy ===== *)
theory Json
  imports Text Float_Bits
begin

text \<open>
  JSON values as the program reads them (\<open>serde_json::Value\<close>): its accessors, which answer
  \<open>None\<close> on a value of another kind. The syntax is the crate's and is an argument where a
  text is parsed. An integer is within \<open>i64\<close> or \<open>u64\<close>; an object's keys are distinct, and a
  lookup finds the first entry of the list. \<open>i64\<close> values are \<open>int\<close>s, with the saturation of
  their arithmetic written out.
\<close>

datatype json =
    JNull
  | JBool bool
  | JInt int
  | JFloat f64
  | JStr rstring
  | JArr "json list"
  | JObj "(rstring \<times> json) list"

definition I64_MAX :: int where "I64_MAX = 2 ^ 63 - 1"
definition I64_MIN :: int where "I64_MIN = - (2 ^ 63)"

definition i64_sat :: "int \<Rightarrow> int" where
  "i64_sat n = max I64_MIN (min I64_MAX n)"

definition i64_ok :: "int \<Rightarrow> bool" where
  "i64_ok n \<longleftrightarrow> I64_MIN \<le> n \<and> n \<le> I64_MAX"

lemma i64_sat_ok [simp]: "i64_ok n \<Longrightarrow> i64_sat n = n"
  by (simp add: i64_ok_def i64_sat_def)

lemma i64_sat_range [simp]: "i64_ok (i64_sat n)"
  by (simp add: i64_ok_def i64_sat_def I64_MIN_def I64_MAX_def)

lemma i64_sat_mono: "m \<le> n \<Longrightarrow> i64_sat m \<le> i64_sat n"
  by (auto simp: i64_sat_def)

lemma i64_sat_le: "n \<le> m \<Longrightarrow> I64_MIN \<le> m \<Longrightarrow> i64_sat n \<le> m"
  by (auto simp: i64_sat_def)

lemma i64_sat_ge: "m \<le> n \<Longrightarrow> m \<le> I64_MAX \<Longrightarrow> m \<le> i64_sat n"
  by (auto simp: i64_sat_def)

section \<open>Accessors\<close>

definition jget :: "rstring \<Rightarrow> json \<Rightarrow> json option" where
  "jget k v = (case v of JObj kvs \<Rightarrow> map_of kvs k | _ \<Rightarrow> None)"

definition as_str :: "json \<Rightarrow> rstring option" where
  "as_str v = (case v of JStr s \<Rightarrow> Some s | _ \<Rightarrow> None)"

definition as_bool :: "json \<Rightarrow> bool option" where
  "as_bool v = (case v of JBool b \<Rightarrow> Some b | _ \<Rightarrow> None)"

definition as_array :: "json \<Rightarrow> json list option" where
  "as_array v = (case v of JArr vs \<Rightarrow> Some vs | _ \<Rightarrow> None)"

definition as_object :: "json \<Rightarrow> (rstring \<times> json) list option" where
  "as_object v = (case v of JObj kvs \<Rightarrow> Some kvs | _ \<Rightarrow> None)"

definition as_i64 :: "json \<Rightarrow> int option" where
  "as_i64 v = (case v of JInt n \<Rightarrow> (if i64_ok n then Some n else None) | _ \<Rightarrow> None)"

definition as_u64 :: "json \<Rightarrow> nat option" where
  "as_u64 v = (case v of JInt n \<Rightarrow> (if 0 \<le> n \<and> n < 2 ^ 64 then Some (nat n) else None) | _ \<Rightarrow> None)"

definition as_f64 :: "json \<Rightarrow> f64 option" where
  "as_f64 v =
     (case v of
        JFloat x \<Rightarrow> Some x
      | JInt n \<Rightarrow> Some ((if n < 0 then 2 ^ 63 else 0) + f64_nearest (nat \<bar>n\<bar>) 1 0)
      | _ \<Rightarrow> None)"

definition is_object :: "json \<Rightarrow> bool" where
  "is_object v = (case v of JObj kvs \<Rightarrow> True | _ \<Rightarrow> False)"

lemma json_reads [simp]:
  "jget k (JObj kvs) = map_of kvs k"
  "as_str (JStr s) = Some s"
  "as_bool (JBool b) = Some b"
  "as_array (JArr vs) = Some vs"
  "as_object (JObj kvs) = Some kvs"
  "is_object (JObj kvs)"
  by (simp_all add: jget_def as_str_def as_bool_def as_array_def as_object_def is_object_def)

lemma json_null [simp]:
  "jget k JNull = None" "as_str JNull = None" "as_array JNull = None"
  by (simp_all add: jget_def as_str_def as_array_def)

lemma as_i64_range: "as_i64 v = Some n \<Longrightarrow> i64_ok n"
  by (auto simp: as_i64_def split: json.splits if_splits)

lemma as_u64_range: "as_u64 v = Some n \<Longrightarrow> n < 2 ^ 64"
  by (auto simp: as_u64_def nat_less_iff split: json.splits if_splits)

text \<open>\<open>collect::<Result<Vec<_>, _>>\<close>: the first error, or every value.\<close>

fun collect :: "('b, 'e) result list \<Rightarrow> ('b list, 'e) result" where
  "collect [] = Ok []"
| "collect (r # rs) = rbind r (\<lambda>x. rbind (collect rs) (\<lambda>xs. Ok (x # xs)))"

lemma collect_Ok: "collect rs = Inr xs \<longleftrightarrow> rs = map Inr xs"
proof (induction rs arbitrary: xs)
  case (Cons r rs)
  then show ?case by (cases r; cases xs) (auto simp: rbind_Inr_iff)
qed auto

lemma collect_map_Ok [simp]: "collect (map (\<lambda>x. Inr (f x)) xs) = Inr (map f xs)"
  by (induction xs) simp_all

end
