(* ===== verification/Ops_Model.thy ===== *)
theory Ops_Model
  imports Ops_Status Json Ssh_Text
begin

text \<open>
  What the Ops view shows of a host (crates/multitop/src/ops/model.rs, model_health.rs, deploy.rs,
  triage.rs, mod.rs) and the rate it is read at (ops/rate.rs). A duration is its whole seconds. A \<open>u64\<close>
  that is only added up is a \<open>nat\<close>, with its saturation written out. The amounts in words
  (\<open>amount\<close>, \<open>memory_amount\<close>, \<open>load_text\<close>) are formatted floating-point numbers and are left out.
\<close>

section \<open>The rate\<close>

definition STALE_GRACE_S :: int where "STALE_GRACE_S = 300"
definition FALLBACK_INTERVAL_S :: int where "FALLBACK_INTERVAL_S = 450"
definition SECS_A_MINUTE :: int where "SECS_A_MINUTE = 60"
definition SECS_AN_HOUR :: int where "SECS_AN_HOUR = 3600"
definition SECS_A_DAY :: int where "SECS_A_DAY = 86400"

record previous =
  pv_at :: "int option"
  pv_rate_s :: "int option"

definition previous_default :: previous where
  "previous_default = \<lparr>pv_at = None, pv_rate_s = None\<rparr>"

definition rate_for :: "int \<Rightarrow> int" where
  "rate_for cadence_s = max (cadence_s div 2) 1"

definition interval_for :: "int option \<Rightarrow> int option \<Rightarrow> nat" where
  "interval_for cadence_s kept_s =
     (let secs = (case map_option rate_for cadence_s of
                    Some r \<Rightarrow> r
                  | None \<Rightarrow> (case kept_s of Some k \<Rightarrow> k | None \<Rightarrow> FALLBACK_INTERVAL_S))
      in nat (max secs 1))"

definition carried_rate :: "int \<Rightarrow> int option \<Rightarrow> int \<Rightarrow> int" where
  "carried_rate configured previous_at now =
     (case previous_at of None \<Rightarrow> configured | Some at \<Rightarrow> max configured (i64_sat (now - at)))"

definition tenths_of_a_minute :: "int \<Rightarrow> rstring" where
  "tenths_of_a_minute secs =
     (let tenths = i64_sat (secs * 10) div SECS_A_MINUTE
      in show_int (tenths div 10) @ lit ''.'' @ show_int (tenths mod 10))"

definition rate_words :: "int \<Rightarrow> rstring" where
  "rate_words secs =
     (if secs < SECS_A_MINUTE then lit ''every '' @ show_int secs @ lit '' s''
      else if secs mod SECS_A_MINUTE = 0 then lit ''every '' @ show_int (secs div SECS_A_MINUTE) @ lit '' min''
      else lit ''every '' @ tenths_of_a_minute secs @ lit '' min'')"

definition cadence_words :: "int \<Rightarrow> rstring" where
  "cadence_words secs =
     (if secs < SECS_A_MINUTE then lit ''every '' @ show_int secs @ lit '' s''
      else if secs < SECS_AN_HOUR then lit ''every '' @ show_int (secs div SECS_A_MINUTE) @ lit '' min''
      else if secs < SECS_A_DAY then lit ''every '' @ show_int (secs div SECS_AN_HOUR) @ lit '' h''
      else lit ''every '' @ show_int (secs div SECS_A_DAY) @ lit '' days'')"

section \<open>The health verdict\<close>

record check =
  ck_name :: rstring
  ck_instance :: "rstring option"
  ck_ok :: bool
  ck_rc :: int
  ck_ts :: int
  ck_age :: "rstring option"

record cadence =
  cd_secs :: "int option"
  cd_words :: "rstring option"

definition cadence_known :: "cadence \<Rightarrow> bool" where
  "cadence_known c \<longleftrightarrow> cd_secs c \<noteq> None"

definition cadence_say :: "cadence \<Rightarrow> rstring" where
  "cadence_say c =
     (case (cd_words c, cd_secs c) of
        (Some w, _) \<Rightarrow> w
      | (None, Some s) \<Rightarrow> cadence_words s
      | (None, None) \<Rightarrow> lit ''unknown'')"

definition sampling_warning :: "int \<Rightarrow> cadence \<Rightarrow> rstring option" where
  "sampling_warning rate_s c =
     (case cd_secs c of
        None \<Rightarrow> None
      | Some cadence_s \<Rightarrow>
          if i64_sat (rate_s * 2) \<le> cadence_s then None
          else Some (lit ''sampled '' @ rate_words rate_s @ lit '', server publishes '' @ cadence_say c
                       @ lit '': two publications behind''))"

definition cadence_unknown_note :: "int \<Rightarrow> rstring" where
  "cadence_unknown_note rate_s =
     lit ''the cadence could not be read: this client keeps its rate ('' @ rate_words rate_s @ lit '')''"

definition FALLBACK_CADENCE_MINUTES :: int where "FALLBACK_CADENCE_MINUTES = 15"
definition HEALTH_STALE_AFTER_S :: int where "HEALTH_STALE_AFTER_S = (FALLBACK_CADENCE_MINUTES + 5) * 60"

record health =
  he_checks :: "check list"
  he_oldest_age :: "rstring option"
  he_oldest_age_s :: "int option"
  he_cadence :: cadence

definition stale_after_s :: "health \<Rightarrow> int" where
  "stale_after_s h =
     (case cd_secs (he_cadence h) of None \<Rightarrow> HEALTH_STALE_AFTER_S | Some c \<Rightarrow> i64_sat (c + STALE_GRACE_S))"

definition health_stale :: "health \<Rightarrow> bool" where
  "health_stale h = (case he_oldest_age_s h of None \<Rightarrow> False | Some s \<Rightarrow> stale_after_s h < s)"

text \<open>The periodic suite: the checks in it, by instance and name.\<close>

type_synonym suite = "(rstring option \<times> rstring) list"

definition suite_takes :: "suite \<Rightarrow> rstring option \<Rightarrow> rstring \<Rightarrow> bool" where
  "suite_takes s inst name \<longleftrightarrow>
     list_ex (\<lambda>(i, n). n = name \<and>
                (case (i, inst) of (None, _) \<Rightarrow> True | (_, None) \<Rightarrow> True | (Some a, Some b) \<Rightarrow> a = b)) s"

definition narrow_to :: "suite \<Rightarrow> health \<Rightarrow> health" where
  "narrow_to s h = h\<lparr>he_checks := filter (\<lambda>c. suite_takes s (ck_instance c) (ck_name c)) (he_checks h)\<rparr>"

section \<open>The other sections\<close>

record job =
  jb_label :: rstring
  jb_instance :: "rstring option"
  jb_last_start :: "int option"
  jb_last_rc :: "int option"
  jb_running_since :: "int option"
  jb_alert_since :: "int option"

definition job_in_trouble :: "job \<Rightarrow> bool" where
  "job_in_trouble j \<longleftrightarrow>
     (case jb_last_rc j of None \<Rightarrow> False | Some rc \<Rightarrow> rc \<noteq> 0) \<or> jb_alert_since j \<noteq> None"

record container =
  ct_name :: rstring
  ct_state :: docker_state
  ct_status :: rstring
  ct_health :: docker_health
  ct_instance :: "rstring option"
  ct_compose_project :: "rstring option"

definition container_in_trouble :: "container \<Rightarrow> bool" where
  "container_in_trouble c \<longleftrightarrow>
     (if ct_health c = Unhealthy then True
      else if ct_state c = docker_state.Running then False
      else \<not> (ct_compose_project c = None \<and> starts_with (ct_status c) (lit ''Exited (0)'')))"

definition stack :: "container \<Rightarrow> rstring" where
  "stack c = (case ct_instance c of
                Some i \<Rightarrow> i
              | None \<Rightarrow> (case ct_compose_project c of Some p \<Rightarrow> p | None \<Rightarrow> []))"

record alert =
  al_ts :: int
  al_subject :: rstring

record member =
  mb_name :: rstring
  mb_state :: zfs_state

definition member_faulted :: "member \<Rightarrow> bool" where
  "member_faulted m \<longleftrightarrow> \<not> zfs_online (mb_state m)"

record pool =
  po_name :: rstring
  po_state :: zfs_state
  po_action :: rstring
  po_msg :: rstring
  po_members :: "member list"

definition faulted_members :: "pool \<Rightarrow> member list" where
  "faulted_members p = filter member_faulted (po_members p)"

definition pool_verdict :: "pool \<Rightarrow> verdict" where
  "pool_verdict p = (if zfs_online (po_state p) \<and> faulted_members p = [] then Whole else NotWhole)"

definition is_whole :: "pool \<Rightarrow> bool" where
  "is_whole p \<longleftrightarrow> pool_verdict p = Whole"

record tunnel =
  tn_instance :: "rstring option"
  tn_container :: rstring
  tn_country :: "rstring option"
  tn_leak :: leak

definition tunnel_confirmed :: "tunnel \<Rightarrow> bool" where
  "tunnel_confirmed t \<longleftrightarrow> tn_leak t = Confirmed"

definition tunnel_severity :: "tunnel \<Rightarrow> severity" where
  "tunnel_severity t =
     (case tn_leak t of
        Confirmed \<Rightarrow> SevOk
      | Leaked \<Rightarrow> Bad
      | LeakUnknown \<Rightarrow> Bad
      | Disagreement \<Rightarrow> Unsettled
      | Unverified \<Rightarrow> Unsettled)"

record egress =
  eg_tunnels :: "tunnel list"
  eg_line :: rstring

record fs_mount =
  mt_mount :: rstring
  mt_device :: rstring
  mt_fstype :: rstring
  mt_size :: nat
  mt_avail :: nat
  mt_percent :: nat

definition zfs_pool :: "fs_mount \<Rightarrow> rstring option" where
  "zfs_pool m = (if mt_fstype m = lit ''zfs'' then Some (hd (split_at_byte 0x2F (mt_device m))) else None)"

definition is_boot :: "fs_mount \<Rightarrow> bool" where
  "is_boot m \<longleftrightarrow> mt_mount m = lit ''/boot'' \<or> starts_with (mt_mount m) (lit ''/boot/'')"

type_synonym disk_usage = "fs_mount list"

fun counted_go :: "fs_mount list \<Rightarrow> rstring list \<Rightarrow> fs_mount list" where
  "counted_go [] pools = []"
| "counted_go (m # ms) pools =
     (if is_boot m then counted_go ms pools
      else case zfs_pool m of
             None \<Rightarrow> m # counted_go ms pools
           | Some p \<Rightarrow> (if p \<in> set pools then counted_go ms pools
                       else m # counted_go ms (pools @ [p])))"

definition counted :: "disk_usage \<Rightarrow> fs_mount list" where
  "counted d = counted_go d []"

record capacity =
  ca_size :: nat
  ca_free :: nat
  ca_percent :: nat

definition U64_MAX :: nat where "U64_MAX = 2 ^ 64 - 1"

definition u64_sum :: "nat list \<Rightarrow> nat" where
  "u64_sum ns = fold (\<lambda>n a. min U64_MAX (a + n)) ns 0"

definition capacity_total :: "disk_usage \<Rightarrow> capacity option" where
  "capacity_total d =
     (let ms = counted d
      in if ms = [] then None
         else let size = u64_sum (map mt_size ms);
                  free = u64_sum (map mt_avail ms);
                  percent = (if size = 0 then 0
                             else let used = size - free; q = used * 100 div size
                                  in if q \<le> U64_MAX then q else 100)
              in Some \<lparr>ca_size = size, ca_free = free, ca_percent = percent\<rparr>)"

record memory =
  me_total_kib :: nat
  me_avail_kib :: nat

definition memory_reported :: "memory \<Rightarrow> bool" where
  "memory_reported m \<longleftrightarrow> 0 < me_total_kib m"

record instance_row =
  ir_instance :: rstring
  ir_root :: rstring
  ir_present :: bool
  ir_problem :: "rstring option"

record instances =
  in_declared :: nat
  in_read :: bool
  in_mtime :: "int option"
  in_answered :: nat
  in_rows :: "instance_row list"

definition is_undeclared :: "instances \<Rightarrow> bool" where
  "is_undeclared i \<longleftrightarrow>
     in_mtime i = None \<and> in_declared i = 0 \<and> \<not> in_read i \<and> list_all ir_present (in_rows i)"

definition instance_faults :: "instances \<Rightarrow> instance_row list" where
  "instance_faults i =
     (if is_undeclared i then [] else filter (\<lambda>r. ir_problem r \<noteq> None) (in_rows i))"

definition primary :: "instances \<Rightarrow> instance_row option" where
  "primary i = nth_opt (in_rows i) 0"

text \<open>A load average in thousandths: the product rounded half away from zero, printed and read back.\<close>

definition load_milli :: "f64 \<Rightarrow> int" where
  "load_milli v =
     (let p = f64_mul v 0x408F400000000000
      in if f64_nan v \<or> f64_sign v = 1 \<or> f64_sig v = 0 \<or> 2047 * 2 ^ 52 \<le> unat p then 0
         else let n = (if 0 \<le> f64_pow p then f64_sig p * 2 ^ nat (f64_pow p)
                       else (f64_sig p + 2 ^ nat (- f64_pow p - 1)) div 2 ^ nat (- f64_pow p))
              in if int n \<le> I64_MAX then int n else I64_MAX)"

section \<open>The deploy\<close>

record repo =
  rp_instance :: "rstring option"
  rp_head :: rstring
  rp_version :: rstring

definition short_head :: "repo \<Rightarrow> rstring" where
  "short_head r =
     (if 8 \<le> length (rp_head r) \<and> char_boundary (rp_head r) 8 then take 8 (rp_head r) else rp_head r)"

definition deploy_after :: "rstring \<Rightarrow> repo option \<Rightarrow> repo option" where
  "deploy_after running r =
     (case r of None \<Rightarrow> None | Some r \<Rightarrow> if rp_version r \<noteq> trim running then Some r else None)"

definition stale_words :: "rstring \<times> rstring \<Rightarrow> repo \<Rightarrow> rstring" where
  "stale_words server r =
     (let head = (if rp_head r = [] then [] else lit '' ('' @ short_head r @ lit '')'')
      in lit ''answered by '' @ fst server @ lit '' '' @ snd server
           @ lit '', a build from before the host's deploy of '' @ rp_version r @ head)"

record facts =
  fa_ncpu :: int
  fa_load :: "int list"
  fa_mem :: memory
  fa_instances :: "instances option"
  fa_repo :: "repo option"

record triage_item =
  ti_instance :: rstring
  ti_kind :: rstring
  ti_what :: rstring
  ti_witnesses :: "rstring list"
  ti_fix :: "rstring option"

record triage =
  tr_needs_attention :: bool
  tr_items :: "triage_item list"
  tr_quiet :: "rstring list"

section \<open>The state of the view\<close>

datatype ops_source = SrcCommand rstring | LocalAgent

definition source_of :: "server \<Rightarrow> ops_source option" where
  "source_of s =
     (case sv_mcp s of Some c \<Rightarrow> Some (SrcCommand c) | None \<Rightarrow> if is_local s then Some LocalAgent else None)"

definition ops_banner :: "server \<Rightarrow> rstring" where
  "ops_banner s =
     (case map_option trim (sv_name s) of
        Some n \<Rightarrow> if n = [] then sv_host s else n @ lit '' ('' @ sv_host s @ lit '')''
      | None \<Rightarrow> sv_host s)"

text \<open>One section: its data, or the reason there is none.\<close>

datatype 'a part = Ready 'a | Absent rstring | Failed rstring | Unknown rstring

text \<open>Where a session's tool list came from (crates/multitop/src/mcp/catalogue.rs).\<close>

datatype proof_of = PDigest rstring | PAbsent

datatype miss =
    MNone
  | Released rstring rstring
  | Reshaped rstring rstring
  | Expired int int
  | Changed rstring rstring
  | Uncheckable

datatype catalogue = Listed int | Kept int int proof_of | Relisted miss int

record snapshot =
  sn_server :: "rstring \<times> rstring"
  sn_at :: int
  sn_sampled_every_s :: int
  sn_catalogue :: catalogue
  sn_health :: "health part"
  sn_vpn :: "egress part"
  sn_cron :: "job list part"
  sn_containers :: "container list part"
  sn_zfs :: "pool list part"
  sn_disk :: "disk_usage part"
  sn_facts :: "facts part"
  sn_alerts :: "alert list part"
  sn_triage :: "triage part"

datatype ops_state = NotConfigured | Asking | OpsFailed rstring "snapshot option" | OpsReady snapshot

definition predates_deploy :: "snapshot \<Rightarrow> repo option" where
  "predates_deploy s =
     (case sn_facts s of Ready f \<Rightarrow> deploy_after (snd (sn_server s)) (fa_repo f) | _ \<Rightarrow> None)"

definition gap :: "rstring \<Rightarrow> 'a part \<Rightarrow> (rstring \<times> rstring) list" where
  "gap name p = (case p of Unknown reason \<Rightarrow> [(name, reason)] | _ \<Rightarrow> [])"

definition unknowns :: "snapshot \<Rightarrow> (rstring \<times> rstring) list" where
  "unknowns s =
     gap (lit ''health'') (sn_health s) @ gap (lit ''vpn'') (sn_vpn s) @ gap (lit ''cron'') (sn_cron s)
       @ gap (lit ''containers'') (sn_containers s) @ gap (lit ''zfs'') (sn_zfs s)
       @ gap (lit ''disk'') (sn_disk s) @ gap (lit ''facts'') (sn_facts s)
       @ gap (lit ''alerts'') (sn_alerts s) @ gap (lit ''triage'') (sn_triage s)"

definition when_ready :: "'a part \<Rightarrow> ('a \<Rightarrow> 'b list) \<Rightarrow> 'b list" where
  "when_ready p f = (case p of Ready a \<Rightarrow> f a | _ \<Rightarrow> [])"

definition str_or_empty :: "rstring option \<Rightarrow> rstring" where
  "str_or_empty x = (case x of None \<Rightarrow> [] | Some s \<Rightarrow> s)"

definition snapshot_terms :: "snapshot \<Rightarrow> rstring list" where
  "snapshot_terms s =
     when_ready (sn_health s) (\<lambda>h. map ck_name (he_checks h))
       @ when_ready (sn_vpn s) (\<lambda>e. concat (map (\<lambda>t. [tn_container t, leak_str (tn_leak t),
                                                        str_or_empty (tn_instance t)]) (eg_tunnels e)))
       @ when_ready (sn_cron s) (\<lambda>js. concat (map (\<lambda>j. [jb_label j, str_or_empty (jb_instance j)]) js))
       @ when_ready (sn_containers s) (\<lambda>cs. concat (map (\<lambda>c. [ct_name c, ct_status c, stack c]) cs))
       @ when_ready (sn_zfs s) (\<lambda>ps. concat (map (\<lambda>p. po_name p # map mb_name (po_members p)) ps))
       @ when_ready (sn_disk s) (\<lambda>d. map mt_mount d)
       @ when_ready (sn_facts s) (\<lambda>f. case fa_instances f of
             None \<Rightarrow> []
           | Some i \<Rightarrow> map ir_instance (in_rows i) @ List.map_filter ir_problem (in_rows i))
       @ when_ready (sn_alerts s) (\<lambda>al. map al_subject al)
       @ when_ready (sn_triage s) (\<lambda>tr. concat (map (\<lambda>i. [ti_instance i, ti_what i]) (tr_items tr)))
       @ map snd (unknowns s)"

definition ops_terms :: "ops_state \<Rightarrow> rstring list" where
  "ops_terms st =
     (case st of
        NotConfigured \<Rightarrow> []
      | Asking \<Rightarrow> []
      | OpsReady s \<Rightarrow> snapshot_terms s
      | OpsFailed reason kept \<Rightarrow> reason # (case kept of None \<Rightarrow> [] | Some s \<Rightarrow> snapshot_terms s))"

end
