(* ===== verification/State_File.thy ===== *)
theory State_File
  imports App_Model
begin

text \<open>
  The state file (the reading and writing of crates/multitop/src/state.rs): what is kept of the
  application between runs in state.toml beside the configuration, and the write that replaces a file
  by a rename. The syntax of TOML is a third-party package's: \<open>toml_env\<close>. A table is the map of its
  entries. Files are bytes at paths; a path is a plain one, whose last component is a file name.
\<close>

section \<open>Paths and files\<close>

type_synonym files = "rstring \<Rightarrow> bytes option"

definition dir_part :: "rstring \<Rightarrow> rstring" where
  "dir_part p = rev (dropWhile (\<lambda>c. c \<noteq> 0x2F) (rev p))"

definition base_name :: "rstring \<Rightarrow> rstring" where
  "base_name p = rev (takeWhile (\<lambda>c. c \<noteq> 0x2F) (rev p))"

definition with_file_name :: "rstring \<Rightarrow> rstring \<Rightarrow> rstring" where
  "with_file_name p n = dir_part p @ n"

definition file_stem :: "rstring \<Rightarrow> rstring" where
  "file_stem n = (let b = rev (dropWhile (\<lambda>c. c \<noteq> 0x2E) (rev n)) in if length b \<le> 1 then n else butlast b)"

definition with_extension :: "rstring \<Rightarrow> rstring \<Rightarrow> rstring" where
  "with_extension p ext = dir_part p @ file_stem (base_name p) @ 0x2E # ext"

text \<open>\<open>read_to_string\<close>: the fault the operating system reports, if it reports one.\<close>

datatype read_text = NoFile | Unreadable rstring | FileText rstring

definition read_to_string :: "rstring option \<Rightarrow> files \<Rightarrow> rstring \<Rightarrow> read_text" where
  "read_to_string fault fs p =
     (case fs p of
        None \<Rightarrow> NoFile
      | Some bs \<Rightarrow>
          (case fault of
             Some e \<Rightarrow> Unreadable e
           | None \<Rightarrow> if valid_utf8 bs then FileText bs
                     else Unreadable (lit ''stream did not contain valid UTF-8'')))"

text \<open>What the calls of a write answer: an error or nothing; how much a failing write left; whether the
  scratch file could be removed.\<close>

record write_answers =
  wa_pid :: nat
  wa_create :: "rstring option"
  wa_write :: "rstring option"
  wa_sync :: "rstring option"
  wa_rename :: "rstring option"
  wa_partial :: bytes
  wa_removes :: bool

definition scratch_name :: "nat \<Rightarrow> rstring \<Rightarrow> rstring" where
  "scratch_name pid p = with_extension p (lit ''toml.'' @ show_nat pid @ lit ''.tmp'')"

definition write_file :: "write_answers \<Rightarrow> rstring \<Rightarrow> rstring \<Rightarrow> files \<Rightarrow> (unit, rstring) result \<times> files" where
  "write_file w p content fs =
     (let tmp = scratch_name (wa_pid w) p
      in case wa_create w of
           Some e \<Rightarrow> (Err e, fs)
         | None \<Rightarrow>
             (case wa_write w of
                Some e \<Rightarrow> (Err e, fs(tmp \<mapsto> wa_partial w))
              | None \<Rightarrow>
                  (case wa_sync w of
                     Some e \<Rightarrow> (Err e, fs(tmp \<mapsto> content))
                   | None \<Rightarrow>
                       (case wa_rename w of
                          Some e \<Rightarrow> (Err e, fs(tmp \<mapsto> content))
                        | None \<Rightarrow> (Ok (), (fs(tmp := None))(p \<mapsto> content))))))"

definition write_atomic :: "write_answers \<Rightarrow> rstring \<Rightarrow> rstring \<Rightarrow> files \<Rightarrow> (unit, rstring) result \<times> files" where
  "write_atomic w p content fs =
     (case write_file w p content fs of
        (Inr u, fs') \<Rightarrow> (Inr u, fs')
      | (Inl e, fs') \<Rightarrow>
          (Inl e, if wa_removes w then fs'(scratch_name (wa_pid w) p := None) else fs'))"

section \<open>TOML\<close>

datatype toml =
    TStr rstring
  | TInt int
  | TFloat f64
  | TBool bool
  | TDate rstring
  | TArr "toml list"
  | TTable "rstring \<Rightarrow> toml option"

type_synonym toml_table = "rstring \<Rightarrow> toml option"

record toml_env =
  te_read :: "rstring \<Rightarrow> (toml, rstring) result"
  te_write :: "toml_table \<Rightarrow> (rstring, rstring) result"

text \<open>What is written reads back, and is text.\<close>

definition toml_ok :: "toml_env \<Rightarrow> bool" where
  "toml_ok te \<longleftrightarrow> (\<forall>t txt. te_write te t = Inr txt \<longrightarrow> te_read te txt = Inr (TTable t) \<and> valid_utf8 txt)"

definition table_at :: "rstring \<Rightarrow> toml \<Rightarrow> toml option" where
  "table_at k v = (case v of TTable t \<Rightarrow> t k | _ \<Rightarrow> None)"

definition t_table :: "toml \<Rightarrow> toml_table option" where
  "t_table v = (case v of TTable t \<Rightarrow> Some t | _ \<Rightarrow> None)"

definition t_str :: "toml \<Rightarrow> rstring option" where
  "t_str v = (case v of TStr s \<Rightarrow> Some s | _ \<Rightarrow> None)"

definition t_bool :: "toml \<Rightarrow> bool option" where
  "t_bool v = (case v of TBool b \<Rightarrow> Some b | _ \<Rightarrow> None)"

definition t_array :: "toml \<Rightarrow> toml list option" where
  "t_array v = (case v of TArr vs \<Rightarrow> Some vs | _ \<Rightarrow> None)"

definition get_opt_u64 :: "toml \<Rightarrow> rstring \<Rightarrow> u64 option" where
  "get_opt_u64 v k =
     (case table_at k v of Some (TInt n) \<Rightarrow> (if 0 \<le> n then Some (of_int n) else None) | _ \<Rightarrow> None)"

definition get_opt_string :: "toml \<Rightarrow> rstring \<Rightarrow> rstring option" where
  "get_opt_string v k = Option.bind (table_at k v) t_str"

definition insert_opt_u64 :: "rstring \<Rightarrow> u64 option \<Rightarrow> toml_table \<Rightarrow> toml_table" where
  "insert_opt_u64 k x t =
     (case x of None \<Rightarrow> t | Some v \<Rightarrow> t(k \<mapsto> TInt (min (uint v) (2 ^ 63 - 1))))"

section \<open>Writing the state\<close>

definition state_file_path :: "rstring \<Rightarrow> rstring" where
  "state_file_path config_path = with_file_name config_path (lit ''state.toml'')"

definition host_entry :: "host_update \<Rightarrow> toml" where
  "host_entry r =
     TTable ((insert_opt_u64 (lit ''finished_at'') (hu_finished_at r)
                (insert_opt_u64 (lit ''started_at'') (hu_started_at r) Map.empty))
             (lit ''success'' \<mapsto> TBool (hu_success r)))"

definition state_table :: "app_state \<Rightarrow> toml_table" where
  "state_table st =
     (let t = insert_opt_u64 (lit ''last_update'') (st_last_update st) Map.empty;
          t = insert_opt_u64 (lit ''upgrade_started_at'') (st_upgrade_started_at st) t;
          t = (if st_hosts st = Map.empty then t
               else t(lit ''hosts'' \<mapsto> TTable (\<lambda>k. map_option host_entry (st_hosts st k))));
          t = (case st_selected_host st of None \<Rightarrow> t | Some s \<Rightarrow> t(lit ''selected_host'' \<mapsto> TStr s));
          t = (case st_filter_query st of
                 None \<Rightarrow> t
               | Some s \<Rightarrow> if trim s = [] then t else t(lit ''filter_query'' \<mapsto> TStr s));
          t = (case st_sort st of None \<Rightarrow> t | Some s \<Rightarrow> t(lit ''sort'' \<mapsto> TStr s));
          t = (if st_views st = Map.empty then t
               else t(lit ''views'' \<mapsto> TTable (\<lambda>k. map_option TStr (st_views st k))));
          t = (if st_saved_filters st = [] then t
               else t(lit ''saved_filters'' \<mapsto> TArr (map TStr (take 3 (st_saved_filters st)))))
      in t)"

definition save_state :: "toml_env \<Rightarrow> write_answers \<Rightarrow> rstring \<Rightarrow> app_state \<Rightarrow> files \<Rightarrow> (unit, rstring) result \<times> files" where
  "save_state te w config_path st fs =
     (case te_write te (state_table st) of
        Inl e \<Rightarrow> (Err e, fs)
      | Inr content \<Rightarrow> write_atomic w (state_file_path config_path) content fs)"

section \<open>Reading it\<close>

definition state_default :: app_state where
  "state_default =
     \<lparr>st_last_update = None, st_upgrade_started_at = None, st_hosts = Map.empty, st_selected_host = None,
      st_filter_query = None, st_sort = None, st_views = Map.empty, st_saved_filters = []\<rparr>"

definition host_of_entry :: "toml \<Rightarrow> host_update" where
  "host_of_entry e =
     \<lparr>hu_started_at = get_opt_u64 e (lit ''started_at''),
      hu_finished_at = get_opt_u64 e (lit ''finished_at''),
      hu_success = (case Option.bind (table_at (lit ''success'') e) t_bool of None \<Rightarrow> False | Some b \<Rightarrow> b)\<rparr>"

definition state_of_toml :: "toml \<Rightarrow> app_state" where
  "state_of_toml v =
     \<lparr>st_last_update = get_opt_u64 v (lit ''last_update''),
      st_upgrade_started_at = get_opt_u64 v (lit ''upgrade_started_at''),
      st_hosts =
        (case Option.bind (table_at (lit ''hosts'') v) t_table of
           None \<Rightarrow> Map.empty | Some t \<Rightarrow> (\<lambda>k. map_option host_of_entry (t k))),
      st_selected_host = get_opt_string v (lit ''selected_host''),
      st_filter_query = get_opt_string v (lit ''filter_query''),
      st_sort = get_opt_string v (lit ''sort''),
      st_views =
        (case Option.bind (table_at (lit ''views'') v) t_table of
           None \<Rightarrow> Map.empty | Some t \<Rightarrow> (\<lambda>k. Option.bind (t k) t_str)),
      st_saved_filters =
        (case Option.bind (table_at (lit ''saved_filters'') v) t_array of
           None \<Rightarrow> [] | Some vs \<Rightarrow> take 3 (List.map_filter t_str vs))\<rparr>"

record state_load =
  sl_state :: app_state
  sl_notice :: "rstring option"

definition load_state :: "toml_env \<Rightarrow> rstring option \<Rightarrow> bool \<Rightarrow> rstring \<Rightarrow> files \<Rightarrow> state_load \<times> files" where
  "load_state te fault renames config_path fs =
     (let path = state_file_path config_path
      in case read_to_string fault fs path of
           NoFile \<Rightarrow> (\<lparr>sl_state = state_default, sl_notice = None\<rparr>, fs)
         | Unreadable e \<Rightarrow>
             (\<lparr>sl_state = state_default,
               sl_notice = Some (path @ lit '' could not be read ('' @ e
                                   @ lit ''); upgrade history is unavailable this session.'')\<rparr>, fs)
         | FileText text \<Rightarrow>
             (case te_read te text of
                Inl e \<Rightarrow>
                  let kept = with_extension path (lit ''toml.unreadable'')
                  in (\<lparr>sl_state = state_default,
                       sl_notice = Some
                         (if renames then
                            path @ lit '' could not be parsed ('' @ e @ lit ''); it has been kept as '' @ kept
                              @ lit '' and a fresh one started.''
                          else path @ lit '' could not be parsed ('' @ e @ lit '') and could not be moved aside; ''
                                 @ lit ''upgrade history is unavailable and will be overwritten.'')\<rparr>,
                      if renames then (fs(path := None))(kept := fs path) else fs)
              | Inr v \<Rightarrow> (\<lparr>sl_state = state_of_toml v, sl_notice = None\<rparr>, fs)))"

section \<open>A write is all or nothing\<close>

lemma base_name_append [simp]:
  assumes "0x2F \<notin> set n"
  shows "base_name (d @ 0x2F # n) = n"
proof -
  have "takeWhile (\<lambda>c. c \<noteq> 0x2F) (rev n @ 0x2F # rev d) = rev n @ takeWhile (\<lambda>c. c \<noteq> 0x2F) (0x2F # rev d)"
    by (rule takeWhile_append2) (use assms in auto)
  then show ?thesis by (simp add: base_name_def)
qed

lemma scratch_last: "last (scratch_name pid p) = 0x70"
  by (simp add: scratch_name_def with_extension_def lit_def)

lemma state_path_last: "last (state_file_path p) = 0x6C"
  by (simp add: state_file_path_def with_file_name_def lit_def)

lemma scratch_not_state [simp]: "scratch_name pid p \<noteq> state_file_path q" "state_file_path q \<noteq> scratch_name pid p"
  using scratch_last [of pid p] state_path_last [of q] by force+

text \<open>What a write leaves at the path and elsewhere.\<close>

lemma write_atomic_cases:
  assumes "scratch_name (wa_pid w) p \<noteq> p"
  shows "(case write_atomic w p content fs of
            (Inr _, fs') \<Rightarrow> fs' p = Some content
          | (Inl _, fs') \<Rightarrow> fs' p = fs p)
    \<and> (\<forall>q. q \<noteq> p \<longrightarrow> q \<noteq> scratch_name (wa_pid w) p \<longrightarrow> snd (write_atomic w p content fs) q = fs q)"
  using assms by (auto simp: write_atomic_def write_file_def Let_def split: option.splits)

lemma write_atomic_Ok:
  "fst (write_atomic w p content fs) = Inr () \<Longrightarrow> snd (write_atomic w p content fs) p = Some content"
  by (auto simp: write_atomic_def write_file_def Let_def split: option.splits if_splits)

lemma write_atomic_fails:
  assumes "scratch_name (wa_pid w) p \<noteq> p" "fst (write_atomic w p content fs) = Inl e"
  shows "snd (write_atomic w p content fs) p = fs p"
  using assms by (auto simp: write_atomic_def write_file_def Let_def split: option.splits if_splits)

end
