(* ===== verification/Catalogue.thy ===== *)
theory Catalogue
  imports Ops_Model "HOL-Library.List_Lexorder" State_File
begin

text \<open>
  The tool list a client keeps between sessions (crates/multitop/src/mcp/catalogue.rs): what it is
  kept under, when it may be used, and why it was not. The entry's text is JSON written and read by
  derived code, which is an argument (\<open>entry_text\<close>). The clock is an argument.
\<close>

definition MS_PER_S :: nat where "MS_PER_S = 1000"

definition META_DIGEST :: rstring where "META_DIGEST = lit ''dev.multitop/catalogueDigest''"
definition DIGEST_PREFIX :: rstring where "DIGEST_PREFIX = lit ''sha256:''"
definition DIGEST_HEX :: nat where "DIGEST_HEX = 64"

definition is_digest :: "rstring \<Rightarrow> bool" where
  "is_digest text \<longleftrightarrow>
     starts_with text DIGEST_PREFIX
     \<and> (let hex = drop (length DIGEST_PREFIX) text
        in length hex = DIGEST_HEX
           \<and> list_all (\<lambda>b. (0x30 \<le> b \<and> b \<le> 0x39) \<or> (0x61 \<le> b \<and> b \<le> 0x66)) hex)"

record entry =
  en_version :: rstring
  en_absent :: rstring
  en_digest :: "rstring option"
  en_tools :: "rstring list"
  en_ttl_ms :: nat
  en_fetched_at :: int

definition is_for :: "rstring \<Rightarrow> rstring \<Rightarrow> entry \<Rightarrow> bool" where
  "is_for version absent e \<longleftrightarrow> en_version e = version \<and> en_absent e = absent"

definition secs_of_ms :: "nat \<Rightarrow> int" where
  "secs_of_ms ms = min (int (ms div MS_PER_S)) I64_MAX"

definition window_s :: "entry \<Rightarrow> int" where
  "window_s e = secs_of_ms (en_ttl_ms e)"

definition entry_fresh :: "int \<Rightarrow> entry \<Rightarrow> bool" where
  "entry_fresh now e \<longleftrightarrow> 0 < en_ttl_ms e \<and> i64_sat (now - en_fetched_at e) < window_s e"

text \<open>The absent tools, by name, in order; \<open>absent\<close> has one reason for each name.\<close>

fun comma_join :: "rstring list \<Rightarrow> rstring" where
  "comma_join [] = []"
| "comma_join [x] = x"
| "comma_join (x # y # xs) = x @ 0x2C # comma_join (y # xs)"

definition fingerprint :: "(rstring \<times> rstring) list \<Rightarrow> rstring" where
  "fingerprint absent = comma_join (sort (map fst absent))"

datatype hit = Current "rstring list" int int proof_of | Missed miss

text \<open>The comparison of a kept entry with what the server says of itself now.\<close>

definition hit_entry :: "int \<Rightarrow> rstring \<Rightarrow> rstring \<Rightarrow> rstring option \<Rightarrow> entry \<Rightarrow> hit" where
  "hit_entry now version absent digest e =
     (let age_s = i64_sat (now - en_fetched_at e); ttl_s = window_s e; fresh = entry_fresh now e
      in case digest of
           Some d \<Rightarrow>
             (case en_digest e of
                Some kept \<Rightarrow>
                  if kept = d then
                    (if fresh then Current (en_tools e) age_s ttl_s (PDigest d)
                     else Missed (Expired age_s ttl_s))
                  else Missed (Changed kept d)
              | None \<Rightarrow> Missed Uncheckable)
         | None \<Rightarrow>
             if \<not> is_for version absent e then
               Missed (if en_version e = version then Reshaped (en_absent e) absent
                       else Released (en_version e) version)
             else if \<not> fresh then Missed (Expired age_s ttl_s)
             else Current (en_tools e) age_s ttl_s PAbsent)"

record entry_text =
  et_write :: "entry \<Rightarrow> rstring"
  et_read :: "rstring \<Rightarrow> entry option"

definition entry_text_ok :: "entry_text \<Rightarrow> bool" where
  "entry_text_ok et \<longleftrightarrow> (\<forall>e. et_read et (et_write et e) = Some e \<and> valid_utf8 (et_write et e))"

text \<open>A store is the path it keeps the list at, when it has one.\<close>

definition hit :: "entry_text \<Rightarrow> rstring option \<Rightarrow> int \<Rightarrow> rstring option \<Rightarrow> files \<Rightarrow> rstring \<Rightarrow> rstring \<Rightarrow> rstring option \<Rightarrow> hit" where
  "hit et fault now store fs version absent digest =
     (case store of
        None \<Rightarrow> Missed MNone
      | Some path \<Rightarrow>
          (case read_to_string fault fs path of
             FileText text \<Rightarrow>
               (case et_read et text of
                  None \<Rightarrow> Missed MNone
                | Some e \<Rightarrow> hit_entry now version absent digest e)
           | _ \<Rightarrow> Missed MNone))"

text \<open>Keeping a list: \<open>dirs\<close> is what making the directory answers, as the text of its error.\<close>

definition store_list ::
  "entry_text \<Rightarrow> rstring option \<Rightarrow> write_answers \<Rightarrow> int \<Rightarrow> rstring option \<Rightarrow> rstring \<Rightarrow> rstring
    \<Rightarrow> rstring option \<Rightarrow> rstring list \<Rightarrow> nat \<Rightarrow> files \<Rightarrow> (unit, rstring) result \<times> files" where
  "store_list et dirs w now store version absent digest tools ttl_ms fs =
     (case store of
        None \<Rightarrow> (Ok (), fs)
      | Some path \<Rightarrow>
          if ttl_ms = 0 \<or> version = [] then (Ok (), fs)
          else
            let e = \<lparr>en_version = version, en_absent = absent, en_digest = digest, en_tools = tools,
                     en_ttl_ms = ttl_ms, en_fetched_at = now\<rparr>
            in case dirs of
                 Some err \<Rightarrow> (Err err, fs)
               | None \<Rightarrow> write_atomic w path (et_write et e) fs)"

section \<open>When a kept list is used\<close>

lemma hit_entry_Current:
  "hit_entry now version absent digest e = Current tools age_s ttl_s prf \<longleftrightarrow>
     entry_fresh now e \<and> tools = en_tools e \<and> age_s = i64_sat (now - en_fetched_at e) \<and> ttl_s = window_s e
     \<and> (case digest of
          Some d \<Rightarrow> en_digest e = Some d \<and> prf = PDigest d
        | None \<Rightarrow> is_for version absent e \<and> prf = PAbsent)"
  by (auto simp: hit_entry_def Let_def split: option.splits)

lemma hit_Current:
  "hit et fault now store fs version absent digest = Current tools age_s ttl_s prf \<longleftrightarrow>
     (\<exists>path text e. store = Some path \<and> read_to_string fault fs path = FileText text
        \<and> et_read et text = Some e \<and> hit_entry now version absent digest e = Current tools age_s ttl_s prf)"
  by (auto simp: hit_def split: option.splits read_text.splits)

lemma window_pos: "entry_fresh now e \<Longrightarrow> 0 < en_ttl_ms e"
  by (simp add: entry_fresh_def)

end
