(* ===== verification/Ops_Answers.thy ===== *)
theory Ops_Answers
  imports Ops_Model
begin

text \<open>
  The hosts' answers, parsed (crates/multitop/src/ops/answers.rs, \<open>parse_triage\<close> of ops/triage.rs and
  \<open>parse_repo\<close> of ops/deploy.rs). An error is the text the section shows.
\<close>

section \<open>Fields\<close>

definition json_text :: "json \<Rightarrow> string \<Rightarrow> rstring" where
  "json_text v k = str_or_empty (Option.bind (jget (lit k) v) as_str)"

definition opt_text :: "json \<Rightarrow> string \<Rightarrow> rstring option" where
  "opt_text v k =
     (case Option.bind (jget (lit k) v) as_str of
        None \<Rightarrow> None | Some s \<Rightarrow> if s = [] then None else Some s)"

definition json_list :: "json \<Rightarrow> string \<Rightarrow> (json list, rstring) result" where
  "json_list v k =
     ok_or (lit ''the answer has no `'' @ lit k @ lit ''` list'') (Option.bind (jget (lit k) v) as_array)"

definition opt_int :: "json \<Rightarrow> string \<Rightarrow> int option" where
  "opt_int v k = Option.bind (jget (lit k) v) as_i64"

definition json_int :: "json \<Rightarrow> string \<Rightarrow> int" where
  "json_int v k = (case opt_int v k of None \<Rightarrow> 0 | Some n \<Rightarrow> n)"

definition json_count :: "json \<Rightarrow> string \<Rightarrow> nat" where
  "json_count v k = (case Option.bind (jget (lit k) v) as_u64 of None \<Rightarrow> 0 | Some n \<Rightarrow> n)"

definition json_flag :: "json \<Rightarrow> string \<Rightarrow> bool" where
  "json_flag v k = (case Option.bind (jget (lit k) v) as_bool of None \<Rightarrow> False | Some b \<Rightarrow> b)"

section \<open>Health\<close>

definition parse_check :: "json \<Rightarrow> check" where
  "parse_check c =
     \<lparr>ck_name = json_text c ''check'', ck_instance = opt_text c ''instance'', ck_ok = json_flag c ''ok'',
      ck_rc = json_int c ''rc'', ck_ts = json_int c ''ts'', ck_age = opt_text c ''age''\<rparr>"

definition parse_health :: "json \<Rightarrow> (health, rstring) result" where
  "parse_health v =
     rbind (json_list v ''checks'') (\<lambda>cs.
       Ok \<lparr>he_checks = map parse_check cs, he_oldest_age = opt_text v ''oldest_age'',
           he_oldest_age_s = opt_int v ''oldest_age_s'',
           he_cadence = \<lparr>cd_secs = opt_int v ''cadence_s'', cd_words = opt_text v ''cadence''\<rparr>\<rparr>)"

definition parse_suite :: "json \<Rightarrow> (suite, rstring) result" where
  "parse_suite v =
     rbind (json_list v ''checks'') (\<lambda>cs.
       Ok (map (\<lambda>c. (opt_text c ''instance'', json_text c ''name''))
               (filter (\<lambda>c. Option.bind (jget (lit ''in_suite'') c) as_bool = Some True) cs)))"

section \<open>Jobs, containers, alerts\<close>

definition parse_job :: "json \<Rightarrow> job" where
  "parse_job j =
     \<lparr>jb_label = json_text j ''label'', jb_instance = opt_text j ''instance'',
      jb_last_start = opt_int j ''last_start'', jb_last_rc = opt_int j ''last_rc'',
      jb_running_since = opt_int j ''running_since'', jb_alert_since = opt_int j ''alert_since''\<rparr>"

definition parse_cron :: "json \<Rightarrow> (job list, rstring) result" where
  "parse_cron v = rbind (json_list v ''jobs'') (\<lambda>js. Ok (map parse_job js))"

definition parse_container :: "json \<Rightarrow> container" where
  "parse_container c =
     \<lparr>ct_name = json_text c ''name'', ct_state = docker_from_word (json_text c ''state''),
      ct_status = json_text c ''status'', ct_health = health_from_word (json_text c ''health''),
      ct_instance = opt_text c ''instance'', ct_compose_project = opt_text c ''compose_project''\<rparr>"

definition parse_containers :: "json \<Rightarrow> (container list, rstring) result" where
  "parse_containers v = rbind (json_list v ''containers'') (\<lambda>cs. Ok (map parse_container cs))"

text \<open>\<open>str::parse::<i64>\<close>.\<close>

definition parse_i64 :: "rstring \<Rightarrow> int option" where
  "parse_i64 s =
     (case s of
        [] \<Rightarrow> None
      | c # cs \<Rightarrow>
          if c = 0x2D then (if cs = [] then None else map_option (\<lambda>n. - int n) (parse_digits (2 ^ 63) 0 cs))
          else map_option int (parse_unsigned (2 ^ 63 - 1) s))"

definition parse_alert :: "json \<Rightarrow> alert" where
  "parse_alert e =
     \<lparr>al_ts =
        (case jget (lit ''ts'') e of
           None \<Rightarrow> 0
         | Some t \<Rightarrow>
             (case as_i64 t of
                Some n \<Rightarrow> n
              | None \<Rightarrow> (case Option.bind (as_str t) parse_i64 of Some n \<Rightarrow> n | None \<Rightarrow> 0))),
      al_subject = json_text e ''subject''\<rparr>"

definition parse_alerts :: "json \<Rightarrow> (alert list, rstring) result" where
  "parse_alerts v = rbind (json_list v ''events'') (\<lambda>es. Ok (map parse_alert es))"

section \<open>Pools, tunnels, mounts\<close>

definition parse_member :: "json \<Rightarrow> member" where
  "parse_member m =
     \<lparr>mb_name = json_text m ''name'', mb_state = zfs_from_word (json_text m ''state'')\<rparr>"

definition parse_pool :: "json \<Rightarrow> (pool, rstring) result" where
  "parse_pool p =
     (case json_list p ''members'' of
        Inl _ \<Rightarrow> Err (lit ''pool '' @ json_text p ''name'' @ lit '' has no `members` list'')
      | Inr ms \<Rightarrow>
          Ok \<lparr>po_name = json_text p ''name'', po_state = zfs_from_word (json_text p ''state''),
              po_action = json_text p ''action'', po_msg = json_text p ''msg'',
              po_members = map parse_member ms\<rparr>)"

definition parse_zfs :: "json \<Rightarrow> (pool list, rstring) result" where
  "parse_zfs v = rbind (json_list v ''pools'') (\<lambda>ps. collect (map parse_pool ps))"

definition leak_of :: "json \<Rightarrow> (leak, rstring) result" where
  "leak_of v =
     (let word = json_text v ''leak''
      in if word = [] then Ok LeakUnknown
         else ok_or (lit ''the answer carries a verdict this client does not have: `'' @ word @ lit ''`'')
                (leak_parse word))"

definition parse_tunnel :: "json \<Rightarrow> (tunnel, rstring) result" where
  "parse_tunnel row =
     rbind (leak_of row) (\<lambda>l.
       Ok \<lparr>tn_instance = opt_text row ''instance'', tn_container = json_text row ''container'',
           tn_country = opt_text row ''country'', tn_leak = l\<rparr>)"

definition parse_egress :: "json \<Rightarrow> (egress, rstring) result" where
  "parse_egress v =
     (let line = json_text v ''egress''
      in case Option.bind (jget (lit ''tunnels'') v) as_array of
           Some rows \<Rightarrow> rbind (collect (map parse_tunnel rows)) (\<lambda>ts. Ok \<lparr>eg_tunnels = ts, eg_line = line\<rparr>)
         | None \<Rightarrow>
             let container = json_text v ''tunnel''
             in rbind (if container = [] then Ok []
                       else rbind (leak_of v) (\<lambda>l.
                              Ok [\<lparr>tn_instance = None, tn_container = container,
                                   tn_country = opt_text v ''country'', tn_leak = l\<rparr>]))
                  (\<lambda>ts. Ok \<lparr>eg_tunnels = ts, eg_line = line\<rparr>))"

definition parse_mount :: "json \<Rightarrow> fs_mount" where
  "parse_mount m =
     \<lparr>mt_mount = json_text m ''mount'', mt_device = json_text m ''device'', mt_fstype = json_text m ''fstype'',
      mt_size = json_count m ''size'', mt_avail = json_count m ''avail'', mt_percent = json_count m ''percent''\<rparr>"

definition parse_disk :: "json \<Rightarrow> (disk_usage, rstring) result" where
  "parse_disk v = rbind (json_list v ''mounts'') (\<lambda>ms. Ok (map parse_mount ms))"

section \<open>Facts\<close>

definition parse_instance_row :: "json \<Rightarrow> instance_row" where
  "parse_instance_row r =
     \<lparr>ir_instance = json_text r ''instance'', ir_root = json_text r ''root'',
      ir_present = json_flag r ''present'', ir_problem = opt_text r ''problem''\<rparr>"

definition parse_instances :: "json \<Rightarrow> instances" where
  "parse_instances v =
     \<lparr>in_declared = json_count v ''declared'', in_read = json_flag v ''read'', in_mtime = opt_int v ''mtime'',
      in_answered = json_count v ''answered'',
      in_rows = (case Option.bind (jget (lit ''rows'') v) as_array of
                   None \<Rightarrow> [] | Some rows \<Rightarrow> map parse_instance_row rows)\<rparr>"

definition parse_repo :: "json \<Rightarrow> repo option" where
  "parse_repo facts =
     (case jget (lit ''repo'') facts of
        None \<Rightarrow> None
      | Some r \<Rightarrow>
          if \<not> is_object r then None
          else (case opt_text r ''version'' of
                  None \<Rightarrow> None
                | Some v \<Rightarrow> Some \<lparr>rp_instance = opt_text r ''instance'', rp_head = json_text r ''head'',
                                  rp_version = v\<rparr>))"

definition parse_facts :: "json \<Rightarrow> (facts, rstring) result" where
  "parse_facts v =
     (let mem = jget (lit ''mem'') v;
          kib = (\<lambda>k. case mem of None \<Rightarrow> 0 | Some m \<Rightarrow> json_count m k)
      in Ok \<lparr>fa_ncpu = json_int v ''ncpu'',
             fa_load = (case Option.bind (jget (lit ''load'') v) as_array of
                          None \<Rightarrow> [] | Some l \<Rightarrow> map load_milli (List.map_filter as_f64 l)),
             fa_mem = \<lparr>me_total_kib = kib ''total_kib'', me_avail_kib = kib ''avail_kib''\<rparr>,
             fa_instances = (case jget (lit ''instances'') v of
                               None \<Rightarrow> None
                             | Some i \<Rightarrow> if is_object i then Some (parse_instances i) else None),
             fa_repo = parse_repo v\<rparr>)"

section \<open>Triage\<close>

definition triage_strings :: "json option \<Rightarrow> string \<Rightarrow> (rstring list, rstring) result" where
  "triage_strings v key =
     rbind (ok_or (lit ''machine.triage: no '' @ lit key) (Option.bind v as_array)) (\<lambda>xs.
       collect (map (\<lambda>s. ok_or (lit ''machine.triage: '' @ lit key @ lit '' holds something that is not text'')
                           (as_str s)) xs))"

definition triage_text :: "json \<Rightarrow> string \<Rightarrow> (rstring, rstring) result" where
  "triage_text v key =
     ok_or (lit ''machine.triage: an item has no '' @ lit key) (Option.bind (jget (lit key) v) as_str)"

definition parse_triage_item :: "json \<Rightarrow> (triage_item, rstring) result" where
  "parse_triage_item v =
     rbind (case jget (lit ''fix'') v of
              None \<Rightarrow> Ok None
            | Some JNull \<Rightarrow> Ok None
            | Some (JStr s) \<Rightarrow> Ok (Some s)
            | Some _ \<Rightarrow> Err (lit ''machine.triage: an item's fix is not text'')) (\<lambda>fix.
     rbind (triage_text v ''instance'') (\<lambda>inst.
     rbind (triage_text v ''kind'') (\<lambda>kind.
     rbind (triage_text v ''what'') (\<lambda>what.
     rbind (triage_strings (jget (lit ''witnesses'') v) ''witnesses'') (\<lambda>ws.
       Ok \<lparr>ti_instance = inst, ti_kind = kind, ti_what = what, ti_witnesses = ws, ti_fix = fix\<rparr>)))))"

definition parse_triage :: "json \<Rightarrow> (triage, rstring) result" where
  "parse_triage v =
     rbind (ok_or (lit ''machine.triage: no needs_attention'')
              (Option.bind (jget (lit ''needs_attention'') v) as_bool)) (\<lambda>need.
     rbind (ok_or (lit ''machine.triage: no items'') (Option.bind (jget (lit ''items'') v) as_array)) (\<lambda>vs.
     rbind (collect (map parse_triage_item vs)) (\<lambda>its.
     rbind (triage_strings (jget (lit ''quiet'') v) ''quiet'') (\<lambda>quiet.
       Ok \<lparr>tr_needs_attention = need, tr_items = its, tr_quiet = quiet\<rparr>))))"

end
