(* ===== verification/Mcp_Client.thy ===== *)
theory Mcp_Client
  imports Catalogue Ops_Answers
begin

text \<open>
  The client of a host's \<open>mcp_host\<close> (crates/multitop/src/mcp/client.rs, error.rs). The protocol is the
  crate rmcp's: its answer to the \<open>n\<close>th request of a session is the argument \<open>svc\<close>, and what
  opening the session came to is an argument of \<open>connect_with\<close>. A duration is its whole milliseconds. What
  is asked, with the time it was given, is kept in \<open>cl_asked\<close>.
\<close>

section \<open>Failures\<close>

datatype mcp_error =
    Closed rstring
  | Timeout rstring nat
  | Rpc int rstring
  | ToolFailed rstring
  | Unsupported "rstring list"
  | Protocol rstring

definition is_unread :: "mcp_error \<Rightarrow> bool" where
  "is_unread e = (case e of Closed _ \<Rightarrow> True | Timeout _ _ \<Rightarrow> True | _ \<Rightarrow> False)"

definition PROTOCOL_VERSION :: rstring where "PROTOCOL_VERSION = lit ''2026-07-28''"

fun join_comma :: "rstring list \<Rightarrow> rstring" where
  "join_comma [] = []"
| "join_comma [x] = x"
| "join_comma (x # y # xs) = x @ lit '', '' @ join_comma (y # xs)"

definition show_error :: "mcp_error \<Rightarrow> rstring" where
  "show_error e =
     (case e of
        Closed reason \<Rightarrow> lit ''mcp_host closed the session: '' @ reason
      | Timeout what ms \<Rightarrow>
          (if ms div 1000 = 0 then what @ lit '': no answer in '' @ show_nat ms @ lit ''ms''
           else what @ lit '': no answer in '' @ show_nat (ms div 1000) @ lit ''s'')
      | Rpc code msg \<Rightarrow> msg @ lit '' ('' @ show_int code @ lit '')''
      | ToolFailed text \<Rightarrow> text
      | Unsupported v \<Rightarrow>
          lit ''mcp_host offers protocol '' @ (if v = [] then lit ''none'' else join_comma v)
            @ lit '' - this client speaks '' @ PROTOCOL_VERSION @ lit '' only''
      | Protocol reason \<Rightarrow> lit ''unreadable answer: '' @ reason)"

text \<open>What the crate reports of a request, and of opening a session; the errors the code does not
  tell apart are their text.\<close>

datatype service_error =
    McpError int rstring
  | TransportClosed
  | TransportSend
  | ServiceTimeout nat
  | OtherService rstring

definition of_service :: "service_error \<Rightarrow> rstring \<Rightarrow> mcp_error" where
  "of_service e what =
     (case e of
        McpError code msg \<Rightarrow> Rpc code msg
      | TransportClosed \<Rightarrow> Closed (lit ''end of output'')
      | TransportSend \<Rightarrow> Closed (lit ''end of output'')
      | ServiceTimeout t \<Rightarrow> Timeout what t
      | OtherService other \<Rightarrow> Protocol (what @ lit '': '' @ other))"

datatype opening_error =
    NoCompatible "rstring list"
  | OpeningRpc int rstring
  | ConnectionClosed rstring
  | TransportError rstring
  | OtherOpening rstring

definition of_opening :: "opening_error \<Rightarrow> mcp_error" where
  "of_opening e =
     (case e of
        NoCompatible supported \<Rightarrow> Unsupported supported
      | OpeningRpc code msg \<Rightarrow> Rpc code msg
      | ConnectionClosed reason \<Rightarrow> Closed reason
      | TransportError err \<Rightarrow> Closed err
      | OtherOpening other \<Rightarrow> Protocol (lit ''server/discover: '' @ other))"

section \<open>A session\<close>

datatype mcp_call = ListTools "rstring option" | CallTool rstring json | ReadResource rstring

datatype service_answer = NoAnswer | ServiceFailed service_error | Answer json | Unprintable rstring

type_synonym service = "nat \<Rightarrow> mcp_call \<Rightarrow> service_answer"

record client =
  cl_timeout :: nat
  cl_server :: "rstring \<times> rstring"
  cl_tools :: "rstring list"
  cl_catalogue :: catalogue
  cl_absent :: "(rstring \<times> rstring) list"
  cl_broken :: "mcp_error option"
  cl_asked :: "(mcp_call \<times> nat) list"

definition within :: "nat \<Rightarrow> rstring \<Rightarrow> service_answer \<Rightarrow> (json, mcp_error) result" where
  "within timeout what a =
     (case a of
        NoAnswer \<Rightarrow> Err (Timeout what timeout)
      | ServiceFailed e \<Rightarrow> Err (of_service e what)
      | Answer v \<Rightarrow> Ok v
      | Unprintable e \<Rightarrow> Err (Protocol (what @ lit '': '' @ e)))"

definition mcp_request ::
  "service \<Rightarrow> mcp_call \<Rightarrow> nat \<Rightarrow> rstring \<Rightarrow> client \<Rightarrow> (json, mcp_error) result \<times> client" where
  "mcp_request svc call timeout what c =
     (case cl_broken c of
        Some e \<Rightarrow> (Err e, c)
      | None \<Rightarrow>
          let out = within timeout what (svc (length (cl_asked c)) call);
              c = c\<lparr>cl_asked := cl_asked c @ [(call, timeout)]\<rparr>
          in (out, case out of Inl (Closed reason) \<Rightarrow> c\<lparr>cl_broken := Some (Closed reason)\<rparr> | _ \<Rightarrow> c))"

definition has_tool :: "rstring \<Rightarrow> client \<Rightarrow> bool" where
  "has_tool tool c \<longleftrightarrow> tool \<in> set (cl_tools c)"

definition absent_reason :: "rstring \<Rightarrow> rstring \<Rightarrow> client \<Rightarrow> rstring" where
  "absent_reason tool fallback c =
     (case map_of (cl_absent c) tool of Some reason \<Rightarrow> reason | None \<Rightarrow> fallback)"

text \<open>A step of \<open>Value::pointer\<close>: a key of an object or a position in an array.\<close>

definition pointer_step :: "rstring \<Rightarrow> json \<Rightarrow> json option" where
  "pointer_step tok v =
     (case v of
        JObj kvs \<Rightarrow> map_of kvs tok
      | JArr vs \<Rightarrow>
          (if starts_with tok (lit ''+'') \<or> (starts_with tok (lit ''0'') \<and> length tok \<noteq> 1) then None
           else (case parse_unsigned (2 ^ 64 - 1) tok of None \<Rightarrow> None | Some i \<Rightarrow> nth_opt vs i))
      | _ \<Rightarrow> None)"

definition pointer :: "rstring list \<Rightarrow> json \<Rightarrow> json option" where
  "pointer toks v = fold (\<lambda>tok x. Option.bind x (pointer_step tok)) toks (Some v)"

definition call_within ::
  "service \<Rightarrow> rstring \<Rightarrow> json \<Rightarrow> nat \<Rightarrow> client \<Rightarrow> (json, mcp_error) result \<times> client" where
  "call_within svc tool args timeout c =
     (let (out, c) = mcp_request svc (CallTool tool args) timeout tool c
      in (rbind out (\<lambda>r.
            if Option.bind (jget (lit ''isError'') r) as_bool = Some True then
              let text = (case Option.bind (pointer [lit ''content'', lit ''0'', lit ''text''] r) as_str of
                            Some t \<Rightarrow> t | None \<Rightarrow> lit ''the tool failed and said nothing'')
              in Err (ToolFailed (tool @ lit '': '' @ text))
            else ok_or (Protocol (tool @ lit '': no structuredContent'')) (jget (lit ''structuredContent'') r)), c))"

definition mcp_call_tool :: "service \<Rightarrow> rstring \<Rightarrow> json \<Rightarrow> client \<Rightarrow> (json, mcp_error) result \<times> client" where
  "mcp_call_tool svc tool args c = call_within svc tool args (cl_timeout c) c"

text \<open>\<open>from_str\<close> of a resource's text is the argument \<open>parse\<close>, with its error's text.\<close>

definition mcp_read ::
  "(rstring \<Rightarrow> (json, rstring) result) \<Rightarrow> service \<Rightarrow> rstring \<Rightarrow> client \<Rightarrow> (json, mcp_error) result \<times> client" where
  "mcp_read parse svc uri c =
     (let (out, c) = mcp_request svc (ReadResource uri) (cl_timeout c) uri c
      in (rbind out (\<lambda>r.
            rbind (ok_or (Protocol (uri @ lit '': no text content''))
                     (Option.bind (pointer [lit ''contents'', lit ''0'', lit ''text''] r) as_str)) (\<lambda>text.
              case parse text of Inl e \<Rightarrow> Err (Protocol (uri @ lit '': '' @ e)) | Inr v \<Rightarrow> Ok v)), c))"

section \<open>The tool list\<close>

text \<open>Page after page, until one names no next: a server that always names one is never done with, and
  the value is \<open>None\<close>.\<close>

definition page_names :: "json list \<Rightarrow> rstring list" where
  "page_names vs = List.map_filter (\<lambda>t. Option.bind (jget (lit ''name'') t) as_str) vs"

partial_function (option) list_pages ::
  "service \<Rightarrow> rstring option \<Rightarrow> rstring list \<Rightarrow> nat \<Rightarrow> client
    \<Rightarrow> ((rstring list \<times> nat, mcp_error) result \<times> client) option" where
  "list_pages svc cursor tools ttl_ms c =
     (let (out, c) = mcp_request svc (ListTools cursor) (cl_timeout c) (lit ''tools/list'') c
      in case out of
           Inl e \<Rightarrow> Some (Err e, c)
         | Inr page \<Rightarrow>
             let ttl_ms = (if ttl_ms = 0 then
                             (case Option.bind (jget (lit ''ttlMs'') page) as_u64 of None \<Rightarrow> 0 | Some t \<Rightarrow> t)
                           else ttl_ms)
             in case Option.bind (jget (lit ''tools'') page) as_array of
                  None \<Rightarrow> Some (Err (Protocol (lit ''tools/list: the answer is not a tool list'')), c)
                | Some listed \<Rightarrow>
                    let tools = tools @ page_names listed
                    in case Option.bind (jget (lit ''nextCursor'') page) as_str of
                         None \<Rightarrow> Some (Ok (tools, ttl_ms), c)
                       | Some cur \<Rightarrow> list_pages svc (Some cur) tools ttl_ms c)"

definition list_tools :: "service \<Rightarrow> client \<Rightarrow> ((rstring list \<times> nat, mcp_error) result \<times> client) option" where
  "list_tools svc c = list_pages svc None [] 0 c"

section \<open>Connecting\<close>

text \<open>What opening came to: the deadline passed, the crate refused, or the discover answer.\<close>

datatype opened_as = OpenTimeout | OpenFailed opening_error | Opened json

definition META_ABSENT :: rstring where "META_ABSENT = lit ''dev.multitop/absent''"

definition discover_info :: "json \<Rightarrow> string \<Rightarrow> rstring" where
  "discover_info d k =
     str_or_empty (Option.bind
       (pointer [lit ''_meta'', lit ''io.modelcontextprotocol/serverInfo'', lit k] d) as_str)"

definition discover_absent :: "json \<Rightarrow> (rstring \<times> rstring) list" where
  "discover_absent d =
     (case Option.bind (pointer [lit ''_meta'', META_ABSENT] d) as_object of
        None \<Rightarrow> []
      | Some reason \<Rightarrow> List.map_filter (\<lambda>(k, v). map_option (Pair k) (as_str v)) reason)"

definition discover_digest :: "json \<Rightarrow> rstring option" where
  "discover_digest d =
     (case Option.bind (pointer [lit ''_meta'', META_DIGEST] d) as_str of
        Some s \<Rightarrow> if is_digest s then Some s else None
      | None \<Rightarrow> None)"

record keeping =
  kp_text :: entry_text
  kp_store :: "rstring option"
  kp_now :: int
  kp_fault :: "rstring option"
  kp_dirs :: "rstring option"
  kp_write :: write_answers

definition connect_with ::
  "keeping \<Rightarrow> service \<Rightarrow> nat \<Rightarrow> opened_as \<Rightarrow> files \<Rightarrow> ((client, mcp_error) result \<times> files) option" where
  "connect_with kp svc timeout op fs =
     (case op of
        OpenTimeout \<Rightarrow> Some (Err (Timeout (lit ''server/discover'') timeout), fs)
      | OpenFailed e \<Rightarrow> Some (Err (of_opening e), fs)
      | Opened d \<Rightarrow>
          let c = \<lparr>cl_timeout = timeout, cl_server = (discover_info d ''name'', discover_info d ''version''),
                   cl_tools = [], cl_catalogue = Listed 0, cl_absent = discover_absent d, cl_broken = None,
                   cl_asked = []\<rparr>;
              digest = discover_digest d;
              version = snd (cl_server c);
              absent = fingerprint (cl_absent c)
          in case hit (kp_text kp) (kp_fault kp) (kp_now kp) (kp_store kp) fs version absent digest of
               Current tools age_s ttl_s prf \<Rightarrow>
                 Some (Ok (c\<lparr>cl_tools := tools, cl_catalogue := Kept age_s ttl_s prf\<rparr>), fs)
             | Missed miss \<Rightarrow>
                 (case list_tools svc c of
                    None \<Rightarrow> None
                  | Some (Inl e, c) \<Rightarrow> Some (Err e, fs)
                  | Some (Inr (tools, ttl_ms), c) \<Rightarrow>
                      let ttl_s = secs_of_ms ttl_ms;
                          (_, fs) = store_list (kp_text kp) (kp_dirs kp) (kp_write kp) (kp_now kp) (kp_store kp)
                                      version absent digest tools ttl_ms fs
                      in Some (Ok (c\<lparr>cl_tools := tools,
                                    cl_catalogue := (if miss = MNone then Listed ttl_s
                                                     else Relisted miss ttl_s)\<rparr>), fs)))"

section \<open>What a request does to a session\<close>

lemma request_broken: "cl_broken c = Some e \<Longrightarrow> mcp_request svc call t what c = (Err e, c)"
  by (simp add: mcp_request_def)

lemma request_keeps [simp]:
  "cl_timeout (snd (mcp_request svc call t what c)) = cl_timeout c"
  "cl_server (snd (mcp_request svc call t what c)) = cl_server c"
  "cl_tools (snd (mcp_request svc call t what c)) = cl_tools c"
  "cl_catalogue (snd (mcp_request svc call t what c)) = cl_catalogue c"
  "cl_absent (snd (mcp_request svc call t what c)) = cl_absent c"
  by (auto simp: mcp_request_def Let_def split: option.splits sum.splits mcp_error.splits)

lemma request_breaks:
  "cl_broken (snd (mcp_request svc call t what c)) =
     (case cl_broken c of
        Some e \<Rightarrow> Some e
      | None \<Rightarrow> (case fst (mcp_request svc call t what c) of Inl (Closed reason) \<Rightarrow> Some (Closed reason) | _ \<Rightarrow> None))"
  by (auto simp: mcp_request_def Let_def split: option.splits sum.splits mcp_error.splits)

lemma request_asks:
  "cl_broken c = None \<Longrightarrow>
     cl_asked (snd (mcp_request svc call t what c)) = cl_asked c @ [(call, t)]
     \<and> fst (mcp_request svc call t what c) = within t what (svc (length (cl_asked c)) call)"
  by (auto simp: mcp_request_def Let_def split: option.splits sum.splits mcp_error.splits)

end
