(* ===== verification/Ops_Gather.thy ===== *)
theory Ops_Gather
  imports Mcp_Client Text_Chars
begin

text \<open>
  Asking a host every question the Ops view asks (crates/multitop/src/ops/gather.rs), what is kept of
  the answers on disk (ops/cache.rs), and how they become what the view shows. The kept answers'
  text is JSON written and read by derived code: the argument \<open>raw_text\<close>.
\<close>

section \<open>Answers as they came\<close>

datatype raw = RawValue json | RawFailed rstring | RawAbsent rstring | RawUnknown rstring

definition raw_value :: "raw \<Rightarrow> json option" where
  "raw_value r = (case r of RawValue v \<Rightarrow> Some v | _ \<Rightarrow> None)"

record raw_snapshot =
  rs_server :: "rstring \<times> rstring"
  rs_at :: int
  rs_rule_every_s :: int
  rs_sampled_every_s :: int
  rs_catalogue :: catalogue
  rs_health :: raw
  rs_health_list :: raw
  rs_vpn :: raw
  rs_cron :: raw
  rs_containers :: raw
  rs_zfs :: raw
  rs_disk :: raw
  rs_facts :: raw
  rs_alerts :: raw
  rs_triage :: raw

definition cadence_of :: "raw \<Rightarrow> int option" where
  "cadence_of r = Option.bind (raw_value r) (\<lambda>v. opt_int v ''cadence_s'')"

definition raw_cadence_s :: "raw_snapshot \<Rightarrow> int option" where
  "raw_cadence_s r = cadence_of (rs_health r)"

definition raw_interval :: "raw_snapshot \<Rightarrow> nat" where
  "raw_interval r = interval_for (raw_cadence_s r) (Some (rs_rule_every_s r))"

definition raw_previous :: "raw_snapshot \<Rightarrow> previous" where
  "raw_previous r = \<lparr>pv_at = Some (rs_at r), pv_rate_s = Some (rs_rule_every_s r)\<rparr>"

section \<open>The cache\<close>

definition host_key :: "server \<Rightarrow> rstring" where
  "host_key s =
     (let user = (if sv_user s = [] then lit ''default'' else sv_user s)
      in user @ lit ''@'' @ sv_host s @ lit '':'' @ show_nat (unat (sv_port s)))"

definition name_char :: "rstring \<Rightarrow> bool" where
  "name_char c \<longleftrightarrow>
     (case c of
        [b] \<Rightarrow> (0x30 \<le> b \<and> b \<le> 0x39) \<or> (0x41 \<le> b \<and> b \<le> 0x5A) \<or> (0x61 \<le> b \<and> b \<le> 0x7A)
                 \<or> b = 0x2E \<or> b = 0x2D \<or> b = 0x40 \<or> b = 0x5F
      | _ \<Rightarrow> False)"

definition sanitised :: "rstring \<Rightarrow> rstring" where
  "sanitised key = concat (map (\<lambda>c. if name_char c then c else lit ''_'') (chars key))"

definition cache_file_name :: "rstring \<Rightarrow> rstring" where
  "cache_file_name key = sanitised key @ lit ''.json''"

definition catalogue_file_name :: "rstring \<Rightarrow> rstring" where
  "catalogue_file_name key = sanitised key @ lit ''.catalogue.json''"

definition CATALOGUE_DIR :: rstring where "CATALOGUE_DIR = lit ''catalogue''"

text \<open>A cache is the directory it keeps the answers in, when it has one.\<close>

definition beside :: "rstring \<Rightarrow> rstring option" where
  "beside config_path = Some (dir_part config_path @ lit ''ops'')"

definition cache_path :: "rstring option \<Rightarrow> rstring \<Rightarrow> rstring option" where
  "cache_path dir key = map_option (\<lambda>d. d @ lit ''/'' @ cache_file_name key) dir"

definition catalogue_path :: "rstring option \<Rightarrow> rstring \<Rightarrow> rstring option" where
  "catalogue_path dir key =
     map_option (\<lambda>d. d @ lit ''/'' @ CATALOGUE_DIR @ lit ''/'' @ catalogue_file_name key) dir"

record raw_text =
  rt_write :: "raw_snapshot \<Rightarrow> rstring"
  rt_read :: "rstring \<Rightarrow> raw_snapshot option"

definition raw_text_ok :: "raw_text \<Rightarrow> bool" where
  "raw_text_ok rt \<longleftrightarrow> (\<forall>r. rt_read rt (rt_write rt r) = Some r \<and> valid_utf8 (rt_write rt r))"

definition cache_read :: "raw_text \<Rightarrow> rstring option \<Rightarrow> rstring option \<Rightarrow> rstring \<Rightarrow> files \<Rightarrow> raw_snapshot option" where
  "cache_read rt fault dir key fs =
     (case cache_path dir key of
        None \<Rightarrow> None
      | Some path \<Rightarrow> (case read_to_string fault fs path of FileText text \<Rightarrow> rt_read rt text | _ \<Rightarrow> None))"

definition cache_write ::
  "raw_text \<Rightarrow> rstring option \<Rightarrow> rstring option \<Rightarrow> write_answers \<Rightarrow> rstring option \<Rightarrow> rstring \<Rightarrow> raw_snapshot \<Rightarrow> files
    \<Rightarrow> (unit, rstring) result \<times> files" where
  "cache_write rt fault dirs w dir key r fs =
     (case cache_path dir key of
        None \<Rightarrow> (Err (lit ''there is nowhere to keep the answer''), fs)
      | Some path \<Rightarrow>
          if (case cache_read rt fault dir key fs of None \<Rightarrow> False | Some kept \<Rightarrow> rs_at r < rs_at kept) then (Ok (), fs)
          else (case dirs of
                  Some e \<Rightarrow> (Err e, fs)
                | None \<Rightarrow> write_atomic w path (rt_write rt r) fs))"

definition interval_s :: "nat \<Rightarrow> int" where
  "interval_s every = min (int every) I64_MAX"

definition is_fresh :: "raw_snapshot \<Rightarrow> int \<Rightarrow> nat \<Rightarrow> bool" where
  "is_fresh r now every \<longleftrightarrow> i64_sat (now - rs_at r) < interval_s every"

definition DUE_SLACK_S :: int where "DUE_SLACK_S = 90"

definition due :: "raw_snapshot option \<Rightarrow> int \<Rightarrow> nat \<Rightarrow> bool" where
  "due r now every \<longleftrightarrow>
     (let threshold = interval_s every - DUE_SLACK_S
      in case r of None \<Rightarrow> True | Some r \<Rightarrow> threshold \<le> i64_sat (now - rs_at r))"

definition cache_fresh :: "raw_text \<Rightarrow> rstring option \<Rightarrow> rstring option \<Rightarrow> rstring \<Rightarrow> files \<Rightarrow> int \<Rightarrow> nat \<Rightarrow> raw_snapshot option" where
  "cache_fresh rt fault dir key fs now every =
     (case cache_read rt fault dir key fs of
        None \<Rightarrow> None | Some r \<Rightarrow> if is_fresh r now every then Some r else None)"

section \<open>The gather\<close>

definition HEALTH_URI :: rstring where "HEALTH_URI = lit ''health://latest''"
definition HEALTH_LIST :: rstring where "HEALTH_LIST = lit ''health.list''"
definition ZFS_TOOL :: rstring where "ZFS_TOOL = lit ''zfs.health''"
definition EGRESS_TOOL :: rstring where "EGRESS_TOOL = lit ''net.egress''"
definition DISK_TOOL :: rstring where "DISK_TOOL = lit ''disk.usage''"
definition FACTS_TOOL :: rstring where "FACTS_TOOL = lit ''host.facts''"
definition TRIAGE_TOOL :: rstring where "TRIAGE_TOOL = lit ''machine.triage''"
definition CRON_TOOL :: rstring where "CRON_TOOL = lit ''cron.status''"
definition DOCKER_TOOL :: rstring where "DOCKER_TOOL = lit ''docker.containers''"
definition ALERTS_TOOL :: rstring where "ALERTS_TOOL = lit ''alerts.since''"
definition ALERT_WINDOW_S :: int where "ALERT_WINDOW_S = 86400"
definition EGRESS_TIMEOUT :: nat where "EGRESS_TIMEOUT = 75000"

definition raw_of :: "(json, mcp_error) result \<Rightarrow> raw" where
  "raw_of answer =
     (case answer of
        Inr v \<Rightarrow> RawValue v
      | Inl e \<Rightarrow> if is_unread e then RawUnknown (show_error e) else RawFailed (show_error e))"

definition session_ended :: "mcp_error \<Rightarrow> raw" where
  "session_ended e = RawUnknown (lit ''not read: the session ended: '' @ show_error e)"

definition ask :: "service \<Rightarrow> rstring \<Rightarrow> json \<Rightarrow> nat \<Rightarrow> client \<Rightarrow> raw \<times> client" where
  "ask svc tool args timeout c =
     (case cl_broken c of
        Some e \<Rightarrow> (session_ended e, c)
      | None \<Rightarrow> (let (out, c) = call_within svc tool args timeout c in (raw_of out, c)))"

definition ask_listed :: "service \<Rightarrow> rstring \<Rightarrow> string \<Rightarrow> json \<Rightarrow> nat \<Rightarrow> client \<Rightarrow> raw \<times> client" where
  "ask_listed svc tool fallback args timeout c =
     (if has_tool tool c then ask svc tool args timeout c
      else (RawAbsent (absent_reason tool (lit fallback) c), c))"

type_synonym json_parser = "rstring \<Rightarrow> (json, rstring) result"

definition health_raw :: "json_parser \<Rightarrow> service \<Rightarrow> client \<Rightarrow> raw \<times> raw \<times> client" where
  "health_raw parse svc c =
     (case cl_broken c of
        Some e \<Rightarrow> (session_ended e, session_ended e, c)
      | None \<Rightarrow>
          (case mcp_read parse svc HEALTH_URI c of
             (Inl e, c) \<Rightarrow> (raw_of (Inl e), RawValue JNull, c)
           | (Inr published, c) \<Rightarrow>
               (case mcp_call_tool svc HEALTH_LIST (JObj []) c of
                  (Inl e, c) \<Rightarrow> (RawValue published, raw_of (Inl e), c)
                | (Inr listed, c) \<Rightarrow> (RawValue published, RawValue listed, c))))"

definition gather_raw :: "json_parser \<Rightarrow> service \<Rightarrow> int \<Rightarrow> previous \<Rightarrow> client \<Rightarrow> raw_snapshot \<times> client" where
  "gather_raw parse svc now prev c =
     (let (health, health_list, c) =
            (if has_tool HEALTH_LIST c then health_raw parse svc c
             else let reason = absent_reason HEALTH_LIST (lit ''this host lists no health checks'') c
                  in (RawAbsent reason, RawAbsent reason, c));
          (vpn, c) = ask_listed svc EGRESS_TOOL ''this host lists no net.egress'' (JObj []) EGRESS_TIMEOUT c;
          (cron, c) = ask_listed svc CRON_TOOL ''this host lists no cron.status'' (JObj []) (cl_timeout c) c;
          (containers, c) = ask_listed svc DOCKER_TOOL ''no Docker on this host'' (JObj []) (cl_timeout c) c;
          (zfs, c) = ask_listed svc ZFS_TOOL ''this host lists no zfs.health'' (JObj []) (cl_timeout c) c;
          (disk, c) = ask_listed svc DISK_TOOL ''this host lists no disk.usage'' (JObj []) (cl_timeout c) c;
          (facts, c) = ask_listed svc FACTS_TOOL ''this host lists no host.facts'' (JObj []) (cl_timeout c) c;
          (alerts, c) = ask_listed svc ALERTS_TOOL ''this host lists no alerts.since''
                          (JObj [(lit ''marker'', JInt (now - ALERT_WINDOW_S))]) (cl_timeout c) c;
          (triage, c) = ask_listed svc TRIAGE_TOOL ''this host lists no machine.triage'' (JObj []) (cl_timeout c) c;
          rule_every_s = (case map_option rate_for (cadence_of health) of
                            Some r \<Rightarrow> r
                          | None \<Rightarrow> (case pv_rate_s prev of Some r \<Rightarrow> r | None \<Rightarrow> FALLBACK_INTERVAL_S));
          sampled_every_s = carried_rate rule_every_s (pv_at prev) now
      in (\<lparr>rs_server = cl_server c, rs_at = now, rs_rule_every_s = rule_every_s,
           rs_sampled_every_s = sampled_every_s, rs_catalogue = cl_catalogue c, rs_health = health,
           rs_health_list = health_list, rs_vpn = vpn, rs_cron = cron, rs_containers = containers,
           rs_zfs = zfs, rs_disk = disk, rs_facts = facts, rs_alerts = alerts, rs_triage = triage\<rparr>, c))"

section \<open>What is shown of the answers\<close>

definition parse_part :: "raw \<Rightarrow> (json \<Rightarrow> ('a, rstring) result) \<Rightarrow> 'a part" where
  "parse_part r parse =
     (case r of
        RawValue v \<Rightarrow> (case parse v of Inl e \<Rightarrow> Failed e | Inr a \<Rightarrow> Ready a)
      | RawFailed reason \<Rightarrow> Failed reason
      | RawAbsent reason \<Rightarrow> Absent reason
      | RawUnknown reason \<Rightarrow> Unknown reason)"

definition parse_health_raw :: "raw \<Rightarrow> raw \<Rightarrow> health part" where
  "parse_health_raw published listed =
     (case (raw_value published, raw_value listed) of
        (Some p, Some l) \<Rightarrow>
          (case parse_health p of
             Inl e \<Rightarrow> Failed e
           | Inr h \<Rightarrow> (case parse_suite l of Inl e \<Rightarrow> Failed e | Inr s \<Rightarrow> Ready (narrow_to s h)))
      | _ \<Rightarrow>
          (case (published, listed) of
             (RawFailed reason, _) \<Rightarrow> Failed reason
           | (_, RawFailed reason) \<Rightarrow> Failed reason
           | (RawUnknown reason, _) \<Rightarrow> Unknown reason
           | (_, RawUnknown reason) \<Rightarrow> Unknown reason
           | (RawAbsent reason, _) \<Rightarrow> Absent reason
           | (_, RawAbsent reason) \<Rightarrow> Absent reason
           | _ \<Rightarrow> Failed (lit ''the health section has no answer'')))"

definition parse_snapshot :: "raw_snapshot \<Rightarrow> snapshot" where
  "parse_snapshot r =
     \<lparr>sn_server = rs_server r, sn_at = rs_at r, sn_sampled_every_s = rs_sampled_every_s r,
      sn_catalogue = rs_catalogue r, sn_health = parse_health_raw (rs_health r) (rs_health_list r),
      sn_vpn = parse_part (rs_vpn r) parse_egress, sn_cron = parse_part (rs_cron r) parse_cron,
      sn_containers = parse_part (rs_containers r) parse_containers,
      sn_zfs = parse_part (rs_zfs r) parse_zfs, sn_disk = parse_part (rs_disk r) parse_disk,
      sn_facts = parse_part (rs_facts r) parse_facts, sn_alerts = parse_part (rs_alerts r) parse_alerts,
      sn_triage = parse_part (rs_triage r) parse_triage\<rparr>"

definition gather :: "json_parser \<Rightarrow> service \<Rightarrow> int \<Rightarrow> previous \<Rightarrow> client \<Rightarrow> snapshot" where
  "gather parse svc now prev c = parse_snapshot (fst (gather_raw parse svc now prev c))"

end
