(* ===== verification/Ops_Pass.thy ===== *)
theory Ops_Pass
  imports Ops_Gather
begin

text \<open>
  Who asks the hosts, and when: one pass over them (crates/multitop/src/ops/pass.rs), the agent's tick
  (ops/tick.rs) and its cycle (tasks/ops_agent.rs), the view's own poll (tasks/ops_poll.rs), and the
  start of a session (mcp/spawn.rs). What the operating system and the host answer is \<open>ops_env\<close>;
  an open session is the client with the service behind it. A server whose tool list never ends is
  never done with: the value is then \<open>None\<close>.
\<close>

section \<open>Sessions\<close>

definition last_words :: "rstring \<Rightarrow> rstring \<Rightarrow> rstring" where
  "last_words said fallback =
     (case filter (\<lambda>l. trim l \<noteq> []) (str_lines said) of [] \<Rightarrow> fallback | ls \<Rightarrow> trim (last ls))"

text \<open>The command of a session: this build's own agent, a shell, or ssh.\<close>

definition session_argv :: "rstring \<Rightarrow> rstring list \<Rightarrow> server \<Rightarrow> ops_source \<Rightarrow> rstring list" where
  "session_argv agent multiplex s src =
     (case src of
        LocalAgent \<Rightarrow> [agent, lit ''mcp'']
      | SrcCommand cmd \<Rightarrow>
          if is_local s then [lit ''sh'', lit ''-c'', cmd]
          else lit ''ssh'' # ssh_args multiplex s @ [cmd])"

type_synonym session = "client \<times> service"

record start_answer =
  sa_spawned :: "rstring option"
  sa_pipes :: bool
  sa_opening :: opened_as
  sa_service :: service
  sa_stderr :: rstring

definition OPS_TIMEOUT :: nat where "OPS_TIMEOUT = 20000"

definition open_session ::
  "start_answer \<Rightarrow> keeping \<Rightarrow> nat \<Rightarrow> files \<Rightarrow> ((session, mcp_error) result \<times> files) option" where
  "open_session a kp timeout fs =
     (case sa_spawned a of
        Some e \<Rightarrow> Some (Err (Closed (lit ''cannot start the session: '' @ e)), fs)
      | None \<Rightarrow>
          if \<not> sa_pipes a then Some (Err (Closed (lit ''no pipes to the session'')), fs)
          else (case connect_with kp (sa_service a) timeout (sa_opening a) fs of
                  None \<Rightarrow> None
                | Some (Inr c, fs) \<Rightarrow> Some (Ok (c, sa_service a), fs)
                | Some (Inl (Closed reason), fs) \<Rightarrow> Some (Err (Closed (last_words (sa_stderr a) reason)), fs)
                | Some (Inl e, fs) \<Rightarrow> Some (Err e, fs)))"

text \<open>What the cache's files answer, by host key, and what starting a session with a server comes to
  at a time.\<close>

record ops_env =
  oe_dir :: "rstring option"
  oe_text :: raw_text
  oe_fault :: "rstring \<Rightarrow> rstring option"
  oe_dirs :: "rstring \<Rightarrow> rstring option"
  oe_write :: "rstring \<Rightarrow> write_answers"
  oe_list_text :: entry_text
  oe_start :: "int \<Rightarrow> server \<Rightarrow> start_answer"
  oe_parse :: json_parser

definition env_read :: "ops_env \<Rightarrow> rstring \<Rightarrow> files \<Rightarrow> raw_snapshot option" where
  "env_read oe key fs = cache_read (oe_text oe) (oe_fault oe key) (oe_dir oe) key fs"

definition env_write :: "ops_env \<Rightarrow> rstring \<Rightarrow> raw_snapshot \<Rightarrow> files \<Rightarrow> (unit, rstring) result \<times> files" where
  "env_write oe key r fs =
     cache_write (oe_text oe) (oe_fault oe key) (oe_dirs oe key) (oe_write oe key) (oe_dir oe) key r fs"

definition open_ssh :: "ops_env \<Rightarrow> int \<Rightarrow> server \<Rightarrow> files \<Rightarrow> ((session, rstring) result \<times> files) option" where
  "open_ssh oe now s fs =
     (case source_of s of
        None \<Rightarrow> Some (Err (lit ''this host has no mcp_host command''), fs)
      | Some src \<Rightarrow>
          let key = host_key s;
              kp = \<lparr>kp_text = oe_list_text oe, kp_store = catalogue_path (oe_dir oe) key, kp_now = now,
                    kp_fault = oe_fault oe key, kp_dirs = oe_dirs oe key, kp_write = oe_write oe key\<rparr>
          in map_option (map_prod (map_sum show_error id) id)
               (open_session (oe_start oe now s) kp OPS_TIMEOUT fs))"

section \<open>A pass\<close>

record host_pass =
  hp_key :: rstring
  hp_host :: rstring
  hp_gathered :: bool
  hp_fresh :: bool
  hp_why :: "rstring option"
  hp_at :: int
  hp_unknown :: "rstring list"

definition pass_complete :: "host_pass list \<Rightarrow> bool" where
  "pass_complete hs \<longleftrightarrow> list_all (\<lambda>h. (hp_gathered h \<or> hp_fresh h) \<and> hp_unknown h = []) hs"

definition gathered_hosts :: "host_pass list \<Rightarrow> host_pass list" where
  "gathered_hosts hs = filter hp_gathered hs"

definition gaps_of :: "raw_snapshot option \<Rightarrow> rstring list" where
  "gaps_of r =
     (case r of
        None \<Rightarrow> []
      | Some r \<Rightarrow> map (\<lambda>(s, reason). s @ lit '' unknown: '' @ reason) (unknowns (parse_snapshot r)))"

type_synonym opener = "server \<Rightarrow> files \<Rightarrow> ((session, rstring) result \<times> files) option"

definition gather_one ::
  "ops_env \<Rightarrow> opener \<Rightarrow> int \<Rightarrow> raw_snapshot option \<Rightarrow> server \<Rightarrow> files \<Rightarrow> (host_pass \<times> files) option" where
  "gather_one oe opener now kept s fs =
     (let key = host_key s;
          outcome = \<lparr>hp_key = key, hp_host = sv_host s, hp_gathered = False, hp_fresh = False,
                     hp_why = None, hp_at = now, hp_unknown = []\<rparr>
      in case opener s fs of
           None \<Rightarrow> None
         | Some (Inl reason, fs) \<Rightarrow> Some (outcome\<lparr>hp_why := Some reason\<rparr>, fs)
         | Some (Inr (c, svc), fs) \<Rightarrow>
             let prev = (case kept of None \<Rightarrow> previous_default | Some k \<Rightarrow> raw_previous k);
                 (r, c) = gather_raw (oe_parse oe) svc now prev c
             in (case cl_broken c of
                   Some e \<Rightarrow> Some (outcome\<lparr>hp_why := Some (show_error e)\<rparr>, fs)
                 | None \<Rightarrow>
                     let outcome = outcome\<lparr>hp_at := rs_at r, hp_unknown := gaps_of (Some r)\<rparr>
                     in (case env_write oe key r fs of
                           (Inr _, fs) \<Rightarrow> Some (outcome\<lparr>hp_gathered := True\<rparr>, fs)
                         | (Inl e, fs) \<Rightarrow> Some (outcome\<lparr>hp_why := Some e\<rparr>, fs))))"

definition pass_host ::
  "ops_env \<Rightarrow> opener \<Rightarrow> int \<Rightarrow> nat \<Rightarrow> server \<Rightarrow> files \<Rightarrow> (host_pass \<times> files) option" where
  "pass_host oe opener now fallback s fs =
     (let key = host_key s;
          kept = env_read oe key fs;
          every = (case kept of None \<Rightarrow> fallback | Some k \<Rightarrow> raw_interval k)
      in if \<not> due kept now every then
           Some (\<lparr>hp_key = key, hp_host = sv_host s, hp_gathered = False, hp_fresh = True, hp_why = None,
                  hp_at = (case kept of None \<Rightarrow> 0 | Some k \<Rightarrow> rs_at k), hp_unknown = gaps_of kept\<rparr>, fs)
         else gather_one oe opener now kept s fs)"

fun run_pass ::
  "ops_env \<Rightarrow> opener \<Rightarrow> int \<Rightarrow> nat \<Rightarrow> server list \<Rightarrow> files \<Rightarrow> (host_pass list \<times> files) option" where
  "run_pass oe opener now fallback [] fs = Some ([], fs)"
| "run_pass oe opener now fallback (s # ss) fs =
     (case pass_host oe opener now fallback s fs of
        None \<Rightarrow> None
      | Some (h, fs) \<Rightarrow>
          (case run_pass oe opener now fallback ss fs of
             None \<Rightarrow> None
           | Some (hs, fs) \<Rightarrow> Some (h # hs, fs)))"

definition MID_DOT :: rstring where "MID_DOT = lit '' '' @ [0xC2, 0xB7] @ lit '' ''"

fun dot_join :: "rstring list \<Rightarrow> rstring" where
  "dot_join [] = []"
| "dot_join [x] = x"
| "dot_join (x # y # xs) = x @ MID_DOT @ dot_join (y # xs)"

definition said :: "host_pass \<Rightarrow> rstring" where
  "said h =
     (if \<not> hp_gathered h \<and> \<not> hp_fresh h then
        lit ''failed: '' @ (case hp_why h of Some reason \<Rightarrow> reason | None \<Rightarrow> lit ''no reason given'')
      else let state = (if hp_gathered h then lit ''gathered'' else lit ''already fresh'')
           in if hp_unknown h = [] then state else state @ MID_DOT @ dot_join (hp_unknown h))"

section \<open>The tick\<close>

definition TICK_MARGIN_S :: int where "TICK_MARGIN_S = 5"
definition MIN_TICK_S :: int where "MIN_TICK_S = 1"

datatype rate_source = Published int | KeptRate int | Fallback int

record host_rate =
  hr_host :: rstring
  hr_rate_s :: int
  hr_source :: rate_source
  hr_at :: "int option"

definition rate_note :: "host_rate \<Rightarrow> rstring" where
  "rate_note h =
     (case hr_source h of
        Published cadence_s \<Rightarrow> lit ''the estate publishes '' @ cadence_words cadence_s
      | KeptRate rate_s \<Rightarrow> cadence_unknown_note rate_s
      | Fallback rate_s \<Rightarrow> cadence_unknown_note rate_s @ lit '', and this host has never been read'')"

record tick =
  tk_secs :: int
  tk_rate_s :: int
  tk_host :: rstring
  tk_source :: rate_source
  tk_at :: "int option"
  tk_unread :: "host_rate list"

definition ago :: "int \<Rightarrow> rstring" where
  "ago secs =
     (if secs < SECS_A_MINUTE then show_int secs @ lit '' s ago''
      else if secs < SECS_AN_HOUR then show_int (secs div SECS_A_MINUTE) @ lit '' min ago''
      else if secs < SECS_A_DAY then show_int (secs div SECS_AN_HOUR) @ lit '' h ago''
      else show_int (secs div SECS_A_DAY) @ lit '' days ago'')"

definition tick_read_at :: "int \<Rightarrow> tick \<Rightarrow> rstring" where
  "tick_read_at now t =
     (case tk_at t of None \<Rightarrow> [] | Some at \<Rightarrow> lit '', '' @ ago (i64_sat (now - at)))"

definition tick_line :: "int \<Rightarrow> tick \<Rightarrow> rstring" where
  "tick_line now t =
     (let head = lit ''tick '' @ rate_words (tk_secs t) @ lit '' ('' @ show_int (tk_secs t) @ lit '' s)''
      in case tk_source t of
           Published cadence_s \<Rightarrow>
             head @ MID_DOT @ lit ''the shortest cadence any host published: '' @ cadence_words cadence_s
               @ lit '' ('' @ show_int cadence_s @ lit '' s), read from '' @ HEALTH_URI @ lit '' on ''
               @ tk_host t @ tick_read_at now t
         | KeptRate rate_s \<Rightarrow>
             head @ MID_DOT @ cadence_unknown_note rate_s @ lit '', read from '' @ HEALTH_URI @ lit '' on ''
               @ tk_host t @ tick_read_at now t
         | Fallback rate_s \<Rightarrow>
             head @ MID_DOT @ cadence_unknown_note rate_s
               @ (if tk_host t = [] then lit '', and no host has ever been read''
                  else lit '', and this host has never been read''))"

definition rate_of :: "rstring \<Rightarrow> raw_snapshot option \<Rightarrow> host_rate" where
  "rate_of host r =
     (case r of
        None \<Rightarrow> \<lparr>hr_host = host, hr_rate_s = FALLBACK_INTERVAL_S, hr_source = Fallback FALLBACK_INTERVAL_S,
                 hr_at = None\<rparr>
      | Some r \<Rightarrow>
          (case raw_cadence_s r of
             None \<Rightarrow> \<lparr>hr_host = host, hr_rate_s = rs_rule_every_s r, hr_source = KeptRate (rs_rule_every_s r),
                      hr_at = Some (rs_at r)\<rparr>
           | Some cadence_s \<Rightarrow> \<lparr>hr_host = host, hr_rate_s = rate_for cadence_s, hr_source = Published cadence_s,
                                hr_at = Some (rs_at r)\<rparr>))"

definition published :: "host_rate \<Rightarrow> bool" where
  "published h = (case hr_source h of Published _ \<Rightarrow> True | _ \<Rightarrow> False)"

definition faster :: "host_rate \<Rightarrow> host_rate \<Rightarrow> host_rate" where
  "faster a b =
     (if hr_rate_s a < hr_rate_s b then a
      else if hr_rate_s b < hr_rate_s a then b
      else if published b \<or> \<not> published a then b
      else a)"

definition fastest :: "host_rate list \<Rightarrow> host_rate option" where
  "fastest rates =
     fold (\<lambda>r best. Some (case best of None \<Rightarrow> r | Some b \<Rightarrow> faster r b)) rates None"

definition tick_of :: "host_rate list \<Rightarrow> tick" where
  "tick_of rates =
     (let unread = filter (\<lambda>r. \<not> published r) rates
      in case fastest rates of
           Some f \<Rightarrow>
             \<lparr>tk_secs = max (hr_rate_s f - TICK_MARGIN_S) MIN_TICK_S, tk_rate_s = hr_rate_s f,
              tk_host = hr_host f, tk_source = hr_source f, tk_at = hr_at f, tk_unread = unread\<rparr>
         | None \<Rightarrow>
             \<lparr>tk_secs = max (FALLBACK_INTERVAL_S - TICK_MARGIN_S) MIN_TICK_S, tk_rate_s = FALLBACK_INTERVAL_S,
              tk_host = [], tk_source = Fallback FALLBACK_INTERVAL_S, tk_at = None, tk_unread = unread\<rparr>)"

definition tick_for :: "ops_env \<Rightarrow> server list \<Rightarrow> files \<Rightarrow> tick" where
  "tick_for oe servers fs = tick_of (map (\<lambda>s. rate_of (sv_host s) (env_read oe (host_key s) fs)) servers)"

section \<open>The agent\<close>

definition OPS_POLL :: nat where "OPS_POLL = nat FALLBACK_INTERVAL_S"

record cycle =
  cy_pass :: "host_pass list"
  cy_tick :: tick
  cy_took :: nat
  cy_wait :: nat

definition agent_cycle ::
  "ops_env \<Rightarrow> opener \<Rightarrow> int \<Rightarrow> nat \<Rightarrow> server list \<Rightarrow> files \<Rightarrow> (cycle \<times> files) option" where
  "agent_cycle oe opener now took servers fs =
     (case run_pass oe opener now OPS_POLL servers fs of
        None \<Rightarrow> None
      | Some (hs, fs) \<Rightarrow>
          let t = tick_for oe servers fs
          in Some (\<lparr>cy_pass = hs, cy_tick = t, cy_took = took,
                    cy_wait = nat (i64_sat (tk_secs t - min (int took) I64_MAX))\<rparr>, fs))"

definition agent_lines :: "int \<Rightarrow> cycle \<Rightarrow> rstring list" where
  "agent_lines now cy =
     map (\<lambda>h. hp_host h @ MID_DOT @ said h) (cy_pass cy)
       @ map (\<lambda>h. hr_host h @ MID_DOT @ rate_note h) (tk_unread (cy_tick cy))
       @ [tick_line now (cy_tick cy)]"

text \<open>The loop: a cycle, its wait, and again, as long as the cycles' times last.\<close>

fun agent_run ::
  "ops_env \<Rightarrow> (int \<Rightarrow> opener) \<Rightarrow> int \<Rightarrow> nat list \<Rightarrow> server list \<Rightarrow> files \<Rightarrow> ((int \<times> cycle) list \<times> files) option" where
  "agent_run oe opener now [] servers fs = Some ([], fs)"
| "agent_run oe opener now (took # ts) servers fs =
     (case agent_cycle oe (opener now) now took servers fs of
        None \<Rightarrow> None
      | Some (cy, fs) \<Rightarrow>
          (case agent_run oe opener (now + int took + int (cy_wait cy)) ts servers fs of
             None \<Rightarrow> None
           | Some (cys, fs) \<Rightarrow> Some ((now, cy) # cys, fs)))"

section \<open>The view's poll\<close>

definition OPS_CHECK :: nat where "OPS_CHECK = 60"

record poll_state =
  ps_session :: "session option"
  ps_last :: "snapshot option"
  ps_shown :: "int option"

definition poll_start :: poll_state where
  "poll_start = \<lparr>ps_session = None, ps_last = None, ps_shown = None\<rparr>"

text \<open>One turn of the loop: \<open>now\<close> is the clock when it looks and \<open>now'\<close> when it asks. What it sends comes
  first.\<close>

definition poll_turn ::
  "ops_env \<Rightarrow> opener \<Rightarrow> rstring \<Rightarrow> nat \<Rightarrow> int \<Rightarrow> int \<Rightarrow> server \<Rightarrow> poll_state \<Rightarrow> files
    \<Rightarrow> (ops_state option \<times> poll_state \<times> files) option" where
  "poll_turn oe opener key fallback now now' s st fs =
     (let kept = env_read oe key fs;
          every = (case kept of None \<Rightarrow> fallback | Some k \<Rightarrow> raw_interval k);
          current = (case kept of None \<Rightarrow> None | Some k \<Rightarrow> if is_fresh k now every then Some k else None)
      in case current of
           Some r \<Rightarrow>
             if ps_shown st \<noteq> Some (rs_at r) then
               let snap = parse_snapshot r
               in Some (Some (OpsReady snap), st\<lparr>ps_shown := Some (rs_at r), ps_last := Some snap\<rparr>, fs)
             else Some (None, st, fs)
         | None \<Rightarrow>
             (case (case ps_session st of
                      Some ss \<Rightarrow> Some (Inr ss, fs)
                    | None \<Rightarrow> opener s fs) of
                None \<Rightarrow> None
              | Some (Inl reason, fs) \<Rightarrow> Some (Some (OpsFailed reason (ps_last st)), st, fs)
              | Some (Inr (c, svc), fs) \<Rightarrow>
                  let prev = (case kept of None \<Rightarrow> previous_default | Some k \<Rightarrow> raw_previous k);
                      (r, c) = gather_raw (oe_parse oe) svc now' prev c
                  in (case cl_broken c of
                        Some e \<Rightarrow> Some (Some (OpsFailed (show_error e) (ps_last st)), st\<lparr>ps_session := None\<rparr>, fs)
                      | None \<Rightarrow>
                          let (_, fs) = env_write oe key r fs;
                              snap = parse_snapshot r;
                              session = (if predates_deploy snap = None then Some (c, svc) else None)
                          in Some (Some (OpsReady snap),
                                   \<lparr>ps_session = session, ps_last = Some snap, ps_shown = Some (rs_at r)\<rparr>, fs))))"

text \<open>The loop, as long as somebody listens: each look's clock, and whether what it sent was taken.\<close>

fun poll_run ::
  "ops_env \<Rightarrow> opener \<Rightarrow> rstring \<Rightarrow> nat \<Rightarrow> (int \<times> int \<times> bool) list \<Rightarrow> server \<Rightarrow> poll_state \<Rightarrow> files
    \<Rightarrow> (ops_state list \<times> poll_state \<times> files) option" where
  "poll_run oe opener key fallback [] s st fs = Some ([], st, fs)"
| "poll_run oe opener key fallback ((now, now', taken) # looks) s st fs =
     (case poll_turn oe opener key fallback now now' s st fs of
        None \<Rightarrow> None
      | Some (None, st, fs) \<Rightarrow> poll_run oe opener key fallback looks s st fs
      | Some (Some state, st, fs) \<Rightarrow>
          if \<not> taken then Some ([], st, fs)
          else map_option (\<lambda>(states, rest). (state # states, rest))
                 (poll_run oe opener key fallback looks s st fs))"

end
