(* ===== verification/Ops_Props.thy ===== *)
theory Ops_Props
  imports Ops_Pass "HOL-Library.Countable"
begin

text \<open>
  What the Ops view promises: a host's words are shown as they were published, capacity is counted
  once, an answer that did not come costs its own section and no other, the answer kept is the newest,
  a kept tool list is the one the server vouches for, and the agent's tick is fast enough for every
  host. And where the rate of the reading falls behind its own rule, and two hosts share one file.
\<close>

section \<open>Words\<close>

lemma parse_pool_Ok:
  assumes "parse_pool row = Inr p"
  obtains ms where "json_list row ''members'' = Inr ms" "po_state p = zfs_from_word (json_text row ''state'')"
    "po_members p = map parse_member ms"
  using assms by (auto simp: parse_pool_def split: sum.splits)

lemma zfs_str_from_word [simp]: "zfs_str (zfs_from_word w) = w"
  by (simp add: from_word_reads)

lemma whole_read:
  assumes "po_state p = zfs_from_word w" "po_members p = map parse_member ms"
  shows "is_whole p \<longleftrightarrow> w = lit ''ONLINE'' \<and> (\<forall>m \<in> set ms. json_text m ''state'' = lit ''ONLINE'')"
  unfolding is_whole_def pool_verdict_def faulted_members_def filter_empty_conv member_faulted_def assms
  by (simp add: zfs_online_word parse_member_def)

text \<open>The words of ZFS are shown as the host published them, and a pool is called whole exactly when the
  host's own words for it and for every part of it are \<open>ONLINE\<close>: a word this client has never seen is
  neither changed nor taken for an all-clear.\<close>

theorem pools_read_as_written:
  assumes "parse_zfs v = Inr ps"
  shows "\<exists>rows. json_list v ''pools'' = Inr rows
    \<and> list_all2 (\<lambda>row p. zfs_str (po_state p) = json_text row ''state''
         \<and> (\<exists>ms. json_list row ''members'' = Inr ms
              \<and> map (\<lambda>m. zfs_str (mb_state m)) (po_members p) = map (\<lambda>m. json_text m ''state'') ms
              \<and> (is_whole p \<longleftrightarrow> json_text row ''state'' = lit ''ONLINE''
                    \<and> (\<forall>m \<in> set ms. json_text m ''state'' = lit ''ONLINE''))))
        rows ps"
proof -
  from assms obtain rows where rows: "json_list v ''pools'' = Inr rows" "map parse_pool rows = map Inr ps"
    by (auto simp: parse_zfs_def rbind_Inr_iff collect_Ok)
  have len: "length rows = length ps"
    using rows(2) by (metis length_map)
  have "list_all2 (\<lambda>row p. parse_pool row = Inr p) rows ps"
    unfolding list_all2_conv_all_nth
  proof (intro conjI allI impI)
    fix i assume "i < length rows"
    then show "parse_pool (rows ! i) = Inr (ps ! i)"
      using rows(2) len by (metis nth_map)
  qed (rule len)
  then have "list_all2 (\<lambda>row p. zfs_str (po_state p) = json_text row ''state''
         \<and> (\<exists>ms. json_list row ''members'' = Inr ms
              \<and> map (\<lambda>m. zfs_str (mb_state m)) (po_members p) = map (\<lambda>m. json_text m ''state'') ms
              \<and> (is_whole p \<longleftrightarrow> json_text row ''state'' = lit ''ONLINE''
                    \<and> (\<forall>m \<in> set ms. json_text m ''state'' = lit ''ONLINE'')))) rows ps"
  proof (rule list_all2_mono)
    fix row p
    assume "parse_pool row = Inr p"
    then obtain ms where ms: "json_list row ''members'' = Inr ms"
      "po_state p = zfs_from_word (json_text row ''state'')" "po_members p = map parse_member ms"
      by (rule parse_pool_Ok)
    moreover have "map (\<lambda>m. zfs_str (mb_state m)) (po_members p) = map (\<lambda>m. json_text m ''state'') ms"
      using ms(3) by (simp add: parse_member_def)
    moreover have "is_whole p \<longleftrightarrow> json_text row ''state'' = lit ''ONLINE''
                    \<and> (\<forall>m \<in> set ms. json_text m ''state'' = lit ''ONLINE'')"
      by (rule whole_read [OF ms(2,3)])
    ultimately show "zfs_str (po_state p) = json_text row ''state''
         \<and> (\<exists>ms. json_list row ''members'' = Inr ms
              \<and> map (\<lambda>m. zfs_str (mb_state m)) (po_members p) = map (\<lambda>m. json_text m ''state'') ms
              \<and> (is_whole p \<longleftrightarrow> json_text row ''state'' = lit ''ONLINE''
                    \<and> (\<forall>m \<in> set ms. json_text m ''state'' = lit ''ONLINE'')))"
      using ms(2) by (simp only: zfs_str_from_word) blast
  qed
  with rows(1) show ?thesis by blast
qed

definition sample_pools :: json where
  "sample_pools =
     JObj [(lit ''pools'', JArr
       [JObj [(lit ''name'', JStr (lit ''tank'')), (lit ''state'', JStr (lit ''ONLINE'')),
              (lit ''members'', JArr [JObj [(lit ''state'', JStr (lit ''REMOVED''))]])]])]"

theorem pools_read_as_written_witness:
  "\<exists>rows ps. parse_zfs sample_pools = Inr ps \<and> json_list sample_pools ''pools'' = Inr rows
     \<and> list_all2 (\<lambda>row p. zfs_str (po_state p) = json_text row ''state'') rows ps"
proof -
  have "is_ok (parse_zfs sample_pools)" by code_simp
  then obtain ps where ps: "parse_zfs sample_pools = Inr ps" unfolding is_ok_iff by blast
  from pools_read_as_written [OF this] show ?thesis
    using ps by (auto elim: list_all2_mono)
qed

section \<open>Capacity\<close>

lemma map_filter_mem: "y \<in> set (List.map_filter f xs) \<longleftrightarrow> (\<exists>x \<in> set xs. f x = Some y)"
  by (induction xs) (auto simp: map_filter_simps split: option.splits)

lemma counted_go_subset: "set (counted_go ms pools) \<subseteq> set ms"
  by (induction ms pools rule: counted_go.induct) (auto split: option.splits if_splits)

text \<open>The three things a step does: pass a mount over, keep it, keep it and note its pool.\<close>

lemma counted_go_step:
  obtains (over) "is_boot m \<or> (\<exists>p. zfs_pool m = Some p \<and> p \<in> set pools)"
      "counted_go (m # ms) pools = counted_go ms pools"
  | (plain) "\<not> is_boot m" "zfs_pool m = None" "counted_go (m # ms) pools = m # counted_go ms pools"
  | (pool) p where "\<not> is_boot m" "zfs_pool m = Some p" "p \<notin> set pools"
      "counted_go (m # ms) pools = m # counted_go ms (pools @ [p])"
  by (cases "is_boot m"; cases "zfs_pool m"; cases "the (zfs_pool m) \<in> set pools") auto

lemma counted_go_fresh:
  "x \<in> set (counted_go ms pools) \<Longrightarrow> \<not> is_boot x \<and> (\<forall>p. zfs_pool x = Some p \<longrightarrow> p \<notin> set pools)"
proof (induction ms arbitrary: pools)
  case (Cons m ms)
  show ?case
  proof (cases rule: counted_go_step [of m pools ms])
    case over
    then show ?thesis using Cons by simp
  next
    case plain
    then show ?thesis using Cons by auto
  next
    case (pool p)
    then show ?thesis using Cons.IH [of "pools @ [p]"] Cons.prems by auto
  qed
qed simp

lemma counted_go_distinct: "distinct (List.map_filter zfs_pool (counted_go ms pools))"
proof (induction ms arbitrary: pools)
  case (Cons m ms)
  show ?case
  proof (cases rule: counted_go_step [of m pools ms])
    case over
    then show ?thesis using Cons by simp
  next
    case plain
    then show ?thesis using Cons by (simp add: map_filter_simps)
  next
    case (pool p)
    have "p \<notin> set (List.map_filter zfs_pool (counted_go ms (pools @ [p])))"
      using counted_go_fresh [of _ ms "pools @ [p]"] by (auto simp: map_filter_mem)
    then show ?thesis using Cons pool by (simp add: map_filter_simps)
  qed
qed (simp add: map_filter_simps)

lemma counted_go_plain:
  "x \<in> set ms \<Longrightarrow> \<not> is_boot x \<Longrightarrow> zfs_pool x = None \<Longrightarrow> x \<in> set (counted_go ms pools)"
proof (induction ms arbitrary: pools)
  case (Cons m ms)
  show ?case
    by (cases rule: counted_go_step [of m pools ms]) (use Cons in auto)
qed simp

lemma counted_go_pool:
  "x \<in> set ms \<Longrightarrow> \<not> is_boot x \<Longrightarrow> zfs_pool x = Some q \<Longrightarrow> q \<notin> set pools \<Longrightarrow>
     \<exists>y \<in> set (counted_go ms pools). zfs_pool y = Some q"
proof (induction ms arbitrary: pools)
  case (Cons m ms)
  show ?case
  proof (cases rule: counted_go_step [of m pools ms])
    case over
    then show ?thesis using Cons by auto
  next
    case plain
    then show ?thesis using Cons by auto
  next
    case (pool p)
    then show ?thesis using Cons.IH [of "pools @ [p]"] Cons.prems by (cases "p = q") auto
  qed
qed simp

lemma u64_sum_max: "u64_sum ns \<le> U64_MAX"
proof -
  have "a \<le> U64_MAX \<Longrightarrow> fold (\<lambda>n a. min U64_MAX (a + n)) ns a \<le> U64_MAX" for a
    by (induction ns arbitrary: a) auto
  then show ?thesis by (simp add: u64_sum_def)
qed

text \<open>Capacity counts each pool of ZFS once, however many of its datasets are mounted, and every other
  mount but the boot partitions; nothing is left out; and the share used is at most a hundred in a hundred.\<close>

theorem capacity_counts_once:
  "set (counted d) \<subseteq> set d
   \<and> distinct (List.map_filter zfs_pool (counted d))
   \<and> {p. \<exists>m \<in> set (counted d). zfs_pool m = Some p} = {p. \<exists>m \<in> set d. \<not> is_boot m \<and> zfs_pool m = Some p}
   \<and> {m \<in> set (counted d). zfs_pool m = None} = {m \<in> set d. \<not> is_boot m \<and> zfs_pool m = None}
   \<and> (case capacity_total d of
        None \<Rightarrow> {m \<in> set d. \<not> is_boot m} = {}
      | Some c \<Rightarrow> ca_percent c \<le> 100 \<and> ca_size c \<le> U64_MAX \<and> ca_free c \<le> U64_MAX)"
proof (intro conjI)
  have sub: "set (counted d) \<subseteq> set d" by (simp add: counted_def counted_go_subset)
  have noboot: "m \<in> set (counted d) \<Longrightarrow> \<not> is_boot m" for m
    using counted_go_fresh [of m d "[]"] by (simp add: counted_def)
  have plain: "m \<in> set d \<Longrightarrow> \<not> is_boot m \<Longrightarrow> zfs_pool m = None \<Longrightarrow> m \<in> set (counted d)" for m
    by (simp add: counted_def counted_go_plain)
  have pool: "m \<in> set d \<Longrightarrow> \<not> is_boot m \<Longrightarrow> zfs_pool m = Some p \<Longrightarrow> \<exists>m' \<in> set (counted d). zfs_pool m' = Some p" for m p
    by (simp add: counted_def counted_go_pool)
  show "set (counted d) \<subseteq> set d" by (rule sub)
  show "distinct (List.map_filter zfs_pool (counted d))" by (simp add: counted_def counted_go_distinct)
  show "{p. \<exists>m \<in> set (counted d). zfs_pool m = Some p} = {p. \<exists>m \<in> set d. \<not> is_boot m \<and> zfs_pool m = Some p}"
    using sub noboot pool by blast
  show "{m \<in> set (counted d). zfs_pool m = None} = {m \<in> set d. \<not> is_boot m \<and> zfs_pool m = None}"
    using sub noboot plain by blast
  have pct: "(s - f) * 100 div s \<le> 100" if "s \<noteq> 0" for s f :: nat
  proof -
    have "(s - f) * 100 div s \<le> s * 100 div s" by (rule div_le_mono) simp
    then show ?thesis using that by simp
  qed
  show "case capacity_total d of
        None \<Rightarrow> {m \<in> set d. \<not> is_boot m} = {}
      | Some c \<Rightarrow> ca_percent c \<le> 100 \<and> ca_size c \<le> U64_MAX \<and> ca_free c \<le> U64_MAX"
  proof (cases "counted d = []")
    case True
    have "m \<in> set d \<Longrightarrow> is_boot m" for m
      using plain [of m] pool [of m] True by (cases "zfs_pool m") auto
    then show ?thesis using True by (auto simp: capacity_total_def)
  next
    case False
    then show ?thesis by (auto simp: capacity_total_def Let_def u64_sum_max pct)
  qed
qed

section \<open>The gather\<close>

text \<open>What a tool's answer comes to, alone.\<close>

definition tool_out :: "rstring \<Rightarrow> (json, mcp_error) result \<Rightarrow> (json, mcp_error) result" where
  "tool_out tool out =
     rbind out (\<lambda>r.
       if Option.bind (jget (lit ''isError'') r) as_bool = Some True then
         let text = (case Option.bind (pointer [lit ''content'', lit ''0'', lit ''text''] r) as_str of
                       Some t \<Rightarrow> t | None \<Rightarrow> lit ''the tool failed and said nothing'')
         in Err (ToolFailed (tool @ lit '': '' @ text))
       else ok_or (Protocol (tool @ lit '': no structuredContent'')) (jget (lit ''structuredContent'') r))"

lemma call_within_out:
  "call_within svc tool args t c =
     (tool_out tool (fst (mcp_request svc (CallTool tool args) t tool c)),
      snd (mcp_request svc (CallTool tool args) t tool c))"
  by (simp add: call_within_def tool_out_def split_beta)

text \<open>The answers that end a session.\<close>

definition closes :: "service_answer \<Rightarrow> bool" where
  "closes a \<longleftrightarrow> a = ServiceFailed TransportClosed \<or> a = ServiceFailed TransportSend"

lemma within_closes: "within t what a = Inl (Closed reason) \<Longrightarrow> closes a"
  by (auto simp: within_def closes_def of_service_def split: service_answer.splits service_error.splits)

text \<open>A host that answers every call in its own way, and never closes the pipe.\<close>

definition answers :: "service \<Rightarrow> (mcp_call \<Rightarrow> service_answer) \<Rightarrow> bool" where
  "answers svc f \<longleftrightarrow> (\<forall>n call. svc n call = f call) \<and> (\<forall>call. \<not> closes (f call))"

text \<open>A session as its asking changes it.\<close>

definition same_session :: "client \<Rightarrow> client \<Rightarrow> bool" where
  "same_session c d \<longleftrightarrow> cl_asked_update (\<lambda>_. []) c = cl_asked_update (\<lambda>_. []) d \<and> cl_broken c = None"

lemma same_session_fields:
  assumes "same_session c d"
  shows "cl_tools d = cl_tools c" "cl_absent d = cl_absent c" "cl_timeout d = cl_timeout c"
    "cl_broken d = None" "cl_server d = cl_server c" "cl_catalogue d = cl_catalogue c" "cl_broken c = None"
  using assms by (cases c; cases d; simp add: same_session_def)+

lemma request_open:
  assumes "answers svc f" "cl_broken c = None"
  shows "fst (mcp_request svc call t what c) = within t what (f call)"
    and "same_session c (snd (mcp_request svc call t what c))"
proof -
  have f: "svc (length (cl_asked c)) call = f call" "\<not> closes (f call)"
    using assms(1) by (simp_all add: answers_def)
  show "fst (mcp_request svc call t what c) = within t what (f call)"
    using f assms(2) by (simp add: mcp_request_def Let_def)
  show "same_session c (snd (mcp_request svc call t what c))"
    using f within_closes [of t what "f call"] assms(2)
    by (auto simp: mcp_request_def same_session_def Let_def split: sum.splits mcp_error.splits)
qed

lemma same_session_trans: "same_session c d \<Longrightarrow> same_session d e \<Longrightarrow> same_session c e"
  by (simp add: same_session_def)

lemma same_session_refl: "cl_broken c = None \<Longrightarrow> same_session c c"
  by (simp add: same_session_def)

text \<open>A section of a host that answers: its own tool's answer, or the reason there is none.\<close>

definition section_of :: "(mcp_call \<Rightarrow> service_answer) \<Rightarrow> client \<Rightarrow> rstring \<Rightarrow> string \<Rightarrow> json \<Rightarrow> nat \<Rightarrow> raw" where
  "section_of f c tool fallback args t =
     (if has_tool tool c then raw_of (tool_out tool (within t tool (f (CallTool tool args))))
      else RawAbsent (absent_reason tool (lit fallback) c))"

lemma ask_listed_open:
  assumes "answers svc f" "same_session c0 c"
  obtains d where "ask_listed svc tool fallback args t c = (section_of f c0 tool fallback args t, d)"
    "same_session c0 d"
proof -
  note c = same_session_fields [OF assms(2)]
  have tools: "has_tool tool c = has_tool tool c0" "absent_reason tool fb c = absent_reason tool fb c0" for fb
    by (simp_all add: has_tool_def absent_reason_def c)
  show thesis
  proof (cases "has_tool tool c0")
    case False
    then show ?thesis
      using that [of c] assms(2) tools by (simp add: ask_listed_def section_of_def)
  next
    case True
    let ?r = "mcp_request svc (CallTool tool args) t tool c"
    have "same_session c0 (snd ?r)"
      using request_open(2) [OF assms(1) c(4)] same_session_trans [OF assms(2)] by blast
    moreover have "ask_listed svc tool fallback args t c = (section_of f c0 tool fallback args t, snd ?r)"
      using True tools c(4) request_open(1) [OF assms(1) c(4)]
      by (simp add: ask_listed_def section_of_def ask_def call_within_out)
    ultimately show ?thesis using that by blast
  qed
qed

lemma health_raw_open:
  assumes "answers svc f" "same_session c0 c"
  obtains h l d where "health_raw parse svc c = (h, l, d)" "same_session c0 d"
    "h = (case fst (mcp_read parse (\<lambda>_. f) HEALTH_URI c0) of Inl e \<Rightarrow> raw_of (Inl e) | Inr v \<Rightarrow> RawValue v)"
    "l = (case fst (mcp_read parse (\<lambda>_. f) HEALTH_URI c0) of
            Inl e \<Rightarrow> RawValue JNull
          | Inr v \<Rightarrow> raw_of (tool_out HEALTH_LIST (within (cl_timeout c0) HEALTH_LIST (f (CallTool HEALTH_LIST (JObj []))))))"
proof -
  note c = same_session_fields [OF assms(2)]
  let ?r = "mcp_request svc (ReadResource HEALTH_URI) (cl_timeout c) HEALTH_URI c"
  have r: "fst ?r = within (cl_timeout c0) HEALTH_URI (f (ReadResource HEALTH_URI))" "same_session c (snd ?r)"
    using request_open [OF assms(1) c(4)] c(3) by simp_all
  have self: "answers (\<lambda>_. f) f" using assms(1) by (simp add: answers_def)
  have r0: "fst (mcp_request (\<lambda>_. f) (ReadResource HEALTH_URI) (cl_timeout c0) HEALTH_URI c0) = fst ?r"
    using request_open(1) [OF self c(7)] r(1) by simp
  have rd: "mcp_read parse svc HEALTH_URI c = (fst (mcp_read parse (\<lambda>_. f) HEALTH_URI c0), snd ?r)"
    by (simp add: mcp_read_def split_beta r0)
  let ?q = "mcp_request svc (CallTool HEALTH_LIST (JObj [])) (cl_timeout (snd ?r)) HEALTH_LIST (snd ?r)"
  note c1 = same_session_fields [OF r(2)]
  have q: "fst ?q = within (cl_timeout c0) HEALTH_LIST (f (CallTool HEALTH_LIST (JObj [])))"
    "same_session (snd ?r) (snd ?q)"
    using request_open [OF assms(1) c1(4)] c1(3) c(3) by simp_all
  show thesis
  proof (cases "fst (mcp_read parse (\<lambda>_. f) HEALTH_URI c0)")
    case (Inl e)
    show ?thesis
      by (rule that) (use Inl rd c(4) same_session_trans [OF assms(2) r(2)] in
          \<open>simp_all add: health_raw_def\<close>)
  next
    case (Inr v)
    have "mcp_call_tool svc HEALTH_LIST (JObj []) (snd ?r) = (tool_out HEALTH_LIST (fst ?q), snd ?q)"
      by (simp add: mcp_call_tool_def call_within_out)
    then have h: "health_raw parse svc c = (RawValue v, raw_of (tool_out HEALTH_LIST (fst ?q)), snd ?q)"
      using rd Inr c(4) by (cases "tool_out HEALTH_LIST (fst ?q)") (simp_all add: health_raw_def raw_of_def)
    show ?thesis
      by (rule that [OF h])
        (use Inr q same_session_trans [OF same_session_trans [OF assms(2) r(2)] q(2)] in simp_all)
  qed
qed

lemma gather_open:
  fixes parse svc now prev c
  assumes "answers svc f" "cl_broken c = None"
  defines "r \<equiv> fst (gather_raw parse svc now prev c)"
  shows "cl_broken (snd (gather_raw parse svc now prev c)) = None"
    and "rs_vpn r = section_of f c EGRESS_TOOL ''this host lists no net.egress'' (JObj []) EGRESS_TIMEOUT"
    and "rs_cron r = section_of f c CRON_TOOL ''this host lists no cron.status'' (JObj []) (cl_timeout c)"
    and "rs_containers r = section_of f c DOCKER_TOOL ''no Docker on this host'' (JObj []) (cl_timeout c)"
    and "rs_zfs r = section_of f c ZFS_TOOL ''this host lists no zfs.health'' (JObj []) (cl_timeout c)"
    and "rs_disk r = section_of f c DISK_TOOL ''this host lists no disk.usage'' (JObj []) (cl_timeout c)"
    and "rs_facts r = section_of f c FACTS_TOOL ''this host lists no host.facts'' (JObj []) (cl_timeout c)"
    and "rs_alerts r = section_of f c ALERTS_TOOL ''this host lists no alerts.since''
           (JObj [(lit ''marker'', JInt (now - ALERT_WINDOW_S))]) (cl_timeout c)"
    and "rs_triage r = section_of f c TRIAGE_TOOL ''this host lists no machine.triage'' (JObj []) (cl_timeout c)"
    and "(rs_health r, rs_health_list r) =
           (if has_tool HEALTH_LIST c then
              (case fst (mcp_read parse (\<lambda>_. f) HEALTH_URI c) of
                 Inl e \<Rightarrow> (raw_of (Inl e), RawValue JNull)
               | Inr v \<Rightarrow> (RawValue v, raw_of (tool_out HEALTH_LIST
                            (within (cl_timeout c) HEALTH_LIST (f (CallTool HEALTH_LIST (JObj [])))))))
            else (RawAbsent (absent_reason HEALTH_LIST (lit ''this host lists no health checks'') c),
                  RawAbsent (absent_reason HEALTH_LIST (lit ''this host lists no health checks'') c)))"
    and "rs_server r = cl_server c" "rs_catalogue r = cl_catalogue c" "rs_at r = now"
    and "same_session c (snd (gather_raw parse svc now prev c))"
    and "rs_rule_every_s r =
           (case map_option rate_for (raw_cadence_s r) of
              Some q \<Rightarrow> q
            | None \<Rightarrow> (case pv_rate_s prev of Some q \<Rightarrow> q | None \<Rightarrow> FALLBACK_INTERVAL_S))"
    and "rs_sampled_every_s r = carried_rate (rs_rule_every_s r) (pv_at prev) now"
proof -
  have c0: "same_session c c" by (rule same_session_refl [OF assms(2)])
  obtain h l c1 where h: "(if has_tool HEALTH_LIST c then health_raw parse svc c
             else (RawAbsent (absent_reason HEALTH_LIST (lit ''this host lists no health checks'') c),
                   RawAbsent (absent_reason HEALTH_LIST (lit ''this host lists no health checks'') c), c)) = (h, l, c1)" "same_session c c1"
    "(h, l) = (if has_tool HEALTH_LIST c then
              (case fst (mcp_read parse (\<lambda>_. f) HEALTH_URI c) of
                 Inl e \<Rightarrow> (raw_of (Inl e), RawValue JNull)
               | Inr v \<Rightarrow> (RawValue v, raw_of (tool_out HEALTH_LIST
                            (within (cl_timeout c) HEALTH_LIST (f (CallTool HEALTH_LIST (JObj [])))))))
            else (RawAbsent (absent_reason HEALTH_LIST (lit ''this host lists no health checks'') c),
                  RawAbsent (absent_reason HEALTH_LIST (lit ''this host lists no health checks'') c)))"
  proof (cases "has_tool HEALTH_LIST c")
    case True
    show ?thesis
      by (rule health_raw_open [OF assms(1) c0, of parse])
        (use True that in \<open>auto split: sum.splits\<close>)
  qed (use that [of _ _ c] c0 in simp)
  note step = ask_listed_open [OF assms(1)]
  obtain c2 where 2: "ask_listed svc EGRESS_TOOL ''this host lists no net.egress'' (JObj []) EGRESS_TIMEOUT c1
      = (section_of f c EGRESS_TOOL ''this host lists no net.egress'' (JObj []) EGRESS_TIMEOUT, c2)" "same_session c c2"
    using step [OF h(2)] by blast
  obtain c3 where 3: "ask_listed svc CRON_TOOL ''this host lists no cron.status'' (JObj []) (cl_timeout c) c2
      = (section_of f c CRON_TOOL ''this host lists no cron.status'' (JObj []) (cl_timeout c), c3)" "same_session c c3"
    using step [OF 2(2)] by blast
  obtain c4 where 4: "ask_listed svc DOCKER_TOOL ''no Docker on this host'' (JObj []) (cl_timeout c) c3
      = (section_of f c DOCKER_TOOL ''no Docker on this host'' (JObj []) (cl_timeout c), c4)" "same_session c c4"
    using step [OF 3(2)] by blast
  obtain c5 where 5: "ask_listed svc ZFS_TOOL ''this host lists no zfs.health'' (JObj []) (cl_timeout c) c4
      = (section_of f c ZFS_TOOL ''this host lists no zfs.health'' (JObj []) (cl_timeout c), c5)" "same_session c c5"
    using step [OF 4(2)] by blast
  obtain c6 where 6: "ask_listed svc DISK_TOOL ''this host lists no disk.usage'' (JObj []) (cl_timeout c) c5
      = (section_of f c DISK_TOOL ''this host lists no disk.usage'' (JObj []) (cl_timeout c), c6)" "same_session c c6"
    using step [OF 5(2)] by blast
  obtain c7 where 7: "ask_listed svc FACTS_TOOL ''this host lists no host.facts'' (JObj []) (cl_timeout c) c6
      = (section_of f c FACTS_TOOL ''this host lists no host.facts'' (JObj []) (cl_timeout c), c7)" "same_session c c7"
    using step [OF 6(2)] by blast
  obtain c8 where 8: "ask_listed svc ALERTS_TOOL ''this host lists no alerts.since''
           (JObj [(lit ''marker'', JInt (now - ALERT_WINDOW_S))]) (cl_timeout c) c7
      = (section_of f c ALERTS_TOOL ''this host lists no alerts.since''
           (JObj [(lit ''marker'', JInt (now - ALERT_WINDOW_S))]) (cl_timeout c), c8)" "same_session c c8"
    using step [OF 7(2)] by blast
  obtain c9 where 9: "ask_listed svc TRIAGE_TOOL ''this host lists no machine.triage'' (JObj []) (cl_timeout c) c8
      = (section_of f c TRIAGE_TOOL ''this host lists no machine.triage'' (JObj []) (cl_timeout c), c9)" "same_session c c9"
    using step [OF 8(2)] by blast
  note same = same_session_fields(3) [OF 2(2)] same_session_fields(3) [OF 3(2)]
    same_session_fields(3) [OF 4(2)] same_session_fields(3) [OF 5(2)] same_session_fields(3) [OF 6(2)]
    same_session_fields(3) [OF 7(2)] same_session_fields(3) [OF 8(2)]
  have g0: "gather_raw parse svc now prev c =
      (let rule = (case map_option rate_for (cadence_of h) of
                     Some r \<Rightarrow> r
                   | None \<Rightarrow> (case pv_rate_s prev of Some r \<Rightarrow> r | None \<Rightarrow> FALLBACK_INTERVAL_S))
       in \<lparr>rs_server = cl_server c9, rs_at = now, rs_rule_every_s = rule,
           rs_sampled_every_s = carried_rate rule (pv_at prev) now, rs_catalogue = cl_catalogue c9, rs_health = h,
           rs_health_list = l,
           rs_vpn = section_of f c EGRESS_TOOL ''this host lists no net.egress'' (JObj []) EGRESS_TIMEOUT,
           rs_cron = section_of f c CRON_TOOL ''this host lists no cron.status'' (JObj []) (cl_timeout c),
           rs_containers = section_of f c DOCKER_TOOL ''no Docker on this host'' (JObj []) (cl_timeout c),
           rs_zfs = section_of f c ZFS_TOOL ''this host lists no zfs.health'' (JObj []) (cl_timeout c),
           rs_disk = section_of f c DISK_TOOL ''this host lists no disk.usage'' (JObj []) (cl_timeout c),
           rs_facts = section_of f c FACTS_TOOL ''this host lists no host.facts'' (JObj []) (cl_timeout c),
           rs_alerts = section_of f c ALERTS_TOOL ''this host lists no alerts.since''
             (JObj [(lit ''marker'', JInt (now - ALERT_WINDOW_S))]) (cl_timeout c),
           rs_triage = section_of f c TRIAGE_TOOL ''this host lists no machine.triage'' (JObj []) (cl_timeout c)\<rparr>, c9)"
    by (simp only: gather_raw_def Let_def h(1) prod.case 2(1) 3(1) 4(1) 5(1) 6(1) 7(1) 8(1) 9(1) same)
  have g: "gather_raw parse svc now prev c = (r, c9)" "rs_vpn r = section_of f c EGRESS_TOOL ''this host lists no net.egress'' (JObj []) EGRESS_TIMEOUT"
    "rs_cron r = section_of f c CRON_TOOL ''this host lists no cron.status'' (JObj []) (cl_timeout c)"
    "rs_containers r = section_of f c DOCKER_TOOL ''no Docker on this host'' (JObj []) (cl_timeout c)"
    "rs_zfs r = section_of f c ZFS_TOOL ''this host lists no zfs.health'' (JObj []) (cl_timeout c)"
    "rs_disk r = section_of f c DISK_TOOL ''this host lists no disk.usage'' (JObj []) (cl_timeout c)"
    "rs_facts r = section_of f c FACTS_TOOL ''this host lists no host.facts'' (JObj []) (cl_timeout c)"
    "rs_alerts r = section_of f c ALERTS_TOOL ''this host lists no alerts.since''
           (JObj [(lit ''marker'', JInt (now - ALERT_WINDOW_S))]) (cl_timeout c)"
    "rs_triage r = section_of f c TRIAGE_TOOL ''this host lists no machine.triage'' (JObj []) (cl_timeout c)"
    "rs_health r = h" "rs_health_list r = l" "rs_server r = cl_server c9" "rs_catalogue r = cl_catalogue c9"
    "rs_at r = now"
    unfolding r_def g0 by (simp_all add: Let_def)
  show "cl_broken (snd (gather_raw parse svc now prev c)) = None"
    using g(1) same_session_fields(4) [OF 9(2)] by simp
  show "same_session c (snd (gather_raw parse svc now prev c))"
    using g(1) 9(2) by simp
  show "rs_rule_every_s r =
           (case map_option rate_for (raw_cadence_s r) of
              Some q \<Rightarrow> q
            | None \<Rightarrow> (case pv_rate_s prev of Some q \<Rightarrow> q | None \<Rightarrow> FALLBACK_INTERVAL_S))"
    "rs_sampled_every_s r = carried_rate (rs_rule_every_s r) (pv_at prev) now"
    unfolding r_def g0 by (simp_all add: Let_def raw_cadence_s_def)
  show "rs_server r = cl_server c" "rs_catalogue r = cl_catalogue c" "rs_at r = now"
    using g same_session_fields(5,6) [OF 9(2)] by simp_all
  show "(rs_health r, rs_health_list r) =
           (if has_tool HEALTH_LIST c then
              (case fst (mcp_read parse (\<lambda>_. f) HEALTH_URI c) of
                 Inl e \<Rightarrow> (raw_of (Inl e), RawValue JNull)
               | Inr v \<Rightarrow> (RawValue v, raw_of (tool_out HEALTH_LIST
                            (within (cl_timeout c) HEALTH_LIST (f (CallTool HEALTH_LIST (JObj [])))))))
            else (RawAbsent (absent_reason HEALTH_LIST (lit ''this host lists no health checks'') c),
                  RawAbsent (absent_reason HEALTH_LIST (lit ''this host lists no health checks'') c)))"
    unfolding g(10,11) by (rule h(3))
  show "rs_vpn r = section_of f c EGRESS_TOOL ''this host lists no net.egress'' (JObj []) EGRESS_TIMEOUT"
    "rs_cron r = section_of f c CRON_TOOL ''this host lists no cron.status'' (JObj []) (cl_timeout c)"
    "rs_containers r = section_of f c DOCKER_TOOL ''no Docker on this host'' (JObj []) (cl_timeout c)"
    "rs_zfs r = section_of f c ZFS_TOOL ''this host lists no zfs.health'' (JObj []) (cl_timeout c)"
    "rs_disk r = section_of f c DISK_TOOL ''this host lists no disk.usage'' (JObj []) (cl_timeout c)"
    "rs_facts r = section_of f c FACTS_TOOL ''this host lists no host.facts'' (JObj []) (cl_timeout c)"
    "rs_alerts r = section_of f c ALERTS_TOOL ''this host lists no alerts.since''
           (JObj [(lit ''marker'', JInt (now - ALERT_WINDOW_S))]) (cl_timeout c)"
    "rs_triage r = section_of f c TRIAGE_TOOL ''this host lists no machine.triage'' (JObj []) (cl_timeout c)"
    by (rule g(2-9))+
qed

text \<open>The sections of an answer but the health verdict, by the tool that owns each.\<close>

definition raw_sections :: "raw_snapshot \<Rightarrow> (rstring \<times> raw) list" where
  "raw_sections r =
     [(EGRESS_TOOL, rs_vpn r), (CRON_TOOL, rs_cron r), (DOCKER_TOOL, rs_containers r), (ZFS_TOOL, rs_zfs r),
      (DISK_TOOL, rs_disk r), (FACTS_TOOL, rs_facts r), (ALERTS_TOOL, rs_alerts r), (TRIAGE_TOOL, rs_triage r)]"

text \<open>The host \<open>f\<close>, but for one tool it does not answer in time.\<close>

definition silent_on :: "rstring \<Rightarrow> (mcp_call \<Rightarrow> service_answer) \<Rightarrow> mcp_call \<Rightarrow> service_answer" where
  "silent_on tool f call =
     (case call of CallTool t _ \<Rightarrow> if t = tool then NoAnswer else f call | _ \<Rightarrow> f call)"

lemma silent_answers:
  assumes "\<forall>call. \<not> closes (f call)"
  shows "answers (\<lambda>_. silent_on tool f) (silent_on tool f)"
  using assms by (auto simp: answers_def silent_on_def closes_def split: mcp_call.splits)

lemma section_silent:
  "section_of (silent_on tool f) c t fallback args timeout =
     (if t = tool \<and> has_tool t c then RawUnknown (show_error (Timeout t timeout))
      else section_of f c t fallback args timeout)"
  by (simp add: section_of_def silent_on_def within_def tool_out_def raw_of_def is_unread_def)

lemma tools_differ:
  "distinct [HEALTH_LIST, EGRESS_TOOL, CRON_TOOL, DOCKER_TOOL, ZFS_TOOL, DISK_TOOL, FACTS_TOOL, ALERTS_TOOL, TRIAGE_TOOL]"
  by code_simp

lemma not_egress:
  "CRON_TOOL \<noteq> EGRESS_TOOL" "DOCKER_TOOL \<noteq> EGRESS_TOOL" "ZFS_TOOL \<noteq> EGRESS_TOOL" "DISK_TOOL \<noteq> EGRESS_TOOL"
  "FACTS_TOOL \<noteq> EGRESS_TOOL" "ALERTS_TOOL \<noteq> EGRESS_TOOL" "TRIAGE_TOOL \<noteq> EGRESS_TOOL"
  using tools_differ by auto

text \<open>C24: A missed deadline is a gap in one section. When a host that keeps its pipe open does not answer one
  listed tool in time, that section reads unknown and names the call, and every other section, the
  health verdict among them, is what it would have been; and the session is still good.\<close>

theorem late_answer_costs_one_section:
  fixes f tool parse now prev c
  assumes "\<forall>call. \<not> closes (f call)" "cl_broken c = None" "has_tool tool c"
    and "tool \<in> {EGRESS_TOOL, CRON_TOOL, DOCKER_TOOL, ZFS_TOOL, DISK_TOOL, FACTS_TOOL, ALERTS_TOOL, TRIAGE_TOOL}"
  defines "r \<equiv> fst (gather_raw parse (\<lambda>_. f) now prev c)"
    and "late \<equiv> gather_raw parse (\<lambda>_. silent_on tool f) now prev c"
  shows "raw_sections (fst late) =
           map (\<lambda>(t, x). (t, if t = tool
                             then RawUnknown (show_error (Timeout tool
                                    (if tool = EGRESS_TOOL then EGRESS_TIMEOUT else cl_timeout c)))
                             else x)) (raw_sections r)
    \<and> rs_health (fst late) = rs_health r \<and> rs_health_list (fst late) = rs_health_list r
    \<and> cl_broken (snd late) = None"
proof -
  have a: "answers (\<lambda>_. f) f" using assms(1) by (simp add: answers_def)
  note g = gather_open [OF a assms(2), where parse = parse and now = now and prev = prev, folded r_def]
  note h = gather_open [OF silent_answers [OF assms(1), of tool] assms(2), where parse = parse and now = now and prev = prev,
      folded late_def]
  have mine: "t = tool \<and> has_tool t c \<longleftrightarrow> t = tool" for t
    using assms(3) by auto
  have "raw_sections (fst late) =
           map (\<lambda>(t, x). (t, if t = tool
                             then RawUnknown (show_error (Timeout tool
                                    (if tool = EGRESS_TOOL then EGRESS_TIMEOUT else cl_timeout c)))
                             else x)) (raw_sections r)"
    unfolding raw_sections_def h(2-9) g(2-9) section_silent mine list.map prod.case
    by (simp only: list.inject prod.inject simp_thms) (intro conjI; simp add: not_egress)
  moreover have "tool \<noteq> HEALTH_LIST" using assms(4) tools_differ by auto
  then have "silent_on tool f (CallTool HEALTH_LIST (JObj [])) = f (CallTool HEALTH_LIST (JObj []))"
    "fst (mcp_read parse (\<lambda>_. silent_on tool f) HEALTH_URI c) = fst (mcp_read parse (\<lambda>_. f) HEALTH_URI c)"
    by (simp_all add: silent_on_def mcp_read_def mcp_request_def split_beta Let_def split: option.splits)
  then have "(rs_health (fst late), rs_health_list (fst late)) = (rs_health r, rs_health_list r)"
    unfolding h(10) g(10) by (simp split: sum.split)
  ultimately show ?thesis using h(1) by simp
qed

definition sample_client :: "rstring list \<Rightarrow> client" where
  "sample_client tools =
     \<lparr>cl_timeout = 20000, cl_server = (lit ''mcp-host'', lit ''1.0''), cl_tools = tools, cl_catalogue = Listed 0,
      cl_absent = [], cl_broken = None, cl_asked = []\<rparr>"

theorem late_answer_costs_one_section_witness:
  "let f = (\<lambda>_. Answer JNull);
       late = gather_raw (\<lambda>_. Ok JNull) (\<lambda>_. silent_on DOCKER_TOOL f) 0 previous_default (sample_client [DOCKER_TOOL])
   in rs_containers (fst late) = RawUnknown (lit ''docker.containers: no answer in 20s'') \<and> cl_broken (snd late) = None"
proof -
  let ?c = "sample_client [DOCKER_TOOL]"
  have "\<forall>call. \<not> closes ((\<lambda>_. Answer JNull) call)" "cl_broken ?c = None" "has_tool DOCKER_TOOL ?c"
    by (simp_all add: closes_def sample_client_def has_tool_def)
  note t = late_answer_costs_one_section [OF this, of "\<lambda>_. Ok JNull" 0 previous_default]
  have e: "show_error (Timeout DOCKER_TOOL (cl_timeout ?c)) = lit ''docker.containers: no answer in 20s''"
    by (simp add: sample_client_def show_error_def DOCKER_TOOL_def lit_def show_nat.simps)
  show ?thesis
    using t by (simp add: Let_def raw_sections_def not_egress e)
qed

section \<open>The cache\<close>

lemma cache_path_not_scratch:
  assumes "cache_path dir key = Some p"
  shows "scratch_name pid q \<noteq> p"
proof -
  from assms have "last p = 0x6E" by (auto simp: cache_path_def cache_file_name_def lit_def)
  then show ?thesis using scratch_last [of pid q] by force
qed

lemma read_text_ok: "valid_utf8 t \<Longrightarrow> fs p = Some t \<Longrightarrow> read_to_string None fs p = FileText t"
  by (simp add: read_to_string_def)

lemma cache_write_kept:
  assumes "raw_text_ok rt" "cache_path dir key = Some p"
    and "\<not> (case cache_read rt None dir key fs of None \<Rightarrow> False | Some kept \<Rightarrow> rs_at r < rs_at kept)"
    and "fst (cache_write rt None dirs w dir key r fs) = Inr ()"
  shows "cache_read rt None dir key (snd (cache_write rt None dirs w dir key r fs)) = Some r"
proof (cases dirs)
  case None
  have "fst (write_atomic w p (rt_write rt r) fs) = Inr ()" "cache_write rt None dirs w dir key r fs = write_atomic w p (rt_write rt r) fs"
    using assms(2-4) None by (simp_all add: cache_write_def)
  then have "snd (cache_write rt None dirs w dir key r fs) p = Some (rt_write rt r)"
    using write_atomic_Ok by metis
  moreover have "valid_utf8 (rt_write rt r)" "rt_read rt (rt_write rt r) = Some r"
    using assms(1) by (simp_all add: raw_text_ok_def)
  ultimately show ?thesis
    using assms(2) by (simp add: cache_read_def read_text_ok)
next
  case (Some e)
  then show ?thesis using assms(2-4) by (simp add: cache_write_def)
qed

lemma cache_write_older:
  assumes "cache_read rt None dir key fs = Some kept" "rs_at r < rs_at kept"
  shows "cache_write rt None dirs w dir key r fs = (Inr (), fs)"
proof -
  from assms(1) obtain p where "cache_path dir key = Some p"
    by (auto simp: cache_read_def split: option.splits)
  then show ?thesis using assms by (simp add: cache_write_def)
qed

lemma cache_write_failed:
  assumes "fst (cache_write rt None dirs w dir key r fs) = Inl e"
  shows "cache_read rt None dir key (snd (cache_write rt None dirs w dir key r fs)) = cache_read rt None dir key fs"
proof (cases "cache_path dir key")
  case None
  then show ?thesis by (simp add: cache_write_def)
next
  case (Some p)
  show ?thesis
  proof (cases dirs)
    case (Some e')
    then show ?thesis using \<open>cache_path dir key = Some p\<close> by (simp add: cache_write_def)
  next
    case None
    have w: "cache_write rt None dirs w dir key r fs = write_atomic w p (rt_write rt r) fs"
      using assms Some None by (auto simp: cache_write_def split: if_splits)
    have "snd (write_atomic w p (rt_write rt r) fs) p = fs p"
      by (rule write_atomic_fails [OF cache_path_not_scratch [OF Some]]) (use assms w in simp)
    then show ?thesis using w Some by (simp add: cache_read_def read_to_string_def)
  qed
qed

text \<open>Answers arriving to be kept, in any order, by any writer, each with what its write met.\<close>

type_synonym keep_try = "rstring option \<times> write_answers \<times> raw_snapshot"

definition keep_all :: "raw_text \<Rightarrow> rstring option \<Rightarrow> rstring \<Rightarrow> keep_try list \<Rightarrow> files \<Rightarrow> files" where
  "keep_all rt dir key tries fs =
     fold (\<lambda>(dirs, w, r) fs. snd (cache_write rt None dirs w dir key r fs)) tries fs"

lemma keep_one:
  fixes rt dir key fs dirs w r
  assumes "raw_text_ok rt" "cache_path dir key = Some p"
  defines "k \<equiv> cache_read rt None dir key fs"
  defines "k' \<equiv> cache_read rt None dir key (snd (cache_write rt None dirs w dir key r fs))"
  shows "k' = k \<or> (k' = Some r \<and> (\<forall>x. k = Some x \<longrightarrow> rs_at x \<le> rs_at r))"
    and "fst (cache_write rt None dirs w dir key r fs) = Inr () \<Longrightarrow> \<exists>x. k' = Some x \<and> rs_at r \<le> rs_at x"
proof -
  consider (older) x where "k = Some x" "rs_at r < rs_at x"
    | (failed) e where "fst (cache_write rt None dirs w dir key r fs) = Inl e"
    | (kept) "\<not> (case k of None \<Rightarrow> False | Some kept \<Rightarrow> rs_at r < rs_at kept)"
        "fst (cache_write rt None dirs w dir key r fs) = Inr ()"
    by (cases "fst (cache_write rt None dirs w dir key r fs)"; cases k) (auto split: if_splits)
  note three = this
  show "k' = k \<or> (k' = Some r \<and> (\<forall>x. k = Some x \<longrightarrow> rs_at x \<le> rs_at r))"
  proof (cases rule: three)
    case older
    then show ?thesis using cache_write_older [of rt dir key fs x r dirs w] by (simp add: k_def k'_def)
  next
    case failed
    then show ?thesis using cache_write_failed by (simp add: k_def k'_def)
  next
    case kept
    then have "k' = Some r" using cache_write_kept [OF assms(1,2)] by (simp add: k_def k'_def)
    moreover have "\<forall>x. k = Some x \<longrightarrow> rs_at x \<le> rs_at r" using kept(1) by auto
    ultimately show ?thesis by simp
  qed
  assume ok: "fst (cache_write rt None dirs w dir key r fs) = Inr ()"
  show "\<exists>x. k' = Some x \<and> rs_at r \<le> rs_at x"
  proof (cases rule: three)
    case older
    then show ?thesis using cache_write_older [of rt dir key fs x r dirs w] by (simp add: k_def k'_def)
  next
    case failed
    then show ?thesis using ok by simp
  next
    case kept
    then show ?thesis using cache_write_kept [OF assms(1,2)] by (simp add: k_def k'_def)
  qed
qed

definition at_least :: "int \<Rightarrow> raw_snapshot option \<Rightarrow> bool" where
  "at_least t k \<longleftrightarrow> (case k of None \<Rightarrow> False | Some x \<Rightarrow> t \<le> rs_at x)"

lemma keep_all_Cons:
  "keep_all rt dir key ((dirs, w, r) # tries) fs = keep_all rt dir key tries (snd (cache_write rt None dirs w dir key r fs))"
  by (simp add: keep_all_def)

lemma keep_all_mono:
  assumes "raw_text_ok rt" "cache_path dir key = Some p"
  shows "at_least t (cache_read rt None dir key fs) \<Longrightarrow> at_least t (cache_read rt None dir key (keep_all rt dir key tries fs))"
proof (induction tries arbitrary: fs)
  case (Cons tr tries)
  obtain dirs w r where tr: "tr = (dirs, w, r)" by (cases tr) auto
  have "at_least t (cache_read rt None dir key (snd (cache_write rt None dirs w dir key r fs)))"
    using keep_one(1) [OF assms, where fs = fs and dirs = dirs and w = w and r = r] Cons.prems
    by (auto simp: at_least_def split: option.splits)
  then show ?case using Cons.IH by (simp add: tr keep_all_Cons)
qed (simp add: keep_all_def)

lemma keep_all_from:
  assumes "raw_text_ok rt" "cache_path dir key = Some p"
  shows "cache_read rt None dir key (keep_all rt dir key tries fs) = cache_read rt None dir key fs
    \<or> (\<exists>(_, _, r) \<in> set tries. cache_read rt None dir key (keep_all rt dir key tries fs) = Some r)"
proof (induction tries arbitrary: fs)
  case (Cons tr tries)
  obtain dirs w r where tr: "tr = (dirs, w, r)" by (cases tr) auto
  show ?case
    using keep_one(1) [OF assms, where fs = fs and dirs = dirs and w = w and r = r] Cons.IH [of "snd (cache_write rt None dirs w dir key r fs)"]
    by (auto simp: tr keep_all_Cons)
qed (simp add: keep_all_def)

text \<open>C22: What is kept of a host never goes back. However many answers are written, in whatever order and
  whichever of the writes fail, the one kept afterwards is at least as new as the one kept before and as
  every answer whose write was reported to have worked, and it is one of them.\<close>

theorem kept_answer_is_newest:
  assumes "raw_text_ok rt" "cache_path dir key = Some p"
  shows "(\<forall>x. cache_read rt None dir key fs = Some x \<longrightarrow>
            at_least (rs_at x) (cache_read rt None dir key (keep_all rt dir key tries fs)))
    \<and> (\<forall>before dirs w r later. tries = before @ (dirs, w, r) # later \<longrightarrow>
          fst (cache_write rt None dirs w dir key r (keep_all rt dir key before fs)) = Inr () \<longrightarrow>
          at_least (rs_at r) (cache_read rt None dir key (keep_all rt dir key tries fs)))
    \<and> (cache_read rt None dir key (keep_all rt dir key tries fs) = cache_read rt None dir key fs
       \<or> (\<exists>(_, _, r) \<in> set tries. cache_read rt None dir key (keep_all rt dir key tries fs) = Some r))"
proof (intro conjI allI impI)
  fix x assume "cache_read rt None dir key fs = Some x"
  then show "at_least (rs_at x) (cache_read rt None dir key (keep_all rt dir key tries fs))"
    by (intro keep_all_mono [OF assms]) (simp add: at_least_def)
next
  fix before dirs w r later
  assume t: "tries = before @ (dirs, w, r) # later"
    and ok: "fst (cache_write rt None dirs w dir key r (keep_all rt dir key before fs)) = Inr ()"
  let ?fs = "snd (cache_write rt None dirs w dir key r (keep_all rt dir key before fs))"
  have "keep_all rt dir key tries fs = keep_all rt dir key later ?fs"
    by (simp add: t keep_all_def)
  moreover have "at_least (rs_at r) (cache_read rt None dir key ?fs)"
    using keep_one(2) [OF assms ok] by (auto simp: at_least_def)
  ultimately show "at_least (rs_at r) (cache_read rt None dir key (keep_all rt dir key tries fs))"
    using keep_all_mono [OF assms] by simp
qed (rule keep_all_from [OF assms])

text \<open>A text for answers, to show that the hypothesis on it can hold: each answer's number.\<close>

instance json :: countable by countable_datatype
instance proof_of :: countable by countable_datatype
instance miss :: countable by countable_datatype
instance catalogue :: countable by countable_datatype
instance raw :: countable by countable_datatype

definition answer_number :: "raw_snapshot \<Rightarrow> nat" where
  "answer_number r =
     to_nat (rs_server r, rs_at r, rs_rule_every_s r, rs_sampled_every_s r, rs_catalogue r, rs_health r,
             rs_health_list r, rs_vpn r, rs_cron r, rs_containers r, rs_zfs r, rs_disk r, rs_facts r,
             rs_alerts r, rs_triage r)"

lemma answer_number_inj: "answer_number r = answer_number q \<Longrightarrow> r = q"
  by (simp add: answer_number_def)

definition sample_raw_text :: raw_text where
  "sample_raw_text =
     \<lparr>rt_write = (\<lambda>r. replicate (answer_number r) 0x30), rt_read = (\<lambda>t. Some (inv answer_number (length t)))\<rparr>"

lemma sample_raw_text_ok: "raw_text_ok sample_raw_text"
proof -
  have "inv answer_number (answer_number r) = r" for r
    by (rule inv_f_f) (auto intro: injI answer_number_inj)
  moreover have "valid_utf8 (replicate n 0x30)" for n
    by (rule valid_utf8_ascii) simp
  ultimately show ?thesis by (simp add: raw_text_ok_def sample_raw_text_def)
qed

definition sample_raw :: "int \<Rightarrow> raw \<Rightarrow> raw_snapshot" where
  "sample_raw at h =
     \<lparr>rs_server = (lit ''mcp-host'', lit ''1.0''), rs_at = at, rs_rule_every_s = 450, rs_sampled_every_s = 450,
      rs_catalogue = Listed 0, rs_health = h, rs_health_list = h, rs_vpn = h, rs_cron = h, rs_containers = h,
      rs_zfs = h, rs_disk = h, rs_facts = h, rs_alerts = h, rs_triage = h\<rparr>"

definition works :: write_answers where
  "works = \<lparr>wa_pid = 7, wa_create = None, wa_write = None, wa_sync = None, wa_rename = None, wa_partial = [],
            wa_removes = True\<rparr>"

lemma works_writes: "fst (write_atomic works p t fs) = Inr ()" "snd (write_atomic works p t fs) p = Some t"
  by (simp_all add: write_atomic_def write_file_def works_def)

theorem kept_answer_is_newest_witness:
  "let tries = [(None, works, sample_raw 20 (RawAbsent [])), (None, works, sample_raw 10 (RawAbsent []))]
   in at_least 20 (cache_read sample_raw_text None (Some (lit ''ops'')) (lit ''k'')
                     (keep_all sample_raw_text (Some (lit ''ops'')) (lit ''k'') tries Map.empty))"
proof -
  let ?tries = "[(None, works, sample_raw 20 (RawAbsent [])), (None, works, sample_raw 10 (RawAbsent []))]"
  obtain p where p: "cache_path (Some (lit ''ops'')) (lit ''k'') = Some p" by (simp add: cache_path_def)
  have "fst (cache_write sample_raw_text None None works (Some (lit ''ops'')) (lit ''k'') (sample_raw 20 (RawAbsent []))
      (keep_all sample_raw_text (Some (lit ''ops'')) (lit ''k'') [] Map.empty)) = Inr ()"
    using p works_writes by (simp add: cache_write_def cache_read_def keep_all_def read_to_string_def)
  then have "at_least (rs_at (sample_raw 20 (RawAbsent [])))
      (cache_read sample_raw_text None (Some (lit ''ops'')) (lit ''k'')
         (keep_all sample_raw_text (Some (lit ''ops'')) (lit ''k'') ?tries Map.empty))"
    using kept_answer_is_newest [OF sample_raw_text_ok p, of Map.empty ?tries] by blast
  moreover have "rs_at (sample_raw 20 (RawAbsent [])) = 20" by (simp add: sample_raw_def)
  ultimately show ?thesis by (simp only: Let_def)
qed

end
