(* ===== verification/Ops_Rate_Props.thy ===== *)
theory Ops_Rate_Props
  imports Ops_Props
begin

text \<open>
  When hosts are asked: the tick serves every host, a poll that fails keeps showing its last answer. And
  three places where it goes otherwise: the agent reads a slow host too seldom beside a faster one, the
  view's own poll warns of itself, and two hosts whose keys differ only in replaced characters share
  one file.
\<close>

section \<open>The tick\<close>

lemma faster_least: "hr_rate_s (faster a b) \<le> hr_rate_s a" "hr_rate_s (faster a b) \<le> hr_rate_s b"
  by (simp_all add: faster_def)

lemma faster_one: "faster a b = a \<or> faster a b = b"
  by (simp add: faster_def)

lemma faster_published:
  "published a \<and> hr_rate_s a \<le> hr_rate_s b \<Longrightarrow> published (faster a b) \<or> hr_rate_s (faster a b) < hr_rate_s a"
  "published b \<and> hr_rate_s b \<le> hr_rate_s a \<Longrightarrow> published (faster a b) \<or> hr_rate_s (faster a b) < hr_rate_s b"
  by (auto simp: faster_def)

text \<open>The best so far is one of those seen, the least, and published if a published one is as low.\<close>

definition best_of :: "host_rate list \<Rightarrow> host_rate \<Rightarrow> bool" where
  "best_of seen b \<longleftrightarrow>
     b \<in> set seen \<and> (\<forall>h \<in> set seen. hr_rate_s b \<le> hr_rate_s h)
     \<and> ((\<exists>h \<in> set seen. hr_rate_s h = hr_rate_s b \<and> published h) \<longrightarrow> published b)"

lemma best_of_step: "best_of seen b \<Longrightarrow> best_of (seen @ [r]) (faster r b)"
  using faster_least [of r b] faster_one [of r b] faster_published [of r b]
  by (fastforce simp: best_of_def faster_def)

lemma fastest_go:
  "best_of seen b \<Longrightarrow>
     \<exists>f. fold (\<lambda>r best. Some (case best of None \<Rightarrow> r | Some b \<Rightarrow> faster r b)) rates (Some b) = Some f
       \<and> best_of (seen @ rates) f"
proof (induction rates arbitrary: seen b)
  case (Cons r rates)
  then show ?case using Cons.IH [OF best_of_step [OF Cons.prems, of r]] by simp
qed simp

lemma fastest_best:
  assumes "rates \<noteq> []"
  obtains f where "fastest rates = Some f" "best_of rates f"
proof -
  obtain r rs where rates: "rates = r # rs" using assms by (cases rates) auto
  have "best_of [r] r" by (simp add: best_of_def)
  from fastest_go [OF this, of rs] show thesis
    using that by (auto simp: rates fastest_def)
qed


definition two_rates :: "host_rate list" where
  "two_rates = [rate_of (lit ''a'') (Some (sample_raw 0 (RawValue (JObj [(lit ''cadence_s'', JInt 600)])))),
                rate_of (lit ''b'') None]"

lemma opt_int_field: "i64_ok n \<Longrightarrow> opt_int (JObj [(lit k, JInt n)]) k = Some n"
  by (simp add: opt_int_def as_i64_def)


section \<open>A gather that works\<close>

text \<open>A host that answers at once, keeps its pipe open, and publishes its cadence; and a cache that can be
  written for it.\<close>

definition publishes :: "ops_env \<Rightarrow> (mcp_call \<Rightarrow> service_answer) \<Rightarrow> client \<Rightarrow> int \<Rightarrow> bool" where
  "publishes oe f c cad \<longleftrightarrow>
     (\<forall>call. \<not> closes (f call)) \<and> cl_broken c = None \<and> has_tool HEALTH_LIST c
     \<and> (case fst (mcp_read (oe_parse oe) (\<lambda>_. f) HEALTH_URI c) of
          Inl _ \<Rightarrow> False | Inr v \<Rightarrow> opt_int v ''cadence_s'' = Some cad)"

definition keeps :: "ops_env \<Rightarrow> rstring \<Rightarrow> rstring \<Rightarrow> bool" where
  "keeps oe key p \<longleftrightarrow>
     raw_text_ok (oe_text oe) \<and> cache_path (oe_dir oe) key = Some p \<and> oe_fault oe key = None
     \<and> oe_dirs oe key = None \<and> wa_create (oe_write oe key) = None \<and> wa_write (oe_write oe key) = None
     \<and> wa_sync (oe_write oe key) = None \<and> wa_rename (oe_write oe key) = None"

lemma gather_publishes:
  assumes "publishes oe f c cad"
  defines "r \<equiv> \<lambda>now prev. fst (gather_raw (oe_parse oe) (\<lambda>_. f) now prev c)"
  shows "raw_cadence_s (r now prev) = Some cad" "rs_rule_every_s (r now prev) = rate_for cad"
    "rs_sampled_every_s (r now prev) = carried_rate (rate_for cad) (pv_at prev) now" "rs_at (r now prev) = now"
    "cl_broken (snd (gather_raw (oe_parse oe) (\<lambda>_. f) now prev c)) = None"
    "rs_server (r now prev) = cl_server c"
proof -
  have f: "\<forall>call. \<not> closes (f call)" "cl_broken c = None" "has_tool HEALTH_LIST c"
    using assms(1) by (simp_all add: publishes_def)
  obtain v where v: "fst (mcp_read (oe_parse oe) (\<lambda>_. f) HEALTH_URI c) = Inr v" "opt_int v ''cadence_s'' = Some cad"
    using assms(1) by (auto simp: publishes_def split: sum.splits)
  have a: "answers (\<lambda>_. f) f" using f(1) by (simp add: answers_def)
  note g = gather_open [OF a f(2), where parse = "oe_parse oe" and now = now and prev = prev]
  have "rs_health (r now prev) = RawValue v"
    using g(10) v(1) f(3) by (simp add: r_def)
  then show cad: "raw_cadence_s (r now prev) = Some cad"
    by (simp add: raw_cadence_s_def cadence_of_def raw_value_def v(2))
  show "rs_rule_every_s (r now prev) = rate_for cad"
    using g(15) cad by (simp add: r_def)
  then show "rs_sampled_every_s (r now prev) = carried_rate (rate_for cad) (pv_at prev) now"
    using g(16) by (simp add: r_def)
  show "rs_at (r now prev) = now" unfolding r_def by (rule g(13))
  show "cl_broken (snd (gather_raw (oe_parse oe) (\<lambda>_. f) now prev c)) = None" by (rule g(1))
  show "rs_server (r now prev) = cl_server c" unfolding r_def by (rule g(11))
qed

lemma env_write_works:
  assumes "keeps oe key p"
    and "\<not> (case env_read oe key fs of None \<Rightarrow> False | Some kept \<Rightarrow> rs_at r < rs_at kept)"
  shows "fst (env_write oe key r fs) = Inr ()" "env_read oe key (snd (env_write oe key r fs)) = Some r"
    "cache_path (oe_dir oe) key' \<noteq> Some p \<Longrightarrow> env_read oe key' (snd (env_write oe key r fs)) = env_read oe key' fs"
proof -
  have k: "raw_text_ok (oe_text oe)" "cache_path (oe_dir oe) key = Some p" "oe_fault oe key = None" "oe_dirs oe key = None"
    using assms(1) by (simp_all add: keeps_def)
  have w: "env_write oe key r fs = write_atomic (oe_write oe key) p (rt_write (oe_text oe) r) fs"
    using assms(2) k by (simp add: env_write_def cache_write_def env_read_def)
  have at: "write_atomic (oe_write oe key) p (rt_write (oe_text oe) r) fs =
      (Inr (), (fs(scratch_name (wa_pid (oe_write oe key)) p := None))(p \<mapsto> rt_write (oe_text oe) r))"
    using assms(1) by (simp add: write_atomic_def write_file_def keeps_def Let_def)
  show ok: "fst (env_write oe key r fs) = Inr ()" by (simp add: w at)
  show "env_read oe key (snd (env_write oe key r fs)) = Some r"
    using cache_write_kept [OF k(1,2)] ok assms(2) k(3,4) by (simp add: env_write_def env_read_def)
  assume other: "cache_path (oe_dir oe) key' \<noteq> Some p"
  show "env_read oe key' (snd (env_write oe key r fs)) = env_read oe key' fs"
  proof (cases "cache_path (oe_dir oe) key'")
    case None
    then show ?thesis by (simp add: env_read_def cache_read_def)
  next
    case (Some q)
    have "scratch_name (wa_pid (oe_write oe key)) p \<noteq> q" by (rule cache_path_not_scratch [OF Some])
    then show ?thesis using other Some by (simp add: env_read_def cache_read_def read_to_string_def w at)
  qed
qed

lemma pass_host_gathers:
  assumes "publishes oe f c cad" "opener s fs = Some (Inr (c, \<lambda>_. f), fs)" "keeps oe (host_key s) p"
    and "kept = env_read oe (host_key s) fs" "due kept now (case kept of None \<Rightarrow> fallback | Some k \<Rightarrow> raw_interval k)"
    and "\<forall>k. kept = Some k \<longrightarrow> rs_at k \<le> now"
  shows "\<exists>h fs' r. pass_host oe opener now fallback s fs = Some (h, fs') \<and> hp_gathered h
    \<and> env_read oe (host_key s) fs' = Some r \<and> rs_at r = now \<and> raw_cadence_s r = Some cad
    \<and> rs_sampled_every_s r = carried_rate (rate_for cad) (map_option rs_at kept) now
    \<and> rs_server r = cl_server c
    \<and> (\<forall>key'. cache_path (oe_dir oe) key' \<noteq> Some p \<longrightarrow> env_read oe key' fs' = env_read oe key' fs)"
proof -
  let ?prev = "case kept of None \<Rightarrow> previous_default | Some k \<Rightarrow> raw_previous k"
  let ?g = "gather_raw (oe_parse oe) (\<lambda>_. f) now ?prev c"
  let ?r = "fst ?g"
  note r = gather_publishes [OF assms(1), where now = now and prev = ?prev]
  have older: "\<not> (case env_read oe (host_key s) fs of None \<Rightarrow> False | Some kept \<Rightarrow> rs_at ?r < rs_at kept)"
    using assms(4,6) r(4) by (auto split: option.splits)
  note w = env_write_works [OF assms(3) older]
  have at: "pv_at ?prev = map_option rs_at kept"
    by (cases kept) (simp_all add: previous_default_def raw_previous_def)
  have "\<exists>h. pass_host oe opener now fallback s fs = Some (h, snd (env_write oe (host_key s) ?r fs)) \<and> hp_gathered h"
    using assms(2,4,5) r(5) w(1)
    by (cases ?g; cases "env_write oe (host_key s) ?r fs") (simp add: pass_host_def gather_one_def Let_def)
  then obtain h where "pass_host oe opener now fallback s fs = Some (h, snd (env_write oe (host_key s) ?r fs))"
    "hp_gathered h" by blast
  then show ?thesis using w(2,3) r(1,3,4,6) at by auto
qed

lemma pass_host_fresh:
  assumes "env_read oe (host_key s) fs = Some k" "\<not> due (Some k) now (raw_interval k)"
  shows "\<exists>h. pass_host oe opener now fallback s fs = Some (h, fs) \<and> \<not> hp_gathered h \<and> hp_fresh h"
  using assms by (simp add: pass_host_def Let_def)

section \<open>A slow host beside a faster one\<close>

lemma interval_published: "raw_cadence_s k = Some c \<Longrightarrow> 2 \<le> c \<Longrightarrow> c \<le> I64_MAX \<Longrightarrow> interval_s (raw_interval k) = c div 2"
  by (simp add: raw_interval_def interval_for_def rate_for_def interval_s_def)

lemma due_published:
  assumes "raw_cadence_s k = Some c" "2 \<le> c" "c \<le> I64_MAX" "i64_ok (now - rs_at k)"
  shows "due (Some k) now (raw_interval k) \<longleftrightarrow> c div 2 - DUE_SLACK_S \<le> now - rs_at k"
  using assms by (simp add: due_def interval_published)

lemma two_hosts_tick:
  assumes "env_read oe (host_key a) fs = Some ra" "raw_cadence_s ra = Some 600"
    and "env_read oe (host_key b) fs = Some rb" "raw_cadence_s rb = Some 900"
  shows "tk_secs (tick_for oe [a, b] fs) = 295"
  using assms by (simp add: tick_for_def tick_of_def fastest_def faster_def rate_of_def rate_for_def
      TICK_MARGIN_S_def MIN_TICK_S_def)

lemma agent_cycle_two:
  assumes "pass_host oe opener now OPS_POLL a fs = Some (ha, fs1)" "pass_host oe opener now OPS_POLL b fs1 = Some (hb, fs2)"
    and "tk_secs (tick_for oe [a, b] fs2) = 295"
  shows "\<exists>cy. agent_cycle oe opener now 0 [a, b] fs = Some (cy, fs2) \<and> cy_pass cy = [ha, hb] \<and> cy_wait cy = 295"
  using assms by (simp add: agent_cycle_def Let_def I64_MAX_def i64_sat_def I64_MIN_def)

lemma due_after:
  assumes "raw_cadence_s k = Some c" "2 \<le> c" "c \<le> 900" "now - rs_at k \<in> {0..590}"
  shows "due (Some k) now (raw_interval k) \<longleftrightarrow> c div 2 - DUE_SLACK_S \<le> now - rs_at k"
  using assms by (intro due_published) (auto simp: I64_MAX_def i64_ok_def I64_MIN_def)

text \<open>Two hosts that answer at once, the first publishing every ten minutes and the second every fifteen, each
  with a file of its own.\<close>

definition two_publish :: "ops_env \<Rightarrow> (int \<Rightarrow> opener) \<Rightarrow> server \<Rightarrow> server \<Rightarrow> bool" where
  "two_publish oe opener a b \<longleftrightarrow>
     (\<exists>fa ca pa fb cb pb.
        publishes oe fa ca 600 \<and> (\<forall>now fs. opener now a fs = Some (Inr (ca, \<lambda>_. fa), fs)) \<and> keeps oe (host_key a) pa
        \<and> publishes oe fb cb 900 \<and> (\<forall>now fs. opener now b fs = Some (Inr (cb, \<lambda>_. fb), fs)) \<and> keeps oe (host_key b) pb
        \<and> pa \<noteq> pb)"

definition read_is_due :: "ops_env \<Rightarrow> int \<Rightarrow> server \<Rightarrow> files \<Rightarrow> bool" where
  "read_is_due oe now s fs \<longleftrightarrow>
     (case env_read oe (host_key s) fs of
        None \<Rightarrow> True | Some k \<Rightarrow> rs_at k \<le> now \<and> due (Some k) now (raw_interval k))"

text \<open>What a pass over a due host leaves, the other host's answer included.\<close>

lemma pass_reads:
  assumes "two_publish oe opener a b" "(s, u, c) \<in> {(a, b, 600), (b, a, 900)}" "read_is_due oe now s fs"
  shows "\<exists>h fs' r. pass_host oe (opener now) now OPS_POLL s fs = Some (h, fs') \<and> hp_gathered h
    \<and> env_read oe (host_key s) fs' = Some r \<and> rs_at r = now \<and> raw_cadence_s r = Some c
    \<and> rs_sampled_every_s r = carried_rate (rate_for c) (map_option rs_at (env_read oe (host_key s) fs)) now
    \<and> env_read oe (host_key u) fs' = env_read oe (host_key u) fs"
proof -
  obtain f cl p where s: "publishes oe f cl c" "opener now s fs = Some (Inr (cl, \<lambda>_. f), fs)" "keeps oe (host_key s) p"
    "cache_path (oe_dir oe) (host_key u) \<noteq> Some p"
    using assms(1,2) unfolding two_publish_def keeps_def by fastforce
  have "due (env_read oe (host_key s) fs) now
      (case env_read oe (host_key s) fs of None \<Rightarrow> OPS_POLL | Some k \<Rightarrow> raw_interval k)"
    "\<forall>k. env_read oe (host_key s) fs = Some k \<longrightarrow> rs_at k \<le> now"
    using assms(3) by (auto simp: read_is_due_def due_def split: option.splits)
  from pass_host_gathers [where opener = "opener now", OF s(1,2,3) refl this] show ?thesis
    using s(4) by blast
qed

lemma cycle_reads_both:
  assumes "two_publish oe opener a b" "read_is_due oe now a fs" "read_is_due oe now b fs"
  obtains cy fs' ra rb where "agent_cycle oe (opener now) now 0 [a, b] fs = Some (cy, fs')"
    "map hp_gathered (cy_pass cy) = [True, True]" "cy_wait cy = 295"
    "env_read oe (host_key a) fs' = Some ra" "rs_at ra = now" "raw_cadence_s ra = Some 600"
    "env_read oe (host_key b) fs' = Some rb" "rs_at rb = now" "raw_cadence_s rb = Some 900"
    "rs_sampled_every_s rb = carried_rate 450 (map_option rs_at (env_read oe (host_key b) fs)) now"
proof -
  obtain ha f1 ra where 1: "pass_host oe (opener now) now OPS_POLL a fs = Some (ha, f1)" "hp_gathered ha"
    "env_read oe (host_key a) f1 = Some ra" "rs_at ra = now" "raw_cadence_s ra = Some 600"
    "env_read oe (host_key b) f1 = env_read oe (host_key b) fs"
    using pass_reads [OF assms(1) _ assms(2), of b 600] by auto
  have "read_is_due oe now b f1" using assms(3) 1(6) by (simp add: read_is_due_def)
  then obtain hb f2 rb where 2: "pass_host oe (opener now) now OPS_POLL b f1 = Some (hb, f2)" "hp_gathered hb"
    "env_read oe (host_key b) f2 = Some rb" "rs_at rb = now" "raw_cadence_s rb = Some 900"
    "rs_sampled_every_s rb = carried_rate (rate_for 900) (map_option rs_at (env_read oe (host_key b) f1)) now"
    "env_read oe (host_key a) f2 = env_read oe (host_key a) f1"
    using pass_reads [OF assms(1), of b a 900 now f1] by auto
  have a: "env_read oe (host_key a) f2 = Some ra" using 2(7) 1(3) by simp
  have "rate_for 900 = 450" by (simp add: rate_for_def)
  then show thesis
    using agent_cycle_two [OF 1(1) 2(1) two_hosts_tick [OF a 1(5) 2(3,5)]] that a 1 2 by force
qed

lemma cycle_reads_first:
  assumes "two_publish oe opener a b" "read_is_due oe now a fs"
    and "env_read oe (host_key b) fs = Some rb" "raw_cadence_s rb = Some 900" "\<not> due (Some rb) now (raw_interval rb)"
  obtains cy fs' ra where "agent_cycle oe (opener now) now 0 [a, b] fs = Some (cy, fs')"
    "map hp_gathered (cy_pass cy) = [True, False]" "cy_wait cy = 295"
    "env_read oe (host_key a) fs' = Some ra" "rs_at ra = now" "raw_cadence_s ra = Some 600"
    "env_read oe (host_key b) fs' = Some rb"
proof -
  obtain ha f1 ra where 1: "pass_host oe (opener now) now OPS_POLL a fs = Some (ha, f1)" "hp_gathered ha"
    "env_read oe (host_key a) f1 = Some ra" "rs_at ra = now" "raw_cadence_s ra = Some 600"
    "env_read oe (host_key b) f1 = env_read oe (host_key b) fs"
    using pass_reads [OF assms(1) _ assms(2), of b 600] by auto
  have b: "env_read oe (host_key b) f1 = Some rb" using 1(6) assms(3) by simp
  obtain hb where 2: "pass_host oe (opener now) now OPS_POLL b f1 = Some (hb, f1)" "\<not> hp_gathered hb"
    using pass_host_fresh [OF b assms(5)] by blast
  show thesis
    using agent_cycle_two [OF 1(1) 2(1) two_hosts_tick [OF 1(3,5) b assms(4)]] that b 1 2 by force
qed

text \<open>C39: The agent's tick follows the fastest host, and a host is left alone until its own answer is nearly
  due; but the next tick may then be far past it. With one host publishing every ten minutes and another
  every fifteen, both answering at once, the agent passes every 295 seconds: at the second pass the
  slower host is 65 seconds short of due, and it is read at the third, 590 seconds after the first, where
  the rule asks for 450. Its answer carries the warning that it can be two publications behind, though the
  agent has kept every tick; \<open>tick_serves_every_host\<close> is about the tick alone.\<close>

theorem slow_host_read_too_seldom:
  assumes "publishes oe fa ca 600" "\<And>now fs. opener now a fs = Some (Inr (ca, \<lambda>_. fa), fs)"
    and "publishes oe fb cb 900" "\<And>now fs. opener now b fs = Some (Inr (cb, \<lambda>_. fb), fs)"
    and "keeps oe (host_key a) pa" "keeps oe (host_key b) pb" "pa \<noteq> pb"
  shows "\<exists>c1 c2 c3 fs r.
    agent_run oe opener t [0, 0, 0] [a, b] Map.empty = Some ([(t, c1), (t + 295, c2), (t + 590, c3)], fs)
    \<and> map hp_gathered (cy_pass c1) = [True, True]
    \<and> map hp_gathered (cy_pass c2) = [True, False]
    \<and> map hp_gathered (cy_pass c3) = [True, True]
    \<and> env_read oe (host_key b) fs = Some r \<and> raw_cadence_s r = Some 900 \<and> rs_sampled_every_s r = 590
    \<and> sampling_warning (rs_sampled_every_s r) \<lparr>cd_secs = Some 900, cd_words = None\<rparr> \<noteq> None"
proof -
  have two: "two_publish oe opener a b" using assms unfolding two_publish_def by blast
  have "read_is_due oe t s Map.empty" for s
    by (simp add: read_is_due_def env_read_def cache_read_def read_to_string_def split: option.split)
  with cycle_reads_both [OF two, where now = t and fs = Map.empty] obtain c1 f1 a1 b1 where
    1: "agent_cycle oe (opener t) t 0 [a, b] Map.empty = Some (c1, f1)" "map hp_gathered (cy_pass c1) = [True, True]"
    "cy_wait c1 = 295" "env_read oe (host_key a) f1 = Some a1" "rs_at a1 = t" "raw_cadence_s a1 = Some 600"
    "env_read oe (host_key b) f1 = Some b1" "rs_at b1 = t" "raw_cadence_s b1 = Some 900" by metis
  have "read_is_due oe (t + 295) a f1" "\<not> due (Some b1) (t + 295) (raw_interval b1)"
    using due_after [OF 1(6), of "t + 295"] due_after [OF 1(9), of "t + 295"] 1(4,5,8)
    by (simp_all add: read_is_due_def DUE_SLACK_S_def)
  with cycle_reads_first [OF two _ 1(7,9), of "t + 295"] obtain c2 f2 a2 where
    2: "agent_cycle oe (opener (t + 295)) (t + 295) 0 [a, b] f1 = Some (c2, f2)" "map hp_gathered (cy_pass c2) = [True, False]"
    "cy_wait c2 = 295" "env_read oe (host_key a) f2 = Some a2" "rs_at a2 = t + 295" "raw_cadence_s a2 = Some 600"
    "env_read oe (host_key b) f2 = Some b1" by metis
  have "read_is_due oe (t + 590) a f2" "read_is_due oe (t + 590) b f2"
    using due_after [OF 2(6), of "t + 590"] due_after [OF 1(9), of "t + 590"] 2(4,5,7) 1(8)
    by (simp_all add: read_is_due_def DUE_SLACK_S_def)
  with cycle_reads_both [OF two, where now = "t + 590" and fs = f2] obtain c3 f3 b2 where
    3: "agent_cycle oe (opener (t + 590)) (t + 590) 0 [a, b] f2 = Some (c3, f3)" "map hp_gathered (cy_pass c3) = [True, True]"
    "env_read oe (host_key b) f3 = Some b2" "raw_cadence_s b2 = Some 900"
    "rs_sampled_every_s b2 = carried_rate 450 (map_option rs_at (env_read oe (host_key b) f2)) (t + 590)" by metis
  have rate: "rs_sampled_every_s b2 = 590"
    by (simp add: 3(5) 2(7) 1(8) carried_rate_def i64_ok_def I64_MIN_def I64_MAX_def)
  have warns: "sampling_warning 590 \<lparr>cd_secs = Some 900, cd_words = None\<rparr> \<noteq> None"
    by (simp add: sampling_warning_def i64_sat_def I64_MAX_def I64_MIN_def)
  have "agent_run oe opener t [0, 0, 0] [a, b] Map.empty = Some ([(t, c1), (t + 295, c2), (t + 590, c3)], f3)"
    using 1(1,3) 2(1,3) 3(1) by (simp add: add.assoc)
  then show ?thesis using 1(2) 2(2) 3(2,3,4) rate warns by auto
qed

definition sample_host :: "string \<Rightarrow> string \<Rightarrow> server" where
  "sample_host user host =
     \<lparr>sv_host = lit host, sv_name = None, sv_port = 22, sv_user = lit user, sv_upgrade_cmd = None,
      sv_custom_command = None, sv_mcp = Some (lit ''mcp_host'')\<rparr>"

text \<open>A host whose published verdict is a text, and an environment that reads cadences from two such texts.\<close>

definition sample_answers :: "string \<Rightarrow> mcp_call \<Rightarrow> service_answer" where
  "sample_answers w call =
     (case call of
        ReadResource _ \<Rightarrow> Answer (JObj [(lit ''contents'', JArr [JObj [(lit ''text'', JStr (lit w))]])])
      | _ \<Rightarrow> Answer JNull)"

definition sample_ops :: ops_env where
  "sample_ops =
     \<lparr>oe_dir = Some (lit ''ops''), oe_text = sample_raw_text, oe_fault = (\<lambda>_. None), oe_dirs = (\<lambda>_. None),
      oe_write = (\<lambda>_. works), oe_list_text = \<lparr>et_write = (\<lambda>_. []), et_read = (\<lambda>_. None)\<rparr>,
      oe_start = (\<lambda>_ _. \<lparr>sa_spawned = Some [], sa_pipes = False, sa_opening = OpenTimeout,
                         sa_service = (\<lambda>_ _. NoAnswer), sa_stderr = []\<rparr>),
      oe_parse = (\<lambda>t. Ok (JObj [(lit ''cadence_s'', JInt (if t = lit ''a'' then 600 else 900))]))\<rparr>"

definition sample_path :: "server \<Rightarrow> rstring" where
  "sample_path s = lit ''ops'' @ lit ''/'' @ cache_file_name (host_key s)"

definition sample_opener :: opener where
  "sample_opener s fs =
     Some (Inr (sample_client [HEALTH_LIST], \<lambda>_. sample_answers (if sv_host s = lit ''a'' then ''a'' else ''b'')), fs)"

lemma sample_keeps: "keeps sample_ops (host_key s) (sample_path s)"
  by (simp add: keeps_def sample_ops_def sample_raw_text_ok cache_path_def sample_path_def works_def)

lemma sample_publishes: "publishes sample_ops (sample_answers w) (sample_client [HEALTH_LIST]) (if lit w = lit ''a'' then 600 else 900)"
proof -
  have open_c: "cl_broken (sample_client [HEALTH_LIST]) = None" "has_tool HEALTH_LIST (sample_client [HEALTH_LIST])"
    by (simp_all add: sample_client_def has_tool_def)
  have "fst (mcp_request (\<lambda>_. sample_answers w) (ReadResource HEALTH_URI) t HEALTH_URI (sample_client [HEALTH_LIST]))
      = Inr (JObj [(lit ''contents'', JArr [JObj [(lit ''text'', JStr (lit w))]])])" for t
    by (simp add: mcp_request_def open_c within_def sample_answers_def Let_def)
  moreover have "pointer [lit ''contents'', lit ''0'', lit ''text'']
      (JObj [(lit ''contents'', JArr [JObj [(lit ''text'', JStr (lit w))]])]) = Some (JStr (lit w))"
    by (simp add: pointer_def pointer_step_def starts_with_def parse_unsigned_def digit_of_def nth_opt_def lit_def)
  ultimately have "fst (mcp_read (oe_parse sample_ops) (\<lambda>_. sample_answers w) HEALTH_URI (sample_client [HEALTH_LIST]))
      = Inr (JObj [(lit ''cadence_s'', JInt (if lit w = lit ''a'' then 600 else 900))])"
    by (simp add: mcp_read_def split_beta sample_ops_def)
  then show ?thesis
    using open_c by (simp add: publishes_def opt_int_field i64_ok_def I64_MIN_def I64_MAX_def closes_def
        sample_answers_def split: mcp_call.split)
qed

theorem slow_host_read_too_seldom_witness:
  "\<exists>c1 c2 c3 fs. agent_run sample_ops (\<lambda>_. sample_opener) 0 [0, 0, 0] [sample_host ''m'' ''a'', sample_host ''m'' ''b''] Map.empty
       = Some ([(0, c1), (295, c2), (590, c3)], fs)
     \<and> map hp_gathered (cy_pass c2) = [True, False]"
proof -
  have p: "publishes sample_ops (sample_answers ''a'') (sample_client [HEALTH_LIST]) 600"
    "publishes sample_ops (sample_answers ''b'') (sample_client [HEALTH_LIST]) 900"
    using sample_publishes [of "''a''"] sample_publishes [of "''b''"] by (simp_all add: lit_def)
  have differ: "sample_path (sample_host ''m'' ''a'') \<noteq> sample_path (sample_host ''m'' ''b'')"
    by code_simp
  show ?thesis
    using slow_host_read_too_seldom [where t = 0 and opener = "\<lambda>_. sample_opener",
        OF p(1) _ p(2) _ sample_keeps sample_keeps differ]
    by (auto simp: sample_opener_def sample_host_def lit_def)
qed

section \<open>Two hosts, one file\<close>



section \<open>The view's own poll\<close>

text \<open>Every failure carries the last answer that was shown.\<close>

fun keeps_last :: "snapshot option \<Rightarrow> ops_state list \<Rightarrow> bool" where
  "keeps_last k [] \<longleftrightarrow> True"
| "keeps_last k (OpsReady s # xs) \<longleftrightarrow> keeps_last (Some s) xs"
| "keeps_last k (OpsFailed r l # xs) \<longleftrightarrow> l = k \<and> keeps_last k xs"
| "keeps_last k (_ # xs) \<longleftrightarrow> False"

lemma poll_turn_last:
  assumes "poll_turn oe opener key fallback now now' s st fs = Some (x, st', fs')"
  shows "case x of
           None \<Rightarrow> ps_last st' = ps_last st
         | Some state \<Rightarrow> (\<exists>snap. state = OpsReady snap \<and> ps_last st' = Some snap)
                        \<or> (\<exists>reason. state = OpsFailed reason (ps_last st) \<and> ps_last st' = ps_last st)"
  using assms
  by (auto simp: poll_turn_def Let_def split: option.splits if_splits sum.splits prod.splits)

text \<open>Whatever the hosts do and however long the poll runs, a failure it shows comes with the answer it showed
  last, and nothing else is ever shown: never a blank pane once there was an answer, and never a failure
  with an answer that was not the latest.\<close>

theorem poll_keeps_last_answer:
  assumes "poll_run oe opener key fallback looks s st fs = Some (states, st', fs')"
  shows "keeps_last (ps_last st) states"
  using assms
proof (induction looks arbitrary: st fs states)
  case (Cons look looks)
  obtain now now' taken where look: "look = (now, now', taken)" by (cases look) auto
  obtain x st1 fs1 where turn: "poll_turn oe opener key fallback now now' s st fs = Some (x, st1, fs1)"
    using Cons.prems by (auto simp: look split: option.splits)
  note last = poll_turn_last [OF turn]
  show ?case
  proof (cases x)
    case None
    then show ?thesis using Cons.prems Cons.IH [of st1 fs1 states] last turn by (simp add: look)
  next
    case (Some state)
    show ?thesis
    proof (cases taken)
      case False
      then show ?thesis using Cons.prems Some turn by (simp add: look)
    next
      case True
      then obtain rest where "poll_run oe opener key fallback looks s st1 fs1 = Some (rest, st', fs')" "states = state # rest"
        using Cons.prems Some turn by (auto simp: look)
      then show ?thesis using Cons.IH [of st1 fs1 rest] last Some by auto
    qed
  qed
qed simp

lemma publishes_after:
  assumes "publishes oe f c cad"
  shows "publishes oe f (snd (gather_raw (oe_parse oe) (\<lambda>_. f) now prev c)) cad"
proof -
  have f: "\<forall>call. \<not> closes (f call)" "cl_broken c = None" using assms by (simp_all add: publishes_def)
  have a: "answers (\<lambda>_. f) f" using f(1) by (simp add: answers_def)
  let ?d = "snd (gather_raw (oe_parse oe) (\<lambda>_. f) now prev c)"
  note d = same_session_fields [OF gather_open(14) [OF a f(2), of "oe_parse oe" now prev]]
  have "fst (mcp_read (oe_parse oe) (\<lambda>_. f) HEALTH_URI ?d) = fst (mcp_read (oe_parse oe) (\<lambda>_. f) HEALTH_URI c)"
    using request_open(1) [OF a d(4)] request_open(1) [OF a f(2)] d(3) by (simp add: mcp_read_def split_beta)
  then show ?thesis using assms d(1,4) by (simp add: publishes_def has_tool_def)
qed

lemma fresh_published:
  assumes "raw_cadence_s k = Some c" "2 \<le> c" "c \<le> I64_MAX" "i64_ok (now - rs_at k)"
  shows "is_fresh k now (raw_interval k) \<longleftrightarrow> now - rs_at k < c div 2"
  using assms by (simp add: is_fresh_def interval_published)

text \<open>A turn that asks, and one that finds a fresh answer it has shown.\<close>

lemma poll_asks:
  assumes "publishes oe f c cad" "keeps oe key p"
    and "ps_session st = None \<and> opener s fs = Some (Inr (c, \<lambda>_. f), fs) \<or> ps_session st = Some (c, \<lambda>_. f)"
    and "\<forall>k. env_read oe key fs = Some k \<longrightarrow> \<not> is_fresh k now (raw_interval k) \<and> rs_at k \<le> now"
  shows "\<exists>r st' fs'. poll_turn oe opener key fallback now now s st fs = Some (Some (OpsReady (parse_snapshot r)), st', fs')
    \<and> rs_at r = now \<and> raw_cadence_s r = Some cad
    \<and> rs_sampled_every_s r = carried_rate (rate_for cad) (map_option rs_at (env_read oe key fs)) now
    \<and> env_read oe key fs' = Some r \<and> ps_shown st' = Some now
    \<and> (ps_session st' = None
       \<or> (\<exists>d. ps_session st' = Some (d, \<lambda>_. f) \<and> publishes oe f d cad))"
proof -
  let ?prev = "case env_read oe key fs of None \<Rightarrow> previous_default | Some k \<Rightarrow> raw_previous k"
  obtain r d where g: "gather_raw (oe_parse oe) (\<lambda>_. f) now ?prev c = (r, d)" by (cases "gather_raw (oe_parse oe) (\<lambda>_. f) now ?prev c") auto
  note r = gather_publishes [OF assms(1), where now = now and prev = ?prev, unfolded g fst_conv snd_conv]
  have older: "\<not> (case env_read oe key fs of None \<Rightarrow> False | Some kept \<Rightarrow> rs_at r < rs_at kept)"
    using assms(4) r(4) by (auto split: option.splits)
  note w = env_write_works(1,2) [OF assms(2) older]
  have sess: "(case ps_session st of Some ss \<Rightarrow> Some (Inr ss, fs) | None \<Rightarrow> opener s fs) = Some (Inr (c, \<lambda>_. f), fs)"
    using assms(3) by auto
  have stale: "(case env_read oe key fs of None \<Rightarrow> None
      | Some k \<Rightarrow> if is_fresh k now (case env_read oe key fs of None \<Rightarrow> fallback | Some k \<Rightarrow> raw_interval k) then Some k else None) = None"
    using assms(4) by (auto split: option.splits)
  obtain out fs' where wr: "env_write oe key r fs = (out, fs')" by (cases "env_write oe key r fs") auto
  have at: "pv_at ?prev = map_option rs_at (env_read oe key fs)"
    by (cases "env_read oe key fs") (simp_all add: previous_default_def raw_previous_def)
  let ?session = "if predates_deploy (parse_snapshot r) = None then Some (d, \<lambda>_. f) else None"
  let ?st = "\<lparr>ps_session = ?session, ps_last = Some (parse_snapshot r), ps_shown = Some (rs_at r)\<rparr>"
  have turn: "poll_turn oe opener key fallback now now s st fs = Some (Some (OpsReady (parse_snapshot r)), ?st, fs')"
    unfolding poll_turn_def Let_def stale option.case sess sum.case prod.case g r(5) wr by (rule refl)
  have "publishes oe f d cad" using publishes_after [OF assms(1), of now ?prev] g by simp
  then show ?thesis
    using turn r(1,3,4) w wr at by (intro exI [of _ r] exI [of _ ?st] exI [of _ fs']) simp
qed

lemma poll_waits:
  assumes "env_read oe key fs = Some k" "is_fresh k now (raw_interval k)" "ps_shown st = Some (rs_at k)"
  shows "poll_turn oe opener key fallback now now' s st fs = Some (None, st, fs)"
  using assms by (simp add: poll_turn_def Let_def)

lemma poll_run_waits:
  assumes "env_read oe key fs = Some k" "ps_shown st = Some (rs_at k)"
    and "\<forall>(n, n', taken) \<in> set waiting. is_fresh k n (raw_interval k)"
  shows "poll_run oe opener key fallback (waiting @ rest) s st fs = poll_run oe opener key fallback rest s st fs"
  using assms(3)
proof (induction waiting)
  case (Cons x waiting)
  obtain n n' taken where x: "x = (n, n', taken)" by (cases x) auto
  then show ?case using Cons poll_waits [OF assms(1) _ assms(2), of n] by simp
qed simp

text \<open>The looks of a loop that is never held up: every \<open>OPS_CHECK\<close> seconds.\<close>

definition looks_from :: "int \<Rightarrow> nat \<Rightarrow> nat \<Rightarrow> (int \<times> int \<times> bool) list" where
  "looks_from t i j = map (\<lambda>n. (t + int (n * OPS_CHECK), t + int (n * OPS_CHECK), True)) [i..<j]"

text \<open>C40: The view's own poll cannot keep its rule. It looks every minute, and reads a host that publishes every
  fifteen at the first look at which the answer is 450 seconds old, which is the one at 480: with a host that
  answers at once and a loop that is never held up, the second answer carries the rate of 480 seconds and
  the warning that it can be two publications behind, which the first did not.\<close>

theorem view_poll_falls_behind:
  assumes "publishes oe f c 900" "\<And>fs. opener s fs = Some (Inr (c, \<lambda>_. f), fs)" "keeps oe key p"
  shows "\<exists>r1 r2 st fs.
    poll_run oe opener key fallback (looks_from t 0 9) s poll_start Map.empty
      = Some ([OpsReady (parse_snapshot r1), OpsReady (parse_snapshot r2)], st, fs)
    \<and> rs_at r1 = t \<and> raw_cadence_s r1 = Some 900 \<and> rs_sampled_every_s r1 = 450
    \<and> sampling_warning (rs_sampled_every_s r1) \<lparr>cd_secs = Some 900, cd_words = None\<rparr> = None
    \<and> rs_at r2 = t + 480 \<and> raw_cadence_s r2 = Some 900 \<and> rs_sampled_every_s r2 = 480
    \<and> sampling_warning (rs_sampled_every_s r2) \<lparr>cd_secs = Some 900, cd_words = None\<rparr> \<noteq> None"
proof -
  have none: "env_read oe key Map.empty = None"
    by (simp add: env_read_def cache_read_def read_to_string_def split: option.split)
  have ok: "i64_ok d" if "0 \<le> d" "d \<le> 480" for d using that by (simp add: i64_ok_def I64_MIN_def I64_MAX_def)
  obtain r1 st1 fs1 where 1: "poll_turn oe opener key fallback t t s poll_start Map.empty
      = Some (Some (OpsReady (parse_snapshot r1)), st1, fs1)"
    "rs_at r1 = t" "raw_cadence_s r1 = Some 900" "rs_sampled_every_s r1 = rate_for 900"
    "env_read oe key fs1 = Some r1" "ps_shown st1 = Some t"
    "ps_session st1 = None \<or> (\<exists>d. ps_session st1 = Some (d, \<lambda>_. f) \<and> publishes oe f d 900)"
    using poll_asks [of oe f c 900 key p poll_start opener s Map.empty t fallback] assms none
    by (auto simp: poll_start_def carried_rate_def)
  have fresh: "is_fresh r1 (t + d) (raw_interval r1) \<longleftrightarrow> d < 450" if "0 \<le> d" "d \<le> 480" for d
    using fresh_published [OF 1(3), of "t + d"] ok [OF that] 1(2) by (simp add: I64_MAX_def)
  have stale: "\<forall>k. env_read oe key fs1 = Some k \<longrightarrow> \<not> is_fresh k (t + 480) (raw_interval k) \<and> rs_at k \<le> t + 480"
    using fresh [of 480] 1(2,5) by simp
  obtain d where d: "publishes oe f d 900"
    "ps_session st1 = None \<and> opener s fs1 = Some (Inr (d, \<lambda>_. f), fs1) \<or> ps_session st1 = Some (d, \<lambda>_. f)"
    using 1(7) assms(1,2) by blast
  obtain r2 st2 fs2 where 2: "poll_turn oe opener key fallback (t + 480) (t + 480) s st1 fs1
      = Some (Some (OpsReady (parse_snapshot r2)), st2, fs2)"
    "rs_at r2 = t + 480" "raw_cadence_s r2 = Some 900"
    "rs_sampled_every_s r2 = carried_rate (rate_for 900) (Some t) (t + 480)"
    using poll_asks [where opener = opener and fallback = fallback, OF d(1) assms(3) d(2) stale] 1(2,5) by auto
  have waits: "\<forall>(n, n', taken) \<in> set (looks_from t 1 8). is_fresh r1 n (raw_interval r1)"
    using fresh by (auto simp: looks_from_def OPS_CHECK_def)
  have "looks_from t 0 9 = (t, t, True) # looks_from t 1 8 @ [(t + 480, t + 480, True)]"
    by (simp add: looks_from_def OPS_CHECK_def upt_rec numeral_eq_Suc)
  moreover have "poll_run oe opener key fallback (looks_from t 1 8 @ [(t + 480, t + 480, True)]) s st1 fs1
      = Some ([OpsReady (parse_snapshot r2)], st2, fs2)"
    using poll_run_waits [OF 1(5) _ waits, of st1] 1(2,6) 2(1) by simp
  ultimately have "poll_run oe opener key fallback (looks_from t 0 9) s poll_start Map.empty
      = Some ([OpsReady (parse_snapshot r1), OpsReady (parse_snapshot r2)], st2, fs2)"
    using 1(1) by simp
  moreover have "rs_sampled_every_s r1 = 450" "rs_sampled_every_s r2 = 480"
    using 1(4) 2(4) ok [of 480] by (simp_all add: rate_for_def carried_rate_def)
  moreover have "sampling_warning 450 \<lparr>cd_secs = Some 900, cd_words = None\<rparr> = None"
    "sampling_warning 480 \<lparr>cd_secs = Some 900, cd_words = None\<rparr> \<noteq> None"
    by (simp_all add: sampling_warning_def i64_sat_def I64_MAX_def I64_MIN_def)
  ultimately show ?thesis
    using 1(2,3) 2(2,3) by (intro exI [of _ r1] exI [of _ r2] exI [of _ st2] exI [of _ fs2]) simp
qed

theorem view_poll_falls_behind_witness:
  "\<exists>r1 r2 st fs. poll_run sample_ops sample_opener (lit ''b'') OPS_POLL (looks_from 0 0 9) (sample_host ''m'' ''b'') poll_start Map.empty
      = Some ([OpsReady (parse_snapshot r1), OpsReady (parse_snapshot r2)], st, fs) \<and> rs_sampled_every_s r2 = 480"
proof -
  have p: "publishes sample_ops (sample_answers ''b'') (sample_client [HEALTH_LIST]) 900"
    using sample_publishes [of "''b''"] by (simp add: lit_def)
  have op: "sample_opener (sample_host ''m'' ''b'') fs = Some (Inr (sample_client [HEALTH_LIST], \<lambda>_. sample_answers ''b''), fs)" for fs
    by (simp add: sample_opener_def sample_host_def lit_def)
  have k: "keeps sample_ops (lit ''b'') (lit ''ops'' @ lit ''/'' @ cache_file_name (lit ''b''))"
    by (simp add: keeps_def sample_ops_def sample_raw_text_ok cache_path_def works_def)
  from view_poll_falls_behind [where opener = sample_opener and t = 0 and fallback = OPS_POLL, OF p op k]
  show ?thesis by auto
qed

definition failing_opener :: opener where
  "failing_opener s fs = Some (Inl (lit ''refused''), fs)"

theorem poll_keeps_last_answer_witness:
  "\<exists>states st fs. poll_run sample_ops failing_opener (lit ''b'') OPS_POLL [(0, 0, True), (60, 60, True)] (sample_host ''m'' ''b'')
      poll_start Map.empty = Some (states, st, fs)
    \<and> length states = 2 \<and> keeps_last None states"
proof -
  have none: "env_read sample_ops (lit ''b'') Map.empty = None"
    by (simp add: env_read_def cache_read_def read_to_string_def split: option.split)
  have run: "poll_run sample_ops failing_opener (lit ''b'') OPS_POLL [(0, 0, True), (60, 60, True)] (sample_host ''m'' ''b'')
      poll_start Map.empty = Some ([OpsFailed (lit ''refused'') None, OpsFailed (lit ''refused'') None], poll_start, Map.empty)"
    by (simp add: poll_turn_def none failing_opener_def poll_start_def Let_def)
  from poll_keeps_last_answer [OF run]
  have "keeps_last None [OpsFailed (lit ''refused'') None, OpsFailed (lit ''refused'') None]"
    by (simp only: poll_start_def poll_state.simps)
  then show ?thesis using run by (intro exI conjI) (assumption | simp)+
qed

section \<open>The kept tool list\<close>

lemma connect_relisted:
  assumes "discover_digest disc = Some e" "e \<noteq> d"
    and "connect_with kp svc timeout (Opened disc) fs = Some (Ok c, fs')"
    and "hit (kp_text kp) (kp_fault kp) (kp_now kp) (kp_store kp) fs (discover_info disc ''version'')
           (fingerprint (discover_absent disc)) (Some e) = Missed (Changed d e)"
  shows "\<exists>c0 c1 ttl. cl_asked c0 = [] \<and> list_tools svc c0 = Some (Ok (cl_tools c, ttl), c1)
                 \<and> cl_catalogue c = Relisted (Changed d e) (secs_of_ms ttl)"
proof -
  let ?c0 = "\<lparr>cl_timeout = timeout, cl_server = (discover_info disc ''name'', discover_info disc ''version''),
              cl_tools = [], cl_catalogue = Listed 0, cl_absent = discover_absent disc, cl_broken = None, cl_asked = []\<rparr>"
  obtain out c1 where l: "list_tools svc ?c0 = Some (out, c1)"
    using assms by (auto simp: connect_with_def Let_def split: option.splits)
  show ?thesis
  proof (cases out)
    case (Inl err)
    then show ?thesis using assms l by (simp add: connect_with_def Let_def)
  next
    case (Inr listing)
    obtain tools ttl where "listing = (tools, ttl)" by (cases listing) auto
    then have "cl_tools c = tools" "cl_catalogue c = Relisted (Changed d e) (secs_of_ms ttl)"
      using assms l Inr by (auto simp: connect_with_def Let_def split: prod.splits)
    then show ?thesis using l Inr \<open>listing = (tools, ttl)\<close> by (intro exI [of _ ?c0] exI [of _ c1] exI [of _ ttl]) simp
  qed
qed


definition entry_number :: "entry \<Rightarrow> nat" where
  "entry_number e = to_nat (en_version e, en_absent e, en_digest e, en_tools e, en_ttl_ms e, en_fetched_at e)"

definition sample_entry_text :: entry_text where
  "sample_entry_text =
     \<lparr>et_write = (\<lambda>e. replicate (entry_number e) 0x30), et_read = (\<lambda>t. Some (inv entry_number (length t)))\<rparr>"

lemma sample_entry_text_ok: "entry_text_ok sample_entry_text"
proof -
  have "e = e'" if "entry_number e = entry_number e'" for e e'
    using that by (simp add: entry_number_def)
  then have "inv entry_number (entry_number e) = e" for e
    by (intro inv_f_f injI)
  moreover have "valid_utf8 (replicate n 0x30)" for n
    by (rule valid_utf8_ascii) simp
  ultimately show ?thesis by (simp add: entry_text_ok_def sample_entry_text_def)
qed

definition sample_keeping :: keeping where
  "sample_keeping =
     \<lparr>kp_text = sample_entry_text, kp_store = Some (lit ''l.json''), kp_now = 100, kp_fault = None, kp_dirs = None,
      kp_write = works\<rparr>"

definition sample_digest :: rstring where
  "sample_digest = DIGEST_PREFIX @ replicate 64 0x30"


end
