(* ===== verification/State_Props.thy ===== *)
theory State_Props
  imports State_File App_Props
begin

text \<open>
  What the state file promises: a run's state reads back as it was saved, a write leaves the old file or the
  new one; and the file that cannot be read, which is not kept.
\<close>

section \<open>Reading back\<close>

text \<open>The keys of the file differ.\<close>

lemma state_keys:
  "lit ''last_update'' \<noteq> lit ''upgrade_started_at''" "lit ''last_update'' \<noteq> lit ''hosts''" "lit ''last_update'' \<noteq> lit ''selected_host''"
  "lit ''last_update'' \<noteq> lit ''filter_query''" "lit ''last_update'' \<noteq> lit ''sort''" "lit ''last_update'' \<noteq> lit ''views''"
  "lit ''last_update'' \<noteq> lit ''saved_filters''" "lit ''upgrade_started_at'' \<noteq> lit ''last_update''" "lit ''upgrade_started_at'' \<noteq> lit ''hosts''"
  "lit ''upgrade_started_at'' \<noteq> lit ''selected_host''" "lit ''upgrade_started_at'' \<noteq> lit ''filter_query''" "lit ''upgrade_started_at'' \<noteq> lit ''sort''"
  "lit ''upgrade_started_at'' \<noteq> lit ''views''" "lit ''upgrade_started_at'' \<noteq> lit ''saved_filters''" "lit ''hosts'' \<noteq> lit ''last_update''"
  "lit ''hosts'' \<noteq> lit ''upgrade_started_at''" "lit ''hosts'' \<noteq> lit ''selected_host''" "lit ''hosts'' \<noteq> lit ''filter_query''"
  "lit ''hosts'' \<noteq> lit ''sort''" "lit ''hosts'' \<noteq> lit ''views''" "lit ''hosts'' \<noteq> lit ''saved_filters''"
  "lit ''selected_host'' \<noteq> lit ''last_update''" "lit ''selected_host'' \<noteq> lit ''upgrade_started_at''" "lit ''selected_host'' \<noteq> lit ''hosts''"
  "lit ''selected_host'' \<noteq> lit ''filter_query''" "lit ''selected_host'' \<noteq> lit ''sort''" "lit ''selected_host'' \<noteq> lit ''views''"
  "lit ''selected_host'' \<noteq> lit ''saved_filters''" "lit ''filter_query'' \<noteq> lit ''last_update''" "lit ''filter_query'' \<noteq> lit ''upgrade_started_at''"
  "lit ''filter_query'' \<noteq> lit ''hosts''" "lit ''filter_query'' \<noteq> lit ''selected_host''" "lit ''filter_query'' \<noteq> lit ''sort''"
  "lit ''filter_query'' \<noteq> lit ''views''" "lit ''filter_query'' \<noteq> lit ''saved_filters''" "lit ''sort'' \<noteq> lit ''last_update''"
  "lit ''sort'' \<noteq> lit ''upgrade_started_at''" "lit ''sort'' \<noteq> lit ''hosts''" "lit ''sort'' \<noteq> lit ''selected_host''"
  "lit ''sort'' \<noteq> lit ''filter_query''" "lit ''sort'' \<noteq> lit ''views''" "lit ''sort'' \<noteq> lit ''saved_filters''"
  "lit ''views'' \<noteq> lit ''last_update''" "lit ''views'' \<noteq> lit ''upgrade_started_at''" "lit ''views'' \<noteq> lit ''hosts''"
  "lit ''views'' \<noteq> lit ''selected_host''" "lit ''views'' \<noteq> lit ''filter_query''" "lit ''views'' \<noteq> lit ''sort''"
  "lit ''views'' \<noteq> lit ''saved_filters''" "lit ''saved_filters'' \<noteq> lit ''last_update''" "lit ''saved_filters'' \<noteq> lit ''upgrade_started_at''"
  "lit ''saved_filters'' \<noteq> lit ''hosts''" "lit ''saved_filters'' \<noteq> lit ''selected_host''" "lit ''saved_filters'' \<noteq> lit ''filter_query''"
  "lit ''saved_filters'' \<noteq> lit ''sort''" "lit ''saved_filters'' \<noteq> lit ''views''" "lit ''started_at'' \<noteq> lit ''finished_at''"
  "lit ''started_at'' \<noteq> lit ''success''" "lit ''finished_at'' \<noteq> lit ''started_at''" "lit ''finished_at'' \<noteq> lit ''success''"
  "lit ''success'' \<noteq> lit ''started_at''" "lit ''success'' \<noteq> lit ''finished_at''"
  by (simp_all add: lit_def)

definition time_ok :: "u64 option \<Rightarrow> bool" where
  "time_ok t \<longleftrightarrow> (case t of None \<Rightarrow> True | Some v \<Rightarrow> uint v < 2 ^ 63)"

definition record_ok :: "host_update \<Rightarrow> bool" where
  "record_ok h \<longleftrightarrow> time_ok (hu_started_at h) \<and> time_ok (hu_finished_at h)"

lemma table_at_table [simp]: "table_at k (TTable t) = t k"
  by (simp add: table_at_def)

lemma insert_opt_other: "k \<noteq> j \<Longrightarrow> insert_opt_u64 k x t j = t j"
  by (simp add: insert_opt_u64_def split: option.split)

lemma insert_opt_same:
  "insert_opt_u64 k x t k = (case x of None \<Rightarrow> t k | Some v \<Rightarrow> Some (TInt (min (uint v) (2 ^ 63 - 1))))"
  by (simp add: insert_opt_u64_def split: option.split)

lemma time_back:
  assumes "time_ok x" "f k = (case x of None \<Rightarrow> None | Some v \<Rightarrow> Some (TInt (min (uint v) (2 ^ 63 - 1))))"
  shows "get_opt_u64 (TTable f) k = x"
  using assms by (cases x) (auto simp: get_opt_u64_def time_ok_def min_def)

lemma host_entry_back:
  assumes "record_ok h"
  shows "host_of_entry (host_entry h) = h"
proof -
  have t: "time_ok (hu_started_at h)" "time_ok (hu_finished_at h)" using assms by (simp_all add: record_ok_def)
  have "get_opt_u64 (host_entry h) (lit ''started_at'') = hu_started_at h"
    unfolding host_entry_def by (rule time_back [OF t(1)]) (simp add: state_keys insert_opt_other insert_opt_same split: option.split)
  moreover have "get_opt_u64 (host_entry h) (lit ''finished_at'') = hu_finished_at h"
    unfolding host_entry_def by (rule time_back [OF t(2)]) (simp add: state_keys insert_opt_other insert_opt_same split: option.split)
  moreover have "Option.bind (table_at (lit ''success'') (host_entry h)) t_bool = Some (hu_success h)"
    by (simp add: host_entry_def t_bool_def)
  ultimately show ?thesis by (simp add: host_of_entry_def)
qed

text \<open>What of a state survives: times a signed integer holds, a query that is not blank, three saved
  queries. The application's own state always has the second.\<close>

definition state_ok :: "app_state \<Rightarrow> bool" where
  "state_ok st \<longleftrightarrow>
     time_ok (st_last_update st) \<and> time_ok (st_upgrade_started_at st)
     \<and> (\<forall>k h. st_hosts st k = Some h \<longrightarrow> record_ok h)
     \<and> (case st_filter_query st of None \<Rightarrow> True | Some q \<Rightarrow> trim q \<noteq> [])
     \<and> length (st_saved_filters st) \<le> 3"

lemma state_table_at:
  "state_table st (lit ''last_update'') =
     (case st_last_update st of None \<Rightarrow> None | Some v \<Rightarrow> Some (TInt (min (uint v) (2 ^ 63 - 1))))"
  "state_table st (lit ''upgrade_started_at'') =
     (case st_upgrade_started_at st of None \<Rightarrow> None | Some v \<Rightarrow> Some (TInt (min (uint v) (2 ^ 63 - 1))))"
  "state_table st (lit ''hosts'') =
     (if st_hosts st = Map.empty then None else Some (TTable (\<lambda>k. map_option host_entry (st_hosts st k))))"
  "state_table st (lit ''selected_host'') = map_option TStr (st_selected_host st)"
  "state_table st (lit ''filter_query'') =
     (case st_filter_query st of None \<Rightarrow> None | Some s \<Rightarrow> if trim s = [] then None else Some (TStr s))"
  "state_table st (lit ''sort'') = map_option TStr (st_sort st)"
  "state_table st (lit ''views'') =
     (if st_views st = Map.empty then None else Some (TTable (\<lambda>k. map_option TStr (st_views st k))))"
  "state_table st (lit ''saved_filters'') =
     (if st_saved_filters st = [] then None else Some (TArr (map TStr (take 3 (st_saved_filters st)))))"
  by (simp_all add: state_table_def Let_def insert_opt_other insert_opt_same state_keys split: option.split)

lemma strings_back [simp]: "List.map_filter t_str (map TStr xs) = xs"
  by (induction xs) (simp_all add: map_filter_simps t_str_def)

lemma string_back: "f k = map_option TStr x \<Longrightarrow> get_opt_string (TTable f) k = x"
  by (cases x) (simp_all add: get_opt_string_def t_str_def)

lemma state_back:
  assumes "state_ok st"
  shows "state_of_toml (TTable (state_table st)) = st"
proof -
  let ?v = "TTable (state_table st)"
  have ok: "time_ok (st_last_update st)" "time_ok (st_upgrade_started_at st)"
    "\<And>k h. st_hosts st k = Some h \<Longrightarrow> record_ok h" "length (st_saved_filters st) \<le> 3"
    using assms by (simp_all add: state_ok_def)
  have q: "state_table st (lit ''filter_query'') = map_option TStr (st_filter_query st)"
    using assms by (cases "st_filter_query st") (simp_all add: state_table_at state_ok_def)
  have hosts: "(case Option.bind (table_at (lit ''hosts'') ?v) t_table of
           None \<Rightarrow> Map.empty | Some t \<Rightarrow> (\<lambda>k. map_option host_of_entry (t k))) = st_hosts st"
  proof (cases "st_hosts st = Map.empty")
    case False
    have "map_option host_of_entry (map_option host_entry (st_hosts st k)) = st_hosts st k" for k
      using ok(3) [of k] host_entry_back by (cases "st_hosts st k") simp_all
    then show ?thesis using False by (simp add: state_table_at t_table_def)
  qed (simp add: state_table_at)
  have views: "(case Option.bind (table_at (lit ''views'') ?v) t_table of
           None \<Rightarrow> Map.empty | Some t \<Rightarrow> (\<lambda>k. Option.bind (t k) t_str)) = st_views st"
  proof (cases "st_views st = Map.empty")
    case False
    have "Option.bind (map_option TStr (st_views st k)) t_str = st_views st k" for k
      by (cases "st_views st k") (simp_all add: t_str_def)
    then show ?thesis using False by (simp add: state_table_at t_table_def)
  qed (simp add: state_table_at)
  have saved: "(case Option.bind (table_at (lit ''saved_filters'') ?v) t_array of
           None \<Rightarrow> [] | Some vs \<Rightarrow> take 3 (List.map_filter t_str vs)) = st_saved_filters st"
    using ok(4) by (simp add: state_table_at t_array_def)
  have times: "get_opt_u64 ?v (lit ''last_update'') = st_last_update st"
    "get_opt_u64 ?v (lit ''upgrade_started_at'') = st_upgrade_started_at st"
    by (rule time_back, rule ok, rule state_table_at)+
  have strings: "get_opt_string ?v (lit ''selected_host'') = st_selected_host st"
    "get_opt_string ?v (lit ''filter_query'') = st_filter_query st" "get_opt_string ?v (lit ''sort'') = st_sort st"
    using string_back [of "state_table st", OF state_table_at(4)] string_back [of "state_table st", OF q]
      string_back [of "state_table st", OF state_table_at(6)] by simp_all
  show ?thesis
    unfolding state_of_toml_def hosts views saved times strings by simp
qed

lemma save_state_file:
  assumes "toml_ok te" "save_state te w path st fs = (Ok (), fs')"
  obtains tx where "fs' (state_file_path path) = Some tx" "valid_utf8 tx" "te_read te tx = Inr (TTable (state_table st))"
proof -
  from assms(2) obtain tx where t: "te_write te (state_table st) = Inr tx"
    "write_atomic w (state_file_path path) tx fs = (Ok (), fs')"
    by (auto simp: save_state_def split: sum.splits)
  have "fs' (state_file_path path) = Some tx"
    using write_atomic_Ok [of w "state_file_path path" tx fs] t(2) by simp
  then show thesis using that t(1) assms(1) by (auto simp: toml_ok_def)
qed

text \<open>C26: What the application saves of itself, its next start reads back: the hosts' upgrade records, an upgrade
  that was under way, the selection, the query, the views. A write that fails leaves the file that was
  there.\<close>

theorem state_reads_back:
  assumes "toml_ok te" "state_ok (app_state_of a)"
  shows "(fst (save_state te w path (app_state_of a) fs) = Ok () \<longrightarrow>
            load_state te None renames path (snd (save_state te w path (app_state_of a) fs))
              = (\<lparr>sl_state = app_state_of a, sl_notice = None\<rparr>, snd (save_state te w path (app_state_of a) fs)))
    \<and> (\<forall>e. fst (save_state te w path (app_state_of a) fs) = Err e \<longrightarrow>
            snd (save_state te w path (app_state_of a) fs) (state_file_path path) = fs (state_file_path path))"
proof (intro conjI impI allI)
  obtain out fs' where s: "save_state te w path (app_state_of a) fs = (out, fs')"
    by (cases "save_state te w path (app_state_of a) fs") auto
  assume "fst (save_state te w path (app_state_of a) fs) = Ok ()"
  with s have "save_state te w path (app_state_of a) fs = (Ok (), fs')" by simp
  then obtain tx where "fs' (state_file_path path) = Some tx" "valid_utf8 tx"
    "te_read te tx = Inr (TTable (state_table (app_state_of a)))"
    by (rule save_state_file [OF assms(1)])
  then show "load_state te None renames path (snd (save_state te w path (app_state_of a) fs))
              = (\<lparr>sl_state = app_state_of a, sl_notice = None\<rparr>, snd (save_state te w path (app_state_of a) fs))"
    using s state_back [OF assms(2)] by (simp add: load_state_def read_to_string_def)
next
  fix e
  assume "fst (save_state te w path (app_state_of a) fs) = Err e"
  then show "snd (save_state te w path (app_state_of a) fs) (state_file_path path) = fs (state_file_path path)"
    using write_atomic_fails [OF scratch_not_state(1)]
    by (auto simp: save_state_def split: sum.splits)
qed

section \<open>A file that cannot be read\<close>

text \<open>A state file the system would not let the program read, or whose bytes are not text, is not moved
  aside, as one whose syntax is wrong is: it stays where it is, the state starts empty, and the next save
  that works replaces it. What it held is then nowhere, though the notice called the history unavailable for
  the session only.\<close>

theorem unreadable_history_is_lost:
  assumes "fs (state_file_path path) = Some old" "\<not> valid_utf8 old" "toml_ok te"
    and "\<forall>q. q \<noteq> state_file_path path \<longrightarrow> fs q \<noteq> Some old"
    and "save_state te w path st (snd (load_state te None True path fs)) = (Ok (), fs')"
  shows "sl_state (fst (load_state te None True path fs)) = state_default
    \<and> snd (load_state te None True path fs) = fs
    \<and> (\<forall>q. fs' q \<noteq> Some old)"
proof -
  have l: "sl_state (fst (load_state te None True path fs)) = state_default" "snd (load_state te None True path fs) = fs"
    using assms(1,2) by (simp_all add: load_state_def read_to_string_def Let_def)
  from assms(5) l(2) obtain tx where t: "te_write te (state_table st) = Inr tx"
    "write_atomic w (state_file_path path) tx fs = (Ok (), fs')"
    by (auto simp: save_state_def split: sum.splits)
  have fs': "fs' = (fs(scratch_name (wa_pid w) (state_file_path path) := None))(state_file_path path \<mapsto> tx)"
    using t(2) by (auto simp: write_atomic_def write_file_def Let_def split: option.splits)
  have "tx \<noteq> old" using assms(2,3) t(1) by (auto simp: toml_ok_def)
  then have "fs' q \<noteq> Some old" for q using assms(4) by (simp add: fs')
  then show ?thesis using l by simp
qed

text \<open>A TOML that writes one table, to show that the hypothesis on it can hold.\<close>

definition sample_toml :: "toml_table \<Rightarrow> toml_env" where
  "sample_toml t0 =
     \<lparr>te_read = (\<lambda>s. if s = lit ''t'' then Inr (TTable t0) else Inl (lit ''expected a table'')),
      te_write = (\<lambda>t. if t = t0 then Inr (lit ''t'') else Inl (lit ''unsupported''))\<rparr>"

lemma sample_toml_ok: "toml_ok (sample_toml t0)"
  by (auto simp: toml_ok_def sample_toml_def lit_def intro!: valid_utf8_ascii)

definition writes :: write_answers where
  "writes = \<lparr>wa_pid = 7, wa_create = None, wa_write = None, wa_sync = None, wa_rename = None, wa_partial = [],
             wa_removes = True\<rparr>"

lemma sample_state_saves:
  "fst (save_state (sample_toml (state_table st)) writes path st fs) = Ok ()"
  by (simp add: save_state_def sample_toml_def write_atomic_def write_file_def writes_def)

theorem state_reads_back_witness:
  "let a = sample_app []; te = sample_toml (state_table (app_state_of a))
   in load_state te None True (lit ''config.toml'') (snd (save_state te writes (lit ''config.toml'') (app_state_of a) Map.empty))
        = (\<lparr>sl_state = app_state_of a, sl_notice = None\<rparr>,
           snd (save_state te writes (lit ''config.toml'') (app_state_of a) Map.empty))"
proof -
  have "state_ok (app_state_of (sample_app []))"
    by (simp add: state_ok_def app_state_of_def sample_app_def time_ok_def app_new_def)
  from state_reads_back [OF sample_toml_ok this] sample_state_saves
  show ?thesis unfolding Let_def by blast
qed

theorem unreadable_history_is_lost_witness:
  "let te = sample_toml (state_table state_default); fs = Map.empty(state_file_path (lit ''config.toml'') \<mapsto> [0xFF])
   in \<exists>fs'. save_state te writes (lit ''config.toml'') state_default (snd (load_state te None True (lit ''config.toml'') fs))
        = (Ok (), fs') \<and> (\<forall>q. fs' q \<noteq> Some [0xFF])"
proof -
  let ?te = "sample_toml (state_table state_default)" and ?p = "lit ''config.toml''"
  let ?fs = "Map.empty(state_file_path ?p \<mapsto> [0xFF])"
  obtain fs' where s: "save_state ?te writes ?p state_default (snd (load_state ?te None True ?p ?fs)) = (Ok (), fs')"
    using sample_state_saves [of state_default ?p] by (metis prod.collapse)
  have bad: "\<not> valid_utf8 [0xFF]" by code_simp
  have "\<forall>q. fs' q \<noteq> Some [0xFF]"
    using unreadable_history_is_lost [OF _ bad sample_toml_ok _ s] by simp
  then show ?thesis using s by (auto simp: Let_def)
qed

end
