(* ===== verification/Spec2Isabelle.thy ===== *)
theory Spec2Isabelle
  imports Proto_Props Run_Props Exec_Run Vault_Api_Props Settings_Props Upgrade_Props Keys_Props
    Session_Props Pane_Props Layout_Props Server_Props Pairing_Props Ssh_Config
    Ops_Props Ops_Rate_Props State_Props
begin

text \<open>
  A verification of multitop, a terminal dashboard for a fleet of machines
  (crates/multitop), of the agent it runs on each host (crates/agent), and of the
  encrypted password vault it keeps (crates/vault).

  \<^bold>\<open>How the parts interact.\<close>  The application has one panel per configured host. Each
  panel has a monitor task, which starts the host's agent over ssh, installs the agent when
  the host has none, reads binary MTOP packets from it and turns them into messages for the
  event loop. The event loop applies messages and key presses to the application's state;
  what a key press decides becomes commands for the task runner. An upgrade is a second
  conversation with the agent (the exec channel), whose output is painted into the panel's
  log. Passwords an upgrade needs come from the operating system's credential store and from
  the vault. \<open>--serve\<close> answers a phone over HTTP with what a collector made of the same packets.

  \<^bold>\<open>Where what is modelled.\<close>  Source paths are under src/crates.

  Shared: \<open>Prelude\<close> (results, words, lists), \<open>Text\<close>, \<open>Text_Lines\<close>, \<open>Text_Chars\<close> (Rust
  strings as their UTF-8 bytes, with the standard library's operations on them that the
  program uses), \<open>Float_Bits\<close> (IEEE 754 numbers as their bits, with the conversions of
  agent/src/conv.rs).

  The agent's protocols: \<open>Wire\<close>, \<open>Exec_Frames\<close>, \<open>Proto\<close> model agent/src/proto and the codecs
  of agent/src/exec; \<open>Proto_Codec\<close> and \<open>Proto_Props\<close> prove them to round-trip. \<open>Sieve\<close>,
  \<open>Exec_Pump\<close>, \<open>Exec_Lock\<close>, \<open>Exec_Script\<close>, \<open>Exec_Run\<close> are the modules of those names in
  agent/src/exec: the marker sieve, the reading of a child's streams, the upgrade lock, the
  quoting of the command, and a run from its request to the frame that ends it. \<open>Line_Reader\<close>
  is agent/src/proc_read.rs and stdin_watch.rs, \<open>Escape\<close> is agent/src/escape.rs.

  The vault: \<open>Vault_Header\<close> (format), \<open>Vault_Crypto\<close>, \<open>Vault_Lockout\<close>, \<open>Vault_Rollback\<close>,
  \<open>Vault_Store\<close> (the atomic write, one system call at a time) and \<open>Vault_Api\<close>, which composes
  them; \<open>Vault_Api_Props\<close> proves what a caller is promised.

  The application: \<open>Ring_Lines\<close>, \<open>History\<close>, \<open>Panel_Model\<close> and \<open>Panel_Filter\<close> are a panel's
  data (panel.rs, history.rs, filter.rs); \<open>App_Model\<close>, \<open>App_Views\<close>, \<open>App_Upgrade\<close> and
  \<open>Vault_Ui\<close> are the state and its messages (app/*.rs); \<open>Keys\<close> is the dispatch of a key press
  (run/handle_key.rs, confirm_keys.rs, nav_keys.rs, palette.rs); \<open>Settings\<close>,
  \<open>Settings_Actions\<close> and \<open>Ssh_Config\<close> are the settings panel (passwords/*.rs,
  password_actions.rs, config/ssh.rs). \<open>App_Props\<close>, \<open>Run_Props\<close>, \<open>Keys_Props\<close> and
  \<open>Settings_Props\<close> hold their properties.

  What is drawn: \<open>Text_Layout\<close> (layout.rs), \<open>Pane_Window\<close> (ui/windowing.rs, refit.rs) and
  \<open>Upgrade_View\<close> (upgrade_view/), with \<open>Layout_Props\<close> and \<open>Pane_Props\<close>.

  The tasks: \<open>Painter\<close> and \<open>Upgrade_Read\<close> are an upgrade (tasks/painted.rs, upgrade.rs,
  verdict.rs); \<open>Ssh_Text\<close>, \<open>Agent_Stream\<close> and \<open>Monitor_Session\<close> are a monitor task
  (ssh_opts.rs, ssh/*.rs, stream/prod.rs, run/spawn.rs); \<open>Painter_Props\<close>, \<open>Upgrade_Props\<close>,
  \<open>Line_Props\<close> and \<open>Session_Props\<close> hold their properties.

  The companion server: \<open>Serve_Token\<close> (serve_token.rs, owner_file.rs), \<open>Health\<close> (health.rs),
  \<open>Server\<close> (server.rs), \<open>Pairing\<close> (pairing.rs, serve_start.rs), with \<open>Server_Props\<close> and
  \<open>Pairing_Props\<close>.

  The Ops view: \<open>Json\<close> (a parsed JSON value), \<open>Ops_Status\<close>, \<open>Ops_Model\<close> and \<open>Ops_Answers\<close> (ops/status.rs,
  model.rs, model_health.rs, rate.rs, deploy.rs, triage.rs, mod.rs, answers.rs) are the words a host
  answers in and what is read from them; \<open>State_File\<close> (state.rs) is the atomic write the kept files
  share; \<open>Catalogue\<close> and \<open>Mcp_Client\<close> (mcp/) are the session with a host and its kept tool list;
  \<open>Ops_Gather\<close> (gather.rs, cache.rs) asks one host everything and keeps the answer; \<open>Ops_Pass\<close>
  (pass.rs, tick.rs, tasks/ops_agent.rs, tasks/ops_poll.rs, mcp/spawn.rs) says who is asked when.
  \<open>Ops_Props\<close>, \<open>Ops_Rate_Props\<close> and \<open>State_Props\<close> hold their properties. The list of tools has as many
  pages as the host says: \<open>list_pages\<close> is then \<open>None\<close> when it never ends. The text of a kept file is
  an argument (\<open>raw_text\<close>, \<open>entry_text\<close>, \<open>toml_env\<close>), as is what the host answers (\<open>service\<close>).

  \<^bold>\<open>What the groups of lemmas show.\<close>
  Round trips: what an encoder writes its decoder reads back (protocol payloads, exec frames,
  vault files, the token file, the pairing string).
  Refinements: the line log's ring is a bounded list; the Upgrade pane is the window over a
  list it never builds; an upgrade as the application shows it is what the agent's child said.
  Independence of how bytes arrive: the sieve, the line reader, the painter and the packet
  stream give the same result however their input is cut into pieces.
  Invariants and safety: the upgrade lock is held by a run and given back by it; a failed or
  interrupted write of the vault leaves an old or the new file; nothing runs on a host without
  a confirmation on screen; a task of a replaced list of hosts changes nothing; nothing is told
  over HTTP without the token.
  Termination: every run of the exec channel ends with the frame that says so, every upgrade
  settles the panel it belongs to.
  Several theorems state behaviour that is not what was meant; they are in the findings of the
  manifest and their texts say so.

  \<^bold>\<open>Bounds and fuel.\<close>  Machine integers are words of their width wherever they can wrap or
  saturate; lengths and indices that the address space bounds are \<open>nat\<close>, with the bound as a
  hypothesis where it matters. Loops over input recurse on the input. The loops over system
  calls take their number of steps: writing a vault takes at most 18 calls (\<open>write_calls\<close>),
  and making the token file at most 6, and both are proved to be done by then, so that the
  fuel is never what ends them. The passes of the pump and the arrivals of a stream are lists
  the environment supplies.

  \<^bold>\<open>Parameters.\<close>  What is not under src is an argument: the cryptographic primitives
  (\<open>primitives\<close>, with the hypotheses \<open>crypto_ok\<close>), JSON and TOML text (\<open>contents_json\<close>,
  \<open>lockout_json\<close>), the credential store (\<open>keychain\<close>), Unicode tables, decimal parsing and
  printing of floating-point numbers, the terminal parser \<open>vte\<close>, the agents built into the
  binary, and what the operating system answers to each call. Each set of hypotheses is
  instantiated by a concrete value in the witnesses.

  \<^bold>\<open>Not modelled.\<close>  Rendering to the terminal (ui/draw.rs, keybar.rs, modals.rs, graphs.rs, fetch_render.rs,
  ops/render, the agent's surface, color and chrome modules) is output of the drawing library, and
  the amounts the Ops view prints are decimal text of floating-point numbers. The samplers of the
  agent (proc.rs, sys.rs, docker.rs and their kin) read \<open>/proc\<close> and sockets. The platform bindings
  of the vault (tpm2.rs, fprintd.rs, secure_enclave.rs, mlock.rs) are calls into the operating
  system. The event loop's select, the spawning of tasks, the background palette, notifications,
  the syntax of the configuration file and the command line are left out: they are listed in the
  manifest with their reasons.
\<close>

end
